(* ===== verification/Prelude.thy ===== *)
theory Prelude
  imports Main "HOL-Library.Char_ord" "HOL-Library.List_Lexorder" "HOL-Library.Sublist"
begin

text \<open>
  What the component theories share: the JavaScript containers and string operations the
  sources use, with the lemmas the components' proofs rest on.

  \<^item> A JavaScript string is a \<^typ>\<open>string\<close>, one \<^typ>\<open>char\<close> per UTF-16 code unit: the model
    covers strings whose code units are below 256 (there are then no surrogate pairs, and
    \<open>length\<close>, indexing and comparison by code unit are those of JavaScript).
  \<^item> A \<open>Map\<close>, a \<open>Set\<close> and a plain object keep insertion order: they are association lists
    with distinct keys, updated in place by \<open>map_set\<close> (an existing key keeps its position,
    a new one goes to the end) and shrunk by \<open>map_delete\<close>.
  \<^item> An exception is the left value of a sum; \<open>bind_res\<close> sequences computations that may
    throw.
\<close>

named_theorems js_simps \<open>rewrite rules for the JavaScript containers\<close>

section \<open>Results that may be exceptions\<close>

fun bind_res :: "'e + 'a \<Rightarrow> ('a \<Rightarrow> 'e + 'b) \<Rightarrow> 'e + 'b" where
  "bind_res (Inl e) f = Inl e"
| "bind_res (Inr x) f = f x"

lemma bind_res_Inr_iff: "bind_res r f = Inr y \<longleftrightarrow> (\<exists>x. r = Inr x \<and> f x = Inr y)"
  by (cases r) auto

lemma bind_res_Inl_iff:
  "bind_res r f = Inl e \<longleftrightarrow> r = Inl e \<or> (\<exists>x. r = Inr x \<and> f x = Inl e)"
  by (cases r) auto

lemma bind_res_assoc: "bind_res (bind_res r f) g = bind_res r (\<lambda>x. bind_res (f x) g)"
  by (cases r) auto

section \<open>Arrays\<close>

text \<open>\<open>findIndex\<close>: the position of the first element that satisfies the predicate (the
  sources compare the result with -1, here \<^term>\<open>None\<close>).\<close>

fun find_index :: "('a \<Rightarrow> bool) \<Rightarrow> 'a list \<Rightarrow> nat option" where
  "find_index P [] = None"
| "find_index P (x # xs) = (if P x then Some 0 else map_option Suc (find_index P xs))"

text \<open>\<open>splice(idx, 1)\<close>: the array without the element at \<open>idx\<close>.\<close>

definition remove_at :: "nat \<Rightarrow> 'a list \<Rightarrow> 'a list" where
  "remove_at i xs = take i xs @ drop (Suc i) xs"

lemma find_index_None_iff: "find_index P xs = None \<longleftrightarrow> (\<forall>x\<in>set xs. \<not> P x)"
  by (induction xs) auto

lemma find_index_SomeD:
  "find_index P xs = Some i \<Longrightarrow> i < length xs \<and> P (xs ! i) \<and> (\<forall>j<i. \<not> P (xs ! j))"
proof (induction xs arbitrary: i)
  case Nil
  then show ?case by simp
next
  case (Cons x xs)
  show ?case
  proof (cases "P x")
    case True
    with Cons.prems show ?thesis by auto
  next
    case False
    with Cons.prems obtain k where k: "find_index P xs = Some k" "i = Suc k" by auto
    from Cons.IH [OF k(1)] k(2) False show ?thesis
      by (auto simp: nth_Cons split: nat.splits)
  qed
qed

lemma find_index_split:
  assumes "find_index P xs = Some i"
  obtains ys x zs where "xs = ys @ x # zs" "length ys = i" "P x" "\<forall>y\<in>set ys. \<not> P y"
proof
  from find_index_SomeD [OF assms]
  have i: "i < length xs" and p: "P (xs ! i)" and less: "\<forall>j<i. \<not> P (xs ! j)" by auto
  show "xs = take i xs @ xs ! i # drop (Suc i) xs" using i by (simp add: id_take_nth_drop [symmetric])
  show "length (take i xs) = i" using i by simp
  show "P (xs ! i)" by (rule p)
  show "\<forall>y\<in>set (take i xs). \<not> P y" using less i by (auto simp: in_set_conv_nth)
qed

lemma remove_at_split [simp]: "remove_at (length ys) (ys @ x # zs) = ys @ zs"
  by (simp add: remove_at_def)

lemma remove_at_0 [simp]: "remove_at 0 (x # xs) = xs"
  by (simp add: remove_at_def)

lemma set_remove_at: "set (remove_at i xs) \<subseteq> set xs"
  by (auto simp: remove_at_def dest: in_set_takeD in_set_dropD)

lemma length_remove_at: "i < length xs \<Longrightarrow> length (remove_at i xs) = length xs - 1"
  by (simp add: remove_at_def)

text \<open>Removing the first match, as \<open>findIndex\<close> followed by \<open>splice\<close> does.\<close>

fun remove_first :: "('a \<Rightarrow> bool) \<Rightarrow> 'a list \<Rightarrow> 'a list" where
  "remove_first P [] = []"
| "remove_first P (x # xs) = (if P x then xs else x # remove_first P xs)"

lemma remove_first_find_index:
  "(case find_index P xs of None \<Rightarrow> xs | Some i \<Rightarrow> remove_at i xs) = remove_first P xs"
  by (induction xs) (auto simp: remove_at_def split: option.splits)

lemma remove_at_find_index: "find_index P xs = Some i \<Longrightarrow> remove_at i xs = remove_first P xs"
  using remove_first_find_index [where P = P and xs = xs] by simp

lemma remove_first_id: "\<forall>x\<in>set xs. \<not> P x \<Longrightarrow> remove_first P xs = xs"
  by (induction xs) auto

lemma remove_first_split:
  "List.find P xs = Some c \<Longrightarrow> \<exists>ys zs. xs = ys @ c # zs \<and> remove_first P xs = ys @ zs"
proof (induction xs)
  case Nil
  then show ?case by simp
next
  case (Cons x xs)
  show ?case
  proof (cases "P x")
    case True
    with Cons.prems have "x # xs = [] @ c # xs \<and> remove_first P (x # xs) = [] @ xs" by simp
    then show ?thesis by blast
  next
    case False
    with Cons obtain ys zs where "xs = ys @ c # zs" "remove_first P xs = ys @ zs" by auto
    with False have "x # xs = (x # ys) @ c # zs \<and> remove_first P (x # xs) = (x # ys) @ zs" by simp
    then show ?thesis by blast
  qed
qed

lemma set_remove_first: "set (remove_first P xs) \<subseteq> set xs"
  by (induction xs) auto

lemma remove_first_keeps: "x \<in> set xs \<Longrightarrow> \<not> P x \<Longrightarrow> x \<in> set (remove_first P xs)"
  by (induction xs) auto

lemma length_remove_first_le: "length (remove_first P xs) \<le> length xs"
  by (induction xs) auto

lemma length_remove_first: "\<exists>x\<in>set xs. P x \<Longrightarrow> Suc (length (remove_first P xs)) = length xs"
  by (induction xs) auto

lemma filter_remove_first_sub:
  "(\<And>x. P x \<Longrightarrow> Q x) \<Longrightarrow> filter Q (remove_first P xs) = remove_first P (filter Q xs)"
  by (induction xs) auto

lemma length_filter_remove_first_le: "length (filter Q (remove_first P xs)) \<le> length (filter Q xs)"
  by (induction xs) auto

lemma filter_remove_first_disj:
  "(\<And>x. P x \<Longrightarrow> \<not> Q x) \<Longrightarrow> filter Q (remove_first P xs) = filter Q xs"
  by (induction xs) auto

lemma sorted_wrt_remove_first: "sorted_wrt R xs \<Longrightarrow> sorted_wrt R (remove_first P xs)"
  by (induction xs) (auto dest: set_remove_first [THEN subsetD])

lemma remove_first_removes_all:
  assumes "sorted_wrt (\<lambda>a b. \<not> (P a \<and> P b)) xs"
  shows "\<forall>x\<in>set (remove_first P xs). \<not> P x"
  using assms
proof (induction xs)
  case Nil
  then show ?case by simp
next
  case (Cons x xs)
  from Cons.prems have tl: "sorted_wrt (\<lambda>a b. \<not> (P a \<and> P b)) xs"
    and hd: "\<forall>y\<in>set xs. \<not> (P x \<and> P y)" by (auto simp only: sorted_wrt.simps)
  show ?case
  proof (cases "P x")
    case True
    then have "remove_first P (x # xs) = xs" by (simp only: remove_first.simps if_True)
    with hd True show ?thesis by metis
  next
    case False
    then have "set (remove_first P (x # xs)) = insert x (set (remove_first P xs))"
      by (simp only: remove_first.simps if_False list.set)
    then show ?thesis using False Cons.IH [OF tl] by (metis insert_iff)
  qed
qed

text \<open>Removing the first \<open>n\<close> matches.\<close>

primrec drop_matching :: "nat \<Rightarrow> ('a \<Rightarrow> bool) \<Rightarrow> 'a list \<Rightarrow> 'a list" where
  "drop_matching 0 P xs = xs"
| "drop_matching (Suc n) P xs = drop_matching n P (remove_first P xs)"

lemma filter_remove_first_same: "filter P (remove_first P xs) = tl (filter P xs)"
  by (induction xs) auto

lemma filter_drop_matching: "filter P (drop_matching n P xs) = drop n (filter P xs)"
  by (induction n arbitrary: xs) (auto simp: filter_remove_first_same drop_Suc)

lemma filter_drop_matching_disj:
  "(\<And>x. P x \<Longrightarrow> \<not> Q x) \<Longrightarrow> filter Q (drop_matching n P xs) = filter Q xs"
  by (induction n arbitrary: xs) (auto simp: filter_remove_first_disj)

lemma set_drop_matching: "set (drop_matching n P xs) \<subseteq> set xs"
  by (induction n arbitrary: xs) (auto dest: set_remove_first [THEN subsetD])

lemma sorted_wrt_drop_matching: "sorted_wrt R xs \<Longrightarrow> sorted_wrt R (drop_matching n P xs)"
  by (induction n arbitrary: xs) (auto simp: sorted_wrt_remove_first)

lemma length_drop_matching_le: "length (drop_matching n P xs) \<le> length xs"
  by (induction n arbitrary: xs) (auto intro: le_trans length_remove_first_le)

lemma find_index_first_match: "filter P xs = y # ys \<Longrightarrow> \<exists>i. find_index P xs = Some i \<and> xs ! i = y"
proof (induction xs)
  case Nil
  then show ?case by simp
next
  case (Cons x xs)
  then show ?case by (cases "P x") auto
qed

text \<open>\<open>slice(-n)\<close> and \<open>slice(max(0, length - n))\<close>: the last \<open>n\<close> elements.\<close>

definition take_last :: "nat \<Rightarrow> 'a list \<Rightarrow> 'a list" where
  "take_last n xs = drop (length xs - n) xs"

lemma length_take_last [simp]: "length (take_last n xs) = min n (length xs)"
  by (simp add: take_last_def)

lemma take_last_all: "length xs \<le> n \<Longrightarrow> take_last n xs = xs"
  by (simp add: take_last_def)

lemma take_last_Cons: "n < length (x # xs) \<Longrightarrow> take_last n (x # xs) = take_last n xs"
  by (simp add: take_last_def Suc_diff_le)

lemma take_last_snoc: "0 < n \<Longrightarrow> take_last n (xs @ [x]) = take_last (n - 1) xs @ [x]"
  by (cases n) (auto simp: take_last_def)

lemma set_take_last: "set (take_last n xs) \<subseteq> set xs"
  by (auto simp: take_last_def dest: in_set_dropD)

lemma take_append_take_last: "take (length xs - n) xs @ take_last n xs = xs"
  by (simp add: take_last_def)

lemma sorted_wrt_take_last: "sorted_wrt R xs \<Longrightarrow> sorted_wrt R (take_last n xs)"
  by (simp add: take_last_def sorted_wrt_drop)

lemma suffix_take_last: "suffix (take_last n xs) xs"
  by (simp add: take_last_def suffix_drop)

section \<open>Maps and objects that keep insertion order\<close>

type_synonym ('k, 'v) js_map = "('k \<times> 'v) list"

fun map_set :: "'k \<Rightarrow> 'v \<Rightarrow> ('k, 'v) js_map \<Rightarrow> ('k, 'v) js_map" where
  "map_set k v [] = [(k, v)]"
| "map_set k v ((k', v') # m) = (if k = k' then (k, v) # m else (k', v') # map_set k v m)"

definition map_delete :: "'k \<Rightarrow> ('k, 'v) js_map \<Rightarrow> ('k, 'v) js_map" where
  "map_delete k m = filter (\<lambda>(k', _). k' \<noteq> k) m"

abbreviation map_get :: "('k, 'v) js_map \<Rightarrow> 'k \<Rightarrow> 'v option" where
  "map_get m k \<equiv> map_of m k"

abbreviation map_has :: "('k, 'v) js_map \<Rightarrow> 'k \<Rightarrow> bool" where
  "map_has m k \<equiv> map_of m k \<noteq> None"

abbreviation map_keys :: "('k, 'v) js_map \<Rightarrow> 'k list" where
  "map_keys m \<equiv> map fst m"

abbreviation map_values :: "('k, 'v) js_map \<Rightarrow> 'v list" where
  "map_values m \<equiv> map snd m"

definition wf_map :: "('k, 'v) js_map \<Rightarrow> bool" where
  "wf_map m \<longleftrightarrow> distinct (map_keys m)"

lemma map_get_set [simp, js_simps]: "map_get (map_set k v m) = (map_of m)(k \<mapsto> v)"
  by (induction m) (auto simp: fun_eq_iff)

lemma map_get_delete [simp, js_simps]: "map_get (map_delete k m) = (map_of m)(k := None)"
  by (induction m) (auto simp: map_delete_def fun_eq_iff)

lemma map_keys_set: "map_keys (map_set k v m) = (if k \<in> set (map_keys m) then map_keys m else map_keys m @ [k])"
  by (induction m) force+

lemma set_map_keys_set [simp]: "fst ` set (map_set k v m) = insert k (fst ` set m)"
proof -
  have "set (map_keys (map_set k v m)) = insert k (set (map_keys m))"
    by (auto simp: map_keys_set)
  then show ?thesis by simp
qed

lemma set_map_set_subset: "set (map_set k v m) \<subseteq> insert (k, v) (set m)"
  by (induction m) (auto split: if_splits)

lemma map_keys_delete: "map_keys (map_delete k m) = filter (\<lambda>k'. k' \<noteq> k) (map_keys m)"
  by (induction m) (auto simp: map_delete_def)

lemma set_map_delete: "set (map_delete k m) \<subseteq> set m"
  by (auto simp: map_delete_def)

lemma wf_map_Nil [simp]: "wf_map []"
  by (simp add: wf_map_def)

lemma wf_map_set [simp, intro]: "wf_map m \<Longrightarrow> wf_map (map_set k v m)"
  by (auto simp: wf_map_def map_keys_set)

lemma wf_map_delete [simp, intro]: "wf_map m \<Longrightarrow> wf_map (map_delete k m)"
  by (simp add: wf_map_def map_keys_delete)

lemma wf_map_filter: "wf_map m \<Longrightarrow> wf_map (filter P m)"
  by (induction m) (auto simp: wf_map_def)

lemma map_get_filter:
  "wf_map m \<Longrightarrow> map_get (filter P m) k = (case map_get m k of None \<Rightarrow> None | Some v \<Rightarrow> if P (k, v) then Some v else None)"
proof (induction m)
  case Nil
  then show ?case by simp
next
  case (Cons kv m)
  obtain k' v' where kv: "kv = (k', v')" by (cases kv)
  from Cons.prems kv have wf: "wf_map m" and fresh: "k' \<notin> fst ` set m" by (auto simp: wf_map_def)
  have none: "map_get m k' = None" using fresh by (simp add: map_of_eq_None_iff)
  show ?case using Cons.IH [OF wf] kv none by (auto split: option.splits)
qed

lemma map_get_SomeD: "map_get m k = Some v \<Longrightarrow> (k, v) \<in> set m"
  by (rule map_of_SomeD)

lemma map_get_eq_Some: "wf_map m \<Longrightarrow> map_get m k = Some v \<longleftrightarrow> (k, v) \<in> set m"
  by (auto simp: wf_map_def map_of_eq_Some_iff)

lemma map_has_iff: "map_has m k \<longleftrightarrow> k \<in> set (map_keys m)"
  by (auto simp: map_of_eq_None_iff)

lemma map_set_same: "map_get m k = Some v \<Longrightarrow> map_set k v m = m"
  by (induction m) (auto split: if_splits)

lemma map_delete_absent: "k \<notin> set (map_keys m) \<Longrightarrow> map_delete k m = m"
  by (force simp: map_delete_def filter_id_conv)

lemma map_delete_set_fresh:
  "k \<notin> set (map_keys m) \<Longrightarrow> map_delete k (map_set k v m) = m"
  by (induction m) (auto simp: map_delete_def)

text \<open>A \<open>Set\<close> keeps the order of first insertion.\<close>

definition set_add :: "'a \<Rightarrow> 'a list \<Rightarrow> 'a list" where
  "set_add x xs = (if x \<in> set xs then xs else xs @ [x])"

definition set_of_list :: "'a list \<Rightarrow> 'a list" where
  "set_of_list xs = fold set_add xs []"

lemma set_set_add [simp]: "set (set_add x xs) = insert x (set xs)"
  by (auto simp: set_add_def)

lemma distinct_set_add [simp]: "distinct (set_add x xs) = distinct xs"
  by (auto simp: set_add_def)

lemma set_fold_set_add: "set (fold set_add xs acc) = set acc \<union> set xs"
  by (induction xs arbitrary: acc) auto

lemma distinct_fold_set_add: "distinct acc \<Longrightarrow> distinct (fold set_add xs acc)"
  by (induction xs arbitrary: acc) auto

lemma set_set_of_list [simp]: "set (set_of_list xs) = set xs"
  by (simp add: set_of_list_def set_fold_set_add)

lemma distinct_set_of_list [simp]: "distinct (set_of_list xs)"
  by (simp add: set_of_list_def distinct_fold_set_add)

section \<open>Strings\<close>

text \<open>\<open>split(sep)\<close> for a one-character separator, \<open>join(sep)\<close>, and the replacement of
  every occurrence of one character.\<close>

fun split_on :: "'a \<Rightarrow> 'a list \<Rightarrow> 'a list list" where
  "split_on c [] = [[]]"
| "split_on c (x # xs) =
     (if x = c then [] # split_on c xs
      else (case split_on c xs of [] \<Rightarrow> [[x]] | p # ps \<Rightarrow> (x # p) # ps))"

fun join_with :: "'a list \<Rightarrow> 'a list list \<Rightarrow> 'a list" where
  "join_with sep [] = []"
| "join_with sep [p] = p"
| "join_with sep (p # q # ps) = p @ sep @ join_with sep (q # ps)"

lemma join_with_snoc_Nil: "ps \<noteq> [] \<Longrightarrow> join_with sep (ps @ [[]]) = join_with sep ps @ sep"
  by (induction sep ps rule: join_with.induct) simp_all

lemma split_on_not_Nil [simp]: "split_on c xs \<noteq> []"
  by (induction xs) (auto split: list.splits)

lemma split_on_no_sep: "c \<notin> set p \<Longrightarrow> split_on c p = [p]"
  by (induction p) auto

lemma split_on_append_sep: "c \<notin> set p \<Longrightarrow> split_on c (p @ c # xs) = p # split_on c xs"
  by (induction p) auto

lemma split_on_parts: "p \<in> set (split_on c xs) \<Longrightarrow> c \<notin> set p"
proof (induction xs arbitrary: p)
  case Nil
  then show ?case by simp
next
  case (Cons x xs)
  obtain q qs where q: "split_on c xs = q # qs" by (cases "split_on c xs") auto
  from q Cons.IH have tl: "\<And>r. r \<in> set (q # qs) \<Longrightarrow> c \<notin> set r" by simp
  from Cons.prems q tl [of q] tl show ?case by (auto split: if_splits)
qed

lemma split_on_join:
  "ps \<noteq> [] \<Longrightarrow> \<forall>p\<in>set ps. c \<notin> set p \<Longrightarrow> split_on c (join_with [c] ps) = ps"
  by (induction "[c]" ps rule: join_with.induct) (auto simp: split_on_no_sep split_on_append_sep)

lemma join_split_on: "join_with [c] (split_on c xs) = xs"
proof (induction xs)
  case Nil
  then show ?case by simp
next
  case (Cons x xs)
  obtain q qs where q: "split_on c xs = q # qs" by (cases "split_on c xs") auto
  then show ?case using Cons.IH by (cases qs) auto
qed

lemma join_with_inject:
  assumes "\<forall>p\<in>set ps. c \<notin> set p" "\<forall>p\<in>set qs. c \<notin> set p" "ps \<noteq> []" "qs \<noteq> []"
    and "join_with [c] ps = join_with [c] qs"
  shows "ps = qs"
proof -
  have "ps = split_on c (join_with [c] ps)" by (rule split_on_join [OF assms(3,1), symmetric])
  also have "\<dots> = split_on c (join_with [c] qs)" by (simp only: assms(5))
  also have "\<dots> = qs" by (rule split_on_join [OF assms(4,2)])
  finally show ?thesis .
qed

text \<open>A default for a missing property: the operator \<open>??\<close>.\<close>

definition or_else :: "'a option \<Rightarrow> 'a \<Rightarrow> 'a" where
  "or_else x d = (case x of None \<Rightarrow> d | Some v \<Rightarrow> v)"

lemma or_else_simps [simp]: "or_else None d = d" "or_else (Some v) d = v"
  by (simp_all add: or_else_def)

text \<open>The first element the predicate accepts, \<open>Array.prototype.find\<close>, is the library's
  \<^const>\<open>List.find\<close>.\<close>

lemma find_SomeD: "List.find P xs = Some x \<Longrightarrow> x \<in> set xs \<and> P x"
  by (auto simp: find_Some_iff)

end
