(* ===== verification/Json.thy ===== *)
theory Json
  imports Prelude
begin

text \<open>
  JSON values and their text. \<open>JSON.parse\<close> gives the components an \<open>unknown\<close> value, whose shape
  their type predicates check; \<open>JSON.stringify\<close> writes it back. The components' numbers are
  counters, versions, revisions, sizes and instants in milliseconds: a JSON number is an
  \<^typ>\<open>int\<close>, so files holding fractions are outside the model.

  The parser is an argument \<open>parse\<close> of the definitions that read a file
  (\<open>string \<Rightarrow> json option\<close>, \<^term>\<open>None\<close> for the \<open>SyntaxError\<close> it throws).
\<close>

datatype json =
    JNull
  | JBool bool
  | JNum int
  | JStr string
  | JArr "json list"
  | JObj "(string \<times> json) list"

section \<open>Property reads and \<open>typeof\<close>\<close>

text \<open>\<open>value.key\<close> on a parsed value: \<^term>\<open>None\<close> is \<open>undefined\<close>. An array has no property of
  the names the sources read.\<close>

fun jprop :: "json \<Rightarrow> string \<Rightarrow> json option" where
  "jprop (JObj fs) k = map_of fs k"
| "jprop _ k = None"

fun as_string :: "json option \<Rightarrow> string option" where
  "as_string (Some (JStr s)) = Some s"
| "as_string _ = None"

fun as_number :: "json option \<Rightarrow> int option" where
  "as_number (Some (JNum n)) = Some n"
| "as_number _ = None"

abbreviation is_string :: "json option \<Rightarrow> bool" where
  "is_string v \<equiv> as_string v \<noteq> None"

abbreviation is_number :: "json option \<Rightarrow> bool" where
  "is_number v \<equiv> as_number v \<noteq> None"

text \<open>A non-empty string, and a property that is either absent or a string.\<close>

definition nonempty_string :: "json option \<Rightarrow> bool" where
  "nonempty_string v \<longleftrightarrow> (case as_string v of None \<Rightarrow> False | Some s \<Rightarrow> s \<noteq> [])"

definition optional_string :: "json option \<Rightarrow> bool" where
  "optional_string v \<longleftrightarrow> v = None \<or> is_string v"

text \<open>\<open>typeof v === "object" && v !== null && !Array.isArray(v)\<close>.\<close>

fun is_record :: "json \<Rightarrow> bool" where
  "is_record (JObj _) = True"
| "is_record _ = False"

lemma as_string_eq_Some [simp]: "as_string v = Some s \<longleftrightarrow> v = Some (JStr s)"
  by (cases v rule: as_string.cases) auto

lemma as_number_eq_Some [simp]: "as_number v = Some n \<longleftrightarrow> v = Some (JNum n)"
  by (cases v rule: as_number.cases) auto

lemma nonempty_string_iff: "nonempty_string v \<longleftrightarrow> (\<exists>s. v = Some (JStr s) \<and> s \<noteq> [])"
  by (cases v rule: as_string.cases) (auto simp: nonempty_string_def)

section \<open>\<open>JSON.stringify\<close>\<close>

definition digit_char :: "nat \<Rightarrow> char" where
  "digit_char d = char_of (48 + d)"

fun nat_decimal :: "nat \<Rightarrow> string" where
  "nat_decimal n = (if n < 10 then [digit_char n] else nat_decimal (n div 10) @ [digit_char (n mod 10)])"

declare nat_decimal.simps [simp del]

definition int_decimal :: "int \<Rightarrow> string" where
  "int_decimal n = (if n < 0 then CHR ''-'' # nat_decimal (nat (- n)) else nat_decimal (nat n))"

definition hex_digit :: "nat \<Rightarrow> char" where
  "hex_digit d = (if d < 10 then char_of (48 + d) else char_of (87 + d))"

text \<open>The four hexadecimal digits of a code unit below 256.\<close>

definition hex4 :: "char \<Rightarrow> string" where
  "hex4 c = ''00'' @ [hex_digit (of_char c div 16), hex_digit (of_char c mod 16)]"

definition backslash :: char where
  "backslash = CHR 0x5C"

definition double_quote :: char where
  "double_quote = CHR 0x22"

text \<open>The escapes of \<open>JSON.stringify\<close>: the quote and the backslash, the five short control
  escapes, and \<open>\u00XX\<close> for the other code units below 32.\<close>

definition json_escape :: "char \<Rightarrow> string" where
  "json_escape c =
     (if c = double_quote then [backslash, double_quote]
      else if c = backslash then [backslash, backslash]
      else if of_char c = (8::nat) then [backslash, CHR ''b'']
      else if of_char c = (9::nat) then [backslash, CHR ''t'']
      else if of_char c = (10::nat) then [backslash, CHR ''n'']
      else if of_char c = (12::nat) then [backslash, CHR ''f'']
      else if of_char c = (13::nat) then [backslash, CHR ''r'']
      else if of_char c < (32::nat) then [backslash, CHR ''u''] @ hex4 c
      else [c])"

definition json_string :: "string \<Rightarrow> string" where
  "json_string s = [double_quote] @ concat (map json_escape s) @ [double_quote]"

fun stringify :: "json \<Rightarrow> string" where
  "stringify JNull = ''null''"
| "stringify (JBool b) = (if b then ''true'' else ''false'')"
| "stringify (JNum n) = int_decimal n"
| "stringify (JStr s) = json_string s"
| "stringify (JArr vs) = ''['' @ join_with '','' (map stringify vs) @ '']''"
| "stringify (JObj fs) =
     ''{'' @ join_with '','' (map (\<lambda>(k, v). json_string k @ '':'' @ stringify v) fs) @ ''}''"

text \<open>The text of a value has no line break, so a file of one value per line splits back into
  the texts; and it is never empty, so no line is mistaken for a blank one.\<close>

abbreviation newline :: char where
  "newline \<equiv> CHR 0x0A"

lemma newline_code: "newline = char_of (10::nat)"
  by code_simp

lemma no_newline_digit: "d < 16 \<Longrightarrow> digit_char d \<noteq> newline"
  by (auto simp: digit_char_def newline_code char_of_eq_iff take_bit_nat_eq_self)

lemma no_newline_hex: "hex_digit d \<noteq> newline" if "d < 16"
  using that by (auto simp: hex_digit_def newline_code char_of_eq_iff take_bit_nat_eq_self)

lemma no_newline_nat_decimal: "newline \<notin> set (nat_decimal n)"
proof (induction n rule: nat_decimal.induct)
  case (1 n)
  show ?case
  proof (cases "n < 10")
    case True
    then show ?thesis using no_newline_digit [of n] by (subst nat_decimal.simps) auto
  next
    case False
    have "n mod 10 < 16" by simp
    then have "digit_char (n mod 10) \<noteq> newline" by (rule no_newline_digit)
    with False show ?thesis using "1.IH" by (subst nat_decimal.simps) auto
  qed
qed

lemma no_newline_int_decimal: "newline \<notin> set (int_decimal n)"
  by (auto simp: int_decimal_def no_newline_nat_decimal)

lemma no_newline_hex4: "newline \<notin> set (hex4 c)"
proof -
  have b: "of_char c < (256::nat)" using nat_of_char_less_256 by simp
  have "of_char c div 16 < (16::nat)" using b by (simp add: div_less_iff_less_mult)
  then have "hex_digit (of_char c div 16) \<noteq> newline" by (rule no_newline_hex)
  moreover have "hex_digit (of_char c mod 16) \<noteq> newline" by (rule no_newline_hex) simp
  ultimately show ?thesis by (auto simp: hex4_def)
qed

lemma no_newline_escape: "newline \<notin> set (json_escape c)"
  using no_newline_hex4 [of c]
  by (auto simp: json_escape_def backslash_def double_quote_def)

lemma no_newline_json_string: "newline \<notin> set (json_string s)"
  using no_newline_escape by (auto simp: json_string_def double_quote_def)

lemma set_join_with: "set (join_with sep ps) \<subseteq> set sep \<union> \<Union> (set ` set ps)"
  by (induction sep ps rule: join_with.induct) auto

lemma no_newline_join:
  assumes "\<And>p. p \<in> set ps \<Longrightarrow> newline \<notin> set p"
  shows "newline \<notin> set (join_with '','' ps)"
  using set_join_with [of "'',''" ps] assms by auto

lemma no_newline_stringify: "newline \<notin> set (stringify j)"
proof (induction j rule: stringify.induct)
  case (5 vs)
  have "newline \<notin> set (join_with '','' (map stringify vs))"
    using 5 by (intro no_newline_join) auto
  then show ?case by auto
next
  case (6 fs)
  have "newline \<notin> set (join_with '','' (map (\<lambda>(k, v). json_string k @ '':'' @ stringify v) fs))"
    using 6 no_newline_json_string by (intro no_newline_join) fastforce
  then show ?case by auto
qed (auto simp: no_newline_int_decimal no_newline_json_string)

lemma nat_decimal_not_Nil: "nat_decimal n \<noteq> []"
  by (subst nat_decimal.simps) auto

lemma stringify_not_Nil: "stringify j \<noteq> []"
  by (cases j) (auto simp: int_decimal_def nat_decimal_not_Nil json_string_def)

end
