(* ===== verification/JsonCodec.thy ===== *)
theory JsonCodec
  imports Json
begin

text \<open>
  The contract of \<open>JSON.parse\<close> that the file formats rest on, as the locale \<open>json_codec\<close>: it reads
  back what \<open>JSON.stringify\<close> wrote. The law is asked only of values on which it holds in
  JavaScript: objects with distinct keys none of which is an array index (those are reordered),
  and integers a double represents exactly. \<open>json_parse\<close> is an executable recursive-descent parser
  for the integer fragment that satisfies the contract.
\<close>

section \<open>The contract\<close>

definition plain_key :: "string \<Rightarrow> bool" where
  "plain_key k \<longleftrightarrow> k = [] \<or> list_ex (\<lambda>c. \<not> (48 \<le> (of_char c :: nat) \<and> (of_char c :: nat) \<le> 57)) k"

definition safe_integer :: "int \<Rightarrow> bool" where
  "safe_integer n \<longleftrightarrow> \<bar>n\<bar> \<le> 9007199254740991"

fun json_ok :: "json \<Rightarrow> bool" where
  "json_ok (JNum n) = safe_integer n"
| "json_ok (JArr vs) = list_all json_ok vs"
| "json_ok (JObj fs) = (distinct (map fst fs) \<and> list_all (\<lambda>(k, v). plain_key k \<and> json_ok v) fs)"
| "json_ok _ = True"

text \<open>\<open>JSON.stringify(value, null, 2)\<close>: one member or element per line, indented by two spaces for
  each level. \<open>render\<close> is the printer with the line break at a depth and the text after a colon as
  arguments; the compact text is the instance with neither.\<close>

fun render :: "(nat \<Rightarrow> string) \<Rightarrow> string \<Rightarrow> nat \<Rightarrow> json \<Rightarrow> string" where
  "render brk sp d (JArr vs) =
     (if vs = [] then ''[]''
      else ''['' @ brk (Suc d) @ join_with ('','' @ brk (Suc d)) (map (render brk sp (Suc d)) vs) @ brk d @ '']'')"
| "render brk sp d (JObj fs) =
     (if fs = [] then ''{}''
      else ''{'' @ brk (Suc d) @
        join_with ('','' @ brk (Suc d)) (map (\<lambda>(k, v). json_string k @ '':'' @ sp @ render brk sp (Suc d) v) fs)
        @ brk d @ ''}'')"
| "render brk sp d v = stringify v"

definition stringify_pretty :: "json \<Rightarrow> string" where
  "stringify_pretty j = render (\<lambda>d. newline # replicate (2 * d) (CHR '' '')) '' '' 0 j"

lemma stringify_render: "stringify j = render (\<lambda>_. []) [] d j"
proof (induction j arbitrary: d)
  case (JArr vs)
  then have "map stringify vs = map (render (\<lambda>_. []) [] (Suc d)) vs" by simp
  then show ?case by (simp del: map_eq_conv)
next
  case (JObj fs)
  have "map (\<lambda>(k, v). json_string k @ '':'' @ stringify v) fs =
      map (\<lambda>(k, v). json_string k @ '':'' @ [] @ render (\<lambda>_. []) [] (Suc d) v) fs"
    using JObj by (intro map_cong refl) (auto split: prod.split)
  then show ?case by (simp del: map_eq_conv)
qed simp_all

locale json_codec =
  fixes parse :: "string \<Rightarrow> json option"
  assumes parse_stringify: "json_ok j \<Longrightarrow> parse (stringify j) = Some j"

text \<open>The lock files are written indented, with a line break at the end.\<close>

locale json_file_codec = json_codec +
  assumes parse_pretty: "json_ok j \<Longrightarrow> parse (stringify_pretty j @ [newline]) = Some j"

section \<open>A parser\<close>

definition is_ws :: "char \<Rightarrow> bool" where
  "is_ws c \<longleftrightarrow> (of_char c :: nat) \<in> {9, 10, 13, 32}"

abbreviation skip_ws :: "string \<Rightarrow> string" where
  "skip_ws \<equiv> dropWhile is_ws"

definition is_dec :: "char \<Rightarrow> bool" where
  "is_dec c \<longleftrightarrow> 48 \<le> (of_char c :: nat) \<and> (of_char c :: nat) \<le> 57"

definition dec_value :: "string \<Rightarrow> nat" where
  "dec_value ds = foldl (\<lambda>n c. 10 * n + (of_char c - 48)) 0 ds"

definition pnat :: "string \<Rightarrow> (nat \<times> string) option" where
  "pnat s =
     (let ds = takeWhile is_dec s
      in if ds = [] \<or> (hd ds = CHR ''0'' \<and> tl ds \<noteq> []) then None
         else Some (dec_value ds, dropWhile is_dec s))"

definition pint :: "string \<Rightarrow> (int \<times> string) option" where
  "pint s =
     (if s \<noteq> [] \<and> hd s = CHR ''-'' then map_option (\<lambda>(n, r). (- int n, r)) (pnat (tl s))
      else map_option (\<lambda>(n, r). (int n, r)) (pnat s))"

definition hex_value :: "char \<Rightarrow> nat option" where
  "hex_value c =
     (let n = of_char c in
      if 48 \<le> n \<and> n \<le> 57 then Some (n - 48) else if 97 \<le> n \<and> n \<le> 102 then Some (n - 87)
      else if 65 \<le> n \<and> n \<le> 70 then Some (n - 55) else None)"

definition simple_escape :: "char \<Rightarrow> char option" where
  "simple_escape c =
     map_of [(double_quote, double_quote), (backslash, backslash), (CHR ''/'', CHR ''/''),
       (CHR ''b'', char_of (8::nat)), (CHR ''t'', char_of (9::nat)), (CHR ''n'', char_of (10::nat)),
       (CHR ''f'', char_of (12::nat)), (CHR ''r'', char_of (13::nat))] c"

definition punicode :: "char \<Rightarrow> char \<Rightarrow> char \<Rightarrow> char \<Rightarrow> char option" where
  "punicode a b c d =
     (case (hex_value a, hex_value b, hex_value c, hex_value d) of
        (Some 0, Some 0, Some h, Some l) \<Rightarrow> Some (char_of (16 * h + l))
      | _ \<Rightarrow> None)"

definition push_char :: "char option \<Rightarrow> (string \<times> string) option \<Rightarrow> (string \<times> string) option" where
  "push_char c r = (case (c, r) of (Some x, Some (t, rest)) \<Rightarrow> Some (x # t, rest) | _ \<Rightarrow> None)"

text \<open>The rest of a string literal, after its opening quote.\<close>

fun pstring :: "string \<Rightarrow> (string \<times> string) option" where
  "pstring [] = None"
| "pstring (c # cs) =
     (if c = double_quote then Some ([], cs)
      else if c = backslash then
        (case cs of
           [] \<Rightarrow> None
         | e # cs1 \<Rightarrow>
             if e = CHR ''u'' then
               (case cs1 of a # b # x # y # cs2 \<Rightarrow> push_char (punicode a b x y) (pstring cs2) | _ \<Rightarrow> None)
             else push_char (simple_escape e) (pstring cs1))
      else if of_char c < (32::nat) then None
      else push_char (Some c) (pstring cs))"

text \<open>A member written twice keeps its first place and its last value.\<close>

definition object_of :: "(string \<times> json) list \<Rightarrow> (string \<times> json) list" where
  "object_of fs = fold (\<lambda>(k, v). map_set k v) fs []"

definition pword :: "string \<Rightarrow> json \<Rightarrow> string \<Rightarrow> (json \<times> string) option" where
  "pword w v s = (if take (length w) s = w then Some (v, drop (length w) s) else None)"

text \<open>Values, the elements of a non-empty array and the members of a non-empty object, each with the
  fuel of its nesting; a text has less nesting than characters.\<close>

fun pvalue :: "nat \<Rightarrow> string \<Rightarrow> (json \<times> string) option"
  and pelems :: "nat \<Rightarrow> string \<Rightarrow> (json list \<times> string) option"
  and pmembers :: "nat \<Rightarrow> string \<Rightarrow> ((string \<times> json) list \<times> string) option" where
  "pvalue 0 s = None"
| "pvalue (Suc n) s =
     (case skip_ws s of
        [] \<Rightarrow> None
      | c # r \<Rightarrow>
          if c = double_quote then map_option (\<lambda>(t, r'). (JStr t, r')) (pstring r)
          else if c = CHR ''['' then
            (case skip_ws r of
               c' # r' \<Rightarrow> if c' = CHR '']'' then Some (JArr [], r')
                 else map_option (\<lambda>(vs, r'). (JArr vs, r')) (pelems n r)
             | [] \<Rightarrow> None)
          else if c = CHR ''{'' then
            (case skip_ws r of
               c' # r' \<Rightarrow> if c' = CHR ''}'' then Some (JObj [], r')
                 else map_option (\<lambda>(fs, r'). (JObj (object_of fs), r')) (pmembers n r)
             | [] \<Rightarrow> None)
          else if c = CHR ''n'' then pword ''null'' JNull (c # r)
          else if c = CHR ''t'' then pword ''true'' (JBool True) (c # r)
          else if c = CHR ''f'' then pword ''false'' (JBool False) (c # r)
          else map_option (\<lambda>(i, r'). (JNum i, r')) (pint (c # r)))"
| "pelems 0 s = None"
| "pelems (Suc n) s =
     (case pvalue n s of
        None \<Rightarrow> None
      | Some (v, r) \<Rightarrow>
          (case skip_ws r of
             c # r' \<Rightarrow>
               if c = CHR '']'' then Some ([v], r')
               else if c = CHR '','' then map_option (\<lambda>(vs, r''). (v # vs, r'')) (pelems n r')
               else None
           | [] \<Rightarrow> None))"
| "pmembers 0 s = None"
| "pmembers (Suc n) s =
     (case skip_ws s of
        [] \<Rightarrow> None
      | q # s1 \<Rightarrow>
          if q \<noteq> double_quote then None
          else (case pstring s1 of
             None \<Rightarrow> None
           | Some (k, s2) \<Rightarrow>
               (case skip_ws s2 of
                  [] \<Rightarrow> None
                | col # s3 \<Rightarrow>
                    if col \<noteq> CHR '':'' then None
                    else (case pvalue n s3 of
                       None \<Rightarrow> None
                     | Some (v, s4) \<Rightarrow>
                         (case skip_ws s4 of
                            c # r' \<Rightarrow>
                              if c = CHR ''}'' then Some ([(k, v)], r')
                              else if c = CHR '','' then
                                map_option (\<lambda>(fs, r''). ((k, v) # fs, r'')) (pmembers n r')
                              else None
                          | [] \<Rightarrow> None)))))"

definition json_parse :: "string \<Rightarrow> json option" where
  "json_parse s =
     (case pvalue (2 * length s + 1) s of
        Some (v, r) \<Rightarrow> if skip_ws r = [] then Some v else None
      | None \<Rightarrow> None)"

section \<open>It reads back what was written\<close>

lemma object_of_fold:
  "distinct (map fst (acc @ fs)) \<Longrightarrow> fold (\<lambda>(k, v). map_set k v) fs acc = acc @ fs"
proof (induction fs arbitrary: acc)
  case (Cons f fs)
  have "map_set k v m = m @ [(k, v)]" if "k \<notin> fst ` set m" for k and v :: 'b and m :: "('a \<times> 'b) list"
    using that by (induction m) auto
  with Cons.prems have "map_set (fst f) (snd f) acc = acc @ [f]" by (cases f) auto
  with Cons.IH [of "acc @ [f]"] Cons.prems show ?case by (simp add: case_prod_unfold)
qed simp

lemma object_of_distinct: "distinct (map fst fs) \<Longrightarrow> object_of fs = fs"
  using object_of_fold [of "[]" fs] by (simp add: object_of_def)

lemma hex_value_digit: "d < 16 \<Longrightarrow> hex_value (hex_digit d) = Some d"
  by (auto simp: hex_value_def hex_digit_def Let_def take_bit_nat_eq_self)

lemma punicode_hex4:
  "push_char (punicode (CHR ''0'') (CHR ''0'') (hex_digit (of_char c div 16)) (hex_digit (of_char c mod 16))) r =
     push_char (Some c) r"
proof -
  have b: "of_char c < (256::nat)" using nat_of_char_less_256 by simp
  have "of_char c div 16 < (16::nat)" using b by (simp add: div_less_iff_less_mult)
  then show ?thesis by (simp add: punicode_def hex_value_digit hex_value_def [of "CHR ''0''"] Let_def)
qed

lemma char_of_code: "of_char c = (n::nat) \<Longrightarrow> char_of n = c"
  by auto

lemma pstring_escape: "pstring (json_escape c @ rest) = push_char (Some c) (pstring rest)"
proof -
  have ne: "CHR ''u'' \<noteq> double_quote" "CHR ''u'' \<noteq> backslash" "double_quote \<noteq> backslash"
    by (simp_all add: double_quote_def backslash_def)
  show ?thesis
    using punicode_hex4 [of c "pstring rest"]
    by (auto simp: json_escape_def hex4_def simple_escape_def char_of_code double_quote_def backslash_def)
qed

lemma pstring_json_string: "pstring (concat (map json_escape s) @ double_quote # rest) = Some (s, rest)"
  by (induction s) (simp_all add: pstring_escape push_char_def)

lemma of_char_digit: "d < 10 \<Longrightarrow> of_char (digit_char d) = 48 + d"
  by (simp add: digit_char_def take_bit_nat_eq_self)

lemma is_dec_digit: "d < 10 \<Longrightarrow> is_dec (digit_char d)"
  by (simp add: is_dec_def of_char_digit)

lemma all_dec_nat_decimal: "\<forall>c\<in>set (nat_decimal n). is_dec c"
proof (induction n rule: nat_decimal.induct)
  case (1 n)
  then show ?case by (subst nat_decimal.simps) (auto simp: is_dec_digit)
qed

lemma dec_value_nat_decimal: "dec_value (nat_decimal n) = n"
proof (induction n rule: nat_decimal.induct)
  case (1 n)
  then show ?case by (subst nat_decimal.simps) (auto simp: dec_value_def of_char_digit)
qed

lemma hd_nat_decimal: "n \<noteq> 0 \<Longrightarrow> hd (nat_decimal n) \<noteq> CHR ''0''"
proof (induction n rule: nat_decimal.induct)
  case (1 n)
  have "digit_char d \<noteq> CHR ''0''" if "0 < d" "d < 10" for d
    using that of_char_digit [of d] by auto
  with 1 show ?case
    by (subst nat_decimal.simps) (auto simp: hd_append nat_decimal_not_Nil)
qed

definition no_dec :: "string \<Rightarrow> bool" where
  "no_dec rest \<longleftrightarrow> (case rest of [] \<Rightarrow> True | c # _ \<Rightarrow> \<not> is_dec c)"

lemma pnat_nat_decimal: "no_dec rest \<Longrightarrow> pnat (nat_decimal n @ rest) = Some (n, rest)"
proof -
  assume r: "no_dec rest"
  have t: "takeWhile is_dec (nat_decimal n @ rest) = nat_decimal n"
    "dropWhile is_dec (nat_decimal n @ rest) = rest"
    using r all_dec_nat_decimal [of n]
    by (cases rest; simp add: no_dec_def)+
  have "hd (nat_decimal n) = CHR ''0'' \<Longrightarrow> tl (nat_decimal n) = []"
    using hd_nat_decimal [of n] by (cases "n = 0") (simp_all add: nat_decimal.simps)
  then show ?thesis
    by (auto simp: pnat_def t Let_def nat_decimal_not_Nil dec_value_nat_decimal)
qed

lemma minus_not_dec: "\<not> is_dec (CHR ''-'')"
  by (simp add: is_dec_def)

lemma pint_int_decimal: "no_dec rest \<Longrightarrow> pint (int_decimal i @ rest) = Some (i, rest)"
proof -
  assume r: "no_dec rest"
  have "hd (nat_decimal n @ rest) \<noteq> CHR ''-''" for n
    using all_dec_nat_decimal [of n] minus_not_dec nat_decimal_not_Nil [of n]
    by (cases "nat_decimal n") auto
  then show ?thesis using pnat_nat_decimal [OF r] by (auto simp: pint_def int_decimal_def nat_decimal_not_Nil)
qed

text \<open>The first character of a text is never blank and never closes a list.\<close>

lemma stringify_first: "\<exists>c cs. stringify j = c # cs \<and> \<not> is_ws c \<and> c \<noteq> CHR '']''"
proof (cases j)
  case (JNum n)
  have "\<exists>c cs. nat_decimal m = c # cs \<and> is_dec c" for m
    using all_dec_nat_decimal [of m] nat_decimal_not_Nil [of m] by (cases "nat_decimal m") auto
  moreover have "is_dec c \<Longrightarrow> \<not> is_ws c \<and> c \<noteq> CHR '']''" for c by (auto simp: is_dec_def is_ws_def)
  moreover have "\<not> is_ws (CHR ''-'')" by (simp add: is_ws_def)
  ultimately show ?thesis unfolding JNum by (simp add: int_decimal_def) blast
qed (auto simp: is_ws_def json_string_def double_quote_def)

lemma render_first: "\<exists>c cs. render brk sp d j = c # cs \<and> \<not> is_ws c \<and> c \<noteq> CHR '']''"
  using stringify_first [of j] by (cases j) (auto simp: is_ws_def)

fun jfuel :: "json \<Rightarrow> nat" where
  "jfuel (JArr vs) = Suc (sum_list (map (\<lambda>v. Suc (jfuel v)) vs))"
| "jfuel (JObj fs) = Suc (sum_list (map (\<lambda>(k, v). Suc (jfuel v)) fs))"
| "jfuel _ = 1"

definition reads :: "json \<Rightarrow> string \<Rightarrow> bool" where
  "reads j t \<longleftrightarrow> (\<forall>n rest. jfuel j \<le> n \<longrightarrow> no_dec rest \<longrightarrow> pvalue n (t @ rest) = Some (j, rest))"

abbreviation blank :: "string \<Rightarrow> bool" where
  "blank w \<equiv> list_all is_ws w"

lemma skip_blank [simp]: "blank w \<Longrightarrow> skip_ws (w @ s) = skip_ws s"
  by (induction w) auto

lemma pvalue_blank [simp]: "blank w \<Longrightarrow> pvalue n (w @ s) = pvalue n s"
  by (cases n) simp_all

lemma no_dec_blank [simp]: "blank w \<Longrightarrow> no_dec s \<Longrightarrow> no_dec (w @ s)"
  by (cases w) (auto simp: no_dec_def is_dec_def is_ws_def)

lemma no_dec_punct [simp]: "no_dec (CHR '','' # r)" "no_dec (CHR '']'' # r)" "no_dec (CHR ''}'' # r)" "no_dec []"
  by (simp_all add: no_dec_def is_dec_def)

lemma not_ws_punct [simp]:
  "\<not> is_ws (CHR '','')" "\<not> is_ws (CHR '']'')" "\<not> is_ws (CHR ''}'')" "\<not> is_ws (CHR '':'')"
  "\<not> is_ws (CHR ''['')" "\<not> is_ws (CHR ''{'')" "\<not> is_ws double_quote"
  by (simp_all add: is_ws_def double_quote_def)

lemma pelems_texts:
  assumes "blank w" "blank w'" "\<forall>v\<in>set vs. reads v (t v)" "vs \<noteq> []" "sum_list (map (\<lambda>v. Suc (jfuel v)) vs) \<le> n"
  shows "pelems n (join_with ('','' @ w) (map t vs) @ w' @ CHR '']'' # rest) = Some (vs, rest)"
  using assms(3-)
proof (induction vs arbitrary: n)
  case (Cons v vs)
  then obtain m where n: "n = Suc m" by (cases n) auto
  have v: "pvalue m (t v @ r) = Some (v, r)" if "no_dec r" for r
    using Cons.prems n that by (auto simp: reads_def)
  show ?case
  proof (cases vs)
    case Nil
    then show ?thesis using v [of "w' @ CHR '']'' # rest"] assms(2) by (simp add: n)
  next
    case (Cons u us)
    let ?more = "join_with ('','' @ w) (map t vs) @ w' @ CHR '']'' # rest"
    have "pelems m ?more = Some (vs, rest)" using Cons.prems Cons n by (intro Cons.IH) auto
    then have "pelems m (w @ ?more) = Some (vs, rest)" using assms(1) by (cases m) simp_all
    then show ?thesis using v [of "CHR '','' # w @ ?more"] Cons by (simp add: n)
  qed
qed simp

text \<open>A way of writing strings is a literal when the string parser reads it back.\<close>

definition literal :: "(string \<Rightarrow> string) \<Rightarrow> bool" where
  "literal kt \<longleftrightarrow> (\<forall>k. \<exists>e. kt k = double_quote # e \<and> (\<forall>rest. pstring (e @ rest) = Some (k, rest)))"

lemma literalE: "literal kt \<Longrightarrow> (\<And>e. kt k = double_quote # e \<Longrightarrow> (\<And>rest. pstring (e @ rest) = Some (k, rest)) \<Longrightarrow> P) \<Longrightarrow> P"
  unfolding literal_def by blast

lemma literal_json_string: "literal json_string"
  unfolding literal_def by (auto simp: json_string_def pstring_json_string)

abbreviation member_text :: "(string \<Rightarrow> string) \<Rightarrow> string \<Rightarrow> (json \<Rightarrow> string) \<Rightarrow> string \<times> json \<Rightarrow> string" where
  "member_text kt sp t \<equiv> \<lambda>(k, v). kt k @ '':'' @ sp @ t v"

lemma pmembers_texts:
  assumes "literal kt" "blank w" "blank w'" "blank sp" "\<forall>(k, v)\<in>set fs. reads v (t v)" "fs \<noteq> []"
    and "sum_list (map (\<lambda>(k, v). Suc (jfuel v)) fs) \<le> n"
  shows "pmembers n (join_with ('','' @ w) (map (member_text kt sp t) fs) @ w' @ CHR ''}'' # rest) = Some (fs, rest)"
  using assms(5-)
proof (induction fs arbitrary: n)
  case (Cons f fs)
  obtain k u where f: "f = (k, u)" by (cases f)
  from Cons.prems obtain m where n: "n = Suc m" by (cases n) (auto simp: f)
  have v: "pvalue m (t u @ r) = Some (u, r)" if "no_dec r" for r
    using Cons.prems n f that by (auto simp: reads_def)
  obtain e where e: "kt k = double_quote # e" "\<And>rest. pstring (e @ rest) = Some (k, rest)"
    using literalE [OF assms(1), of k] by blast
  show ?case
  proof (cases fs)
    case Nil
    then show ?thesis using v [of "w' @ CHR ''}'' # rest"] assms(3,4)
      by (simp add: n f e)
  next
    case (Cons g gs)
    let ?more = "join_with ('','' @ w) (map (member_text kt sp t) fs) @ w' @ CHR ''}'' # rest"
    have "pmembers m ?more = Some (fs, rest)" using Cons.prems Cons n f by (intro Cons.IH) auto
    then have "pmembers m (w @ ?more) = Some (fs, rest)" using assms(2) by (cases m) simp_all
    then show ?thesis using v [of "CHR '','' # w @ ?more"] Cons assms(4)
      by (simp add: n f e)
  qed
qed simp

lemma reads_atom:
  assumes "\<And>n rest. no_dec rest \<Longrightarrow> pvalue (Suc n) (stringify j @ rest) = Some (j, rest)"
  shows "reads j (stringify j)"
  unfolding reads_def
proof (intro allI impI)
  fix n rest assume le: "jfuel j \<le> n" and r: "no_dec rest"
  have "0 < jfuel j" by (cases j) simp_all
  with le obtain m where "n = Suc m" by (cases n) auto
  with assms [OF r, of m] show "pvalue n (stringify j @ rest) = Some (j, rest)" by simp
qed

lemma reads_number: "reads (JNum i) (stringify (JNum i))"
proof (rule reads_atom)
  fix n rest assume r: "no_dec rest"
  obtain c cs where c: "int_decimal i = c # cs" "\<not> is_ws c" using stringify_first [of "JNum i"] by auto
  have d: "is_dec c \<or> c = CHR ''-''"
    using c(1) all_dec_nat_decimal [of "nat i"]
    by (cases "i < 0") (auto simp: int_decimal_def)
  have dq: "c \<noteq> double_quote" "c \<noteq> CHR ''[''" "c \<noteq> CHR ''{''" "c \<noteq> CHR ''n''" "c \<noteq> CHR ''t''" "c \<noteq> CHR ''f''"
    using d by (auto simp: is_dec_def double_quote_def)
  show "pvalue (Suc n) (stringify (JNum i) @ rest) = Some (JNum i, rest)"
    using pint_int_decimal [OF r, of i] dq c by simp
qed

lemma reads_array:
  assumes "blank w" "blank w'" "\<forall>v\<in>set vs. reads v (t v)" "\<And>v. \<exists>c cs. t v = c # cs \<and> \<not> is_ws c \<and> c \<noteq> CHR '']''" "vs \<noteq> []"
  shows "reads (JArr vs) (''['' @ w @ join_with ('','' @ w) (map t vs) @ w' @ '']'')"
  unfolding reads_def
proof (intro allI impI)
  fix n rest assume "jfuel (JArr vs) \<le> n"
  then obtain m where n: "n = Suc m" "sum_list (map (\<lambda>v. Suc (jfuel v)) vs) \<le> m" by (cases n) auto
  let ?body = "join_with ('','' @ w) (map t vs) @ w' @ CHR '']'' # rest"
  obtain u us where vs: "vs = u # us" using assms(5) by (cases vs) auto
  obtain c cs where c: "t u = c # cs" "\<not> is_ws c" "c \<noteq> CHR '']''" using assms(4) [of u] by auto
  have "\<exists>r. ?body = c # r" using c vs by (cases us) simp_all
  then obtain r where r: "?body = c # r" ..
  have "pelems m ?body = Some (vs, rest)" using assms n by (intro pelems_texts) auto
  then have "pelems m (w @ ?body) = Some (vs, rest)" using assms(1) by (cases m) simp_all
  moreover have "skip_ws (w @ ?body) = c # r" using r c assms(1) by simp
  ultimately show "pvalue n ((''['' @ w @ join_with ('','' @ w) (map t vs) @ w' @ '']'') @ rest) = Some (JArr vs, rest)"
    using c by (simp add: n double_quote_def)
qed

lemma reads_object:
  assumes "literal kt" "blank w" "blank w'" "blank sp" "\<forall>(k, v)\<in>set fs. reads v (t v)" "distinct (map fst fs)" "fs \<noteq> []"
  shows "reads (JObj fs) (''{'' @ w @ join_with ('','' @ w) (map (member_text kt sp t) fs) @ w' @ ''}'')"
  unfolding reads_def
proof (intro allI impI)
  fix n rest assume "jfuel (JObj fs) \<le> n"
  then obtain m where n: "n = Suc m" "sum_list (map (\<lambda>(k, v). Suc (jfuel v)) fs) \<le> m" by (cases n) auto
  let ?body = "join_with ('','' @ w) (map (member_text kt sp t) fs) @ w' @ CHR ''}'' # rest"
  obtain k u us where fs: "fs = (k, u) # us" using assms(7) by (cases fs) auto
  obtain e where "kt k = double_quote # e" using literalE [OF assms(1), of k] by blast
  then have "\<exists>r. ?body = double_quote # r" using fs by (cases us) simp_all
  then obtain r where r: "?body = double_quote # r" ..
  have "pmembers m ?body = Some (fs, rest)" using assms n by (intro pmembers_texts) auto
  then have "pmembers m (w @ ?body) = Some (fs, rest)" using assms(2) by (cases m) simp_all
  moreover have "skip_ws (w @ ?body) = double_quote # r" using r assms(2) by simp
  moreover have "double_quote \<noteq> CHR ''}''" by (simp add: double_quote_def)
  ultimately show "pvalue n ((''{'' @ w @ join_with ('','' @ w) (map (member_text kt sp t) fs) @ w' @ ''}'') @ rest) =
      Some (JObj fs, rest)"
    using object_of_distinct [OF assms(6)] by (simp add: n) (simp add: double_quote_def)
qed

lemma reads_render:
  assumes "\<And>d. blank (brk d)" and "blank sp" and "json_ok j"
  shows "reads j (render brk sp d j)"
  using assms(3)
proof (induction j arbitrary: d)
  case (JArr vs)
  show ?case
  proof (cases "vs = []")
    case True
    have "reads (JArr []) (stringify (JArr []))"
      by (rule reads_atom) (simp add: double_quote_def)
    then show ?thesis using True by simp
  next
    case False
    have "\<forall>v\<in>set vs. reads v (render brk sp (Suc d) v)" using JArr by (auto simp: list_all_iff)
    from reads_array [OF assms(1) [of "Suc d"] assms(1) [of d] this render_first False] show ?thesis
      using False by simp
  qed
next
  case (JObj fs)
  show ?case
  proof (cases "fs = []")
    case True
    have "reads (JObj []) (stringify (JObj []))"
      by (rule reads_atom) (simp add: double_quote_def object_of_def)
    then show ?thesis using True by simp
  next
    case False
    have "reads v (render brk sp (Suc d) v)" if "(k, v) \<in> set fs" for k v
      using JObj.IH [OF that, of v] JObj.prems that by (auto simp: list_all_iff)
    then have "\<forall>(k, v)\<in>set fs. reads v (render brk sp (Suc d) v)" by blast
    from reads_object [OF literal_json_string assms(1) [of "Suc d"] assms(1) [of d] assms(2) this _ False] show ?thesis
      using False JObj.prems by simp
  qed
next
  case (JNum x)
  show ?case using reads_number by simp
next
  case (JStr x)
  have "reads (JStr x) (stringify (JStr x))"
    by (rule reads_atom) (simp add: json_string_def pstring_json_string)
  then show ?case by simp
next
  case JNull
  have "reads JNull (stringify JNull)"
    by (rule reads_atom) (simp add: is_ws_def double_quote_def pword_def)
  then show ?case by simp
next
  case (JBool b)
  have "reads (JBool b) (stringify (JBool b))"
    by (rule reads_atom) (simp add: is_ws_def double_quote_def pword_def)
  then show ?case by simp
qed

text \<open>The fuel \<open>json_parse\<close> takes from the length of the text is enough.\<close>

lemma sum_le_join_length:
  assumes "\<forall>x\<in>set xs. Suc (f x) \<le> 2 * length (t x)"
  shows "sum_list (map (\<lambda>x. Suc (f x)) xs) \<le> 2 * length (join_with sep (map t xs))"
  using assms
proof (induction xs)
  case (Cons x xs)
  then show ?case by (cases xs) auto
qed simp

lemma jfuel_le: "Suc (jfuel j) \<le> 2 * length (render brk sp d j)"
proof (induction j arbitrary: d)
  case (JArr vs)
  then show ?case using sum_le_join_length [of vs jfuel "render brk sp (Suc d)" "'','' @ brk (Suc d)"] by simp
next
  case (JObj fs)
  let ?t = "member_text json_string sp (render brk sp (Suc d))"
  have "\<forall>x\<in>set fs. Suc (jfuel (snd x)) \<le> 2 * length (?t x)"
  proof
    fix x assume "x \<in> set fs"
    from JObj [OF this, of "snd x" "Suc d"] show "Suc (jfuel (snd x)) \<le> 2 * length (?t x)"
      by (cases x) auto
  qed
  from sum_le_join_length [OF this, of "'','' @ brk (Suc d)"] show ?case by (simp add: case_prod_unfold)
next
  case (JNum n)
  then show ?case using stringify_not_Nil [of "JNum n"] by (cases "stringify (JNum n)") auto
qed (auto simp: json_string_def)

lemma json_parse_render:
  assumes "\<And>d. blank (brk d)" "blank sp" "json_ok j" "blank w"
  shows "json_parse (render brk sp 0 j @ w) = Some j"
proof -
  let ?t = "render brk sp 0 j"
  have "jfuel j \<le> 2 * length (?t @ w) + 1" using jfuel_le [of j brk sp 0] by simp
  moreover have "no_dec w" using no_dec_blank [OF assms(4), of "[]"] by simp
  ultimately have "pvalue (2 * length (?t @ w) + 1) (?t @ w) = Some (j, w)"
    using reads_render [of brk sp j 0, OF assms(1-3)] unfolding reads_def by blast
  moreover have "skip_ws w = []" using skip_blank [OF assms(4), of "[]"] by simp
  ultimately show ?thesis unfolding json_parse_def by (simp del: pvalue.simps)
qed

interpretation parser: json_file_codec json_parse
proof
  fix j assume ok: "json_ok j"
  show "json_parse (stringify j) = Some j"
    using json_parse_render [of "\<lambda>_. []" "[]" j "[]"] ok by (simp add: stringify_render [of j 0])
  show "json_parse (stringify_pretty j @ [newline]) = Some j"
    unfolding stringify_pretty_def
    by (rule json_parse_render) (use ok in \<open>auto simp: is_ws_def list_all_iff\<close>)
qed

end
