(* ===== verification/SkillKey.thy ===== *)
theory SkillKey
  imports Prelude Json
begin

text \<open>
  The Skill-key contract: \<open>packages/shared/src/consts/skill-key.ts\<close> (the pattern and the
  bounds) and \<open>packages/cli/src/lib/skill-key.ts\<close> (validation, diagnosis, sanitizing). A key is
  one to four components separated by a slash; every producer of queue items, claims and
  materialization receipts goes through \<open>isValidSkillKey\<close>.
\<close>

section \<open>The pattern\<close>

definition MAX_SKILL_KEY_LEN :: nat where
  "MAX_SKILL_KEY_LEN = 200"

definition RESERVED_SKILL_KEY_SUFFIXES :: "string list" where
  "RESERVED_SKILL_KEY_SUFFIXES = [''download'', ''content'', ''install'']"

definition is_lower :: "char \<Rightarrow> bool" where
  "is_lower c \<longleftrightarrow> CHR ''a'' \<le> c \<and> c \<le> CHR ''z''"

definition is_upper :: "char \<Rightarrow> bool" where
  "is_upper c \<longleftrightarrow> CHR ''A'' \<le> c \<and> c \<le> CHR ''Z''"

definition is_digit :: "char \<Rightarrow> bool" where
  "is_digit c \<longleftrightarrow> CHR ''0'' \<le> c \<and> c \<le> CHR ''9''"

definition is_alnum :: "char \<Rightarrow> bool" where
  "is_alnum c \<longleftrightarrow> is_upper c \<or> is_lower c \<or> is_digit c"

text \<open>The character class \<open>[A-Za-z0-9._-]\<close>.\<close>

definition is_key_char :: "char \<Rightarrow> bool" where
  "is_key_char c \<longleftrightarrow> is_alnum c \<or> c = CHR ''.'' \<or> c = CHR ''_'' \<or> c = CHR ''-''"

text \<open>One component: \<open>[A-Za-z0-9][A-Za-z0-9._-]{0,199}\<close>.\<close>

fun key_component :: "string \<Rightarrow> bool" where
  "key_component [] = False"
| "key_component (c # cs) \<longleftrightarrow> is_alnum c \<and> length cs \<le> 199 \<and> list_all is_key_char cs"

text \<open>The anchored pattern: a component followed by up to three more, each after a slash. No
  class of the pattern contains the slash, so a match is a match of each part between the
  slashes.\<close>

definition SKILL_KEY_PATTERN :: "string \<Rightarrow> bool" where
  "SKILL_KEY_PATTERN s =
     (let parts = split_on (CHR ''/'') s
      in length parts \<le> 4 \<and> list_all key_component parts)"

section \<open>Validation\<close>

definition hasReservedSkillKeySuffix :: "string \<Rightarrow> bool" where
  "hasReservedSkillKeySuffix skillKey =
     (let parts = split_on (CHR ''/'') skillKey
      in length parts > 1 \<and> last parts \<in> set RESERVED_SKILL_KEY_SUFFIXES)"

definition isValidSkillKey :: "string \<Rightarrow> bool" where
  "isValidSkillKey skillKey \<longleftrightarrow>
     length skillKey \<le> MAX_SKILL_KEY_LEN \<and>
     SKILL_KEY_PATTERN skillKey \<and>
     \<not> hasReservedSkillKeySuffix skillKey"

text \<open>The diagnosis a log line carries instead of the name. The tests run in the order of the
  source's \<open>else if\<close> chain.\<close>

definition skillKeyReason :: "string \<Rightarrow> string" where
  "skillKeyReason skillKey =
     (let parts = split_on (CHR ''/'') skillKey
      in if skillKey = [] then ''empty''
         else if length skillKey > MAX_SKILL_KEY_LEN then ''too_long''
         else if length parts > 4 then ''too_deep''
         else if list_ex (\<lambda>c. of_char c > (127::nat)) skillKey then ''non_ascii''
         else if list_ex (\<lambda>c. \<not> (is_key_char c \<or> c = CHR ''/'')) skillKey then ''invalid_characters''
         else if list_ex (\<lambda>part. case part of [] \<Rightarrow> True | c # _ \<Rightarrow> \<not> is_alnum c) parts
           then ''invalid_component_start''
         else if hasReservedSkillKeySuffix skillKey then ''reserved_suffix''
         else ''valid'')"

definition describeSkillKey :: "string \<Rightarrow> string" where
  "describeSkillKey skillKey =
     ''length='' @ nat_decimal (length skillKey) @
     '', components='' @ nat_decimal (length (split_on (CHR ''/'') skillKey)) @
     '', reason='' @ skillKeyReason skillKey"

text \<open>\<open>SkillKeyValidationError\<close> carries the diagnosis in its message.\<close>

datatype key_error = SkillKeyValidationError string

definition assertValidSkillKey :: "string \<Rightarrow> key_error + unit" where
  "assertValidSkillKey skillKey =
     (if isValidSkillKey skillKey then Inr ()
      else Inl (SkillKeyValidationError (''Invalid skill_key ('' @ describeSkillKey skillKey @ '')'')))"

section \<open>Sanitizing a local name\<close>

text \<open>\<open>toLowerCase\<close> on code units below 256: the ASCII capitals and the capitals of the Latin-1
  block (0xC0 to 0xDE without the multiplication sign 0xD7) move up by 32.\<close>

definition to_lower :: "char \<Rightarrow> char" where
  "to_lower c =
     (if is_upper c \<or> (192 \<le> (of_char c::nat) \<and> (of_char c::nat) \<le> 222 \<and> (of_char c::nat) \<noteq> 215)
      then char_of (of_char c + (32::nat)) else c)"

text \<open>\<open>replace(/[class]+/g, r)\<close>: every maximal run of the class becomes \<open>r\<close>.\<close>

function replace_runs :: "(char \<Rightarrow> bool) \<Rightarrow> string \<Rightarrow> string \<Rightarrow> string" where
  "replace_runs P r [] = []"
| "replace_runs P r (c # cs) =
     (if P c then r @ replace_runs P r (dropWhile P cs) else c # replace_runs P r cs)"
  by pat_completeness auto
termination
  by (relation "measure (\<lambda>(P, r, s). length s)") (auto simp: le_imp_less_Suc length_dropWhile_le)

definition is_lower_alnum :: "char \<Rightarrow> bool" where
  "is_lower_alnum c \<longleftrightarrow> is_lower c \<or> is_digit c"

definition strip_ends :: "(char \<Rightarrow> bool) \<Rightarrow> string \<Rightarrow> string" where
  "strip_ends P s = rev (dropWhile P (rev (dropWhile P s)))"

definition sanitizeSkillKey :: "string \<Rightarrow> key_error + string" where
  "sanitizeSkillKey name =
     (let lowered = map to_lower name;
          dashed = replace_runs (\<lambda>c. \<not> (is_lower_alnum c \<or> c = CHR ''.'' \<or> c = CHR ''_'')) ''-'' lowered;
          sanitized = take MAX_SKILL_KEY_LEN (strip_ends (\<lambda>c. \<not> is_lower_alnum c) dashed);
          skillKey = (if sanitized = [] then ''unnamed-skill'' else sanitized)
      in bind_res (assertValidSkillKey skillKey) (\<lambda>_. Inr skillKey))"

section \<open>Lemmas\<close>

lemma is_key_char_not_slash: "is_key_char c \<Longrightarrow> c \<noteq> CHR ''/''"
  by (auto simp: is_key_char_def is_alnum_def is_upper_def is_lower_def is_digit_def less_eq_char_def)

lemma is_alnum_key_char: "is_alnum c \<Longrightarrow> is_key_char c"
  by (simp add: is_key_char_def)

lemma is_lower_alnum_alnum: "is_lower_alnum c \<Longrightarrow> is_alnum c"
  by (auto simp: is_lower_alnum_def is_alnum_def)

lemma key_component_chars:
  "key_component p \<Longrightarrow> p \<noteq> [] \<and> is_alnum (hd p) \<and> (\<forall>c\<in>set p. is_key_char c)"
  by (cases p) (auto simp: list_all_iff is_alnum_key_char)

lemma valid_key_not_empty: "isValidSkillKey k \<Longrightarrow> k \<noteq> []"
  by (auto simp: isValidSkillKey_def SKILL_KEY_PATTERN_def)

lemma valid_key_component_chars:
  assumes "isValidSkillKey k" and "p \<in> set (split_on (CHR ''/'') k)"
  shows "p \<noteq> [] \<and> is_alnum (hd p) \<and> (\<forall>c\<in>set p. is_key_char c)"
proof -
  from assms have "key_component p"
    by (auto simp: isValidSkillKey_def SKILL_KEY_PATTERN_def list_all_iff Let_def)
  then show ?thesis by (rule key_component_chars)
qed

text \<open>A one-component key is valid as soon as its characters and its length are right: the
  reserved suffixes only apply below a category.\<close>

lemma flat_key_valid:
  assumes "c # cs = k" "is_alnum c" "\<forall>x\<in>set cs. is_key_char x" "length k \<le> 200"
  shows "isValidSkillKey k"
proof -
  have "CHR ''/'' \<notin> set k"
    using assms is_key_char_not_slash is_alnum_key_char by fastforce
  then have "split_on (CHR ''/'') k = [k]" by (rule split_on_no_sep)
  with assms show ?thesis
    by (auto simp: isValidSkillKey_def SKILL_KEY_PATTERN_def hasReservedSkillKeySuffix_def
        MAX_SKILL_KEY_LEN_def list_all_iff)
qed

lemma split_on_subset: "p \<in> set (split_on c s) \<Longrightarrow> set p \<subseteq> set s \<and> length p \<le> length s"
proof (induction s arbitrary: p)
  case Nil
  then show ?case by simp
next
  case (Cons x s)
  obtain q qs where q: "split_on c s = q # qs" by (cases "split_on c s") auto
  from Cons.IH q have tl: "\<And>r. r \<in> set (q # qs) \<Longrightarrow> set r \<subseteq> set s \<and> length r \<le> length s" by simp
  from Cons.prems q consider "p = []" | "p = x # q" | "p \<in> set (q # qs)" by (auto split: if_splits)
  then show ?case using tl [of q] tl [of p] by cases auto
qed

lemma split_on_mem: "x \<in> set s \<Longrightarrow> x \<noteq> c \<Longrightarrow> \<exists>p\<in>set (split_on c s). x \<in> set p"
proof (induction s)
  case Nil
  then show ?case by simp
next
  case (Cons y s)
  obtain q qs where q: "split_on c s = q # qs" by (cases "split_on c s") auto
  with Cons show ?case by (cases "x = y") auto
qed

lemma is_key_char_ascii: "is_key_char c \<Longrightarrow> of_char c \<le> (127::nat)"
  by (auto simp: is_key_char_def is_alnum_def is_upper_def is_lower_def is_digit_def less_eq_char_def)

text \<open>The pattern, read off the whole key: its characters and the first character of each part.\<close>

lemma pattern_iff:
  assumes "length s \<le> 200"
  shows "SKILL_KEY_PATTERN s \<longleftrightarrow>
     length (split_on (CHR ''/'') s) \<le> 4 \<and>
     (\<forall>c\<in>set s. is_key_char c \<or> c = CHR ''/'') \<and>
     (\<forall>p\<in>set (split_on (CHR ''/'') s). p \<noteq> [] \<and> is_alnum (hd p))"
    (is "_ \<longleftrightarrow> _ \<and> ?chars \<and> ?starts")
proof -
  let ?parts = "split_on (CHR ''/'') s"
  have "(\<forall>p\<in>set ?parts. key_component p) \<longleftrightarrow> ?chars \<and> ?starts"
  proof safe
    fix c assume all: "\<forall>p\<in>set ?parts. key_component p" and c: "c \<in> set s" "c \<noteq> CHR ''/''"
    from split_on_mem [OF c] all obtain p where "p \<in> set ?parts" "c \<in> set p" "key_component p" by blast
    then show "is_key_char c" by (blast dest: key_component_chars)
  next
    fix p assume "\<forall>p\<in>set ?parts. key_component p" "p \<in> set ?parts"
    then have "key_component p" by blast
    then show "is_alnum (hd p)" by (cases p) auto
  next
    assume "\<forall>p\<in>set ?parts. key_component p" "[] \<in> set ?parts"
    then have "key_component []" by blast
    then show False by simp
  next
    fix p assume chars: ?chars and starts: ?starts and p: "p \<in> set ?parts"
    from p starts obtain c cs where ccs: "p = c # cs" "is_alnum c"
      by (metis list.sel(1) neq_Nil_conv)
    from split_on_subset [OF p] assms ccs have "length cs \<le> 199" by simp
    moreover from split_on_subset [OF p] split_on_parts [OF p] chars ccs
    have "\<forall>x\<in>set cs. is_key_char x" by auto
    ultimately show "key_component p" using ccs by (simp add: list_all_iff)
  qed
  then show ?thesis by (simp add: SKILL_KEY_PATTERN_def list_all_iff Let_def)
qed

lemma replace_runs_chars:
  assumes "x \<in> set (replace_runs P r s)"
  shows "x \<in> set r \<or> (x \<in> set s \<and> \<not> P x)"
  using assms
proof (induction P r s rule: replace_runs.induct)
  case (1 P r)
  then show ?case by simp
next
  case (2 P r c cs)
  show ?case
  proof (cases "P c")
    case True
    with 2 show ?thesis by (auto dest: set_dropWhileD)
  next
    case False
    with 2 show ?thesis by auto
  qed
qed

lemma strip_ends_set: "set (strip_ends P s) \<subseteq> set s"
  by (auto simp: strip_ends_def dest!: set_dropWhileD)

lemma strip_ends_hd: "strip_ends P s \<noteq> [] \<Longrightarrow> \<not> P (hd (strip_ends P s))"
proof -
  let ?t = "dropWhile P s"
  assume ne: "strip_ends P s \<noteq> []"
  have eq: "?t = strip_ends P s @ rev (takeWhile P (rev ?t))"
    by (metis rev_append rev_rev_ident strip_ends_def takeWhile_dropWhile_id)
  from eq ne have hd: "hd ?t = hd (strip_ends P s)" by (metis hd_append2)
  from eq ne have "?t \<noteq> []" by (metis append_is_Nil_conv)
  then have "\<not> P (hd ?t)" by (rule hd_dropWhile)
  with hd show ?thesis by simp
qed

section \<open>Properties\<close>

text \<open>The diagnosis and the validation agree: \<open>describeSkillKey\<close> reports the reason
  \<open>valid\<close> exactly for the keys \<open>isValidSkillKey\<close> accepts, so no rejected key is logged as valid
  and no accepted key is logged with a defect.\<close>

lemma skillKeyReason_valid_iff: "skillKeyReason k = ''valid'' \<longleftrightarrow> isValidSkillKey k"
proof (cases "length k \<le> 200")
  case False
  then show ?thesis by (auto simp: skillKeyReason_def isValidSkillKey_def MAX_SKILL_KEY_LEN_def Let_def)
next
  case True
  have start: "(case p of [] \<Rightarrow> True | c # _ \<Rightarrow> \<not> is_alnum c) \<longleftrightarrow> \<not> (p \<noteq> [] \<and> is_alnum (hd p))" for p
    by (cases p) auto
  have "\<not> list_ex (\<lambda>c. of_char c > (127::nat)) k" if "\<forall>c\<in>set k. is_key_char c \<or> c = CHR ''/''"
    using that is_key_char_ascii by (fastforce simp: list_ex_iff)
  moreover have "k \<noteq> []" if "\<forall>p\<in>set (split_on (CHR ''/'') k). p \<noteq> [] \<and> is_alnum (hd p)"
    using that by auto
  ultimately show ?thesis using True pattern_iff [OF True]
    by (simp add: skillKeyReason_def isValidSkillKey_def MAX_SKILL_KEY_LEN_def Let_def list_ex_iff start)
qed

text \<open>Sanitizing never fails: for every local name, \<open>sanitizeSkillKey\<close> returns a key, and the
  key satisfies the contract \<open>isValidSkillKey\<close> checks, so its final assertion is never the one
  that throws.\<close>

lemma sanitizeSkillKey_total: "\<exists>k. sanitizeSkillKey name = Inr k \<and> isValidSkillKey k"
proof -
  define bad where "bad = (\<lambda>c. \<not> (is_lower_alnum c \<or> c = CHR ''.'' \<or> c = CHR ''_''))"
  define dashed where "dashed = replace_runs bad ''-'' (map to_lower name)"
  define t where "t = take 200 (strip_ends (\<lambda>c. \<not> is_lower_alnum c) dashed)"
  have chars: "is_key_char c" if "c \<in> set t" for c
  proof -
    from that have "c \<in> set dashed" using strip_ends_set in_set_takeD unfolding t_def by fast
    then have "c \<in> set ''-'' \<or> \<not> bad c" unfolding dashed_def by (blast dest: replace_runs_chars)
    then show ?thesis by (auto simp: bad_def is_key_char_def dest: is_lower_alnum_alnum)
  qed
  have valid: "isValidSkillKey (if t = [] then ''unnamed-skill'' else t)"
  proof (cases t)
    case Nil
    then show ?thesis by simp code_simp
  next
    case (Cons c cs)
    have "is_lower_alnum c"
      using strip_ends_hd [of "\<lambda>c. \<not> is_lower_alnum c" dashed] Cons
      by (cases "strip_ends (\<lambda>c. \<not> is_lower_alnum c) dashed") (auto simp: t_def)
    moreover have "length t \<le> 200" by (simp add: t_def)
    ultimately have "isValidSkillKey t"
      using Cons chars by (intro flat_key_valid [OF Cons [symmetric]]) (auto simp: is_lower_alnum_alnum)
    with Cons show ?thesis by simp
  qed
  have "sanitizeSkillKey name =
      bind_res (assertValidSkillKey (if t = [] then ''unnamed-skill'' else t))
        (\<lambda>_. Inr (if t = [] then ''unnamed-skill'' else t))"
    by (simp only: sanitizeSkillKey_def t_def dashed_def bad_def MAX_SKILL_KEY_LEN_def Let_def)
  also have "\<dots> = Inr (if t = [] then ''unnamed-skill'' else t)"
    using valid by (simp only: assertValidSkillKey_def if_True bind_res.simps)
  finally show ?thesis using valid by blast
qed

end
