(* ===== verification/SkillsLock.thy ===== *)
theory SkillsLock
  imports JsonCodec SkillKey "HOL-Library.Char_ord" "HOL-Library.List_Lexorder"
begin

text \<open>
  The Skill projection ledger, \<open>packages/cli/src/lib/skills-lock.ts\<close>: claims (which Cloud
  projections this machine may delete), Project materializations (which local Skills belong to a
  Project and must not be uploaded) and the upload hash cache, in one JSON file.

  The state is the content of the file, \<^typ>\<open>string option\<close> (\<^term>\<open>None\<close>: no file). Every
  operation that writes runs inside \<open>withPrivateDirectoryLockSync\<close>, so it is one step on the file;
  \<open>owned\<close> is what \<open>lease.assertOwned()\<close> finds just before the write. \<open>parse\<close> is \<open>JSON.parse\<close>.
\<close>

section \<open>Data\<close>

record skill_claim =
  cl_agent_type :: string
  cl_agent_id :: string
  cl_project_id :: string
  cl_skill_key :: string
  cl_hash :: string

record skill_identity =
  id_agentType :: string
  id_agentId :: string
  id_projectId :: string
  id_skillKey :: string

record materialization =
  mt_agent_type :: string
  mt_local_skill_key :: string
  mt_source_project_id :: string
  mt_source_skill_key :: string
  mt_content_hash :: string
  mt_reconcile_agent_id :: "string option"

record materialization_identity =
  mi_agentType :: string
  mi_localSkillKey :: string

record materialization_input = materialization_identity +
  mi_sourceProjectId :: string
  mi_sourceSkillKey :: string
  mi_contentHash :: string
  mi_reconcileAgentId :: "string option"

record skills_lock =
  sl_skills :: "(string, string) js_map"
  sl_claims :: "(string, skill_claim) js_map"
  sl_materializations :: "(string, materialization) js_map"

definition skills_lock_version :: int where
  "skills_lock_version = 5"

definition emptyLock :: skills_lock where
  "emptyLock = \<lparr>sl_skills = [], sl_claims = [], sl_materializations = []\<rparr>"

datatype lock_error = LockError string | LeaseLost

type_synonym lock_file = "string option"

section \<open>Cache keys\<close>

text \<open>\<open>encodeURIComponent\<close> on code units below 256: the unreserved characters stand for themselves,
  every other one is its UTF-8 bytes in percent form.\<close>

definition uri_unreserved :: "char \<Rightarrow> bool" where
  "uri_unreserved c \<longleftrightarrow> is_alnum c \<or> c \<in> set ''-_.!~*'' \<or> of_char c \<in> {39, 40, 41 :: nat}"

definition upper_hex :: "nat \<Rightarrow> char" where
  "upper_hex d = (if d < 10 then char_of (48 + d) else char_of (55 + d))"

definition percent_byte :: "nat \<Rightarrow> string" where
  "percent_byte b = [CHR ''%'', upper_hex (b div 16), upper_hex (b mod 16)]"

definition utf8_bytes :: "char \<Rightarrow> nat list" where
  "utf8_bytes c = (let n = of_char c in if n < 128 then [n] else [192 + n div 64, 128 + n mod 64])"

definition uri_code :: "char \<Rightarrow> string" where
  "uri_code c = (if uri_unreserved c then [c] else concat (map percent_byte (utf8_bytes c)))"

definition encodeURIComponent :: "string \<Rightarrow> string" where
  "encodeURIComponent s = concat (map uri_code s)"

definition skillCacheKey :: "string \<Rightarrow> string \<Rightarrow> string" where
  "skillCacheKey agentType skillKey = agentType @ '':'' @ skillKey"

definition skillClaimCacheKey :: "string \<Rightarrow> string \<Rightarrow> string \<Rightarrow> string" where
  "skillClaimCacheKey agentId projectId skillKey =
     join_with '':'' (map encodeURIComponent [agentId, projectId, skillKey])"

definition projectSkillMaterializationCacheKey :: "string \<Rightarrow> string \<Rightarrow> string" where
  "projectSkillMaterializationCacheKey agentType localSkillKey =
     join_with '':'' (map encodeURIComponent [agentType, localSkillKey])"

definition canonicalMaterializedSkillKey :: "string \<Rightarrow> lock_error + string" where
  "canonicalMaterializedSkillKey relativePath =
     (let slashed = map (\<lambda>c. if c = backslash then CHR ''/'' else c) relativePath;
          canonical = (case slashed of
             c # d # rest \<Rightarrow> if c = CHR ''.'' \<and> d = CHR ''/'' then dropWhile (\<lambda>x. x = CHR ''/'') rest else slashed
           | _ \<Rightarrow> slashed)
      in if isValidSkillKey canonical then Inr canonical
         else Inl (LockError ''Invalid materialized skill path''))"

section \<open>Reading\<close>

definition str_field :: "json \<Rightarrow> string \<Rightarrow> string" where
  "str_field r k = or_else (as_string (jprop r k)) []"

definition readHashEntries :: "json option \<Rightarrow> (string, string) js_map" where
  "readHashEntries value =
     (case value of
        Some (JObj fs) \<Rightarrow>
          fold (\<lambda>(key, raw) entries.
            if is_record raw \<and> nonempty_string (jprop raw ''hash'')
            then map_set key (str_field raw ''hash'') entries else entries) fs []
      | _ \<Rightarrow> [])"

definition read_claim :: "string \<Rightarrow> json \<Rightarrow> skill_claim option" where
  "read_claim key raw =
     (if \<not> is_record raw then None
      else if \<not> nonempty_string (jprop raw ''agent_type'') \<or> \<not> nonempty_string (jprop raw ''agent_id'') \<or>
        \<not> nonempty_string (jprop raw ''project_id'') \<or>
        \<not> is_string (jprop raw ''skill_key'') \<or> \<not> isValidSkillKey (str_field raw ''skill_key'') \<or>
        \<not> nonempty_string (jprop raw ''hash'') then None
      else if key \<noteq> skillClaimCacheKey (str_field raw ''agent_id'') (str_field raw ''project_id'')
          (str_field raw ''skill_key'') then None
      else Some \<lparr>cl_agent_type = str_field raw ''agent_type'', cl_agent_id = str_field raw ''agent_id'',
        cl_project_id = str_field raw ''project_id'', cl_skill_key = str_field raw ''skill_key'',
        cl_hash = str_field raw ''hash''\<rparr>)"

definition read_materialization :: "string \<Rightarrow> json \<Rightarrow> materialization option" where
  "read_materialization key raw =
     (if \<not> is_record raw then None
      else if \<not> nonempty_string (jprop raw ''agent_type'') \<or>
        \<not> is_string (jprop raw ''local_skill_key'') \<or> \<not> isValidSkillKey (str_field raw ''local_skill_key'') \<or>
        \<not> nonempty_string (jprop raw ''source_project_id'') \<or>
        \<not> is_string (jprop raw ''source_skill_key'') \<or> \<not> isValidSkillKey (str_field raw ''source_skill_key'') \<or>
        \<not> nonempty_string (jprop raw ''content_hash'') then None
      else if key \<noteq> projectSkillMaterializationCacheKey (str_field raw ''agent_type'')
          (str_field raw ''local_skill_key'') then None
      else Some \<lparr>mt_agent_type = str_field raw ''agent_type'', mt_local_skill_key = str_field raw ''local_skill_key'',
        mt_source_project_id = str_field raw ''source_project_id'',
        mt_source_skill_key = str_field raw ''source_skill_key'',
        mt_content_hash = str_field raw ''content_hash'',
        mt_reconcile_agent_id =
          (if nonempty_string (jprop raw ''reconcile_agent_id'')
           then Some (str_field raw ''reconcile_agent_id'') else None)\<rparr>)"

text \<open>The loop over \<open>Object.entries\<close> that keeps the entries a reader accepts.\<close>

definition read_entries :: "(string \<Rightarrow> json \<Rightarrow> 'v option) \<Rightarrow> json option \<Rightarrow> (string, 'v) js_map" where
  "read_entries read value =
     (case value of
        Some (JObj fs) \<Rightarrow>
          fold (\<lambda>(key, raw) m. case read key raw of None \<Rightarrow> m | Some v \<Rightarrow> map_set key v m) fs []
      | _ \<Rightarrow> [])"

definition readProjectionClaims :: "json option \<Rightarrow> (string, skill_claim) js_map" where
  "readProjectionClaims value = read_entries read_claim value"

definition readProjectSkillMaterializations :: "json option \<Rightarrow> (string, materialization) js_map" where
  "readProjectSkillMaterializations value = read_entries read_materialization value"

definition readSkillsLock :: "(string \<Rightarrow> json option) \<Rightarrow> lock_file \<Rightarrow> skills_lock" where
  "readSkillsLock parse data =
     (case data of
        None \<Rightarrow> emptyLock
      | Some content \<Rightarrow>
          (case parse content of
             None \<Rightarrow> emptyLock
           | Some parsed \<Rightarrow>
               if \<not> is_record parsed then emptyLock
               else if jprop parsed ''version'' \<noteq> Some (JNum skills_lock_version) then emptyLock
               else \<lparr>sl_skills = readHashEntries (jprop parsed ''skills''),
                     sl_claims = readProjectionClaims (jprop parsed ''claims''),
                     sl_materializations = readProjectSkillMaterializations (jprop parsed ''materializations'')\<rparr>))"

section \<open>Writing\<close>

definition hash_json :: "string \<Rightarrow> json" where
  "hash_json h = JObj [(''hash'', JStr h)]"

definition claim_json :: "skill_claim \<Rightarrow> json" where
  "claim_json c =
     JObj [(''agent_type'', JStr (cl_agent_type c)), (''agent_id'', JStr (cl_agent_id c)),
       (''project_id'', JStr (cl_project_id c)), (''skill_key'', JStr (cl_skill_key c)),
       (''hash'', JStr (cl_hash c))]"

definition materialization_json :: "materialization \<Rightarrow> json" where
  "materialization_json m =
     JObj ([(''agent_type'', JStr (mt_agent_type m)), (''local_skill_key'', JStr (mt_local_skill_key m)),
       (''source_project_id'', JStr (mt_source_project_id m)),
       (''source_skill_key'', JStr (mt_source_skill_key m)),
       (''content_hash'', JStr (mt_content_hash m))] @
       (case mt_reconcile_agent_id m of None \<Rightarrow> [] | Some a \<Rightarrow> [(''reconcile_agent_id'', JStr a)]))"

definition sort_keys :: "(string, 'v) js_map \<Rightarrow> (string, 'v) js_map" where
  "sort_keys m = sort_key fst m"

definition entries_json :: "('v \<Rightarrow> json) \<Rightarrow> (string, 'v) js_map \<Rightarrow> json" where
  "entries_json f m = JObj (map (\<lambda>(k, v). (k, f v)) m)"

definition lock_json :: "skills_lock \<Rightarrow> json" where
  "lock_json lock =
     JObj [(''version'', JNum skills_lock_version),
       (''skills'', entries_json hash_json (sl_skills lock)),
       (''claims'', entries_json claim_json (sl_claims lock)),
       (''materializations'', entries_json materialization_json (sl_materializations lock))]"

definition sorted_lock :: "skills_lock \<Rightarrow> skills_lock" where
  "sorted_lock lock =
     \<lparr>sl_skills = sort_keys (sl_skills lock), sl_claims = sort_keys (sl_claims lock),
      sl_materializations = sort_keys (sl_materializations lock)\<rparr>"

definition writeSkillsLockUnlocked :: "skills_lock \<Rightarrow> lock_file" where
  "writeSkillsLockUnlocked lock = Some (stringify_pretty (lock_json (sorted_lock lock)) @ [newline])"

text \<open>\<open>lease.assertOwned()\<close> and the write.\<close>

definition commit_lock :: "bool \<Rightarrow> skills_lock \<Rightarrow> lock_error + lock_file" where
  "commit_lock owned lock = (if owned then Inr (writeSkillsLockUnlocked lock) else Inl LeaseLost)"

text \<open>\<open>{...a, ...b}\<close>.\<close>

definition spread :: "(string, 'v) js_map \<Rightarrow> (string, 'v) js_map \<Rightarrow> (string, 'v) js_map" where
  "spread a b = fold (\<lambda>(k, v). map_set k v) b a"

definition writeSkillsLock ::
  "(string \<Rightarrow> json option) \<Rightarrow> bool \<Rightarrow> skills_lock \<Rightarrow> lock_file \<Rightarrow> lock_error + lock_file" where
  "writeSkillsLock parse owned lock data =
     (let current = readSkillsLock parse data;
          requestedClaims = readProjectionClaims (Some (entries_json claim_json (sl_claims lock)));
          requestedMaterializations =
            readProjectSkillMaterializations (Some (entries_json materialization_json (sl_materializations lock)))
      in commit_lock owned
           \<lparr>sl_skills = sl_skills lock, sl_claims = spread requestedClaims (sl_claims current),
            sl_materializations = spread requestedMaterializations (sl_materializations current)\<rparr>)"

section \<open>Claims\<close>

definition readSkillProjectionState ::
  "(string \<Rightarrow> json option) \<Rightarrow> string \<Rightarrow> string \<Rightarrow> string \<Rightarrow> lock_file \<Rightarrow> (string, string) js_map" where
  "readSkillProjectionState parse agentType agentId projectId data =
     fold (\<lambda>claim claims.
         if cl_agent_type claim = agentType \<and> cl_agent_id claim = agentId \<and> cl_project_id claim = projectId
         then map_set (cl_skill_key claim) (cl_hash claim) claims else claims)
       (map_values (sl_claims (readSkillsLock parse data))) []"

definition readSkillProjectionClaimsForAgent ::
  "(string \<Rightarrow> json option) \<Rightarrow> string \<Rightarrow> string \<Rightarrow> lock_file \<Rightarrow> skill_claim list" where
  "readSkillProjectionClaimsForAgent parse agentType agentId data =
     filter (\<lambda>claim. cl_agent_type claim = agentType \<and> cl_agent_id claim = agentId)
       (map_values (sl_claims (readSkillsLock parse data)))"

definition assertValidProjectionIdentity :: "skill_identity \<Rightarrow> lock_error + unit" where
  "assertValidProjectionIdentity identity =
     (if id_agentType identity = [] then Inl (LockError ''Skill projection agent type is required'')
      else if id_agentId identity = [] then Inl (LockError ''Skill projection agent ID is required'')
      else if id_projectId identity = [] then Inl (LockError ''Skill projection project ID is required'')
      else if \<not> isValidSkillKey (id_skillKey identity) then Inl (LockError ''Invalid skill projection key'')
      else Inr ())"

definition identity_key :: "skill_identity \<Rightarrow> string" where
  "identity_key i = skillClaimCacheKey (id_agentId i) (id_projectId i) (id_skillKey i)"

definition claim_of :: "skill_identity \<Rightarrow> string \<Rightarrow> skill_claim" where
  "claim_of i hash =
     \<lparr>cl_agent_type = id_agentType i, cl_agent_id = id_agentId i, cl_project_id = id_projectId i,
      cl_skill_key = id_skillKey i, cl_hash = hash\<rparr>"

definition recordSkillProjectionClaim ::
  "(string \<Rightarrow> json option) \<Rightarrow> bool \<Rightarrow> skill_identity \<Rightarrow> string \<Rightarrow> lock_file \<Rightarrow> lock_error + lock_file" where
  "recordSkillProjectionClaim parse owned claim hash data =
     bind_res (assertValidProjectionIdentity claim) (\<lambda>_.
       if hash = [] then Inl (LockError ''Skill projection claim hash must not be empty'')
       else (let lock = readSkillsLock parse data;
                 lock1 = lock\<lparr>sl_claims := map_set (identity_key claim) (claim_of claim hash) (sl_claims lock)\<rparr>;
                 lock2 = lock1\<lparr>sl_skills :=
                   map_set (skillCacheKey (id_agentType claim) (id_skillKey claim)) hash (sl_skills lock1)\<rparr>
             in commit_lock owned lock2))"

definition exact_claim :: "skill_identity \<Rightarrow> skill_claim \<Rightarrow> bool" where
  "exact_claim identity existing \<longleftrightarrow>
     cl_agent_type existing = id_agentType identity \<and> cl_agent_id existing = id_agentId identity \<and>
     cl_project_id existing = id_projectId identity \<and> cl_skill_key existing = id_skillKey identity"

definition removeSkillProjectionClaim ::
  "(string \<Rightarrow> json option) \<Rightarrow> bool \<Rightarrow> skill_identity \<Rightarrow> lock_file \<Rightarrow> lock_error + (bool \<times> lock_file)" where
  "removeSkillProjectionClaim parse owned identity data =
     bind_res (assertValidProjectionIdentity identity) (\<lambda>_.
       (let lock = readSkillsLock parse data
        in case map_get (sl_claims lock) (identity_key identity) of
             None \<Rightarrow> Inr (False, data)
           | Some existing \<Rightarrow>
               if \<not> exact_claim identity existing then Inr (False, data)
               else (let lock1 = lock\<lparr>sl_claims := map_delete (identity_key identity) (sl_claims lock)\<rparr>;
                         baselineKey = skillCacheKey (id_agentType identity) (id_skillKey identity);
                         lock2 = (if map_get (sl_skills lock1) baselineKey = Some (cl_hash existing)
                                  then lock1\<lparr>sl_skills := map_delete baselineKey (sl_skills lock1)\<rparr> else lock1)
                     in bind_res (commit_lock owned lock2) (\<lambda>data'. Inr (True, data')))))"

section \<open>Materializations\<close>

definition assertValidMaterializationIdentity :: "'a materialization_identity_scheme \<Rightarrow> lock_error + unit" where
  "assertValidMaterializationIdentity identity =
     (if mi_agentType identity = [] then Inl (LockError ''Materialized skill agent type is required'')
      else if \<not> isValidSkillKey (mi_localSkillKey identity) then Inl (LockError ''Invalid materialized skill key'')
      else Inr ())"

definition materialization_key :: "'a materialization_identity_scheme \<Rightarrow> string" where
  "materialization_key i = projectSkillMaterializationCacheKey (mi_agentType i) (mi_localSkillKey i)"

definition same_local :: "'a materialization_identity_scheme \<Rightarrow> materialization \<Rightarrow> bool" where
  "same_local i m \<longleftrightarrow> mt_agent_type m = mi_agentType i \<and> mt_local_skill_key m = mi_localSkillKey i"

definition readProjectSkillMaterialization ::
  "(string \<Rightarrow> json option) \<Rightarrow> 'a materialization_identity_scheme \<Rightarrow> lock_file \<Rightarrow> lock_error + materialization option" where
  "readProjectSkillMaterialization parse identity data =
     bind_res (assertValidMaterializationIdentity identity) (\<lambda>_.
       case map_get (sl_materializations (readSkillsLock parse data)) (materialization_key identity) of
         None \<Rightarrow> Inr None
       | Some m \<Rightarrow> Inr (if same_local identity m then Some m else None))"

definition same_source :: "materialization_input \<Rightarrow> materialization \<Rightarrow> bool" where
  "same_source i m \<longleftrightarrow>
     mt_source_project_id m = mi_sourceProjectId i \<and> mt_source_skill_key m = mi_sourceSkillKey i \<and>
     mt_content_hash m = mi_contentHash i"

definition hasExactProjectSkillMaterialization ::
  "(string \<Rightarrow> json option) \<Rightarrow> materialization_input \<Rightarrow> lock_file \<Rightarrow> lock_error + bool" where
  "hasExactProjectSkillMaterialization parse input data =
     bind_res (readProjectSkillMaterialization parse input data) (\<lambda>existing.
       Inr (case existing of
              None \<Rightarrow> False
            | Some m \<Rightarrow> same_source input m \<and>
                (mi_reconcileAgentId input = None \<or> mt_reconcile_agent_id m = mi_reconcileAgentId input)))"

definition materialization_of :: "materialization_input \<Rightarrow> materialization" where
  "materialization_of i =
     \<lparr>mt_agent_type = mi_agentType i, mt_local_skill_key = mi_localSkillKey i,
      mt_source_project_id = mi_sourceProjectId i, mt_source_skill_key = mi_sourceSkillKey i,
      mt_content_hash = mi_contentHash i,
      mt_reconcile_agent_id =
        (case mi_reconcileAgentId i of None \<Rightarrow> None | Some a \<Rightarrow> if a = [] then None else Some a)\<rparr>"

definition assert_materialization_input :: "materialization_input \<Rightarrow> lock_error + unit" where
  "assert_materialization_input i =
     bind_res (assertValidMaterializationIdentity i) (\<lambda>_.
       if mi_sourceProjectId i = [] then Inl (LockError ''Source project ID is required'')
       else if \<not> isValidSkillKey (mi_sourceSkillKey i) then Inl (LockError ''Invalid source project skill key'')
       else if mi_contentHash i = [] then Inl (LockError ''Materialized skill hash is required'')
       else if mi_reconcileAgentId i = Some [] then Inl (LockError ''Reconcile agent ID must not be empty'')
       else Inr ())"

definition recordProjectSkillMaterialization ::
  "(string \<Rightarrow> json option) \<Rightarrow> bool \<Rightarrow> materialization_input \<Rightarrow> lock_file \<Rightarrow> lock_error + lock_file" where
  "recordProjectSkillMaterialization parse owned input data =
     bind_res (assert_materialization_input input) (\<lambda>_.
       (let lock = readSkillsLock parse data
        in commit_lock owned (lock\<lparr>sl_materializations :=
             map_set (materialization_key input) (materialization_of input) (sl_materializations lock)\<rparr>)))"

text \<open>The undo step of a failed activation: it puts the previous receipt back only when the one on
  file is still the one this attempt wrote.\<close>

definition rollback_materialization ::
  "(string \<Rightarrow> json option) \<Rightarrow> bool \<Rightarrow> materialization_input \<Rightarrow> materialization option \<Rightarrow> lock_file \<Rightarrow>
   lock_error + lock_file" where
  "rollback_materialization parse owned input previous data =
     (let lock = readSkillsLock parse data
      in case map_get (sl_materializations lock) (materialization_key input) of
           None \<Rightarrow> Inr data
         | Some current \<Rightarrow>
             if same_source input current \<and> mt_reconcile_agent_id current = mi_reconcileAgentId input
             then commit_lock owned (lock\<lparr>sl_materializations :=
               (case previous of
                  Some p \<Rightarrow> map_set (materialization_key input) p (sl_materializations lock)
                | None \<Rightarrow> map_delete (materialization_key input) (sl_materializations lock))\<rparr>)
             else Inr data)"

text \<open>\<open>activate\<close> is the caller's callback: it may fail (with a message), and the file may change while it
  runs. The result is the error the call throws, if any, and the file.\<close>

definition commitProjectSkillMaterialization ::
  "(string \<Rightarrow> json option) \<Rightarrow> bool \<Rightarrow> bool \<Rightarrow> materialization_input \<Rightarrow>
   (lock_file \<Rightarrow> lock_error option \<times> lock_file) \<Rightarrow> lock_file \<Rightarrow> lock_error option \<times> lock_file" where
  "commitProjectSkillMaterialization parse owned owned_back input activate data =
     (case readProjectSkillMaterialization parse input data of
        Inl e \<Rightarrow> (Some e, data)
      | Inr previous \<Rightarrow>
          (case recordProjectSkillMaterialization parse owned input data of
             Inl e \<Rightarrow> (Some e, data)
           | Inr data1 \<Rightarrow>
               (case activate data1 of
                  (None, data2) \<Rightarrow> (None, data2)
                | (Some error, data2) \<Rightarrow>
                    (case rollback_materialization parse owned_back input previous data2 of
                       Inl e \<Rightarrow> (Some e, data2)
                     | Inr data3 \<Rightarrow> (Some error, data3)))))"

definition readProjectSkillMaterializationsForReconcile ::
  "(string \<Rightarrow> json option) \<Rightarrow> string \<Rightarrow> string \<Rightarrow> lock_file \<Rightarrow> materialization list" where
  "readProjectSkillMaterializationsForReconcile parse agentType agentId data =
     filter (\<lambda>m. mt_agent_type m = agentType \<and> mt_reconcile_agent_id m = Some agentId)
       (map_values (sl_materializations (readSkillsLock parse data)))"

definition remove_receipt ::
  "(string \<Rightarrow> json option) \<Rightarrow> bool \<Rightarrow> (materialization \<Rightarrow> bool) \<Rightarrow> string \<Rightarrow> lock_file \<Rightarrow> lock_error + (bool \<times> lock_file)" where
  "remove_receipt parse owned matches key data =
     (let lock = readSkillsLock parse data
      in case map_get (sl_materializations lock) key of
           None \<Rightarrow> Inr (False, data)
         | Some existing \<Rightarrow>
             if \<not> matches existing then Inr (False, data)
             else bind_res (commit_lock owned (lock\<lparr>sl_materializations := map_delete key (sl_materializations lock)\<rparr>))
               (\<lambda>data'. Inr (True, data')))"

definition removeProjectSkillMaterialization ::
  "(string \<Rightarrow> json option) \<Rightarrow> bool \<Rightarrow> 'a materialization_identity_scheme \<Rightarrow> lock_file \<Rightarrow> lock_error + (bool \<times> lock_file)" where
  "removeProjectSkillMaterialization parse owned identity data =
     bind_res (assertValidMaterializationIdentity identity) (\<lambda>_.
       remove_receipt parse owned (same_local identity) (materialization_key identity) data)"

definition removeExactProjectSkillMaterialization ::
  "(string \<Rightarrow> json option) \<Rightarrow> bool \<Rightarrow> materialization_input \<Rightarrow> lock_file \<Rightarrow> lock_error + (bool \<times> lock_file)" where
  "removeExactProjectSkillMaterialization parse owned input data =
     bind_res (assertValidMaterializationIdentity input) (\<lambda>_.
       remove_receipt parse owned
         (\<lambda>m. same_local input m \<and> same_source input m \<and> mt_reconcile_agent_id m = mi_reconcileAgentId input)
         (materialization_key input) data)"

end
