(* ===== verification/SyncHealth.thy ===== *)
theory SyncHealth
  imports Complex_Main SkillsLock
begin

text \<open>
  The health report of the daemon, class \<open>SyncHealth\<close> of \<open>packages/cli/src/serve/sync-engine.ts\<close>, and
  the jittered periods of its loops. \<open>random\<close> is what \<open>Math.random()\<close> gives, a number in \<open>[0, 1)\<close>;
  \<open>js_round\<close> is \<open>Math.round\<close>.
\<close>

section \<open>Unresolved failures\<close>

datatype health_area = Transport | Push | Projection

record health_error =
  he_message :: string
  he_transient :: bool

record sync_health =
  hs_transport :: "(string, health_error) js_map"
  hs_push :: "(string, health_error) js_map"
  hs_projection :: "(string, health_error) js_map"

definition new_health :: sync_health where
  "new_health = \<lparr>hs_transport = [], hs_push = [], hs_projection = []\<rparr>"

fun area_errors :: "health_area \<Rightarrow> sync_health \<Rightarrow> (string, health_error) js_map" where
  "area_errors Transport h = hs_transport h"
| "area_errors Push h = hs_push h"
| "area_errors Projection h = hs_projection h"

fun update_area :: "health_area \<Rightarrow> ((string, health_error) js_map \<Rightarrow> (string, health_error) js_map) \<Rightarrow> sync_health \<Rightarrow> sync_health" where
  "update_area Transport f h = h\<lparr>hs_transport := f (hs_transport h)\<rparr>"
| "update_area Push f h = h\<lparr>hs_push := f (hs_push h)\<rparr>"
| "update_area Projection f h = h\<lparr>hs_projection := f (hs_projection h)\<rparr>"

definition health_set :: "health_area \<Rightarrow> string \<Rightarrow> string \<Rightarrow> bool \<Rightarrow> sync_health \<Rightarrow> sync_health" where
  "health_set area resource message transient h =
     update_area area (map_set resource \<lparr>he_message = take 500 message, he_transient = transient\<rparr>) h"

definition health_setIfAbsent :: "health_area \<Rightarrow> string \<Rightarrow> string \<Rightarrow> bool \<Rightarrow> sync_health \<Rightarrow> sync_health" where
  "health_setIfAbsent area resource message transient h =
     (if map_has (area_errors area h) resource then h
      else update_area area (map_set resource \<lparr>he_message = take 500 message, he_transient = transient\<rparr>) h)"

definition health_clear :: "health_area \<Rightarrow> string \<Rightarrow> sync_health \<Rightarrow> sync_health" where
  "health_clear area resource h = update_area area (map_delete resource) h"

definition health_clearTransient :: "health_area \<Rightarrow> string \<Rightarrow> sync_health \<Rightarrow> sync_health" where
  "health_clearTransient area resource h =
     (case map_get (area_errors area h) resource of
        Some e \<Rightarrow> if he_transient e then update_area area (map_delete resource) h else h
      | None \<Rightarrow> h)"

definition health_clearAbsent :: "health_area \<Rightarrow> string \<Rightarrow> string list \<Rightarrow> sync_health \<Rightarrow> sync_health" where
  "health_clearAbsent area pre presentResources h =
     fold (\<lambda>resource h.
         if take (length pre) resource = pre \<and> resource \<notin> set presentResources
         then update_area area (map_delete resource) h else h)
       (map_keys (area_errors area h)) h"

text \<open>\<open>[...map].filter(...).sort(by key)[0]\<close>, for one area after the other.\<close>

definition first_error :: "health_area \<Rightarrow> sync_health \<Rightarrow> (string \<times> health_error) option" where
  "first_error area h =
     (case sort_key fst (filter (\<lambda>(resource, _). area \<noteq> Transport \<or> resource \<noteq> ''auth'') (area_errors area h)) of
        [] \<Rightarrow> None
      | e # _ \<Rightarrow> Some e)"

fun first_of :: "health_area list \<Rightarrow> sync_health \<Rightarrow> string option" where
  "first_of [] h = None"
| "first_of (area # areas) h =
     (case first_error area h of Some (_, e) \<Rightarrow> Some (he_message e) | None \<Rightarrow> first_of areas h)"

definition health_project :: "sync_health \<Rightarrow> string option" where
  "health_project h =
     (case map_get (hs_transport h) ''auth'' of
        Some auth \<Rightarrow> Some (he_message auth)
      | None \<Rightarrow> first_of [Transport, Projection, Push] h)"

section \<open>Periods\<close>

definition js_round :: "rat \<Rightarrow> int" where
  "js_round x = \<lfloor>x + 1 / 2\<rfloor>"

definition RECONCILE_INTERVAL_MS :: int where "RECONCILE_INTERVAL_MS = 5 * 60000"
definition RECONCILE_JITTER_MS :: int where "RECONCILE_JITTER_MS = 60000"
definition PROJECT_REFRESH_INTERVAL_MS :: int where "PROJECT_REFRESH_INTERVAL_MS = 5 * 60000"
definition PROJECT_REFRESH_JITTER_MS :: int where "PROJECT_REFRESH_JITTER_MS = 60000"
definition HEARTBEAT_INTERVAL_MS :: int where "HEARTBEAT_INTERVAL_MS = 60000"
definition HEARTBEAT_JITTER_MS :: int where "HEARTBEAT_JITTER_MS = 15000"
definition TRANSIENT_HEARTBEAT_FAILURES :: nat where "TRANSIENT_HEARTBEAT_FAILURES = 3"

definition jittered :: "int \<Rightarrow> int \<Rightarrow> rat \<Rightarrow> int" where
  "jittered interval jitter random =
     (let offset = (random - 1 / 2) * 2 * of_int jitter in js_round (of_int interval + offset))"

definition reconcileDelayMs :: "rat \<Rightarrow> int" where
  "reconcileDelayMs random = jittered RECONCILE_INTERVAL_MS RECONCILE_JITTER_MS random"

definition projectRefreshDelayMs :: "rat \<Rightarrow> int" where
  "projectRefreshDelayMs random = jittered PROJECT_REFRESH_INTERVAL_MS PROJECT_REFRESH_JITTER_MS random"

definition heartbeatDelayMs :: "rat \<Rightarrow> int" where
  "heartbeatDelayMs random = jittered HEARTBEAT_INTERVAL_MS HEARTBEAT_JITTER_MS random"

text \<open>\<open>runtimeMode?.trim().toLowerCase() !== "hosted"\<close>; \<open>trim\<close> takes the blanks off both ends.\<close>

definition js_space :: "char \<Rightarrow> bool" where
  "js_space c \<longleftrightarrow> (of_char c :: nat) \<in> {9, 10, 11, 12, 13, 32, 160}"

definition js_trim :: "string \<Rightarrow> string" where
  "js_trim s = strip_ends js_space s"

definition connectedProjectSkillDeliveryEnabled :: "string option \<Rightarrow> bool" where
  "connectedProjectSkillDeliveryEnabled runtimeMode =
     (case runtimeMode of None \<Rightarrow> True | Some s \<Rightarrow> map to_lower (js_trim s) \<noteq> ''hosted'')"

section \<open>What is reported\<close>

definition visible_errors :: "health_area \<Rightarrow> sync_health \<Rightarrow> (string, health_error) js_map" where
  "visible_errors area h = filter (\<lambda>(resource, _). area \<noteq> Transport \<or> resource \<noteq> ''auth'') (area_errors area h)"

lemma hd_sort_key_min: "xs \<noteq> [] \<Longrightarrow> hd (sort_key f xs) \<in> set xs \<and> (\<forall>x\<in>set xs. f (hd (sort_key f xs)) \<le> f x)"
proof -
  assume ne: "xs \<noteq> []"
  obtain y ys where y: "sort_key f xs = y # ys" using ne by (cases "sort_key f xs") (auto dest: arg_cong [where f = length])
  have "sorted (map f (y # ys))" using sorted_sort_key [of f xs] y by simp
  moreover have "set (y # ys) = set xs" using set_sort [of f xs] y by simp
  ultimately show ?thesis using y by (auto simp: Ball_def)
qed

lemma first_error_spec:
  "first_error area h = None \<longleftrightarrow> visible_errors area h = []"
  "first_error area h = Some (r, e) \<Longrightarrow>
     (r, e) \<in> set (visible_errors area h) \<and> (\<forall>(r', _)\<in>set (visible_errors area h). r \<le> r')"
proof -
  let ?xs = "visible_errors area h"
  have eq: "first_error area h = (case sort_key fst ?xs of [] \<Rightarrow> None | e # _ \<Rightarrow> Some e)"
    by (simp add: first_error_def visible_errors_def)
  have len: "sort_key fst ?xs = [] \<longleftrightarrow> ?xs = []" by (metis length_0_conv length_sort)
  show "first_error area h = None \<longleftrightarrow> ?xs = []" unfolding eq using len by (auto split: list.split)
  assume s: "first_error area h = Some (r, e)"
  then have ne: "?xs \<noteq> []" and hd: "hd (sort_key fst ?xs) = (r, e)"
    unfolding eq using len by (auto split: list.splits)
  from hd_sort_key_min [OF ne, of fst] hd
  show "(r, e) \<in> set ?xs \<and> (\<forall>(r', _)\<in>set ?xs. r \<le> r')" by auto
qed

text \<open>The health report is complete and deterministic: it is empty exactly when no failure is
  unresolved, a rejected credential always comes first, and otherwise it is the message of the
  least resource (by name) of the first area that has one, transport before projection before push.\<close>

lemma health_project_spec:
  "(health_project h = None \<longleftrightarrow> hs_transport h = [] \<and> hs_projection h = [] \<and> hs_push h = []) \<and>
   (case map_get (hs_transport h) ''auth'' of
      Some e \<Rightarrow> health_project h = Some (he_message e)
    | None \<Rightarrow> health_project h = None \<or>
       (\<exists>area r e. health_project h = Some (he_message e) \<and> (r, e) \<in> set (area_errors area h) \<and>
          (\<forall>(r', _)\<in>set (area_errors area h). r \<le> r') \<and>
          (area = Projection \<longrightarrow> hs_transport h = []) \<and>
          (area = Push \<longrightarrow> hs_transport h = [] \<and> hs_projection h = [])))"
proof (cases "map_get (hs_transport h) ''auth''")
  case (Some e)
  then have "hs_transport h \<noteq> []" by auto
  then show ?thesis using Some by (simp add: health_project_def)
next
  case None
  have vis: "visible_errors area h = area_errors area h" for area
    using None by (cases area) (auto simp: visible_errors_def filter_id_conv map_of_eq_None_iff image_iff)
  note fe = first_error_spec [where h = h, unfolded vis]
  show ?thesis
  proof (cases "first_error Transport h")
    case (Some p)
    then show ?thesis using None fe(1) [of Transport] fe(2) [of Transport]
      by (cases p) (auto simp: health_project_def intro!: exI [of _ Transport], blast)
  next
    case t: None
    show ?thesis
    proof (cases "first_error Projection h")
      case (Some p)
      then show ?thesis using None t fe(1) [of Projection] fe(1) [of Transport] fe(2) [of Projection]
        by (cases p) (auto simp: health_project_def intro!: exI [of _ Projection], blast)
    next
      case p: None
      show ?thesis
      proof (cases "first_error Push h")
        case (Some q)
        then show ?thesis
          using None t p fe(1) [of Projection] fe(1) [of Transport] fe(1) [of Push] fe(2) [of Push]
          by (cases q) (auto simp: health_project_def intro!: exI [of _ Push], blast)
      next
        case None
        then show ?thesis
          using \<open>map_get (hs_transport h) ''auth'' = None\<close> t p
            fe(1) [of Projection] fe(1) [of Transport] fe(1) [of Push]
          by (simp add: health_project_def)
      qed
    qed
  qed
qed

lemma health_project_spec_witness:
  "health_project (health_set Push ''skill:a'' ''boom'' False new_health) \<noteq> None"
  using health_project_spec [of "health_set Push ''skill:a'' ''boom'' False new_health"]
  by (simp add: health_set_def new_health_def)

lemma jittered_bounds:
  assumes "0 \<le> random" "random < 1" "0 \<le> jitter"
  shows "interval - jitter \<le> jittered interval jitter random \<and> jittered interval jitter random \<le> interval + jitter"
proof -
  let ?x = "of_int interval + (random - 1 / 2) * 2 * of_int jitter :: rat"
  have j: "(of_int jitter :: rat) \<ge> 0" using assms(3) by simp
  have "(random - 1 / 2) * 2 * of_int jitter = (2 * random - 1) * of_int jitter" by (simp add: field_simps)
  moreover have "(2 * random - 1) * of_int jitter \<le> 1 * of_int jitter"
    by (rule mult_right_mono) (use assms j in auto)
  moreover have "- 1 * of_int jitter \<le> (2 * random - 1) * of_int jitter"
    by (rule mult_right_mono) (use assms j in auto)
  ultimately have lo: "of_int (interval - jitter) \<le> ?x" and hi: "?x \<le> of_int (interval + jitter)"
    unfolding of_int_diff of_int_add by linarith+
  have "interval - jitter \<le> \<lfloor>?x + 1 / 2\<rfloor>" using lo by (simp add: le_floor_iff)
  moreover have "\<lfloor>?x + 1 / 2\<rfloor> \<le> interval + jitter" using hi unfolding floor_le_iff by linarith
  ultimately show ?thesis by (simp add: jittered_def js_round_def Let_def)
qed

text \<open>The jitter keeps its promises: whatever the random number, a heartbeat follows within 75
  seconds (inside the dashboard's 90 second window) and not before 45, and the reconcile and
  Project refresh cycles stay within four to six minutes.\<close>

lemma loop_periods_bounded:
  assumes "0 \<le> random" and "random < 1"
  shows "45000 \<le> heartbeatDelayMs random \<and> heartbeatDelayMs random \<le> 75000 \<and>
    240000 \<le> reconcileDelayMs random \<and> reconcileDelayMs random \<le> 360000 \<and>
    240000 \<le> projectRefreshDelayMs random \<and> projectRefreshDelayMs random \<le> 360000"
  using jittered_bounds [OF assms, of 15000 60000] jittered_bounds [OF assms, of 60000 300000]
  by (simp add: heartbeatDelayMs_def reconcileDelayMs_def projectRefreshDelayMs_def HEARTBEAT_INTERVAL_MS_def
      HEARTBEAT_JITTER_MS_def RECONCILE_INTERVAL_MS_def RECONCILE_JITTER_MS_def PROJECT_REFRESH_INTERVAL_MS_def
      PROJECT_REFRESH_JITTER_MS_def)

lemma loop_periods_bounded_witness:
  "45000 \<le> heartbeatDelayMs (1 / 4) \<and> heartbeatDelayMs (1 / 4) \<le> 75000"
  using loop_periods_bounded [of "1 / 4"] by simp

end
