(* ===== verification/SyncModule.thy ===== *)
theory SyncModule
  imports SyncHealth
begin

text \<open>
  The supervisor of one sync module, \<open>packages/cli/src/serve/sync-module.ts\<close>: \<open>SyncScope\<close>, which owns
  the callbacks and workers of one attempt until they settle, and \<open>SyncModule\<close>, which prepares a
  binding, publishes its state, hands out leases and retries with backoff.

  Promises are numbered tasks. A scope's signal is aborted when its own controller or its parent is.
\<close>

section \<open>Scopes\<close>

record sync_scope =
  sc_parent_aborted :: bool
  sc_controller_aborted :: bool
  sc_tasks :: "nat list"
  sc_failure :: "string option"

definition new_scope :: "bool \<Rightarrow> sync_scope" where
  "new_scope parent = \<lparr>sc_parent_aborted = parent, sc_controller_aborted = False, sc_tasks = [], sc_failure = None\<rparr>"

definition scope_aborted :: "sync_scope \<Rightarrow> bool" where
  "scope_aborted s \<longleftrightarrow> sc_parent_aborted s \<or> sc_controller_aborted s"

definition scope_track :: "nat \<Rightarrow> sync_scope \<Rightarrow> sync_scope" where
  "scope_track task s = s\<lparr>sc_tasks := set_add task (sc_tasks s)\<rparr>"

text \<open>The handler \<open>track\<close> registers: fulfilled or rejected, the task leaves the set.\<close>

definition scope_settled :: "nat \<Rightarrow> sync_scope \<Rightarrow> sync_scope" where
  "scope_settled task s = s\<lparr>sc_tasks := filter (\<lambda>t. t \<noteq> task) (sc_tasks s)\<rparr>"

definition scope_fail :: "string \<Rightarrow> sync_scope \<Rightarrow> sync_scope" where
  "scope_fail error s = s\<lparr>sc_failure := Some error, sc_controller_aborted := True\<rparr>"

text \<open>\<open>invoke\<close>: nothing after an abort; a callback that throws at once fails the scope; otherwise its
  promise is tracked, and a later rejection fails the scope (\<open>invoke_rejected\<close>).\<close>

definition scope_invoke :: "(string + nat) \<Rightarrow> sync_scope \<Rightarrow> sync_scope" where
  "scope_invoke callback s =
     (if scope_aborted s then s
      else (case callback of Inl error \<Rightarrow> scope_fail error s | Inr task \<Rightarrow> scope_track task s))"

definition invoke_rejected :: "string \<Rightarrow> nat \<Rightarrow> sync_scope \<Rightarrow> sync_scope" where
  "invoke_rejected error task s = scope_settled task (scope_fail error s)"

text \<open>\<open>join\<close> aborts and then returns only when no task is left.\<close>

definition scope_join_abort :: "sync_scope \<Rightarrow> sync_scope" where
  "scope_join_abort s = s\<lparr>sc_controller_aborted := True\<rparr>"

definition scope_joined :: "sync_scope \<Rightarrow> bool" where
  "scope_joined s \<longleftrightarrow> sc_controller_aborted s \<and> sc_tasks s = []"

section \<open>The module\<close>

datatype module_state = Unsupported | Preparing | Ready | Draining | Retry_wait | Stopped

record 'b sync_module =
  md_state :: module_state
  md_current :: "('b \<times> sync_scope) option"
  md_published :: "module_state list"
  md_failed :: "string list"

definition new_module :: "bool \<Rightarrow> 'b sync_module" where
  "new_module has_prepare =
     \<lparr>md_state = (if has_prepare then Preparing else Unsupported), md_current = None, md_published = [], md_failed = []\<rparr>"

definition module_available :: "'b sync_module \<Rightarrow> bool" where
  "module_available m \<longleftrightarrow> md_state m = Ready \<and>
     (case md_current m of None \<Rightarrow> False | Some (_, scope) \<Rightarrow> \<not> scope_aborted scope)"

text \<open>\<open>acquire\<close>: the lease's task is tracked by the scope until it is released.\<close>

definition module_acquire :: "nat \<Rightarrow> 'b sync_module \<Rightarrow> 'b option \<times> 'b sync_module" where
  "module_acquire lease m =
     (case md_current m of
        None \<Rightarrow> (None, m)
      | Some (binding, scope) \<Rightarrow>
          if md_state m \<noteq> Ready \<or> scope_aborted scope then (None, m)
          else (Some binding, m\<lparr>md_current := Some (binding, scope_track lease scope)\<rparr>))"

definition module_release :: "nat \<Rightarrow> 'b sync_module \<Rightarrow> 'b sync_module" where
  "module_release lease m = m\<lparr>md_current := map_option (\<lambda>(b, scope). (b, scope_settled lease scope)) (md_current m)\<rparr>"

definition module_publish :: "module_state \<Rightarrow> 'b sync_module \<Rightarrow> 'b sync_module" where
  "module_publish state m = m\<lparr>md_state := state, md_published := md_published m @ [state]\<rparr>"

section \<open>Attempts\<close>

text \<open>How one turn of the loop of \<open>run\<close> goes, as the outside decides it: what \<open>prepare\<close> does (throws,
  returns no binding, or returns one), whether the scope is aborted before \<open>prepare\<close> ends, how the
  binding's \<open>run\<close> ends, whether the scope is aborted by then, whether the daemon's signal is aborted
  when the error is caught and when everything has settled, the clock when it became ready, when the scope was aborted and when
  the attempt ended, the random number of the wait, and whether the wait is cut by an abort.\<close>

record attempt =
  at_prepare :: "string + bool"
  at_aborted_preparing :: "string option"
  at_run :: "string option"
  at_aborted_running :: bool
  at_daemon_aborted_failing :: bool
  at_daemon_aborted :: bool
  at_readyAt :: int
  at_abortedAt :: "int option"
  at_endedAt :: int
  at_random :: rat
  at_daemon_aborted_in_wait :: bool

text \<open>What the \<open>try\<close> block throws, and whether the binding became ready.\<close>

definition attempt_prepare :: "attempt \<Rightarrow> string + unit" where
  "attempt_prepare a =
     (case at_prepare a of
        Inl error \<Rightarrow> Inl error
      | Inr bound \<Rightarrow>
          (case at_aborted_preparing a of
             Some reason \<Rightarrow> Inl reason
           | None \<Rightarrow> if bound then Inr () else Inl ''Sync preparation returned no binding''))"

definition attempt_failure :: "attempt \<Rightarrow> string option" where
  "attempt_failure a =
     (case attempt_prepare a of
        Inl error \<Rightarrow> Some error
      | Inr _ \<Rightarrow>
          (case at_run a of
             Some error \<Rightarrow> Some error
           | None \<Rightarrow> if at_aborted_running a then None else Some ''Sync worker stopped unexpectedly''))"

definition attempt_ready :: "attempt \<Rightarrow> bool" where
  "attempt_ready a \<longleftrightarrow> attempt_prepare a = Inr ()"

definition healthyDuration :: "attempt \<Rightarrow> int" where
  "healthyDuration a =
     (if attempt_ready a then or_else (at_abortedAt a) (at_endedAt a) - at_readyAt a else 0)"

text \<open>The states one attempt publishes: the abort listener publishes \<open>draining\<close> once, when the scope is
  aborted or at the latest by \<open>join\<close>, and the \<open>finally\<close> block publishes it too.\<close>

definition attempt_states :: "attempt \<Rightarrow> module_state list" where
  "attempt_states a =
     [Preparing] @ (if attempt_ready a then [Ready] else []) @ [Draining, Draining]"

definition wait_ms :: "int \<Rightarrow> rat \<Rightarrow> int" where
  "wait_ms delay random = js_round (of_int delay * (4 / 5 + random * (2 / 5)))"

record run_result =
  rr_states :: "module_state list"
  rr_failed :: "string list"
  rr_waits :: "int list"

text \<open>\<open>run\<close> over the attempts of a daemon's life; the list ends where observation ends.\<close>

fun run_attempts :: "int \<Rightarrow> attempt list \<Rightarrow> run_result" where
  "run_attempts delay [] = \<lparr>rr_states = [], rr_failed = [], rr_waits = []\<rparr>"
| "run_attempts delay (a # later) =
     (let failed = (case attempt_failure a of Some e \<Rightarrow> if at_daemon_aborted_failing a then [] else [e] | None \<Rightarrow> [])
      in if at_daemon_aborted a
         then \<lparr>rr_states = attempt_states a @ [Stopped], rr_failed = failed, rr_waits = []\<rparr>
         else (let delay1 = (if healthyDuration a \<ge> 60000 then 1000 else delay);
                   wait = wait_ms delay1 (at_random a);
                   rest = (if at_daemon_aborted_in_wait a
                           then \<lparr>rr_states = [Stopped], rr_failed = [], rr_waits = []\<rparr>
                           else run_attempts (min 60000 (delay1 * 2)) later)
               in \<lparr>rr_states = attempt_states a @ [Retry_wait] @ rr_states rest,
                   rr_failed = failed @ rr_failed rest,
                   rr_waits = wait # rr_waits rest\<rparr>))"

definition module_run :: "bool \<Rightarrow> bool \<Rightarrow> attempt list \<Rightarrow> run_result" where
  "module_run has_prepare daemon_aborted attempts =
     (if \<not> has_prepare then \<lparr>rr_states = [], rr_failed = [], rr_waits = []\<rparr>
      else if daemon_aborted then \<lparr>rr_states = [Stopped], rr_failed = [], rr_waits = []\<rparr>
      else run_attempts 1000 attempts)"

section \<open>Published states and waits\<close>

text \<open>The transitions a client of \<open>changed\<close> can see.\<close>

inductive module_step :: "module_state \<Rightarrow> module_state \<Rightarrow> bool" where
  prepared: "module_step Preparing Ready"
| prepare_failed: "module_step Preparing Draining"
| ended: "module_step Ready Draining"
| still_draining: "module_step Draining Draining"
| backing_off: "module_step Draining Retry_wait"
| aborted_draining: "module_step Draining Stopped"
| retrying: "module_step Retry_wait Preparing"
| aborted_waiting: "module_step Retry_wait Stopped"

inductive_simps module_step_simps [simp]:
  "module_step Preparing s" "module_step Ready s" "module_step Draining s" "module_step Retry_wait s"
  "module_step Stopped s" "module_step Unsupported s"

lemma wait_ms_bounds:
  assumes "1000 \<le> delay" "delay \<le> 60000" "0 \<le> random" "random < 1"
  shows "800 \<le> wait_ms delay random \<and> wait_ms delay random \<le> 72000"
proof -
  let ?f = "4 / 5 + random * (2 / 5) :: rat"
  have d: "(1000 :: rat) \<le> of_int delay" "of_int delay \<le> (60000 :: rat)" using assms(1,2) by linarith+
  have f: "4 / 5 \<le> ?f" "?f \<le> 6 / 5" using assms(3,4) by simp_all
  have "1000 * (4 / 5) \<le> of_int delay * ?f" by (rule mult_mono) (use d f in auto)
  moreover have "of_int delay * ?f \<le> 60000 * (6 / 5)" by (rule mult_mono) (use d f in auto)
  ultimately have lo: "800 \<le> of_int delay * ?f" and hi: "of_int delay * ?f \<le> 72000" by simp_all
  have "800 \<le> \<lfloor>of_int delay * ?f + 1 / 2\<rfloor>" using lo unfolding le_floor_iff by simp
  moreover have "\<lfloor>of_int delay * ?f + 1 / 2\<rfloor> \<le> 72000" using hi unfolding floor_le_iff by simp
  ultimately show ?thesis by (simp add: wait_ms_def js_round_def)
qed

definition fair_attempts :: "attempt list \<Rightarrow> bool" where
  "fair_attempts as \<longleftrightarrow> (\<forall>a\<in>set as. 0 \<le> at_random a \<and> at_random a < 1)"

lemma run_attempts_waits:
  "1000 \<le> delay \<Longrightarrow> delay \<le> 60000 \<Longrightarrow> fair_attempts as \<Longrightarrow>
     \<forall>w\<in>set (rr_waits (run_attempts delay as)). 800 \<le> w \<and> w \<le> 72000"
proof (induction as arbitrary: delay)
  case (Cons a as)
  let ?d = "if healthyDuration a \<ge> 60000 then 1000 else delay"
  have d: "1000 \<le> ?d" "?d \<le> 60000" using Cons.prems by auto
  have "800 \<le> wait_ms ?d (at_random a) \<and> wait_ms ?d (at_random a) \<le> 72000"
    using Cons.prems(3) d by (intro wait_ms_bounds) (auto simp: fair_attempts_def)
  moreover have "\<forall>w\<in>set (rr_waits (run_attempts (min 60000 (?d * 2)) as)). 800 \<le> w \<and> w \<le> 72000"
    using Cons.prems(3) d by (intro Cons.IH) (auto simp: fair_attempts_def)
  ultimately show ?case by (simp add: Let_def)
qed simp

lemma run_attempts_path:
  "successively module_step (rr_states (run_attempts delay as)) \<and>
   (rr_states (run_attempts delay as) \<noteq> [] \<longrightarrow> hd (rr_states (run_attempts delay as)) = Preparing)"
proof (induction as arbitrary: delay)
  case (Cons a as)
  let ?d = "if healthyDuration a \<ge> 60000 then 1000 else delay"
  from Cons.IH [of "min 60000 (?d * 2)"] show ?case
    by (cases "rr_states (run_attempts (min 60000 (?d * 2)) as)")
      (auto simp: Let_def attempt_states_def)
qed simp

text \<open>The supervisor is disciplined: over any attempts, the states it publishes follow the module's
  state machine (a binding is ready only after preparing, every attempt drains before a retry or a
  stop, and nothing follows a stop), and between attempts it waits from 0.8 to 72 seconds, so a
  module that keeps failing neither spins nor stalls.\<close>

lemma module_run_disciplined:
  assumes "\<forall>a\<in>set attempts. 0 \<le> at_random a \<and> at_random a < 1"
  shows "successively module_step (rr_states (module_run has_prepare daemon_aborted attempts)) \<and>
    (\<forall>w\<in>set (rr_waits (module_run has_prepare daemon_aborted attempts)). 800 \<le> w \<and> w \<le> 72000)"
  using run_attempts_path [of 1000 attempts] run_attempts_waits [of 1000 attempts] assms
  by (auto simp: module_run_def fair_attempts_def)

definition sample_attempt :: attempt where
  "sample_attempt = \<lparr>at_prepare = Inr True, at_aborted_preparing = None, at_run = Some ''lost'',
     at_aborted_running = False, at_daemon_aborted_failing = False, at_daemon_aborted = False, at_readyAt = 0,
     at_abortedAt = None, at_endedAt = 10, at_random = 0, at_daemon_aborted_in_wait = True\<rparr>"

lemma module_run_disciplined_witness:
  "rr_states (module_run True False [sample_attempt]) = [Preparing, Ready, Draining, Draining, Retry_wait, Stopped] \<and>
   list_all (\<lambda>w. 800 \<le> w \<and> w \<le> 72000) (rr_waits (module_run True False [sample_attempt]))"
  using module_run_disciplined [of "[sample_attempt]" True False]
  by (simp add: list_all_iff module_run_def sample_attempt_def attempt_states_def attempt_ready_def attempt_prepare_def Let_def)

section \<open>Leases\<close>

lemma scope_track_aborted [simp]: "scope_aborted (scope_track t s) = scope_aborted s"
  by (simp add: scope_aborted_def scope_track_def)

text \<open>A lease pins its attempt: a lease is granted exactly when the module is available, its scope
  then cannot be joined, however the other tasks settle and whether or not it is aborted, until the
  lease is released; and after an abort no lease is granted.\<close>

lemma lease_pins_scope:
  assumes "module_acquire lease m = (result, m')"
  shows "(result \<noteq> None \<longleftrightarrow> module_available m) \<and>
    (result \<noteq> None \<longrightarrow>
      (\<exists>b scope. md_current m' = Some (b, scope) \<and> result = Some b \<and>
        (\<forall>others. lease \<notin> set others \<longrightarrow> \<not> scope_joined (scope_join_abort (fold scope_settled others scope))) \<and>
        lease \<notin> set (sc_tasks (scope_settled lease scope)))) \<and>
    (\<forall>b scope. md_current m = Some (b, scope) \<longrightarrow> scope_aborted scope \<longrightarrow> result = None)"
proof -
  have kept: "lease \<in> set (sc_tasks (fold scope_settled others s))" if "lease \<in> set (sc_tasks s)" "lease \<notin> set others"
    for others s
    using that by (induction others arbitrary: s) (auto simp: scope_settled_def)
  have "lease \<in> set (sc_tasks (scope_track lease s))" for s by (simp add: scope_track_def)
  note track = kept [OF this]
  have pin: "lease \<notin> set others \<longrightarrow>
      \<not> scope_joined (scope_join_abort (fold scope_settled others (scope_track lease s)))" for others s
    using track [of others s] by (auto simp: scope_joined_def scope_join_abort_def)
  show ?thesis
    using assms pin
    by (auto simp: module_acquire_def module_available_def scope_settled_def split: option.splits if_splits)
qed

definition sample_ready :: "nat sync_module" where
  "sample_ready = \<lparr>md_state = Ready, md_current = Some (7, new_scope False), md_published = [], md_failed = []\<rparr>"

lemma lease_pins_scope_witness:
  "fst (module_acquire 1 sample_ready) = Some 7 \<and>
   (\<exists>b scope. md_current (snd (module_acquire 1 sample_ready)) = Some (b, scope) \<and>
      \<not> scope_joined (scope_join_abort (fold scope_settled [2, 3] scope)))"
proof -
  have a: "module_acquire 1 sample_ready =
      (Some 7, sample_ready\<lparr>md_current := Some (7, scope_track 1 (new_scope False))\<rparr>)"
    by (simp add: module_acquire_def sample_ready_def scope_aborted_def new_scope_def)
  from lease_pins_scope [OF a] obtain b scope where
    "md_current (sample_ready\<lparr>md_current := Some (7, scope_track 1 (new_scope False))\<rparr>) = Some (b, scope)"
    "\<forall>others. 1 \<notin> set others \<longrightarrow> \<not> scope_joined (scope_join_abort (fold scope_settled others scope))" by blast
  note s = this
  have "\<not> scope_joined (scope_join_abort (fold scope_settled [2, 3] scope))" using s(2) [rule_format, of "[2, 3]"] by simp
  then show ?thesis using a s(1) by auto
qed

end
