(* ===== verification/Failures.thy ===== *)
theory Failures
  imports SyncModule
begin

text \<open>
  The errors the sync engine distinguishes and its classifiers
  (\<open>packages/cli/src/serve/sync-engine.ts\<close>; the error classes are those of
  \<open>packages/cli/src/lib/api-client.ts\<close>, \<open>lib/session-upload.ts\<close> and \<open>lib/skill-key.ts\<close>). Each error carries its \<open>message\<close>.
\<close>

section \<open>Errors\<close>

datatype sync_error =
    ApiError (api_status: int) (api_body: string) (api_message: string)
  | AgentSkillSyncNotFoundError string string
  | SkillKeyError string
  | EventTooLargeError (too_large_seq: int) (too_large_bytes: int) string
  | EventSchemaInvalidError string
  | SessionPlanStaleError string
  | PlainError string
  | Thrown string

text \<open>\<open>AgentSkillSyncNotFoundError\<close> extends \<open>ApiError\<close> with status 404.\<close>

fun as_api_error :: "sync_error \<Rightarrow> (int \<times> string) option" where
  "as_api_error (ApiError status body _) = Some (status, body)"
| "as_api_error (AgentSkillSyncNotFoundError body _) = Some (404, body)"
| "as_api_error _ = None"

fun toErrorMessage :: "sync_error \<Rightarrow> string" where
  "toErrorMessage (ApiError _ _ m) = m"
| "toErrorMessage (AgentSkillSyncNotFoundError _ m) = m"
| "toErrorMessage (SkillKeyError m) = m"
| "toErrorMessage (EventTooLargeError _ _ m) = m"
| "toErrorMessage (EventSchemaInvalidError m) = m"
| "toErrorMessage (SessionPlanStaleError m) = m"
| "toErrorMessage (PlainError m) = m"
| "toErrorMessage (Thrown m) = m"

definition isAuthFailure :: "sync_error \<Rightarrow> bool" where
  "isAuthFailure e = (case as_api_error e of Some (status, _) \<Rightarrow> status = 401 \<or> status = 403 | None \<Rightarrow> False)"

datatype failure_classification = Transient | Sustained

definition classifyHeartbeatFailure :: "nat \<Rightarrow> failure_classification" where
  "classifyHeartbeatFailure consecutiveFailures =
     (if consecutiveFailures \<le> TRANSIENT_HEARTBEAT_FAILURES then Transient else Sustained)"

definition lastSyncErrorForSseReconnect :: "string \<Rightarrow> failure_classification \<Rightarrow> string option" where
  "lastSyncErrorForSseReconnect reason classification =
     (if classification = Sustained then Some (''sse_disconnect:'' @ reason) else None)"

text \<open>\<open>String.prototype.includes\<close>.\<close>

definition js_includes :: "string \<Rightarrow> string \<Rightarrow> bool" where
  "js_includes s part = list_ex (\<lambda>i. take (length part) (drop i s) = part) [0..<Suc (length s)]"

fun is_error_instance :: "sync_error \<Rightarrow> bool" where
  "is_error_instance (Thrown _) = False"
| "is_error_instance _ = True"

definition isPermanentUploadError :: "sync_error \<Rightarrow> bool" where
  "isPermanentUploadError e =
     (case e of
        SkillKeyError _ \<Rightarrow> True
      | AgentSkillSyncNotFoundError _ _ \<Rightarrow> False
      | _ \<Rightarrow>
          (case as_api_error e of
             Some (status, _) \<Rightarrow>
               if status \<ge> 400 \<and> status < 500 then
                 (if status = 408 \<or> status = 429 then False
                  else if status = 401 \<or> status = 403 then False else True)
               else False
           | None \<Rightarrow>
               if is_error_instance e then
                 (if js_includes (toErrorMessage e) ''symlink(s) pointing outside'' then True
                  else if js_includes (toErrorMessage e) ''Skill tarball exceeds'' then True else False)
               else False))"

definition isOversizedUploadError :: "sync_error \<Rightarrow> bool" where
  "isOversizedUploadError e =
     (if (case as_api_error e of Some (status, _) \<Rightarrow> status = 413 | None \<Rightarrow> False) then True
      else is_error_instance e \<and> js_includes (toErrorMessage e) ''Skill tarball exceeds'')"

definition AGENT_DISCONNECTED_ERROR_CODES :: "string list" where
  "AGENT_DISCONNECTED_ERROR_CODES = [''agent_disconnected'', ''agent_rebound'']"

definition HINT_NOT_FOUND :: string where
  "HINT_NOT_FOUND = ''This installation's Agent was not found. Run clawdi setup to reconnect this installation.''"

definition HINT_DISCONNECTED :: string where
  "HINT_DISCONNECTED = ''This installation is disconnected. Run clawdi setup to reconnect it with retained data.''"

definition agentLookupStopHint :: "(string \<Rightarrow> json option) \<Rightarrow> sync_error \<Rightarrow> string option" where
  "agentLookupStopHint parse error =
     (case as_api_error error of
        None \<Rightarrow> None
      | Some (status, body) \<Rightarrow>
          if status = 404 then Some HINT_NOT_FOUND
          else if status \<noteq> 403 then None
          else (case parse body of
             None \<Rightarrow> None
           | Some payload \<Rightarrow>
               (case jprop payload ''detail'' of
                  None \<Rightarrow> None
                | Some detail \<Rightarrow>
                    (case jprop detail ''code'' of
                       Some (JStr code) \<Rightarrow>
                         if code \<in> set AGENT_DISCONNECTED_ERROR_CODES then Some HINT_DISCONNECTED else None
                     | _ \<Rightarrow> None))))"

section \<open>How the classifiers fit together\<close>

text \<open>The classifiers do not overlap where it matters: a revoked credential is never classified as
  permanent or oversized (its work is kept and the daemon stops instead), timeouts, rate limits,
  server errors and the ambiguous Agent 404 are never permanent, and every other client error is.\<close>

lemma error_classes:
  "(isAuthFailure e \<longrightarrow> \<not> isPermanentUploadError e) \<and>
   (isAuthFailure (ApiError status body m) \<longrightarrow> \<not> js_includes m ''Skill tarball exceeds'' \<longrightarrow>
      \<not> isOversizedUploadError (ApiError status body m)) \<and>
   \<not> isPermanentUploadError (AgentSkillSyncNotFoundError body m) \<and>
   (isPermanentUploadError (ApiError status body m) \<longleftrightarrow>
      400 \<le> status \<and> status < 500 \<and> status \<notin> {401, 403, 408, 429})"
  by (cases e) (auto simp: isAuthFailure_def isPermanentUploadError_def isOversizedUploadError_def)

lemma error_classes_witness:
  "isAuthFailure (ApiError 401 [] []) \<and> \<not> isPermanentUploadError (ApiError 401 [] []) \<and>
   isPermanentUploadError (ApiError 422 [] [])"
  using error_classes [of "ApiError 401 [] []" 422 "[]" "[]"] by (simp add: isAuthFailure_def)

end
