(* ===== verification/RetryQueue.thy ===== *)
theory RetryQueue
  imports SkillKey
begin

text \<open>
  The bounded persistent retry queue of the sync daemon,
  \<open>packages/cli/src/serve/queue.ts\<close>: the queue items and their JSON form, the type predicate
  that guards loading, the class \<open>RetryQueue\<close> with one definition per method, and the key and
  fence predicates. The state record holds the class's fields; \<open>rq_writing\<close> is the local
  variable \<open>blob\<close> of the running \<open>flushPending\<close>, and \<open>rq_woken\<close> lists the waiters whose promises
  have been resolved. The clock's \<open>enqueued_at\<close> comes in with the item.

  \<open>onEvict\<close> is a callback of the owner: \<open>evictIfFull\<close> and \<open>enqueue\<close> return the items it is called
  with, in order.
\<close>

section \<open>Items\<close>

definition AGENT_TYPES :: "string list" where
  "AGENT_TYPES =
     [''claude_code'', ''codex'', ''openclaw'', ''hermes'', ''pi'', ''opencode'', ''dsh'']"

record item_base =
  it_enqueued_at :: string
  it_attempts :: int
  it_version :: int

record skill_operation = item_base +
  sk_skill_key :: string
  sk_agent_id :: "string option"
  sk_project_id :: "string option"

record session_operation = item_base +
  se_profile_key :: "string option"
  se_local_session_id :: string
  se_content_hash :: string
  se_api_origin :: "string option"
  se_environment_id :: "string option"
  se_adapter :: "string option"
  se_source_session_key :: "string option"

text \<open>A push carries the hash of what is about to be uploaded.\<close>

datatype queue_item =
    SkillPush skill_operation string
  | SkillDelete skill_operation
  | SessionPush session_operation

text \<open>What a caller of \<open>enqueue\<close> passes: no version, and the identity fences are required.\<close>

record skill_input =
  in_enqueued_at :: string
  in_attempts :: int
  in_skill_key :: string
  in_agent_id :: string
  in_project_id :: string

record session_input =
  in_se_enqueued_at :: string
  in_se_attempts :: int
  in_profile_key :: "string option"
  in_local_session_id :: string
  in_content_hash :: string
  in_api_origin :: string
  in_environment_id :: string
  in_adapter :: string
  in_source_session_key :: string

datatype queue_item_input =
    SkillPushInput skill_input string
  | SkillDeleteInput skill_input
  | SessionPushInput session_input

datatype drop_reason =
  Capacity_skills | Capacity_sessions | Permanent | Retry_exhausted | Oversized | Invalid_persisted

definition QUEUE_DROP_REASONS :: "drop_reason list" where
  "QUEUE_DROP_REASONS =
     [Capacity_skills, Capacity_sessions, Permanent, Retry_exhausted, Oversized, Invalid_persisted]"

type_synonym drop_deltas = "(drop_reason, nat) js_map"

definition DEFAULT_MAX_ITEMS :: nat where
  "DEFAULT_MAX_ITEMS = 500"

fun item_base_of :: "queue_item \<Rightarrow> item_base" where
  "item_base_of (SkillPush s h) = item_base.truncate s"
| "item_base_of (SkillDelete s) = item_base.truncate s"
| "item_base_of (SessionPush s) = item_base.truncate s"

definition item_version :: "queue_item \<Rightarrow> int" where
  "item_version i = it_version (item_base_of i)"

definition item_attempts :: "queue_item \<Rightarrow> int" where
  "item_attempts i = it_attempts (item_base_of i)"

fun with_attempts :: "int \<Rightarrow> queue_item \<Rightarrow> queue_item" where
  "with_attempts n (SkillPush s h) = SkillPush (s\<lparr>it_attempts := n\<rparr>) h"
| "with_attempts n (SkillDelete s) = SkillDelete (s\<lparr>it_attempts := n\<rparr>)"
| "with_attempts n (SessionPush s) = SessionPush (s\<lparr>it_attempts := n\<rparr>)"

fun skill_of_input :: "skill_input \<Rightarrow> int \<Rightarrow> skill_operation" where
  "skill_of_input i v =
     \<lparr>it_enqueued_at = in_enqueued_at i, it_attempts = in_attempts i, it_version = v,
      sk_skill_key = in_skill_key i, sk_agent_id = Some (in_agent_id i),
      sk_project_id = Some (in_project_id i)\<rparr>"

fun session_of_input :: "session_input \<Rightarrow> int \<Rightarrow> session_operation" where
  "session_of_input i v =
     \<lparr>it_enqueued_at = in_se_enqueued_at i, it_attempts = in_se_attempts i, it_version = v,
      se_profile_key = in_profile_key i, se_local_session_id = in_local_session_id i,
      se_content_hash = in_content_hash i, se_api_origin = Some (in_api_origin i),
      se_environment_id = Some (in_environment_id i), se_adapter = Some (in_adapter i),
      se_source_session_key = Some (in_source_session_key i)\<rparr>"

fun stampVersion :: "queue_item_input \<Rightarrow> int \<Rightarrow> queue_item" where
  "stampVersion (SkillPushInput i h) v = SkillPush (skill_of_input i v) h"
| "stampVersion (SkillDeleteInput i) v = SkillDelete (skill_of_input i v)"
| "stampVersion (SessionPushInput i) v = SessionPush (session_of_input i v)"

section \<open>The type predicate of the load loop\<close>

definition isAgentType :: "json option \<Rightarrow> bool" where
  "isAgentType v = (case as_string v of None \<Rightarrow> False | Some s \<Rightarrow> s \<in> set AGENT_TYPES)"

fun is_object :: "json \<Rightarrow> bool" where
  "is_object (JObj _) = True"
| "is_object (JArr _) = True"
| "is_object _ = False"

text \<open>The part of \<open>isQueueItem\<close> for the two Skill kinds.\<close>

definition isSkillItem :: "json \<Rightarrow> bool \<Rightarrow> bool" where
  "isSkillItem r push =
     (if \<not> is_string (jprop r ''skill_key'') then False
      else if push \<and> \<not> is_string (jprop r ''new_hash'') then False
      else if \<not> isValidSkillKey (or_else (as_string (jprop r ''skill_key'')) []) then False
      else if jprop r ''agent_id'' \<noteq> None \<and> \<not> is_string (jprop r ''agent_id'') then False
      else if jprop r ''project_id'' \<noteq> None \<and> \<not> is_string (jprop r ''project_id'') then False
      else if jprop r ''agent_id'' = Some (JStr []) \<or> jprop r ''project_id'' = Some (JStr []) then False
      else if \<not> push \<and> (\<not> is_string (jprop r ''agent_id'') \<or> \<not> is_string (jprop r ''project_id''))
        then False
      else True)"

definition isSessionItem :: "json \<Rightarrow> bool" where
  "isSessionItem r =
     (if \<not> is_string (jprop r ''local_session_id'') then False
      else if \<not> optional_string (jprop r ''profile_key'') then False
      else if \<not> is_string (jprop r ''content_hash'') then False
      else if \<not> optional_string (jprop r ''api_origin'') then False
      else if \<not> optional_string (jprop r ''environment_id'') then False
      else if jprop r ''adapter'' \<noteq> None \<and> \<not> isAgentType (jprop r ''adapter'') then False
      else if \<not> optional_string (jprop r ''source_session_key'') then False
      else True)"

definition isQueueItem :: "json \<Rightarrow> bool" where
  "isQueueItem r =
     (if \<not> is_object r then False
      else if \<not> is_string (jprop r ''kind'') then False
      else if \<not> is_string (jprop r ''enqueued_at'') then False
      else if \<not> is_number (jprop r ''attempts'') then False
      else if jprop r ''version'' \<noteq> None \<and> \<not> is_number (jprop r ''version'') then False
      else if jprop r ''kind'' = Some (JStr ''skill_push'') then isSkillItem r True
      else if jprop r ''kind'' = Some (JStr ''skill_delete'') then isSkillItem r False
      else if jprop r ''kind'' = Some (JStr ''session_push'') then isSessionItem r
      else False)"

text \<open>The accepted value as an item, with the missing version of a legacy row read as 0.\<close>

definition str_prop :: "json \<Rightarrow> string \<Rightarrow> string" where
  "str_prop r k = or_else (as_string (jprop r k)) []"

definition num_prop :: "json \<Rightarrow> string \<Rightarrow> int" where
  "num_prop r k = or_else (as_number (jprop r k)) 0"

definition skill_of_json :: "json \<Rightarrow> skill_operation" where
  "skill_of_json r =
     \<lparr>it_enqueued_at = str_prop r ''enqueued_at'', it_attempts = num_prop r ''attempts'',
      it_version = num_prop r ''version'', sk_skill_key = str_prop r ''skill_key'',
      sk_agent_id = as_string (jprop r ''agent_id''), sk_project_id = as_string (jprop r ''project_id'')\<rparr>"

definition session_of_json :: "json \<Rightarrow> session_operation" where
  "session_of_json r =
     \<lparr>it_enqueued_at = str_prop r ''enqueued_at'', it_attempts = num_prop r ''attempts'',
      it_version = num_prop r ''version'', se_profile_key = as_string (jprop r ''profile_key''),
      se_local_session_id = str_prop r ''local_session_id'',
      se_content_hash = str_prop r ''content_hash'', se_api_origin = as_string (jprop r ''api_origin''),
      se_environment_id = as_string (jprop r ''environment_id''),
      se_adapter = as_string (jprop r ''adapter''),
      se_source_session_key = as_string (jprop r ''source_session_key'')\<rparr>"

definition normalized :: "json \<Rightarrow> queue_item" where
  "normalized r =
     (if jprop r ''kind'' = Some (JStr ''skill_push'')
        then SkillPush (skill_of_json r) (str_prop r ''new_hash'')
      else if jprop r ''kind'' = Some (JStr ''skill_delete'') then SkillDelete (skill_of_json r)
      else SessionPush (session_of_json r))"

section \<open>What is written back\<close>

definition opt_field :: "string \<Rightarrow> string option \<Rightarrow> (string \<times> json) list" where
  "opt_field k v = (case v of None \<Rightarrow> [] | Some s \<Rightarrow> [(k, JStr s)])"

definition base_fields :: "string \<Rightarrow> 'a item_base_scheme \<Rightarrow> (string \<times> json) list" where
  "base_fields kind i =
     [(''kind'', JStr kind), (''enqueued_at'', JStr (it_enqueued_at i)),
      (''attempts'', JNum (it_attempts i)), (''version'', JNum (it_version i))]"

definition skill_fields :: "skill_operation \<Rightarrow> (string \<times> json) list" where
  "skill_fields s =
     [(''skill_key'', JStr (sk_skill_key s))] @ opt_field ''agent_id'' (sk_agent_id s) @
     opt_field ''project_id'' (sk_project_id s)"

definition session_fields :: "session_operation \<Rightarrow> (string \<times> json) list" where
  "session_fields s =
     [(''local_session_id'', JStr (se_local_session_id s)), (''content_hash'', JStr (se_content_hash s))] @
     opt_field ''profile_key'' (se_profile_key s) @ opt_field ''api_origin'' (se_api_origin s) @
     opt_field ''environment_id'' (se_environment_id s) @ opt_field ''adapter'' (se_adapter s) @
     opt_field ''source_session_key'' (se_source_session_key s)"

fun item_json :: "queue_item \<Rightarrow> json" where
  "item_json (SkillPush s h) =
     JObj (base_fields ''skill_push'' s @ skill_fields s @ [(''new_hash'', JStr h)])"
| "item_json (SkillDelete s) = JObj (base_fields ''skill_delete'' s @ skill_fields s)"
| "item_json (SessionPush s) = JObj (base_fields ''session_push'' s @ session_fields s)"

definition queue_blob :: "queue_item list \<Rightarrow> string" where
  "queue_blob its =
     join_with [newline] (map (\<lambda>i. stringify (item_json i)) its) @ (if its \<noteq> [] then [newline] else [])"

section \<open>Keys and fences\<close>

fun isSkillOperation :: "queue_item \<Rightarrow> bool" where
  "isSkillOperation (SkillPush _ _) = True"
| "isSkillOperation (SkillDelete _) = True"
| "isSkillOperation (SessionPush _) = False"

fun item_skill_key :: "queue_item \<Rightarrow> string" where
  "item_skill_key (SkillPush s _) = sk_skill_key s"
| "item_skill_key (SkillDelete s) = sk_skill_key s"
| "item_skill_key (SessionPush s) = []"

definition hasSessionFence :: "session_operation \<Rightarrow> bool" where
  "hasSessionFence s \<longleftrightarrow>
     se_api_origin s \<noteq> None \<and> se_environment_id s \<noteq> None \<and> se_adapter s \<noteq> None \<and>
     se_source_session_key s \<noteq> None"

fun sameKey :: "queue_item \<Rightarrow> queue_item \<Rightarrow> bool" where
  "sameKey (SessionPush a) (SessionPush b) =
     (if hasSessionFence a \<and> hasSessionFence b
      then se_api_origin a = se_api_origin b \<and> se_environment_id a = se_environment_id b \<and>
           se_adapter a = se_adapter b \<and> se_source_session_key a = se_source_session_key b \<and>
           or_else (se_profile_key a) [] = or_else (se_profile_key b) []
      else se_local_session_id a = se_local_session_id b \<and>
           or_else (se_profile_key a) [] = or_else (se_profile_key b) [])"
| "sameKey a b =
     (isSkillOperation a \<and> isSkillOperation b \<and> item_skill_key a = item_skill_key b)"

definition same_module :: "queue_item \<Rightarrow> queue_item \<Rightarrow> bool" where
  "same_module a b \<longleftrightarrow> isSkillOperation a = isSkillOperation b"

section \<open>The class\<close>

record retry_queue =
  rq_items :: "queue_item list"
  rq_highWater :: nat
  rq_droppedByReason :: drop_deltas
  rq_nextVersion :: int
  rq_maxItems :: nat
  rq_flushActive :: bool
  rq_pendingBlob :: "string option"
  rq_writing :: "string option"
  rq_itemWaiters :: "nat list"
  rq_capacityWaiters :: "nat list"
  rq_woken :: "nat list"

definition new_queue :: "nat option \<Rightarrow> retry_queue" where
  "new_queue opts_maxItems =
     \<lparr>rq_items = [], rq_highWater = 0, rq_droppedByReason = [], rq_nextVersion = 1,
      rq_maxItems = or_else opts_maxItems DEFAULT_MAX_ITEMS, rq_flushActive = False,
      rq_pendingBlob = None, rq_writing = None, rq_itemWaiters = [], rq_capacityWaiters = [],
      rq_woken = []\<rparr>"

subsection \<open>Drop counters\<close>

definition drop_count :: "drop_deltas \<Rightarrow> drop_reason \<Rightarrow> nat" where
  "drop_count d r = or_else (map_get d r) 0"

definition recordDrop :: "drop_reason \<Rightarrow> retry_queue \<Rightarrow> retry_queue" where
  "recordDrop reason q =
     q\<lparr>rq_droppedByReason := map_set reason (drop_count (rq_droppedByReason q) reason + 1) (rq_droppedByReason q)\<rparr>"

definition recordPermanentDrop :: "drop_reason \<Rightarrow> retry_queue \<Rightarrow> retry_queue" where
  "recordPermanentDrop reason q = recordDrop reason q"

definition drainDroppedDelta :: "retry_queue \<Rightarrow> drop_deltas \<times> retry_queue" where
  "drainDroppedDelta q = (rq_droppedByReason q, q\<lparr>rq_droppedByReason := []\<rparr>)"

definition restore_reason :: "drop_deltas \<Rightarrow> drop_reason \<Rightarrow> drop_deltas \<Rightarrow> drop_deltas" where
  "restore_reason deltas reason d =
     (case map_get deltas reason of
        None \<Rightarrow> d
      | Some delta \<Rightarrow> if delta > 0 then map_set reason (drop_count d reason + delta) d else d)"

definition restoreDroppedDelta :: "drop_deltas \<Rightarrow> retry_queue \<Rightarrow> retry_queue" where
  "restoreDroppedDelta deltas q =
     q\<lparr>rq_droppedByReason := fold (restore_reason deltas) QUEUE_DROP_REASONS (rq_droppedByReason q)\<rparr>"

subsection \<open>Persisting\<close>

text \<open>The synchronous part of \<open>flushPending\<close>: take the waiting snapshot, or close the active
  window when there is none.\<close>

definition flush_next :: "retry_queue \<Rightarrow> retry_queue" where
  "flush_next q =
     (case rq_pendingBlob q of
        Some blob \<Rightarrow> q\<lparr>rq_pendingBlob := None, rq_writing := Some blob, rq_flushActive := True\<rparr>
      | None \<Rightarrow> q\<lparr>rq_flushActive := False, rq_writing := None\<rparr>)"

definition persist :: "retry_queue \<Rightarrow> retry_queue" where
  "persist q =
     (let q = q\<lparr>rq_pendingBlob := Some (queue_blob (rq_items q))\<rparr>
      in if rq_flushActive q then q else flush_next (q\<lparr>rq_flushActive := True\<rparr>))"

text \<open>The write of the flush in progress ends: the temporary file has replaced the queue file
  (\<open>ok\<close>), or writing or renaming failed and the old file stays. Then the loop continues with the
  next snapshot.\<close>

definition flushPending :: "bool \<Rightarrow> string option \<times> retry_queue \<Rightarrow> string option \<times> retry_queue" where
  "flushPending ok fq =
     (case fq of (file, q) \<Rightarrow>
        (case rq_writing q of
           None \<Rightarrow> (file, q)
         | Some blob \<Rightarrow> (if ok then Some blob else file, flush_next q)))"

subsection \<open>Loading\<close>

text \<open>One line of the file: the queue so far and the number of lines dropped.\<close>

definition load_line ::
  "(string \<Rightarrow> json option) \<Rightarrow> string \<Rightarrow> retry_queue \<times> nat \<Rightarrow> retry_queue \<times> nat" where
  "load_line parse line qd =
     (case qd of (q, dropped) \<Rightarrow>
        (case parse line of
           None \<Rightarrow> (recordDrop Invalid_persisted q, dropped + 1)
         | Some parsed \<Rightarrow>
             if isQueueItem parsed then
               (let item = normalized parsed
                in case find_index (\<lambda>existing. sameKey existing item) (rq_items q) of
                     None \<Rightarrow> (q\<lparr>rq_items := rq_items q @ [item]\<rparr>, dropped)
                   | Some i \<Rightarrow>
                       if item_version (rq_items q ! i) \<le> item_version item
                       then (q\<lparr>rq_items := (rq_items q)[i := item]\<rparr>, dropped + 1)
                       else (q, dropped + 1))
             else (recordDrop Invalid_persisted q, dropped + 1)))"

definition max_version :: "queue_item list \<Rightarrow> int" where
  "max_version its = fold (\<lambda>i m. max m (item_version i)) its 0"

definition load :: "(string \<Rightarrow> json option) \<Rightarrow> string option \<Rightarrow> retry_queue \<Rightarrow> retry_queue" where
  "load parse file q =
     (case file of
        None \<Rightarrow> q\<lparr>rq_items := []\<rparr>
      | Some content \<Rightarrow>
          (let lines = filter (\<lambda>l. l \<noteq> []) (split_on newline content);
               (q1, dropped) = fold (load_line parse) lines (q\<lparr>rq_items := []\<rparr>, 0);
               q2 = q1\<lparr>rq_nextVersion := max_version (rq_items q1) + 1,
                       rq_highWater := max (rq_highWater q1) (length (rq_items q1))\<rparr>
           in if dropped > 0 then persist q2 else q2))"

subsection \<open>Waiters\<close>

definition notifyItemWaiters :: "retry_queue \<Rightarrow> retry_queue" where
  "notifyItemWaiters q = q\<lparr>rq_itemWaiters := [], rq_woken := rq_woken q @ rq_itemWaiters q\<rparr>"

definition notifyCapacityWaiters :: "retry_queue \<Rightarrow> retry_queue" where
  "notifyCapacityWaiters q =
     q\<lparr>rq_capacityWaiters := [], rq_woken := rq_woken q @ rq_capacityWaiters q\<rparr>"

definition moduleDepth :: "queue_item \<Rightarrow> retry_queue \<Rightarrow> nat" where
  "moduleDepth item q = length (filter (\<lambda>existing. same_module existing item) (rq_items q))"

text \<open>The promise of waiter \<open>w\<close>: resolved at once, or registered until \<open>finish\<close> runs (a notification,
  the timer or the abort event).\<close>

definition waitForChange :: "bool \<Rightarrow> int \<Rightarrow> nat \<Rightarrow> retry_queue \<Rightarrow> retry_queue" where
  "waitForChange aborted timeoutMs w q =
     (if aborted \<or> timeoutMs \<le> 0 then q\<lparr>rq_woken := rq_woken q @ [w]\<rparr>
      else q\<lparr>rq_itemWaiters := set_add w (rq_itemWaiters q)\<rparr>)"

definition waitForItem :: "bool \<Rightarrow> int \<Rightarrow> nat \<Rightarrow> retry_queue \<Rightarrow> retry_queue" where
  "waitForItem aborted timeoutMs w q =
     (if rq_items q \<noteq> [] then q\<lparr>rq_woken := rq_woken q @ [w]\<rparr>
      else waitForChange aborted timeoutMs w q)"

definition finish_item_waiter :: "nat \<Rightarrow> retry_queue \<Rightarrow> retry_queue" where
  "finish_item_waiter w q =
     (if w \<in> set (rq_itemWaiters q)
      then q\<lparr>rq_itemWaiters := filter (\<lambda>x. x \<noteq> w) (rq_itemWaiters q), rq_woken := rq_woken q @ [w]\<rparr>
      else q)"

definition waitForCapacityChange :: "queue_item \<Rightarrow> bool \<Rightarrow> nat \<Rightarrow> retry_queue \<Rightarrow> retry_queue" where
  "waitForCapacityChange item aborted w q =
     (if moduleDepth item q < rq_maxItems q \<or> aborted then q\<lparr>rq_woken := rq_woken q @ [w]\<rparr>
      else q\<lparr>rq_capacityWaiters := set_add w (rq_capacityWaiters q)\<rparr>)"

subsection \<open>Enqueueing\<close>

definition evict_reason :: "queue_item \<Rightarrow> drop_reason" where
  "evict_reason evicted = (if isSkillOperation evicted then Capacity_skills else Capacity_sessions)"

function evictIfFull :: "queue_item \<Rightarrow> retry_queue \<Rightarrow> retry_queue \<times> queue_item list" where
  "evictIfFull item q =
     (if moduleDepth item q > rq_maxItems q then
        (case find_index (\<lambda>existing. same_module existing item) (rq_items q) of
           None \<Rightarrow> (q, [])
         | Some i \<Rightarrow>
             (let evicted = rq_items q ! i;
                  (q', rest) = evictIfFull item
                    (recordDrop (evict_reason evicted) (q\<lparr>rq_items := remove_at i (rq_items q)\<rparr>))
              in (q', evicted # rest)))
      else (q, []))"
  by pat_completeness auto
termination
  by (relation "measure (\<lambda>(item, q). length (rq_items q))")
    (auto simp: recordDrop_def length_remove_at dest!: find_index_SomeD)

declare evictIfFull.simps [simp del]

definition enqueue :: "queue_item_input \<Rightarrow> retry_queue \<Rightarrow> int \<times> retry_queue \<times> queue_item list" where
  "enqueue item q =
     (let stamped = stampVersion item (rq_nextVersion q);
          q1 = q\<lparr>rq_nextVersion := rq_nextVersion q + 1\<rparr>;
          q2 = (case find_index (\<lambda>existing. sameKey existing stamped) (rq_items q1) of
                  None \<Rightarrow> q1
                | Some idx \<Rightarrow> q1\<lparr>rq_items := remove_at idx (rq_items q1)\<rparr>);
          q3 = q2\<lparr>rq_items := rq_items q2 @ [stamped]\<rparr>;
          (q4, evicted) = evictIfFull stamped q3;
          q5 = q4\<lparr>rq_highWater := max (rq_highWater q4) (length (rq_items q4))\<rparr>
      in (item_version stamped, notifyItemWaiters (persist q5), evicted))"

abbreviation enqueued :: "queue_item_input \<Rightarrow> retry_queue \<Rightarrow> retry_queue" where
  "enqueued item q \<equiv> fst (snd (enqueue item q))"

text \<open>The loop of \<open>enqueueWhenAvailable\<close> looks at the queue each time it is woken; the list gives
  what it sees at each turn: whether the signal is aborted, and the queue then. \<open>None\<close> is the
  state of still waiting.\<close>

fun enqueueWhenAvailable ::
  "queue_item_input \<Rightarrow> (bool \<times> retry_queue) list \<Rightarrow> (int \<times> retry_queue \<times> queue_item list) option option" where
  "enqueueWhenAvailable item [] = None"
| "enqueueWhenAvailable item ((aborted, q) # later) =
     (if aborted then Some None
      else (let candidate = stampVersion item (rq_nextVersion q)
            in if list_ex (\<lambda>existing. sameKey existing candidate) (rq_items q) \<or>
                  moduleDepth candidate q < rq_maxItems q
               then Some (Some (enqueue item q))
               else enqueueWhenAvailable item later))"

subsection \<open>Draining\<close>

definition peek :: "(queue_item \<Rightarrow> bool) \<Rightarrow> retry_queue \<Rightarrow> queue_item option" where
  "peek eligible q = List.find eligible (rq_items q)"

definition markDoneIfVersion :: "queue_item \<Rightarrow> retry_queue \<Rightarrow> bool \<times> retry_queue" where
  "markDoneIfVersion item q =
     (case find_index (\<lambda>existing. sameKey existing item) (rq_items q) of
        None \<Rightarrow> (False, q)
      | Some idx \<Rightarrow>
          if item_version (rq_items q ! idx) \<noteq> item_version item then (False, q)
          else (True, notifyCapacityWaiters (persist (q\<lparr>rq_items := remove_at idx (rq_items q)\<rparr>))))"

definition bumpAttempts :: "queue_item \<Rightarrow> retry_queue \<Rightarrow> retry_queue" where
  "bumpAttempts item q =
     (case find_index (\<lambda>existing. sameKey existing item) (rq_items q) of
        None \<Rightarrow> q
      | Some idx \<Rightarrow>
          if item_version (rq_items q ! idx) \<noteq> item_version item then q
          else (let current = rq_items q ! idx
                in persist (q\<lparr>rq_items := remove_at idx (rq_items q)
                     @ [with_attempts (item_attempts current + 1) current]\<rparr>)))"

definition depth :: "retry_queue \<Rightarrow> nat" where
  "depth q = length (rq_items q)"

definition highWaterMark :: "retry_queue \<Rightarrow> nat" where
  "highWaterMark q = rq_highWater q"

section \<open>Lemmas: what each operation leaves alone\<close>

named_theorems rq_frame \<open>fields an operation of the queue does not write\<close>

lemma flush_next_frame [simp, rq_frame]:
  "rq_items (flush_next q) = rq_items q" "rq_highWater (flush_next q) = rq_highWater q"
  "rq_droppedByReason (flush_next q) = rq_droppedByReason q"
  "rq_nextVersion (flush_next q) = rq_nextVersion q" "rq_maxItems (flush_next q) = rq_maxItems q"
  "rq_capacityWaiters (flush_next q) = rq_capacityWaiters q"
  by (simp_all add: flush_next_def split: option.splits)

lemma persist_frame [simp, rq_frame]:
  "rq_items (persist q) = rq_items q" "rq_highWater (persist q) = rq_highWater q"
  "rq_droppedByReason (persist q) = rq_droppedByReason q"
  "rq_nextVersion (persist q) = rq_nextVersion q" "rq_maxItems (persist q) = rq_maxItems q"
  "rq_capacityWaiters (persist q) = rq_capacityWaiters q"
  by (simp_all add: persist_def Let_def)

lemma notify_frame [simp, rq_frame]:
  "rq_items (notifyItemWaiters q) = rq_items q" "rq_items (notifyCapacityWaiters q) = rq_items q"
  "rq_highWater (notifyItemWaiters q) = rq_highWater q"
  "rq_highWater (notifyCapacityWaiters q) = rq_highWater q"
  "rq_droppedByReason (notifyItemWaiters q) = rq_droppedByReason q"
  "rq_droppedByReason (notifyCapacityWaiters q) = rq_droppedByReason q"
  "rq_nextVersion (notifyItemWaiters q) = rq_nextVersion q"
  "rq_nextVersion (notifyCapacityWaiters q) = rq_nextVersion q"
  "rq_maxItems (notifyItemWaiters q) = rq_maxItems q"
  "rq_maxItems (notifyCapacityWaiters q) = rq_maxItems q"
  by (simp_all add: notifyItemWaiters_def notifyCapacityWaiters_def)

lemma recordDrop_frame [simp, rq_frame]:
  "rq_items (recordDrop r q) = rq_items q" "rq_highWater (recordDrop r q) = rq_highWater q"
  "rq_nextVersion (recordDrop r q) = rq_nextVersion q" "rq_maxItems (recordDrop r q) = rq_maxItems q"
  by (simp_all add: recordDrop_def)

lemma drop_count_recordDrop:
  "drop_count (rq_droppedByReason (recordDrop r q)) r' =
     drop_count (rq_droppedByReason q) r' + (if r = r' then 1 else 0)"
  by (simp add: recordDrop_def drop_count_def)

lemma stampVersion_version [simp]: "item_version (stampVersion i v) = v"
  by (cases i) (auto simp: item_version_def item_base.truncate_def)

lemma with_attempts_version [simp]: "item_version (with_attempts n i) = item_version i"
  by (cases i) (auto simp: item_version_def item_base.truncate_def)

lemma with_attempts_attempts [simp]: "item_attempts (with_attempts n i) = n"
  by (cases i) (auto simp: item_attempts_def item_base.truncate_def)

lemma with_attempts_skill [simp]: "isSkillOperation (with_attempts n i) = isSkillOperation i"
  by (cases i) auto

lemma sameKey_with_attempts [simp]: "sameKey (with_attempts n a) b = sameKey a b"
  by (cases a; cases b) (auto simp: hasSessionFence_def)

section \<open>Lemmas: keys\<close>

lemma sameKey_sym: "sameKey a b \<Longrightarrow> sameKey b a"
  by (cases a; cases b) (auto split: if_splits)

lemma sameKey_refl [simp]: "sameKey a a"
  by (cases a) auto

lemma sameKey_module: "sameKey a b \<Longrightarrow> same_module a b"
  by (cases a; cases b) (auto simp: same_module_def)

lemma sameKey_skill: "isSkillOperation a \<Longrightarrow> sameKey a b \<longleftrightarrow> isSkillOperation b \<and> item_skill_key a = item_skill_key b"
  by (cases a; cases b) auto

lemma sameKey_skill2: "isSkillOperation b \<Longrightarrow> sameKey a b \<longleftrightarrow> isSkillOperation a \<and> item_skill_key a = item_skill_key b"
  by (cases a; cases b) auto

text \<open>Every session row with its fence: the rows the current binary enqueues. On such rows
  \<open>sameKey\<close> is an equivalence; a legacy row without its fence breaks transitivity.\<close>

fun fenced_item :: "queue_item \<Rightarrow> bool" where
  "fenced_item (SessionPush s) = hasSessionFence s"
| "fenced_item _ = True"

lemma fenced_stampVersion [simp]: "fenced_item (stampVersion i v)"
  by (cases i) (auto simp: hasSessionFence_def)

lemma fenced_with_attempts [simp]: "fenced_item (with_attempts n i) = fenced_item i"
  by (cases i) (auto simp: hasSessionFence_def)

lemma sameKey_trans:
  "fenced_item a \<Longrightarrow> fenced_item b \<Longrightarrow> fenced_item c \<Longrightarrow> sameKey a b \<Longrightarrow> sameKey b c \<Longrightarrow> sameKey a c"
  by (cases a; cases b; cases c) auto

text \<open>On Skill operations the relation is transitive with no such condition.\<close>

lemma sameKey_trans_skill:
  "isSkillOperation c \<Longrightarrow> sameKey a c \<Longrightarrow> sameKey b c \<Longrightarrow> sameKey a b"
  by (cases a; cases b; cases c) auto

section \<open>Lemmas: one module of the queue\<close>

text \<open>The two modules, Skill operations and session pushes, share one list but are bounded
  separately. \<open>module_items\<close> is the abstraction: the sub-queue of one module.\<close>

definition module_items :: "bool \<Rightarrow> retry_queue \<Rightarrow> queue_item list" where
  "module_items skills q = filter (\<lambda>i. isSkillOperation i = skills) (rq_items q)"

lemma moduleDepth_module_items: "moduleDepth item q = length (module_items (isSkillOperation item) q)"
  by (simp add: moduleDepth_def module_items_def same_module_def)

text \<open>The abstract operation: a bounded latest-state queue removes the entry the new one replaces,
  appends the new one, and forgets the oldest entries beyond its capacity.\<close>

definition latest_enqueue :: "('a \<Rightarrow> 'a \<Rightarrow> bool) \<Rightarrow> nat \<Rightarrow> 'a \<Rightarrow> 'a list \<Rightarrow> 'a list" where
  "latest_enqueue same n x xs = take_last n (remove_first (\<lambda>y. same y x) xs @ [x])"

text \<open>The eviction loop in closed form: it removes as many of the module's oldest items as it is
  over the bound, and counts each one.\<close>

lemma recordDrop_iter_frame [simp]:
  "rq_items ((recordDrop r ^^ k) q) = rq_items q" "rq_highWater ((recordDrop r ^^ k) q) = rq_highWater q"
  "rq_nextVersion ((recordDrop r ^^ k) q) = rq_nextVersion q"
  "rq_maxItems ((recordDrop r ^^ k) q) = rq_maxItems q"
  by (induction k) simp_all

lemma drop_count_iter:
  "drop_count (rq_droppedByReason ((recordDrop r ^^ k) q)) r' =
     drop_count (rq_droppedByReason q) r' + (if r = r' then k else 0)"
  by (induction k) (auto simp: drop_count_recordDrop)

lemma recordDrop_items: "recordDrop r (q\<lparr>rq_items := xs\<rparr>) = (recordDrop r q)\<lparr>rq_items := xs\<rparr>"
  by (simp add: recordDrop_def)

lemma recordDrop_iter_items:
  "(recordDrop r ^^ k) (q\<lparr>rq_items := xs\<rparr>) = ((recordDrop r ^^ k) q)\<lparr>rq_items := xs\<rparr>"
  by (induction k) (simp_all add: recordDrop_items)

lemma evictIfFull_closed:
  assumes "k = moduleDepth item q - rq_maxItems q"
  shows "evictIfFull item q =
     ((recordDrop (evict_reason item) ^^ k)
        (q\<lparr>rq_items := drop_matching k (\<lambda>e. same_module e item) (rq_items q)\<rparr>),
      take k (filter (\<lambda>e. same_module e item) (rq_items q)))"
  using assms
proof (induction k arbitrary: q)
  case 0
  then show ?case by (subst evictIfFull.simps) simp
next
  case (Suc k)
  let ?P = "\<lambda>e. same_module e item"
  from Suc.prems have over: "moduleDepth item q > rq_maxItems q" by simp
  then obtain y ys where ys: "filter ?P (rq_items q) = y # ys"
    by (cases "filter ?P (rq_items q)") (auto simp: moduleDepth_def)
  from find_index_first_match [OF ys]
  obtain i where i: "find_index ?P (rq_items q) = Some i" "rq_items q ! i = y" by blast
  have "y \<in> set (filter ?P (rq_items q))" using ys by simp
  then have reason: "evict_reason y = evict_reason item" by (auto simp: evict_reason_def same_module_def)
  let ?q = "recordDrop (evict_reason item) (q\<lparr>rq_items := remove_first ?P (rq_items q)\<rparr>)"
  have "moduleDepth item ?q = moduleDepth item q - 1"
    by (simp add: moduleDepth_def filter_remove_first_same)
  with Suc.prems have "k = moduleDepth item ?q - rq_maxItems ?q" by simp
  note IH = Suc.IH [OF this, unfolded recordDrop_items]
  show ?case
    by (subst evictIfFull.simps)
      (simp add: over i reason IH ys remove_at_find_index [OF i(1)] filter_remove_first_same
        recordDrop_iter_items recordDrop_items funpow_swap1)
qed

text \<open>Enqueueing in closed form.\<close>

definition enqueue_base :: "queue_item_input \<Rightarrow> retry_queue \<Rightarrow> queue_item list" where
  "enqueue_base item q =
     remove_first (\<lambda>e. sameKey e (stampVersion item (rq_nextVersion q))) (rq_items q)
     @ [stampVersion item (rq_nextVersion q)]"

definition enqueue_excess :: "queue_item_input \<Rightarrow> retry_queue \<Rightarrow> nat" where
  "enqueue_excess item q =
     length (filter (\<lambda>e. same_module e (stampVersion item (rq_nextVersion q))) (enqueue_base item q))
     - rq_maxItems q"

fun is_skill_input :: "queue_item_input \<Rightarrow> bool" where
  "is_skill_input (SessionPushInput _) = False"
| "is_skill_input _ = True"

lemma isSkillOperation_stamp [simp]: "isSkillOperation (stampVersion i v) = is_skill_input i"
  by (cases i) auto

lemma enqueue_closed:
  fixes q :: retry_queue
  defines "st \<equiv> \<lambda>i. stampVersion i (rq_nextVersion q)"
  shows
    "fst (enqueue item q) = rq_nextVersion q"
    "rq_items (enqueued item q) =
       drop_matching (enqueue_excess item q) (\<lambda>e. same_module e (st item)) (enqueue_base item q)"
    "snd (snd (enqueue item q)) =
       take (enqueue_excess item q) (filter (\<lambda>e. same_module e (st item)) (enqueue_base item q))"
    "rq_nextVersion (enqueued item q) = rq_nextVersion q + 1"
    "rq_maxItems (enqueued item q) = rq_maxItems q"
    "rq_highWater (enqueued item q) = max (rq_highWater q) (length (rq_items (enqueued item q)))"
    "drop_count (rq_droppedByReason (enqueued item q)) r =
       drop_count (rq_droppedByReason q) r +
       (if r = evict_reason (st item) then enqueue_excess item q else 0)"
proof -
  let ?q1 = "q\<lparr>rq_nextVersion := rq_nextVersion q + 1\<rparr>"
  let ?q2 = "(case find_index (\<lambda>existing. sameKey existing (st item)) (rq_items ?q1) of
      None \<Rightarrow> ?q1 | Some idx \<Rightarrow> ?q1\<lparr>rq_items := remove_at idx (rq_items ?q1)\<rparr>)"
  have "?q2 = ?q1\<lparr>rq_items := remove_first (\<lambda>e. sameKey e (st item)) (rq_items q)\<rparr>"
  proof (cases "find_index (\<lambda>existing. sameKey existing (st item)) (rq_items q)")
    case None
    then have "remove_first (\<lambda>e. sameKey e (st item)) (rq_items q) = rq_items q"
      by (simp add: remove_first_id find_index_None_iff)
    with None show ?thesis by simp
  next
    case (Some i)
    then show ?thesis using remove_at_find_index [OF Some] by simp
  qed
  then have q3: "?q2\<lparr>rq_items := rq_items ?q2 @ [st item]\<rparr> = ?q1\<lparr>rq_items := enqueue_base item q\<rparr>"
    by (simp add: enqueue_base_def st_def)
  let ?q3 = "?q1\<lparr>rq_items := enqueue_base item q\<rparr>"
  have "enqueue_excess item q = moduleDepth (st item) ?q3 - rq_maxItems ?q3"
    by (simp add: enqueue_excess_def moduleDepth_def st_def)
  note ev = evictIfFull_closed [OF this]
  have eq: "enqueue item q =
     (let q5 = fst (evictIfFull (st item) ?q3)
      in (rq_nextVersion q,
          notifyItemWaiters (persist (q5\<lparr>rq_highWater := max (rq_highWater q5) (length (rq_items q5))\<rparr>)),
          snd (evictIfFull (st item) ?q3)))"
    using q3 unfolding enqueue_def st_def by (simp add: Let_def case_prod_unfold)
  show "fst (enqueue item q) = rq_nextVersion q"
    and "rq_items (enqueued item q) =
       drop_matching (enqueue_excess item q) (\<lambda>e. same_module e (st item)) (enqueue_base item q)"
    and "snd (snd (enqueue item q)) =
       take (enqueue_excess item q) (filter (\<lambda>e. same_module e (st item)) (enqueue_base item q))"
    and "rq_nextVersion (enqueued item q) = rq_nextVersion q + 1"
    and "rq_maxItems (enqueued item q) = rq_maxItems q"
    and "rq_highWater (enqueued item q) = max (rq_highWater q) (length (rq_items (enqueued item q)))"
    and "drop_count (rq_droppedByReason (enqueued item q)) r =
       drop_count (rq_droppedByReason q) r +
       (if r = evict_reason (st item) then enqueue_excess item q else 0)"
    unfolding eq ev by (simp_all add: Let_def drop_count_iter)
qed

section \<open>The interface of a bounded latest-state queue\<close>

text \<open>What the daemon relies on of each module of the queue: enqueueing is the abstract operation
  on the module's view, and leaves the other module alone.\<close>

locale latest_queue =
  fixes view :: "'q \<Rightarrow> 'a list"
    and enq :: "'i \<Rightarrow> 'q \<Rightarrow> 'q"
    and stamp :: "'i \<Rightarrow> 'q \<Rightarrow> 'a"
    and cap :: "'q \<Rightarrow> nat"
    and same :: "'a \<Rightarrow> 'a \<Rightarrow> bool"
    and accepts :: "'i \<Rightarrow> bool"
  assumes view_enq: "accepts x \<Longrightarrow> view (enq x q) = latest_enqueue same (cap q) (stamp x q) (view q)"
    and view_other: "\<not> accepts x \<Longrightarrow> view (enq x q) = view q"
    and cap_enq: "cap (enq x q) = cap q"
begin

lemma enq_bounded: "accepts x \<Longrightarrow> length (view (enq x q)) \<le> cap q"
  by (simp add: view_enq latest_enqueue_def)

lemma step_bounded: "length (view q) \<le> cap q \<Longrightarrow> length (view (enq x q)) \<le> cap (enq x q)"
  by (cases "accepts x") (simp_all add: enq_bounded view_other cap_enq)

lemma run_bounded: "length (view q) \<le> cap q \<Longrightarrow> length (view (fold enq xs q)) \<le> cap q"
proof (induction xs arbitrary: q)
  case Nil
  then show ?case by simp
next
  case (Cons x xs)
  from Cons.IH [OF step_bounded [OF Cons.prems]] show ?case by (simp add: cap_enq)
qed

lemma newest_last: "accepts x \<Longrightarrow> 0 < cap q \<Longrightarrow> \<exists>older. view (enq x q) = older @ [stamp x q]"
  by (simp add: view_enq latest_enqueue_def take_last_snoc)

lemma survives:
  assumes "y \<in> set (view q)" "\<not> same y (stamp x q)" "length (view q) < cap q"
  shows "y \<in> set (view (enq x q))"
proof (cases "accepts x")
  case True
  let ?r = "remove_first (\<lambda>z. same z (stamp x q)) (view q)"
  have "length (?r @ [stamp x q]) \<le> cap q"
    using assms(3) length_remove_first_le [of "\<lambda>z. same z (stamp x q)" "view q"] by simp
  then have "view (enq x q) = ?r @ [stamp x q]"
    using True by (simp add: view_enq latest_enqueue_def take_last_all)
  then show ?thesis using remove_first_keeps [OF assms(1), of "\<lambda>z. same z (stamp x q)"] assms(2) by simp
next
  case False
  then show ?thesis using assms(1) by (simp add: view_other)
qed

end

lemma module_items_enqueued:
  "module_items b (enqueued item q) =
     (if is_skill_input item = b
      then latest_enqueue sameKey (rq_maxItems q) (stampVersion item (rq_nextVersion q)) (module_items b q)
      else module_items b q)"
proof -
  let ?st = "stampVersion item (rq_nextVersion q)"
  let ?P = "\<lambda>e. sameKey e ?st"
  have sm: "(\<lambda>e. same_module e ?st) = (\<lambda>e. isSkillOperation e = is_skill_input item)"
    by (simp add: same_module_def fun_eq_iff)
  show ?thesis
  proof (cases "is_skill_input item = b")
    case True
    have sub: "isSkillOperation x = b" if "?P x" for x
      using sameKey_module [OF that] True by (simp add: same_module_def)
    have "filter (\<lambda>i. isSkillOperation i = b) (enqueue_base item q) =
        remove_first ?P (module_items b q) @ [?st]"
      using filter_remove_first_sub [where P = ?P and Q = "\<lambda>i. isSkillOperation i = b", OF sub] True
      by (simp add: enqueue_base_def module_items_def)
    then show ?thesis using True
      by (simp add: module_items_def enqueue_closed(2) sm filter_drop_matching enqueue_excess_def
          latest_enqueue_def take_last_def)
  next
    case False
    have disj: "\<not> isSkillOperation x = b" if "?P x" for x
      using sameKey_module [OF that] False by (simp add: same_module_def)
    have "filter (\<lambda>i. isSkillOperation i = b) (enqueue_base item q) = module_items b q"
      using filter_remove_first_disj [where P = ?P and Q = "\<lambda>i. isSkillOperation i = b", OF disj] False
      by (simp add: enqueue_base_def module_items_def)
    moreover have "filter (\<lambda>i. isSkillOperation i = b)
        (drop_matching n (\<lambda>e. isSkillOperation e = is_skill_input item) xs) =
        filter (\<lambda>i. isSkillOperation i = b) xs" for n xs
      by (rule filter_drop_matching_disj) (use False in auto)
    ultimately show ?thesis using False by (simp add: module_items_def enqueue_closed(2) sm)
  qed
qed

interpretation skill_queue: latest_queue "module_items True" enqueued
  "\<lambda>i q. stampVersion i (rq_nextVersion q)" rq_maxItems sameKey is_skill_input
  by unfold_locales (simp_all add: module_items_enqueued enqueue_closed)

interpretation session_queue: latest_queue "module_items False" enqueued
  "\<lambda>i q. stampVersion i (rq_nextVersion q)" rq_maxItems sameKey "\<lambda>i. \<not> is_skill_input i"
  by unfold_locales (simp_all add: module_items_enqueued enqueue_closed)

end
