(* ===== verification/QueueInvariants.thy ===== *)
theory QueueInvariants
  imports RetryQueue
begin

text \<open>
  What the retry queue guarantees: its invariant over every sequence of operations after a load,
  the refinement of each module to a bounded latest-state queue, the version fence that keeps a
  finished upload from removing newer work, the accounting of dropped items, the on-disk round
  trip and the coalescing flush.
\<close>

section \<open>Unique pending operations\<close>

definition uniq_on :: "(queue_item \<Rightarrow> bool) \<Rightarrow> queue_item list \<Rightarrow> bool" where
  "uniq_on S xs \<longleftrightarrow> sorted_wrt (\<lambda>a b. \<not> (S a \<and> S b \<and> sameKey a b)) xs"

abbreviation skills_unique :: "queue_item list \<Rightarrow> bool" where
  "skills_unique \<equiv> uniq_on isSkillOperation"

lemma uniq_on_remove_first: "uniq_on S xs \<Longrightarrow> uniq_on S (remove_first P xs)"
  by (simp add: uniq_on_def sorted_wrt_remove_first)

lemma uniq_on_drop_matching: "uniq_on S xs \<Longrightarrow> uniq_on S (drop_matching n P xs)"
  by (simp add: uniq_on_def sorted_wrt_drop_matching)

lemma uniq_on_mono: "uniq_on S xs \<Longrightarrow> \<forall>x\<in>set xs. T x \<longrightarrow> S x \<Longrightarrow> uniq_on T xs"
  by (induction xs) (auto simp: uniq_on_def)

lemma uniq_on_snoc:
  "uniq_on S (xs @ [x]) \<longleftrightarrow> uniq_on S xs \<and> (S x \<longrightarrow> (\<forall>y\<in>set xs. S y \<longrightarrow> \<not> sameKey y x))"
  by (auto simp: uniq_on_def sorted_wrt_append)

lemma uniq_on_replace_last:
  assumes u: "uniq_on S xs"
    and st: "S x \<Longrightarrow> \<forall>y\<in>set xs. sameKey y x \<longrightarrow> S y"
    and tr: "\<And>a b. S x \<Longrightarrow> S a \<Longrightarrow> S b \<Longrightarrow> sameKey a x \<Longrightarrow> sameKey b x \<Longrightarrow> sameKey a b"
  shows "uniq_on S (remove_first (\<lambda>y. sameKey y x) xs @ [x])"
proof -
  have "\<forall>y\<in>set (remove_first (\<lambda>y. sameKey y x) xs). \<not> sameKey y x" if x: "S x"
  proof (rule remove_first_removes_all)
    have "sorted_wrt (\<lambda>a b. \<not> (S a \<and> S b \<and> sameKey a b)) xs" using u by (simp add: uniq_on_def)
    then show "sorted_wrt (\<lambda>a b. \<not> (sameKey a x \<and> sameKey b x)) xs"
      by (rule sorted_wrt_mono_rel [rotated]) (use st [OF x] tr [OF x] in blast)
  qed
  then show ?thesis using u by (auto simp: uniq_on_snoc uniq_on_remove_first)
qed

lemma uniq_on_update:
  assumes u: "uniq_on S xs" and i: "i < length xs" and k: "sameKey (xs ! i) x"
    and st: "S x \<Longrightarrow> S (xs ! i)"
    and tr: "\<And>a. S x \<Longrightarrow> S a \<Longrightarrow> sameKey a x \<Longrightarrow> sameKey a (xs ! i)"
  shows "uniq_on S (xs[i := x])"
  unfolding uniq_on_def sorted_wrt_iff_nth_less
proof safe
  fix a b assume ab: "a < b" "b < length (xs[i := x])"
    and bad: "S (xs[i := x] ! a)" "S (xs[i := x] ! b)" "sameKey (xs[i := x] ! a) (xs[i := x] ! b)"
  from u ab have "\<not> (S (xs ! a) \<and> S (xs ! b) \<and> sameKey (xs ! a) (xs ! b))"
    by (simp add: uniq_on_def sorted_wrt_iff_nth_less)
  moreover have "S (xs ! a) \<and> S (xs ! b) \<and> sameKey (xs ! a) (xs ! b)"
    using bad ab i st tr sameKey_sym by (cases "a = i"; cases "b = i") (auto simp: nth_list_update)
  ultimately show False by blast
qed

lemma skills_unique_distinct:
  "skills_unique xs \<longleftrightarrow> distinct (map item_skill_key (filter isSkillOperation xs))"
  by (induction xs) (auto simp: uniq_on_def sameKey_skill image_iff)

section \<open>The invariant\<close>

definition queue_inv :: "retry_queue \<Rightarrow> bool" where
  "queue_inv q \<longleftrightarrow>
     skills_unique (rq_items q) \<and>
     (\<forall>i\<in>set (rq_items q). item_version i < rq_nextVersion q) \<and>
     length (rq_items q) \<le> rq_highWater q"

text \<open>The same for session pushes, on queues whose session rows all carry their fence.\<close>

definition session_inv :: "retry_queue \<Rightarrow> bool" where
  "session_inv q \<longleftrightarrow> (\<forall>i\<in>set (rq_items q). fenced_item i) \<and> uniq_on (\<lambda>_. True) (rq_items q)"

lemma set_enqueued:
  "set (rq_items (enqueued item q)) \<subseteq> insert (stampVersion item (rq_nextVersion q)) (set (rq_items q))"
  using set_drop_matching set_remove_first
  by (fastforce simp: enqueue_closed enqueue_base_def)

lemma queue_inv_enqueued: "queue_inv q \<Longrightarrow> queue_inv (enqueued item q)"
proof -
  let ?st = "stampVersion item (rq_nextVersion q)"
  assume inv: "queue_inv q"
  have "skills_unique (enqueue_base item q)"
    unfolding enqueue_base_def using inv
    by (intro uniq_on_replace_last) (auto simp: queue_inv_def sameKey_skill2)
  then have "skills_unique (rq_items (enqueued item q))"
    by (simp add: enqueue_closed uniq_on_drop_matching)
  moreover have "\<forall>i\<in>set (rq_items (enqueued item q)). item_version i < rq_nextVersion q + 1"
    using set_enqueued [of item q] inv by (fastforce simp: queue_inv_def)
  ultimately show ?thesis
    unfolding queue_inv_def enqueue_closed(4,6) by simp
qed

lemma session_inv_enqueued: "session_inv q \<Longrightarrow> session_inv (enqueued item q)"
proof -
  let ?st = "stampVersion item (rq_nextVersion q)"
  assume inv: "session_inv q"
  have f: "fenced_item a" if "a \<in> set (rq_items q)" for a using inv that by (simp add: session_inv_def)
  have "uniq_on (\<lambda>a. a \<in> set (rq_items q) \<union> {?st}) (enqueue_base item q)"
    unfolding enqueue_base_def
  proof (rule uniq_on_replace_last)
    show "uniq_on (\<lambda>a. a \<in> set (rq_items q) \<union> {?st}) (rq_items q)"
      using inv by (auto simp: session_inv_def intro: uniq_on_mono)
  next
    fix a b assume "a \<in> set (rq_items q) \<union> {?st}" "b \<in> set (rq_items q) \<union> {?st}"
      "sameKey a ?st" "sameKey b ?st"
    then show "sameKey a b" using f sameKey_trans [of a ?st b] sameKey_sym by auto
  qed auto
  moreover have sub: "set (enqueue_base item q) \<subseteq> set (rq_items q) \<union> {?st}"
    using set_remove_first by (fastforce simp: enqueue_base_def)
  ultimately have "uniq_on (\<lambda>_. True) (enqueue_base item q)"
    by (auto intro: uniq_on_mono)
  then have "uniq_on (\<lambda>_. True) (rq_items (enqueued item q))"
    by (simp add: enqueue_closed uniq_on_drop_matching)
  moreover have "\<forall>i\<in>set (rq_items (enqueued item q)). fenced_item i"
    using set_enqueued [of item q] f by fastforce
  ultimately show ?thesis by (simp add: session_inv_def)
qed

subsection \<open>Removing and retrying\<close>

lemma markDone_items:
  "rq_items (snd (markDoneIfVersion item q)) =
     (if fst (markDoneIfVersion item q) then remove_first (\<lambda>e. sameKey e item) (rq_items q) else rq_items q)"
  using remove_at_find_index [of "\<lambda>e. sameKey e item" "rq_items q"]
  by (auto simp: markDoneIfVersion_def split: option.splits)

lemma markDone_frame [simp]:
  "rq_nextVersion (snd (markDoneIfVersion item q)) = rq_nextVersion q"
  "rq_highWater (snd (markDoneIfVersion item q)) = rq_highWater q"
  "rq_maxItems (snd (markDoneIfVersion item q)) = rq_maxItems q"
  "rq_droppedByReason (snd (markDoneIfVersion item q)) = rq_droppedByReason q"
  by (auto simp: markDoneIfVersion_def split: option.splits)

lemma bumpAttempts_cases:
  obtains (unchanged) "bumpAttempts item q = q"
    and "\<not> (\<exists>e. List.find (\<lambda>e. sameKey e item) (rq_items q) = Some e \<and> item_version e = item_version item)"
  | (moved) current where "List.find (\<lambda>e. sameKey e item) (rq_items q) = Some current"
      and "item_version current = item_version item"
      and "rq_items (bumpAttempts item q) =
        remove_first (\<lambda>e. sameKey e item) (rq_items q) @ [with_attempts (item_attempts current + 1) current]"
proof (cases "find_index (\<lambda>e. sameKey e item) (rq_items q)")
  case None
  then have "List.find (\<lambda>e. sameKey e item) (rq_items q) = None"
    by (simp add: find_index_None_iff find_None_iff)
  with None show ?thesis by (intro unchanged) (simp_all add: bumpAttempts_def)
next
  case (Some i)
  from find_index_SomeD [OF Some]
  have f: "List.find (\<lambda>e. sameKey e item) (rq_items q) = Some (rq_items q ! i)"
    by (auto simp: find_Some_iff)
  show ?thesis
  proof (cases "item_version (rq_items q ! i) = item_version item")
    case True
    with Some f show ?thesis
      by (intro moved) (simp_all add: bumpAttempts_def remove_at_find_index [OF Some] Let_def)
  next
    case False
    with Some f show ?thesis by (intro unchanged) (simp_all add: bumpAttempts_def)
  qed
qed

lemma bumpAttempts_frame [simp]:
  "rq_nextVersion (bumpAttempts item q) = rq_nextVersion q"
  "rq_highWater (bumpAttempts item q) = rq_highWater q"
  "rq_maxItems (bumpAttempts item q) = rq_maxItems q"
  "rq_droppedByReason (bumpAttempts item q) = rq_droppedByReason q"
  by (simp_all add: bumpAttempts_def Let_def split: option.splits)

lemma queue_inv_markDone: "queue_inv q \<Longrightarrow> queue_inv (snd (markDoneIfVersion item q))"
  using set_remove_first [of "\<lambda>e. sameKey e item" "rq_items q"]
    length_remove_first_le [of "\<lambda>e. sameKey e item" "rq_items q"]
  by (auto simp: queue_inv_def markDone_items uniq_on_remove_first)

lemma session_inv_markDone: "session_inv q \<Longrightarrow> session_inv (snd (markDoneIfVersion item q))"
  using set_remove_first [of "\<lambda>e. sameKey e item" "rq_items q"]
  by (auto simp: session_inv_def markDone_items uniq_on_remove_first)

lemma sameKey_with_attempts2 [simp]: "sameKey a (with_attempts n b) = sameKey a b"
  by (cases a; cases b) (auto simp: hasSessionFence_def)

lemma uniq_on_rotate:
  assumes "uniq_on S (ys @ c # zs)" and "S c' = S c" and "\<And>y. sameKey y c' = sameKey y c"
  shows "uniq_on S ((ys @ zs) @ [c'])"
  using assms sameKey_sym by (auto simp: uniq_on_def sorted_wrt_append)

lemma uniq_on_bump:
  assumes "uniq_on S (rq_items q)" and "\<And>n i. S (with_attempts n i) = S i"
  shows "uniq_on S (rq_items (bumpAttempts item q))"
proof (cases rule: bumpAttempts_cases [where item = item and q = q])
  case unchanged
  then show ?thesis using assms by simp
next
  case (moved current)
  from remove_first_split [OF moved(1)] obtain ys zs
    where "rq_items q = ys @ current # zs" "remove_first (\<lambda>e. sameKey e item) (rq_items q) = ys @ zs" by blast
  then show ?thesis using assms moved(3) uniq_on_rotate [of S ys current zs] by simp
qed

lemma bump_members:
  assumes "i \<in> set (rq_items (bumpAttempts item q))"
  shows "\<exists>j\<in>set (rq_items q). item_version i = item_version j \<and> (i = j \<or> (\<exists>n. i = with_attempts n j))"
proof (cases rule: bumpAttempts_cases [where item = item and q = q])
  case unchanged
  then show ?thesis using assms by auto
next
  case (moved current)
  have "current \<in> set (rq_items q)" using find_SomeD [OF moved(1)] by simp
  then show ?thesis using assms moved(3) set_remove_first [of "\<lambda>e. sameKey e item" "rq_items q"]
    by (auto intro: bexI [of _ current])
qed

lemma bump_length: "length (rq_items (bumpAttempts item q)) = length (rq_items q)"
proof (cases rule: bumpAttempts_cases [where item = item and q = q])
  case (moved current)
  then show ?thesis using find_SomeD [OF moved(1)]
      length_remove_first [of "rq_items q" "\<lambda>e. sameKey e item"] by auto
qed simp

lemma queue_inv_bump: "queue_inv q \<Longrightarrow> queue_inv (bumpAttempts item q)"
  using bump_members [of _ item q] by (fastforce simp: queue_inv_def bump_length uniq_on_bump)

lemma session_inv_bump: "session_inv q \<Longrightarrow> session_inv (bumpAttempts item q)"
  using bump_members [of _ item q] by (fastforce simp: session_inv_def uniq_on_bump)

subsection \<open>Loading\<close>

lemma fold_max_ge: "m \<le> fold (\<lambda>i m. max m (item_version i)) xs (m :: int)"
proof (induction xs arbitrary: m)
  case (Cons x xs)
  have "m \<le> max m (item_version x)" by simp
  also have "\<dots> \<le> fold (\<lambda>i m. max m (item_version i)) xs (max m (item_version x))" by (rule Cons.IH)
  finally show ?case by simp
qed simp

lemma fold_max_member: "i \<in> set xs \<Longrightarrow> item_version i \<le> fold (\<lambda>i m. max m (item_version i)) xs (m :: int)"
proof (induction xs arbitrary: m)
  case (Cons x xs)
  show ?case
  proof (cases "i = x")
    case True
    have "item_version x \<le> max m (item_version x)" by simp
    also note fold_max_ge
    finally show ?thesis using True by simp
  next
    case False
    with Cons.prems Cons.IH show ?thesis by simp
  qed
qed simp

lemma max_version_ge: "i \<in> set its \<Longrightarrow> item_version i \<le> max_version its"
  by (simp add: max_version_def fold_max_member)

lemma load_line_unique:
  "skills_unique (rq_items q) \<Longrightarrow> skills_unique (rq_items (fst (load_line parse line (q, d))))"
proof -
  assume u: "skills_unique (rq_items q)"
  show ?thesis
  proof (cases "\<exists>j. parse line = Some j \<and> isQueueItem j")
    case False
    then show ?thesis using u by (auto simp: load_line_def split: option.splits)
  next
    case True
    then obtain j where j: "parse line = Some j" "isQueueItem j" by blast
    show ?thesis
    proof (cases "find_index (\<lambda>e. sameKey e (normalized j)) (rq_items q)")
      case None
      then have "\<forall>y\<in>set (rq_items q). \<not> sameKey y (normalized j)" by (simp add: find_index_None_iff)
      with None show ?thesis using u j by (simp add: load_line_def Let_def uniq_on_snoc)
    next
      case (Some i)
      from find_index_SomeD [OF Some] have i: "i < length (rq_items q)"
        and k: "sameKey (rq_items q ! i) (normalized j)" by auto
      have "skills_unique ((rq_items q)[i := normalized j])"
        by (rule uniq_on_update [OF u i k]) (use k in \<open>auto simp: sameKey_skill2 intro: sameKey_trans_skill sameKey_sym\<close>)
      then show ?thesis using u j Some by (simp add: load_line_def Let_def)
    qed
  qed
qed

lemma load_fold_unique:
  "skills_unique (rq_items q) \<Longrightarrow> skills_unique (rq_items (fst (fold (load_line parse) lines (q, d))))"
proof (induction lines arbitrary: q d)
  case Nil
  then show ?case by simp
next
  case (Cons line lines)
  obtain q' d' where eq: "load_line parse line (q, d) = (q', d')" by fastforce
  from load_line_unique [OF Cons.prems, of parse line d] eq have "skills_unique (rq_items q')" by simp
  from Cons.IH [OF this, of d'] show ?case by (simp add: eq)
qed

lemma load_items:
  "rq_items (load parse (Some content) q) =
     rq_items (fst (fold (load_line parse) (filter (\<lambda>l. l \<noteq> []) (split_on newline content)) (q\<lparr>rq_items := []\<rparr>, 0)))"
  by (simp add: load_def Let_def case_prod_unfold)

lemma load_next_high:
  "rq_nextVersion (load parse (Some content) q) = max_version (rq_items (load parse (Some content) q)) + 1"
  "length (rq_items (load parse (Some content) q)) \<le> rq_highWater (load parse (Some content) q)"
  by (simp_all add: load_def Let_def case_prod_unfold)

lemma queue_inv_load: "queue_inv (load parse saved (new_queue m))"
proof (cases saved)
  case None
  then show ?thesis by (simp add: queue_inv_def load_def new_queue_def uniq_on_def)
next
  case (Some content)
  let ?q = "load parse (Some content) (new_queue m)"
  have "skills_unique (rq_items ?q)"
    unfolding load_items by (rule load_fold_unique) (simp add: uniq_on_def)
  moreover have "\<forall>i\<in>set (rq_items ?q). item_version i < rq_nextVersion ?q"
    using max_version_ge unfolding load_next_high by fastforce
  ultimately show ?thesis using Some load_next_high(2) by (simp add: queue_inv_def)
qed

text \<open>A file written since session rows carry their fence: the condition under which the same holds of the
  session pushes. A row from before that time breaks it.\<close>

definition fenced_file :: "(string \<Rightarrow> json option) \<Rightarrow> string option \<Rightarrow> bool" where
  "fenced_file parse saved \<longleftrightarrow>
     (case saved of None \<Rightarrow> True
      | Some content \<Rightarrow> list_all (\<lambda>line. case parse line of None \<Rightarrow> True | Some j \<Rightarrow> isQueueItem j \<longrightarrow> fenced_item (normalized j))
          (split_on newline content))"

lemma load_line_session:
  assumes "session_inv q" and "\<And>j. parse line = Some j \<Longrightarrow> isQueueItem j \<Longrightarrow> fenced_item (normalized j)"
  shows "session_inv (fst (load_line parse line (q, d)))"
proof (cases "\<exists>j. parse line = Some j \<and> isQueueItem j")
  case False
  then show ?thesis using assms(1) by (auto simp: load_line_def session_inv_def split: option.splits)
next
  case True
  then obtain j where j: "parse line = Some j" "isQueueItem j" by blast
  have f: "fenced_item (normalized j)" by (rule assms(2) [OF j])
  have q: "\<forall>i\<in>set (rq_items q). fenced_item i" "uniq_on fenced_item (rq_items q)"
    using assms(1) uniq_on_mono [of "\<lambda>_. True" "rq_items q" fenced_item] by (simp_all add: session_inv_def)
  have all: "uniq_on (\<lambda>_. True) xs" if "uniq_on fenced_item xs" "\<forall>i\<in>set xs. fenced_item i" for xs
    using uniq_on_mono [OF that(1), of "\<lambda>_. True"] that(2) by simp
  show ?thesis
  proof (cases "find_index (\<lambda>e. sameKey e (normalized j)) (rq_items q)")
    case None
    then have "\<forall>y\<in>set (rq_items q). \<not> sameKey y (normalized j)" by (simp add: find_index_None_iff)
    then have "uniq_on fenced_item (rq_items q @ [normalized j])" using q by (simp add: uniq_on_snoc)
    then show ?thesis using q f j None all [of "rq_items q @ [normalized j]"] by (simp add: load_line_def Let_def session_inv_def)
  next
    case (Some i)
    from find_index_SomeD [OF Some] have i: "i < length (rq_items q)" and k: "sameKey (rq_items q ! i) (normalized j)" by auto
    have "uniq_on fenced_item ((rq_items q)[i := normalized j])"
    proof (rule uniq_on_update [OF q(2) i k])
      show "fenced_item (rq_items q ! i)" using q(1) i by simp
      show "sameKey a (rq_items q ! i)" if "fenced_item a" "sameKey a (normalized j)" for a
        using sameKey_trans [OF that(1) f _ that(2) sameKey_sym [OF k]] q(1) i by simp
    qed
    moreover have "\<forall>e\<in>set ((rq_items q)[i := normalized j]). fenced_item e"
      using q(1) f set_update_subset_insert [of "rq_items q" i "normalized j"] by blast
    ultimately show ?thesis using assms(1) j Some all by (simp add: load_line_def Let_def session_inv_def)
  qed
qed

lemma load_fold_session:
  assumes "session_inv q"
    and "list_all (\<lambda>line. case parse line of None \<Rightarrow> True | Some j \<Rightarrow> isQueueItem j \<longrightarrow> fenced_item (normalized j)) lines"
  shows "session_inv (fst (fold (load_line parse) lines (q, d)))"
  using assms
proof (induction lines arbitrary: q d)
  case (Cons line lines)
  obtain q' d' where eq: "load_line parse line (q, d) = (q', d')" by fastforce
  have "session_inv (fst (load_line parse line (q, d)))"
    by (rule load_line_session [OF Cons.prems(1)]) (use Cons.prems(2) in simp)
  then show ?case using Cons.IH [of q' d'] Cons.prems(2) eq by simp
qed simp

lemma session_inv_load:
  assumes "fenced_file parse saved"
  shows "session_inv (load parse saved (new_queue m))"
proof (cases saved)
  case None
  then show ?thesis by (simp add: session_inv_def load_def new_queue_def uniq_on_def)
next
  case (Some content)
  let ?ok = "\<lambda>line. case parse line of None \<Rightarrow> True | Some j \<Rightarrow> isQueueItem j \<longrightarrow> fenced_item (normalized j)"
  have "list_all ?ok (filter (\<lambda>l. l \<noteq> []) (split_on newline content))"
    using assms Some by (simp add: fenced_file_def list_all_iff)
  from load_fold_session [OF _ this, of "(new_queue m)\<lparr>rq_items := []\<rparr>" 0]
  have "session_inv (fst (fold (load_line parse) (filter (\<lambda>l. l \<noteq> []) (split_on newline content))
      ((new_queue m)\<lparr>rq_items := []\<rparr>, 0)))" by (simp add: session_inv_def uniq_on_def)
  then show ?thesis unfolding Some session_inv_def load_items .
qed

section \<open>Every sequence of operations\<close>

text \<open>The steps of the running daemon: producers enqueue, the drain loop finishes, retries or
  drops items, the heartbeat drains and restores the counters, and the flush writes.\<close>

inductive queue_op :: "retry_queue \<Rightarrow> retry_queue \<Rightarrow> bool" where
  op_enqueue: "queue_op q (enqueued item q)"
| op_done: "queue_op q (snd (markDoneIfVersion item q))"
| op_bump: "queue_op q (bumpAttempts item q)"
| op_drop: "queue_op q (recordPermanentDrop reason q)"
| op_drain: "queue_op q (snd (drainDroppedDelta q))"
| op_restore: "queue_op q (restoreDroppedDelta deltas q)"
| op_wait: "queue_op q (waitForChange aborted ms w q)"
| op_wait_item: "queue_op q (waitForItem aborted ms w q)"
| op_wait_capacity: "queue_op q (waitForCapacityChange item aborted w q)"
| op_finish: "queue_op q (finish_item_waiter w q)"

inductive queue_step :: "retry_queue \<Rightarrow> retry_queue \<Rightarrow> bool" where
  step_op: "queue_op q q' \<Longrightarrow> queue_step q q'"
| step_flush: "queue_step q (snd (flushPending ok (saved, q)))"

inductive queue_reachable :: "retry_queue \<Rightarrow> retry_queue \<Rightarrow> bool" for start where
  reach_start: "queue_reachable start start"
| reach_step: "queue_reachable start q \<Longrightarrow> queue_step q q' \<Longrightarrow> queue_reachable start q'"

inductive_cases queue_opE: "queue_op q q'"
inductive_cases queue_stepE: "queue_step q q'"

lemmas other_step_defs = recordPermanentDrop_def drainDroppedDelta_def restoreDroppedDelta_def
  waitForChange_def waitForItem_def waitForCapacityChange_def finish_item_waiter_def

text \<open>Every operation but the three that change the list keeps the list, the counters and the flush.\<close>

lemma queue_op_other:
  assumes "queue_op q q'"
  obtains item where "q' = enqueued item q"
  | item where "q' = snd (markDoneIfVersion item q)"
  | item where "q' = bumpAttempts item q"
  | "rq_items q' = rq_items q" "rq_nextVersion q' = rq_nextVersion q" "rq_highWater q' = rq_highWater q"
    "rq_maxItems q' = rq_maxItems q" "rq_flushActive q' = rq_flushActive q"
    "rq_pendingBlob q' = rq_pendingBlob q" "rq_writing q' = rq_writing q"
  using assms
  by (cases rule: queue_op.cases) (force simp: other_step_defs recordDrop_def split: option.splits)+

lemma queue_step_other:
  assumes "queue_step q q'"
  obtains item where "q' = enqueued item q"
  | item where "q' = snd (markDoneIfVersion item q)"
  | item where "q' = bumpAttempts item q"
  | "rq_items q' = rq_items q" "rq_nextVersion q' = rq_nextVersion q" "rq_highWater q' = rq_highWater q"
    "rq_maxItems q' = rq_maxItems q"
  using assms
proof (cases rule: queue_step.cases)
  case step_op
  then show ?thesis by (rule queue_op_other) (use that in blast)+
next
  case (step_flush ok saved)
  then show ?thesis by (intro that(4)) (simp_all add: flushPending_def split: option.splits)
qed

lemma queue_step_inv: "queue_step q q' \<Longrightarrow> queue_inv q \<Longrightarrow> queue_inv q'"
  by (erule queue_step_other)
    (auto simp: queue_inv_enqueued queue_inv_markDone queue_inv_bump, auto simp: queue_inv_def)

lemma queue_step_session_inv: "queue_step q q' \<Longrightarrow> session_inv q \<Longrightarrow> session_inv q'"
  by (erule queue_step_other)
    (auto simp: session_inv_enqueued session_inv_markDone session_inv_bump, auto simp: session_inv_def)

lemma queue_step_maxItems: "queue_step q q' \<Longrightarrow> rq_maxItems q' = rq_maxItems q"
  by (erule queue_step_other) (auto simp: enqueue_closed)

lemma reachable_inv: "queue_reachable start q \<Longrightarrow> queue_inv start \<Longrightarrow> queue_inv q"
  by (induction rule: queue_reachable.induct) (auto intro: queue_step_inv)

lemma reachable_session_inv: "queue_reachable start q \<Longrightarrow> session_inv start \<Longrightarrow> session_inv q"
  by (induction rule: queue_reachable.induct) (auto intro: queue_step_session_inv)

end
