(* ===== verification/QueueGuarantees.thy ===== *)
theory QueueGuarantees
  imports QueueInvariants
begin

text \<open>
  The guarantees of the retry queue that the daemon relies on: refinement of each module to a
  bounded latest-state queue, bounds and uniqueness in every reachable state, the version fence
  against stale completions, fairness of retries, drop accounting, and waiting for capacity.
\<close>

section \<open>Sample inputs\<close>

text \<open>A Skill edited and then removed, as the watcher enqueues it.\<close>

definition sample_op :: skill_input where
  "sample_op = \<lparr>in_enqueued_at = ''t0'', in_attempts = 0, in_skill_key = ''notes'',
     in_agent_id = ''agent'', in_project_id = ''project''\<rparr>"

definition sample_push :: queue_item_input where
  "sample_push = SkillPushInput sample_op ''hash''"

definition sample_delete :: queue_item_input where
  "sample_delete = SkillDeleteInput sample_op"

lemma sample_same_key: "sameKey (stampVersion sample_delete v) (stampVersion sample_push v')"
  by (simp add: sample_delete_def sample_push_def)

lemma queue_inv_new: "queue_inv (new_queue m)"
  by (simp add: queue_inv_def new_queue_def uniq_on_def)

lemma sample_queue_items: "rq_items (enqueued sample_push (new_queue None)) = [stampVersion sample_push 1]"
  by (simp add: enqueue_closed enqueue_excess_def enqueue_base_def new_queue_def DEFAULT_MAX_ITEMS_def)

section \<open>Refinement and bounds\<close>

lemma enqueue_base_module:
  "filter (\<lambda>e. isSkillOperation e = is_skill_input item) (enqueue_base item q) =
     remove_first (\<lambda>e. sameKey e (stampVersion item (rq_nextVersion q))) (module_items (is_skill_input item) q)
     @ [stampVersion item (rq_nextVersion q)]"
proof -
  have sub: "isSkillOperation x = is_skill_input item" if "sameKey x (stampVersion item (rq_nextVersion q))" for x
    using sameKey_module [OF that] by (simp add: same_module_def)
  show ?thesis
    using filter_remove_first_sub [where Q = "\<lambda>i. isSkillOperation i = is_skill_input item", OF sub]
    by (simp add: enqueue_base_def module_items_def)
qed

lemma enqueue_evicted:
  "snd (snd (enqueue item q)) =
     take (enqueue_excess item q)
       (remove_first (\<lambda>e. sameKey e (stampVersion item (rq_nextVersion q))) (module_items (is_skill_input item) q)
        @ [stampVersion item (rq_nextVersion q)])"
  "enqueue_excess item q =
     length (remove_first (\<lambda>e. sameKey e (stampVersion item (rq_nextVersion q)))
       (module_items (is_skill_input item) q) @ [stampVersion item (rq_nextVersion q)]) - rq_maxItems q"
  using enqueue_base_module [of item q]
  by (simp_all add: enqueue_closed same_module_def enqueue_excess_def)

text \<open>C1. \<open>enqueue\<close> refines a bounded latest-state queue on the new item's module: what the owner's
  \<open>onEvict\<close> is told about, followed by what stays, is the old module with the superseded entry
  taken out and the new item at the end, and what stays is its last \<open>maxItems\<close> entries. The other
  module is untouched, and the capacity counter of the module grows by exactly the evictions.\<close>

theorem enqueue_refines_latest:
  fixes item q
  defines "st \<equiv> stampVersion item (rq_nextVersion q)" and "b \<equiv> is_skill_input item"
  shows
    "module_items b (enqueued item q) = latest_enqueue sameKey (rq_maxItems q) st (module_items b q) \<and>
     module_items (\<not> b) (enqueued item q) = module_items (\<not> b) q \<and>
     snd (snd (enqueue item q)) @ module_items b (enqueued item q) =
       remove_first (\<lambda>e. sameKey e st) (module_items b q) @ [st] \<and>
     drop_count (rq_droppedByReason (enqueued item q)) r =
       drop_count (rq_droppedByReason q) r +
       (if r = evict_reason st then length (snd (snd (enqueue item q))) else 0)"
proof -
  let ?l = "remove_first (\<lambda>e. sameKey e st) (module_items b q) @ [st]"
  have ev: "snd (snd (enqueue item q)) = take (length ?l - rq_maxItems q) ?l"
    using enqueue_evicted [of item q] by (simp add: st_def b_def)
  have x: "enqueue_excess item q = length ?l - rq_maxItems q"
    using enqueue_evicted(2) [of item q] by (simp add: st_def b_def)
  have len: "length (snd (snd (enqueue item q))) = enqueue_excess item q"
    unfolding ev x length_take by (rule min.absorb2) (rule diff_le_self)
  have v: "module_items b (enqueued item q) = take_last (rq_maxItems q) ?l"
    unfolding b_def st_def module_items_enqueued latest_enqueue_def by simp
  show ?thesis
  proof (intro conjI)
    show "module_items b (enqueued item q) = latest_enqueue sameKey (rq_maxItems q) st (module_items b q)"
      by (simp add: v latest_enqueue_def)
    show "module_items (\<not> b) (enqueued item q) = module_items (\<not> b) q"
      by (simp add: module_items_enqueued b_def)
    show "snd (snd (enqueue item q)) @ module_items b (enqueued item q) = ?l"
      unfolding ev v by (rule take_append_take_last)
    show "drop_count (rq_droppedByReason (enqueued item q)) r =
       drop_count (rq_droppedByReason q) r +
       (if r = evict_reason st then length (snd (snd (enqueue item q))) else 0)"
      unfolding len st_def by (rule enqueue_closed(7))
  qed
qed

lemma length_module_markDone:
  "length (module_items b (snd (markDoneIfVersion item q))) \<le> length (module_items b q)"
  by (auto simp: module_items_def markDone_items length_filter_remove_first_le)

lemma length_module_bump: "length (module_items b (bumpAttempts item q)) = length (module_items b q)"
proof (cases rule: bumpAttempts_cases [where item = item and q = q])
  case (moved current)
  from remove_first_split [OF moved(1)] obtain ys zs
    where "rq_items q = ys @ current # zs" "remove_first (\<lambda>e. sameKey e item) (rq_items q) = ys @ zs" by blast
  then show ?thesis using moved(3) by (simp add: module_items_def)
qed simp

lemma queue_step_length:
  "queue_step q q' \<Longrightarrow> length (module_items b q') \<le> max (length (module_items b q)) (rq_maxItems q)"
proof (erule queue_step_other)
  fix item assume "q' = enqueued item q"
  then show ?thesis
    by (cases "is_skill_input item = b") (auto simp: module_items_enqueued latest_enqueue_def)
next
  fix item assume "q' = snd (markDoneIfVersion item q)"
  then show ?thesis by (simp add: length_module_markDone le_max_iff_disj)
next
  fix item assume "q' = bumpAttempts item q"
  then show ?thesis by (simp add: length_module_bump)
qed (simp add: module_items_def)

text \<open>C5. Capacity: in every queue the daemon can reach, each module holds at most \<open>maxItems\<close> items,
  or what the file already held when it was loaded.\<close>

theorem reachable_bounded:
  assumes "queue_reachable start q"
  shows "length (module_items b q) \<le> max (length (module_items b start)) (rq_maxItems start)"
proof -
  from assms have "length (module_items b q) \<le> max (length (module_items b start)) (rq_maxItems start)
      \<and> rq_maxItems q = rq_maxItems start"
  proof (induction rule: queue_reachable.induct)
    case (reach_step q q')
    then show ?case using queue_step_length [OF reach_step.hyps(2), of b] queue_step_maxItems [OF reach_step.hyps(2)]
      by (simp add: le_max_iff_disj) linarith
  qed simp
  then show ?thesis ..
qed

theorem reachable_bounded_witness:
  "queue_reachable (new_queue (Some 1)) (enqueued sample_push (new_queue (Some 1))) \<and>
   length (module_items True (enqueued sample_push (new_queue (Some 1)))) \<le>
     max (length (module_items True (new_queue (Some 1)))) (rq_maxItems (new_queue (Some 1)))"
proof -
  have "queue_reachable (new_queue (Some 1)) (enqueued sample_push (new_queue (Some 1)))"
    by (intro reach_step [OF reach_start] step_op op_enqueue)
  with reachable_bounded [OF this] show ?thesis by blast
qed

text \<open>C4. One pending operation per Skill: from a loaded file, whatever its content, no reachable
  queue holds two operations (push or delete) on the same \<open>skill_key\<close>, and every stamp in it is
  below the next version.\<close>

theorem reachable_skill_keys_distinct:
  assumes "queue_reachable (load parse saved (new_queue m)) q"
  shows "distinct (map item_skill_key (filter isSkillOperation (rq_items q))) \<and>
    (\<forall>i\<in>set (rq_items q). item_version i < rq_nextVersion q)"
  using reachable_inv [OF assms queue_inv_load]
  by (simp_all add: queue_inv_def skills_unique_distinct)

theorem reachable_skill_keys_distinct_witness:
  "distinct (map item_skill_key (filter isSkillOperation
     (rq_items (enqueued sample_delete (enqueued sample_push (load (\<lambda>_. None) (Some ''bad row'') (new_queue None)))))))"
proof -
  let ?q = "load (\<lambda>_. None) (Some ''bad row'') (new_queue None)"
  have "queue_reachable ?q (enqueued sample_delete (enqueued sample_push ?q))"
    by (rule reach_step [OF reach_step [OF reach_start step_op [OF op_enqueue]] step_op [OF op_enqueue]])
  from reachable_skill_keys_distinct [OF this] show ?thesis by blast
qed

section \<open>The version fence\<close>

text \<open>Every entry on the key of \<open>item\<close> is newer than \<open>item\<close>.\<close>

definition superseded :: "queue_item \<Rightarrow> retry_queue \<Rightarrow> bool" where
  "superseded item q \<longleftrightarrow>
     item_version item < rq_nextVersion q \<and>
     (\<forall>e\<in>set (rq_items q). sameKey e item \<longrightarrow> item_version item < item_version e)"

lemma superseded_step: "queue_step q q' \<Longrightarrow> superseded item q \<Longrightarrow> superseded item q'"
proof (erule queue_step_other)
  fix i assume "superseded item q" and "q' = enqueued i q"
  then show ?thesis using set_enqueued [of i q] by (fastforce simp: superseded_def enqueue_closed)
next
  fix i assume "superseded item q" and "q' = snd (markDoneIfVersion i q)"
  then show ?thesis using set_remove_first [of "\<lambda>e. sameKey e i" "rq_items q"]
    by (auto simp: superseded_def markDone_items)
next
  fix i assume s: "superseded item q" and q': "q' = bumpAttempts i q"
  show ?thesis unfolding superseded_def
  proof (intro conjI ballI impI)
    show "item_version item < rq_nextVersion q'" using s q' by (simp add: superseded_def)
    fix e assume "e \<in> set (rq_items q')" and k: "sameKey e item"
    from bump_members [OF this(1) [unfolded q']] obtain j where "j \<in> set (rq_items q)"
      "item_version e = item_version j" "e = j \<or> (\<exists>n. e = with_attempts n j)" by blast
    then show "item_version item < item_version e" using s k by (auto simp: superseded_def)
  qed
qed (simp add: superseded_def)

lemma superseded_reachable: "queue_reachable start q \<Longrightarrow> superseded item start \<Longrightarrow> superseded item q"
  by (induction rule: queue_reachable.induct) (auto intro: superseded_step)

lemma superseded_inert:
  assumes "superseded item q"
  shows "markDoneIfVersion item q = (False, q)" and "bumpAttempts item q = q"
  using assms find_index_SomeD [of "\<lambda>e. sameKey e item" "rq_items q"]
  by (fastforce simp: markDoneIfVersion_def bumpAttempts_def superseded_def split: option.splits)+

text \<open>The queues on which keys identify entries: every Skill key, and every session key when the
  session rows are fenced.\<close>

definition keyed :: "queue_item \<Rightarrow> retry_queue \<Rightarrow> bool" where
  "keyed item q \<longleftrightarrow> queue_inv q \<and> (isSkillOperation item \<or> session_inv q \<and> fenced_item item)"

lemma keyed_sameKey_unique:
  assumes "keyed item q"
  shows "sorted_wrt (\<lambda>a b. \<not> (sameKey a item \<and> sameKey b item)) (rq_items q)"
proof (cases "isSkillOperation item")
  case True
  have "skills_unique (rq_items q)" using assms by (simp add: keyed_def queue_inv_def)
  then show ?thesis unfolding uniq_on_def
    by (rule sorted_wrt_mono_rel [rotated]) (use True in \<open>auto simp: sameKey_skill2 sameKey_skill\<close>)
next
  case False
  with assms have inv: "session_inv q" "fenced_item item" by (auto simp: keyed_def)
  then have "uniq_on (\<lambda>_. True) (rq_items q)" by (simp add: session_inv_def)
  then show ?thesis unfolding uniq_on_def
  proof (rule sorted_wrt_mono_rel [rotated])
    fix a b assume ab: "a \<in> set (rq_items q)" "b \<in> set (rq_items q)" and n: "\<not> (True \<and> True \<and> sameKey a b)"
    then show "\<not> (sameKey a item \<and> sameKey b item)"
      using inv sameKey_trans [of a item b] sameKey_sym [of b item] by (auto simp: session_inv_def)
  qed
qed

lemma enqueue_supersedes:
  assumes k: "keyed item q" and v: "item_version item < rq_nextVersion q"
    and same: "sameKey (stampVersion input (rq_nextVersion q)) item"
  shows "superseded item (enqueued input q)"
proof -
  let ?st = "stampVersion input (rq_nextVersion q)"
  have eq: "sameKey e ?st = sameKey e item" if "e \<in> set (rq_items q)" for e
  proof (cases "isSkillOperation item")
    case True
    then show ?thesis using same by (auto simp: sameKey_skill2)
  next
    case False
    with k that have "fenced_item e" "fenced_item item" by (auto simp: keyed_def session_inv_def)
    then show ?thesis
      using same sameKey_trans [of e ?st item] sameKey_trans [of e item ?st] sameKey_sym [of ?st item]
      by (metis fenced_stampVersion)
  qed
  have "sorted_wrt (\<lambda>a b. \<not> (sameKey a ?st \<and> sameKey b ?st)) (rq_items q)"
    using keyed_sameKey_unique [OF k] by (rule sorted_wrt_mono_rel [rotated]) (simp add: eq)
  from remove_first_removes_all [OF this]
  have none: "\<forall>e\<in>set (remove_first (\<lambda>e. sameKey e ?st) (rq_items q)). \<not> sameKey e ?st" .
  have "e = ?st" if "e \<in> set (rq_items (enqueued input q))" "sameKey e item" for e
  proof -
    from that(1) have "e \<in> set (enqueue_base input q)"
      unfolding enqueue_closed by (rule subsetD [OF set_drop_matching])
    then consider "e = ?st" | "e \<in> set (remove_first (\<lambda>e. sameKey e ?st) (rq_items q))"
      by (auto simp: enqueue_base_def)
    then show ?thesis
    proof cases
      case 2
      then have "e \<in> set (rq_items q)" by (rule subsetD [OF set_remove_first])
      with eq [of e] that(2) bspec [OF none 2] show ?thesis by simp
    qed
  qed
  then have "item_version item < item_version e" if "e \<in> set (rq_items (enqueued input q))" "sameKey e item" for e
    using that v by (metis stampVersion_version)
  then show ?thesis using v enqueue_closed(4) [of input q] by (simp add: superseded_def)
qed

text \<open>C2. The version fence: once a newer state of a resource is enqueued, the completion of the older
  attempt that is still in the queue removes nothing and its retry bumps nothing, however the producers,
  the drain loop and the heartbeat interleave before it arrives. The newer content is never taken for
  pushed. For a Skill this holds in every queue the daemon can reach, whatever file it loaded; for a session
  it holds when every session row of the loaded file carries its fence, as all rows do that this daemon
  writes.\<close>

theorem stale_completion_inert:
  assumes "queue_reachable (load parse saved (new_queue m)) q"
    and "isSkillOperation item \<or> fenced_file parse saved"
    and "item \<in> set (rq_items q)" and "sameKey (stampVersion input (rq_nextVersion q)) item"
    and "queue_reachable (enqueued input q) later"
  shows "markDoneIfVersion item later = (False, later) \<and> bumpAttempts item later = later"
proof -
  have inv: "queue_inv q" by (rule reachable_inv [OF assms(1) queue_inv_load])
  have "session_inv q" if "fenced_file parse saved"
    by (rule reachable_session_inv [OF assms(1) session_inv_load [OF that]])
  then have "keyed item q" using inv assms(2,3) by (auto simp: keyed_def session_inv_def)
  moreover have "item_version item < rq_nextVersion q" using inv assms(3) by (simp add: queue_inv_def)
  ultimately show ?thesis using superseded_inert [OF superseded_reachable [OF assms(5) enqueue_supersedes]] assms(4) by simp
qed

theorem stale_completion_inert_witness:
  "markDoneIfVersion (stampVersion sample_push 1) (enqueued sample_delete (enqueued sample_push (load (\<lambda>_. None) None (new_queue None)))) =
     (False, enqueued sample_delete (enqueued sample_push (load (\<lambda>_. None) None (new_queue None))))"
proof -
  let ?q = "enqueued sample_push (load (\<lambda>_. None) None (new_queue None))"
  have start: "load (\<lambda>_. None) None (new_queue None) = new_queue None" by (simp add: load_def new_queue_def)
  have reach: "queue_reachable (load (\<lambda>_. None) None (new_queue None)) ?q"
    by (intro reach_step [OF reach_start] step_op op_enqueue)
  have "stampVersion sample_push 1 \<in> set (rq_items ?q)" unfolding start by (simp add: sample_queue_items)
  moreover have "isSkillOperation (stampVersion sample_push 1) \<or> fenced_file (\<lambda>_. None) None" by (simp add: fenced_file_def)
  ultimately show ?thesis using stale_completion_inert [OF reach _ _ sample_same_key reach_start] by blast
qed

text \<open>The condition on the file is needed. A row from before the fence shares its key with rows of two fenced
  sources; a later push replaces only the first row it shares a key with, so an older push of the same
  source stays beside it, and its completion still takes out an entry of that key, its own.\<close>

definition unfenced_rows :: "queue_item list" where
  "unfenced_rows =
     (let row = \<lparr>it_enqueued_at = ''t0'', it_attempts = 0, it_version = 1, se_profile_key = None, se_local_session_id = ''L1'',
            se_content_hash = ''old'', se_api_origin = None, se_environment_id = None, se_adapter = None, se_source_session_key = None\<rparr>
      in [SessionPush row,
          SessionPush (row\<lparr>it_version := 2, se_local_session_id := ''L2'', se_api_origin := Some ''o'', se_environment_id := Some ''e'',
            se_adapter := Some ''codex'', se_source_session_key := Some ''s''\<rparr>)])"

definition fenced_again :: queue_item_input where
  "fenced_again = SessionPushInput \<lparr>in_se_enqueued_at = ''t1'', in_se_attempts = 0, in_profile_key = None, in_local_session_id = ''L1'',
     in_content_hash = ''new'', in_api_origin = ''o'', in_environment_id = ''e'', in_adapter = ''codex'', in_source_session_key = ''s''\<rparr>"

lemma unfenced_row_defeats_fence:
  "let q = (new_queue None)\<lparr>rq_items := unfenced_rows, rq_nextVersion := 3\<rparr>; old = unfenced_rows ! 1; q1 = enqueued fenced_again q
   in sameKey (stampVersion fenced_again 3) old \<and> fst (markDoneIfVersion old q1) \<and> map item_version (rq_items q1) = [2, 3] \<and>
      map item_version (rq_items (snd (markDoneIfVersion old q1))) = [3]"
  by code_simp

lemma sorted_wrt_unique_match:
  assumes "sorted_wrt (\<lambda>a b. \<not> (P a \<and> P b)) xs" and "x \<in> set xs" and "P x"
  shows "List.find P xs = Some x" and "remove_first P xs = filter (\<lambda>y. \<not> P y) xs"
  using assms
proof (induction xs)
  case (Cons y ys)
  {
    case 1
    then show ?case using Cons by auto
  next
    case 2
    show ?case
    proof (cases "P y")
      case True
      with 2 have "\<forall>z\<in>set ys. \<not> P z" by auto
      then show ?thesis using True by simp
    next
      case False
      then show ?thesis using 2 Cons by auto
    qed
  }
qed simp_all

lemma markDone_current:
  assumes "keyed item q" and "item \<in> set (rq_items q)"
  shows "fst (markDoneIfVersion item q) \<and>
     rq_items (snd (markDoneIfVersion item q)) = filter (\<lambda>e. \<not> sameKey e item) (rq_items q) \<and>
     rq_capacityWaiters (snd (markDoneIfVersion item q)) = [] \<and>
     set (rq_capacityWaiters q) \<subseteq> set (rq_woken (snd (markDoneIfVersion item q)))"
proof -
  let ?P = "\<lambda>e. sameKey e item"
  note u = sorted_wrt_unique_match [OF keyed_sameKey_unique [OF assms(1)] assms(2) sameKey_refl]
  obtain i where i: "find_index ?P (rq_items q) = Some i"
    using assms(2) sameKey_refl find_index_None_iff [of ?P "rq_items q"] by fastforce
  from find_index_SomeD [OF i] have "List.find ?P (rq_items q) = Some (rq_items q ! i)"
    by (auto simp: find_Some_iff)
  with u(1) have "rq_items q ! i = item" by simp
  then show ?thesis
    using i u(2) by (simp add: markDoneIfVersion_def notifyCapacityWaiters_def remove_at_find_index)
qed

text \<open>Completing what is current: for an item still in the queue, \<open>markDoneIfVersion\<close> answers true
  and takes out exactly the entries on its key; every producer waiting for capacity is woken.\<close>

lemma current_completion_removes:
  assumes "keyed item q" and "item \<in> set (rq_items q)"
  shows "fst (markDoneIfVersion item q) \<and>
     rq_items (snd (markDoneIfVersion item q)) = filter (\<lambda>e. \<not> sameKey e item) (rq_items q) \<and>
     rq_capacityWaiters (snd (markDoneIfVersion item q)) = [] \<and>
     set (rq_capacityWaiters q) \<subseteq> set (rq_woken (snd (markDoneIfVersion item q)))"
  using markDone_current [OF assms] .

lemma current_completion_removes_witness:
  "fst (markDoneIfVersion (stampVersion sample_push 1) (enqueued sample_push (new_queue None))) \<and>
   rq_items (snd (markDoneIfVersion (stampVersion sample_push 1) (enqueued sample_push (new_queue None)))) = []"
proof -
  let ?q = "enqueued sample_push (new_queue None)"
  have "queue_inv ?q" by (rule queue_inv_enqueued [OF queue_inv_new])
  then have k: "keyed (stampVersion sample_push 1) ?q" by (simp add: keyed_def sample_push_def)
  from current_completion_removes [OF k] show ?thesis by (simp add: sample_queue_items)
qed

section \<open>Retries\<close>

text \<open>A failed attempt on the head of the queue.\<close>

definition retry_head :: "retry_queue \<Rightarrow> retry_queue" where
  "retry_head q = (case peek (\<lambda>_. True) q of None \<Rightarrow> q | Some item \<Rightarrow> bumpAttempts item q)"

abbreviation failed_once :: "queue_item \<Rightarrow> queue_item" where
  "failed_once i \<equiv> with_attempts (item_attempts i + 1) i"

lemma retry_head_rotates: "rq_items q = i # rest \<Longrightarrow> rq_items (retry_head q) = rest @ [failed_once i]"
  by (simp add: retry_head_def peek_def bumpAttempts_def Let_def remove_at_def)

text \<open>Retries are fair: when the drain loop fails on the head of the queue again and again, after
  as many failures as there are items every item has been tried exactly once, and the order is the
  one it started with. A broken resource never keeps healthy work waiting for its own retries.\<close>

lemma retries_round_robin:
  "rq_items ((retry_head ^^ length (rq_items q)) q) = map failed_once (rq_items q)"
proof -
  have "rq_items ((retry_head ^^ n) q) = drop n (rq_items q) @ map failed_once (take n (rq_items q))"
    if "n \<le> length (rq_items q)" for n
    using that
  proof (induction n)
    case (Suc n)
    then have "drop n (rq_items q) = rq_items q ! n # drop (Suc n) (rq_items q)"
      by (simp add: Cons_nth_drop_Suc)
    with Suc have "rq_items ((retry_head ^^ n) q) =
        rq_items q ! n # (drop (Suc n) (rq_items q) @ map failed_once (take n (rq_items q)))" by simp
    from retry_head_rotates [OF this] show ?case using Suc.prems by (simp add: take_Suc_conv_app_nth)
  qed simp
  from this [of "length (rq_items q)"] show ?thesis by simp
qed

section \<open>Drop accounting\<close>

lemma drop_count_Nil [simp]: "drop_count [] r = 0"
  by (simp add: drop_count_def)

lemma drop_count_restore_reason:
  "drop_count (restore_reason deltas r d) r' = drop_count d r' + (if r = r' then drop_count deltas r else 0)"
  by (auto simp: restore_reason_def drop_count_def split: option.splits)

lemma QUEUE_DROP_REASONS_complete: "set QUEUE_DROP_REASONS = UNIV" "distinct QUEUE_DROP_REASONS"
proof -
  have "r \<in> set QUEUE_DROP_REASONS" for r by (cases r) (simp_all add: QUEUE_DROP_REASONS_def)
  then show "set QUEUE_DROP_REASONS = UNIV" by auto
qed (simp add: QUEUE_DROP_REASONS_def)

lemma drop_count_fold_restore:
  "distinct rs \<Longrightarrow> drop_count (fold (restore_reason deltas) rs d) r =
     drop_count d r + (if r \<in> set rs then drop_count deltas r else 0)"
  by (induction rs arbitrary: d) (auto simp: drop_count_restore_reason)

text \<open>No drop is lost to a failed heartbeat: draining the counters for a heartbeat, working on
  (evictions and terminal drops of the meantime are in \<open>q'\<close>), and restoring the unsent counts gives
  for every reason the sum of the two.\<close>

lemma failed_heartbeat_keeps_drops:
  "drop_count (rq_droppedByReason (snd (drainDroppedDelta q))) r = 0 \<and>
   drop_count (rq_droppedByReason (restoreDroppedDelta (fst (drainDroppedDelta q)) q')) r =
     drop_count (rq_droppedByReason q) r + drop_count (rq_droppedByReason q') r"
  using drop_count_fold_restore [OF QUEUE_DROP_REASONS_complete(2), of "rq_droppedByReason q"]
  by (simp add: drainDroppedDelta_def restoreDroppedDelta_def QUEUE_DROP_REASONS_complete(1) drop_count_Nil)

section \<open>Waiting for capacity\<close>

lemma enqueue_keeps_without_excess:
  assumes "enqueue_excess item q = 0"
  shows "snd (snd (enqueue item q)) = []" and "rq_items (enqueued item q) = enqueue_base item q"
  using assms by (simp_all add: enqueue_closed)

lemma no_excess_when_available:
  assumes "list_ex (\<lambda>e. sameKey e (stampVersion item (rq_nextVersion q))) (rq_items q) \<or>
      moduleDepth (stampVersion item (rq_nextVersion q)) q < rq_maxItems q"
    and "moduleDepth (stampVersion item (rq_nextVersion q)) q \<le> rq_maxItems q"
  shows "enqueue_excess item q = 0"
proof -
  let ?P = "\<lambda>e. sameKey e (stampVersion item (rq_nextVersion q))"
  let ?m = "module_items (is_skill_input item) q"
  have d: "moduleDepth (stampVersion item (rq_nextVersion q)) q = length ?m"
    by (simp add: moduleDepth_module_items)
  have "length (remove_first ?P ?m) < rq_maxItems q"
  proof (cases "length ?m < rq_maxItems q")
    case True
    then show ?thesis using length_remove_first_le [of ?P ?m] by simp
  next
    case False
    with assms d obtain e where e: "e \<in> set (rq_items q)" "?P e" by (auto simp: list_ex_iff)
    then have "e \<in> set ?m" using sameKey_module [OF e(2)] by (simp add: module_items_def same_module_def)
    with e have "Suc (length (remove_first ?P ?m)) = length ?m" by (intro length_remove_first) auto
    then show ?thesis using assms(2) d by simp
  qed
  then show ?thesis by (simp add: enqueue_evicted(2))
qed

text \<open>Reconciliation never evicts: when every queue \<open>enqueueWhenAvailable\<close> looks at is within its
  bound, an item it enqueues costs no other entry, it gives up only on an aborted signal, and it
  keeps waiting exactly when no turn was aborted and each one found the module full and no entry
  to replace.\<close>

lemma enqueueWhenAvailable_never_evicts:
  assumes "\<forall>(aborted, q)\<in>set turns. moduleDepth (stampVersion item (rq_nextVersion q)) q \<le> rq_maxItems q"
  shows "case enqueueWhenAvailable item turns of
      None \<Rightarrow> \<forall>(aborted, q)\<in>set turns. \<not> aborted \<and>
        moduleDepth (stampVersion item (rq_nextVersion q)) q = rq_maxItems q \<and>
        \<not> list_ex (\<lambda>e. sameKey e (stampVersion item (rq_nextVersion q))) (rq_items q)
    | Some None \<Rightarrow> \<exists>q. (True, q) \<in> set turns
    | Some (Some (version, q', evicted)) \<Rightarrow> evicted = [] \<and>
        (\<exists>q. (False, q) \<in> set turns \<and> version = rq_nextVersion q \<and>
          rq_items q' = remove_first (\<lambda>e. sameKey e (stampVersion item version)) (rq_items q)
            @ [stampVersion item version])"
  using assms
proof (induction turns)
  case (Cons t turns)
  obtain aborted q where t: "t = (aborted, q)" by (cases t)
  let ?st = "stampVersion item (rq_nextVersion q)"
  let ?go = "list_ex (\<lambda>e. sameKey e ?st) (rq_items q) \<or> moduleDepth ?st q < rq_maxItems q"
  consider "aborted" | "\<not> aborted" "?go" | "\<not> aborted" "\<not> ?go" by blast
  then show ?case
  proof cases
    case 2
    then have x: "enqueue_excess item q = 0" using Cons.prems t by (intro no_excess_when_available) auto
    obtain v q' ev where eq: "enqueue item q = (v, q', ev)" by (cases "enqueue item q")
    have "v = rq_nextVersion q" using enqueue_closed(1) [of item q] eq by simp
    moreover have "ev = []" "rq_items q' = enqueue_base item q"
      using enqueue_keeps_without_excess [OF x] eq by simp_all
    ultimately show ?thesis using 2 t eq by (auto simp: Let_def enqueue_base_def)
  next
    case 3
    have le: "moduleDepth ?st q \<le> rq_maxItems q" using Cons.prems t by auto
    from 3 have "enqueueWhenAvailable item (t # turns) = enqueueWhenAvailable item turns"
      by (simp add: t Let_def)
    moreover have "moduleDepth ?st q = rq_maxItems q" "\<not> list_ex (\<lambda>e. sameKey e ?st) (rq_items q)"
      using 3 le by auto
    ultimately show ?thesis using Cons 3 t by (auto split: option.splits)
  qed (use t in auto)
qed simp

lemma enqueueWhenAvailable_never_evicts_witness:
  "case enqueueWhenAvailable sample_push [(False, new_queue None)] of
     Some (Some (version, q', evicted)) \<Rightarrow> evicted = [] \<and> length (rq_items q') = 1 | _ \<Rightarrow> False"
proof -
  have "\<forall>(aborted, q)\<in>set [(False, new_queue None)].
      moduleDepth (stampVersion sample_push (rq_nextVersion q)) q \<le> rq_maxItems q"
    by (simp add: moduleDepth_def new_queue_def)
  from enqueueWhenAvailable_never_evicts [OF this]
  show ?thesis
    by (simp add: moduleDepth_def new_queue_def DEFAULT_MAX_ITEMS_def Let_def split: prod.splits)
qed

end
