(* ===== verification/QueuePersistence.thy ===== *)
theory QueuePersistence
  imports QueueGuarantees JsonCodec
begin

text \<open>
  The queue on disk: what the type predicate lets in, the round trip of a row and of the whole
  file through \<open>JSON.stringify\<close>, \<open>JSON.parse\<close> and \<open>load\<close>, and the coalescing flush, whose last
  write is the last state of the queue.
\<close>

section \<open>Rows\<close>

text \<open>The items the daemon can hold: what \<open>isQueueItem\<close> accepts.\<close>

definition no_empty_id :: "skill_operation \<Rightarrow> bool" where
  "no_empty_id s \<longleftrightarrow> sk_agent_id s \<noteq> Some [] \<and> sk_project_id s \<noteq> Some []"

fun storable :: "queue_item \<Rightarrow> bool" where
  "storable (SkillPush s h) = (isValidSkillKey (sk_skill_key s) \<and> no_empty_id s)"
| "storable (SkillDelete s) =
     (isValidSkillKey (sk_skill_key s) \<and> no_empty_id s \<and> sk_agent_id s \<noteq> None \<and> sk_project_id s \<noteq> None)"
| "storable (SessionPush s) = (case se_adapter s of None \<Rightarrow> True | Some a \<Rightarrow> a \<in> set AGENT_TYPES)"

definition safe_item :: "queue_item \<Rightarrow> bool" where
  "safe_item i \<longleftrightarrow> safe_integer (item_attempts i) \<and> safe_integer (item_version i)"

lemmas row_defs = base_fields_def skill_fields_def session_fields_def opt_field_def

lemma jprop_base:
  "jprop (JObj (base_fields kind i @ fs)) ''kind'' = Some (JStr kind)"
  "jprop (JObj (base_fields kind i @ fs)) ''enqueued_at'' = Some (JStr (it_enqueued_at i))"
  "jprop (JObj (base_fields kind i @ fs)) ''attempts'' = Some (JNum (it_attempts i))"
  "jprop (JObj (base_fields kind i @ fs)) ''version'' = Some (JNum (it_version i))"
  by (simp_all add: base_fields_def)

lemma map_of_opt_field: "map_of (opt_field k v @ fs) k' = (if k' = k \<and> v \<noteq> None then map_option JStr v else map_of fs k')"
  by (auto simp: opt_field_def split: option.splits)

lemma as_string_map_JStr [simp]: "as_string (map_option JStr v) = v"
  by (cases v) simp_all

lemma optional_string_map_JStr [simp]: "optional_string (map_option JStr v)"
  by (cases v) (simp_all add: optional_string_def)

lemma item_json_ok: "safe_item i \<Longrightarrow> json_ok (item_json i)"
  by (cases i) (auto simp: safe_item_def item_attempts_def item_version_def item_base.truncate_def row_defs
      plain_key_def split: option.splits)

lemma skill_row_lookup:
  assumes "r = JObj (base_fields kind s @ skill_fields s @ hash)" "map_of hash ''agent_id'' = None" "map_of hash ''project_id'' = None"
  shows "jprop r ''skill_key'' = Some (JStr (sk_skill_key s))"
    "jprop r ''agent_id'' = map_option JStr (sk_agent_id s)"
    "jprop r ''project_id'' = map_option JStr (sk_project_id s)"
    "jprop r ''new_hash'' = map_of hash ''new_hash''"
  using assms by (auto simp: base_fields_def skill_fields_def map_of_opt_field opt_field_def split: option.splits)

lemma skill_of_json_row:
  assumes "r = JObj (base_fields kind s @ skill_fields s @ hash)" "map_of hash ''agent_id'' = None" "map_of hash ''project_id'' = None"
  shows "skill_of_json r = s"
  using jprop_base [of kind s "skill_fields s @ hash"] skill_row_lookup [OF assms] assms(1)
  by (simp add: skill_of_json_def str_prop_def num_prop_def)

lemma session_row_lookup:
  assumes "r = JObj (base_fields kind s @ session_fields s)"
  shows "jprop r ''local_session_id'' = Some (JStr (se_local_session_id s))"
    "jprop r ''content_hash'' = Some (JStr (se_content_hash s))"
    "jprop r ''profile_key'' = map_option JStr (se_profile_key s)"
    "jprop r ''api_origin'' = map_option JStr (se_api_origin s)"
    "jprop r ''environment_id'' = map_option JStr (se_environment_id s)"
    "jprop r ''adapter'' = map_option JStr (se_adapter s)"
    "jprop r ''source_session_key'' = map_option JStr (se_source_session_key s)"
  using assms by (auto simp: base_fields_def session_fields_def map_of_opt_field opt_field_def split: option.splits)

lemma session_of_json_row:
  assumes "r = JObj (base_fields kind s @ session_fields s)"
  shows "session_of_json r = s"
  using jprop_base [of kind s "session_fields s"] session_row_lookup [OF assms] assms
  by (simp add: session_of_json_def str_prop_def num_prop_def)

lemma isSkillItem_row:
  assumes "r = JObj (base_fields kind s @ skill_fields s @ hash)" "map_of hash ''agent_id'' = None" "map_of hash ''project_id'' = None"
    and "isValidSkillKey (sk_skill_key s)" "no_empty_id s"
    and "push \<Longrightarrow> is_string (map_of hash ''new_hash'')"
    and "\<not> push \<Longrightarrow> sk_agent_id s \<noteq> None \<and> sk_project_id s \<noteq> None"
  shows "isSkillItem r push"
  using assms(4-) by (auto simp: isSkillItem_def skill_row_lookup [OF assms(1-3)] no_empty_id_def)

lemma item_json_row:
  assumes "storable i"
  shows "isQueueItem (item_json i) \<and> normalized (item_json i) = i"
proof (cases i)
  case (SkillPush s h)
  have r: "item_json i = JObj (base_fields ''skill_push'' s @ skill_fields s @ [(''new_hash'', JStr h)])"
    by (simp add: SkillPush)
  have "isSkillItem (item_json i) True"
    by (rule isSkillItem_row [OF r]) (use assms SkillPush in auto)
  then show ?thesis
    using SkillPush skill_of_json_row [OF r] skill_row_lookup(4) [OF r]
      jprop_base [of "''skill_push''" s "skill_fields s @ [(''new_hash'', JStr h)]"]
    by (simp add: isQueueItem_def normalized_def str_prop_def)
next
  case (SkillDelete s)
  have r: "item_json i = JObj (base_fields ''skill_delete'' s @ skill_fields s @ [])" by (simp add: SkillDelete)
  have "isSkillItem (item_json i) False"
    by (rule isSkillItem_row [OF r]) (use assms SkillDelete in auto)
  then show ?thesis
    using SkillDelete skill_of_json_row [OF r] jprop_base [of "''skill_delete''" s "skill_fields s"]
    by (simp add: isQueueItem_def normalized_def)
next
  case (SessionPush s)
  have r: "item_json i = JObj (base_fields ''session_push'' s @ session_fields s)" by (simp add: SessionPush)
  have "isSessionItem (item_json i)"
    using assms [unfolded SessionPush] unfolding isSessionItem_def session_row_lookup [OF r]
    by (cases "se_adapter s") (simp_all add: isAgentType_def)
  then show ?thesis
    using SessionPush session_of_json_row [OF r] jprop_base [of "''session_push''" s "session_fields s"]
    by (simp add: isQueueItem_def normalized_def)
qed

text \<open>The converse: nothing else gets past the predicate.\<close>

lemma isQueueItem_storable: "isQueueItem j \<Longrightarrow> storable (normalized j)"
  by (auto simp: isQueueItem_def isSkillItem_def isSessionItem_def normalized_def skill_of_json_def
      session_of_json_def str_prop_def no_empty_id_def isAgentType_def split: if_splits option.splits)

text \<open>The properties of a row of each kind, and what an accepted row has of them: reading it as an item and
  writing that item gives every property back as it was. Only the version may be missing; it is read as 0.\<close>

definition row_fields :: "queue_item \<Rightarrow> string list" where
  "row_fields i =
     [''kind'', ''enqueued_at'', ''attempts''] @
     (case i of
        SkillPush _ _ \<Rightarrow> [''skill_key'', ''agent_id'', ''project_id'', ''new_hash'']
      | SkillDelete _ \<Rightarrow> [''skill_key'', ''agent_id'', ''project_id'']
      | SessionPush _ \<Rightarrow> [''local_session_id'', ''content_hash'', ''profile_key'', ''api_origin'', ''environment_id'', ''adapter'', ''source_session_key''])"

definition reads_faithfully :: "json \<Rightarrow> bool" where
  "reads_faithfully j \<longleftrightarrow>
     list_all (\<lambda>k. jprop (item_json (normalized j)) k = jprop j k) (row_fields (normalized j)) \<and>
     (jprop j ''version'' = None \<and> item_version (normalized j) = 0 \<or> jprop j ''version'' = Some (JNum (item_version (normalized j))))"

lemma string_read [simp]: "is_string v \<Longrightarrow> Some (JStr (or_else (as_string v) [])) = v"
  by (cases v rule: as_string.cases) auto

lemma number_read [simp]: "is_number v \<Longrightarrow> Some (JNum (or_else (as_number v) 0)) = v"
  by (cases v rule: as_number.cases) auto

lemma optional_read [simp]: "v = None \<or> is_string v \<Longrightarrow> map_option JStr (as_string v) = v"
  by (cases v rule: as_string.cases) auto

lemma isAgentType_string: "isAgentType v \<Longrightarrow> is_string v"
  by (cases v rule: as_string.cases) (auto simp: isAgentType_def)

lemma version_read:
  assumes "jprop j ''version'' = None \<or> is_number (jprop j ''version'')"
  shows "jprop j ''version'' = None \<and> num_prop j ''version'' = 0 \<or> jprop j ''version'' = Some (JNum (num_prop j ''version''))"
  using assms by (auto simp: num_prop_def)

lemma accepted_base:
  assumes "isQueueItem j"
  shows "is_string (jprop j ''kind'')" "is_string (jprop j ''enqueued_at'')" "is_number (jprop j ''attempts'')"
    "jprop j ''version'' = None \<or> is_number (jprop j ''version'')"
  using assms by (auto simp: isQueueItem_def split: if_splits)

lemma accepted_skill:
  assumes "isSkillItem j push"
  shows "is_string (jprop j ''skill_key'')" "jprop j ''agent_id'' = None \<or> is_string (jprop j ''agent_id'')"
    "jprop j ''project_id'' = None \<or> is_string (jprop j ''project_id'')" "push \<Longrightarrow> is_string (jprop j ''new_hash'')"
  using assms by (auto simp: isSkillItem_def split: if_splits)

lemma accepted_session:
  assumes "isSessionItem j"
  shows "is_string (jprop j ''local_session_id'')" "is_string (jprop j ''content_hash'')"
    "\<forall>k\<in>set [''profile_key'', ''api_origin'', ''environment_id'', ''adapter'', ''source_session_key'']. jprop j k = None \<or> is_string (jprop j k)"
  using assms isAgentType_string [of "jprop j ''adapter''"] by (auto simp: isSessionItem_def optional_string_def split: if_splits)

lemma base_row_lookup:
  assumes "r = JObj (base_fields kind i @ fs)"
  shows "jprop r ''kind'' = Some (JStr kind)" "jprop r ''enqueued_at'' = Some (JStr (it_enqueued_at i))"
    "jprop r ''attempts'' = Some (JNum (it_attempts i))"
  using jprop_base [of kind i fs] assms by simp_all

lemma isQueueItem_faithful: "isQueueItem j \<Longrightarrow> reads_faithfully j"
proof -
  assume a: "isQueueItem j"
  note base = accepted_base [OF a] version_read [OF accepted_base(4) [OF a]]
  consider (push) "jprop j ''kind'' = Some (JStr ''skill_push'')" "isSkillItem j True"
    | (delete) "jprop j ''kind'' = Some (JStr ''skill_delete'')" "isSkillItem j False"
    | (session) "jprop j ''kind'' = Some (JStr ''session_push'')" "isSessionItem j"
    using a by (auto simp: isQueueItem_def split: if_splits)
  then show ?thesis
  proof cases
    case push
    let ?s = "skill_of_json j" and ?h = "str_prop j ''new_hash''"
    have n: "normalized j = SkillPush ?s ?h" using push by (simp add: normalized_def)
    obtain r where r: "r = JObj (base_fields ''skill_push'' ?s @ skill_fields ?s @ [(''new_hash'', JStr ?h)])" by simp
    then have "item_json (normalized j) = r" by (simp add: n)
    moreover have "jprop r ''new_hash'' = Some (JStr ?h)" using skill_row_lookup(4) [OF r] by simp
    ultimately show ?thesis
      using push(1) base accepted_skill [OF push(2)] base_row_lookup [OF r] skill_row_lookup(1-3) [OF r]
      unfolding reads_faithfully_def row_fields_def
      by (simp add: n skill_of_json_def str_prop_def num_prop_def item_version_def item_base.truncate_def)
  next
    case delete
    let ?s = "skill_of_json j"
    have n: "normalized j = SkillDelete ?s" using delete by (simp add: normalized_def)
    obtain r where r: "r = JObj (base_fields ''skill_delete'' ?s @ skill_fields ?s @ [])" by simp
    then have "item_json (normalized j) = r" by (simp add: n)
    then show ?thesis
      using delete(1) base accepted_skill [OF delete(2)] base_row_lookup [OF r] skill_row_lookup(1-3) [OF r]
      unfolding reads_faithfully_def row_fields_def
      by (simp add: n skill_of_json_def str_prop_def num_prop_def item_version_def item_base.truncate_def)
  next
    case session
    let ?s = "session_of_json j"
    have n: "normalized j = SessionPush ?s" using session by (simp add: normalized_def)
    obtain r where r: "r = JObj (base_fields ''session_push'' ?s @ session_fields ?s)" by simp
    then have "item_json (normalized j) = r" by (simp add: n)
    then show ?thesis
      using session(1) base accepted_session [OF session(2)] base_row_lookup [OF r] session_row_lookup [OF r]
      unfolding reads_faithfully_def row_fields_def
      by (simp add: n session_of_json_def str_prop_def num_prop_def item_version_def item_base.truncate_def)
  qed
qed

text \<open>C6. The type predicate is exact: an item whose identity is well formed is accepted and read back
  unchanged; and whatever is accepted from disk, however it was produced, is read without loss, every
  property of its kind as it stands in the row and none replaced by a default (only a missing version is
  read as 0), and has a valid Skill key, no empty identity, a complete fence on deletes and a known adapter.\<close>

theorem isQueueItem_exact:
  "(storable i \<longrightarrow> isQueueItem (item_json i) \<and> normalized (item_json i) = i) \<and>
   (isQueueItem j \<longrightarrow> storable (normalized j) \<and> reads_faithfully j)"
  using item_json_row isQueueItem_storable isQueueItem_faithful by blast

lemma storable_sample: "storable (stampVersion sample_push 1)" "safe_item (stampVersion sample_push 1)"
proof -
  have "isValidSkillKey ''notes''" by code_simp
  then show "storable (stampVersion sample_push 1)"
    by (simp add: sample_push_def sample_op_def no_empty_id_def)
  show "safe_item (stampVersion sample_push 1)"
    by (simp add: sample_push_def sample_op_def safe_item_def safe_integer_def item_attempts_def item_version_def
        item_base.truncate_def)
qed

theorem isQueueItem_exact_witness:
  "isQueueItem (item_json (stampVersion sample_push 1)) \<and>
   normalized (item_json (stampVersion sample_push 1)) = stampVersion sample_push 1"
  using isQueueItem_exact [of "stampVersion sample_push 1"] storable_sample(1) by blast

section \<open>Files\<close>

lemma queue_blob_lines:
  "filter (\<lambda>l. l \<noteq> []) (split_on newline (queue_blob its)) = map (\<lambda>i. stringify (item_json i)) its"
proof (cases its)
  case Nil
  then show ?thesis by (simp add: queue_blob_def)
next
  case (Cons a as)
  let ?ls = "map (\<lambda>i. stringify (item_json i)) its"
  have "queue_blob its = join_with [newline] (?ls @ [[]])"
    using join_with_snoc_Nil [of ?ls "[newline]"] Cons by (simp add: queue_blob_def)
  moreover have "split_on newline (join_with [newline] (?ls @ [[]])) = ?ls @ [[]]"
    by (rule split_on_join) (auto simp: no_newline_stringify)
  moreover have "filter (\<lambda>l. l \<noteq> []) ?ls = ?ls" using stringify_not_Nil by (simp add: filter_id_conv)
  ultimately show ?thesis by simp
qed

context json_codec
begin

lemma load_line_row:
  assumes "storable i" "safe_item i" "\<forall>e\<in>set (rq_items q). \<not> sameKey e i"
  shows "load_line parse (stringify (item_json i)) (q, d) = (q\<lparr>rq_items := rq_items q @ [i]\<rparr>, d)"
proof -
  have "find_index (\<lambda>e. sameKey e i) (rq_items q) = None" using assms(3) by (simp add: find_index_None_iff)
  then show ?thesis
    using parse_stringify [OF item_json_ok [OF assms(2)]] item_json_row [OF assms(1)]
    by (simp add: load_line_def Let_def)
qed

lemma load_rows:
  assumes "\<forall>i\<in>set its. storable i \<and> safe_item i" "uniq_on (\<lambda>_. True) (rq_items q @ its)"
  shows "fold (load_line parse) (map (\<lambda>i. stringify (item_json i)) its) (q, d) =
    (q\<lparr>rq_items := rq_items q @ its\<rparr>, d)"
  using assms
proof (induction its arbitrary: q)
  case (Cons i its)
  have "\<forall>e\<in>set (rq_items q). \<not> sameKey e i" using Cons.prems by (simp add: uniq_on_def sorted_wrt_append)
  with Cons.prems have "load_line parse (stringify (item_json i)) (q, d) = (q\<lparr>rq_items := rq_items q @ [i]\<rparr>, d)"
    by (intro load_line_row) auto
  with Cons.IH [of "q\<lparr>rq_items := rq_items q @ [i]\<rparr>"] Cons.prems show ?case by simp
qed simp

lemma load_blob:
  assumes "\<forall>i\<in>set its. storable i \<and> safe_item i" "uniq_on (\<lambda>_. True) its"
  shows "load parse (Some (queue_blob its)) q =
    q\<lparr>rq_items := its, rq_nextVersion := max_version its + 1, rq_highWater := max (rq_highWater q) (length its)\<rparr>"
  using load_rows [OF assms(1), of "q\<lparr>rq_items := []\<rparr>" 0] assms(2)
  by (simp add: load_def Let_def queue_blob_lines)

end

text \<open>The file round trip: loading what \<open>persist\<close> wrote gives back exactly the pending items in
  their order, drops nothing, starts no rewrite, and stamps new items above every loaded one.\<close>

lemma persist_load_roundtrip:
  assumes "\<And>j. json_ok j \<Longrightarrow> parse (stringify j) = Some j"
    and "\<forall>i\<in>set its. storable i \<and> safe_item i" and "uniq_on (\<lambda>_. True) its"
  shows "load parse (Some (queue_blob its)) (new_queue m) =
    (new_queue m)\<lparr>rq_items := its, rq_nextVersion := max_version its + 1, rq_highWater := length its\<rparr> \<and>
    (\<forall>i\<in>set its. item_version i < max_version its + 1)"
proof -
  have "json_codec parse" by unfold_locales (rule assms(1))
  from json_codec.load_blob [OF this assms(2,3), of "new_queue m"] max_version_ge [of _ its]
  show ?thesis by (simp add: new_queue_def less_le_trans)
qed

lemma persist_load_roundtrip_witness:
  "rq_items (load json_parse (Some (queue_blob [stampVersion sample_push 1])) (new_queue None)) =
     [stampVersion sample_push 1]"
proof -
  have "\<forall>i\<in>set [stampVersion sample_push 1]. storable i \<and> safe_item i" using storable_sample by simp
  from persist_load_roundtrip [OF parser.parse_stringify this, of None] show ?thesis by (simp add: uniq_on_def)
qed

section \<open>The flush\<close>

text \<open>The fields of a flush between two turns of the event loop: a write is under way exactly while
  \<open>flushActive\<close> is set, and a waiting snapshot has a flush to pick it up.\<close>

definition flush_wf :: "retry_queue \<Rightarrow> bool" where
  "flush_wf q \<longleftrightarrow> (rq_flushActive q \<longleftrightarrow> rq_writing q \<noteq> None) \<and> (rq_pendingBlob q \<noteq> None \<longrightarrow> rq_flushActive q)"

text \<open>What is on its way to the file: the last snapshot taken is that of the items as they are.\<close>

definition flush_inv :: "retry_queue \<Rightarrow> bool" where
  "flush_inv q \<longleftrightarrow> flush_wf q \<and>
     (case rq_pendingBlob q of Some b \<Rightarrow> b = queue_blob (rq_items q)
      | None \<Rightarrow> (case rq_writing q of Some b \<Rightarrow> b = queue_blob (rq_items q) | None \<Rightarrow> True))"

definition same_flush :: "retry_queue \<Rightarrow> retry_queue \<Rightarrow> bool" where
  "same_flush q q' \<longleftrightarrow> rq_flushActive q' = rq_flushActive q \<and> rq_pendingBlob q' = rq_pendingBlob q \<and>
     rq_writing q' = rq_writing q"

lemma flush_inv_persist:
  assumes "flush_wf q" and "same_flush q q1" and "same_flush (persist q1) q2" and "rq_items q2 = rq_items q1"
  shows "flush_inv q2"
  using assms
  by (auto simp: flush_inv_def flush_wf_def same_flush_def persist_def flush_next_def Let_def split: option.splits)

lemma same_flush_iter: "same_flush q ((recordDrop r ^^ k) q)"
  by (induction k) (auto simp: same_flush_def recordDrop_def)

lemma same_flush_evict: "same_flush q (fst (evictIfFull item q))"
  unfolding evictIfFull_closed [OF refl] fst_conv
  using same_flush_iter by (fastforce simp: same_flush_def recordDrop_iter_items)

lemma same_flush_trans: "same_flush a b \<Longrightarrow> same_flush b c \<Longrightarrow> same_flush a c"
  by (simp add: same_flush_def)

lemma same_flush_update [simp]:
  "same_flush q (q'\<lparr>rq_items := xs\<rparr>) = same_flush q q'" "same_flush q (q'\<lparr>rq_nextVersion := v\<rparr>) = same_flush q q'"
  "same_flush q (q'\<lparr>rq_highWater := h\<rparr>) = same_flush q q'" "same_flush q q"
  by (simp_all add: same_flush_def)

text \<open>The three operations that change the list end with a \<open>persist\<close> of the new one.\<close>

lemma enqueued_persists: "\<exists>q1. same_flush q q1 \<and> enqueued item q = notifyItemWaiters (persist q1)"
proof -
  let ?st = "stampVersion item (rq_nextVersion q)"
  have "\<exists>q3. same_flush q q3 \<and> enqueued item q =
       notifyItemWaiters (persist ((fst (evictIfFull ?st q3))\<lparr>rq_highWater :=
         max (rq_highWater (fst (evictIfFull ?st q3))) (length (rq_items (fst (evictIfFull ?st q3))))\<rparr>))"
    unfolding enqueue_def Let_def case_prod_unfold fst_conv snd_conv
    by (rule exI, rule conjI [OF _ refl]) (simp split: option.split)
  then obtain q3 where q3: "same_flush q q3"
    and eq: "enqueued item q =
       notifyItemWaiters (persist ((fst (evictIfFull ?st q3))\<lparr>rq_highWater :=
         max (rq_highWater (fst (evictIfFull ?st q3))) (length (rq_items (fst (evictIfFull ?st q3))))\<rparr>))" by blast
  from same_flush_trans [OF q3 same_flush_evict [of q3 ?st]] eq show ?thesis
    by (metis same_flush_update(3))
qed

lemma markDone_persists:
  "snd (markDoneIfVersion item q) = q \<or>
   (\<exists>q1. same_flush q q1 \<and> snd (markDoneIfVersion item q) = notifyCapacityWaiters (persist q1))"
  unfolding markDoneIfVersion_def by (cases "find_index (\<lambda>e. sameKey e item) (rq_items q)")
    (simp_all, use same_flush_update in metis)

lemma bumpAttempts_persists: "bumpAttempts item q = q \<or> (\<exists>q1. same_flush q q1 \<and> bumpAttempts item q = persist q1)"
  unfolding bumpAttempts_def Let_def by (cases "find_index (\<lambda>e. sameKey e item) (rq_items q)")
    (simp_all, use same_flush_update in metis)

lemma flush_inv_op:
  assumes "queue_op q q'" and inv: "flush_inv q"
  shows "flush_inv q'"
  using assms(1)
proof (cases rule: queue_op_other)
  case (1 item)
  obtain q1 where "same_flush q q1" "enqueued item q = notifyItemWaiters (persist q1)"
    using enqueued_persists by blast
  with 1 inv show ?thesis
    by (intro flush_inv_persist [of q q1]) (auto simp: flush_inv_def same_flush_def notifyItemWaiters_def)
next
  case (2 item)
  with markDone_persists [of item q] consider "q' = q" | q1 where "same_flush q q1" "q' = notifyCapacityWaiters (persist q1)"
    by blast
  then show ?thesis
  proof cases
    case (2 q1)
    with inv show ?thesis
      by (intro flush_inv_persist [of q q1]) (auto simp: flush_inv_def same_flush_def notifyCapacityWaiters_def)
  qed (use inv in simp)
next
  case (3 item)
  with bumpAttempts_persists [of item q] consider "q' = q" | q1 where "same_flush q q1" "q' = persist q1"
    by blast
  then show ?thesis
  proof cases
    case (2 q1)
    with inv show ?thesis
      by (intro flush_inv_persist [of q q1]) (auto simp: flush_inv_def same_flush_def)
  qed (use inv in simp)
next
  case 4
  from inv show ?thesis unfolding flush_inv_def flush_wf_def 4 .
qed

lemma flushPending_inv: "flush_inv q \<Longrightarrow> flush_inv (snd (flushPending ok (saved, q)))"
  by (auto simp: flush_inv_def flush_wf_def flushPending_def flush_next_def split: option.splits)

lemma flushPending_items: "rq_items (snd (flushPending ok (saved, q))) = rq_items q"
  by (auto simp: flushPending_def flush_next_def split: option.splits)

text \<open>Two writes, the one under way and the one waiting behind it, settle the file.\<close>

lemma flushPending_settles:
  "flush_inv q \<Longrightarrow> rq_flushActive q \<Longrightarrow> flushPending True (flushPending True (saved, q)) = (saved', q') \<Longrightarrow>
     saved' = Some (queue_blob (rq_items q)) \<and> rq_items q' = rq_items q \<and> \<not> rq_flushActive q'"
  by (auto simp: flush_inv_def flush_wf_def flushPending_def flush_next_def split: option.splits)

lemma same_flush_line: "same_flush q (fst (load_line parse line (q, d)))"
  by (simp add: load_line_def same_flush_def recordDrop_def Let_def split: option.split)

lemma same_flush_lines: "same_flush q (fst (fold (load_line parse) lines (q, d)))"
proof (induction lines arbitrary: q d)
  case (Cons line lines)
  obtain q' d' where eq: "load_line parse line (q, d) = (q', d')" by fastforce
  show ?case using same_flush_trans [OF same_flush_line [of q parse line d] Cons.IH [of "fst (load_line parse line (q, d))" d']]
    by (simp add: eq)
qed (simp add: same_flush_def)

lemma flush_inv_load: "flush_inv (load parse saved (new_queue m))"
proof (cases saved)
  case (Some content)
  let ?q0 = "(new_queue m)\<lparr>rq_items := []\<rparr>"
  obtain q1 d where f: "fold (load_line parse) (filter (\<lambda>l. l \<noteq> []) (split_on newline content)) (?q0, 0) = (q1, d)" by fastforce
  have "same_flush ?q0 q1" using same_flush_lines [of ?q0 parse "filter (\<lambda>l. l \<noteq> []) (split_on newline content)" 0] by (simp add: f)
  then have idle: "\<not> rq_flushActive q1" "rq_pendingBlob q1 = None" "rq_writing q1 = None"
    by (simp_all add: same_flush_def new_queue_def)
  obtain q2 where q2: "same_flush q1 q2" "load parse saved (new_queue m) = q2 \<or> load parse saved (new_queue m) = persist q2"
    by (rule that [of "q1\<lparr>rq_nextVersion := max_version (rq_items q1) + 1,
      rq_highWater := max (rq_highWater q1) (length (rq_items q1))\<rparr>"]) (simp_all add: Some load_def f Let_def)
  have wf: "flush_wf q2" using q2(1) idle by (simp add: flush_wf_def same_flush_def)
  show ?thesis
  proof (cases "load parse saved (new_queue m) = q2")
    case True
    then show ?thesis using wf q2(1) idle by (simp add: flush_inv_def same_flush_def)
  next
    case False
    then have p: "load parse saved (new_queue m) = persist q2" using q2(2) by blast
    show ?thesis unfolding p by (rule flush_inv_persist [OF wf, of q2]) (simp_all add: same_flush_def persist_def flush_next_def Let_def)
  qed
qed (simp add: load_def flush_inv_def flush_wf_def new_queue_def)

text \<open>The daemon and its file: operations with the inputs its producers build, and successful writes.
  Only the producers' inputs are restricted, to keys and adapters that exist.\<close>

fun storable_input :: "queue_item_input \<Rightarrow> bool" where
  "storable_input (SkillPushInput i h) = (isValidSkillKey (in_skill_key i) \<and> in_agent_id i \<noteq> [] \<and> in_project_id i \<noteq> [])"
| "storable_input (SkillDeleteInput i) = (isValidSkillKey (in_skill_key i) \<and> in_agent_id i \<noteq> [] \<and> in_project_id i \<noteq> [])"
| "storable_input (SessionPushInput i) = (in_adapter i \<in> set AGENT_TYPES)"

lemma storable_stampVersion: "storable_input i \<Longrightarrow> storable (stampVersion i v)"
  by (cases i) (auto simp: no_empty_id_def)

lemma storable_with_attempts [simp]: "storable (with_attempts n i) = storable i"
  by (cases i) (auto simp: no_empty_id_def)

text \<open>A daemon that has started on any file, and everything that may happen then: operations, and writes
  that succeed or fail. A restart is another start, on whatever file is there.\<close>

inductive disk_reachable :: "(string \<Rightarrow> json option) \<Rightarrow> nat option \<Rightarrow> string option \<times> retry_queue \<Rightarrow> bool" for parse m where
  disk_start: "disk_reachable parse m (saved, load parse saved (new_queue m))"
| disk_enqueue: "disk_reachable parse m (saved, q) \<Longrightarrow> storable_input item \<Longrightarrow> disk_reachable parse m (saved, enqueued item q)"
| disk_done: "disk_reachable parse m (saved, q) \<Longrightarrow> disk_reachable parse m (saved, snd (markDoneIfVersion item q))"
| disk_bump: "disk_reachable parse m (saved, q) \<Longrightarrow> disk_reachable parse m (saved, bumpAttempts item q)"
| disk_flush: "disk_reachable parse m fq \<Longrightarrow> disk_reachable parse m (flushPending ok fq)"

lemma session_inv_items_eq: "rq_items q' = rq_items q \<Longrightarrow> session_inv q' = session_inv q"
  by (simp add: session_inv_def)

lemma load_line_storable:
  "\<forall>i\<in>set (rq_items q). storable i \<Longrightarrow> \<forall>i\<in>set (rq_items (fst (load_line parse line (q, d)))). storable i"
  by (auto simp: load_line_def Let_def split: option.split dest: isQueueItem_storable subsetD [OF set_update_subset_insert])

lemma load_lines_storable:
  "\<forall>i\<in>set (rq_items q). storable i \<Longrightarrow> \<forall>i\<in>set (rq_items (fst (fold (load_line parse) lines (q, d)))). storable i"
proof (induction lines arbitrary: q d)
  case (Cons line lines)
  obtain q' d' where eq: "load_line parse line (q, d) = (q', d')" by fastforce
  have "\<forall>i\<in>set (rq_items q'). storable i" using load_line_storable [OF Cons.prems, of parse line d] by (simp add: eq)
  then show ?case using Cons.IH by (simp add: eq)
qed simp

lemma load_storable: "\<forall>i\<in>set (rq_items (load parse saved (new_queue m))). storable i"
proof (cases saved)
  case (Some content)
  show ?thesis unfolding Some load_items by (rule load_lines_storable) simp
qed (simp add: load_def)

lemma disk_reachable_inv:
  "disk_reachable parse m fq \<Longrightarrow> flush_inv (snd fq) \<and> (\<forall>i\<in>set (rq_items (snd fq)). storable i)"
proof (induction rule: disk_reachable.induct)
  case disk_start
  show ?case using flush_inv_load load_storable by simp
next
  case (disk_enqueue saved q item)
  then show ?case using flush_inv_op [OF op_enqueue, of q item] set_enqueued [of item q] by (auto simp: storable_stampVersion)
next
  case (disk_done saved q item)
  then show ?case using flush_inv_op [OF op_done, of q item] set_remove_first [of "\<lambda>e. sameKey e item" "rq_items q"]
    by (auto simp: markDone_items)
next
  case (disk_bump saved q item)
  have "storable i" if i: "i \<in> set (rq_items (bumpAttempts item q))" for i
    using bump_members [OF i] disk_bump.IH by auto
  then show ?case using flush_inv_op [OF op_bump, of q item] disk_bump.IH by simp
next
  case (disk_flush fq ok)
  then show ?case using flushPending_inv [of "snd fq" ok "fst fq"] flushPending_items [of ok "fst fq" "snd fq"] by simp
qed

text \<open>C3. Restart: whatever file the daemon started on, whatever it enqueued, finished and retried since and
  whatever writes have failed, when a snapshot is on its way to the file and the write in progress and the
  one waiting behind it succeed, the file holds exactly the pending items and the flush is idle. If no two
  items share a key, as always but for session rows from before the fence, a daemon started on that file
  has exactly those items, in their order, with new stamps above them. The daemon's own inputs are taken to
  name valid Skill keys and existing adapters; counts and stamps to be safe integers.\<close>

theorem restart_recovers_queue:
  assumes "\<And>j. json_ok j \<Longrightarrow> parse (stringify j) = Some j"
    and "disk_reachable parse m (saved, q)" and "rq_flushActive q" and "\<forall>i\<in>set (rq_items q). safe_item i"
    and "flushPending True (flushPending True (saved, q)) = (saved', q')"
  shows "\<not> rq_flushActive q' \<and> rq_items q' = rq_items q \<and> saved' = Some (queue_blob (rq_items q)) \<and>
    (uniq_on (\<lambda>_. True) (rq_items q) \<longrightarrow>
       rq_items (load parse saved' (new_queue m')) = rq_items q \<and>
       (\<forall>i\<in>set (rq_items q). item_version i < rq_nextVersion (load parse saved' (new_queue m'))))"
proof -
  have inv: "flush_inv q" "\<forall>i\<in>set (rq_items q). storable i" using disk_reachable_inv [OF assms(2)] by simp_all
  have codec: "json_codec parse" by unfold_locales (rule assms(1))
  show ?thesis
    using flushPending_settles [OF inv(1) assms(3,5)] json_codec.load_blob [OF codec, of "rq_items q" "new_queue m'"] inv(2) assms(4)
      max_version_ge [of _ "rq_items q"]
    by (auto simp: less_le_trans)
qed

text \<open>A first write that failed, then a second push.\<close>

definition sample_second :: queue_item_input where
  "sample_second = SkillPushInput (sample_op\<lparr>in_skill_key := ''other''\<rparr>) ''h2''"

theorem restart_recovers_queue_witness:
  "let q = enqueued sample_second (snd (flushPending False (None, enqueued sample_push (new_queue None))));
       saved' = fst (flushPending True (flushPending True (None, q)))
   in rq_items (load json_parse saved' (new_queue None)) = [stampVersion sample_push 1, stampVersion sample_second 2]"
proof -
  let ?f = "flushPending False (None, enqueued sample_push (new_queue None))"
  let ?q = "enqueued sample_second (snd ?f)"
  have fst_f: "fst ?f = None" by code_simp
  have "storable_input sample_push" "storable_input sample_second" by code_simp+
  moreover have "disk_reachable json_parse None (None, new_queue None)"
    using disk_start [of json_parse None None] by (simp add: load_def new_queue_def)
  ultimately have r: "disk_reachable json_parse None (None, ?q)"
    using disk_flush [OF disk_enqueue, of json_parse None None "new_queue None" sample_push False] fst_f
    by (intro disk_enqueue) (metis prod.collapse)+
  have active: "rq_flushActive ?q" by code_simp
  have items: "rq_items ?q = [stampVersion sample_push 1, stampVersion sample_second 2]" by code_simp
  have "sameKey (stampVersion sample_push 1) (stampVersion sample_second 2) = False" by code_simp
  then have u: "uniq_on (\<lambda>_. True) (rq_items ?q)" unfolding items by (simp add: uniq_on_def)
  have safe: "\<forall>i\<in>set (rq_items ?q). safe_item i" unfolding items by code_simp
  have "rq_items (load json_parse (fst (flushPending True (flushPending True (None, ?q)))) (new_queue None)) = rq_items ?q"
    using restart_recovers_queue [OF parser.parse_stringify r active safe surjective_pairing, of None] u by blast
  then show ?thesis unfolding Let_def items .
qed

end
