(* ===== verification/SkillsLockLaws.thy ===== *)
theory SkillsLockLaws
  imports SkillsLock
begin

text \<open>
  What the Skill projection ledger guarantees: its keys are unambiguous, whatever is on disk only
  exact claims are read, a write is read back, and recording, removing, rolling back and merging
  change exactly the entries they name.
\<close>

section \<open>Keys are unambiguous\<close>

lemma of_char_upper_hex: "d < 16 \<Longrightarrow> of_char (upper_hex d) = (if d < 10 then 48 + d else 55 + d)"
  by (simp add: upper_hex_def take_bit_nat_eq_self)

lemma upper_hex_inject: "d < 16 \<Longrightarrow> e < 16 \<Longrightarrow> upper_hex d = upper_hex e \<longleftrightarrow> d = e"
proof
  assume "d < 16" "e < 16" "upper_hex d = upper_hex e"
  then have "(if d < 10 then 48 + d else 55 + d) = (if e < 10 then 48 + e else 55 + e)"
    using of_char_upper_hex [of d] of_char_upper_hex [of e] by metis
  with \<open>d < 16\<close> \<open>e < 16\<close> show "d = e" by (simp split: if_splits)
qed simp

lemma percent_byte_inject:
  "b < 256 \<Longrightarrow> b' < 256 \<Longrightarrow> percent_byte b @ r = percent_byte b' @ r' \<longleftrightarrow> b = b' \<and> r = r'"
proof -
  assume b: "b < 256" "b' < 256"
  then have "b div 16 < 16" "b' div 16 < 16" by (simp_all add: div_less_iff_less_mult)
  then show ?thesis
    by (auto simp: percent_byte_def upper_hex_inject) (metis div_mult_mod_eq)
qed

lemma of_char_inject: "(of_char c :: nat) = of_char d \<Longrightarrow> c = d"
  by simp

lemma uri_code_inject: "uri_code c @ r = uri_code d @ r' \<longleftrightarrow> c = d \<and> r = r'"
proof
  assume eq: "uri_code c @ r = uri_code d @ r'"
  define n m where nm: "n = (of_char c :: nat)" "m = (of_char d :: nat)"
  have lt: "n < 256" "m < 256" using nat_of_char_less_256 by (simp_all add: nm)
  have pc: "\<not> uri_unreserved (CHR ''%'')" by code_simp
  have esc: "uri_code x = percent_byte (hd (utf8_bytes x)) @ concat (map percent_byte (tl (utf8_bytes x)))"
    if "\<not> uri_unreserved x" for x
    using that by (simp add: uri_code_def utf8_bytes_def Let_def)
  consider "uri_unreserved c" "uri_unreserved d" | "uri_unreserved c" "\<not> uri_unreserved d"
    | "\<not> uri_unreserved c" "uri_unreserved d" | "\<not> uri_unreserved c" "\<not> uri_unreserved d" by blast
  then show "c = d \<and> r = r'"
  proof cases
    case 1
    then show ?thesis using eq by (simp add: uri_code_def)
  next
    case 2
    then show ?thesis using eq pc by (auto simp: esc percent_byte_def uri_code_def [of c])
  next
    case 3
    then show ?thesis using eq pc by (auto simp: esc percent_byte_def uri_code_def [of d])
  next
    case 4
    have "192 + n div 64 < 256" "192 + m div 64 < 256" "128 + n mod 64 < 256" "128 + m mod 64 < 256"
      using lt by (simp_all add: div_less_iff_less_mult)
    then have "n = m \<and> r = r'"
      using eq 4 lt
      by (auto simp: uri_code_def utf8_bytes_def Let_def percent_byte_inject simp flip: nm split: if_splits)
        (metis div_mult_mod_eq)
    then show ?thesis using nm by simp
  qed
qed simp

lemma encodeURIComponent_inject: "encodeURIComponent a = encodeURIComponent b \<longleftrightarrow> a = b"
proof
  assume "encodeURIComponent a = encodeURIComponent b"
  then show "a = b"
  proof (induction a arbitrary: b)
    case Nil
    then show ?case
      by (cases b) (auto simp: encodeURIComponent_def uri_code_def utf8_bytes_def percent_byte_def Let_def split: if_splits)
  next
    case (Cons c a)
    then show ?case
    proof (cases b)
      case Nil
      with Cons.prems show ?thesis
        by (auto simp: encodeURIComponent_def uri_code_def utf8_bytes_def percent_byte_def Let_def split: if_splits)
    next
      case (Cons d b')
      with Cons.prems have "c = d" "encodeURIComponent a = encodeURIComponent b'"
        by (simp_all add: encodeURIComponent_def uri_code_inject)
      with Cons.IH Cons show ?thesis by simp
    qed
  qed
qed simp

lemma colon_not_unreserved: "\<not> uri_unreserved (CHR '':'')"
  by code_simp

lemma upper_hex_not_colon: "d < 16 \<Longrightarrow> upper_hex d \<noteq> CHR '':''"
proof
  assume d: "d < 16" "upper_hex d = CHR '':''"
  have "of_char (upper_hex d) = (58::nat)" by (simp add: d(2))
  with of_char_upper_hex [OF d(1)] d(1) show False by (simp split: if_splits)
qed

lemma percent_byte_no_colon: "b < 256 \<Longrightarrow> CHR '':'' \<notin> set (percent_byte b)"
  using upper_hex_not_colon [of "b div 16"] upper_hex_not_colon [of "b mod 16"]
  by (auto simp: percent_byte_def div_less_iff_less_mult)

lemma utf8_bytes_lt: "b \<in> set (utf8_bytes c) \<Longrightarrow> b < 256"
proof -
  have "of_char c < (256::nat)" using nat_of_char_less_256 by simp
  then have "of_char c div 64 < (4::nat)" by (simp add: div_less_iff_less_mult)
  moreover have "of_char c mod 64 < (64::nat)" by simp
  ultimately show "b \<in> set (utf8_bytes c) \<Longrightarrow> b < 256" by (auto simp: utf8_bytes_def Let_def split: if_splits)
qed

lemma encodeURIComponent_no_colon: "CHR '':'' \<notin> set (encodeURIComponent s)"
  using colon_not_unreserved percent_byte_no_colon utf8_bytes_lt
  by (fastforce simp: encodeURIComponent_def uri_code_def)

lemma encoded_join_inject:
  "xs \<noteq> [] \<Longrightarrow> ys \<noteq> [] \<Longrightarrow>
   join_with '':'' (map encodeURIComponent xs) = join_with '':'' (map encodeURIComponent ys) \<longleftrightarrow> xs = ys"
proof
  assume ne: "xs \<noteq> []" "ys \<noteq> []"
    and eq: "join_with '':'' (map encodeURIComponent xs) = join_with '':'' (map encodeURIComponent ys)"
  have "map encodeURIComponent xs = map encodeURIComponent ys"
    by (rule join_with_inject [OF _ _ _ _ eq]) (use ne encodeURIComponent_no_colon in auto)
  then show "xs = ys" by (rule map_injective) (simp add: inj_def encodeURIComponent_inject)
qed simp

lemma skillClaimCacheKey_inject [simp]:
  "skillClaimCacheKey a p k = skillClaimCacheKey a' p' k' \<longleftrightarrow> a = a' \<and> p = p' \<and> k = k'"
  unfolding skillClaimCacheKey_def by (subst encoded_join_inject) auto

lemma materializationCacheKey_inject [simp]:
  "projectSkillMaterializationCacheKey a k = projectSkillMaterializationCacheKey a' k' \<longleftrightarrow> a = a' \<and> k = k'"
  unfolding projectSkillMaterializationCacheKey_def by (subst encoded_join_inject) auto

text \<open>The cache keys are injective: two claims share a key exactly when Agent, Project and Skill
  agree, and two materializations exactly when adapter and local Skill agree, whatever characters
  the identifiers contain.\<close>

lemma cache_keys_injective:
  "(skillClaimCacheKey a p k = skillClaimCacheKey a' p' k' \<longleftrightarrow> (a, p, k) = (a', p', k')) \<and>
   (projectSkillMaterializationCacheKey a k = projectSkillMaterializationCacheKey a' k' \<longleftrightarrow> (a, k) = (a', k'))"
  by simp

section \<open>Reading\<close>

definition claim_ok :: "string \<Rightarrow> skill_claim \<Rightarrow> bool" where
  "claim_ok key c \<longleftrightarrow>
     cl_agent_type c \<noteq> [] \<and> cl_agent_id c \<noteq> [] \<and> cl_project_id c \<noteq> [] \<and> isValidSkillKey (cl_skill_key c) \<and>
     cl_hash c \<noteq> [] \<and> key = skillClaimCacheKey (cl_agent_id c) (cl_project_id c) (cl_skill_key c)"

definition materialization_ok :: "string \<Rightarrow> materialization \<Rightarrow> bool" where
  "materialization_ok key m \<longleftrightarrow>
     mt_agent_type m \<noteq> [] \<and> isValidSkillKey (mt_local_skill_key m) \<and> mt_source_project_id m \<noteq> [] \<and>
     isValidSkillKey (mt_source_skill_key m) \<and> mt_content_hash m \<noteq> [] \<and> mt_reconcile_agent_id m \<noteq> Some [] \<and>
     key = projectSkillMaterializationCacheKey (mt_agent_type m) (mt_local_skill_key m)"

lemma read_entries_fold:
  assumes "wf_map m" "\<forall>(k, v)\<in>set m. ok k v" "\<And>k raw v. read k raw = Some v \<Longrightarrow> ok k v"
  shows "wf_map (fold (\<lambda>(key, raw) m. case read key raw of None \<Rightarrow> m | Some v \<Rightarrow> map_set key v m) fs m) \<and>
    (\<forall>(k, v)\<in>set (fold (\<lambda>(key, raw) m. case read key raw of None \<Rightarrow> m | Some v \<Rightarrow> map_set key v m) fs m). ok k v)"
  using assms(1,2)
proof (induction fs arbitrary: m)
  case (Cons f fs)
  obtain k raw where f: "f = (k, raw)" by (cases f)
  show ?case
  proof (cases "read k raw")
    case None
    then show ?thesis using Cons f by simp
  next
    case (Some v)
    have "\<forall>(k, v)\<in>set (map_set k v m). ok k v"
      using Cons.prems(2) assms(3) [OF Some] set_map_set_subset [of k v m] by fastforce
    then show ?thesis using Cons.IH [of "map_set k v m"] Cons.prems(1) Some f by simp
  qed
qed simp

lemma read_entries_ok:
  assumes "\<And>k raw v. read k raw = Some v \<Longrightarrow> ok k v"
  shows "wf_map (read_entries read value) \<and> (\<forall>(k, v)\<in>set (read_entries read value). ok k v)"
proof (cases "\<exists>fs. value = Some (JObj fs)")
  case True
  then obtain fs where "value = Some (JObj fs)" ..
  with read_entries_fold [of "[]" ok read fs, OF _ _ assms] show ?thesis by (simp add: read_entries_def)
next
  case False
  then have "read_entries read value = []" by (auto simp: read_entries_def split: option.split json.split)
  then show ?thesis by simp
qed

lemma read_claim_ok: "read_claim k raw = Some c \<Longrightarrow> claim_ok k c"
  by (auto simp: read_claim_def claim_ok_def nonempty_string_iff str_field_def split: if_splits)

lemma read_materialization_ok: "read_materialization k raw = Some m \<Longrightarrow> materialization_ok k m"
  by (auto simp: read_materialization_def materialization_ok_def nonempty_string_iff str_field_def split: if_splits)

lemma readSkillsLock_claims_ok:
  "wf_map (sl_claims (readSkillsLock parse data)) \<and> (\<forall>(k, c)\<in>set (sl_claims (readSkillsLock parse data)). claim_ok k c)"
  using read_entries_ok [of read_claim claim_ok, OF read_claim_ok]
  by (auto simp: readSkillsLock_def emptyLock_def readProjectionClaims_def split: option.split)

lemma readSkillsLock_materializations_ok:
  "wf_map (sl_materializations (readSkillsLock parse data)) \<and>
   (\<forall>(k, m)\<in>set (sl_materializations (readSkillsLock parse data)). materialization_ok k m)"
  using read_entries_ok [of read_materialization materialization_ok, OF read_materialization_ok]
  by (auto simp: readSkillsLock_def emptyLock_def readProjectSkillMaterializations_def split: option.split)

text \<open>C9. Reading fails closed: whatever the file holds (nothing, garbage, another version, entries
  edited by hand), every claim read from it has a complete identity, a valid Skill key, a hash, and
  stands under the key of exactly that identity; so does every materialization. Only such claims
  give authority to delete a Cloud projection.\<close>

theorem ledger_reads_fail_closed:
  "list_all (\<lambda>(k, c). claim_ok k c) (sl_claims (readSkillsLock parse data)) \<and>
   list_all (\<lambda>(k, m). materialization_ok k m) (sl_materializations (readSkillsLock parse data)) \<and>
   distinct (map_keys (sl_claims (readSkillsLock parse data))) \<and>
   distinct (map_keys (sl_materializations (readSkillsLock parse data)))"
  using readSkillsLock_claims_ok [of parse data] readSkillsLock_materializations_ok [of parse data]
  by (simp add: list_all_iff wf_map_def)

section \<open>Reading back a write\<close>

lemma read_claim_json: "claim_ok k c \<Longrightarrow> read_claim k (claim_json c) = Some c"
  by (simp add: read_claim_def claim_json_def claim_ok_def nonempty_string_def str_field_def)

lemma read_materialization_json: "materialization_ok k m \<Longrightarrow> read_materialization k (materialization_json m) = Some m"
  by (cases "mt_reconcile_agent_id m")
    (auto simp: read_materialization_def materialization_json_def materialization_ok_def nonempty_string_def
      str_field_def)

lemma map_set_fresh: "k \<notin> fst ` set m \<Longrightarrow> map_set k v m = m @ [(k, v)]"
  by (induction m) auto

lemma read_entries_json_fold:
  assumes "\<forall>(k, v)\<in>set m. read k (f v) = Some v" "distinct (map fst (acc @ m))"
  shows "fold (\<lambda>(key, raw) m. case read key raw of None \<Rightarrow> m | Some v \<Rightarrow> map_set key v m)
    (map (\<lambda>(k, v). (k, f v)) m) acc = acc @ m"
  using assms
proof (induction m arbitrary: acc)
  case (Cons e m)
  obtain k v where e: "e = (k, v)" by (cases e)
  have "map_set k v acc = acc @ [(k, v)]" using Cons.prems(2) e by (intro map_set_fresh) auto
  with Cons.IH [of "acc @ [(k, v)]"] Cons.prems e show ?case by simp
qed simp

lemma read_entries_json:
  "wf_map m \<Longrightarrow> \<forall>(k, v)\<in>set m. read k (f v) = Some v \<Longrightarrow> read_entries read (Some (entries_json f m)) = m"
  using read_entries_json_fold [of m read f "[]"] by (simp add: read_entries_def entries_json_def wf_map_def)

definition read_hash :: "string \<Rightarrow> json \<Rightarrow> string option" where
  "read_hash key raw = (if is_record raw \<and> nonempty_string (jprop raw ''hash'') then Some (str_field raw ''hash'') else None)"

lemma readHashEntries_entries: "readHashEntries value = read_entries read_hash value"
proof -
  have "(\<lambda>(key, raw) entries. if is_record raw \<and> nonempty_string (jprop raw ''hash'')
      then map_set key (str_field raw ''hash'') entries else entries) =
    (\<lambda>(key, raw) m. case read_hash key raw of None \<Rightarrow> m | Some v \<Rightarrow> map_set key v m)"
    by (auto simp: fun_eq_iff read_hash_def)
  then show ?thesis unfolding readHashEntries_def read_entries_def by (rule ssubst) (rule refl)
qed

definition skills_ok :: "(string, string) js_map \<Rightarrow> bool" where
  "skills_ok m \<longleftrightarrow> wf_map m \<and> (\<forall>(k, h)\<in>set m. plain_key k \<and> h \<noteq> [])"

definition lock_ok :: "skills_lock \<Rightarrow> bool" where
  "lock_ok lock \<longleftrightarrow> skills_ok (sl_skills lock) \<and>
     wf_map (sl_claims lock) \<and> (\<forall>(k, c)\<in>set (sl_claims lock). claim_ok k c) \<and>
     wf_map (sl_materializations lock) \<and> (\<forall>(k, m)\<in>set (sl_materializations lock). materialization_ok k m)"

lemma plain_colon: "plain_key (a @ CHR '':'' # b)"
  by (simp add: plain_key_def)

lemma plain_skillCacheKey: "plain_key (skillCacheKey a k)"
  by (simp add: skillCacheKey_def plain_key_def)

lemma plain_claim_key: "claim_ok k c \<Longrightarrow> plain_key k"
  using plain_colon by (simp add: claim_ok_def skillClaimCacheKey_def)

lemma plain_materialization_key: "materialization_ok k m \<Longrightarrow> plain_key k"
  using plain_colon by (simp add: materialization_ok_def projectSkillMaterializationCacheKey_def)

lemma json_ok_entries:
  "wf_map m \<Longrightarrow> \<forall>(k, v)\<in>set m. plain_key k \<and> json_ok (f v) \<Longrightarrow> json_ok (entries_json f m)"
  by (auto simp: entries_json_def wf_map_def list_all_iff case_prod_unfold comp_def)

lemma json_ok_leaves: "json_ok (hash_json h)" "json_ok (claim_json c)" "json_ok (materialization_json m)"
  by (auto simp: hash_json_def claim_json_def materialization_json_def plain_key_def split: option.split)

lemma json_ok_lock: "lock_ok lock \<Longrightarrow> json_ok (lock_json lock)"
proof -
  assume ok: "lock_ok lock"
  have "json_ok (entries_json hash_json (sl_skills lock))" "json_ok (entries_json claim_json (sl_claims lock))"
    "json_ok (entries_json materialization_json (sl_materializations lock))"
    using ok plain_claim_key plain_materialization_key
    by (auto intro!: json_ok_entries simp: lock_ok_def skills_ok_def json_ok_leaves)
  then show ?thesis by (simp add: lock_json_def skills_lock_version_def safe_integer_def plain_key_def)
qed

lemma set_sort_keys [simp]: "set (sort_keys m) = set m"
  by (simp add: sort_keys_def)

lemma distinct_map_sort_key: "distinct (map f xs) \<Longrightarrow> distinct (map f (sort_key g xs))"
  by (simp add: distinct_map)

lemma wf_sort_keys: "wf_map m \<Longrightarrow> wf_map (sort_keys m)"
  by (simp add: wf_map_def sort_keys_def distinct_map_sort_key)

lemma map_get_sort_keys [simp]: "wf_map m \<Longrightarrow> map_get (sort_keys m) = map_get m"
proof
  fix k assume wf: "wf_map m"
  show "map_get (sort_keys m) k = map_get m k"
  proof (cases "map_get m k")
    case None
    then have "map_get (sort_keys m) k = None" by (simp add: map_of_eq_None_iff)
    then show ?thesis using None by simp
  next
    case (Some v)
    then have "map_get (sort_keys m) k = Some v" using wf by (simp add: map_get_eq_Some wf_sort_keys)
    then show ?thesis using Some by simp
  qed
qed

lemma lock_ok_sorted: "lock_ok lock \<Longrightarrow> lock_ok (sorted_lock lock)"
  by (auto simp: lock_ok_def sorted_lock_def skills_ok_def wf_sort_keys)

context json_file_codec
begin

lemma read_written:
  assumes "lock_ok lock"
  shows "readSkillsLock parse (writeSkillsLockUnlocked lock) = sorted_lock lock"
proof -
  let ?l = "sorted_lock lock"
  have ok: "lock_ok ?l" using assms by (rule lock_ok_sorted)
  have "readHashEntries (Some (entries_json hash_json (sl_skills ?l))) = sl_skills ?l"
    unfolding readHashEntries_entries
    using ok by (intro read_entries_json) (auto simp: lock_ok_def skills_ok_def read_hash_def hash_json_def
        nonempty_string_def str_field_def)
  moreover have "readProjectionClaims (Some (entries_json claim_json (sl_claims ?l))) = sl_claims ?l"
    unfolding readProjectionClaims_def
    using ok by (intro read_entries_json) (auto simp: lock_ok_def read_claim_json)
  moreover have "readProjectSkillMaterializations (Some (entries_json materialization_json (sl_materializations ?l))) =
      sl_materializations ?l"
    unfolding readProjectSkillMaterializations_def
    using ok by (intro read_entries_json) (auto simp: lock_ok_def read_materialization_json)
  ultimately show ?thesis
    using parse_pretty [OF json_ok_lock [OF ok]]
    by (simp add: readSkillsLock_def writeSkillsLockUnlocked_def lock_json_def)
qed

end

section \<open>Claims as a ledger\<close>

text \<open>The hash the ledger holds for an exact identity, as the daemon reads it.\<close>

definition claim_hash :: "(string \<Rightarrow> json option) \<Rightarrow> skill_identity \<Rightarrow> lock_file \<Rightarrow> string option" where
  "claim_hash parse i data =
     map_get (readSkillProjectionState parse (id_agentType i) (id_agentId i) (id_projectId i) data) (id_skillKey i)"

lemma projection_state_fold:
  assumes "\<forall>(key, c)\<in>set m. claim_ok key c" "distinct (map fst m)"
  shows "map_get (fold (\<lambda>c acc. if cl_agent_type c = t \<and> cl_agent_id c = a \<and> cl_project_id c = p
      then map_set (cl_skill_key c) (cl_hash c) acc else acc) (map snd m) acc) k =
    (case map_get m (skillClaimCacheKey a p k) of
       Some c \<Rightarrow> if cl_agent_type c = t then Some (cl_hash c) else map_get acc k
     | None \<Rightarrow> map_get acc k)"
  using assms
proof (induction m arbitrary: acc)
  case (Cons e m)
  obtain key c where e: "e = (key, c)" by (cases e)
  have key: "key = skillClaimCacheKey (cl_agent_id c) (cl_project_id c) (cl_skill_key c)"
    using Cons.prems e by (simp add: claim_ok_def)
  have fresh: "map_get m key = None" using Cons.prems(2) e by (simp add: map_of_eq_None_iff)
  show ?case
  proof (cases "key = skillClaimCacheKey a p k")
    case True
    then show ?thesis using Cons.IH Cons.prems e key fresh by (simp split: option.split)
  next
    case False
    then show ?thesis using Cons.IH Cons.prems e key by (auto split: option.split)
  qed
qed simp

lemma claim_hash_lookup:
  "claim_hash parse i data =
     (case map_get (sl_claims (readSkillsLock parse data)) (identity_key i) of
        Some c \<Rightarrow> if cl_agent_type c = id_agentType i then Some (cl_hash c) else None
      | None \<Rightarrow> None)"
  using projection_state_fold [of "sl_claims (readSkillsLock parse data)" "id_agentType i" "id_agentId i"
      "id_projectId i" "[]" "id_skillKey i"] readSkillsLock_claims_ok [of parse data]
  by (auto simp: claim_hash_def readSkillProjectionState_def identity_key_def wf_map_def split: option.split)

lemma identity_key_inject: "identity_key i = identity_key j \<longleftrightarrow>
    id_agentId i = id_agentId j \<and> id_projectId i = id_projectId j \<and> id_skillKey i = id_skillKey j"
  by (simp add: identity_key_def)

lemma identity_eqI: "identity_key i = identity_key j \<Longrightarrow> id_agentType i = id_agentType j \<Longrightarrow> i = j"
  by (auto simp: identity_key_inject)

text \<open>A file whose hash cache has keys of the form the code composes.\<close>

definition ledger_ok :: "(string \<Rightarrow> json option) \<Rightarrow> lock_file \<Rightarrow> bool" where
  "ledger_ok parse data \<longleftrightarrow> skills_ok (sl_skills (readSkillsLock parse data))"

lemma ledger_ok_lock: "ledger_ok parse data \<Longrightarrow> lock_ok (readSkillsLock parse data)"
  using readSkillsLock_claims_ok [of parse data] readSkillsLock_materializations_ok [of parse data]
  by (simp add: ledger_ok_def lock_ok_def)

lemma ledger_ok_empty: "ledger_ok parse None"
  by (simp add: ledger_ok_def readSkillsLock_def emptyLock_def skills_ok_def)

lemma assertValidProjectionIdentity_ok:
  "assertValidProjectionIdentity i = Inr () \<longleftrightarrow>
     id_agentType i \<noteq> [] \<and> id_agentId i \<noteq> [] \<and> id_projectId i \<noteq> [] \<and> isValidSkillKey (id_skillKey i)"
  by (simp add: assertValidProjectionIdentity_def)

lemma skills_ok_set: "skills_ok m \<Longrightarrow> plain_key k \<Longrightarrow> h \<noteq> [] \<Longrightarrow> skills_ok (map_set k h m)"
  using set_map_set_subset [of k h m] by (fastforce simp: skills_ok_def)

lemma skills_ok_delete: "skills_ok m \<Longrightarrow> skills_ok (map_delete k m)"
  using set_map_delete [of k m] by (fastforce simp: skills_ok_def)

lemma lock_ok_record:
  assumes "lock_ok lock" "assertValidProjectionIdentity i = Inr ()" "hash \<noteq> []"
  shows "lock_ok (lock\<lparr>sl_claims := map_set (identity_key i) (claim_of i hash) (sl_claims lock),
    sl_skills := map_set (skillCacheKey (id_agentType i) (id_skillKey i)) hash (sl_skills lock)\<rparr>)"
proof -
  have "claim_ok (identity_key i) (claim_of i hash)"
    using assms(2,3) by (simp add: claim_ok_def claim_of_def identity_key_def assertValidProjectionIdentity_ok)
  then show ?thesis
    using assms(1,3) set_map_set_subset [of "identity_key i" "claim_of i hash" "sl_claims lock"]
    by (fastforce simp: lock_ok_def skills_ok_set plain_skillCacheKey)
qed

lemma lock_ok_delete_claim:
  "lock_ok lock \<Longrightarrow> lock_ok (lock\<lparr>sl_claims := map_delete k (sl_claims lock)\<rparr>)"
  "lock_ok lock \<Longrightarrow> lock_ok (lock\<lparr>sl_skills := map_delete k' (sl_skills lock)\<rparr>)"
  using set_map_delete [of k "sl_claims lock"] by (fastforce simp: lock_ok_def skills_ok_delete)+

context json_file_codec
begin

lemma read_committed:
  assumes "lock_ok lock" "commit_lock owned lock = Inr data'"
  shows "readSkillsLock parse data' = sorted_lock lock" and "ledger_ok parse data'"
proof -
  have "data' = writeSkillsLockUnlocked lock" using assms(2) by (simp add: commit_lock_def split: if_splits)
  then show r: "readSkillsLock parse data' = sorted_lock lock" using read_written [OF assms(1)] by simp
  show "ledger_ok parse data'" using lock_ok_sorted [OF assms(1)] by (simp add: ledger_ok_def r lock_ok_def)
qed

lemma record_law:
  assumes "ledger_ok parse data" "recordSkillProjectionClaim parse owned i hash data = Inr data'"
  shows "ledger_ok parse data' \<and> (\<forall>j. claim_hash parse j data' =
    (if j = i then Some hash else if identity_key j = identity_key i then None else claim_hash parse j data))"
proof -
  let ?lock = "readSkillsLock parse data"
  let ?lock' = "?lock\<lparr>sl_claims := map_set (identity_key i) (claim_of i hash) (sl_claims ?lock),
    sl_skills := map_set (skillCacheKey (id_agentType i) (id_skillKey i)) hash (sl_skills ?lock)\<rparr>"
  from assms(2) have v: "assertValidProjectionIdentity i = Inr ()" "hash \<noteq> []"
    and c: "commit_lock owned ?lock' = Inr data'"
    by (auto simp: recordSkillProjectionClaim_def bind_res_Inr_iff Let_def split: if_splits)
  have ok: "lock_ok ?lock'" by (rule lock_ok_record [OF ledger_ok_lock [OF assms(1)] v])
  note r = read_committed [OF ok c]
  have "wf_map (sl_claims ?lock')" using ok by (simp only: lock_ok_def)
  then have "map_get (sl_claims (readSkillsLock parse data')) = map_get (sl_claims ?lock')"
    by (simp add: r(1) sorted_lock_def)
  then show ?thesis using r(2) identity_eqI [of _ i]
    by (auto simp: claim_hash_lookup claim_of_def)
qed

lemma remove_law:
  assumes "ledger_ok parse data" "removeSkillProjectionClaim parse owned i data = Inr (removed, data')"
  shows "ledger_ok parse data' \<and> removed = (claim_hash parse i data \<noteq> None) \<and> (\<not> removed \<longrightarrow> data' = data) \<and>
    (\<forall>j. claim_hash parse j data' = (if j = i then None else claim_hash parse j data))"
proof (cases "claim_hash parse i data")
  case None
  then have "removeSkillProjectionClaim parse owned i data = Inr (removed, data') \<Longrightarrow> removed = False \<and> data' = data"
    by (auto simp: removeSkillProjectionClaim_def bind_res_Inr_iff Let_def claim_hash_lookup exact_claim_def
        split: option.splits if_splits)
  then show ?thesis using assms None by simp
next
  case (Some h)
  let ?lock = "readSkillsLock parse data"
  from Some obtain c where c: "map_get (sl_claims ?lock) (identity_key i) = Some c" "cl_agent_type c = id_agentType i"
    by (auto simp: claim_hash_lookup split: option.splits if_splits)
  have "claim_ok (identity_key i) c" using readSkillsLock_claims_ok [of parse data] map_get_SomeD [OF c(1)] by blast
  then have ex: "exact_claim i c" using c(2) by (auto simp: claim_ok_def exact_claim_def identity_key_def)
  obtain sk where ok': "lock_ok (?lock\<lparr>sl_claims := map_delete (identity_key i) (sl_claims ?lock), sl_skills := sk\<rparr>)"
    and cm: "commit_lock owned (?lock\<lparr>sl_claims := map_delete (identity_key i) (sl_claims ?lock), sl_skills := sk\<rparr>) = Inr data'"
    and rem: "removed"
  proof (cases "map_get (sl_skills ?lock) (skillCacheKey (id_agentType i) (id_skillKey i)) = Some (cl_hash c)")
    case True
    with that [of "map_delete (skillCacheKey (id_agentType i) (id_skillKey i)) (sl_skills ?lock)"] assms c ex
    show ?thesis
      using lock_ok_delete_claim(2) [OF lock_ok_delete_claim(1) [OF ledger_ok_lock [OF assms(1)]]]
      by (auto simp: removeSkillProjectionClaim_def bind_res_Inr_iff Let_def)
  next
    case False
    with that [of "sl_skills ?lock"] assms c ex show ?thesis
      using lock_ok_delete_claim(1) [OF ledger_ok_lock [OF assms(1)]]
      by (auto simp: removeSkillProjectionClaim_def bind_res_Inr_iff Let_def)
  qed
  note r = read_committed [OF ok' cm]
  have "wf_map (sl_claims ?lock)" using readSkillsLock_claims_ok [of parse data] by simp
  then have "map_get (sl_claims (readSkillsLock parse data')) = (map_get (sl_claims ?lock))(identity_key i := None)"
    by (simp add: r(1) sorted_lock_def fun_eq_iff)
  then show ?thesis using r(2) rem Some c identity_eqI [of _ i]
    by (auto simp: claim_hash_lookup split: option.splits)
qed

end

subsection \<open>The interface\<close>

text \<open>What the daemon relies on: a ledger whose entries come and go only by recording and removing
  exactly the named identity.\<close>

datatype ('i, 'h) ledger_op = Record 'i 'h | Remove 'i

text \<open>One operation; a thrown error leaves the file.\<close>

fun ledger_apply ::
  "('i \<Rightarrow> 'h \<Rightarrow> 'f \<Rightarrow> 'e + 'f) \<Rightarrow> ('i \<Rightarrow> 'f \<Rightarrow> 'e + (bool \<times> 'f)) \<Rightarrow> ('i, 'h) ledger_op \<Rightarrow> 'f \<Rightarrow> 'f" where
  "ledger_apply put del (Record i h) f = (case put i h f of Inr f' \<Rightarrow> f' | Inl _ \<Rightarrow> f)"
| "ledger_apply put del (Remove i) f = (case del i f of Inr (_, f') \<Rightarrow> f' | Inl _ \<Rightarrow> f)"

locale claim_ledger =
  fixes ok :: "'f \<Rightarrow> bool"
    and get :: "'i \<Rightarrow> 'f \<Rightarrow> 'h option"
    and put :: "'i \<Rightarrow> 'h \<Rightarrow> 'f \<Rightarrow> 'e + 'f"
    and del :: "'i \<Rightarrow> 'f \<Rightarrow> 'e + (bool \<times> 'f)"
    and slot :: "'i \<Rightarrow> 's"
  assumes put_law: "ok f \<Longrightarrow> put i h f = Inr f' \<Longrightarrow>
      ok f' \<and> (\<forall>j. get j f' = (if j = i then Some h else if slot j = slot i then None else get j f))"
    and del_law: "ok f \<Longrightarrow> del i f = Inr (removed, f') \<Longrightarrow>
      ok f' \<and> removed = (get i f \<noteq> None) \<and> (\<not> removed \<longrightarrow> f' = f) \<and>
      (\<forall>j. get j f' = (if j = i then None else get j f))"
begin

lemma apply_ok: "ok f \<Longrightarrow> ok (ledger_apply put del p f)"
proof (cases p)
  case (Record i h)
  then show "ok f \<Longrightarrow> ?thesis" using put_law [of f i h] by (cases "put i h f") auto
next
  case (Remove i)
  then show "ok f \<Longrightarrow> ?thesis" using del_law [of f i] by (cases "del i f") auto
qed

lemma apply_get:
  assumes "ok f" "get i (ledger_apply put del p f) = Some h"
  shows "get i f = Some h \<or> p = Record i h"
proof (cases p)
  case (Record j h')
  then show ?thesis
    using assms put_law [OF assms(1), of j h'] by (cases "put j h' f") (auto split: if_splits)
next
  case (Remove j)
  then show ?thesis
    using assms del_law [OF assms(1), of j] by (cases "del j f") (auto split: if_splits)
qed

lemma run_get:
  "ok f \<Longrightarrow> get i (fold (ledger_apply put del) ps f) = Some h \<Longrightarrow> get i f = Some h \<or> Record i h \<in> set ps"
proof (induction ps arbitrary: f)
  case (Cons p ps)
  from Cons.IH [OF apply_ok [OF Cons.prems(1)]] Cons.prems(2) have
    "get i (ledger_apply put del p f) = Some h \<or> Record i h \<in> set ps" by simp
  then show ?case using apply_get [OF Cons.prems(1)] by auto
qed simp

end

text \<open>The operations with the lease held throughout, and with a lease that is lost.\<close>

sublocale json_file_codec \<subseteq> ledger: claim_ledger "ledger_ok parse" "claim_hash parse"
  "recordSkillProjectionClaim parse owned" "removeSkillProjectionClaim parse owned" identity_key for owned
  by unfold_locales (use record_law remove_law in blast)+

context json_file_codec
begin

lemmas ledger_run = ledger.run_get

end

lemma json_file_codecI:
  assumes "\<And>j. json_ok j \<Longrightarrow> parse (stringify j) = Some j"
    and "\<And>j. json_ok j \<Longrightarrow> parse (stringify_pretty j @ [newline]) = Some j"
  shows "json_file_codec parse"
  by unfold_locales (rule assms(1), assumption, rule assms(2), assumption)

text \<open>C7. Authority to delete comes only from uploads: after any sequence of recorded and removed claims,
  failed ones included, the ledger holds a hash for an identity only if it already did or an upload
  of exactly that identity and hash was recorded.\<close>

theorem deletion_authority_only_from_uploads:
  assumes "\<And>j. json_ok j \<Longrightarrow> parse (stringify j) = Some j"
    and "\<And>j. json_ok j \<Longrightarrow> parse (stringify_pretty j @ [newline]) = Some j"
    and "ledger_ok parse data"
    and "claim_hash parse i (fold (ledger_apply (recordSkillProjectionClaim parse owned)
      (removeSkillProjectionClaim parse owned)) ops data) = Some h"
  shows "claim_hash parse i data = Some h \<or> Record i h \<in> set ops"
  by (rule json_file_codec.ledger_run [OF json_file_codecI [OF assms(1,2)] assms(3,4)])

definition sample_identity :: skill_identity where
  "sample_identity = \<lparr>id_agentType = ''codex'', id_agentId = ''agent'', id_projectId = ''project'', id_skillKey = ''notes''\<rparr>"

lemma sample_identity_ok: "assertValidProjectionIdentity sample_identity = Inr ()"
proof -
  have "isValidSkillKey ''notes''" by code_simp
  then show ?thesis by (simp add: assertValidProjectionIdentity_ok sample_identity_def)
qed

lemma sample_recorded:
  "\<exists>data'. recordSkillProjectionClaim json_parse True sample_identity ''h1'' None = Inr data'"
  by (simp add: recordSkillProjectionClaim_def sample_identity_ok Let_def commit_lock_def)

theorem deletion_authority_only_from_uploads_witness:
  "claim_hash json_parse sample_identity
     (fold (ledger_apply (recordSkillProjectionClaim json_parse True) (removeSkillProjectionClaim json_parse True))
       [Record sample_identity ''h1''] None) = Some ''h1'' \<and>
   (claim_hash json_parse sample_identity None = Some ''h1'' \<or>
    Record sample_identity ''h1'' \<in> set [Record sample_identity ''h1''])"
proof -
  obtain d where d: "recordSkillProjectionClaim json_parse True sample_identity ''h1'' None = Inr d"
    using sample_recorded by blast
  have "claim_hash json_parse sample_identity d = Some ''h1''"
    using parser.record_law [OF ledger_ok_empty d] by simp
  then have h: "claim_hash json_parse sample_identity
     (fold (ledger_apply (recordSkillProjectionClaim json_parse True) (removeSkillProjectionClaim json_parse True))
       [Record sample_identity ''h1''] None) = Some ''h1''" by (simp add: d)
  from deletion_authority_only_from_uploads [OF parser.parse_stringify parser.parse_pretty ledger_ok_empty h] h
  show ?thesis by blast
qed

lemma remove_owned_total:
  "assertValidProjectionIdentity i = Inr () \<Longrightarrow> \<exists>b data'. removeSkillProjectionClaim parse True i data = Inr (b, data')"
  by (cases "map_get (sl_claims (readSkillsLock parse data)) (identity_key i)")
    (auto simp: removeSkillProjectionClaim_def Let_def commit_lock_def)

text \<open>Recording and removing are exact: a recorded claim is read back under its identity, takes the
  slot of the same Agent, Project and Skill from any other adapter, and leaves every other identity
  as it was; removing answers whether the exact claim existed, forgets only that one, and does not
  touch the file otherwise.\<close>

lemma claim_updates_exact:
  assumes "\<And>j. json_ok j \<Longrightarrow> parse (stringify j) = Some j"
    and "\<And>j. json_ok j \<Longrightarrow> parse (stringify_pretty j @ [newline]) = Some j"
    and "ledger_ok parse data"
    and "recordSkillProjectionClaim parse owned i hash data = Inr data'"
    and "removeSkillProjectionClaim parse owned' k data' = Inr (removed, data'')"
  shows "claim_hash parse j data' =
      (if j = i then Some hash else if identity_key j = identity_key i then None else claim_hash parse j data) \<and>
    removed = (claim_hash parse k data' \<noteq> None) \<and> (\<not> removed \<longrightarrow> data'' = data') \<and>
    claim_hash parse j data'' = (if j = k then None else claim_hash parse j data')"
  using json_file_codec.record_law [OF json_file_codecI [OF assms(1,2)] assms(3,4)]
    json_file_codec.remove_law [OF json_file_codecI [OF assms(1,2)] _ assms(5)] by simp

lemma claim_updates_exact_witness:
  "\<exists>data' data''. recordSkillProjectionClaim json_parse True sample_identity ''h1'' None = Inr data' \<and>
     removeSkillProjectionClaim json_parse True sample_identity data' = Inr (True, data'') \<and>
     claim_hash json_parse sample_identity data' = Some ''h1'' \<and> claim_hash json_parse sample_identity data'' = None"
proof -
  obtain d where d: "recordSkillProjectionClaim json_parse True sample_identity ''h1'' None = Inr d"
    using sample_recorded by blast
  have h: "claim_hash json_parse sample_identity d = Some ''h1''"
    using parser.record_law [OF ledger_ok_empty d] by simp
  obtain b d' where r: "removeSkillProjectionClaim json_parse True sample_identity d = Inr (b, d')"
    using remove_owned_total [OF sample_identity_ok] by blast
  from claim_updates_exact [OF parser.parse_stringify parser.parse_pretty ledger_ok_empty d r, of sample_identity] d r h
  show ?thesis by auto
qed


section \<open>Materializations\<close>

abbreviation receipts :: "(string \<Rightarrow> json option) \<Rightarrow> lock_file \<Rightarrow> string \<Rightarrow> materialization option" where
  "receipts parse data \<equiv> map_get (sl_materializations (readSkillsLock parse data))"

lemma lock_ok_set_materialization:
  "lock_ok lock \<Longrightarrow> materialization_ok k m \<Longrightarrow> lock_ok (lock\<lparr>sl_materializations := map_set k m (sl_materializations lock)\<rparr>)"
  using set_map_set_subset [of k m "sl_materializations lock"] by (fastforce simp: lock_ok_def)

lemma lock_ok_delete_materialization:
  "lock_ok lock \<Longrightarrow> lock_ok (lock\<lparr>sl_materializations := map_delete k (sl_materializations lock)\<rparr>)"
  using set_map_delete [of k "sl_materializations lock"] by (fastforce simp: lock_ok_def)

lemma assert_materialization_input_ok:
  "assert_materialization_input i = Inr () \<Longrightarrow>
     materialization_ok (materialization_key i) (materialization_of i) \<and> mi_reconcileAgentId i \<noteq> Some [] \<and>
     mt_reconcile_agent_id (materialization_of i) = mi_reconcileAgentId i"
  by (auto simp: assert_materialization_input_def bind_res_Inr_iff assertValidMaterializationIdentity_def
      materialization_ok_def materialization_of_def materialization_key_def split: if_splits option.splits)

lemma receipt_same_local:
  "receipts parse data (materialization_key i) = Some m \<Longrightarrow> same_local i m"
  using readSkillsLock_materializations_ok [of parse data] map_get_SomeD [of "sl_materializations (readSkillsLock parse data)"]
  by (fastforce simp: same_local_def materialization_key_def materialization_ok_def)

lemma read_receipt:
  "readProjectSkillMaterialization parse i data =
     bind_res (assertValidMaterializationIdentity i) (\<lambda>_. Inr (receipts parse data (materialization_key i)))"
  using receipt_same_local [of parse data i]
  by (cases "assertValidMaterializationIdentity i") (auto simp: readProjectSkillMaterialization_def split: option.split)

context json_file_codec
begin

lemma committed_receipts:
  assumes "lock_ok lock" "commit_lock owned lock = Inr data'"
  shows "receipts parse data' = map_get (sl_materializations lock)"
  using read_committed(1) [OF assms] assms(1) by (simp add: sorted_lock_def lock_ok_def)

lemma record_receipt:
  assumes "ledger_ok parse data" "recordProjectSkillMaterialization parse owned i data = Inr data'"
  shows "ledger_ok parse data' \<and> assert_materialization_input i = Inr () \<and>
    receipts parse data' = (receipts parse data)(materialization_key i \<mapsto> materialization_of i)"
proof -
  let ?lock = "readSkillsLock parse data"
  from assms(2) have v: "assert_materialization_input i = Inr ()"
    and c: "commit_lock owned (?lock\<lparr>sl_materializations :=
      map_set (materialization_key i) (materialization_of i) (sl_materializations ?lock)\<rparr>) = Inr data'"
    by (auto simp: recordProjectSkillMaterialization_def bind_res_Inr_iff Let_def)
  have ok: "lock_ok (?lock\<lparr>sl_materializations :=
      map_set (materialization_key i) (materialization_of i) (sl_materializations ?lock)\<rparr>)"
    using assert_materialization_input_ok [OF v] by (intro lock_ok_set_materialization ledger_ok_lock [OF assms(1)]) simp
  show ?thesis using committed_receipts [OF ok c] read_committed(2) [OF ok c] v by (simp add: fun_eq_iff)
qed

lemma rollback_restores:
  assumes ok: "ledger_ok parse data"
    and mine: "receipts parse data (materialization_key i) = Some (materialization_of i)"
    and v: "assert_materialization_input i = Inr ()"
    and p: "\<forall>p. previous = Some p \<longrightarrow> materialization_ok (materialization_key i) p"
    and r: "rollback_materialization parse True i previous data = Inr data'"
  shows "receipts parse data' = (receipts parse data)(materialization_key i := previous)"
proof -
  let ?lock = "readSkillsLock parse data"
  let ?m = "case previous of Some p \<Rightarrow> map_set (materialization_key i) p (sl_materializations ?lock)
      | None \<Rightarrow> map_delete (materialization_key i) (sl_materializations ?lock)"
  have "same_source i (materialization_of i)" by (simp add: same_source_def materialization_of_def)
  then have c: "commit_lock True (?lock\<lparr>sl_materializations := ?m\<rparr>) = Inr data'"
    using r mine assert_materialization_input_ok [OF v] by (simp add: rollback_materialization_def Let_def)
  have ok': "lock_ok (?lock\<lparr>sl_materializations := ?m\<rparr>)"
    using p ledger_ok_lock [OF ok]
    by (cases previous) (simp_all add: lock_ok_set_materialization lock_ok_delete_materialization)
  show ?thesis using committed_receipts [OF ok' c] by (cases previous) (simp_all add: fun_eq_iff)
qed

end

lemma rollback_owned_total: "\<exists>data'. rollback_materialization parse True i previous data = Inr data'"
  by (cases "receipts parse data (materialization_key i)")
    (auto simp: rollback_materialization_def Let_def commit_lock_def)

text \<open>The receipt the ledger holds for the identity is the one of this very attempt: same source, same Agent.\<close>

definition holds_attempt :: "(string \<Rightarrow> json option) \<Rightarrow> materialization_input \<Rightarrow> lock_file \<Rightarrow> bool" where
  "holds_attempt parse i data \<longleftrightarrow> (\<exists>m. receipts parse data (materialization_key i) = Some m \<and>
     same_source i m \<and> mt_reconcile_agent_id m = mi_reconcileAgentId i)"

lemma rollback_foreign: "\<not> holds_attempt parse i data \<Longrightarrow> rollback_materialization parse owned i previous data = Inr data"
  by (auto simp: holds_attempt_def rollback_materialization_def Let_def split: option.split)

lemma rollback_lost: "holds_attempt parse i data \<Longrightarrow> rollback_materialization parse False i previous data = Inl LeaseLost"
  by (auto simp: holds_attempt_def rollback_materialization_def commit_lock_def)

context json_file_codec
begin

lemma rollback_own:
  assumes ok: "ledger_ok parse data" and own: "holds_attempt parse i data"
    and p: "\<forall>p. previous = Some p \<longrightarrow> materialization_ok (materialization_key i) p"
    and r: "rollback_materialization parse True i previous data = Inr data'"
  shows "receipts parse data' = (receipts parse data)(materialization_key i := previous)"
proof -
  let ?lock = "readSkillsLock parse data"
  let ?m = "case previous of Some p \<Rightarrow> map_set (materialization_key i) p (sl_materializations ?lock)
      | None \<Rightarrow> map_delete (materialization_key i) (sl_materializations ?lock)"
  have c: "commit_lock True (?lock\<lparr>sl_materializations := ?m\<rparr>) = Inr data'"
    using r own by (auto simp: rollback_materialization_def Let_def holds_attempt_def)
  have ok': "lock_ok (?lock\<lparr>sl_materializations := ?m\<rparr>)"
    using p ledger_ok_lock [OF ok]
    by (cases previous) (simp_all add: lock_ok_set_materialization lock_ok_delete_materialization)
  show ?thesis using committed_receipts [OF ok' c] by (cases previous) (simp_all add: fun_eq_iff)
qed

end

lemma record_holds_attempt:
  assumes "json_file_codec parse" "ledger_ok parse data" "recordProjectSkillMaterialization parse owned i data = Inr data1"
  shows "holds_attempt parse i data1"
proof -
  note rec = json_file_codec.record_receipt [OF assms]
  then have "mt_reconcile_agent_id (materialization_of i) = mi_reconcileAgentId i"
    using assert_materialization_input_ok [of i] by (simp add: materialization_ok_def)
  then show ?thesis using rec by (simp add: holds_attempt_def same_source_def materialization_of_def)
qed

lemma commit_failed_result:
  assumes rec: "recordProjectSkillMaterialization parse owned i data = Inr data1"
    and fails: "activate data1 = (Some err, data2)"
  shows "commitProjectSkillMaterialization parse owned owned_back i activate data =
    (case rollback_materialization parse owned_back i (receipts parse data (materialization_key i)) data2 of
       Inl e \<Rightarrow> (Some e, data2) | Inr data3 \<Rightarrow> (Some err, data3))"
proof -
  have "assertValidMaterializationIdentity i = Inr ()"
    using rec by (auto simp: recordProjectSkillMaterialization_def assert_materialization_input_def bind_res_Inr_iff)
  then have "readProjectSkillMaterialization parse i data = Inr (receipts parse data (materialization_key i))"
    by (simp add: read_receipt)
  then show ?thesis using rec fails by (simp add: commitProjectSkillMaterialization_def)
qed

text \<open>C8. What is left of a failed activation, whatever happened to the ledger while it ran. While the
  ledger still holds the receipt of this attempt and the lease is owned, the error is passed on, the
  receipt of the identity reads as before the attempt and every other receipt as the activation left
  it; in particular every receipt reads as before when nobody else wrote meanwhile. If the lease is
  lost, that is the error and nothing is written; if the receipt is gone or of another attempt, the
  error is passed on and nothing is written.\<close>

theorem failed_activation_restores_receipts:
  assumes "\<And>j. json_ok j \<Longrightarrow> parse (stringify j) = Some j"
    and "\<And>j. json_ok j \<Longrightarrow> parse (stringify_pretty j @ [newline]) = Some j"
    and "ledger_ok parse data" and "ledger_ok parse data2"
    and "recordProjectSkillMaterialization parse owned input data = Inr data1"
    and "activate data1 = (Some err, data2)"
    and "commitProjectSkillMaterialization parse owned owned_back input activate data = (e, data')"
  shows "(if \<not> holds_attempt parse input data2 then e = Some err \<and> data' = data2
     else if \<not> owned_back then e = Some LeaseLost \<and> data' = data2
     else e = Some err \<and>
       (\<forall>other. readProjectSkillMaterialization parse other data' = readProjectSkillMaterialization parse other
          (if materialization_key other = materialization_key input then data else data2))) \<and>
    (data2 = data1 \<longrightarrow> owned_back \<longrightarrow>
       (\<forall>other. readProjectSkillMaterialization parse other data' = readProjectSkillMaterialization parse other data))"
proof -
  note codec = json_file_codecI [OF assms(1,2)]
  let ?prev = "receipts parse data (materialization_key input)"
  note res = assms(7) [unfolded commit_failed_result [where activate = activate and owned_back = owned_back, OF assms(5) assms(6)]]
  have p: "\<forall>p. ?prev = Some p \<longrightarrow> materialization_ok (materialization_key input) p"
    using readSkillsLock_materializations_ok [of parse data] map_get_SomeD by fast
  have restored: "e = Some err \<and> receipts parse data' = (receipts parse data2)(materialization_key input := ?prev)"
    if own: "holds_attempt parse input data2" and "owned_back"
  proof -
    obtain d where d: "rollback_materialization parse True input ?prev data2 = Inr d"
      using rollback_owned_total by blast
    from json_file_codec.rollback_own [OF codec assms(4) own p d] res that(2) d show ?thesis by auto
  qed
  note rec = json_file_codec.record_receipt [OF codec assms(3,5)]
  have same: "receipts parse data' = receipts parse data" if "data2 = data1" "owned_back"
    using restored that record_holds_attempt [OF codec assms(3,5)] rec by (auto simp: fun_eq_iff)
  consider (foreign) "\<not> holds_attempt parse input data2" | (lost) "holds_attempt parse input data2" "\<not> owned_back"
    | (own) "holds_attempt parse input data2" owned_back by blast
  then show ?thesis
  proof cases
    case foreign
    then show ?thesis using res same by (simp add: read_receipt rollback_foreign)
  next
    case lost
    then show ?thesis using res by (simp add: read_receipt rollback_lost)
  next
    case own
    have "receipts parse data1 k = receipts parse data k" if "k \<noteq> materialization_key input" for k
      using that rec by simp
    then show ?thesis using own restored by (simp add: read_receipt)
  qed
qed

definition sample_input :: materialization_input where
  "sample_input = \<lparr>mi_agentType = ''codex'', mi_localSkillKey = ''notes'', mi_sourceProjectId = ''p1'',
     mi_sourceSkillKey = ''notes'', mi_contentHash = ''h'', mi_reconcileAgentId = Some ''a1''\<rparr>"

theorem failed_activation_restores_receipts_witness:
  "\<exists>e data'. commitProjectSkillMaterialization json_parse True True sample_input
       (\<lambda>d. (Some (LockError ''disk full''), d)) None = (e, data') \<and>
     e = Some (LockError ''disk full'') \<and>
     readProjectSkillMaterialization json_parse sample_input data' = readProjectSkillMaterialization json_parse sample_input None"
proof -
  have "isValidSkillKey ''notes''" by code_simp
  then obtain d1 where r: "recordProjectSkillMaterialization json_parse True sample_input None = Inr d1"
    by (simp add: recordProjectSkillMaterialization_def assert_materialization_input_def
        assertValidMaterializationIdentity_def sample_input_def commit_lock_def Let_def)
  obtain e d' where c: "commitProjectSkillMaterialization json_parse True True sample_input
       (\<lambda>d. (Some (LockError ''disk full''), d)) None = (e, d')"
    by (cases "commitProjectSkillMaterialization json_parse True True sample_input
       (\<lambda>d. (Some (LockError ''disk full''), d)) None")
  have own: "holds_attempt json_parse sample_input d1" and ok: "ledger_ok json_parse d1"
    using record_holds_attempt [OF parser.json_file_codec_axioms ledger_ok_empty r]
      parser.record_receipt [OF ledger_ok_empty r] by simp_all
  from failed_activation_restores_receipts [OF parser.parse_stringify parser.parse_pretty ledger_ok_empty ok r _ c,
      of "LockError ''disk full''"] c own show ?thesis by auto
qed

section \<open>Writers that read earlier\<close>

lemma map_get_spread: "wf_map b \<Longrightarrow> map_get (spread a b) = map_get a ++ map_get b"
proof (induction b arbitrary: a)
  case (Cons e b)
  obtain k v where e: "e = (k, v)" by (cases e)
  have wf: "wf_map b" and fresh: "k \<notin> fst ` set b" using Cons.prems e by (simp_all add: wf_map_def)
  have "map_get (spread a (e # b)) = map_get (map_set k v a) ++ map_get b"
    using Cons.IH [OF wf, of "map_set k v a"] e by (simp add: spread_def)
  also have "\<dots> = map_get a ++ map_get (e # b)"
    using fresh [folded map_of_eq_None_iff] e by (auto simp: fun_eq_iff map_add_def split: option.split)
  finally show ?case .
qed (simp add: spread_def)

lemma wf_spread: "wf_map a \<Longrightarrow> wf_map (spread a b)"
  unfolding spread_def by (induction b arbitrary: a) (auto simp: case_prod_unfold)

lemma set_spread: "set (spread a b) \<subseteq> set a \<union> set b"
proof (induction b arbitrary: a)
  case (Cons e b)
  have "set (spread a (e # b)) \<subseteq> set (map_set (fst e) (snd e) a) \<union> set b"
    using Cons.IH [of "map_set (fst e) (snd e) a"] by (simp add: spread_def case_prod_unfold)
  then show ?case using set_map_set_subset [of "fst e" "snd e" a] by auto
qed (simp add: spread_def)

lemma lock_ok_merged:
  assumes "ledger_ok parse data" "skills_ok sk"
  shows "lock_ok \<lparr>sl_skills = sk,
    sl_claims = spread (readProjectionClaims c) (sl_claims (readSkillsLock parse data)),
    sl_materializations = spread (readProjectSkillMaterializations m) (sl_materializations (readSkillsLock parse data))\<rparr>"
proof -
  have c: "wf_map (readProjectionClaims c)" "\<forall>(k, v)\<in>set (readProjectionClaims c). claim_ok k v"
    using read_entries_ok [of read_claim claim_ok, OF read_claim_ok] by (simp_all add: readProjectionClaims_def)
  have m: "wf_map (readProjectSkillMaterializations m)"
    "\<forall>(k, v)\<in>set (readProjectSkillMaterializations m). materialization_ok k v"
    using read_entries_ok [of read_materialization materialization_ok, OF read_materialization_ok]
    by (simp_all add: readProjectSkillMaterializations_def)
  have "\<forall>(k, v)\<in>set (spread (readProjectionClaims c) (sl_claims (readSkillsLock parse data))). claim_ok k v"
    using c(2) readSkillsLock_claims_ok [of parse data]
      set_spread [of "readProjectionClaims c" "sl_claims (readSkillsLock parse data)"] by blast
  moreover have "\<forall>(k, v)\<in>set (spread (readProjectSkillMaterializations m)
      (sl_materializations (readSkillsLock parse data))). materialization_ok k v"
    using m(2) readSkillsLock_materializations_ok [of parse data]
      set_spread [of "readProjectSkillMaterializations m" "sl_materializations (readSkillsLock parse data)"] by blast
  ultimately show ?thesis using assms c(1) m(1) by (simp add: lock_ok_def wf_spread)
qed

text \<open>A stale writer cannot erase: whatever lock a manual command read earlier and now writes, the
  claims and receipts committed since stay as they are; it can only add valid entries under other
  keys, and replace the hash cache.\<close>

lemma stale_write_keeps_entries:
  assumes "\<And>j. json_ok j \<Longrightarrow> parse (stringify j) = Some j"
    and "\<And>j. json_ok j \<Longrightarrow> parse (stringify_pretty j @ [newline]) = Some j"
    and "ledger_ok parse data" and "skills_ok (sl_skills lock)"
    and "writeSkillsLock parse owned lock data = Inr data'"
  shows "map_get (sl_claims (readSkillsLock parse data')) =
      map_get (readProjectionClaims (Some (entries_json claim_json (sl_claims lock)))) ++
      map_get (sl_claims (readSkillsLock parse data)) \<and>
    receipts parse data' =
      map_get (readProjectSkillMaterializations (Some (entries_json materialization_json (sl_materializations lock)))) ++
      receipts parse data \<and>
    map_get (sl_skills (readSkillsLock parse data')) = map_get (sl_skills lock)"
proof -
  note codec = json_file_codecI [OF assms(1,2)]
  define merged where "merged = \<lparr>sl_skills = sl_skills lock,
    sl_claims = spread (readProjectionClaims (Some (entries_json claim_json (sl_claims lock))))
      (sl_claims (readSkillsLock parse data)),
    sl_materializations = spread (readProjectSkillMaterializations
      (Some (entries_json materialization_json (sl_materializations lock))))
      (sl_materializations (readSkillsLock parse data))\<rparr>"
  have ok: "lock_ok merged" unfolding merged_def by (rule lock_ok_merged [OF assms(3,4)])
  have c: "commit_lock owned merged = Inr data'"
    using assms(5) by (simp add: writeSkillsLock_def Let_def merged_def)
  have r: "readSkillsLock parse data' = sorted_lock merged"
    by (rule json_file_codec.read_committed(1) [OF codec ok c])
  have "map_get (sl_claims (sorted_lock merged)) = map_get (sl_claims merged)"
    "map_get (sl_materializations (sorted_lock merged)) = map_get (sl_materializations merged)"
    "map_get (sl_skills (sorted_lock merged)) = map_get (sl_skills merged)"
    using ok by (simp_all add: sorted_lock_def lock_ok_def skills_ok_def)
  then show ?thesis
    using readSkillsLock_claims_ok [of parse data] readSkillsLock_materializations_ok [of parse data]
    unfolding r by (simp add: merged_def map_get_spread)
qed

lemma stale_write_keeps_entries_witness:
  "\<exists>d d'. recordSkillProjectionClaim json_parse True sample_identity ''h1'' None = Inr d \<and>
     writeSkillsLock json_parse True emptyLock d = Inr d' \<and>
     claim_hash json_parse sample_identity d' = Some ''h1''"
proof -
  obtain d where d: "recordSkillProjectionClaim json_parse True sample_identity ''h1'' None = Inr d"
    using sample_recorded by blast
  have h: "claim_hash json_parse sample_identity d = Some ''h1''" and ok: "ledger_ok json_parse d"
    using parser.record_law [OF ledger_ok_empty d] by simp_all
  obtain d' where w: "writeSkillsLock json_parse True emptyLock d = Inr d'"
    by (simp add: writeSkillsLock_def commit_lock_def Let_def)
  have "skills_ok (sl_skills emptyLock)" by (simp add: skills_ok_def emptyLock_def)
  from stale_write_keeps_entries [OF parser.parse_stringify parser.parse_pretty ok this w]
  have "map_get (sl_claims (readSkillsLock json_parse d')) = map_get (sl_claims (readSkillsLock json_parse d))"
    by (simp add: emptyLock_def readProjectionClaims_def read_entries_def entries_json_def)
  then show ?thesis using d w h by (simp add: claim_hash_lookup)
qed

end
