(* ===== verification/SessionsLock.thy ===== *)
theory SessionsLock
  imports SkillsLockLaws
begin

text \<open>
  The session upload ledger, \<open>packages/cli/src/lib/sessions-lock.ts\<close>: for each fenced session what
  was last uploaded and what is pending. Entries are kept as the parsed JSON objects, because the
  code checks only their identity and protocol and passes the other fields through.

  \<open>sha256\<close> is the hexadecimal digest of \<open>node:crypto\<close>; nothing below assumes it free of collisions
  unless it says so. \<open>date_parse\<close> is \<open>Date.parse\<close>, with \<^term>\<open>None\<close> for \<open>NaN\<close>.
\<close>

section \<open>Data\<close>

record session_fence =
  fe_profileKey :: "string option"
  fe_apiOrigin :: string
  fe_environmentId :: string
  fe_adapter :: string
  fe_sourceSessionKey :: string

record upload_block =
  bl_code :: string
  bl_content_hash :: string
  bl_size_bytes :: "int option"
  bl_message :: string
  bl_blocked_at :: string
  bl_cli_version :: "string option"

record revision_update =
  up_fence :: session_fence
  up_protocol :: string
  up_localHash :: string
  up_sourceRevision :: string

type_synonym sessions_lock = "(string, json) js_map"

definition sessions_lock_version :: int where
  "sessions_lock_version = 2"

definition isSessionBlockCurrent :: "(string \<Rightarrow> int option) \<Rightarrow> string \<Rightarrow> upload_block \<Rightarrow> int \<Rightarrow> bool" where
  "isSessionBlockCurrent date_parse cliVersion block now \<longleftrightarrow>
     bl_cli_version block = Some cliVersion \<and>
     (case date_parse (bl_blocked_at block) of
        None \<Rightarrow> False
      | Some blockedAt \<Rightarrow> blockedAt \<le> now \<and> now - blockedAt \<le> 24 * 60 * 60 * 1000)"

definition fence_identity :: "session_fence \<Rightarrow> json" where
  "fence_identity fence =
     JArr [JStr (fe_apiOrigin fence), JStr (fe_environmentId fence), JStr (fe_adapter fence),
       JStr (fe_sourceSessionKey fence)]"

definition sessionFenceKey :: "(string \<Rightarrow> string) \<Rightarrow> session_fence \<Rightarrow> string" where
  "sessionFenceKey sha256 fence = ''v2:'' @ sha256 (stringify (fence_identity fence))"

definition isFencedSessionLockEntry :: "json \<Rightarrow> bool" where
  "isFencedSessionLockEntry v \<longleftrightarrow>
     is_record v \<and> is_string (jprop v ''api_origin'') \<and> is_string (jprop v ''environment_id'') \<and>
     is_string (jprop v ''adapter'') \<and> is_string (jprop v ''source_session_key'') \<and>
     optional_string (jprop v ''profile_key'') \<and>
     (jprop v ''protocol'' = Some (JStr ''snapshot-v1'') \<or> jprop v ''protocol'' = Some (JStr ''events-v1'')) \<and>
     optional_string (jprop v ''source_revision'')"

definition exact_fence :: "session_fence \<Rightarrow> json \<Rightarrow> bool" where
  "exact_fence fence entry \<longleftrightarrow>
     jprop entry ''api_origin'' = Some (JStr (fe_apiOrigin fence)) \<and>
     jprop entry ''environment_id'' = Some (JStr (fe_environmentId fence)) \<and>
     jprop entry ''adapter'' = Some (JStr (fe_adapter fence)) \<and>
     jprop entry ''source_session_key'' = Some (JStr (fe_sourceSessionKey fence))"

definition readFencedSessionEntry ::
  "(string \<Rightarrow> string) \<Rightarrow> sessions_lock \<Rightarrow> session_fence \<Rightarrow> json option" where
  "readFencedSessionEntry sha256 lock fence =
     (case map_get lock (sessionFenceKey sha256 fence) of
        None \<Rightarrow> None
      | Some entry \<Rightarrow>
          if \<not> isFencedSessionLockEntry entry then None
          else if exact_fence fence entry then Some entry else None)"

text \<open>The object literal of \<open>writeFencedSessionEntry\<close>: the fence, the caller's fields over it, the
  profile of the fence over both.\<close>

definition fenced_entry :: "session_fence \<Rightarrow> (string \<times> json) list \<Rightarrow> json" where
  "fenced_entry fence entry =
     JObj (spread (spread
       [(''api_origin'', JStr (fe_apiOrigin fence)), (''environment_id'', JStr (fe_environmentId fence)),
        (''adapter'', JStr (fe_adapter fence)), (''source_session_key'', JStr (fe_sourceSessionKey fence))]
       entry)
       (case fe_profileKey fence of None \<Rightarrow> [] | Some p \<Rightarrow> [(''profile_key'', JStr p)]))"

definition writeFencedSessionEntry ::
  "(string \<Rightarrow> string) \<Rightarrow> sessions_lock \<Rightarrow> session_fence \<Rightarrow> (string \<times> json) list \<Rightarrow> sessions_lock" where
  "writeFencedSessionEntry sha256 lock fence entry =
     map_set (sessionFenceKey sha256 fence) (fenced_entry fence entry) lock"

definition readSessionsLock :: "(string \<Rightarrow> json option) \<Rightarrow> lock_file \<Rightarrow> sessions_lock" where
  "readSessionsLock parse data =
     (case data of
        None \<Rightarrow> []
      | Some content \<Rightarrow>
          (case parse content of
             None \<Rightarrow> []
           | Some raw \<Rightarrow>
               (case jprop raw ''sessions'' of
                  Some (JObj entries) \<Rightarrow>
                    if is_record raw \<and> jprop raw ''version'' = Some (JNum sessions_lock_version)
                    then fold (\<lambda>(key, value) sessions.
                      if isFencedSessionLockEntry value then map_set key value sessions else sessions) entries []
                    else []
                | _ \<Rightarrow> [])))"

definition sessions_json :: "sessions_lock \<Rightarrow> json" where
  "sessions_json lock = JObj [(''version'', JNum sessions_lock_version), (''sessions'', JObj lock)]"

definition writeSessionsLock :: "sessions_lock \<Rightarrow> lock_file" where
  "writeSessionsLock lock = Some (stringify_pretty (sessions_json (sort_keys lock)) @ [newline])"

definition persistFencedSessionEntry ::
  "(string \<Rightarrow> json option) \<Rightarrow> (string \<Rightarrow> string) \<Rightarrow> session_fence \<Rightarrow> (string \<times> json) list \<Rightarrow> lock_file \<Rightarrow> lock_file" where
  "persistFencedSessionEntry parse sha256 fence entry data =
     writeSessionsLock (writeFencedSessionEntry sha256 (readSessionsLock parse data) fence entry)"

fun set_field :: "string \<Rightarrow> json \<Rightarrow> json \<Rightarrow> json" where
  "set_field k v (JObj fs) = JObj (map_set k v fs)"
| "set_field k v j = j"

text \<open>One turn of the loop of \<open>persistFencedSessionSourceRevisions\<close>: the lock and \<open>changed\<close>.\<close>

definition revision_step ::
  "(string \<Rightarrow> string) \<Rightarrow> revision_update \<Rightarrow> sessions_lock \<times> bool \<Rightarrow> sessions_lock \<times> bool" where
  "revision_step sha256 update st =
     (case st of (lock, changed) \<Rightarrow>
        (case readFencedSessionEntry sha256 lock (up_fence update) of
           None \<Rightarrow> (lock, changed)
         | Some entry \<Rightarrow>
             if jprop entry ''pending'' \<noteq> None \<or>
                jprop entry ''protocol'' \<noteq> Some (JStr (up_protocol update)) \<or>
                jprop entry ''local_hash'' \<noteq> Some (JStr (up_localHash update)) \<or>
                jprop entry ''source_revision'' = Some (JStr (up_sourceRevision update))
             then (lock, changed)
             else (map_set (sessionFenceKey sha256 (up_fence update))
                     (set_field ''source_revision'' (JStr (up_sourceRevision update)) entry) lock, True)))"

definition persistFencedSessionSourceRevisions ::
  "(string \<Rightarrow> json option) \<Rightarrow> (string \<Rightarrow> string) \<Rightarrow> revision_update list \<Rightarrow> lock_file \<Rightarrow> lock_file" where
  "persistFencedSessionSourceRevisions parse sha256 updates data =
     (if updates = [] then data
      else (case fold (revision_step sha256) updates (readSessionsLock parse data, False) of
              (lock, changed) \<Rightarrow> if changed then writeSessionsLock lock else data))"

section \<open>Reading back\<close>

definition sessions_ok :: "sessions_lock \<Rightarrow> bool" where
  "sessions_ok lock \<longleftrightarrow> wf_map lock \<and> (\<forall>(k, v)\<in>set lock. plain_key k \<and> isFencedSessionLockEntry v \<and> json_ok v)"

lemma sessions_ok_sort: "sessions_ok lock \<Longrightarrow> sessions_ok (sort_keys lock)"
  by (simp add: sessions_ok_def wf_sort_keys)

lemma read_sessions_fold:
  assumes "\<forall>(k, v)\<in>set entries. isFencedSessionLockEntry v" "distinct (map fst (acc @ entries))"
  shows "fold (\<lambda>(key, value) sessions.
      if isFencedSessionLockEntry value then map_set key value sessions else sessions) entries acc = acc @ entries"
  using assms
proof (induction entries arbitrary: acc)
  case (Cons e entries)
  obtain k v where e: "e = (k, v)" by (cases e)
  have "map_set k v acc = acc @ [(k, v)]" using Cons.prems(2) e by (intro map_set_fresh) auto
  with Cons.IH [of "acc @ [(k, v)]"] Cons.prems e show ?case by simp
qed simp

context json_file_codec
begin

lemma read_written_sessions:
  assumes "sessions_ok lock"
  shows "readSessionsLock parse (writeSessionsLock lock) = sort_keys lock"
proof -
  have ok: "sessions_ok (sort_keys lock)" by (rule sessions_ok_sort [OF assms])
  then have "json_ok (sessions_json (sort_keys lock))"
    by (auto simp: sessions_json_def sessions_ok_def wf_map_def list_all_iff plain_key_def sessions_lock_version_def
        safe_integer_def)
  note p = parse_pretty [OF this]
  have "\<forall>(k, v)\<in>set (sort_keys lock). isFencedSessionLockEntry v" "distinct (map fst ([] @ sort_keys lock))"
    using ok by (auto simp: sessions_ok_def wf_map_def)
  from read_sessions_fold [OF this] p show ?thesis
    by (simp add: readSessionsLock_def writeSessionsLock_def sessions_json_def)
qed

end

lemma readFenced_exact:
  "readFencedSessionEntry sha256 lock fence = Some entry \<Longrightarrow>
     map_get lock (sessionFenceKey sha256 fence) = Some entry \<and> isFencedSessionLockEntry entry \<and> exact_fence fence entry"
  by (auto simp: readFencedSessionEntry_def split: option.splits if_splits)

lemma sessionFenceKey_plain: "plain_key (sessionFenceKey sha256 fence)"
  by (simp add: sessionFenceKey_def plain_key_def)

lemma sessions_ok_set:
  "sessions_ok lock \<Longrightarrow> plain_key k \<Longrightarrow> isFencedSessionLockEntry v \<Longrightarrow> json_ok v \<Longrightarrow> sessions_ok (map_set k v lock)"
  using set_map_set_subset [of k v lock] by (fastforce simp: sessions_ok_def)

text \<open>What is persisted for a session is what the next upload reads: after writing a valid entry
  the ledger on disk answers its fence with exactly that object. Any other fence reads as before, or,
  should the digests collide, as absent: an entry is never taken for another session's.\<close>

lemma session_entry_read_back:
  fixes parse sha256 fence entry data
  assumes "\<And>j. json_ok j \<Longrightarrow> parse (stringify j) = Some j"
    and "\<And>j. json_ok j \<Longrightarrow> parse (stringify_pretty j @ [newline]) = Some j"
    and "sessions_ok (readSessionsLock parse data)"
    and "isFencedSessionLockEntry (fenced_entry fence entry)" and "exact_fence fence (fenced_entry fence entry)"
    and "json_ok (fenced_entry fence entry)"
  defines "after \<equiv> readSessionsLock parse (persistFencedSessionEntry parse sha256 fence entry data)"
  shows "readFencedSessionEntry sha256 after fence = Some (fenced_entry fence entry) \<and>
    (readFencedSessionEntry sha256 after other =
       (if sessionFenceKey sha256 other = sessionFenceKey sha256 fence
        then (if exact_fence other (fenced_entry fence entry) then Some (fenced_entry fence entry) else None)
        else readFencedSessionEntry sha256 (readSessionsLock parse data) other))"
proof -
  let ?lock = "map_set (sessionFenceKey sha256 fence) (fenced_entry fence entry) (readSessionsLock parse data)"
  have ok: "sessions_ok ?lock" by (rule sessions_ok_set [OF assms(3) sessionFenceKey_plain assms(4,6)])
  have "after = sort_keys ?lock"
    using json_file_codec.read_written_sessions [OF json_file_codecI [OF assms(1,2)] ok]
    by (simp add: after_def persistFencedSessionEntry_def writeFencedSessionEntry_def)
  then have "map_get after = map_get ?lock" using ok by (simp add: sessions_ok_def)
  then show ?thesis using assms(4,5) by (simp add: readFencedSessionEntry_def)
qed

definition sample_fence :: session_fence where
  "sample_fence = \<lparr>fe_profileKey = None, fe_apiOrigin = ''https://api'', fe_environmentId = ''env'',
     fe_adapter = ''codex'', fe_sourceSessionKey = ''s1''\<rparr>"

definition sample_entry :: "(string \<times> json) list" where
  "sample_entry = [(''protocol'', JStr ''events-v1''), (''local_hash'', JStr ''h1'')]"

lemma session_entry_read_back_witness:
  "readFencedSessionEntry id
     (readSessionsLock json_parse (persistFencedSessionEntry json_parse id sample_fence sample_entry None)) sample_fence =
   Some (fenced_entry sample_fence sample_entry)"
proof -
  have "sessions_ok (readSessionsLock json_parse None)" by (simp add: readSessionsLock_def sessions_ok_def)
  moreover have "isFencedSessionLockEntry (fenced_entry sample_fence sample_entry)"
    "exact_fence sample_fence (fenced_entry sample_fence sample_entry)"
    "json_ok (fenced_entry sample_fence sample_entry)"
    by (simp_all add: isFencedSessionLockEntry_def exact_fence_def fenced_entry_def sample_fence_def sample_entry_def
        spread_def optional_string_def plain_key_def)
  ultimately show ?thesis
    using session_entry_read_back [OF parser.parse_stringify parser.parse_pretty, of None sample_fence sample_entry id]
    by blast
qed

section \<open>Source revisions\<close>

text \<open>How one update may change an entry: it writes the new source revision, and only on an entry of
  exactly its session, with nothing pending, whose uploaded content is the content it saw.\<close>

definition acknowledges :: "revision_update \<Rightarrow> json \<Rightarrow> json \<Rightarrow> bool" where
  "acknowledges u before after \<longleftrightarrow>
     exact_fence (up_fence u) before \<and> jprop before ''pending'' = None \<and>
     jprop before ''protocol'' = Some (JStr (up_protocol u)) \<and>
     jprop before ''local_hash'' = Some (JStr (up_localHash u)) \<and>
     after = set_field ''source_revision'' (JStr (up_sourceRevision u)) before"

lemma revision_step_entry:
  "map_get (fst (revision_step sha256 u (lock, b))) k = map_get lock k \<or>
   (\<exists>before after. map_get lock k = Some before \<and>
      map_get (fst (revision_step sha256 u (lock, b))) k = Some after \<and> acknowledges u before after)"
proof (cases "readFencedSessionEntry sha256 lock (up_fence u)")
  case None
  then show ?thesis by (simp add: revision_step_def)
next
  case (Some entry)
  then show ?thesis using readFenced_exact [OF Some]
    by (auto simp: revision_step_def acknowledges_def)
qed

lemma set_field_jprop: "is_record j \<Longrightarrow> jprop (set_field k v j) k' = (if k' = k then Some v else jprop j k')"
  by (cases j) auto

lemma revision_steps_keep:
  assumes "map_get lock k = Some before" "is_record before"
  shows "\<exists>after. map_get (fst (fold (revision_step sha256) us (lock, b))) k = Some after \<and> is_record after \<and>
    (\<forall>f. f \<noteq> ''source_revision'' \<longrightarrow> jprop after f = jprop before f) \<and>
    (jprop after ''source_revision'' = jprop before ''source_revision'' \<or>
     (\<exists>u\<in>set us. exact_fence (up_fence u) before \<and> jprop before ''pending'' = None \<and>
        jprop before ''protocol'' = Some (JStr (up_protocol u)) \<and>
        jprop before ''local_hash'' = Some (JStr (up_localHash u)) \<and>
        jprop after ''source_revision'' = Some (JStr (up_sourceRevision u))))"
  using assms
proof (induction us arbitrary: lock b before)
  case (Cons u us)
  obtain lock' b' where st: "revision_step sha256 u (lock, b) = (lock', b')" by fastforce
  from revision_step_entry [of sha256 u lock b k] st
  consider "map_get lock' k = Some before"
    | mid where "map_get lock' k = Some mid" "acknowledges u before mid"
    using Cons.prems(1) by auto
  then show ?case
  proof cases
    case 1
    from Cons.IH [OF this Cons.prems(2), of b'] show ?thesis using st by fastforce
  next
    case 2
    then have mid: "is_record mid" "\<And>f. jprop mid f =
        (if f = ''source_revision'' then Some (JStr (up_sourceRevision u)) else jprop before f)"
      using Cons.prems(2) set_field_jprop [OF Cons.prems(2)]
      by (cases before; simp add: acknowledges_def)+
    have ef: "exact_fence f mid = exact_fence f before" for f by (simp add: exact_fence_def mid(2))
    from Cons.IH [OF 2(1) mid(1), of b'] obtain after where
      "map_get (fst (fold (revision_step sha256) us (lock', b'))) k = Some after" "is_record after"
      "\<forall>f. f \<noteq> ''source_revision'' \<longrightarrow> jprop after f = jprop mid f"
      "jprop after ''source_revision'' = jprop mid ''source_revision'' \<or>
       (\<exists>u\<in>set us. exact_fence (up_fence u) mid \<and> jprop mid ''pending'' = None \<and>
        jprop mid ''protocol'' = Some (JStr (up_protocol u)) \<and>
        jprop mid ''local_hash'' = Some (JStr (up_localHash u)) \<and>
        jprop after ''source_revision'' = Some (JStr (up_sourceRevision u)))" by blast
    then show ?thesis using st 2(2) by (intro exI [of _ after]) (auto simp: mid(2) ef acknowledges_def)
  qed
qed auto

lemma json_ok_set_field: "json_ok j \<Longrightarrow> json_ok v \<Longrightarrow> plain_key k \<Longrightarrow> json_ok (set_field k v j)"
proof (cases j)
  case (JObj fs)
  assume "json_ok j" "json_ok v" "plain_key k"
  then show ?thesis using JObj set_map_set_subset [of k v fs] wf_map_set [of fs k v]
    by (fastforce simp: list_all_iff wf_map_def)
qed simp_all

lemma fenced_set_revision:
  "isFencedSessionLockEntry j \<Longrightarrow> isFencedSessionLockEntry (set_field ''source_revision'' (JStr r) j)"
proof -
  assume f: "isFencedSessionLockEntry j"
  then have rec: "is_record j" by (simp add: isFencedSessionLockEntry_def)
  then have "is_record (set_field ''source_revision'' (JStr r) j)" by (cases j) auto
  then show ?thesis using f by (simp add: isFencedSessionLockEntry_def set_field_jprop [OF rec] optional_string_def)
qed

lemma revision_step_ok: "sessions_ok lock \<Longrightarrow> sessions_ok (fst (revision_step sha256 u (lock, b)))"
proof (cases "readFencedSessionEntry sha256 lock (up_fence u)")
  case None
  then show "sessions_ok lock \<Longrightarrow> ?thesis" by (simp add: revision_step_def)
next
  case (Some entry)
  assume ok: "sessions_ok lock"
  have "json_ok entry" "isFencedSessionLockEntry entry"
    using readFenced_exact [OF Some] ok map_get_SomeD [of lock "sessionFenceKey sha256 (up_fence u)" entry]
    by (auto simp: sessions_ok_def)
  then have "sessions_ok (map_set (sessionFenceKey sha256 (up_fence u))
      (set_field ''source_revision'' (JStr (up_sourceRevision u)) entry) lock)"
    by (intro sessions_ok_set ok sessionFenceKey_plain fenced_set_revision json_ok_set_field) (simp_all add: plain_key_def)
  then show ?thesis using Some ok by (simp add: revision_step_def)
qed

lemma revision_steps_ok: "sessions_ok lock \<Longrightarrow> sessions_ok (fst (fold (revision_step sha256) us (lock, b)))"
proof (induction us arbitrary: lock b)
  case (Cons u us)
  obtain lock' b' where st: "revision_step sha256 u (lock, b) = (lock', b')" by fastforce
  from revision_step_ok [OF Cons.prems, of sha256 u b] st Cons.IH [of lock' b'] show ?case by simp
qed simp

lemma revision_steps_unchanged:
  "\<not> snd (fold (revision_step sha256) us (lock, b)) \<Longrightarrow> fst (fold (revision_step sha256) us (lock, b)) = lock \<and> \<not> b"
proof (induction us arbitrary: lock b)
  case (Cons u us)
  obtain lock' b' where st: "revision_step sha256 u (lock, b) = (lock', b')" by fastforce
  then have "\<not> snd (fold (revision_step sha256) us (lock', b'))" using Cons.prems by simp
  from Cons.IH [OF this] have r: "fst (fold (revision_step sha256) us (lock', b')) = lock'" "\<not> b'" by blast+
  have "lock' = lock \<and> \<not> b" using st r(2) by (auto simp: revision_step_def split: option.splits if_splits)
  then show ?case using r st by simp
qed simp

text \<open>A source revision acknowledges only what was uploaded: after any batch of revision updates
  every stored session still has all its fields, and its \<open>source_revision\<close> is new only if some update
  of exactly that session named the protocol and the content hash on record while nothing was pending.
  A later scan that skips unchanged revisions therefore never skips content that was not uploaded.\<close>

lemma revision_updates_acknowledge_uploaded:
  assumes "\<And>j. json_ok j \<Longrightarrow> parse (stringify j) = Some j"
    and "\<And>j. json_ok j \<Longrightarrow> parse (stringify_pretty j @ [newline]) = Some j"
    and "sessions_ok (readSessionsLock parse data)"
    and "map_get (readSessionsLock parse data) k = Some before"
  shows "\<exists>after. map_get (readSessionsLock parse (persistFencedSessionSourceRevisions parse sha256 updates data)) k = Some after \<and>
    (\<forall>f. f \<noteq> ''source_revision'' \<longrightarrow> jprop after f = jprop before f) \<and>
    (jprop after ''source_revision'' = jprop before ''source_revision'' \<or>
     (\<exists>u\<in>set updates. exact_fence (up_fence u) before \<and> jprop before ''pending'' = None \<and>
        jprop before ''protocol'' = Some (JStr (up_protocol u)) \<and>
        jprop before ''local_hash'' = Some (JStr (up_localHash u)) \<and>
        jprop after ''source_revision'' = Some (JStr (up_sourceRevision u))))"
proof -
  let ?lock = "readSessionsLock parse data"
  obtain lock' changed where f: "fold (revision_step sha256) updates (?lock, False) = (lock', changed)" by fastforce
  have rec: "is_record before"
    using assms(3,4) map_get_SomeD [OF assms(4)] by (auto simp: sessions_ok_def isFencedSessionLockEntry_def)
  have "map_get (readSessionsLock parse (persistFencedSessionSourceRevisions parse sha256 updates data)) k = map_get lock' k"
  proof (cases "changed \<and> updates \<noteq> []")
    case True
    have ok: "sessions_ok lock'" using revision_steps_ok [OF assms(3), of sha256 updates False] f by simp
    have "readSessionsLock parse (writeSessionsLock lock') = sort_keys lock'"
      by (rule json_file_codec.read_written_sessions [OF json_file_codecI [OF assms(1,2)] ok])
    then show ?thesis using True f ok by (simp add: persistFencedSessionSourceRevisions_def sessions_ok_def)
  next
    case False
    then show ?thesis using revision_steps_unchanged [of sha256 updates ?lock False] f
      by (auto simp: persistFencedSessionSourceRevisions_def)
  qed
  with revision_steps_keep [OF assms(4) rec, of sha256 updates False] f show ?thesis by fastforce
qed

lemma revision_updates_acknowledge_uploaded_witness:
  "\<exists>data after. map_get (readSessionsLock json_parse (persistFencedSessionSourceRevisions json_parse id
      [\<lparr>up_fence = sample_fence, up_protocol = ''events-v1'', up_localHash = ''h1'', up_sourceRevision = ''r1''\<rparr>] data))
      (sessionFenceKey id sample_fence) = Some after \<and> jprop after ''local_hash'' = Some (JStr ''h1'')"
proof -
  let ?data = "persistFencedSessionEntry json_parse id sample_fence sample_entry None"
  let ?e = "fenced_entry sample_fence sample_entry"
  have e: "isFencedSessionLockEntry ?e" "exact_fence sample_fence ?e" "json_ok ?e" "jprop ?e ''local_hash'' = Some (JStr ''h1'')"
    by (simp_all add: isFencedSessionLockEntry_def exact_fence_def fenced_entry_def sample_fence_def sample_entry_def
        spread_def optional_string_def plain_key_def)
  let ?lock = "map_set (sessionFenceKey id sample_fence) ?e []"
  have ok: "sessions_ok ?lock"
    by (rule sessions_ok_set [OF _ sessionFenceKey_plain e(1,3)]) (simp add: sessions_ok_def)
  have "?data = writeSessionsLock ?lock"
    by (simp add: persistFencedSessionEntry_def writeFencedSessionEntry_def readSessionsLock_def)
  then have r: "readSessionsLock json_parse ?data = sort_keys ?lock" using parser.read_written_sessions [OF ok] by simp
  have m: "map_get (readSessionsLock json_parse ?data) (sessionFenceKey id sample_fence) = Some ?e"
    unfolding r using ok by (simp add: sessions_ok_def del: map_set.simps)
  have o: "sessions_ok (readSessionsLock json_parse ?data)" unfolding r by (rule sessions_ok_sort [OF ok])
  from revision_updates_acknowledge_uploaded [OF parser.parse_stringify parser.parse_pretty o m, of id
      "[\<lparr>up_fence = sample_fence, up_protocol = ''events-v1'', up_localHash = ''h1'', up_sourceRevision = ''r1''\<rparr>]"] e(4)
  obtain after where "map_get (readSessionsLock json_parse (persistFencedSessionSourceRevisions json_parse id
      [\<lparr>up_fence = sample_fence, up_protocol = ''events-v1'', up_localHash = ''h1'', up_sourceRevision = ''r1''\<rparr>] ?data))
      (sessionFenceKey id sample_fence) = Some after" "\<forall>f. f \<noteq> ''source_revision'' \<longrightarrow> jprop after f = jprop ?e f" by blast
  then show ?thesis using e(4) by (intro exI [of _ ?data] exI [of _ after]) simp
qed

end
