(* ===== verification/Engine.thy ===== *)
theory Engine
  imports Failures QueuePersistence SessionsLock
begin

text \<open>
  The state of the running sync engine (the locals of \<open>runSyncEngine\<close> and its module preparations in
  \<open>packages/cli/src/serve/sync-engine.ts\<close>) and the style its asynchronous functions are written in: a
  computation takes the state and ends with a thrown error or a value, and a new state.

  An \<open>await\<close> on the outside (the API, the file system) is a computation given as an argument: while
  it waits, the other tasks of the daemon run, so it may change the state. What it is allowed to
  change is said by the hypotheses of the theorems (\<open>quiet\<close> below). \<open>en_world\<close> is the outside.
\<close>

section \<open>State\<close>

text \<open>The request bodies of the session upload routes.\<close>

record content_request =
  ct_localSessionId :: string
  ct_environmentId :: string
  ct_profileKey :: "string option"
  ct_expectedContentHash :: string
  ct_file :: string

record append_request =
  ap_localSessionId :: string
  ap_environmentId :: string
  ap_profileKey :: "string option"
  ap_appendId :: string
  ap_generation :: string
  ap_baseRevision :: int
  ap_baseCount :: int
  ap_baseHeadHash :: string
  ap_finalCount :: int
  ap_finalHeadHash :: string
  ap_contentHash :: string
  ap_file :: string

record commit_request =
  cm_profile_key :: "string option"
  cm_append_id :: string
  cm_base_generation :: "string option"
  cm_base_revision :: int
  cm_base_count :: int
  cm_base_head_hash :: string
  cm_final_count :: int
  cm_final_head_hash :: string

record stage_request = commit_request +
  sg_environment_id :: string
  sg_generation :: string

record chunk_request =
  ck_localSessionId :: string
  ck_generation :: string
  ck_startSeq :: int
  ck_baseHeadHash :: string
  ck_contentHash :: string
  ck_file :: string

text \<open>The authenticated writes of the daemon to the Cloud, in order.\<close>

datatype api_call =
    DeleteAgentSkill (call_agent: string) (call_skill: string) (call_project: string)
  | UploadAgentSkill (call_agent: string) (call_skill: string) (call_project: string) (call_hash: string)
  | UploadSessionContent content_request
  | AppendSessionEvents append_request
  | StageGeneration string stage_request
  | UploadGenerationChunk chunk_request
  | CommitGeneration string string commit_request

record 'w engine =
  en_queue :: retry_queue
  en_skillsLock :: lock_file
  en_sessionsLock :: lock_file
  en_pushed :: "(string, string) js_map"
  en_pushedSessions :: "(string, string) js_map"
  en_inFlight :: "(string, string) js_map"
  en_health :: sync_health
  en_aborted :: bool
  en_calls :: "api_call list"
  en_world :: 'w

type_synonym ('w, 'a) eng = "'w engine \<Rightarrow> (sync_error + 'a) \<times> 'w engine"

definition eret :: "'a \<Rightarrow> ('w, 'a) eng" where
  "eret a = (\<lambda>s. (Inr a, s))"

definition ethrow :: "sync_error \<Rightarrow> ('w, 'a) eng" where
  "ethrow e = (\<lambda>s. (Inl e, s))"

definition ebind :: "('w, 'a) eng \<Rightarrow> ('a \<Rightarrow> ('w, 'b) eng) \<Rightarrow> ('w, 'b) eng" where
  "ebind m f = (\<lambda>s. case m s of (Inl e, s') \<Rightarrow> (Inl e, s') | (Inr a, s') \<Rightarrow> f a s')"

definition ethen :: "('w, 'a) eng \<Rightarrow> ('w, 'b) eng \<Rightarrow> ('w, 'b) eng" where
  "ethen m n = ebind m (\<lambda>_. n)"

definition egets :: "('w engine \<Rightarrow> 'a) \<Rightarrow> ('w, 'a) eng" where
  "egets f = (\<lambda>s. (Inr (f s), s))"

definition emodify :: "('w engine \<Rightarrow> 'w engine) \<Rightarrow> ('w, unit) eng" where
  "emodify f = (\<lambda>s. (Inr (), f s))"

definition ecatch :: "('w, 'a) eng \<Rightarrow> (sync_error \<Rightarrow> ('w, 'a) eng) \<Rightarrow> ('w, 'a) eng" where
  "ecatch m h = (\<lambda>s. case m s of (Inl e, s') \<Rightarrow> h e s' | (Inr a, s') \<Rightarrow> (Inr a, s'))"

definition elift :: "sync_error + 'a \<Rightarrow> ('w, 'a) eng" where
  "elift r = (\<lambda>s. (r, s))"

definition en_call :: "api_call \<Rightarrow> ('w, unit) eng" where
  "en_call c = emodify (\<lambda>s. s\<lparr>en_calls := en_calls s @ [c]\<rparr>)"

fun eforeach :: "'a list \<Rightarrow> ('a \<Rightarrow> ('w, unit) eng) \<Rightarrow> ('w, unit) eng" where
  "eforeach [] f = eret ()"
| "eforeach (x # xs) f = ethen (f x) (eforeach xs f)"

lemmas eng_defs = eret_def ethrow_def ebind_def ethen_def egets_def emodify_def ecatch_def elift_def en_call_def

text \<open>An error value of the ledger becomes a thrown \<open>Error\<close>; the ledger file is updated on success.\<close>

fun lock_message :: "lock_error \<Rightarrow> sync_error" where
  "lock_message (LockError m) = PlainError m"
| "lock_message LeaseLost = PlainError ''lease lost''"

section \<open>Queue operations of the engine\<close>

fun session_map_key :: "session_operation \<Rightarrow> string" where
  "session_map_key s = or_else (se_source_session_key s) (se_local_session_id s)"

text \<open>The \<open>onEvict\<close> callback: an evicted session push gives up its in-flight hash.\<close>

fun onEvict :: "queue_item \<Rightarrow> (string, string) js_map \<Rightarrow> (string, string) js_map" where
  "onEvict (SessionPush s) inFlight =
     (if map_get inFlight (session_map_key s) = Some (se_content_hash s)
      then map_delete (session_map_key s) inFlight else inFlight)"
| "onEvict _ inFlight = inFlight"

definition en_enqueue :: "queue_item_input \<Rightarrow> ('w, int) eng" where
  "en_enqueue input =
     (\<lambda>s. case enqueue input (en_queue s) of
        (version, q, evicted) \<Rightarrow>
          (Inr version, s\<lparr>en_queue := q, en_inFlight := fold onEvict evicted (en_inFlight s)\<rparr>))"

definition en_markDone :: "queue_item \<Rightarrow> ('w, bool) eng" where
  "en_markDone item =
     (\<lambda>s. case markDoneIfVersion item (en_queue s) of (removed, q) \<Rightarrow> (Inr removed, s\<lparr>en_queue := q\<rparr>))"

definition throwIfAborted :: "('w, unit) eng" where
  "throwIfAborted = (\<lambda>s. if en_aborted s then (Inl (Thrown ''AbortError''), s) else (Inr (), s))"

section \<open>Reasoning\<close>

text \<open>\<open>valid P m Q E\<close>: from a state in \<open>P\<close> the computation ends with a value in \<open>Q\<close> or an error in \<open>E\<close>.\<close>

definition valid :: "('w engine \<Rightarrow> bool) \<Rightarrow> ('w, 'a) eng \<Rightarrow> ('a \<Rightarrow> 'w engine \<Rightarrow> bool) \<Rightarrow> (sync_error \<Rightarrow> 'w engine \<Rightarrow> bool) \<Rightarrow> bool" where
  "valid P m Q E \<longleftrightarrow> (\<forall>s. P s \<longrightarrow> (case m s of (Inr a, s') \<Rightarrow> Q a s' | (Inl e, s') \<Rightarrow> E e s'))"

named_theorems vrules \<open>rules of the program logic\<close>

lemma validD: "valid P m Q E \<Longrightarrow> P s \<Longrightarrow> m s = (r, s') \<Longrightarrow> case r of Inr a \<Rightarrow> Q a s' | Inl e \<Rightarrow> E e s'"
  by (fastforce simp: valid_def split: sum.splits)

lemma valid_pre: "valid P' m Q E \<Longrightarrow> (\<And>s. P s \<Longrightarrow> P' s) \<Longrightarrow> valid P m Q E"
  by (fastforce simp: valid_def)

lemma valid_post:
  "valid P m Q' E' \<Longrightarrow> (\<And>a s. Q' a s \<Longrightarrow> Q a s) \<Longrightarrow> (\<And>e s. E' e s \<Longrightarrow> E e s) \<Longrightarrow> valid P m Q E"
  unfolding valid_def by (fastforce split: prod.splits sum.splits)

lemma valid_ret [vrules]: "valid (Q a) (eret a) Q E"
  by (simp add: valid_def eret_def)

lemma valid_throw [vrules]: "valid (E e) (ethrow e) Q E"
  by (simp add: valid_def ethrow_def)

lemma valid_gets [vrules]: "valid (\<lambda>s. Q (f s) s) (egets f) Q E"
  by (simp add: valid_def egets_def)

lemma valid_modify [vrules]: "valid (\<lambda>s. Q () (f s)) (emodify f) Q E"
  by (simp add: valid_def emodify_def)

lemma valid_bind: "valid P m R E \<Longrightarrow> (\<And>a. valid (R a) (f a) Q E) \<Longrightarrow> valid P (ebind m f) Q E"
  unfolding valid_def ebind_def by (fastforce split: prod.splits sum.splits)

lemma valid_then: "valid P m (\<lambda>_. R) E \<Longrightarrow> valid R n Q E \<Longrightarrow> valid P (ethen m n) Q E"
  unfolding ethen_def by (rule valid_bind)

lemma valid_if: "(b \<Longrightarrow> valid P m Q E) \<Longrightarrow> (\<not> b \<Longrightarrow> valid P n Q E) \<Longrightarrow> valid P (if b then m else n) Q E"
  by simp

lemma valid_catch: "valid P m Q R \<Longrightarrow> (\<And>e. valid (R e) (h e) Q E) \<Longrightarrow> valid P (ecatch m h) Q E"
  unfolding valid_def ecatch_def by (fastforce split: prod.splits sum.splits)

lemma valid_foreach: "(\<And>x. x \<in> set xs \<Longrightarrow> valid I (f x) (\<lambda>_. I) E) \<Longrightarrow> valid I (eforeach xs f) (\<lambda>_. I) E"
  by (induction xs) (auto intro: valid_then valid_ret)

text \<open>Computations that keep a predicate on the state, however they end.\<close>

definition keeps :: "('w engine \<Rightarrow> bool) \<Rightarrow> ('w, 'a) eng \<Rightarrow> bool" where
  "keeps I m \<longleftrightarrow> valid I m (\<lambda>_. I) (\<lambda>_. I)"

lemma keeps_ret: "keeps I (eret a)"
  by (simp add: keeps_def valid_def eret_def)

lemma keeps_throw: "keeps I (ethrow e)"
  by (simp add: keeps_def valid_def ethrow_def)

lemma keeps_gets: "keeps I (egets f)"
  by (simp add: keeps_def valid_def egets_def)

lemma keeps_lift: "keeps I (elift r)"
  by (auto simp: keeps_def valid_def elift_def split: sum.splits)

lemma keeps_modify: "(\<And>s. I s \<Longrightarrow> I (f s)) \<Longrightarrow> keeps I (emodify f)"
  by (simp add: keeps_def valid_def emodify_def)

lemma keeps_bind: "keeps I m \<Longrightarrow> (\<And>a. keeps I (f a)) \<Longrightarrow> keeps I (ebind m f)"
  unfolding keeps_def by (rule valid_bind)

lemma keeps_then: "keeps I m \<Longrightarrow> keeps I n \<Longrightarrow> keeps I (ethen m n)"
  unfolding keeps_def by (rule valid_then)

lemma keeps_if: "(b \<Longrightarrow> keeps I m) \<Longrightarrow> (\<not> b \<Longrightarrow> keeps I n) \<Longrightarrow> keeps I (if b then m else n)"
  by simp

lemma keeps_catch: "keeps I m \<Longrightarrow> (\<And>e. keeps I (h e)) \<Longrightarrow> keeps I (ecatch m h)"
  unfolding keeps_def by (rule valid_catch)

lemma keeps_foreach: "(\<And>x. x \<in> set xs \<Longrightarrow> keeps I (f x)) \<Longrightarrow> keeps I (eforeach xs f)"
  unfolding keeps_def by (rule valid_foreach)

lemma keeps_throwIfAborted: "keeps I throwIfAborted"
  by (simp add: keeps_def valid_def throwIfAborted_def)

lemmas keeps_rules = keeps_ret keeps_throw keeps_gets keeps_bind keeps_then keeps_if keeps_catch
  keeps_foreach keeps_throwIfAborted

lemma keepsD: "keeps I m \<Longrightarrow> I s \<Longrightarrow> m s = (r, s') \<Longrightarrow> I s'"
  by (auto simp: keeps_def valid_def split: sum.splits dest: spec [of _ s])

text \<open>What the outside may do while the engine awaits it: the other tasks enqueue, wait and persist
  (any run of queue operations that never completes the drain loop's item), touch the caches, health
  and files, but the engine's own list of Cloud writes is the engine's.\<close>

definition quiet :: "('w, 'a) eng \<Rightarrow> bool" where
  "quiet m \<longleftrightarrow> (\<forall>s. en_calls (snd (m s)) = en_calls s \<and> queue_reachable (en_queue s) (en_queue (snd (m s))))"

lemma queue_reachable_trans: "queue_reachable b c \<Longrightarrow> queue_reachable a b \<Longrightarrow> queue_reachable a c"
  by (induction rule: queue_reachable.induct) (auto intro: queue_reachable.intros)

text \<open>An engine that has just started.\<close>

definition fresh_engine :: "'w \<Rightarrow> 'w engine" where
  "fresh_engine w = \<lparr>en_queue = new_queue None, en_skillsLock = None, en_sessionsLock = None, en_pushed = [], en_pushedSessions = [],
     en_inFlight = [], en_health = new_health, en_aborted = False, en_calls = [], en_world = w\<rparr>"

end
