(* ===== verification/SkillInventory.thy ===== *)
theory SkillInventory
  imports Engine
begin

text \<open>
  From the local Skill inventory to queued work (\<open>packages/cli/src/serve/sync-engine.ts\<close>): which keys
  are synced, which directory owns a changed path, what a watcher event enqueues, the full
  reconciliation of inventory, claims and Cloud listing, and the paged, fenced listing itself.
\<close>

section \<open>The outside\<close>

record 'w skill_env =
  sv_parse :: "string \<Rightarrow> json option"
  sv_listKeys :: "('w, string list) eng"
  sv_folderHash :: "string \<Rightarrow> ('w, string) eng"
  sv_hasSkillMd :: "string \<Rightarrow> 'w engine \<Rightarrow> bool"
  sv_existsDir :: "string \<Rightarrow> 'w engine \<Rightarrow> bool"
  sv_ignoreUserSkill :: "string \<Rightarrow> 'w engine \<Rightarrow> bool"
  sv_localeLess :: "string \<Rightarrow> string \<Rightarrow> bool"
  sv_now :: "'w engine \<Rightarrow> string"

record engine_opts =
  op_environmentId :: string
  op_agentType :: string

section \<open>Keys\<close>

definition filterValidSkillKeysForSync :: "string list \<Rightarrow> string list" where
  "filterValidSkillKeysForSync keys = filter isValidSkillKey keys"

text \<open>The server events that concern Skills carry a key, a Project and a revision.\<close>

datatype server_event =
    Skill_event (ev_type: string) (ev_skill_key: string) (ev_project_id: string) (ev_revision: int)
  | Runtime_manifest_changed (ev_environment_id: string)
  | Runtime_vaults_changed (ev_environment_id: string)

fun isSkillSyncServerEvent :: "server_event \<Rightarrow> bool" where
  "isSkillSyncServerEvent (Skill_event t _ _ _) =
     (t \<in> {''skill_changed'', ''skill_deleted'', ''agent_skill_changed'', ''agent_skill_deleted''})"
| "isSkillSyncServerEvent _ = False"

definition skillInvalidationKey :: "server_event \<Rightarrow> string \<Rightarrow> string option" where
  "skillInvalidationKey event projectId =
     (if \<not> isSkillSyncServerEvent event \<or> ev_project_id event \<noteq> projectId then None
      else Some (ev_skill_key event))"

definition staleSkillProjectionProjectIds ::
  "(string \<Rightarrow> json option) \<Rightarrow> string \<Rightarrow> string \<Rightarrow> string \<Rightarrow> string \<Rightarrow> lock_file \<Rightarrow> string list" where
  "staleSkillProjectionProjectIds parse agentType agentId skillKey currentProjectId data =
     sort (map cl_project_id
       (filter (\<lambda>claim. cl_skill_key claim = skillKey \<and> cl_project_id claim \<noteq> currentProjectId)
         (readSkillProjectionClaimsForAgent parse agentType agentId data)))"

text \<open>Paths as \<open>node:path\<close> splits them on POSIX: \<open>dirname\<close> drops trailing slashes and the last component
  (of the relative paths the watcher passes).\<close>

definition path_components :: "string \<Rightarrow> string list" where
  "path_components p = split_on (CHR ''/'') (map (\<lambda>c. if c = backslash then CHR ''/'' else c) p)"

definition path_dirname :: "string \<Rightarrow> string" where
  "path_dirname p =
     (case butlast (split_on (CHR ''/'') (rev (dropWhile (\<lambda>c. c = CHR ''/'') (rev p)))) of
        [] \<Rightarrow> ''.''
      | parts \<Rightarrow> join_with ''/'' parts)"

fun owning_walk :: "nat \<Rightarrow> (string \<Rightarrow> bool) \<Rightarrow> string \<Rightarrow> string option" where
  "owning_walk 0 hasSkillMd cur = None"
| "owning_walk (Suc n) hasSkillMd cur =
     (if cur = [] \<or> cur = ''.'' \<or> cur = ''/'' then None
      else if hasSkillMd cur then Some cur
      else if path_dirname cur = cur then None
      else owning_walk n hasSkillMd (path_dirname cur))"

definition resolveOwningSkillKey :: "(string \<Rightarrow> bool) \<Rightarrow> string \<Rightarrow> string option" where
  "resolveOwningSkillKey hasSkillMd pathFromRoot =
     (if list_ex (\<lambda>seg. seg \<noteq> [] \<and> hd seg = CHR ''.'') (path_components pathFromRoot) then None
      else owning_walk 6 hasSkillMd pathFromRoot)"

section \<open>One key\<close>

definition en_materialization ::
  "'w skill_env \<Rightarrow> engine_opts \<Rightarrow> string \<Rightarrow> ('w, materialization option) eng" where
  "en_materialization env opts skillKey =
     (\<lambda>s. case readProjectSkillMaterialization (sv_parse env)
             \<lparr>mi_agentType = op_agentType opts, mi_localSkillKey = skillKey\<rparr> (en_skillsLock s) of
        Inl e \<Rightarrow> (Inl (lock_message e), s)
      | Inr m \<Rightarrow> (Inr m, s))"

definition skill_input_of :: "'w skill_env \<Rightarrow> engine_opts \<Rightarrow> string \<Rightarrow> string \<Rightarrow> 'w engine \<Rightarrow> skill_input" where
  "skill_input_of env opts skillKey projectId s =
     \<lparr>in_enqueued_at = sv_now env s, in_attempts = 0, in_skill_key = skillKey,
      in_agent_id = op_environmentId opts, in_project_id = projectId\<rparr>"

definition en_enqueueDelete :: "'w skill_env \<Rightarrow> engine_opts \<Rightarrow> string \<Rightarrow> string \<Rightarrow> ('w, unit) eng" where
  "en_enqueueDelete env opts skillKey projectId =
     (\<lambda>s. ethen (en_enqueue (SkillDeleteInput (skill_input_of env opts skillKey projectId s))) (eret ()) s)"

definition en_enqueuePush :: "'w skill_env \<Rightarrow> engine_opts \<Rightarrow> string \<Rightarrow> string \<Rightarrow> string \<Rightarrow> ('w, unit) eng" where
  "en_enqueuePush env opts skillKey projectId hash =
     (\<lambda>s. ethen (en_enqueue (SkillPushInput (skill_input_of env opts skillKey projectId s) hash)) (eret ()) s)"

text \<open>The first element after a stable sort by \<open>localeCompare\<close>.\<close>

fun locale_first :: "(string \<Rightarrow> string \<Rightarrow> bool) \<Rightarrow> skill_claim list \<Rightarrow> skill_claim option" where
  "locale_first lt [] = None"
| "locale_first lt (c # cs) =
     Some (fold (\<lambda>x best. if lt (cl_project_id x) (cl_project_id best) then x else best) cs c)"

fun is_pending_delete :: "string \<Rightarrow> string \<Rightarrow> string option \<Rightarrow> queue_item \<Rightarrow> bool" where
  "is_pending_delete skillKey agentId project (SkillDelete d) =
     (sk_skill_key d = skillKey \<and> sk_agent_id d = Some agentId \<and>
      (project = None \<or> sk_project_id d = project))"
| "is_pending_delete _ _ _ _ = False"

definition enqueueMaterializedSkillClaimCleanup ::
  "'w skill_env \<Rightarrow> engine_opts \<Rightarrow> string \<Rightarrow> ('w, unit) eng" where
  "enqueueMaterializedSkillClaimCleanup env opts skillKey =
     (\<lambda>s. case locale_first (sv_localeLess env)
             (filter (\<lambda>c. cl_skill_key c = skillKey)
               (readSkillProjectionClaimsForAgent (sv_parse env) (op_agentType opts) (op_environmentId opts)
                 (en_skillsLock s))) of
        None \<Rightarrow> (Inr (), s)
      | Some claim \<Rightarrow>
          if list_ex (is_pending_delete skillKey (op_environmentId opts) None) (rq_items (en_queue s))
          then (Inr (), s)
          else en_enqueueDelete env opts skillKey (cl_project_id claim) s)"

definition enqueueIfChanged :: "'w skill_env \<Rightarrow> engine_opts \<Rightarrow> string \<Rightarrow> string \<Rightarrow> ('w, unit) eng" where
  "enqueueIfChanged env opts skillKey projectId =
     (if \<not> isValidSkillKey skillKey then eret ()
      else ebind (en_materialization env opts skillKey) (\<lambda>m.
        if m \<noteq> None then enqueueMaterializedSkillClaimCleanup env opts skillKey
        else ebind (egets (\<lambda>s. sv_ignoreUserSkill env skillKey s \<or> \<not> sv_hasSkillMd env skillKey s)) (\<lambda>gone.
          if gone then
            ebind (egets (\<lambda>s. map_has (en_pushed s) skillKey)) (\<lambda>pushed.
              if \<not> pushed then eret () else en_enqueueDelete env opts skillKey projectId)
          else
            ebind
              (ecatch (ebind (sv_folderHash env skillKey) (\<lambda>hash. eret (Some hash))) (\<lambda>e.
                 ebind (egets (sv_existsDir env skillKey)) (\<lambda>present.
                   if present then ethrow e
                   else ebind (egets (\<lambda>s. map_has (en_pushed s) skillKey)) (\<lambda>pushed.
                     if pushed then ethen (en_enqueueDelete env opts skillKey projectId) (eret None)
                     else eret None))))
              (\<lambda>hash. case hash of
                 None \<Rightarrow> eret ()
               | Some h \<Rightarrow>
                   ebind (egets (\<lambda>s. map_get (en_pushed s) skillKey = Some h)) (\<lambda>same.
                     if same then eret () else en_enqueuePush env opts skillKey projectId h)))))"

section \<open>The whole inventory\<close>

definition exact_claims :: "'w skill_env \<Rightarrow> engine_opts \<Rightarrow> lock_file \<Rightarrow> skill_claim list" where
  "exact_claims env opts data =
     readSkillProjectionClaimsForAgent (sv_parse env) (op_agentType opts) (op_environmentId opts) data"

definition enqueueAbsentSkill ::
  "'w skill_env \<Rightarrow> engine_opts \<Rightarrow> string \<Rightarrow> string list \<Rightarrow> string list \<Rightarrow> string \<Rightarrow> ('w, unit) eng" where
  "enqueueAbsentSkill env opts projectId exactClaimKeys trusted skillKey =
     (\<lambda>s. if map_has (en_pushed s) skillKey \<or> skillKey \<in> set exactClaimKeys \<or> skillKey \<in> set trusted
          then (if list_ex (is_pending_delete skillKey (op_environmentId opts) (Some projectId)) (rq_items (en_queue s))
                then (Inr (), s) else en_enqueueDelete env opts skillKey projectId s)
          else (Inr (), s))"

fun matching_push :: "string \<Rightarrow> string \<Rightarrow> string \<Rightarrow> queue_item option \<Rightarrow> bool" where
  "matching_push agentId projectId hash (Some (SkillPush p h)) =
     (sk_agent_id p = Some agentId \<and> sk_project_id p = Some projectId \<and> h = hash)"
| "matching_push _ _ _ _ = False"

fun is_skill_delete :: "queue_item option \<Rightarrow> bool" where
  "is_skill_delete (Some (SkillDelete _)) = True"
| "is_skill_delete _ = False"

definition pending_operation :: "string \<Rightarrow> 'w engine \<Rightarrow> queue_item option" where
  "pending_operation skillKey s =
     List.find (\<lambda>i. isSkillOperation i \<and> item_skill_key i = skillKey) (rq_items (en_queue s))"

text \<open>The body of the loop of \<open>reconcileAgentSkillProjection\<close> for one key.\<close>

definition reconcile_key ::
  "'w skill_env \<Rightarrow> engine_opts \<Rightarrow> string \<Rightarrow> string list \<Rightarrow> string list \<Rightarrow> string list \<Rightarrow> string list \<Rightarrow> string \<Rightarrow> ('w, unit) eng" where
  "reconcile_key env opts projectId localKeys exactClaimKeys staleExactClaimKeys trusted skillKey =
     ethen throwIfAborted (ebind (en_materialization env opts skillKey) (\<lambda>m.
       if m \<noteq> None then enqueueMaterializedSkillClaimCleanup env opts skillKey
       else ebind (egets (sv_ignoreUserSkill env skillKey)) (\<lambda>reserved.
         if reserved \<or> skillKey \<notin> set localKeys
         then enqueueAbsentSkill env opts projectId exactClaimKeys trusted skillKey
         else
           ebind
             (ecatch (ebind (sv_folderHash env skillKey) (\<lambda>hash. eret (Some hash))) (\<lambda>e.
                ebind (egets (sv_existsDir env skillKey)) (\<lambda>present.
                  if present then ethrow e
                  else ethen (enqueueAbsentSkill env opts projectId exactClaimKeys trusted skillKey) (eret None))))
             (\<lambda>hash. case hash of
                None \<Rightarrow> eret ()
              | Some h \<Rightarrow>
                  ebind (egets (\<lambda>s.
                      let pending = pending_operation skillKey s
                      in matching_push (op_environmentId opts) projectId h pending \<or>
                         (map_get (en_pushed s) skillKey = Some h \<and> \<not> is_skill_delete pending \<and>
                          skillKey \<notin> set staleExactClaimKeys))) (\<lambda>settled.
                    if settled then eret () else en_enqueuePush env opts skillKey projectId h)))))"

definition reconcileAgentSkillProjection ::
  "'w skill_env \<Rightarrow> engine_opts \<Rightarrow> string \<Rightarrow> string list \<Rightarrow> ('w, unit) eng" where
  "reconcileAgentSkillProjection env opts projectId trusted =
     ebind (sv_listKeys env) (\<lambda>keys.
       ethen throwIfAborted
         (\<lambda>s. let localKeys = set_of_list (filterValidSkillKeysForSync keys);
                  claims = exact_claims env opts (en_skillsLock s);
                  exactClaimKeys = set_of_list (map cl_skill_key claims);
                  staleExactClaimKeys = set_of_list (map cl_skill_key
                    (filter (\<lambda>c. cl_project_id c \<noteq> projectId) claims));
                  allKeys = set_of_list (localKeys @ map_keys (en_pushed s) @ exactClaimKeys @ trusted)
              in eforeach (sort (filterValidSkillKeysForSync allKeys))
                   (reconcile_key env opts projectId localKeys exactClaimKeys staleExactClaimKeys trusted) s))"

section \<open>The Cloud listing\<close>

record page_response =
  pr_notModified :: bool
  pr_etag :: "string option"
  pr_data :: "sync_error + (int \<times> string list)"

record skill_listing =
  ls_skills :: "string list"
  ls_complete :: bool
  ls_notModified :: bool
  ls_revision :: "int option"
  ls_etag :: "string option"

text \<open>\<open>Number.parseInt(text, 10)\<close>.\<close>

definition parseInt10 :: "string \<Rightarrow> int option" where
  "parseInt10 text =
     (let t = dropWhile js_space text;
          neg = (t \<noteq> [] \<and> hd t = CHR ''-'');
          u = (if t \<noteq> [] \<and> (hd t = CHR ''-'' \<or> hd t = CHR ''+'') then tl t else t);
          ds = takeWhile is_dec u
      in if ds = [] then None else Some (if neg then - int (dec_value ds) else int (dec_value ds)))"

definition parseSkillsRevisionFromEtag :: "string option \<Rightarrow> int option" where
  "parseSkillsRevisionFromEtag etag =
     (case etag of
        None \<Rightarrow> None
      | Some t \<Rightarrow>
          if t = [] then None
          else (case parseInt10 (hd (split_on (CHR '':'') (filter (\<lambda>c. c \<noteq> double_quote) t))) of
                  None \<Rightarrow> None
                | Some n \<Rightarrow> if safe_integer n \<and> n \<ge> 0 then Some n else None))"

definition incompleteSkillListing :: "string list \<Rightarrow> skill_listing" where
  "incompleteSkillListing skills =
     \<lparr>ls_skills = skills, ls_complete = False, ls_notModified = False, ls_revision = None, ls_etag = None\<rparr>"

fun has_duplicate :: "string list \<Rightarrow> string list \<Rightarrow> bool" where
  "has_duplicate seen [] = False"
| "has_duplicate seen (k # ks) = (if k \<in> set seen then True else has_duplicate (k # seen) ks)"

text \<open>One page: what the loop returns, or the state of its variables for the next page.\<close>

definition list_page ::
  "nat \<Rightarrow> page_response \<Rightarrow> string option \<Rightarrow> string list \<Rightarrow> int option \<Rightarrow> int option \<Rightarrow>
   sync_error + (skill_listing + (string option \<times> string list \<times> int \<times> int))" where
  "list_page page res ifNoneMatch out seenTotal revision =
     (let etag = pr_etag res; pageRevision = parseSkillsRevisionFromEtag etag
      in if pr_notModified res
         then Inr (Inl \<lparr>ls_skills = [], ls_complete = (etag \<noteq> None), ls_notModified = True,
                ls_revision = pageRevision, ls_etag = etag\<rparr>)
         else (case pageRevision of
            None \<Rightarrow> Inr (Inl (incompleteSkillListing out))
          | Some pageRev \<Rightarrow>
              if revision \<noteq> None \<and> Some pageRev \<noteq> revision then Inr (Inl (incompleteSkillListing out))
              else if page > 1 \<and> etag \<noteq> ifNoneMatch \<and> ifNoneMatch \<noteq> None then Inr (Inl (incompleteSkillListing out))
              else (let ifNoneMatch1 = (if page = 1 then etag else ifNoneMatch)
                    in case pr_data res of
                         Inl e \<Rightarrow> Inl e
                       | Inr (pageTotal, items) \<Rightarrow>
                           if \<not> safe_integer pageTotal \<or> pageTotal < 0 then Inr (Inl (incompleteSkillListing out))
                           else if seenTotal \<noteq> None \<and> seenTotal \<noteq> Some pageTotal then Inr (Inl (incompleteSkillListing out))
                           else if has_duplicate out items then Inr (Inl (incompleteSkillListing out))
                           else (let out1 = out @ items
                                 in if int (length out1) > pageTotal then Inr (Inl (incompleteSkillListing out1))
                                    else if int (length out1) = pageTotal
                                    then Inr (Inl \<lparr>ls_skills = out1, ls_complete = True, ls_notModified = False,
                                           ls_revision = Some pageRev, ls_etag = ifNoneMatch1\<rparr>)
                                    else if length items < 200 then Inr (Inl (incompleteSkillListing out1))
                                    else Inr (Inr (ifNoneMatch1, out1, pageTotal, pageRev))))))"

text \<open>\<open>left\<close> pages may still be asked for; the code asks for at most 50.\<close>

fun list_pages ::
  "(nat \<Rightarrow> string option \<Rightarrow> ('w, page_response) eng) \<Rightarrow> nat \<Rightarrow> nat \<Rightarrow> string option \<Rightarrow> string list \<Rightarrow>
   int option \<Rightarrow> int option \<Rightarrow> ('w, skill_listing) eng" where
  "list_pages get 0 page ifNoneMatch out seenTotal revision =
     eret \<lparr>ls_skills = out, ls_complete = False, ls_notModified = False, ls_revision = revision, ls_etag = None\<rparr>"
| "list_pages get (Suc left) page ifNoneMatch out seenTotal revision =
     ebind (get page (if page = 1 then ifNoneMatch else None)) (\<lambda>res.
       case list_page page res ifNoneMatch out seenTotal revision of
         Inl e \<Rightarrow> ethrow e
       | Inr (Inl listing) \<Rightarrow> eret listing
       | Inr (Inr (ifNoneMatch1, out1, total1, pageRev)) \<Rightarrow>
           list_pages get left (page + 1) ifNoneMatch1 out1 (Some total1) (Some pageRev))"

definition listAllCloudSkills ::
  "(nat \<Rightarrow> string option \<Rightarrow> ('w, page_response) eng) \<Rightarrow> string option \<Rightarrow> ('w, skill_listing) eng" where
  "listAllCloudSkills get ifNoneMatch = list_pages get 50 1 ifNoneMatch [] None None"

record catch_up =
  cu_complete :: bool
  cu_changed :: bool
  cu_revision :: "int option"
  cu_etag :: "string option"

definition reconcileAgentSkillProjectionListing ::
  "'w skill_env \<Rightarrow> (nat \<Rightarrow> string option \<Rightarrow> ('w, page_response) eng) \<Rightarrow> engine_opts \<Rightarrow> string \<Rightarrow> string option \<Rightarrow>
   bool \<Rightarrow> ('w, catch_up) eng" where
  "reconcileAgentSkillProjectionListing env get opts projectId previousEtag forceComplete =
     ebind (listAllCloudSkills get (if forceComplete then None else previousEtag)) (\<lambda>listing.
       if \<not> ls_complete listing \<or> ls_revision listing = None \<or> ls_etag listing = None
       then eret \<lparr>cu_complete = False, cu_changed = False, cu_revision = None, cu_etag = None\<rparr>
       else if ls_notModified listing
       then eret \<lparr>cu_complete = True, cu_changed = False, cu_revision = ls_revision listing, cu_etag = ls_etag listing\<rparr>
       else ethen (reconcileAgentSkillProjection env opts projectId (set_of_list (ls_skills listing)))
         (eret \<lparr>cu_complete = True, cu_changed = (ls_etag listing \<noteq> previousEtag),
            cu_revision = ls_revision listing, cu_etag = ls_etag listing\<rparr>))"

text \<open>The answer is what \<open>setRevision\<close> is called with, if it is.\<close>

definition initialAgentProjectionSync ::
  "'w skill_env \<Rightarrow> (nat \<Rightarrow> string option \<Rightarrow> ('w, page_response) eng) \<Rightarrow> engine_opts \<Rightarrow> string \<Rightarrow>
   ('w, (int \<times> string) option) eng" where
  "initialAgentProjectionSync env get opts projectId =
     ethen (reconcileAgentSkillProjection env opts projectId [])
       (ecatch
         (ebind (reconcileAgentSkillProjectionListing env get opts projectId None False) (\<lambda>catchUp.
            case (cu_complete catchUp, cu_revision catchUp, cu_etag catchUp) of
              (True, Some pageRev, Some etag) \<Rightarrow>
                ethen (emodify (\<lambda>s. s\<lparr>en_health :=
                    health_clear Projection ''reconcile'' (health_clear Projection ''listing'' (en_health s))\<rparr>))
                  (eret (Some (pageRev, etag)))
            | _ \<Rightarrow>
                ethen (emodify (\<lambda>s. s\<lparr>en_health := health_set Projection ''listing''
                    ''reconcile: cloud skill listing was incomplete or unfenced'' False (en_health s)\<rparr>))
                  (eret None)))
         (\<lambda>error.
            if isAuthFailure error then ethrow error
            else ethen (emodify (\<lambda>s. s\<lparr>en_health := health_set Projection ''listing''
                (''legacy listing: '' @ toErrorMessage error) True (en_health s)\<rparr>))
              (eret None)))"

end
