(* ===== verification/SessionEvents.thy ===== *)
theory SessionEvents
  imports SessionsLock Failures
begin

text \<open>
  \<open>packages/cli/src/lib/session-events.ts\<close>: the canonical JSON text of an event, the identity of an
  event, the chained head hash of an event history, its line-delimited encoding and its projection to
  messages.

  An event is the JSON object the adapters build. SHA-256 is the argument \<open>sha\<close>, from bytes to the
  32 bytes of the digest; a byte is a character.
\<close>

section \<open>Canonical JSON\<close>

definition printable :: "char \<Rightarrow> bool" where
  "printable c \<longleftrightarrow> 32 \<le> (of_char c :: nat) \<and> (of_char c :: nat) \<le> 126"

definition ascii_replace :: "char \<Rightarrow> string" where
  "ascii_replace c = (if printable c then [c] else [backslash, CHR ''u''] @ hex4 c)"

definition asciiJsonString :: "string \<Rightarrow> string" where
  "asciiJsonString value = concat (map ascii_replace (json_string value))"

fun canonicalJson :: "json \<Rightarrow> string" where
  "canonicalJson JNull = ''null''"
| "canonicalJson (JBool b) = (if b then ''true'' else ''false'')"
| "canonicalJson (JStr s) = asciiJsonString s"
| "canonicalJson (JNum n) = stringify (JNum n)"
| "canonicalJson (JArr vs) = ''['' @ join_with '','' (map canonicalJson vs) @ '']''"
| "canonicalJson (JObj fs) =
     ''{'' @ join_with '','' (map (\<lambda>(k, t). asciiJsonString k @ '':'' @ t)
       (sort_keys (map (\<lambda>(k, v). (k, canonicalJson v)) fs))) @ ''}''"

section \<open>Hexadecimal\<close>

fun hex_encode :: "string \<Rightarrow> string" where
  "hex_encode [] = []"
| "hex_encode (c # cs) = hex_digit (of_char c div 16) # hex_digit (of_char c mod 16) # hex_encode cs"

text \<open>\<open>Buffer.from(text, "hex")\<close> stops at the first pair that is not hexadecimal.\<close>

fun hex_decode :: "string \<Rightarrow> string" where
  "hex_decode (a # b # cs) =
     (case (hex_value a, hex_value b) of
        (Some h, Some l) \<Rightarrow> char_of (16 * h + l) # hex_decode cs
      | _ \<Rightarrow> [])"
| "hex_decode _ = []"

section \<open>Heads\<close>

definition HEAD_DOMAIN :: string where
  "HEAD_DOMAIN = ''clawdi-events-v1'' @ [newline]"

definition EMPTY_EVENT_HEAD :: "(string \<Rightarrow> string) \<Rightarrow> string" where
  "EMPTY_EVENT_HEAD sha = hex_encode (sha HEAD_DOMAIN)"

definition hashCanonicalEvent :: "(string \<Rightarrow> string) \<Rightarrow> string \<Rightarrow> string \<Rightarrow> string" where
  "hashCanonicalEvent sha head encodedEvent = sha (head @ sha encodedEvent)"

definition bad_head :: sync_error where
  "bad_head = PlainError ''events-v1 base head must be a SHA-256 hex digest''"

definition advanceEventHead :: "(string \<Rightarrow> string) \<Rightarrow> string \<Rightarrow> json list \<Rightarrow> sync_error + string" where
  "advanceEventHead sha baseHead events =
     (let head = hex_decode baseHead
      in if length head \<noteq> 32 then Inl bad_head
         else Inr (hex_encode (fold (\<lambda>event h. hashCanonicalEvent sha h (canonicalJson event)) events head)))"

definition advanceCanonicalEventHead :: "(string \<Rightarrow> string) \<Rightarrow> string \<Rightarrow> string \<Rightarrow> sync_error + string" where
  "advanceCanonicalEventHead sha baseHead encodedEvent =
     (let head = hex_decode baseHead
      in if length head \<noteq> 32 then Inl bad_head
         else Inr (hex_encode (hashCanonicalEvent sha head encodedEvent)))"

section \<open>Events\<close>

text \<open>\<open>{ source: event.source, type: event.type }\<close>: an undefined property is left out by the encoder.\<close>

definition event_identity :: "json \<Rightarrow> json" where
  "event_identity event =
     JObj (List.map_filter (\<lambda>k. map_option (\<lambda>v. (k, v)) (jprop event k)) [''source'', ''type''])"

definition event_id_of :: "(string \<Rightarrow> string) \<Rightarrow> json \<Rightarrow> string" where
  "event_id_of sha event = hex_encode (sha (canonicalJson (event_identity event)))"

text \<open>\<open>{ ...draft, seq, event_id }\<close>.\<close>

fun with_identity :: "(string \<Rightarrow> string) \<Rightarrow> int \<Rightarrow> json \<Rightarrow> json" where
  "with_identity sha n (JObj fs) =
     JObj (map_set ''event_id'' (JStr (event_id_of sha (JObj fs))) (map_set ''seq'' (JNum n) fs))"
| "with_identity sha n draft = draft"

definition sequenceSessionEvents :: "(string \<Rightarrow> string) \<Rightarrow> json list \<Rightarrow> int \<Rightarrow> json list" where
  "sequenceSessionEvents sha drafts startSeq =
     map (\<lambda>(index, draft). with_identity sha (startSeq + int index) draft) (enumerate 0 drafts)"

record session_message =
  sm_role :: string
  sm_content :: string
  sm_model :: "string option"
  sm_timestamp :: "string option"

text \<open>A property that is a non-empty string, as \<open>event.model ? { model: event.model } : {}\<close> reads it.\<close>

definition truthy_string :: "json option \<Rightarrow> string option" where
  "truthy_string v = (case v of Some (JStr s) \<Rightarrow> if s = [] then None else Some s | _ \<Rightarrow> None)"

definition text_part :: "json \<Rightarrow> string option" where
  "text_part part =
     (if jprop part ''type'' = Some (JStr ''text'') then truthy_string (jprop part ''text'') else None)"

definition project_event :: "json \<Rightarrow> session_message option" where
  "project_event event =
     (if jprop event ''type'' \<noteq> Some (JStr ''message'') \<or>
         jprop event ''role'' \<notin> {Some (JStr ''user''), Some (JStr ''assistant'')} then None
      else if (case jprop event ''semantics'' of None \<Rightarrow> None | Some sem \<Rightarrow> jprop sem ''display'') = Some (JStr ''hidden'')
      then None
      else
        (let parts = (case jprop event ''parts'' of Some (JArr ps) \<Rightarrow> ps | _ \<Rightarrow> []);
             content = join_with [newline] (List.map_filter text_part parts)
         in if content = [] then None
            else Some \<lparr>sm_role = or_else (as_string (jprop event ''role'')) [], sm_content = content,
                   sm_model = truthy_string (jprop event ''model''),
                   sm_timestamp = truthy_string (jprop event ''timestamp'')\<rparr>))"

definition projectEventsToMessages :: "json list \<Rightarrow> session_message list" where
  "projectEventsToMessages events = List.map_filter project_event events"

definition encodeEventNdjson :: "json list \<Rightarrow> string" where
  "encodeEventNdjson events = concat (map (\<lambda>event. canonicalJson event @ [newline]) events)"

section \<open>What the canonical text determines\<close>

text \<open>The value with the members of every object in the order of their keys.\<close>

fun key_sorted :: "json \<Rightarrow> json" where
  "key_sorted (JArr vs) = JArr (map key_sorted vs)"
| "key_sorted (JObj fs) = JObj (sort_keys (map (\<lambda>(k, v). (k, key_sorted v)) fs))"
| "key_sorted v = v"

lemma sort_key_map: "sort_key f (map g xs) = map g (sort_key (\<lambda>x. f (g x)) xs)"
proof -
  have ins: "insort_key f (g x) (map g xs) = map g (insort_key (\<lambda>x. f (g x)) x xs)" for x xs
    by (induction xs) auto
  show ?thesis by (induction xs) (simp_all add: ins)
qed

lemma sort_keys_map: "sort_keys (map (\<lambda>(k, v). (k, h v)) fs) = map (\<lambda>(k, v). (k, h v)) (sort_keys fs)"
  unfolding sort_keys_def sort_key_map by (simp add: case_prod_unfold)

lemma sort_keys_idem [simp]: "sort_keys (sort_keys m) = sort_keys m"
  unfolding sort_keys_def by (rule sort_key_id_if_sorted) simp

lemma canonical_object:
  "canonicalJson (JObj fs) =
     ''{'' @ [] @ join_with ('','' @ []) (map (member_text asciiJsonString [] canonicalJson) (sort_keys fs)) @ [] @ ''}''"
  unfolding canonicalJson.simps sort_keys_map by (simp add: comp_def case_prod_unfold)

lemma ascii_escape_replaced:
  "pstring (concat (map ascii_replace (json_escape c)) @ rest) = push_char (Some c) (pstring rest)"
proof -
  have printable_code: "printable d \<longleftrightarrow> (of_char d :: nat) \<in> {32..126}" for d by (auto simp: printable_def)
  consider "json_escape c = [c]" "\<not> printable c" | "concat (map ascii_replace (json_escape c)) = json_escape c"
  proof -
    have hex: "printable (hex_digit d)" if "d < 16" for d
      using that by (auto simp: printable_def hex_digit_def take_bit_nat_eq_self)
    have "of_char c div 16 < (16::nat)" "of_char c mod 16 < (16::nat)"
      using nat_of_char_less_256 [of c] by (simp_all add: div_less_iff_less_mult)
    note h = this [THEN hex]
    show ?thesis
    proof (cases "json_escape c = [c]")
      case True
      then show ?thesis using that by (cases "printable c") (auto simp: ascii_replace_def)
    next
      case False
      have "\<forall>d\<in>set (json_escape c). printable d"
        using False h by (auto simp: json_escape_def hex4_def printable_def backslash_def double_quote_def split: if_splits)
      then have "concat (map ascii_replace (json_escape c)) = concat (map (\<lambda>d. [d]) (json_escape c))"
        by (intro arg_cong [where f = concat] map_cong) (auto simp: ascii_replace_def)
      then show ?thesis using that by simp
    qed
  qed
  then show ?thesis
  proof cases
    case 1
    then show ?thesis using punicode_hex4 [of c "pstring rest"]
      by (simp add: ascii_replace_def hex4_def backslash_def double_quote_def)
  next
    case 2
    then show ?thesis by (simp add: pstring_escape)
  qed
qed

lemma pstring_ascii:
  "pstring (concat (map ascii_replace (concat (map json_escape s))) @ double_quote # rest) = Some (s, rest)"
  by (induction s) (simp_all add: ascii_escape_replaced push_char_def)

lemma asciiJsonString_text:
  "asciiJsonString s = double_quote # concat (map ascii_replace (concat (map json_escape s))) @ [double_quote]"
  by (simp add: asciiJsonString_def json_string_def ascii_replace_def printable_def double_quote_def)

lemma literal_ascii: "literal asciiJsonString"
  unfolding literal_def by (auto simp: asciiJsonString_text pstring_ascii)

lemma canonical_first: "\<exists>c cs. canonicalJson v = c # cs \<and> \<not> is_ws c \<and> c \<noteq> CHR '']''"
  using stringify_first [of v]
  by (cases v) (auto simp: asciiJsonString_text double_quote_def is_ws_def)

lemma canonical_key_sorted: "canonicalJson (key_sorted j) = canonicalJson j"
proof (induction j)
  case (JObj fs)
  have "map (\<lambda>(k, v). (k, canonicalJson (key_sorted v))) fs = map (\<lambda>(k, v). (k, canonicalJson v)) fs"
    using JObj by (intro map_cong) auto
  moreover have "map (\<lambda>(k, v). (k, canonicalJson v)) (sort_keys (map (\<lambda>(k, v). (k, key_sorted v)) fs)) =
      sort_keys (map (\<lambda>(k, v). (k, canonicalJson (key_sorted v))) fs)"
    unfolding sort_keys_map by (simp add: comp_def case_prod_unfold)
  ultimately show ?case by (simp del: map_eq_conv)
qed (auto simp: comp_def cong: map_cong)

lemma reads_canonical: "json_ok j \<Longrightarrow> reads (key_sorted j) (canonicalJson j)"
proof (induction j)
  case (JArr vs)
  show ?case
  proof (cases "vs = []")
    case False
    have "\<forall>v\<in>set (map key_sorted vs). reads v (canonicalJson v)"
      using JArr by (auto simp: list_all_iff canonical_key_sorted)
    from reads_array [OF _ _ this canonical_first, of "[]" "[]"] False show ?thesis
      by (simp add: comp_def canonical_key_sorted)
  qed (use reads_render [of "\<lambda>_. []" "[]" "JArr []" 0] in simp)
next
  case (JObj fs)
  let ?fs = "sort_keys (map (\<lambda>(k, v). (k, key_sorted v)) fs)"
  show ?case
  proof (cases "fs = []")
    case False
    then have ne: "?fs \<noteq> []" using set_sort_keys [of "map (\<lambda>(k, v). (k, key_sorted v)) fs"] by (metis list.set(1) map_is_Nil_conv set_empty)
    have "distinct (map fst ?fs)"
      using JObj.prems wf_sort_keys [of "map (\<lambda>(k, v). (k, key_sorted v)) fs"]
      by (simp add: wf_map_def comp_def case_prod_unfold)
    moreover have "\<forall>(k, v)\<in>set ?fs. reads v (canonicalJson v)"
      using JObj by (fastforce simp: list_all_iff canonical_key_sorted)
    ultimately have "reads (JObj ?fs)
        (''{'' @ [] @ join_with ('','' @ []) (map (member_text asciiJsonString [] canonicalJson) ?fs) @ [] @ ''}'')"
      using ne literal_ascii by (intro reads_object) auto
    then show ?thesis using canonical_object [of ?fs] canonical_key_sorted [of "JObj fs"] by simp
  qed (use reads_render [of "\<lambda>_. []" "[]" "JObj []" 0] in \<open>simp add: sort_keys_def\<close>)
next
  case (JStr s)
  have "pvalue (Suc n) (asciiJsonString s @ rest) = Some (JStr s, rest)" for n rest
    by (simp add: asciiJsonString_text pstring_ascii)
  then show ?case unfolding reads_def by (auto simp: le_Suc_eq elim!: lessE [of 0] dest: Suc_le_D)
next
  case JNull
  show ?case using reads_render [of "\<lambda>_. []" "[]" JNull 0] by simp
next
  case (JBool b)
  show ?case using reads_render [of "\<lambda>_. []" "[]" "JBool b" 0] by simp
next
  case (JNum n)
  then show ?case using reads_render [of "\<lambda>_. []" "[]" "JNum n" 0] by simp
qed

lemma reads_unique: "reads a t \<Longrightarrow> reads b t \<Longrightarrow> a = b"
proof -
  assume "reads a t" "reads b t"
  then have "pvalue (max (jfuel a) (jfuel b)) (t @ []) = Some (a, [])" "pvalue (max (jfuel a) (jfuel b)) (t @ []) = Some (b, [])"
    unfolding reads_def by (metis max.cobounded1 max.cobounded2 no_dec_punct(4))+
  then show "a = b" by simp
qed

lemma printable_hex: "d < 16 \<Longrightarrow> printable (hex_digit d)"
  by (auto simp: printable_def hex_digit_def take_bit_nat_eq_self)

lemma printable_ascii: "c \<in> set (asciiJsonString s) \<Longrightarrow> printable c"
proof -
  have "\<forall>d\<in>set (ascii_replace e). printable d" for e
  proof -
    have "of_char e div 16 < (16::nat)" "of_char e mod 16 < (16::nat)"
      using nat_of_char_less_256 [of e] by (simp_all add: div_less_iff_less_mult)
    then show ?thesis using printable_hex
      by (auto simp: ascii_replace_def hex4_def) (auto simp: printable_def backslash_def)
  qed
  then show "c \<in> set (asciiJsonString s) \<Longrightarrow> ?thesis" by (auto simp: asciiJsonString_def)
qed

lemma printable_decimal: "c \<in> set (int_decimal n) \<Longrightarrow> printable c"
  using all_dec_nat_decimal
  by (fastforce simp: int_decimal_def is_dec_def printable_def split: if_splits)

lemma printable_canonical: "\<forall>c\<in>set (canonicalJson j). printable c"
proof (induction j)
  case (JArr vs)
  then show ?case using set_join_with [of "'',''" "map canonicalJson vs"] by (fastforce simp: printable_def)
next
  case (JObj fs)
  have "\<forall>c\<in>set (canonicalJson v). printable c" if "(k, v) \<in> set fs" for k v
    using JObj [OF that, of v] by simp
  moreover have "set (sort_keys fs) = set fs" by simp
  ultimately have "\<forall>p\<in>set (map (member_text asciiJsonString [] canonicalJson) (sort_keys fs)). \<forall>c\<in>set p. printable c"
    using printable_ascii by (fastforce simp: printable_def)
  then show ?case
    using set_join_with [of "'',''" "map (member_text asciiJsonString [] canonicalJson) (sort_keys fs)"]
    unfolding canonical_object by (fastforce simp: printable_def)
next
  case (JNum n)
  then show ?case using printable_decimal by simp
next
  case (JStr s)
  then show ?case using printable_ascii by simp
qed (simp_all add: printable_def)

text \<open>C12. The canonical text is canonical: two values have the same text exactly when they differ in
  nothing but the order of object members, and the text is printable ASCII, so that one event is one
  line of the upload.\<close>

theorem canonical_text_exact:
  assumes "json_ok a" and "json_ok b"
  shows "(canonicalJson a = canonicalJson b \<longleftrightarrow> key_sorted a = key_sorted b) \<and>
    list_all printable (canonicalJson a)"
proof -
  have "key_sorted a = key_sorted b" if "canonicalJson a = canonicalJson b"
    using reads_unique [OF reads_canonical [OF assms(1)]] reads_canonical [OF assms(2)] that by simp
  moreover have "canonicalJson a = canonicalJson b" if "key_sorted a = key_sorted b"
    using canonical_key_sorted [of a] canonical_key_sorted [of b] that by simp
  ultimately show ?thesis using printable_canonical [of a] by (auto simp: list_all_iff)
qed

theorem canonical_text_exact_witness:
  "canonicalJson (JObj [(''b'', JNum 1), (''a'', JStr [newline])]) =
     canonicalJson (JObj [(''a'', JStr [newline]), (''b'', JNum 1)]) \<and>
   list_all printable (canonicalJson (JObj [(''b'', JNum 1), (''a'', JStr [newline])]))"
  using canonical_text_exact [of "JObj [(''b'', JNum 1), (''a'', JStr [newline])]"
      "JObj [(''a'', JStr [newline]), (''b'', JNum 1)]"]
  by (simp add: sort_keys_def safe_integer_def plain_key_def)

section \<open>What a head determines\<close>

lemma hex_decode_encode [simp]: "hex_decode (hex_encode bs) = bs"
proof (induction bs)
  case (Cons c bs)
  have "of_char c div 16 < (16::nat)" "of_char c mod 16 < (16::nat)"
    using nat_of_char_less_256 [of c] by (simp_all add: div_less_iff_less_mult)
  moreover have "char_of (16 * (of_char c div 16) + of_char c mod 16 :: nat) = c" by simp
  ultimately show ?case using Cons by (simp add: hex_value_digit)
qed simp

lemma hex_encode_inject [simp]: "hex_encode a = hex_encode b \<longleftrightarrow> a = b"
  using hex_decode_encode by metis

text \<open>The chain over encoded events, as raw bytes, and everything it hashes.\<close>

definition chain_from :: "(string \<Rightarrow> string) \<Rightarrow> string \<Rightarrow> string list \<Rightarrow> string" where
  "chain_from sha start encs = fold (\<lambda>enc h. hashCanonicalEvent sha h enc) encs start"

abbreviation head_of :: "(string \<Rightarrow> string) \<Rightarrow> json list \<Rightarrow> string" where
  "head_of sha events \<equiv> hex_encode (chain_from sha (sha HEAD_DOMAIN) (map canonicalJson events))"

definition hash_inputs :: "(string \<Rightarrow> string) \<Rightarrow> string list \<Rightarrow> string set" where
  "hash_inputs sha encs = insert HEAD_DOMAIN (set encs \<union>
     {chain_from sha (sha HEAD_DOMAIN) (take n encs) @ sha (encs ! n) | n. n < length encs})"

lemma chain_from_simps [simp]:
  "chain_from sha h [] = h"
  "chain_from sha h (e # es) = chain_from sha (hashCanonicalEvent sha h e) es"
  "chain_from sha h (es @ es') = chain_from sha (chain_from sha h es) es'"
  by (simp_all add: chain_from_def)

lemma advanceEventHead_chain:
  "length (hex_decode h) = 32 \<Longrightarrow>
     advanceEventHead sha h events = Inr (hex_encode (chain_from sha (hex_decode h) (map canonicalJson events)))"
  by (simp add: advanceEventHead_def chain_from_def fold_map comp_def)

lemma hash_inputs_snoc: "hash_inputs sha encs \<subseteq> hash_inputs sha (encs @ [e])"
  by (fastforce simp: hash_inputs_def nth_append)

lemma hash_inputs_last:
  "e \<in> hash_inputs sha (encs @ [e])" "chain_from sha (sha HEAD_DOMAIN) encs @ sha e \<in> hash_inputs sha (encs @ [e])"
  "HEAD_DOMAIN \<in> hash_inputs sha encs"
proof -
  show "chain_from sha (sha HEAD_DOMAIN) encs @ sha e \<in> hash_inputs sha (encs @ [e])"
    unfolding hash_inputs_def by (intro insertI2 UnI2 CollectI exI [of _ "length encs"]) simp
qed (simp_all add: hash_inputs_def)

lemma chain_binds:
  assumes "\<And>x. length (sha x) = 32"
    and "chain_from sha (sha HEAD_DOMAIN) xs = chain_from sha (sha HEAD_DOMAIN) ys"
    and no: "\<And>a b. a \<in> hash_inputs sha xs \<Longrightarrow> b \<in> hash_inputs sha ys \<Longrightarrow> sha a = sha b \<Longrightarrow> a = b"
  shows "xs = ys"
  using assms(2) no
proof (induction xs arbitrary: ys rule: rev_induct)
  let ?c = "chain_from sha (sha HEAD_DOMAIN)"
  have len: "length (?c zs) = 32" for zs
    by (cases zs rule: rev_cases) (simp_all add: assms(1) hashCanonicalEvent_def)
  have dom: "HEAD_DOMAIN \<noteq> ?c zs @ sha z" for zs z
  proof
    assume "HEAD_DOMAIN = ?c zs @ sha z"
    then have "length HEAD_DOMAIN = length (?c zs @ sha z)" by simp
    then show False by (simp add: len assms(1) HEAD_DOMAIN_def)
  qed
  {
    case Nil
    show ?case
    proof (cases ys rule: rev_cases)
      case (snoc zs z)
      then have "sha HEAD_DOMAIN = sha (?c zs @ sha z)" using Nil.prems(1) by (simp add: hashCanonicalEvent_def)
      then show ?thesis using Nil.prems(2) [OF hash_inputs_last(3)] hash_inputs_last(2) [of sha zs z] snoc dom by blast
    qed simp
  next
    case (snoc x xs)
    show ?case
    proof (cases ys rule: rev_cases)
      case Nil
      then have "sha (?c xs @ sha x) = sha HEAD_DOMAIN" using snoc.prems(1) by (simp add: hashCanonicalEvent_def)
      then show ?thesis using snoc.prems(2) [OF hash_inputs_last(2) hash_inputs_last(3)] dom by metis
    next
      case (snoc zs z)
      have "sha (?c xs @ sha x) = sha (?c zs @ sha z)"
        using snoc.prems(1) snoc by (simp add: hashCanonicalEvent_def)
      then have "?c xs @ sha x = ?c zs @ sha z"
        using snoc.prems(2) [OF hash_inputs_last(2)] hash_inputs_last(2) [of sha zs z] snoc by blast
      then have eq: "?c xs = ?c zs" "sha x = sha z" using len [of xs] len [of zs] by auto
      have "x = z" using snoc.prems(2) [OF hash_inputs_last(1)] hash_inputs_last(1) [of z sha zs] eq(2) snoc by blast
      moreover have "xs = zs"
      proof (rule snoc.IH [OF eq(1)])
        fix a b assume ab: "a \<in> hash_inputs sha xs" "b \<in> hash_inputs sha zs" "sha a = sha b"
        have "a \<in> hash_inputs sha (xs @ [x])" "b \<in> hash_inputs sha ys"
          using ab(1,2) hash_inputs_snoc [of sha xs x] hash_inputs_snoc [of sha zs z] snoc by blast+
        then show "a = b" using ab(3) by (rule snoc.prems(2))
      qed
      ultimately show ?thesis using snoc by simp
    qed
  }
qed

text \<open>A head binds its history: two event histories with the same head have the same canonical
  lines, in the same order and number, unless two different byte strings hashed on the way to the
  heads collide. Histories of different lengths are separated too, because the empty head hashes a
  string no link of the chain has.\<close>

lemma head_binds_history:
  assumes "\<And>x. length (sha x) = 32"
    and "advanceEventHead sha (EMPTY_EVENT_HEAD sha) xs = Inr h"
    and "advanceEventHead sha (EMPTY_EVENT_HEAD sha) ys = Inr h"
  shows "map canonicalJson xs = map canonicalJson ys \<or>
    (\<exists>a b. a \<in> hash_inputs sha (map canonicalJson xs) \<and> b \<in> hash_inputs sha (map canonicalJson ys) \<and>
      a \<noteq> b \<and> sha a = sha b)"
proof -
  have "head_of sha xs = h" "head_of sha ys = h"
    using assms by (simp_all add: advanceEventHead_chain EMPTY_EVENT_HEAD_def)
  then have "chain_from sha (sha HEAD_DOMAIN) (map canonicalJson xs) = chain_from sha (sha HEAD_DOMAIN) (map canonicalJson ys)"
    by (metis hex_encode_inject)
  then show ?thesis using chain_binds [of sha, OF assms(1)] by blast
qed

definition toy_sha :: "string \<Rightarrow> string" where
  "toy_sha bytes = take 32 (rev bytes @ replicate 32 (CHR ''0''))"

lemma head_binds_history_witness:
  "\<exists>h. advanceEventHead toy_sha (EMPTY_EVENT_HEAD toy_sha) [JNum 1] = Inr h \<and>
     (map canonicalJson [JNum 1] = map canonicalJson [JNum 1] \<or>
       (\<exists>a b. a \<in> hash_inputs toy_sha (map canonicalJson [JNum 1]) \<and>
         b \<in> hash_inputs toy_sha (map canonicalJson [JNum 1]) \<and> a \<noteq> b \<and> toy_sha a = toy_sha b))"
proof -
  have len: "length (toy_sha x) = 32" for x by (simp add: toy_sha_def)
  have h: "advanceEventHead toy_sha (EMPTY_EVENT_HEAD toy_sha) [JNum 1] = Inr (head_of toy_sha [JNum 1])"
    using len by (simp add: advanceEventHead_chain EMPTY_EVENT_HEAD_def)
  show ?thesis using head_binds_history [OF len h h] h by blast
qed

section \<open>Lines\<close>

lemma split_encodeEventNdjson: "split_on newline (encodeEventNdjson events) = map canonicalJson events @ [[]]"
proof (induction events)
  case (Cons e es)
  have "newline \<notin> set (canonicalJson e)" using printable_canonical [of e] by (auto simp: printable_def)
  then show ?case using Cons by (simp add: encodeEventNdjson_def split_on_append_sep)
qed (simp add: encodeEventNdjson_def)

end
