(* ===== verification/SessionUpload.thy ===== *)
theory SessionUpload
  imports Engine SessionEvents
begin

text \<open>
  \<open>packages/cli/src/lib/session-upload.ts\<close>: planning the upload of a session (whole snapshot or event
  history), the chunking of an event history, and the protocol that brings the Cloud's copy to the
  plan by appending to the current generation or replacing it, with its state in the sessions lock.

  The API and the session's readers are computations of the environment. A reader yields a stream: the
  elements before its end and, if it threw, the error; a stream is read when its loop starts. Bytes
  are characters, text is encoded in UTF-8 by \<open>utf8\<close>.
\<close>

section \<open>Data\<close>

type_synonym 'a stream = "'a list \<times> sync_error option"

record 'w raw_session =
  rs_profileKey :: "string option"
  rs_contentProtocol :: "string option"
  rs_localSessionId :: string
  rs_projectPath :: "string option"
  rs_startedAt :: string
  rs_endedAt :: "string option"
  rs_messageCount :: int
  rs_inputTokens :: int
  rs_outputTokens :: int
  rs_cacheReadTokens :: int
  rs_model :: "string option"
  rs_modelsUsed :: "string list"
  rs_durationSeconds :: "int option"
  rs_summary :: "string option"
  rs_messages :: "session_message list"
  rs_events :: "json list option"
  rs_readEvents :: "('w, json stream) eng option"
  rs_readMessages :: "('w, session_message stream) eng option"
  rs_lastMessageTimestamp :: "string option"
  rs_rawFilePath :: string
  rs_sourceRevision :: "string option"
  rs_localHashMetadata :: "string option"

definition SNAPSHOT_V1 :: string where "SNAPSHOT_V1 = ''snapshot-v1''"
definition EVENTS_V1 :: string where "EVENTS_V1 = ''events-v1''"

record 'w upload_plan =
  pl_protocol :: string
  pl_localHash :: string
  pl_snapshotBytes :: "string option"
  pl_readSnapshot :: "('w, string) eng option"
  pl_events :: "json list option"
  pl_readEvents :: "('w, json stream) eng option"
  pl_eventCount :: "nat option"
  pl_finalEventHead :: "string option"
  pl_snapshotSizeBytes :: "nat option"

datatype content_result =
    Synced (cr_uploaded: bool) (cr_localHash: string)
  | Blocked (cr_localHash: string) (cr_message: string)

record event_head =
  eh_protocol :: string
  eh_generation :: "string option"
  eh_revision :: int
  eh_count :: int
  eh_head_hash :: string

record event_receipt =
  er_generation :: string
  er_revision :: int
  er_count :: int
  er_head_hash :: string

record chunk_receipt =
  cp_generation :: string
  cp_start_seq :: int
  cp_end_seq :: int
  cp_count :: int
  cp_content_hash :: string
  cp_result_head_hash :: string

record event_chunk =
  ch_startSeq :: int
  ch_count :: nat
  ch_bytes :: string
  ch_contentHash :: string
  ch_baseHead :: string
  ch_resultHead :: string

record capabilities =
  ca_protocols :: "string list"
  ca_event_chunk_max_bytes :: int
  ca_event_chunk_target_bytes :: int

record chunk_limits =
  li_targetBytes :: int
  li_maxBytes :: int

record 'w upload_env =
  ue_parse :: "string \<Rightarrow> json option"
  ue_sha :: "string \<Rightarrow> string"
  ue_capabilities :: "('w, capabilities option) eng"
  ue_eventHead :: "string \<Rightarrow> string \<Rightarrow> string option \<Rightarrow> ('w, event_head) eng"
  ue_uploadContent :: "content_request \<Rightarrow> ('w, string) eng"
  ue_append :: "append_request \<Rightarrow> ('w, event_receipt) eng"
  ue_stage :: "string \<Rightarrow> stage_request \<Rightarrow> ('w, string \<times> string) eng"
  ue_chunk :: "chunk_request \<Rightarrow> ('w, chunk_receipt) eng"
  ue_commit :: "string \<Rightarrow> string \<Rightarrow> commit_request \<Rightarrow> ('w, event_receipt) eng"
  ue_randomUUID :: "('w, string) eng"
  ue_nowIso :: "'w engine \<Rightarrow> string"
  ue_nowMs :: "'w engine \<Rightarrow> int"
  ue_dateParse :: "string \<Rightarrow> int option"
  ue_cliVersion :: string

definition LEGACY_SESSION_MAX_BYTES :: nat where "LEGACY_SESSION_MAX_BYTES = 50 * 1024 * 1024"
definition CLIENT_EVENT_CHUNK_MAX_BYTES :: int where "CLIENT_EVENT_CHUNK_MAX_BYTES = 8 * 1024 * 1024"
definition EVENT_RETRY_LIMIT :: nat where "EVENT_RETRY_LIMIT = 3"

definition sha_hex :: "(string \<Rightarrow> string) \<Rightarrow> string \<Rightarrow> string" where
  "sha_hex sha bytes = hex_encode (sha bytes)"

definition localEventHash :: "(string \<Rightarrow> string) \<Rightarrow> string \<Rightarrow> string option \<Rightarrow> string" where
  "localEventHash sha eventHead metadata =
     (case metadata of
        None \<Rightarrow> eventHead
      | Some m \<Rightarrow> sha_hex sha (''clawdi-events-v1-local'' @ [newline] @ eventHead @ canonicalJson (JStr m)))"

section \<open>Snapshots\<close>

text \<open>UTF-8 of the code units below 256.\<close>

definition utf8_char :: "char \<Rightarrow> string" where
  "utf8_char c =
     (let n = of_char c :: nat
      in if n < 128 then [c] else [char_of (192 + n div 64), char_of (128 + n mod 64)])"

definition utf8 :: "string \<Rightarrow> string" where
  "utf8 s = concat (map utf8_char s)"

definition message_json :: "session_message \<Rightarrow> json" where
  "message_json m =
     JObj ([(''role'', JStr (sm_role m)), (''content'', JStr (sm_content m))] @
       (case sm_model m of None \<Rightarrow> [] | Some x \<Rightarrow> [(''model'', JStr x)]) @
       (case sm_timestamp m of None \<Rightarrow> [] | Some x \<Rightarrow> [(''timestamp'', JStr x)]))"

record accumulator =
  ac_hashed :: string
  ac_parts :: "string list"
  ac_count :: nat
  ac_size :: nat
  ac_retain :: bool

definition new_accumulator :: "bool \<Rightarrow> accumulator" where
  "new_accumulator retain = \<lparr>ac_hashed = ''['', ac_parts = [], ac_count = 0, ac_size = 2, ac_retain = retain\<rparr>"

definition ac_add :: "session_message \<Rightarrow> accumulator \<Rightarrow> accumulator" where
  "ac_add message a =
     (let bytes = utf8 ((if ac_count a > 0 then '','' else []) @ stringify (message_json message));
          size = ac_size a + length bytes
      in a\<lparr>ac_hashed := ac_hashed a @ bytes, ac_count := ac_count a + 1, ac_size := size,
           ac_parts := (if ac_retain a \<and> size \<le> LEGACY_SESSION_MAX_BYTES then ac_parts a @ [bytes] else [])\<rparr>)"

record snapshot =
  sn_hash :: string
  sn_size :: nat
  sn_bytes :: "string option"

definition ac_finish :: "(string \<Rightarrow> string) \<Rightarrow> accumulator \<Rightarrow> snapshot" where
  "ac_finish sha a =
     \<lparr>sn_hash = sha_hex sha (ac_hashed a @ '']''), sn_size = ac_size a,
      sn_bytes = (if ac_retain a \<and> ac_size a \<le> LEGACY_SESSION_MAX_BYTES
        then Some (''['' @ concat (ac_parts a) @ '']'') else None)\<rparr>"

definition describe_messages :: "(string \<Rightarrow> string) \<Rightarrow> bool \<Rightarrow> session_message list \<Rightarrow> snapshot" where
  "describe_messages sha retain messages = ac_finish sha (fold ac_add messages (new_accumulator retain))"

definition snapshot_changed :: sync_error where
  "snapshot_changed = PlainError ''snapshot source changed after planning; retry with a fresh scan''"

definition snapshot_bytes :: "snapshot \<Rightarrow> snapshot \<Rightarrow> sync_error + string" where
  "snapshot_bytes initial current =
     (if sn_hash current \<noteq> sn_hash initial \<or> sn_size current \<noteq> sn_size initial then Inl snapshot_changed
      else (case sn_bytes current of None \<Rightarrow> Inl snapshot_changed | Some b \<Rightarrow> Inr b))"

definition stream_map_concat :: "('a \<Rightarrow> 'b list) \<Rightarrow> 'a stream \<Rightarrow> 'b stream" where
  "stream_map_concat f st = (concat (map f (fst st)), snd st)"

definition readSessionMessages :: "'w raw_session \<Rightarrow> ('w, session_message stream) eng" where
  "readSessionMessages session =
     (case rs_readMessages session of
        Some read \<Rightarrow> read
      | None \<Rightarrow>
          (case rs_readEvents session of
             Some read \<Rightarrow> ebind read (\<lambda>st. eret (stream_map_concat (\<lambda>event. projectEventsToMessages [event]) st))
           | None \<Rightarrow> eret (rs_messages session, None)))"

definition whole :: "'a stream \<Rightarrow> ('w, 'a list) eng" where
  "whole st = (case snd st of None \<Rightarrow> eret (fst st) | Some e \<Rightarrow> ethrow e)"

definition describe_session :: "(string \<Rightarrow> string) \<Rightarrow> 'w raw_session \<Rightarrow> bool \<Rightarrow> ('w, snapshot) eng" where
  "describe_session sha session retain =
     ebind (readSessionMessages session) (\<lambda>st. ebind (whole st) (\<lambda>messages.
       eret (describe_messages sha retain messages)))"

definition plan_of_snapshot :: "snapshot \<Rightarrow> ('w, snapshot) eng \<Rightarrow> 'w upload_plan" where
  "plan_of_snapshot initial describe =
     \<lparr>pl_protocol = SNAPSHOT_V1, pl_localHash = sn_hash initial, pl_snapshotBytes = None,
      pl_readSnapshot = Some (ebind describe (\<lambda>current. elift (snapshot_bytes initial current))),
      pl_events = None, pl_readEvents = None, pl_eventCount = None, pl_finalEventHead = None,
      pl_snapshotSizeBytes = Some (sn_size initial)\<rparr>"

definition snapshotPlan :: "(string \<Rightarrow> string) \<Rightarrow> 'w raw_session \<Rightarrow> ('w, 'w upload_plan) eng" where
  "snapshotPlan sha session =
     ebind (describe_session sha session False) (\<lambda>initial.
       eret (plan_of_snapshot initial (describe_session sha session True)))"

section \<open>Event plans\<close>

definition seq_error :: sync_error where
  "seq_error = PlainError ''events-v1 seq must be continuous from zero''"

definition assertEventIdentity :: "(string \<Rightarrow> string) \<Rightarrow> json \<Rightarrow> nat \<Rightarrow> sync_error option" where
  "assertEventIdentity sha event index =
     (if jprop event ''seq'' \<noteq> Some (JNum (int index)) then Some seq_error
      else if jprop event ''event_id'' \<noteq> Some (JStr (event_id_of sha event))
      then Some (PlainError (''events-v1 event_id mismatch at seq '' @ int_decimal (int index)))
      else None)"

fun assertEventSequence :: "(string \<Rightarrow> string) \<Rightarrow> nat \<Rightarrow> json list \<Rightarrow> sync_error option" where
  "assertEventSequence sha index [] = None"
| "assertEventSequence sha index (event # events) =
     (case assertEventIdentity sha event index of
        Some e \<Rightarrow> Some e
      | None \<Rightarrow> assertEventSequence sha (Suc index) events)"

definition no_events :: "'w raw_session \<Rightarrow> sync_error" where
  "no_events session = PlainError (rs_localSessionId session @ '' has no events-v1 content'')"

definition event_plan ::
  "(string \<Rightarrow> string) \<Rightarrow> 'w raw_session \<Rightarrow> json list option \<Rightarrow> ('w, json stream) eng option \<Rightarrow> nat \<Rightarrow> string \<Rightarrow> 'w upload_plan" where
  "event_plan sha session events read count head =
     \<lparr>pl_protocol = EVENTS_V1, pl_localHash = localEventHash sha head (rs_localHashMetadata session),
      pl_snapshotBytes = None, pl_readSnapshot = None, pl_events = events, pl_readEvents = read,
      pl_eventCount = Some count, pl_finalEventHead = Some head, pl_snapshotSizeBytes = None\<rparr>"

definition planSessionUpload :: "(string \<Rightarrow> string) \<Rightarrow> 'w raw_session \<Rightarrow> string \<Rightarrow> sync_error + 'w upload_plan" where
  "planSessionUpload sha session protocol =
     (if protocol = SNAPSHOT_V1
      then Inr (plan_of_snapshot (describe_messages sha False (rs_messages session))
        (eret (describe_messages sha True (rs_messages session))))
      else (case rs_events session of
              None \<Rightarrow> Inl (no_events session)
            | Some events \<Rightarrow>
                (case assertEventSequence sha 0 events of
                   Some e \<Rightarrow> Inl e
                 | None \<Rightarrow> bind_res (advanceEventHead sha (EMPTY_EVENT_HEAD sha) events) (\<lambda>finalEventHead.
                     Inr (event_plan sha session (Some events) None (length events) finalEventHead)))))"

text \<open>The loop of \<open>prepareSessionUpload\<close> over a stream of events.\<close>

fun head_walk :: "(string \<Rightarrow> string) \<Rightarrow> nat \<Rightarrow> string \<Rightarrow> json list \<Rightarrow> sync_error + (nat \<times> string)" where
  "head_walk sha count head [] = Inr (count, head)"
| "head_walk sha count head (event # events) =
     (case assertEventIdentity sha event count of
        Some e \<Rightarrow> Inl e
      | None \<Rightarrow> bind_res (advanceEventHead sha head [event]) (\<lambda>h. head_walk sha (Suc count) h events))"

definition prepareSessionUpload :: "(string \<Rightarrow> string) \<Rightarrow> 'w raw_session \<Rightarrow> string \<Rightarrow> ('w, 'w upload_plan) eng" where
  "prepareSessionUpload sha session protocol0 =
     (let protocol = (if rs_contentProtocol session = Some SNAPSHOT_V1 then SNAPSHOT_V1 else protocol0)
      in if protocol = SNAPSHOT_V1 then snapshotPlan sha session
         else if Option.is_none (rs_readEvents session) \<and> Option.is_none (rs_readMessages session)
         then elift (planSessionUpload sha session protocol)
         else if protocol = EVENTS_V1 then
           (case rs_readEvents session of
              None \<Rightarrow> ethrow (no_events session)
            | Some read \<Rightarrow>
                ebind read (\<lambda>st.
                  ebind (elift (head_walk sha 0 (EMPTY_EVENT_HEAD sha) (fst st))) (\<lambda>(count, head).
                    case snd st of
                      Some e \<Rightarrow> ethrow e
                    | None \<Rightarrow> eret (event_plan sha session None (Some read) count head))))
         else ethrow (PlainError ''events-v1 plan is missing its event reader''))"

definition sessionFence :: "string \<Rightarrow> string \<Rightarrow> string \<Rightarrow> string \<Rightarrow> string option \<Rightarrow> session_fence" where
  "sessionFence apiOrigin environmentId adapter sourceSessionKey profileKey =
     \<lparr>fe_profileKey = profileKey, fe_apiOrigin = apiOrigin, fe_environmentId = environmentId,
      fe_adapter = adapter, fe_sourceSessionKey = sourceSessionKey\<rparr>"

section \<open>The sessions lock\<close>

definition up_entry :: "'w upload_env \<Rightarrow> session_fence \<Rightarrow> 'w engine \<Rightarrow> json option" where
  "up_entry env fence s =
     readFencedSessionEntry (sha_hex (ue_sha env)) (readSessionsLock (ue_parse env) (en_sessionsLock s)) fence"

definition up_persist :: "'w upload_env \<Rightarrow> session_fence \<Rightarrow> (string \<times> json) list \<Rightarrow> ('w, unit) eng" where
  "up_persist env fence entry =
     emodify (\<lambda>s. s\<lparr>en_sessionsLock :=
       persistFencedSessionEntry (ue_parse env) (sha_hex (ue_sha env)) fence entry (en_sessionsLock s)\<rparr>)"

text \<open>\<open>isSessionBlockCurrent\<close> of a block as the file holds it.\<close>

definition block_of :: "json \<Rightarrow> upload_block" where
  "block_of b =
     \<lparr>bl_code = or_else (as_string (jprop b ''code'')) [],
      bl_content_hash = or_else (as_string (jprop b ''content_hash'')) [],
      bl_size_bytes = as_number (jprop b ''size_bytes''),
      bl_message = or_else (as_string (jprop b ''message'')) [],
      bl_blocked_at = or_else (as_string (jprop b ''blocked_at'')) [],
      bl_cli_version = as_string (jprop b ''cli_version'')\<rparr>"

definition sessionPlanIsDurablyBlocked ::
  "'w upload_env \<Rightarrow> session_fence \<Rightarrow> 'w upload_plan \<Rightarrow> 'w engine \<Rightarrow> string option" where
  "sessionPlanIsDurablyBlocked env fence plan s =
     (case up_entry env fence s of
        None \<Rightarrow> None
      | Some entry \<Rightarrow>
          if jprop entry ''local_hash'' = Some (JStr (pl_localHash plan)) then
            (case jprop entry ''blocked'' of
               None \<Rightarrow> None
             | Some b \<Rightarrow>
                 if isSessionBlockCurrent (ue_dateParse env) (ue_cliVersion env) (block_of b) (ue_nowMs env s)
                 then Some (bl_message (block_of b)) else None)
          else None)"

definition sourceRevisionEntry :: "'w raw_session \<Rightarrow> (string \<times> json) list" where
  "sourceRevisionEntry session =
     (case rs_sourceRevision session of
        None \<Rightarrow> [] | Some r \<Rightarrow> if r = [] then [] else [(''source_revision'', JStr r)])"

definition snapshot_entry :: "'w upload_plan \<Rightarrow> (string \<times> json) list" where
  "snapshot_entry plan =
     (if pl_protocol plan = SNAPSHOT_V1 then [(''snapshot_hash'', JStr (pl_localHash plan))] else [])"

definition persistSuppressedSession ::
  "'w upload_env \<Rightarrow> session_fence \<Rightarrow> 'w raw_session \<Rightarrow> 'w upload_plan \<Rightarrow> ('w, unit) eng" where
  "persistSuppressedSession env fence session plan =
     up_persist env fence
       ([(''protocol'', JStr (pl_protocol plan)), (''local_hash'', JStr (pl_localHash plan))] @
        sourceRevisionEntry session @ snapshot_entry plan)"

text \<open>The arguments shared by the upload steps: \<open>{ api, fence, session, plan }\<close>.\<close>

record 'w upload_input =
  in_fence :: session_fence
  in_session :: "'w raw_session"
  in_plan :: "'w upload_plan"

definition persistBlocked ::
  "'w upload_env \<Rightarrow> 'w upload_input \<Rightarrow> string \<Rightarrow> int option \<Rightarrow> string \<Rightarrow> ('w, content_result) eng" where
  "persistBlocked env inp code sizeBytes message =
     ebind (egets (ue_nowIso env)) (\<lambda>now.
       ethen (up_persist env (in_fence inp)
         ([(''protocol'', JStr (pl_protocol (in_plan inp))), (''local_hash'', JStr (pl_localHash (in_plan inp)))] @
          sourceRevisionEntry (in_session inp) @ snapshot_entry (in_plan inp) @
          [(''blocked'', JObj ([(''code'', JStr code), (''content_hash'', JStr (pl_localHash (in_plan inp)))] @
             (case sizeBytes of None \<Rightarrow> [] | Some n \<Rightarrow> [(''size_bytes'', JNum n)]) @
             [(''message'', JStr message), (''blocked_at'', JStr now),
              (''cli_version'', JStr (ue_cliVersion env))]))]))
         (eret (Blocked (pl_localHash (in_plan inp)) message)))"

definition success_entry :: "'w upload_input \<Rightarrow> event_head \<Rightarrow> string \<Rightarrow> (string \<times> json) list" where
  "success_entry inp head generation =
     [(''protocol'', JStr EVENTS_V1), (''local_hash'', JStr (pl_localHash (in_plan inp)))] @
     sourceRevisionEntry (in_session inp) @
     [(''event_generation'', JStr generation), (''event_revision'', JNum (eh_revision head)),
      (''event_count'', JNum (eh_count head)), (''event_head_hash'', JStr (eh_head_hash head))]"

definition truthy_generation :: "event_head \<Rightarrow> string option" where
  "truthy_generation head =
     (case eh_generation head of None \<Rightarrow> None | Some g \<Rightarrow> if g = [] then None else Some g)"

definition persistEventSuccess :: "'w upload_env \<Rightarrow> 'w upload_input \<Rightarrow> event_head \<Rightarrow> ('w, unit) eng" where
  "persistEventSuccess env inp head =
     (case truthy_generation head of
        None \<Rightarrow> ethrow (PlainError ''events-v1 success is missing generation'')
      | Some g \<Rightarrow> up_persist env (in_fence inp) (success_entry inp head g))"

text \<open>A pending upload as the lock holds it. The shape is what a resumed attempt must agree on.\<close>

definition opt_str :: "string option \<Rightarrow> json" where
  "opt_str x = (case x of None \<Rightarrow> JNull | Some s \<Rightarrow> JStr s)"

definition pending_shape ::
  "string \<Rightarrow> string option \<Rightarrow> string option \<Rightarrow> int \<Rightarrow> int \<Rightarrow> string \<Rightarrow> int \<Rightarrow> string \<Rightarrow> (string \<times> json) list" where
  "pending_shape kind generation base_generation base_revision base_count base_head_hash final_count final_head_hash =
     [(''kind'', JStr kind)] @ (case generation of None \<Rightarrow> [] | Some g \<Rightarrow> [(''generation'', JStr g)]) @
     [(''base_generation'', opt_str base_generation), (''base_revision'', JNum base_revision),
      (''base_count'', JNum base_count), (''base_head_hash'', JStr base_head_hash),
      (''final_count'', JNum final_count), (''final_head_hash'', JStr final_head_hash)]"

definition reusablePending :: "'w upload_env \<Rightarrow> session_fence \<Rightarrow> (string \<times> json) list \<Rightarrow> 'w engine \<Rightarrow> json option" where
  "reusablePending env fence shape s =
     (case up_entry env fence s of
        None \<Rightarrow> None
      | Some entry \<Rightarrow>
          (case jprop entry ''pending'' of
             None \<Rightarrow> None
           | Some pending \<Rightarrow>
               if list_all (\<lambda>(k, v). jprop pending k = Some v) shape then Some pending else None))"

definition reusableAppendId :: "'w upload_env \<Rightarrow> session_fence \<Rightarrow> (string \<times> json) list \<Rightarrow> 'w engine \<Rightarrow> string option" where
  "reusableAppendId env fence shape s =
     (case reusablePending env fence shape s of
        None \<Rightarrow> None
      | Some pending \<Rightarrow> as_string (jprop pending ''append_id''))"

definition copy_truthy :: "json option \<Rightarrow> string \<Rightarrow> (string \<times> json) list" where
  "copy_truthy prior k =
     (case prior of
        None \<Rightarrow> []
      | Some p \<Rightarrow> (case truthy_string (jprop p k) of None \<Rightarrow> [] | Some v \<Rightarrow> [(k, JStr v)]))"

definition copy_defined :: "json option \<Rightarrow> string \<Rightarrow> (string \<times> json) list" where
  "copy_defined prior k =
     (case prior of None \<Rightarrow> [] | Some p \<Rightarrow> (case jprop p k of None \<Rightarrow> [] | Some v \<Rightarrow> [(k, v)]))"

definition pending_entry :: "'w upload_plan \<Rightarrow> json option \<Rightarrow> json \<Rightarrow> (string \<times> json) list" where
  "pending_entry plan prior pending =
     [(''protocol'', JStr EVENTS_V1), (''local_hash'', JStr (pl_localHash plan))] @
     copy_truthy prior ''source_revision'' @ copy_truthy prior ''event_generation'' @
     copy_defined prior ''event_revision'' @ copy_defined prior ''event_count'' @
     copy_truthy prior ''event_head_hash'' @ [(''pending'', pending)]"

definition persistPending :: "'w upload_env \<Rightarrow> 'w upload_input \<Rightarrow> json \<Rightarrow> ('w, unit) eng" where
  "persistPending env inp pending =
     ebind (egets (up_entry env (in_fence inp))) (\<lambda>prior.
       up_persist env (in_fence inp) (pending_entry (in_plan inp) prior pending))"

section \<open>Reading the planned events\<close>

text \<open>The generator \<open>readPlanEvents\<close>: every event with its encoding and the head after it.\<close>

record planned_event =
  pe_seq :: int
  pe_encoded :: string
  pe_resultHead :: string

definition event_seq :: "json \<Rightarrow> int" where
  "event_seq event = or_else (as_number (jprop event ''seq'')) 0"

definition plan_changed :: sync_error where
  "plan_changed = PlainError ''session source changed after upload planning; retry with a fresh plan''"

fun plan_walk ::
  "(string \<Rightarrow> string) \<Rightarrow> 'w upload_plan \<Rightarrow> nat \<Rightarrow> string \<Rightarrow> json list \<Rightarrow> sync_error option \<Rightarrow> planned_event stream" where
  "plan_walk sha plan count head [] failed =
     ([], case failed of
        Some e \<Rightarrow> Some e
      | None \<Rightarrow> if Some count \<noteq> pl_eventCount plan \<or> Some head \<noteq> pl_finalEventHead plan then Some plan_changed else None)"
| "plan_walk sha plan count head (event # events) failed =
     (case assertEventIdentity sha event count of
        Some e \<Rightarrow> ([], Some e)
      | None \<Rightarrow>
          (let encoded = canonicalJson event
           in case advanceCanonicalEventHead sha head encoded of
                Inl e \<Rightarrow> ([], Some e)
              | Inr h \<Rightarrow>
                  (case plan_walk sha plan (Suc count) h events failed of
                     (rest, e) \<Rightarrow> (\<lparr>pe_seq = event_seq event, pe_encoded = encoded, pe_resultHead = h\<rparr> # rest, e))))"

definition readPlanEvents :: "(string \<Rightarrow> string) \<Rightarrow> 'w upload_plan \<Rightarrow> ('w, planned_event stream) eng" where
  "readPlanEvents sha plan =
     ebind (case pl_readEvents plan of
              Some read \<Rightarrow> read
            | None \<Rightarrow>
                (case pl_events plan of
                   Some events \<Rightarrow> eret (events, None)
                 | None \<Rightarrow> ethrow (PlainError ''events-v1 plan is missing its reader'')))
       (\<lambda>st. eret (plan_walk sha plan 0 (EMPTY_EVENT_HEAD sha) (fst st) (snd st)))"

definition eventPrefixHead :: "(string \<Rightarrow> string) \<Rightarrow> 'w upload_plan \<Rightarrow> int \<Rightarrow> ('w, string option) eng" where
  "eventPrefixHead sha plan count =
     ebind (readPlanEvents sha plan) (\<lambda>st. ebind (whole st) (\<lambda>events.
       eret (fold (\<lambda>e prefix. if pe_seq e + 1 = count then Some (pe_resultHead e) else prefix) events
         (if count = 0 then Some (EMPTY_EVENT_HEAD sha) else None))))"

section \<open>Chunks\<close>

definition too_large :: "int \<Rightarrow> int \<Rightarrow> int \<Rightarrow> sync_error" where
  "too_large seq sizeBytes maxBytes =
     EventTooLargeError seq sizeBytes
       (''events-v1 event '' @ int_decimal seq @ '' is '' @ int_decimal sizeBytes @ '' bytes and exceeds the '' @
        int_decimal maxBytes @ '' byte chunk limit'')"

text \<open>The variables of the generator \<open>chunkEvents\<close>.\<close>

record chunk_state =
  cs_head :: string
  cs_baseHead :: string
  cs_chunkStart :: int
  cs_count :: nat
  cs_size :: int
  cs_lines :: "string list"

definition chunk_of :: "(string \<Rightarrow> string) \<Rightarrow> chunk_state \<Rightarrow> event_chunk" where
  "chunk_of sha c =
     (let bytes = concat (cs_lines c)
      in \<lparr>ch_startSeq = cs_chunkStart c, ch_count = cs_count c, ch_bytes = bytes, ch_contentHash = sha_hex sha bytes,
          ch_baseHead = cs_baseHead c, ch_resultHead = cs_head c\<rparr>)"

definition next_chunk :: "chunk_state \<Rightarrow> chunk_state" where
  "next_chunk c =
     c\<lparr>cs_chunkStart := cs_chunkStart c + int (cs_count c), cs_baseHead := cs_head c, cs_count := 0, cs_size := 0,
       cs_lines := []\<rparr>"

definition push_line :: "string \<Rightarrow> string \<Rightarrow> chunk_state \<Rightarrow> chunk_state" where
  "push_line line resultHead c =
     c\<lparr>cs_lines := cs_lines c @ [line], cs_size := cs_size c + int (length line), cs_count := cs_count c + 1,
       cs_head := resultHead\<rparr>"

fun chunk_walk ::
  "(string \<Rightarrow> string) \<Rightarrow> chunk_limits \<Rightarrow> int \<Rightarrow> chunk_state \<Rightarrow> planned_event list \<Rightarrow> sync_error option \<Rightarrow> event_chunk stream" where
  "chunk_walk sha limits startSeq c [] failed =
     (if failed = None \<and> cs_count c > 0 then [chunk_of sha c] else [], failed)"
| "chunk_walk sha limits startSeq c (e # es) failed =
     (if pe_seq e < startSeq
      then chunk_walk sha limits startSeq (c\<lparr>cs_head := pe_resultHead e, cs_baseHead := pe_resultHead e\<rparr>) es failed
      else
        (let line = pe_encoded e @ [newline]; lineSize = int (length line)
         in if lineSize > li_maxBytes limits then ([], Some (too_large (pe_seq e) lineSize (li_maxBytes limits)))
            else if cs_count c > 0 \<and> cs_size c + lineSize > li_targetBytes limits
            then (case chunk_walk sha limits startSeq (push_line line (pe_resultHead e) (next_chunk c)) es failed of
                    (rest, err) \<Rightarrow> (chunk_of sha c # rest, err))
            else chunk_walk sha limits startSeq (push_line line (pe_resultHead e) c) es failed))"

definition start_chunks :: "(string \<Rightarrow> string) \<Rightarrow> int \<Rightarrow> chunk_state" where
  "start_chunks sha startSeq =
     \<lparr>cs_head = EMPTY_EVENT_HEAD sha, cs_baseHead = EMPTY_EVENT_HEAD sha, cs_chunkStart = startSeq, cs_count = 0,
      cs_size = 0, cs_lines = []\<rparr>"

definition chunkEvents ::
  "(string \<Rightarrow> string) \<Rightarrow> 'w upload_plan \<Rightarrow> int \<Rightarrow> chunk_limits \<Rightarrow> ('w, event_chunk stream) eng" where
  "chunkEvents sha plan startSeq limits =
     ebind (readPlanEvents sha plan) (\<lambda>st.
       eret (chunk_walk sha limits startSeq (start_chunks sha startSeq) (fst st) (snd st)))"

section \<open>The protocol\<close>

definition eventUploadCapabilities :: "'w upload_env \<Rightarrow> ('w, chunk_limits option) eng" where
  "eventUploadCapabilities env =
     ebind (ue_capabilities env) (\<lambda>response.
       case response of
         None \<Rightarrow> eret None
       | Some r \<Rightarrow>
           if EVENTS_V1 \<notin> set (ca_protocols r) then eret None
           else (let maxBytes = min CLIENT_EVENT_CHUNK_MAX_BYTES (max 1 (ca_event_chunk_max_bytes r));
                     targetBytes = min (min maxBytes (4 * 1024 * 1024)) (max (1024 * 1024) (ca_event_chunk_target_bytes r))
                 in eret (Some \<lparr>li_targetBytes = targetBytes, li_maxBytes = maxBytes\<rparr>)))"

definition negotiateSessionProtocol :: "'w upload_env \<Rightarrow> ('w, string) eng \<Rightarrow> ('w, string) eng" where
  "negotiateSessionProtocol env contentProtocol =
     ebind contentProtocol (\<lambda>p.
       if p = SNAPSHOT_V1 then eret SNAPSHOT_V1
       else ebind (eventUploadCapabilities env) (\<lambda>c. eret (if c = None then SNAPSHOT_V1 else EVENTS_V1)))"

definition validateEventUpload :: "('w, 'a) eng \<Rightarrow> ('w, 'a) eng" where
  "validateEventUpload upload =
     ecatch upload (\<lambda>e. case as_api_error e of
       Some (status, _) \<Rightarrow> if status = 422 then ethrow (EventSchemaInvalidError (toErrorMessage e)) else ethrow e
     | None \<Rightarrow> ethrow e)"

definition assertEventResponse :: "event_receipt \<Rightarrow> string \<Rightarrow> int \<Rightarrow> int \<Rightarrow> string \<Rightarrow> ('w, unit) eng" where
  "assertEventResponse r generation revision count headHash =
     (if er_generation r \<noteq> generation \<or> er_revision r \<noteq> revision \<or> er_count r \<noteq> count \<or> er_head_hash r \<noteq> headHash
      then ethrow (PlainError ''server event receipt does not match the expected committed head'')
      else eret ())"

definition head_of_receipt :: "event_receipt \<Rightarrow> event_head" where
  "head_of_receipt r =
     \<lparr>eh_protocol = EVENTS_V1, eh_generation = Some (er_generation r), eh_revision = er_revision r,
      eh_count = er_count r, eh_head_hash = er_head_hash r\<rparr>"

definition append_chunk ::
  "'w upload_env \<Rightarrow> 'w upload_input \<Rightarrow> string \<Rightarrow> event_chunk \<Rightarrow> event_head \<Rightarrow> ('w, event_head) eng" where
  "append_chunk env inp generation chunk head =
     (let finalCount = ch_startSeq chunk + int (ch_count chunk);
          shape = pending_shape ''append'' (Some generation) (Some generation) (eh_revision head) (ch_startSeq chunk)
            (ch_baseHead chunk) finalCount (ch_resultHead chunk)
      in ebind (egets (reusableAppendId env (in_fence inp) shape)) (\<lambda>reused.
         ebind (case reused of Some i \<Rightarrow> eret i | None \<Rightarrow> ue_randomUUID env) (\<lambda>appendId.
         ethen (persistPending env inp (JObj (shape @ [(''append_id'', JStr appendId)])))
           (let req = \<lparr>ap_localSessionId = rs_localSessionId (in_session inp),
                  ap_environmentId = fe_environmentId (in_fence inp), ap_profileKey = fe_profileKey (in_fence inp),
                  ap_appendId = appendId, ap_generation = generation, ap_baseRevision = eh_revision head,
                  ap_baseCount = ch_startSeq chunk, ap_baseHeadHash = ch_baseHead chunk, ap_finalCount = finalCount,
                  ap_finalHeadHash = ch_resultHead chunk, ap_contentHash = ch_contentHash chunk, ap_file = ch_bytes chunk\<rparr>
            in ebind (validateEventUpload (ethen (en_call (AppendSessionEvents req)) (ue_append env req))) (\<lambda>response.
               ethen (assertEventResponse response generation (eh_revision head + 1) finalCount (ch_resultHead chunk))
                 (eret (head_of_receipt response)))))))"

fun append_chunks ::
  "'w upload_env \<Rightarrow> 'w upload_input \<Rightarrow> string \<Rightarrow> event_chunk list \<Rightarrow> sync_error option \<Rightarrow> event_head \<Rightarrow> bool \<Rightarrow>
   ('w, event_head \<times> bool) eng" where
  "append_chunks env inp generation [] failed head uploaded =
     (case failed of Some e \<Rightarrow> ethrow e | None \<Rightarrow> eret (head, uploaded))"
| "append_chunks env inp generation (chunk # chunks) failed head uploaded =
     ebind (append_chunk env inp generation chunk head) (\<lambda>head'.
       append_chunks env inp generation chunks failed head' True)"

definition appendEvents ::
  "'w upload_env \<Rightarrow> 'w upload_input \<Rightarrow> event_head \<Rightarrow> chunk_limits \<Rightarrow> ('w, event_head \<times> bool) eng" where
  "appendEvents env inp initialHead limits =
     (case truthy_generation initialHead of
        None \<Rightarrow> ethrow (PlainError ''cannot append without a generation'')
      | Some generation \<Rightarrow>
          ebind (chunkEvents (ue_sha env) (in_plan inp) (eh_count initialHead) limits) (\<lambda>(chunks, failed).
            append_chunks env inp generation chunks failed initialHead False))"

fun upload_generation_chunks ::
  "'w upload_env \<Rightarrow> 'w upload_input \<Rightarrow> string \<Rightarrow> event_chunk list \<Rightarrow> sync_error option \<Rightarrow> bool \<Rightarrow> ('w, bool) eng" where
  "upload_generation_chunks env inp generation [] failed uploaded =
     (case failed of Some e \<Rightarrow> ethrow e | None \<Rightarrow> eret uploaded)"
| "upload_generation_chunks env inp generation (chunk # chunks) failed uploaded =
     (let req = \<lparr>ck_localSessionId = rs_localSessionId (in_session inp), ck_generation = generation,
            ck_startSeq = ch_startSeq chunk, ck_baseHeadHash = ch_baseHead chunk, ck_contentHash = ch_contentHash chunk,
            ck_file = ch_bytes chunk\<rparr>
      in ebind (validateEventUpload (ethen (en_call (UploadGenerationChunk req)) (ue_chunk env req))) (\<lambda>r.
         if cp_generation r \<noteq> generation \<or> cp_start_seq r \<noteq> ch_startSeq chunk \<or>
            cp_end_seq r \<noteq> ch_startSeq chunk + int (ch_count chunk) - 1 \<or> cp_count r \<noteq> int (ch_count chunk) \<or>
            cp_content_hash r \<noteq> ch_contentHash chunk \<or> cp_result_head_hash r \<noteq> ch_resultHead chunk
         then ethrow (PlainError ''server event chunk receipt does not match uploaded bytes'')
         else upload_generation_chunks env inp generation chunks failed True))"

definition pending_string :: "json \<Rightarrow> string \<Rightarrow> string" where
  "pending_string pending k = or_else (as_string (jprop pending k)) []"

definition commit_body :: "'w upload_input \<Rightarrow> json \<Rightarrow> event_head \<Rightarrow> nat \<Rightarrow> string \<Rightarrow> commit_request" where
  "commit_body inp pending base eventCount finalHead =
     \<lparr>cm_profile_key = fe_profileKey (in_fence inp), cm_append_id = pending_string pending ''append_id'',
      cm_base_generation = eh_generation base, cm_base_revision = eh_revision base, cm_base_count = eh_count base,
      cm_base_head_hash = eh_head_hash base, cm_final_count = int eventCount, cm_final_head_hash = finalHead\<rparr>"

text \<open>The commit and the check of its receipt, written twice in the source.\<close>

definition commit_generation ::
  "'w upload_env \<Rightarrow> 'w upload_input \<Rightarrow> json \<Rightarrow> event_head \<Rightarrow> nat \<Rightarrow> string \<Rightarrow> ('w, event_head) eng" where
  "commit_generation env inp pending base eventCount finalHead =
     (let sid = rs_localSessionId (in_session inp); generation = pending_string pending ''generation'';
          body = commit_body inp pending base eventCount finalHead
      in ebind (ethen (en_call (CommitGeneration sid generation body)) (ue_commit env sid generation body)) (\<lambda>committed.
         ethen (assertEventResponse committed generation (eh_revision base + 1) (int eventCount) finalHead)
           (eret (head_of_receipt committed))))"

definition replaceEventGeneration ::
  "'w upload_env \<Rightarrow> 'w upload_input \<Rightarrow> event_head \<Rightarrow> chunk_limits \<Rightarrow> ('w, event_head \<times> bool) eng" where
  "replaceEventGeneration env inp base limits =
     (case (pl_finalEventHead (in_plan inp), pl_eventCount (in_plan inp)) of
        (Some finalHead, Some eventCount) \<Rightarrow>
          if finalHead = [] then ethrow (PlainError ''events-v1 plan is incomplete'')
          else
            (let shape = pending_shape ''rewrite'' None (eh_generation base) (eh_revision base) (eh_count base)
                   (eh_head_hash base) (int eventCount) finalHead
             in ebind (egets (reusablePending env (in_fence inp) shape)) (\<lambda>reusable.
                ebind (case reusable of
                         Some p \<Rightarrow> eret p
                       | None \<Rightarrow>
                           ebind (ue_randomUUID env) (\<lambda>appendId. ebind (ue_randomUUID env) (\<lambda>generation.
                             eret (JObj (shape @ [(''append_id'', JStr appendId), (''generation'', JStr generation)])))))
                  (\<lambda>pending.
                ethen (persistPending env inp pending)
                  (let sid = rs_localSessionId (in_session inp); generation = pending_string pending ''generation'';
                       req = commit_request.extend (commit_body inp pending base eventCount finalHead)
                         (stage_request.fields (fe_environmentId (in_fence inp)) generation)
                   in ebind (ethen (en_call (StageGeneration sid req)) (ue_stage env sid req)) (\<lambda>(stagedGeneration, status).
                      if stagedGeneration \<noteq> generation
                      then ethrow (PlainError (''server staged generation '' @ stagedGeneration @ '', expected '' @ generation))
                      else if status = ''committed''
                      then ebind (commit_generation env inp pending base eventCount finalHead) (\<lambda>h. eret (h, False))
                      else
                        ebind (chunkEvents (ue_sha env) (in_plan inp) 0 limits) (\<lambda>(chunks, failed).
                        ebind (upload_generation_chunks env inp generation chunks failed False) (\<lambda>uploaded.
                        ebind (commit_generation env inp pending base eventCount finalHead) (\<lambda>h. eret (h, uploaded)))))))))
      | _ \<Rightarrow> ethrow (PlainError ''events-v1 plan is incomplete''))"

text \<open>The \<open>catch\<close> of one attempt: a result, another attempt (\<^term>\<open>None\<close>) or the error.\<close>

definition handle_event_error :: "'w upload_env \<Rightarrow> 'w upload_input \<Rightarrow> sync_error \<Rightarrow> ('w, content_result option) eng" where
  "handle_event_error env inp error =
     (case error of
        EventTooLargeError _ sizeBytes message \<Rightarrow>
          ebind (persistBlocked env inp ''event_too_large'' (Some sizeBytes) message) (\<lambda>r. eret (Some r))
      | EventSchemaInvalidError message \<Rightarrow>
          ebind (persistBlocked env inp ''event_schema_invalid'' None
              (rs_localSessionId (in_session inp) @ '' events-v1 upload rejected: '' @ message)) (\<lambda>r. eret (Some r))
      | _ \<Rightarrow>
          (case as_api_error error of
             None \<Rightarrow> ethrow error
           | Some (status, _) \<Rightarrow>
               if status = 410 then
                 ebind (egets (up_entry env (in_fence inp))) (\<lambda>prior.
                   case prior of
                     None \<Rightarrow> ethrow error
                   | Some (JObj fs) \<Rightarrow>
                       (case jprop (JObj fs) ''pending'' of
                          None \<Rightarrow> ethrow error
                        | Some pending \<Rightarrow>
                            if jprop pending ''kind'' \<noteq> Some (JStr ''rewrite'') then ethrow error
                            else ethen (up_persist env (in_fence inp) (map_delete ''pending'' fs)) (eret None))
                   | Some _ \<Rightarrow> ethrow error)
               else if status \<noteq> 409 then ethrow error
               else eret None))"

text \<open>The \<open>try\<close> block up to the rewrite: the history was appended, or it has to be replaced; the flag is
  \<open>planConfirmed\<close> from then on.\<close>

datatype attempt_phase = Appended bool | Rewrite bool

definition confirm_plan :: "'w upload_input \<Rightarrow> ('w, bool) eng option \<Rightarrow> ('w, unit) eng" where
  "confirm_plan inp confirmPlanCurrent =
     (case confirmPlanCurrent of
        None \<Rightarrow> ethrow (SessionPlanStaleError (rs_localSessionId (in_session inp)))
      | Some confirm \<Rightarrow>
          ebind confirm (\<lambda>ok.
            if ok then eret () else ethrow (SessionPlanStaleError (rs_localSessionId (in_session inp)))))"

definition append_or_confirm ::
  "'w upload_env \<Rightarrow> 'w upload_input \<Rightarrow> ('w, bool) eng option \<Rightarrow> chunk_limits \<Rightarrow> nat \<Rightarrow> event_head \<Rightarrow> bool \<Rightarrow>
   ('w, attempt_phase) eng" where
  "append_or_confirm env inp confirmPlanCurrent limits eventCount head planConfirmed =
     ebind (if eh_protocol head = EVENTS_V1 \<and> eh_generation head \<noteq> None \<and> eh_count head < int eventCount
            then ebind (eventPrefixHead (ue_sha env) (in_plan inp) (eh_count head)) (\<lambda>prefix.
              eret (prefix = Some (eh_head_hash head)))
            else eret False) (\<lambda>extends.
       if extends then
         ebind (appendEvents env inp head limits) (\<lambda>(h, uploaded).
           ethen (persistEventSuccess env inp h) (eret (Appended uploaded)))
       else if truthy_generation head \<noteq> None \<and> eh_count head > int eventCount \<and> \<not> planConfirmed
       then ethen (confirm_plan inp confirmPlanCurrent) (eret (Rewrite True))
       else eret (Rewrite planConfirmed))"

definition rewrite_generation ::
  "'w upload_env \<Rightarrow> 'w upload_input \<Rightarrow> chunk_limits \<Rightarrow> string \<Rightarrow> event_head \<Rightarrow> ('w, content_result) eng" where
  "rewrite_generation env inp limits finalHead head =
     ebind (replaceEventGeneration env inp head limits) (\<lambda>(h, uploaded).
       ethen (persistEventSuccess env inp h) (eret (Synced uploaded finalHead)))"

text \<open>\<open>attempts\<close> counts down from \<open>EVENT_RETRY_LIMIT\<close>.\<close>

fun event_attempts ::
  "'w upload_env \<Rightarrow> 'w upload_input \<Rightarrow> ('w, bool) eng option \<Rightarrow> chunk_limits \<Rightarrow> nat \<Rightarrow> string \<Rightarrow> nat \<Rightarrow> bool \<Rightarrow>
   ('w, content_result) eng" where
  "event_attempts env inp confirm limits eventCount finalHead 0 planConfirmed =
     ethrow (PlainError (rs_localSessionId (in_session inp) @ '' event head changed during every retry''))"
| "event_attempts env inp confirm limits eventCount finalHead (Suc attempts) planConfirmed =
     ebind (ue_eventHead env (rs_localSessionId (in_session inp)) (fe_environmentId (in_fence inp))
         (fe_profileKey (in_fence inp))) (\<lambda>head.
       if eh_count head = int eventCount \<and> eh_head_hash head = finalHead \<and> truthy_generation head \<noteq> None
       then ethen (persistEventSuccess env inp head) (eret (Synced False finalHead))
       else
         ebind (ecatch
             (ebind (append_or_confirm env inp confirm limits eventCount head planConfirmed) (\<lambda>p. eret (Inr p)))
             (\<lambda>e. ebind (handle_event_error env inp e) (\<lambda>outcome. eret (Inl outcome)))) (\<lambda>phase.
           case phase of
             Inl (Some result) \<Rightarrow> eret result
           | Inl None \<Rightarrow> event_attempts env inp confirm limits eventCount finalHead attempts planConfirmed
           | Inr (Appended uploaded) \<Rightarrow> eret (Synced uploaded finalHead)
           | Inr (Rewrite confirmed) \<Rightarrow>
               ebind (ecatch
                   (ebind (rewrite_generation env inp limits finalHead head) (\<lambda>r. eret (Some r)))
                   (handle_event_error env inp)) (\<lambda>outcome.
                 case outcome of
                   Some result \<Rightarrow> eret result
                 | None \<Rightarrow> event_attempts env inp confirm limits eventCount finalHead attempts confirmed)))"

definition syncEventSession ::
  "'w upload_env \<Rightarrow> 'w upload_input \<Rightarrow> ('w, bool) eng option \<Rightarrow> ('w, content_result) eng" where
  "syncEventSession env inp confirmPlanCurrent =
     (case (pl_eventCount (in_plan inp), pl_finalEventHead (in_plan inp)) of
        (Some eventCount, Some finalHead) \<Rightarrow>
          ebind (eventUploadCapabilities env) (\<lambda>limits.
            case limits of
              None \<Rightarrow> ethrow (PlainError ''events-v1 capability disappeared after session negotiation'')
            | Some l \<Rightarrow> event_attempts env inp confirmPlanCurrent l eventCount finalHead EVENT_RETRY_LIMIT False)
      | _ \<Rightarrow> ethrow (PlainError ''events-v1 plan is incomplete''))"

definition too_large_session :: "'w upload_input \<Rightarrow> string \<Rightarrow> string" where
  "too_large_session inp text = rs_localSessionId (in_session inp) @ text"

definition upload_snapshot ::
  "'w upload_env \<Rightarrow> 'w upload_input \<Rightarrow> bool \<Rightarrow> (bool \<Rightarrow> ('w, content_result) eng) \<Rightarrow> ('w, content_result) eng" where
  "upload_snapshot env inp needsSnapshotContent settle =
     (let plan = in_plan inp in
      if \<not> needsSnapshotContent then settle False
      else
        ebind (case pl_snapshotBytes plan of
                 Some b \<Rightarrow> eret b
               | None \<Rightarrow>
                   (case pl_readSnapshot plan of
                      Some read \<Rightarrow> read
                    | None \<Rightarrow> ethrow (PlainError ''snapshot-v1 plan is missing bytes''))) (\<lambda>bytes.
          let req = \<lparr>ct_localSessionId = rs_localSessionId (in_session inp), ct_environmentId = fe_environmentId (in_fence inp),
                ct_profileKey = fe_profileKey (in_fence inp), ct_expectedContentHash = pl_localHash plan, ct_file = bytes\<rparr>
          in ebind
               (ecatch
                 (ebind (ethen (en_call (UploadSessionContent req)) (ue_uploadContent env req)) (\<lambda>stored.
                    if stored \<noteq> pl_localHash plan
                    then ethrow (PlainError (''server stored hash '' @ stored @ '', expected '' @ pl_localHash plan))
                    else eret None))
                 (\<lambda>error.
                    case as_api_error error of
                      Some (status, _) \<Rightarrow>
                        if status = 413
                        then ebind (persistBlocked env inp ''legacy_session_too_large'' (Some (int (length bytes)))
                            (too_large_session inp '' was rejected by the legacy session size limit'')) (\<lambda>r. eret (Some r))
                        else ethrow error
                    | None \<Rightarrow> ethrow error))
               (\<lambda>outcome. case outcome of Some r \<Rightarrow> eret r | None \<Rightarrow> settle True)))"

definition syncSnapshotSession ::
  "'w upload_env \<Rightarrow> 'w upload_input \<Rightarrow> bool \<Rightarrow> ('w, content_result) eng" where
  "syncSnapshotSession env inp needsSnapshotContent =
     (let plan = in_plan inp;
          sizeBytes = (case pl_snapshotSizeBytes plan of Some n \<Rightarrow> Some n | None \<Rightarrow> map_option length (pl_snapshotBytes plan));
          settle = (\<lambda>uploaded.
            ethen (up_persist env (in_fence inp)
              ([(''protocol'', JStr SNAPSHOT_V1), (''local_hash'', JStr (pl_localHash plan))] @
               sourceRevisionEntry (in_session inp) @ [(''snapshot_hash'', JStr (pl_localHash plan))]))
              (eret (Synced uploaded (pl_localHash plan))))
      in case sizeBytes of
           Some n \<Rightarrow>
             if n > LEGACY_SESSION_MAX_BYTES
             then persistBlocked env inp ''legacy_session_too_large'' (Some (int n))
               (too_large_session inp '' exceeds the legacy 50 MiB session limit'')
             else upload_snapshot env inp needsSnapshotContent settle
         | None \<Rightarrow> upload_snapshot env inp needsSnapshotContent settle)"

definition syncSessionContent ::
  "'w upload_env \<Rightarrow> 'w upload_input \<Rightarrow> bool \<Rightarrow> ('w, bool) eng option \<Rightarrow> ('w, content_result) eng" where
  "syncSessionContent env inp needsSnapshotContent confirmPlanCurrent =
     ebind (egets (sessionPlanIsDurablyBlocked env (in_fence inp) (in_plan inp))) (\<lambda>blocked.
       case blocked of
         Some message \<Rightarrow>
           if message = [] then
             (if pl_protocol (in_plan inp) = SNAPSHOT_V1 then syncSnapshotSession env inp needsSnapshotContent
              else syncEventSession env inp confirmPlanCurrent)
           else eret (Blocked (pl_localHash (in_plan inp)) message)
       | None \<Rightarrow>
           if pl_protocol (in_plan inp) = SNAPSHOT_V1 then syncSnapshotSession env inp needsSnapshotContent
           else syncEventSession env inp confirmPlanCurrent)"

end
