(* ===== verification/QueueDrain.thy ===== *)
theory QueueDrain
  imports SkillInventory SessionUpload SyncModule
begin

text \<open>
  The consumer of the queue, in \<open>packages/cli/src/serve/sync-engine.ts\<close>: \<open>uploadSkillFromQueue\<close>,
  \<open>uploadSessionFromQueue\<close>, \<open>processQueueItem\<close> and the body of \<open>drainQueueLoop\<close>.

  \<open>en_aborted\<close> is the signal of the lease under which the item is processed; \<open>en_pushed\<close> and
  \<open>en_pushedSessions\<close> are the leased bindings' \<open>lastPushedHash\<close> maps.
\<close>

section \<open>Last activity\<close>

text \<open>\<open>packages/cli/src/lib/session-activity.ts\<close>; \<open>getTime\<close> is \<open>new Date(text).getTime()\<close>.\<close>

definition later_message :: "(string \<Rightarrow> int option) \<Rightarrow> session_message \<Rightarrow> (int \<times> string) option \<Rightarrow> (int \<times> string) option" where
  "later_message getTime m best =
     (case sm_timestamp m of
        None \<Rightarrow> best
      | Some ts \<Rightarrow>
          if ts = [] then best
          else (case getTime ts of
                  None \<Rightarrow> best
                | Some t \<Rightarrow>
                    (case best of
                       None \<Rightarrow> Some (t, ts)
                     | Some (b, _) \<Rightarrow> if t > b then Some (t, ts) else best)))"

definition maxMessageTimestamp :: "(string \<Rightarrow> int option) \<Rightarrow> session_message list \<Rightarrow> string option" where
  "maxMessageTimestamp getTime messages = map_option snd (fold (later_message getTime) messages None)"

definition computeLastActivityIso :: "(string \<Rightarrow> int option) \<Rightarrow> 'w raw_session \<Rightarrow> string" where
  "computeLastActivityIso getTime s =
     (case (case rs_lastMessageTimestamp s of
              Some t \<Rightarrow> Some t
            | None \<Rightarrow> maxMessageTimestamp getTime (rs_messages s)) of
        Some t \<Rightarrow> if t = [] then or_else (rs_endedAt s) (rs_startedAt s) else t
      | None \<Rightarrow> or_else (rs_endedAt s) (rs_startedAt s))"

section \<open>The outside\<close>

record batch_row =
  br_environment_id :: string
  br_local_session_id :: string
  br_project_path :: "string option"
  br_started_at :: string
  br_ended_at :: "string option"
  br_last_activity_at :: string
  br_duration_seconds :: "int option"
  br_message_count :: int
  br_input_tokens :: int
  br_output_tokens :: int
  br_cache_read_tokens :: int
  br_model :: "string option"
  br_models_used :: "string list"
  br_summary :: "string option"
  br_status :: string
  br_content_protocol :: string
  br_content_hash :: "string option"

record batch_response =
  bp_rejected :: "string list"
  bp_suppressed :: "string list"
  bp_needs_content :: "string list"

record 'w drain_env =
  dv_skill :: "'w skill_env"
  dv_upload :: "'w upload_env"
  dv_apiOrigin :: string
  dv_deleteAgentSkill :: "string \<Rightarrow> string \<Rightarrow> string \<Rightarrow> ('w, unit) eng"
  dv_uploadAgentSkill :: "string \<Rightarrow> string \<Rightarrow> string \<Rightarrow> string \<Rightarrow> string \<Rightarrow> ('w, unit) eng"
  dv_snapshotSkillArchive :: "string \<Rightarrow> ('w, string \<times> string) eng"
  dv_resolve :: "string \<Rightarrow> ('w, 'w raw_session option) eng"
  dv_postBatch :: "string option \<Rightarrow> batch_row \<Rightarrow> ('w, batch_response) eng"

text \<open>The leased bindings: the protocol of the session module, the Project of the Skill module.\<close>

record queue_modules =
  qm_sessions :: "string option"
  qm_skills :: "string option"

datatype outcome = Applied | Absent | Upload_blocked | Not_applied

section \<open>Skills\<close>

definition skill_identity_of :: "engine_opts \<Rightarrow> string \<Rightarrow> string \<Rightarrow> skill_identity" where
  "skill_identity_of opts projectId skillKey =
     \<lparr>id_agentType = op_agentType opts, id_agentId = op_environmentId opts, id_projectId = projectId, id_skillKey = skillKey\<rparr>"

definition en_removeClaim :: "'w drain_env \<Rightarrow> engine_opts \<Rightarrow> string \<Rightarrow> string \<Rightarrow> ('w, unit) eng" where
  "en_removeClaim env opts skillKey projectId =
     (\<lambda>s. case removeSkillProjectionClaim (sv_parse (dv_skill env)) True (skill_identity_of opts projectId skillKey) (en_skillsLock s) of
        Inl e \<Rightarrow> (Inl (lock_message e), s)
      | Inr (_, data) \<Rightarrow> (Inr (), s\<lparr>en_skillsLock := data\<rparr>))"

definition en_recordClaim :: "'w drain_env \<Rightarrow> engine_opts \<Rightarrow> string \<Rightarrow> string \<Rightarrow> string \<Rightarrow> ('w, unit) eng" where
  "en_recordClaim env opts skillKey projectId hash =
     (\<lambda>s. case recordSkillProjectionClaim (sv_parse (dv_skill env)) True (skill_identity_of opts projectId skillKey) hash (en_skillsLock s) of
        Inl e \<Rightarrow> (Inl (lock_message e), s)
      | Inr data \<Rightarrow> (Inr (), s\<lparr>en_skillsLock := data\<rparr>))"

text \<open>\<open>deleteAgentSkill\<close>, the abort check and \<open>removeSkillProjectionClaim\<close>, as they always occur together.\<close>

definition retire_projection :: "'w drain_env \<Rightarrow> engine_opts \<Rightarrow> string \<Rightarrow> string \<Rightarrow> ('w, unit) eng" where
  "retire_projection env opts skillKey projectId =
     ethen (en_call (DeleteAgentSkill (op_environmentId opts) skillKey projectId))
       (ethen (dv_deleteAgentSkill env (op_environmentId opts) skillKey projectId)
         (ethen throwIfAborted (en_removeClaim env opts skillKey projectId)))"

definition en_forgetPushed :: "string \<Rightarrow> ('w, unit) eng" where
  "en_forgetPushed skillKey = emodify (\<lambda>s. s\<lparr>en_pushed := map_delete skillKey (en_pushed s)\<rparr>)"

definition uploadSkillFromQueue :: "'w drain_env \<Rightarrow> engine_opts \<Rightarrow> string \<Rightarrow> string \<Rightarrow> ('w, unit) eng" where
  "uploadSkillFromQueue env opts skillKey projectId =
     ebind (dv_snapshotSkillArchive env skillKey) (\<lambda>(firstHash, _).
     ebind (dv_snapshotSkillArchive env skillKey) (\<lambda>(actualHash, archive).
       if firstHash \<noteq> actualHash
       then ethrow (PlainError (''skill_push: '' @ skillKey @ '' disk shifted mid-tar; will retry with latest content''))
       else
         ethen (en_call (UploadAgentSkill (op_environmentId opts) skillKey projectId actualHash))
         (ethen (dv_uploadAgentSkill env (op_environmentId opts) projectId skillKey archive actualHash)
         (ethen throwIfAborted
         (ethen (emodify (\<lambda>s. s\<lparr>en_pushed := map_set skillKey actualHash (en_pushed s)\<rparr>))
           (en_recordClaim env opts skillKey projectId actualHash))))))"

definition finish_item :: "queue_item \<Rightarrow> outcome \<Rightarrow> ('w, outcome) eng" where
  "finish_item item result = ethen (en_markDone item) (eret result)"

text \<open>The last part of \<open>processQueueItem\<close> for a Skill item: it is stamped with this Agent and no Project has
  taken its key.\<close>

definition process_own_skill ::
  "'w drain_env \<Rightarrow> engine_opts \<Rightarrow> queue_item \<Rightarrow> string \<Rightarrow> string \<Rightarrow> string \<Rightarrow> ('w, outcome) eng" where
  "process_own_skill env opts item skillKey itemProject projectId =
     (let is_delete = is_skill_delete (Some item) in
      if itemProject \<noteq> projectId \<and> \<not> is_delete then
        ethen (retire_projection env opts skillKey itemProject)
        (ethen (en_markDone item)
        (ethen (enqueueIfChanged (dv_skill env) opts skillKey projectId) (eret Applied)))
      else if is_delete then
        ethen (retire_projection env opts skillKey itemProject)
        (ethen (if itemProject = projectId then en_forgetPushed skillKey else eret ())
        (ethen (en_markDone item)
        (ethen (if itemProject \<noteq> projectId then enqueueIfChanged (dv_skill env) opts skillKey projectId else eret ())
          (eret Applied))))
      else
        ebind (egets (sv_ignoreUserSkill (dv_skill env) skillKey)) (\<lambda>ignored.
          if ignored then
            ethen (retire_projection env opts skillKey itemProject)
            (ethen (en_forgetPushed skillKey) (finish_item item Applied))
          else
            ethen (uploadSkillFromQueue env opts skillKey projectId)
            (ethen throwIfAborted (finish_item item Applied))))"

definition process_skill ::
  "'w drain_env \<Rightarrow> engine_opts \<Rightarrow> queue_item \<Rightarrow> skill_operation \<Rightarrow> string \<Rightarrow> ('w, outcome) eng" where
  "process_skill env opts item op projectId =
     (let skillKey = sk_skill_key op; is_delete = is_skill_delete (Some item) in
      if \<not> isValidSkillKey skillKey then finish_item item Absent
      else
        ebind (en_materialization (dv_skill env) opts skillKey) (\<lambda>materialization.
          if materialization \<noteq> None \<and> \<not> is_delete then finish_item item Absent
          else
            (case (sk_agent_id op, sk_project_id op) of
               (Some agentId, Some itemProject) \<Rightarrow>
                 if agentId \<noteq> op_environmentId opts then finish_item item Not_applied
                 else if materialization \<noteq> None then
                   ebind (egets (\<lambda>s. filter (\<lambda>c. cl_skill_key c = skillKey) (exact_claims (dv_skill env) opts (en_skillsLock s)))) (\<lambda>claims.
                     ethen (eforeach claims (\<lambda>claim. retire_projection env opts skillKey (cl_project_id claim)))
                     (ethen (en_forgetPushed skillKey)
                       (finish_item item (if claims \<noteq> [] then Applied else Absent))))
                 else
                   ebind (egets (\<lambda>s. staleSkillProjectionProjectIds (sv_parse (dv_skill env)) (op_agentType opts)
                       (op_environmentId opts) skillKey projectId (en_skillsLock s))) (\<lambda>stale.
                     ethen (eforeach stale (retire_projection env opts skillKey))
                       (process_own_skill env opts item skillKey itemProject projectId))
             | _ \<Rightarrow> finish_item item Not_applied)))"

section \<open>Sessions\<close>

definition batch_row_of :: "'w drain_env \<Rightarrow> engine_opts \<Rightarrow> 'w raw_session \<Rightarrow> 'w upload_plan \<Rightarrow> batch_row" where
  "batch_row_of env opts session plan =
     \<lparr>br_environment_id = op_environmentId opts, br_local_session_id = rs_localSessionId session,
      br_project_path = rs_projectPath session, br_started_at = rs_startedAt session, br_ended_at = rs_endedAt session,
      br_last_activity_at = computeLastActivityIso (ue_dateParse (dv_upload env)) session,
      br_duration_seconds = rs_durationSeconds session, br_message_count = rs_messageCount session,
      br_input_tokens = rs_inputTokens session, br_output_tokens = rs_outputTokens session,
      br_cache_read_tokens = rs_cacheReadTokens session, br_model = rs_model session,
      br_models_used = rs_modelsUsed session, br_summary = rs_summary session, br_status = ''completed'',
      br_content_protocol = pl_protocol plan,
      br_content_hash = (if pl_protocol plan = SNAPSHOT_V1 then Some (pl_localHash plan) else None)\<rparr>"

definition confirm_current :: "'w drain_env \<Rightarrow> string \<Rightarrow> string \<Rightarrow> string \<Rightarrow> ('w, bool) eng" where
  "confirm_current env sourceSessionKey protocol localHash =
     ebind (dv_resolve env sourceSessionKey) (\<lambda>current.
       ethen throwIfAborted
         (case current of
            None \<Rightarrow> eret False
          | Some session \<Rightarrow>
              ebind (prepareSessionUpload (ue_sha (dv_upload env)) session protocol) (\<lambda>plan.
                eret (pl_localHash plan = localHash))))"

definition uploadSessionFromQueue ::
  "'w drain_env \<Rightarrow> engine_opts \<Rightarrow> string \<Rightarrow> session_operation \<Rightarrow> session_fence \<Rightarrow> ('w, outcome \<times> string option) eng" where
  "uploadSessionFromQueue env opts protocol item fence =
     (case (hasSessionFence item, se_source_session_key item) of
        (True, Some key) \<Rightarrow>
          ebind (dv_resolve env key) (\<lambda>resolved.
          ethen throwIfAborted
          (case resolved of
             None \<Rightarrow> eret (Absent, None)
           | Some session \<Rightarrow>
               ebind (prepareSessionUpload (ue_sha (dv_upload env)) session protocol) (\<lambda>plan.
               let actualHash = pl_localHash plan; sid = rs_localSessionId session;
                   inp = \<lparr>in_fence = fence, in_session = session, in_plan = plan\<rparr>
               in ebind (dv_postBatch env (fe_profileKey fence) (batch_row_of env opts session plan)) (\<lambda>result.
                 if sid \<in> set (bp_rejected result) then eret (Not_applied, None)
                 else if sid \<in> set (bp_suppressed result)
                 then ethen (persistSuppressedSession (dv_upload env) fence session plan) (eret (Applied, Some actualHash))
                 else
                   ebind (syncSessionContent (dv_upload env) inp (sid \<in> set (bp_needs_content result))
                       (Some (confirm_current env key protocol actualHash))) (\<lambda>content.
                     case content of
                       Blocked _ _ \<Rightarrow> eret (Upload_blocked, Some actualHash)
                     | Synced _ _ \<Rightarrow> eret (Applied, Some actualHash))))))
      | _ \<Rightarrow> eret (Not_applied, None))"

definition clearInFlight :: "session_operation \<Rightarrow> ('w, unit) eng" where
  "clearInFlight item =
     emodify (\<lambda>s. if map_get (en_inFlight s) (session_map_key item) = Some (se_content_hash item)
                  then s\<lparr>en_inFlight := map_delete (session_map_key item) (en_inFlight s)\<rparr> else s)"

definition process_session ::
  "'w drain_env \<Rightarrow> engine_opts \<Rightarrow> queue_item \<Rightarrow> session_operation \<Rightarrow> string \<Rightarrow> ('w, outcome) eng" where
  "process_session env opts item op protocol =
     (let expected = sessionFence (dv_apiOrigin env) (op_environmentId opts) (op_agentType opts) (session_map_key op)
            (se_profile_key op)
      in if \<not> hasSessionFence op \<or> se_api_origin op \<noteq> Some (fe_apiOrigin expected) \<or>
            se_environment_id op \<noteq> Some (fe_environmentId expected) \<or> se_adapter op \<noteq> Some (fe_adapter expected) \<or>
            se_source_session_key op \<noteq> Some (fe_sourceSessionKey expected)
         then finish_item item Not_applied
         else
           ebind (uploadSessionFromQueue env opts protocol op expected) (\<lambda>(result, actualHash).
           ethen throwIfAborted
           (ethen (case (result, actualHash) of
                     (Applied, Some h) \<Rightarrow>
                       emodify (\<lambda>s. s\<lparr>en_pushedSessions := map_set (session_map_key op) h (en_pushedSessions s)\<rparr>)
                   | _ \<Rightarrow> eret ())
           (ethen (clearInFlight op) (ethen throwIfAborted (finish_item item result))))))"

fun processQueueItem :: "'w drain_env \<Rightarrow> engine_opts \<Rightarrow> queue_modules \<Rightarrow> queue_item \<Rightarrow> ('w, outcome) eng" where
  "processQueueItem env opts modules (SessionPush op) =
     (case qm_sessions modules of
        None \<Rightarrow> finish_item (SessionPush op) Not_applied
      | Some protocol \<Rightarrow> process_session env opts (SessionPush op) op protocol)"
| "processQueueItem env opts modules (SkillPush op h) =
     (case qm_skills modules of
        None \<Rightarrow> finish_item (SkillPush op h) Not_applied
      | Some projectId \<Rightarrow> process_skill env opts (SkillPush op h) op projectId)"
| "processQueueItem env opts modules (SkillDelete op) =
     (case qm_skills modules of
        None \<Rightarrow> finish_item (SkillDelete op) Not_applied
      | Some projectId \<Rightarrow> process_skill env opts (SkillDelete op) op projectId)"

section \<open>The loop body\<close>

definition QUEUE_IDLE_WAKEUP_MS :: int where "QUEUE_IDLE_WAKEUP_MS = 30000"
definition QUEUE_RETRY_INTERVAL_MS :: int where "QUEUE_RETRY_INTERVAL_MS = 15000"
definition MAX_QUEUE_ATTEMPTS :: int where "MAX_QUEUE_ATTEMPTS = 30"

fun healthResource :: "queue_item \<Rightarrow> string" where
  "healthResource (SessionPush op) = ''session:'' @ session_map_key op"
| "healthResource item = ''skill:'' @ item_skill_key item"

fun item_label :: "queue_item \<Rightarrow> string" where
  "item_label (SessionPush op) = ''session '' @ se_local_session_id op"
| "item_label item = ''skill '' @ item_skill_key item"

fun clear_in_flight_of :: "queue_item \<Rightarrow> ('w, unit) eng" where
  "clear_in_flight_of (SessionPush op) = clearInFlight op"
| "clear_in_flight_of _ = eret ()"

definition en_health_do :: "(sync_health \<Rightarrow> sync_health) \<Rightarrow> ('w, unit) eng" where
  "en_health_do f = emodify (\<lambda>s. s\<lparr>en_health := f (en_health s)\<rparr>)"

definition en_queue_do :: "(retry_queue \<Rightarrow> retry_queue) \<Rightarrow> ('w, unit) eng" where
  "en_queue_do f = emodify (\<lambda>s. s\<lparr>en_queue := f (en_queue s)\<rparr>)"

definition dropItem :: "queue_item \<Rightarrow> drop_reason \<Rightarrow> ('w, unit) eng" where
  "dropItem item reason =
     ethen (en_queue_do (recordPermanentDrop reason))
       (ethen (clear_in_flight_of item) (ethen (en_markDone item) (eret ())))"

definition settle_outcome :: "queue_item \<Rightarrow> outcome \<Rightarrow> ('w, unit) eng" where
  "settle_outcome item result =
     en_health_do (case result of
        Applied \<Rightarrow> health_clear Push (healthResource item)
      | Absent \<Rightarrow> health_clear Push (healthResource item)
      | Upload_blocked \<Rightarrow> health_set Push (healthResource item)
          (''permanent: '' @ item_label item @ '' upload requires a source or client fix'') False
      | Not_applied \<Rightarrow> health_setIfAbsent Push (healthResource item)
          (item_label item @ '' projection was not applied; awaiting rescan'') True)"

text \<open>How a turn of the loop ends: an authentication failure stops it, a transient failure waits.\<close>

datatype turn_end = Idle | Next | Wait_retry | Stop_auth

definition handle_failure :: "queue_item \<Rightarrow> sync_error \<Rightarrow> ('w, turn_end) eng" where
  "handle_failure item e =
     ebind (egets en_aborted) (\<lambda>aborted.
       if aborted \<and> \<not> isAuthFailure e then eret Next
       else
         (let msg = toErrorMessage e; resource = healthResource item in
          if isAuthFailure e then ethen (en_health_do (health_set Push resource msg False)) (eret Stop_auth)
          else
            ethen (en_queue_do (bumpAttempts item))
            (if isOversizedUploadError e then
               ethen (en_health_do (health_clearTransient Push resource)) (ethen (dropItem item Oversized) (eret Next))
             else if isPermanentUploadError e then
               ethen (en_health_do (health_set Push resource (''permanent: '' @ msg) False))
                 (ethen (dropItem item Permanent) (eret Next))
             else if item_attempts item + 1 \<ge> MAX_QUEUE_ATTEMPTS then
               ethen (en_health_do (health_set Push resource (''retry_exhausted: '' @ msg) False))
                 (ethen (dropItem item Retry_exhausted) (eret Next))
             else
               ethen (en_health_do (health_set Push resource msg True)) (eret Wait_retry))))"

text \<open>The two supervised modules; the binding is the protocol of the session module and the Project of the
  Skill module. The lease of a module is the task its scope tracks while the item is processed.\<close>

record drain_slots =
  ds_sessions :: "string sync_module"
  ds_skills :: "string sync_module"

definition eligible :: "drain_slots \<Rightarrow> queue_item \<Rightarrow> bool" where
  "eligible slots item \<longleftrightarrow>
     (let slot = (if isSkillOperation item then ds_skills slots else ds_sessions slots)
      in module_available slot \<or> md_state slot = Unsupported)"

definition modules_for :: "drain_slots \<Rightarrow> nat \<Rightarrow> queue_item \<Rightarrow> queue_modules" where
  "modules_for slots lease item =
     (if isSkillOperation item then \<lparr>qm_sessions = None, qm_skills = fst (module_acquire lease (ds_skills slots))\<rparr>
      else \<lparr>qm_sessions = fst (module_acquire lease (ds_sessions slots)), qm_skills = None\<rparr>)"

definition drain_turn :: "'w drain_env \<Rightarrow> engine_opts \<Rightarrow> drain_slots \<Rightarrow> nat \<Rightarrow> ('w, turn_end) eng" where
  "drain_turn env opts slots task =
     ebind (egets (\<lambda>s. peek (eligible slots) (en_queue s))) (\<lambda>found.
       case found of
         None \<Rightarrow>
           ethen (emodify (\<lambda>s. s\<lparr>en_queue := waitForChange (en_aborted s) QUEUE_IDLE_WAKEUP_MS task (en_queue s)\<rparr>)) (eret Idle)
       | Some item \<Rightarrow>
           ecatch
             (ebind (processQueueItem env opts (modules_for slots task item) item) (\<lambda>result.
                ethen (settle_outcome item result) (eret Next)))
             (handle_failure item))"

text \<open>The loop, for at most \<open>n\<close> turns: \<open>stopped\<close> is \<open>opts.abort.aborted\<close>, \<open>slots\<close> the modules as a turn
  finds them, \<open>wait\<close> what the daemon does while a turn that is idle or has to retry waits.\<close>

fun drainQueueLoop ::
  "'w drain_env \<Rightarrow> engine_opts \<Rightarrow> ('w engine \<Rightarrow> bool) \<Rightarrow> ('w engine \<Rightarrow> drain_slots) \<Rightarrow> (turn_end \<Rightarrow> ('w, unit) eng) \<Rightarrow>
   nat \<Rightarrow> ('w, unit) eng" where
  "drainQueueLoop env opts stopped slots wait 0 = eret ()"
| "drainQueueLoop env opts stopped slots wait (Suc n) =
     (\<lambda>s. if stopped s then (Inr (), s)
          else ebind (drain_turn env opts (slots s) n) (\<lambda>turn.
                 if turn = Stop_auth then eret ()
                 else ethen (wait turn) (drainQueueLoop env opts stopped slots wait n)) s)"

end
