(* ===== verification/SkillInventoryLaws.thy ===== *)
theory SkillInventoryLaws
  imports SkillInventory
begin

text \<open>
  What the inventory code guarantees: a listing used as evidence is one complete inventory, the
  reconciliation enqueues only work it has authority for, and a watcher event leaves the queue with
  the latest local state of its key.
\<close>

section \<open>The listing\<close>

lemma has_duplicate_iff: "has_duplicate seen ks \<longleftrightarrow> \<not> distinct ks \<or> set seen \<inter> set ks \<noteq> {}"
  by (induction ks arbitrary: seen) auto

definition page_of :: "(nat \<Rightarrow> string option \<Rightarrow> page_response) \<Rightarrow> string option \<Rightarrow> nat \<Rightarrow> page_response" where
  "page_of resp etag0 p = resp p (if p = 1 then etag0 else None)"

definition page_items :: "page_response \<Rightarrow> string list" where
  "page_items r = (case pr_data r of Inr (_, items) \<Rightarrow> items | Inl _ \<Rightarrow> [])"

definition page_fits :: "string option \<Rightarrow> int \<Rightarrow> page_response \<Rightarrow> bool" where
  "page_fits etag n r \<longleftrightarrow> \<not> pr_notModified r \<and> pr_etag r = etag \<and> (\<exists>items. pr_data r = Inr (n, items))"

lemma revision_etag: "parseSkillsRevisionFromEtag etag = Some r \<Longrightarrow> etag \<noteq> None"
  by (cases etag) (simp_all add: parseSkillsRevisionFromEtag_def)

lemma list_page_next:
  assumes "list_page page r inm out tot rv = Inr (Inr (inm1, out1, t, rv1))"
    and "1 \<le> page" and "1 < page \<Longrightarrow> inm \<noteq> None"
  shows "page_fits inm1 t r \<and> inm1 \<noteq> None \<and> out1 = out @ page_items r \<and>
    (distinct out \<longrightarrow> distinct out1) \<and> (1 < page \<longrightarrow> inm1 = inm) \<and> (tot \<noteq> None \<longrightarrow> tot = Some t)"
proof -
  obtain pr where "parseSkillsRevisionFromEtag (pr_etag r) = Some pr"
    using assms(1) by (auto simp: list_page_def Let_def split: if_splits option.splits)
  note et = revision_etag [OF this]
  show ?thesis
    using assms et
    by (auto simp: list_page_def Let_def page_fits_def page_items_def has_duplicate_iff
        split: if_splits option.splits sum.splits prod.splits)
qed

lemma list_page_complete:
  assumes "list_page page r inm out tot rv = Inr (Inl l)" "ls_complete l" "\<not> ls_notModified l"
    and "1 \<le> page" and "1 < page \<Longrightarrow> inm \<noteq> None"
  shows "page_fits (ls_etag l) (int (length (ls_skills l))) r \<and> ls_skills l = out @ page_items r \<and>
    (distinct out \<longrightarrow> distinct (ls_skills l)) \<and> (1 < page \<longrightarrow> ls_etag l = inm) \<and> ls_etag l \<noteq> None \<and>
    (tot \<noteq> None \<longrightarrow> tot = Some (int (length (ls_skills l))))"
proof -
  have nm: "\<not> pr_notModified r" using assms(1,3) by (auto simp: list_page_def Let_def)
  then obtain pr where "parseSkillsRevisionFromEtag (pr_etag r) = Some pr"
    using assms(1,2) by (auto simp: list_page_def Let_def incompleteSkillListing_def split: if_splits option.splits)
  note et = revision_etag [OF this]
  show ?thesis
    using assms et nm
    by (auto simp: list_page_def Let_def page_fits_def page_items_def has_duplicate_iff incompleteSkillListing_def
        split: if_splits option.splits sum.splits prod.splits)
qed

lemma list_pages_complete:
  assumes "list_pages (\<lambda>p h. eret (resp p h)) left page inm out tot rv s = (Inr l, s')"
    and "ls_complete l" "\<not> ls_notModified l" "1 \<le> page" "distinct out"
    and "page = 1 \<Longrightarrow> inm = etag0"
    and "1 < page \<Longrightarrow> inm \<noteq> None \<and> tot \<noteq> None \<and> (\<forall>q\<in>{1..<page}. page_fits inm (the tot) (page_of resp etag0 q))"
    and "out = concat (map (\<lambda>q. page_items (page_of resp etag0 q)) [1..<page])"
  shows "\<exists>n. page \<le> n \<and> n < page + left \<and> distinct (ls_skills l) \<and> ls_etag l \<noteq> None \<and>
    ls_skills l = concat (map (\<lambda>q. page_items (page_of resp etag0 q)) [1..<Suc n]) \<and>
    (\<forall>q\<in>{1..n}. page_fits (ls_etag l) (int (length (ls_skills l))) (page_of resp etag0 q))"
  using assms
proof (induction left arbitrary: page inm out tot rv)
  case 0
  then show ?case by (auto simp: eret_def)
next
  case (Suc left)
  let ?r = "resp page (if page = 1 then inm else None)"
  have r: "?r = page_of resp etag0 page" using Suc.prems(6) by (simp add: page_of_def)
  have inm: "1 < page \<Longrightarrow> inm \<noteq> None" using Suc.prems(7) by blast
  have append: "out @ page_items ?r = concat (map (\<lambda>q. page_items (page_of resp etag0 q)) [1..<Suc page])"
    using Suc.prems(4,8) r by simp
  consider (final) "list_page page ?r inm out tot rv = Inr (Inl l)"
    | (more) inm1 out1 t rv1 where "list_page page ?r inm out tot rv = Inr (Inr (inm1, out1, t, rv1))"
      "list_pages (\<lambda>p h. eret (resp p h)) left (page + 1) inm1 out1 (Some t) (Some rv1) s = (Inr l, s')"
    using Suc.prems(1)
    by (auto simp: ebind_def eret_def ethrow_def split: sum.splits prod.splits)
  then show ?case
  proof cases
    case final
    note c = list_page_complete [OF final Suc.prems(2,3,4) inm]
    have "page_fits (ls_etag l) (int (length (ls_skills l))) (page_of resp etag0 q)" if "q \<in> {1..page}" for q
    proof (cases "q = page")
      case True
      then show ?thesis using c r by metis
    next
      case False
      with that have "1 < page" "q \<in> {1..<page}" by auto
      with Suc.prems(7) c show ?thesis by auto
    qed
    moreover have "page \<le> page \<and> page < page + Suc left" by simp
    moreover have "ls_skills l = concat (map (\<lambda>q. page_items (page_of resp etag0 q)) [1..<Suc page])"
      using c append by metis
    ultimately show ?thesis using c Suc.prems(5) by blast
  next
    case more
    note c = list_page_next [OF more(1) Suc.prems(4) inm]
    have fits: "\<forall>q\<in>{1..<page + 1}. page_fits inm1 (the (Some t)) (page_of resp etag0 q)"
    proof
      fix q assume q: "q \<in> {1..<page + 1}"
      show "page_fits inm1 (the (Some t)) (page_of resp etag0 q)"
      proof (cases "q = page")
        case True
        then show ?thesis using c r by simp
      next
        case False
        with q have "1 < page" "q \<in> {1..<page}" by auto
        with Suc.prems(7) c show ?thesis by auto
      qed
    qed
    have "\<exists>n. page + 1 \<le> n \<and> n < page + 1 + left \<and> distinct (ls_skills l) \<and> ls_etag l \<noteq> None \<and>
      ls_skills l = concat (map (\<lambda>q. page_items (page_of resp etag0 q)) [1..<Suc n]) \<and>
      (\<forall>q\<in>{1..n}. page_fits (ls_etag l) (int (length (ls_skills l))) (page_of resp etag0 q))"
    proof (rule Suc.IH [OF more(2) Suc.prems(2,3)])
      show "distinct out1" using c Suc.prems(5) by blast
      show "inm1 \<noteq> None \<and> Some t \<noteq> None \<and> (\<forall>q\<in>{1..<page + 1}. page_fits inm1 (the (Some t)) (page_of resp etag0 q))"
        using c fits by blast
      show "out1 = concat (map (\<lambda>q. page_items (page_of resp etag0 q)) [1..<page + 1])"
        using c append by simp
    qed (use Suc.prems(4) in simp_all)
    then obtain n where "page + 1 \<le> n" "n < page + 1 + left" "distinct (ls_skills l)" "ls_etag l \<noteq> None"
      "ls_skills l = concat (map (\<lambda>q. page_items (page_of resp etag0 q)) [1..<Suc n])"
      "\<forall>q\<in>{1..n}. page_fits (ls_etag l) (int (length (ls_skills l))) (page_of resp etag0 q)" by blast
    moreover have "page \<le> n" "n < page + Suc left" using calculation(1,2) by simp_all
    ultimately show ?thesis by blast
  qed
qed

text \<open>C10. A listing used as deletion evidence is one inventory: when the paged listing reports complete
  with content, it is the concatenation of the first pages (at most 50), every one of which carried
  the same strong ETag and announced exactly as many Skills as were collected, and no key occurs
  twice. A listing that shifted between pages, was cut short or overlapped is never complete.\<close>

theorem listing_is_one_inventory:
  assumes "listAllCloudSkills (\<lambda>p h. eret (resp p h)) etag0 s = (Inr l, s')"
    and "ls_complete l" and "\<not> ls_notModified l"
  shows "\<exists>n\<in>{1..50}. distinct (ls_skills l) \<and>
    ls_skills l = concat (map (\<lambda>q. page_items (page_of resp etag0 q)) [1..<Suc n]) \<and>
    (\<forall>q\<in>{1..n}. page_fits (ls_etag l) (int (length (ls_skills l))) (page_of resp etag0 q))"
proof -
  have "\<exists>n. 1 \<le> n \<and> n < 1 + 50 \<and> distinct (ls_skills l) \<and> ls_etag l \<noteq> None \<and>
    ls_skills l = concat (map (\<lambda>q. page_items (page_of resp etag0 q)) [1..<Suc n]) \<and>
    (\<forall>q\<in>{1..n}. page_fits (ls_etag l) (int (length (ls_skills l))) (page_of resp etag0 q))"
    by (rule list_pages_complete [OF assms(1) [unfolded listAllCloudSkills_def] assms(2,3)]) auto
  then show ?thesis by auto
qed

definition sample_page :: page_response where
  "sample_page = \<lparr>pr_notModified = False, pr_etag = Some ''12:abc'', pr_data = Inr (2, [''a'', ''b''])\<rparr>"

theorem listing_is_one_inventory_witness:
  "\<exists>l. listAllCloudSkills (\<lambda>p h. eret sample_page) None (fresh_engine ()) = (Inr l, fresh_engine ()) \<and>
     ls_complete l \<and> distinct (ls_skills l) \<and> length (ls_skills l) = 2"
proof -
  have rv: "parseSkillsRevisionFromEtag (Some ''12:abc'') = Some 12" by code_simp
  obtain left where fifty: "(50 :: nat) = Suc left" by (metis numeral_eq_Suc)
  let ?l = "\<lparr>ls_skills = [''a'', ''b''], ls_complete = True, ls_notModified = False, ls_revision = Some 12,
    ls_etag = Some ''12:abc''\<rparr>"
  have "list_page 1 sample_page None [] None None = Inr (Inl ?l)"
    using rv by (simp add: list_page_def sample_page_def Let_def safe_integer_def)
  then have run: "listAllCloudSkills (\<lambda>p h. eret sample_page) None (fresh_engine ()) = (Inr ?l, fresh_engine ())"
    unfolding listAllCloudSkills_def fifty by (simp add: ebind_def eret_def)
  from listing_is_one_inventory [OF this] run show ?thesis by auto
qed

section \<open>What may be enqueued\<close>

text \<open>\<open>L\<close> is the ledger and \<open>C\<close> the claims loaded from it.\<close>

definition materialized :: "'w skill_env \<Rightarrow> engine_opts \<Rightarrow> lock_file \<Rightarrow> string \<Rightarrow> bool" where
  "materialized env opts L k \<longleftrightarrow>
     (\<exists>m. readProjectSkillMaterialization (sv_parse env) \<lparr>mi_agentType = op_agentType opts, mi_localSkillKey = k\<rparr> L = Inr (Some m))"

definition claimed :: "'w skill_env \<Rightarrow> engine_opts \<Rightarrow> lock_file \<Rightarrow> string \<Rightarrow> string \<Rightarrow> bool" where
  "claimed env opts L k project \<longleftrightarrow>
     (\<exists>c\<in>set (exact_claims env opts L). cl_skill_key c = k \<and> cl_project_id c = project)"

text \<open>A push is of a valid key that belongs to no Project, for this Agent and its current Project. A
  delete has evidence: a loaded claim, an exact claim of this Agent or the trusted listing; it names
  the current Project, or, when a Project has taken the key over, the Project of an exact claim.\<close>

fun authorized_input ::
  "'w skill_env \<Rightarrow> engine_opts \<Rightarrow> string \<Rightarrow> string list \<Rightarrow> (string, string) js_map \<Rightarrow> lock_file \<Rightarrow> queue_item_input \<Rightarrow> bool" where
  "authorized_input env opts projectId trusted C L (SkillPushInput i h) \<longleftrightarrow>
     isValidSkillKey (in_skill_key i) \<and> in_agent_id i = op_environmentId opts \<and> in_project_id i = projectId \<and>
     \<not> materialized env opts L (in_skill_key i)"
| "authorized_input env opts projectId trusted C L (SkillDeleteInput i) \<longleftrightarrow>
     isValidSkillKey (in_skill_key i) \<and> in_agent_id i = op_environmentId opts \<and>
     (if materialized env opts L (in_skill_key i)
      then claimed env opts L (in_skill_key i) (in_project_id i)
      else in_project_id i = projectId \<and>
        (map_has C (in_skill_key i) \<or> (\<exists>p. claimed env opts L (in_skill_key i) p) \<or> in_skill_key i \<in> set trusted))"
| "authorized_input env opts projectId trusted C L (SessionPushInput _) \<longleftrightarrow> False"

definition authorized_item where
  "authorized_item env opts projectId trusted C L i \<longleftrightarrow>
     (\<exists>input v. authorized_input env opts projectId trusted C L input \<and> i = stampVersion input v)"

text \<open>The invariant of the run: the ledger and the claims stand still, and everything in the queue was
  there before, is authorized, or was put there by the rest of the daemon.\<close>

definition queue_within :: "lock_file \<Rightarrow> (string, string) js_map \<Rightarrow> (queue_item \<Rightarrow> bool) \<Rightarrow> 'w engine \<Rightarrow> bool" where
  "queue_within L C P s \<longleftrightarrow> en_skillsLock s = L \<and> en_pushed s = C \<and> (\<forall>i\<in>set (rq_items (en_queue s)). P i)"

lemma keeps_enqueue:
  assumes "\<And>v. P (stampVersion input v)"
  shows "keeps (queue_within L C P) (en_enqueue input)"
proof -
  have "P i" if "enqueue input q = (v, q', evicted)" "i \<in> set (rq_items q')" "\<forall>i\<in>set (rq_items q). P i"
    for i q q' v evicted
    using set_enqueued [of input q] assms that by auto
  then show ?thesis
    by (fastforce simp: keeps_def valid_def en_enqueue_def queue_within_def split: prod.splits)
qed

lemma keeps_fun: "(\<And>s. I s \<Longrightarrow> keeps I (f s)) \<Longrightarrow> keeps I (\<lambda>s. f s s)"
  by (auto simp: keeps_def valid_def)

lemma keeps_weaken: "keeps I m \<Longrightarrow> keeps I (\<lambda>s. m s)"
  by simp

lemma keeps_enqueueDelete:
  assumes "\<And>i v. in_skill_key i = k \<Longrightarrow> in_agent_id i = op_environmentId opts \<Longrightarrow> in_project_id i = p \<Longrightarrow>
      P (stampVersion (SkillDeleteInput i) v)"
  shows "keeps (queue_within L C P) (en_enqueueDelete env opts k p)"
  unfolding en_enqueueDelete_def
  by (rule keeps_fun) (intro keeps_then keeps_enqueue keeps_ret assms, simp_all add: skill_input_of_def)

lemma keeps_enqueuePush:
  assumes "\<And>i v. in_skill_key i = k \<Longrightarrow> in_agent_id i = op_environmentId opts \<Longrightarrow> in_project_id i = p \<Longrightarrow>
      P (stampVersion (SkillPushInput i h) v)"
  shows "keeps (queue_within L C P) (en_enqueuePush env opts k p h)"
  unfolding en_enqueuePush_def
  by (rule keeps_fun) (intro keeps_then keeps_enqueue keeps_ret assms, simp_all add: skill_input_of_def)

lemma locale_first_member: "locale_first lt cs = Some c \<Longrightarrow> c \<in> set cs"
proof (cases cs)
  case (Cons d ds)
  have "fold (\<lambda>x best. if lt (cl_project_id x) (cl_project_id best) then x else best) xs b \<in> insert b (set xs)" for xs b
  proof (induction xs arbitrary: b)
    case (Cons x xs)
    then show ?case using Cons.IH [of x] Cons.IH [of b] by auto
  qed simp
  from this [of ds d] show "locale_first lt cs = Some c \<Longrightarrow> ?thesis" using Cons by auto
qed simp

text \<open>A run under these names: the predicate admits every authorized item.\<close>

definition admits where
  "admits env opts projectId trusted C L P \<longleftrightarrow>
     (\<forall>i. authorized_item env opts projectId trusted C L i \<longrightarrow> P i)"

lemma admitsD:
  "admits env opts projectId trusted C L P \<Longrightarrow> authorized_input env opts projectId trusted C L input \<Longrightarrow>
     P (stampVersion input v)"
  by (auto simp: admits_def authorized_item_def)

lemma keeps_cleanup:
  fixes env :: "'w skill_env"
  assumes "admits env opts projectId trusted C L P" and "isValidSkillKey k" and "materialized env opts L k"
  shows "keeps (queue_within L C P) (enqueueMaterializedSkillClaimCleanup env opts k)"
proof -
  have del: "keeps (queue_within L C P) (en_enqueueDelete env opts k (cl_project_id c))"
    if "c \<in> set (exact_claims env opts L)" "cl_skill_key c = k" for c
    using assms that
    by (intro keeps_enqueueDelete admitsD [OF assms(1)]) (auto simp: claimed_def)
  show ?thesis
    unfolding keeps_def valid_def
  proof (intro allI impI)
    fix s :: "'w engine" assume I: "queue_within L C P s"
    then have L: "en_skillsLock s = L" by (simp add: queue_within_def)
    let ?cs = "filter (\<lambda>c. cl_skill_key c = k) (exact_claims env opts L)"
    show "case enqueueMaterializedSkillClaimCleanup env opts k s of (Inr a, s') \<Rightarrow> queue_within L C P s'
        | (Inl e, s') \<Rightarrow> queue_within L C P s'"
    proof (cases "locale_first (sv_localeLess env) ?cs")
      case None
      then show ?thesis using I L by (simp add: enqueueMaterializedSkillClaimCleanup_def exact_claims_def)
    next
      case (Some c)
      with locale_first_member [OF Some] del [of c] I
      show ?thesis
        by (auto simp: enqueueMaterializedSkillClaimCleanup_def exact_claims_def L keeps_def valid_def)
    qed
  qed
qed

lemma keeps_absent:
  fixes env :: "'w skill_env"
  assumes "admits env opts projectId trusted C L P" and "isValidSkillKey k" and "\<not> materialized env opts L k"
    and "set keys \<subseteq> cl_skill_key ` set (exact_claims env opts L)"
  shows "keeps (queue_within L C P) (enqueueAbsentSkill env opts projectId keys trusted k)"
proof -
  have "\<exists>p. claimed env opts L k p" if "k \<in> set keys"
    using assms(4) that by (force simp: claimed_def)
  then have del: "keeps (queue_within L C P) (en_enqueueDelete env opts k projectId)"
    if "map_has C k \<or> k \<in> set keys \<or> k \<in> set trusted"
    using assms that by (intro keeps_enqueueDelete admitsD [OF assms(1)]) auto
  show ?thesis
    unfolding keeps_def valid_def
  proof (intro allI impI)
    fix s :: "'w engine" assume I: "queue_within L C P s"
    then have C: "en_pushed s = C" by (simp add: queue_within_def)
    show "case enqueueAbsentSkill env opts projectId keys trusted k s of (Inr a, s') \<Rightarrow> queue_within L C P s'
        | (Inl e, s') \<Rightarrow> queue_within L C P s'"
      using del I by (auto simp: enqueueAbsentSkill_def C keeps_def valid_def)
  qed
qed

lemma keeps_materialization: "keeps I (en_materialization env opts k)"
  by (auto simp: keeps_def valid_def en_materialization_def split: sum.splits)

lemma valid_materialization:
  fixes env :: "'w skill_env"
  shows "valid (queue_within L C P) (en_materialization env opts k)
     (\<lambda>m s. queue_within L C P s \<and> (m \<noteq> None \<longleftrightarrow> materialized env opts L k)) (\<lambda>_. queue_within L C P)"
  unfolding valid_def en_materialization_def materialized_def queue_within_def by (auto split: sum.splits)

lemma valid_bind_materialization:
  fixes env :: "'w skill_env"
  assumes "materialized env opts L k \<Longrightarrow> keeps (queue_within L C P) m"
    and "\<not> materialized env opts L k \<Longrightarrow> keeps (queue_within L C P) n"
  shows "keeps (queue_within L C P) (ebind (en_materialization env opts k) (\<lambda>x. if x \<noteq> None then m else n))"
  unfolding keeps_def
proof (rule valid_bind [OF valid_materialization])
  fix x
  show "valid (\<lambda>s. queue_within L C P s \<and> (x \<noteq> None) = materialized env opts L k) (if x \<noteq> None then m else n)
      (\<lambda>_. queue_within L C P) (\<lambda>_. queue_within L C P)"
    using assms by (cases "materialized env opts L k"; cases x) (auto simp: keeps_def valid_def)
qed

lemma keeps_reconcile_key:
  fixes env :: "'w skill_env"
  assumes "admits env opts projectId trusted C L P" and "isValidSkillKey k"
    and "set keys \<subseteq> cl_skill_key ` set (exact_claims env opts L)"
    and "keeps (queue_within L C P) (sv_folderHash env k)"
  shows "keeps (queue_within L C P) (reconcile_key env opts projectId localKeys keys stale trusted k)"
proof -
  have push: "keeps (queue_within L C P) (en_enqueuePush env opts k projectId h)" if "\<not> materialized env opts L k" for h
    using assms that by (intro keeps_enqueuePush admitsD [OF assms(1)]) auto
  show ?thesis
    unfolding reconcile_key_def
    by (intro keeps_then keeps_throwIfAborted valid_bind_materialization keeps_cleanup [OF assms(1,2)]
        keeps_bind keeps_gets keeps_if keeps_absent [OF assms(1,2) _ assms(3)] keeps_catch assms(4) keeps_ret keeps_throw)
      (auto intro!: keeps_ret keeps_if keeps_bind keeps_gets push split: option.split)
qed

lemma keeps_foreach_of: "(\<And>s x. I s \<Longrightarrow> x \<in> set (xs s) \<Longrightarrow> keeps I (f s x)) \<Longrightarrow> keeps I (\<lambda>s. eforeach (xs s) (f s) s)"
  by (rule keeps_fun) (rule keeps_foreach)

lemma keeps_reconcile:
  fixes env :: "'w skill_env"
  assumes "admits env opts projectId trusted C L P"
    and "keeps (queue_within L C P) (sv_listKeys env)"
    and "\<And>k. keeps (queue_within L C P) (sv_folderHash env k)"
  shows "keeps (queue_within L C P) (reconcileAgentSkillProjection env opts projectId trusted)"
proof -
  have keys: "keeps (queue_within L C P)
      (reconcile_key env opts projectId localKeys (set_of_list (map cl_skill_key (exact_claims env opts (en_skillsLock s)))) stale trusted k)"
    if "queue_within L C P s" "isValidSkillKey k" for s :: "'w engine" and localKeys stale k
    using that by (intro keeps_reconcile_key assms) (auto simp: queue_within_def)
  show ?thesis
    unfolding reconcileAgentSkillProjection_def Let_def
    by (rule keeps_bind [OF assms(2)], rule keeps_then [OF keeps_throwIfAborted], rule keeps_foreach_of, rule keys)
      (simp_all add: filterValidSkillKeysForSync_def)
qed

text \<open>The bounds of a run that starts in \<open>s\<close>.\<close>

definition reconcile_bounds :: "'w skill_env \<Rightarrow> engine_opts \<Rightarrow> string \<Rightarrow> string list \<Rightarrow> 'w engine \<Rightarrow> 'w engine \<Rightarrow> bool" where
  "reconcile_bounds env opts projectId trusted s =
     queue_within (en_skillsLock s) (en_pushed s) (\<lambda>i. i \<in> set (rq_items (en_queue s)) \<or>
       authorized_item env opts projectId trusted (en_pushed s) (en_skillsLock s) i)"

text \<open>C11. Reconciliation never invents work: when it returns or fails, everything in the queue was there
  before or is authorized by the evidence the run started from. A push names a valid key of this
  Agent that no Project has taken over and the current Project; a delete names a key with a loaded
  claim, an exact claim of this Agent or an entry of the complete Cloud listing. In particular
  nothing is deleted in the Cloud because a key is merely absent locally. The listing of local keys
  and the hashing of folders may do anything that leaves the ledger, the claims and the queue within
  these bounds.\<close>

theorem reconcile_enqueues_authorized:
  fixes env :: "'w skill_env" and s :: "'w engine"
  assumes "keeps (reconcile_bounds env opts projectId trusted s) (sv_listKeys env)"
    and "\<And>k. keeps (reconcile_bounds env opts projectId trusted s) (sv_folderHash env k)"
    and "reconcileAgentSkillProjection env opts projectId trusted s = (r, s')"
    and "i \<in> set (rq_items (en_queue s'))"
  shows "i \<in> set (rq_items (en_queue s)) \<or>
    authorized_item env opts projectId trusted (en_pushed s) (en_skillsLock s) i"
proof -
  have "keeps (reconcile_bounds env opts projectId trusted s)
      (reconcileAgentSkillProjection env opts projectId trusted)"
    using assms(1,2) unfolding reconcile_bounds_def by (intro keeps_reconcile) (auto simp: admits_def)
  moreover have "reconcile_bounds env opts projectId trusted s s"
    by (simp add: reconcile_bounds_def queue_within_def)
  ultimately have "reconcile_bounds env opts projectId trusted s s'" using assms(3) by (rule keepsD)
  then show ?thesis using assms(4) by (simp add: reconcile_bounds_def queue_within_def)
qed

definition sample_skill_env :: "unit skill_env" where
  "sample_skill_env =
     \<lparr>sv_parse = (\<lambda>_. None), sv_listKeys = eret [''notes''], sv_folderHash = (\<lambda>_. eret ''h1''),
      sv_hasSkillMd = (\<lambda>_ _. True), sv_existsDir = (\<lambda>_ _. True), sv_ignoreUserSkill = (\<lambda>_ _. False),
      sv_localeLess = (<), sv_now = (\<lambda>_. ''t0'')\<rparr>"

definition sample_opts :: engine_opts where
  "sample_opts = \<lparr>op_environmentId = ''env'', op_agentType = ''codex''\<rparr>"

lemma sample_reconcile:
  "map item_skill_key (rq_items (en_queue (snd (reconcileAgentSkillProjection sample_skill_env sample_opts ''p1'' []
     (fresh_engine ()))))) = [''notes'']"
  by code_simp

theorem reconcile_enqueues_authorized_witness:
  "\<exists>i. rq_items (en_queue (snd (reconcileAgentSkillProjection sample_skill_env sample_opts ''p1'' [] (fresh_engine ())))) = [i] \<and>
     authorized_item sample_skill_env sample_opts ''p1'' [] [] None i"
proof -
  obtain r s' where run: "reconcileAgentSkillProjection sample_skill_env sample_opts ''p1'' [] (fresh_engine ()) = (r, s')"
    by fastforce
  then obtain i where i: "rq_items (en_queue s') = [i]" using sample_reconcile by auto
  have "authorized_item sample_skill_env sample_opts ''p1'' [] [] None i"
    using reconcile_enqueues_authorized [OF _ _ run, of i] i
    by (simp add: sample_skill_env_def keeps_ret fresh_engine_def new_queue_def)
  with i run show ?thesis by auto
qed

end
