(* ===== verification/SessionUploadLaws.thy ===== *)
theory SessionUploadLaws
  imports SessionUpload
begin

text \<open>
  What the upload of a session guarantees: the snapshot is the JSON array of its messages, a streamed
  plan equals the plan in memory, chunks carry exactly the missing suffix with chained heads, a
  reported success is recorded with the planned count and head, a longer remote history is replaced
  only after confirmation, and blocks and pending identities survive a restart.
\<close>

section \<open>Snapshots\<close>

definition snapshot_text :: "session_message list \<Rightarrow> string" where
  "snapshot_text messages = utf8 (stringify (JArr (map message_json messages)))"

lemma utf8_append [simp]: "utf8 (a @ b) = utf8 a @ utf8 b" and utf8_Nil [simp]: "utf8 [] = []"
  by (simp_all add: utf8_def)

lemma utf8_brackets [simp]: "utf8 ''['' = ''[''" "utf8 '']'' = '']''" "utf8 '','' = '',''"
  by (simp_all add: utf8_def utf8_char_def)

lemma utf8_comma [simp]: "utf8 (CHR '','' # s) = CHR '','' # utf8 s"
  by (simp add: utf8_def utf8_char_def)

lemma join_with_snoc: "ps \<noteq> [] \<Longrightarrow> join_with sep (ps @ [p]) = join_with sep ps @ sep @ p"
  by (induction sep ps rule: join_with.induct) simp_all

abbreviation members_text :: "session_message list \<Rightarrow> string" where
  "members_text ms \<equiv> utf8 (join_with '','' (map (\<lambda>m. stringify (message_json m)) ms))"

lemma snapshot_text_members: "snapshot_text ms = ''['' @ members_text ms @ '']''"
proof -
  have "stringify (JArr (map message_json ms)) = ''['' @ join_with '','' (map (\<lambda>m. stringify (message_json m)) ms) @ '']''"
    by (simp add: comp_def)
  then show ?thesis by (simp only: snapshot_text_def utf8_append utf8_brackets)
qed

text \<open>The accumulator after the messages \<open>ms\<close>.\<close>

lemma accumulated:
  fixes ms retain
  defines "a \<equiv> fold ac_add ms (new_accumulator retain)"
  shows "ac_hashed a = ''['' @ members_text ms \<and> ac_count a = length ms \<and> ac_size a = length (members_text ms) + 2 \<and>
    ac_retain a = retain \<and>
    (retain \<longrightarrow> ac_size a \<le> LEGACY_SESSION_MAX_BYTES \<longrightarrow> concat (ac_parts a) = members_text ms)"
  unfolding a_def
proof (induction ms rule: rev_induct)
  case Nil
  then show ?case by (simp add: new_accumulator_def)
next
  case (snoc m ms)
  have "members_text (ms @ [m]) = members_text ms @ (if ms = [] then [] else '','') @ utf8 (stringify (message_json m))"
    by (cases "ms = []") (simp_all add: join_with_snoc del: stringify.simps)
  then show ?case using snoc by (auto simp: ac_add_def Let_def simp del: stringify.simps)
qed

text \<open>The snapshot a plan describes is the JSON array of the messages: the hash is the digest of
  exactly its bytes, the size their number, and reading it again gives exactly those bytes, unless
  they exceed the legacy limit; then no bytes are kept.\<close>

lemma snapshot_describes_array:
  "sn_hash (describe_messages sha retain ms) = sha_hex sha (snapshot_text ms) \<and>
   sn_size (describe_messages sha retain ms) = length (snapshot_text ms) \<and>
   sn_bytes (describe_messages sha retain ms) =
     (if retain \<and> length (snapshot_text ms) \<le> LEGACY_SESSION_MAX_BYTES then Some (snapshot_text ms) else None) \<and>
   snapshot_bytes (describe_messages sha False ms) (describe_messages sha True ms) =
     (if length (snapshot_text ms) \<le> LEGACY_SESSION_MAX_BYTES then Inr (snapshot_text ms) else Inl snapshot_changed)"
  using accumulated [of ms True] accumulated [of ms False] accumulated [of ms retain]
  by (simp add: describe_messages_def ac_finish_def snapshot_text_members snapshot_bytes_def)

section \<open>Plans\<close>

lemma advance_one: "advanceEventHead sha h [e] = advanceCanonicalEventHead sha h (canonicalJson e)"
  by (simp add: advanceEventHead_def advanceCanonicalEventHead_def Let_def)

lemma head_walk_exact:
  assumes "\<And>x. length (sha x) = 32" and "length h = 32"
  shows "head_walk sha n (hex_encode h) es =
    (case assertEventSequence sha n es of
       Some e \<Rightarrow> Inl e
     | None \<Rightarrow> Inr (n + length es, hex_encode (chain_from sha h (map canonicalJson es))))"
  using assms(2)
proof (induction es arbitrary: n h)
  case (Cons e es)
  have "length (hashCanonicalEvent sha h (canonicalJson e)) = 32" by (simp add: hashCanonicalEvent_def assms(1))
  note IH = Cons.IH [OF this, of "Suc n"]
  show ?case using Cons.prems IH
    by (auto simp: advance_one advanceCanonicalEventHead_def Let_def split: option.split)
qed simp

text \<open>C15. Planning from a stream is planning in memory: for a session whose reader yields the events it
  also holds, the streaming plan fails exactly when the other does, and otherwise has the same hash,
  event count and final head.\<close>

theorem streamed_plan_equals_memory_plan:
  assumes "\<And>x. length (sha x) = 32" and "rs_contentProtocol session = None"
    and "rs_events session = Some events" and "rs_readEvents session = Some (eret (events, None))"
  shows "map_sum id (\<lambda>p. (pl_protocol p, pl_localHash p, pl_eventCount p, pl_finalEventHead p))
      (fst (prepareSessionUpload sha session EVENTS_V1 s)) =
    map_sum id (\<lambda>p. (pl_protocol p, pl_localHash p, pl_eventCount p, pl_finalEventHead p))
      (planSessionUpload sha session EVENTS_V1)"
proof -
  have "head_walk sha 0 (EMPTY_EVENT_HEAD sha) events =
      (case assertEventSequence sha 0 events of
         Some e \<Rightarrow> Inl e | None \<Rightarrow> Inr (length events, head_of sha events))"
    using head_walk_exact [of sha "sha HEAD_DOMAIN" 0 events] assms(1)
    by (cases "assertEventSequence sha 0 events") (simp_all add: EMPTY_EVENT_HEAD_def)
  moreover have "advanceEventHead sha (EMPTY_EVENT_HEAD sha) events = Inr (head_of sha events)"
    using assms(1) by (simp add: advanceEventHead_chain EMPTY_EVENT_HEAD_def)
  moreover have "EVENTS_V1 \<noteq> SNAPSHOT_V1" by (simp add: EVENTS_V1_def SNAPSHOT_V1_def)
  ultimately show ?thesis using assms(2-)
    by (auto simp: prepareSessionUpload_def planSessionUpload_def ebind_def eret_def elift_def event_plan_def
        split: option.split)
qed

definition sample_draft :: json where
  "sample_draft = JObj [(''type'', JStr ''message'')]"

definition sample_events :: "json list" where
  "sample_events = sequenceSessionEvents toy_sha [sample_draft] 0"

definition sample_session :: "unit raw_session" where
  "sample_session =
     \<lparr>rs_profileKey = None, rs_contentProtocol = None, rs_localSessionId = ''s1'', rs_projectPath = None, rs_startedAt = ''t0'', rs_endedAt = None,
      rs_messageCount = 1, rs_inputTokens = 0, rs_outputTokens = 0, rs_cacheReadTokens = 0, rs_model = None,
      rs_modelsUsed = [], rs_durationSeconds = None, rs_summary = None, rs_messages = [], rs_events = Some sample_events,
      rs_readEvents = Some (eret (sample_events, None)), rs_readMessages = None, rs_lastMessageTimestamp = None,
      rs_rawFilePath = ''/s1.jsonl'', rs_sourceRevision = Some ''rev1'', rs_localHashMetadata = None\<rparr>"

lemma length_toy_sha: "length (toy_sha x) = 32"
  by (simp add: toy_sha_def)

theorem streamed_plan_equals_memory_plan_witness:
  "\<exists>p q. fst (prepareSessionUpload toy_sha sample_session EVENTS_V1 (fresh_engine ())) = Inr p \<and>
     planSessionUpload toy_sha sample_session EVENTS_V1 = Inr q \<and> pl_localHash p = pl_localHash q"
proof -
  have seq: "assertEventSequence toy_sha 0 sample_events = None" by code_simp
  have "advanceEventHead toy_sha (EMPTY_EVENT_HEAD toy_sha) sample_events = Inr (head_of toy_sha sample_events)"
    by (simp add: advanceEventHead_chain EMPTY_EVENT_HEAD_def length_toy_sha)
  then obtain q where q: "planSessionUpload toy_sha sample_session EVENTS_V1 = Inr q"
    using seq by (auto simp: planSessionUpload_def sample_session_def EVENTS_V1_def SNAPSHOT_V1_def)
  have "map_sum id (\<lambda>p. (pl_protocol p, pl_localHash p, pl_eventCount p, pl_finalEventHead p))
      (fst (prepareSessionUpload toy_sha sample_session EVENTS_V1 (fresh_engine ()))) =
    map_sum id (\<lambda>p. (pl_protocol p, pl_localHash p, pl_eventCount p, pl_finalEventHead p))
      (planSessionUpload toy_sha sample_session EVENTS_V1)"
    by (rule streamed_plan_equals_memory_plan [of toy_sha sample_session sample_events, OF length_toy_sha])
      (simp_all add: sample_session_def)
  then show ?thesis using q
    by (cases "fst (prepareSessionUpload toy_sha sample_session EVENTS_V1 (fresh_engine ()))") auto
qed

section \<open>Chunks\<close>

text \<open>What \<open>readPlanEvents\<close> yields: consecutive numbers from \<open>n\<close> and a chain of heads from \<open>h\<close> (raw bytes).\<close>

fun chained :: "(string \<Rightarrow> string) \<Rightarrow> string \<Rightarrow> int \<Rightarrow> planned_event list \<Rightarrow> bool" where
  "chained sha h n [] \<longleftrightarrow> True"
| "chained sha h n (e # es) \<longleftrightarrow>
     pe_seq e = n \<and> pe_resultHead e = hex_encode (hashCanonicalEvent sha h (pe_encoded e)) \<and>
     chained sha (hashCanonicalEvent sha h (pe_encoded e)) (n + 1) es"

lemma plan_walk_chained:
  assumes "\<And>x. length (sha x) = 32" and "length h = 32"
    and "plan_walk sha plan n (hex_encode h) events failed = (es, err)"
  shows "chained sha h (int n) es \<and>
    (err = None \<longrightarrow> pl_eventCount plan = Some (n + length es) \<and>
      pl_finalEventHead plan = Some (hex_encode (chain_from sha h (map pe_encoded es))))"
  using assms(2,3)
proof (induction events arbitrary: n h es err)
  case Nil
  then show ?case by (auto split: option.splits if_splits)
next
  case (Cons e events)
  let ?h = "hashCanonicalEvent sha h (canonicalJson e)"
  have l: "length ?h = 32" by (simp add: hashCanonicalEvent_def assms(1))
  show ?case
  proof (cases "assertEventIdentity sha e n")
    case None
    obtain rest err' where r: "plan_walk sha plan (Suc n) (hex_encode ?h) events failed = (rest, err')" by fastforce
    have adv: "advanceCanonicalEventHead sha (hex_encode h) (canonicalJson e) = Inr (hex_encode ?h)"
      using Cons.prems(1) by (simp add: advanceCanonicalEventHead_def Let_def)
    have es: "es = \<lparr>pe_seq = event_seq e, pe_encoded = canonicalJson e, pe_resultHead = hex_encode ?h\<rparr> # rest" "err = err'"
      using Cons.prems(2) None r adv by (simp_all add: Let_def)
    have "event_seq e = int n" using None by (auto simp: assertEventIdentity_def event_seq_def split: if_splits)
    then show ?thesis using Cons.IH [OF l r] es by (auto simp: add.commute)
  qed (use Cons.prems in auto)
qed

lemma plan_walk_verified:
  assumes "\<And>x. length (sha x) = 32" and "length h = 32" and "assertEventSequence sha n events = None"
    and "pl_eventCount plan = Some (n + length events)"
    and "pl_finalEventHead plan = Some (hex_encode (chain_from sha h (map canonicalJson events)))"
  shows "snd (plan_walk sha plan n (hex_encode h) events None) = None \<and>
    map pe_encoded (fst (plan_walk sha plan n (hex_encode h) events None)) = map canonicalJson events"
  using assms(2-)
proof (induction events arbitrary: n h)
  case (Cons e events)
  let ?h = "hashCanonicalEvent sha h (canonicalJson e)"
  have l: "length ?h = 32" by (simp add: hashCanonicalEvent_def assms(1))
  have "advanceCanonicalEventHead sha (hex_encode h) (canonicalJson e) = Inr (hex_encode ?h)"
    using Cons.prems(1) by (simp add: advanceCanonicalEventHead_def Let_def)
  then show ?case using Cons.IH [OF l, of "Suc n"] Cons.prems
    by (cases "assertEventIdentity sha e n") (auto simp: Let_def split: prod.split)
qed simp

text \<open>\<open>covers sha limits h n chunks encs\<close>: the chunks are the lines of \<open>encs\<close>, cut into contiguous pieces from
  number \<open>n\<close> and head \<open>h\<close>, each with the digest of its bytes and the head after it, within the limits.\<close>

definition lines_of :: "string list \<Rightarrow> string" where
  "lines_of encs = concat (map (\<lambda>e. e @ [newline]) encs)"

fun covers :: "(string \<Rightarrow> string) \<Rightarrow> chunk_limits \<Rightarrow> string \<Rightarrow> int \<Rightarrow> event_chunk list \<Rightarrow> string list \<Rightarrow> bool" where
  "covers sha limits h n [] encs \<longleftrightarrow> encs = []"
| "covers sha limits h n (c # cs) encs \<longleftrightarrow>
     ch_startSeq c = n \<and> 0 < ch_count c \<and> ch_count c \<le> length encs \<and>
     ch_bytes c = lines_of (take (ch_count c) encs) \<and> ch_contentHash c = sha_hex sha (ch_bytes c) \<and>
     int (length (ch_bytes c)) \<le> li_maxBytes limits \<and>
     (ch_count c = 1 \<or> int (length (ch_bytes c)) \<le> li_targetBytes limits) \<and>
     ch_baseHead c = hex_encode h \<and>
     ch_resultHead c = hex_encode (chain_from sha h (take (ch_count c) encs)) \<and>
     covers sha limits (chain_from sha h (take (ch_count c) encs)) (n + int (ch_count c)) cs (drop (ch_count c) encs)"

definition fits :: "chunk_limits \<Rightarrow> string \<Rightarrow> bool" where
  "fits limits enc \<longleftrightarrow> int (length enc) + 1 \<le> li_maxBytes limits"

text \<open>The state of the walk holds the lines \<open>pend\<close> since the head \<open>hb\<close>.\<close>

definition holding :: "(string \<Rightarrow> string) \<Rightarrow> chunk_limits \<Rightarrow> string \<Rightarrow> string list \<Rightarrow> chunk_state \<Rightarrow> bool" where
  "holding sha limits hb pend c \<longleftrightarrow>
     cs_lines c = map (\<lambda>e. e @ [newline]) pend \<and> cs_count c = length pend \<and> cs_size c = int (length (lines_of pend)) \<and>
     cs_baseHead c = hex_encode hb \<and> cs_head c = hex_encode (chain_from sha hb pend) \<and>
     (pend = [] \<or> cs_size c \<le> li_maxBytes limits \<and> (length pend = 1 \<or> cs_size c \<le> li_targetBytes limits))"

lemma holding_push:
  assumes "holding sha limits hb pend c" and "fits limits enc" and "li_targetBytes limits \<le> li_maxBytes limits"
    and "pend = [] \<or> cs_size c + int (length enc) + 1 \<le> li_targetBytes limits"
  shows "holding sha limits hb (pend @ [enc])
    (push_line (enc @ [newline]) (hex_encode (hashCanonicalEvent sha (chain_from sha hb pend) enc)) c)"
  using assms by (auto simp: holding_def push_line_def lines_of_def fits_def)

lemma holding_next:
  "holding sha limits hb pend c \<Longrightarrow> holding sha limits (chain_from sha hb pend) [] (next_chunk c)"
  by (simp add: holding_def next_chunk_def lines_of_def)

lemma covers_cons:
  assumes "holding sha limits hb pend c" and "pend \<noteq> []"
    and "covers sha limits (chain_from sha hb pend) (cs_chunkStart c + int (length pend)) rest encs"
  shows "covers sha limits hb (cs_chunkStart c) (chunk_of sha c # rest) (pend @ encs)"
  using assms by (auto simp: holding_def chunk_of_def Let_def lines_of_def)

lemma chunk_walk_covers:
  assumes "li_targetBytes limits \<le> li_maxBytes limits"
    and "holding sha limits hb pend c" and "chained sha (chain_from sha hb pend) n es" and "startSeq \<le> n"
    and "chunk_walk sha limits startSeq c es None = (chunks, err)"
  shows "(err = None \<longleftrightarrow> list_all (\<lambda>e. fits limits (pe_encoded e)) es) \<and>
    (err = None \<longrightarrow> covers sha limits hb (cs_chunkStart c) chunks (pend @ map pe_encoded es))"
  using assms(2-)
proof (induction es arbitrary: hb pend c n chunks err)
  case Nil
  then have "chunks = (if pend \<noteq> [] then [chunk_of sha c] else [])" "err = None" by (auto simp: holding_def)
  then show ?case using covers_cons [OF Nil.prems(1), of "[]" "[]"] by auto
next
  case (Cons e es)
  let ?enc = "pe_encoded e" and ?h = "chain_from sha hb pend"
  have seq: "\<not> pe_seq e < startSeq" and res: "pe_resultHead e = hex_encode (hashCanonicalEvent sha ?h ?enc)"
    using Cons.prems by auto
  show ?case
  proof (cases "fits limits ?enc")
    case False
    then show ?thesis using Cons.prems(4) seq by (auto simp: fits_def Let_def)
  next
    case fit: True
    show ?thesis
    proof (cases "pend \<noteq> [] \<and> cs_size c + int (length ?enc) + 1 > li_targetBytes limits")
      case True
      let ?c = "push_line (?enc @ [newline]) (pe_resultHead e) (next_chunk c)"
      obtain rest err' where r: "chunk_walk sha limits startSeq ?c es None = (rest, err')" by fastforce
      have "cs_count c > 0" using True Cons.prems(1) by (simp add: holding_def)
      then have out: "chunks = chunk_of sha c # rest" "err = err'"
        using Cons.prems(4) seq fit True r by (auto simp: Let_def fits_def)
      have hold: "holding sha limits ?h [?enc] ?c"
        using holding_push [OF holding_next [OF Cons.prems(1)] fit assms(1)] res by simp
      have "cs_chunkStart ?c = cs_chunkStart c + int (length pend)"
        using Cons.prems(1) by (simp add: push_line_def next_chunk_def holding_def)
      then have "(err' = None \<longleftrightarrow> list_all (\<lambda>e. fits limits (pe_encoded e)) es) \<and>
          (err' = None \<longrightarrow> covers sha limits ?h (cs_chunkStart c + int (length pend)) rest (?enc # map pe_encoded es))"
        using Cons.IH [OF hold _ _ r, of "n + 1"] Cons.prems(2,3) by simp
      then show ?thesis using out fit True covers_cons [OF Cons.prems(1), of rest "?enc # map pe_encoded es"]
        by (simp del: covers.simps)
    next
      case False
      let ?c = "push_line (?enc @ [newline]) (pe_resultHead e) c"
      have "\<not> (cs_count c > 0 \<and> cs_size c + int (length (?enc @ [newline])) > li_targetBytes limits)"
        using False Cons.prems(1) by (auto simp: holding_def)
      then have w: "chunk_walk sha limits startSeq ?c es None = (chunks, err)"
        using Cons.prems(4) seq fit by (auto simp: Let_def fits_def split: if_splits)
      have hold: "holding sha limits hb (pend @ [?enc]) ?c"
        using holding_push [OF Cons.prems(1) fit assms(1)] False res by auto
      have "cs_chunkStart ?c = cs_chunkStart c" by (simp add: push_line_def)
      then show ?thesis using Cons.IH [OF hold _ _ w, of "n + 1"] Cons.prems(2,3) fit by auto
    qed
  qed
qed

lemma chunk_walk_skips:
  assumes "holding sha limits h [] c" and "chained sha h n es" and "n \<le> startSeq" and "startSeq \<le> n + int (length es)"
  shows "\<exists>c'. chunk_walk sha limits startSeq c es failed = chunk_walk sha limits startSeq c' (drop (nat (startSeq - n)) es) failed \<and>
    holding sha limits (chain_from sha h (map pe_encoded (take (nat (startSeq - n)) es))) [] c' \<and>
    cs_chunkStart c' = cs_chunkStart c \<and>
    chained sha (chain_from sha h (map pe_encoded (take (nat (startSeq - n)) es))) startSeq (drop (nat (startSeq - n)) es)"
  using assms
proof (induction es arbitrary: h c n)
  case Nil
  then show ?case by auto
next
  case (Cons e es)
  show ?case
  proof (cases "n = startSeq")
    case True
    then show ?thesis using Cons.prems by (intro exI [of _ c]) simp
  next
    case False
    let ?h = "hashCanonicalEvent sha h (pe_encoded e)"
    let ?c = "c\<lparr>cs_head := pe_resultHead e, cs_baseHead := pe_resultHead e\<rparr>"
    have k: "nat (startSeq - n) = Suc (nat (startSeq - (n + 1)))" using False Cons.prems(3) by linarith
    have "holding sha limits ?h [] ?c" using Cons.prems(1,2) by (simp add: holding_def)
    from Cons.IH [OF this, of "n + 1"] Cons.prems False show ?thesis by (simp add: k)
  qed
qed

lemma covers_bytes: "covers sha limits h n chunks encs \<Longrightarrow> concat (map ch_bytes chunks) = lines_of encs"
proof (induction chunks arbitrary: h n encs)
  case (Cons c cs)
  have "lines_of (take k encs) @ lines_of (drop k encs) = lines_of encs" for k
    unfolding lines_of_def by (metis append_take_drop_id concat_append map_append)
  with Cons show ?case by auto
qed (simp add: lines_of_def)

lemma holding_start: "holding sha limits (sha HEAD_DOMAIN) [] (start_chunks sha n)"
  by (simp add: holding_def start_chunks_def lines_of_def EMPTY_EVENT_HEAD_def)

lemma readPlanEvents_chained:
  assumes "\<And>x. length (sha x) = 32" and "readPlanEvents sha plan s = (Inr (es, err), s')"
  shows "chained sha (sha HEAD_DOMAIN) 0 es \<and>
    (err = None \<longrightarrow> pl_eventCount plan = Some (length es) \<and>
      pl_finalEventHead plan = Some (hex_encode (chain_from sha (sha HEAD_DOMAIN) (map pe_encoded es))))"
proof -
  obtain events failed where "plan_walk sha plan 0 (hex_encode (sha HEAD_DOMAIN)) events failed = (es, err)"
    using assms(2) by (auto simp: readPlanEvents_def ebind_def eret_def EMPTY_EVENT_HEAD_def split: prod.splits sum.splits)
  from plan_walk_chained [of sha, OF assms(1) _ this] assms(1) show ?thesis by simp
qed

lemma chunk_walk_suffix:
  assumes "\<And>x. length (sha x) = 32" and "li_targetBytes limits \<le> li_maxBytes limits"
    and "chained sha (sha HEAD_DOMAIN) 0 es" and "k \<le> length es"
    and "chunk_walk sha limits (int k) (start_chunks sha (int k)) es None = (chunks, err)"
  shows "(err = None \<longleftrightarrow> list_all (\<lambda>e. fits limits (pe_encoded e)) (drop k es)) \<and>
    (err = None \<longrightarrow> covers sha limits (chain_from sha (sha HEAD_DOMAIN) (map pe_encoded (take k es))) (int k) chunks
       (map pe_encoded (drop k es)))"
proof -
  obtain c' where c': "chunk_walk sha limits (int k) c' (drop k es) None = (chunks, err)"
    "holding sha limits (chain_from sha (sha HEAD_DOMAIN) (map pe_encoded (take k es))) [] c'"
    "cs_chunkStart c' = int k"
    "chained sha (chain_from sha (sha HEAD_DOMAIN) (map pe_encoded (take k es))) (int k) (drop k es)"
    using chunk_walk_skips [OF holding_start assms(3), of "int k" limits "int k" None] assms(4,5)
    by (auto simp: start_chunks_def)
  have ch: "chained sha (chain_from sha (chain_from sha (sha HEAD_DOMAIN) (map pe_encoded (take k es))) []) (int k) (drop k es)"
    using c'(4) by simp
  show ?thesis using chunk_walk_covers [OF assms(2) c'(2) ch _ c'(1)] c'(3) by simp
qed

text \<open>C16. Chunking loses and invents nothing: cutting a verified event stream at the number the server
  already holds gives chunks whose bytes, put together, are exactly the lines of the missing events;
  they are contiguous, not empty, never above the hard limit and above the target only when a single
  event is, each with its own digest and the heads before and after it. Chunking fails only when an
  event to be sent does not fit a chunk.\<close>

theorem chunks_carry_suffix:
  assumes "\<And>x. length (sha x) = 32" and "li_targetBytes limits \<le> li_maxBytes limits"
    and "readPlanEvents sha plan s = (Inr (es, None), s')" and "k \<le> length es"
    and "chunkEvents sha plan (int k) limits s = (Inr (chunks, err), s'')"
  shows "(err = None \<longleftrightarrow> list_all (\<lambda>e. fits limits (pe_encoded e)) (drop k es)) \<and>
    (err = None \<longrightarrow>
       concat (map ch_bytes chunks) = lines_of (map pe_encoded (drop k es)) \<and>
       covers sha limits (chain_from sha (sha HEAD_DOMAIN) (map pe_encoded (take k es))) (int k) chunks
         (map pe_encoded (drop k es)))"
proof -
  have "chained sha (sha HEAD_DOMAIN) 0 es" using readPlanEvents_chained [of sha, OF assms(1,3)] by simp
  moreover have "chunk_walk sha limits (int k) (start_chunks sha (int k)) es None = (chunks, err)"
    using assms(3,5) by (simp add: chunkEvents_def ebind_def eret_def)
  ultimately show ?thesis
    using chunk_walk_suffix [of sha, OF assms(1,2) _ assms(4), of chunks err] covers_bytes by blast
qed

definition sample_limits :: chunk_limits where
  "sample_limits = \<lparr>li_targetBytes = 1048576, li_maxBytes = 1048576\<rparr>"

definition sample_event_plan :: "unit upload_plan" where
  "sample_event_plan = event_plan toy_sha sample_session (Some sample_events) None 1 (head_of toy_sha sample_events)"

definition sample_planned :: "planned_event list" where
  "sample_planned = fst (plan_walk toy_sha sample_event_plan 0 (EMPTY_EVENT_HEAD toy_sha) sample_events None)"

lemma sample_plan_read:
  "plan_walk toy_sha sample_event_plan 0 (EMPTY_EVENT_HEAD toy_sha) sample_events None = (sample_planned, None)"
  "list_all (\<lambda>e. fits sample_limits (pe_encoded e)) sample_planned"
proof -
  have seq: "assertEventSequence toy_sha 0 sample_events = None" "length sample_events = 1"
    "list_all (\<lambda>e. fits sample_limits (canonicalJson e)) sample_events" by code_simp+
  have "snd (plan_walk toy_sha sample_event_plan 0 (EMPTY_EVENT_HEAD toy_sha) sample_events None) = None \<and>
      map pe_encoded (fst (plan_walk toy_sha sample_event_plan 0 (EMPTY_EVENT_HEAD toy_sha) sample_events None)) =
        map canonicalJson sample_events"
    using plan_walk_verified [of toy_sha "toy_sha HEAD_DOMAIN" 0 sample_events sample_event_plan] seq(1,2)
    by (simp add: length_toy_sha EMPTY_EVENT_HEAD_def sample_event_plan_def event_plan_def)
  note w = this
  from w show "plan_walk toy_sha sample_event_plan 0 (EMPTY_EVENT_HEAD toy_sha) sample_events None = (sample_planned, None)"
    by (simp add: sample_planned_def prod_eq_iff)
  have "map pe_encoded sample_planned = map canonicalJson sample_events" using w by (simp add: sample_planned_def)
  then have "list_all (fits sample_limits) (map pe_encoded sample_planned)" using seq(3) by (simp add: list.pred_map comp_def)
  then show "list_all (\<lambda>e. fits sample_limits (pe_encoded e)) sample_planned" by (simp add: list.pred_map comp_def)
qed

theorem chunks_carry_suffix_witness:
  "\<exists>chunks. chunkEvents toy_sha sample_event_plan 0 sample_limits (fresh_engine ()) = (Inr (chunks, None), fresh_engine ()) \<and>
     concat (map ch_bytes chunks) = lines_of (map pe_encoded sample_planned)"
proof -
  have read: "readPlanEvents toy_sha sample_event_plan (fresh_engine ()) = (Inr (sample_planned, None), fresh_engine ())"
    using sample_plan_read(1)
    by (simp add: readPlanEvents_def ebind_def eret_def) (simp add: sample_event_plan_def event_plan_def eret_def)
  then obtain chunks err where run:
    "chunkEvents toy_sha sample_event_plan (int 0) sample_limits (fresh_engine ()) = (Inr (chunks, err), fresh_engine ())"
    by (cases "chunk_walk toy_sha sample_limits 0 (start_chunks toy_sha 0) sample_planned None")
      (simp add: chunkEvents_def ebind_def eret_def)
  have lim: "li_targetBytes sample_limits \<le> li_maxBytes sample_limits" by (simp add: sample_limits_def)
  show ?thesis
    using chunks_carry_suffix [of toy_sha, OF length_toy_sha lim read _ run] sample_plan_read(2) run by simp
qed

end
