(* ===== verification/UploadFrame.thy ===== *)
theory UploadFrame
  imports SessionUpload
begin

text \<open>
  What an upload leaves alone. The functions of \<open>session-upload.ts\<close> write the sessions lock and the
  engine's list of Cloud calls, and nothing else of the engine: a predicate that survives these two
  writes survives an upload, if it survives what is awaited. The contract is the locale
  \<open>session_frame\<close>; it is interpreted for the queue (this theory) and for the history rule
  (\<open>SessionSync\<close>).
\<close>

section \<open>Rules\<close>

lemma keeps_sum: "(\<And>e. keeps I (f e)) \<Longrightarrow> (\<And>a. keeps I (g a)) \<Longrightarrow> keeps I (case r of Inl e \<Rightarrow> f e | Inr a \<Rightarrow> g a)"
  by (cases r) auto

lemma keeps_option: "keeps I m \<Longrightarrow> (\<And>a. r = Some a \<Longrightarrow> keeps I (f a)) \<Longrightarrow> keeps I (case r of None \<Rightarrow> m | Some a \<Rightarrow> f a)"
  by (cases r) auto

lemma keeps_pair: "(\<And>a b. keeps I (f a b)) \<Longrightarrow> keeps I (case p of (a, b) \<Rightarrow> f a b)"
  by (cases p) auto

lemmas keeps_flow = keeps_rules keeps_lift keeps_option keeps_pair

lemma keeps_validate: "keeps I m \<Longrightarrow> keeps I (validateEventUpload m)"
  unfolding validateEventUpload_def by (intro keeps_flow)

lemma keeps_whole: "keeps I (whole st)"
  unfolding whole_def by (intro keeps_flow)

lemma keeps_assertEventResponse: "keeps I (assertEventResponse r g v c h)"
  unfolding assertEventResponse_def by (intro keeps_flow)

section \<open>What is awaited\<close>

text \<open>The API and the reader of the plan's events.\<close>

definition upload_env_keeps :: "('w engine \<Rightarrow> bool) \<Rightarrow> 'w upload_env \<Rightarrow> 'w upload_input \<Rightarrow> bool" where
  "upload_env_keeps I env inp \<longleftrightarrow>
     keeps I (ue_capabilities env) \<and> (\<forall>a b c. keeps I (ue_eventHead env a b c)) \<and> (\<forall>r. keeps I (ue_uploadContent env r)) \<and>
     (\<forall>r. keeps I (ue_append env r)) \<and> (\<forall>i r. keeps I (ue_stage env i r)) \<and> (\<forall>r. keeps I (ue_chunk env r)) \<and>
     (\<forall>i g r. keeps I (ue_commit env i g r)) \<and> keeps I (ue_randomUUID env) \<and>
     (\<forall>m. pl_readEvents (in_plan inp) = Some m \<longrightarrow> keeps I m)"

lemma env_keepsD:
  assumes "upload_env_keeps I env inp"
  shows "keeps I (ue_capabilities env)" "keeps I (ue_eventHead env a b c)" "keeps I (ue_uploadContent env cr)"
    "keeps I (ue_append env ar)" "keeps I (ue_stage env i sr)" "keeps I (ue_chunk env kr)" "keeps I (ue_commit env i g mr)"
    "keeps I (ue_randomUUID env)" "pl_readEvents (in_plan inp) = Some m \<Longrightarrow> keeps I m"
  using assms unfolding upload_env_keeps_def by blast+

text \<open>The readers of a session, and of the plan derived from it.\<close>

definition session_keeps :: "('w engine \<Rightarrow> bool) \<Rightarrow> 'w raw_session \<Rightarrow> bool" where
  "session_keeps I session \<longleftrightarrow>
     (\<forall>m. rs_readEvents session = Some m \<longrightarrow> keeps I m) \<and> (\<forall>m. rs_readMessages session = Some m \<longrightarrow> keeps I m)"

definition plan_keeps :: "('w engine \<Rightarrow> bool) \<Rightarrow> 'w upload_plan \<Rightarrow> bool" where
  "plan_keeps I plan \<longleftrightarrow>
     (\<forall>m. pl_readEvents plan = Some m \<longrightarrow> keeps I m) \<and> (\<forall>m. pl_readSnapshot plan = Some m \<longrightarrow> keeps I m)"

lemma keeps_readPlanEvents: "upload_env_keeps I env inp \<Longrightarrow> keeps I (readPlanEvents sha (in_plan inp))"
  unfolding readPlanEvents_def by (intro keeps_flow) (rule env_keepsD(9))

lemma keeps_chunkEvents: "upload_env_keeps I env inp \<Longrightarrow> keeps I (chunkEvents sha (in_plan inp) k limits)"
  unfolding chunkEvents_def by (intro keeps_flow keeps_readPlanEvents)

lemma keeps_eventPrefixHead: "upload_env_keeps I env inp \<Longrightarrow> keeps I (eventPrefixHead sha (in_plan inp) k)"
  unfolding eventPrefixHead_def by (intro keeps_flow keeps_readPlanEvents keeps_whole)

lemma keeps_describe: "session_keeps I session \<Longrightarrow> keeps I (describe_session sha session retain)"
  unfolding describe_session_def readSessionMessages_def
  by (intro keeps_flow keeps_whole) (auto simp: session_keeps_def)

lemma prepare_plan_keeps:
  assumes "session_keeps I session"
  shows "valid I (prepareSessionUpload sha session protocol) (\<lambda>plan s. I s \<and> plan_keeps I plan) (\<lambda>_. I)"
proof -
  have read: "keeps I (ebind (describe_session sha session retain) (\<lambda>current. elift (snapshot_bytes initial current)))"
    for retain initial by (intro keeps_flow keeps_describe assms)
  have snap: "valid I (snapshotPlan sha session) (\<lambda>plan s. I s \<and> plan_keeps I plan) (\<lambda>_. I)"
    unfolding snapshotPlan_def
    by (rule valid_bind [OF keeps_describe [OF assms, unfolded keeps_def]])
      (auto simp: valid_def eret_def plan_keeps_def plan_of_snapshot_def intro: read)
  have lift: "keeps I (Pair r)" for r :: "sync_error + string"
    using keeps_lift [of I r] by (simp add: elift_def)
  have memory: "valid I (elift (planSessionUpload sha session p)) (\<lambda>plan s. I s \<and> plan_keeps I plan) (\<lambda>_. I)" for p
    by (auto simp: valid_def elift_def planSessionUpload_def plan_keeps_def plan_of_snapshot_def event_plan_def bind_res_Inr_iff
        intro!: keeps_flow lift split: option.splits sum.splits)
  have stream: "valid I (ebind read (\<lambda>st. ebind (elift (head_walk sha 0 (EMPTY_EVENT_HEAD sha) (fst st))) (\<lambda>(count, head).
      case snd st of Some e \<Rightarrow> ethrow e | None \<Rightarrow> eret (event_plan sha session None (Some read) count head))))
      (\<lambda>plan s. I s \<and> plan_keeps I plan) (\<lambda>_. I)" if "rs_readEvents session = Some read" for read
  proof -
    have k: "keeps I read" using assms that by (simp add: session_keeps_def)
    show ?thesis
      by (rule valid_bind [OF k [unfolded keeps_def]])
        (auto simp: valid_def ebind_def elift_def eret_def ethrow_def plan_keeps_def event_plan_def k
          split: sum.splits option.splits)
  qed
  have thrown: "valid I (ethrow e) (\<lambda>plan s. I s \<and> plan_keeps I plan) (\<lambda>_. I)" for e
    by (simp add: valid_def ethrow_def)
  show ?thesis
  proof (cases "rs_readEvents session")
    case None
    show ?thesis unfolding prepareSessionUpload_def Let_def None option.case by (intro valid_if snap memory thrown)
  next
    case (Some read)
    show ?thesis unfolding prepareSessionUpload_def Let_def Some option.case
      by (intro valid_if snap memory thrown stream [OF Some])
  qed
qed

section \<open>The frame\<close>

locale session_frame =
  fixes I :: "'w engine \<Rightarrow> bool" and okcall :: "api_call \<Rightarrow> bool"
  assumes lock_free: "I s \<Longrightarrow> I (s\<lparr>en_sessionsLock := d\<rparr>)"
    and call_free: "okcall c \<Longrightarrow> I s \<Longrightarrow> I (s\<lparr>en_calls := en_calls s @ [c]\<rparr>)"
begin

lemma frame_persist: "keeps I (up_persist env fence entry)"
  unfolding up_persist_def by (rule keeps_modify) (rule lock_free)

lemma frame_call: "okcall c \<Longrightarrow> keeps I (en_call c)"
  unfolding en_call_def by (rule keeps_modify) (rule call_free)

lemma frame_blocked: "keeps I (persistBlocked env inp code sz msg)"
  unfolding persistBlocked_def by (intro keeps_flow frame_persist)

lemma frame_pending: "keeps I (persistPending env inp p)"
  unfolding persistPending_def by (intro keeps_flow frame_persist)

lemma frame_success: "keeps I (persistEventSuccess env inp h)"
  unfolding persistEventSuccess_def by (intro keeps_flow frame_persist)

lemma frame_suppressed: "keeps I (persistSuppressedSession env fence session plan)"
  unfolding persistSuppressedSession_def by (intro keeps_flow frame_persist)

lemmas frame_rules = keeps_flow frame_persist frame_blocked frame_pending frame_success

lemma frame_append_chunk:
  "upload_env_keeps I env inp \<Longrightarrow> (\<And>r. okcall (AppendSessionEvents r)) \<Longrightarrow> keeps I (append_chunk env inp g chunk head)"
  unfolding append_chunk_def Let_def
  by (intro frame_rules keeps_validate keeps_assertEventResponse frame_call env_keepsD(4,8)) simp_all

lemma frame_append:
  assumes "upload_env_keeps I env inp" and "\<And>r. okcall (AppendSessionEvents r)"
  shows "keeps I (appendEvents env inp head limits)"
proof -
  have "keeps I (append_chunks env inp g chunks failed head u)" for g chunks failed head u
    by (induction chunks arbitrary: head u) (auto intro!: frame_rules frame_append_chunk assms)
  then show ?thesis unfolding appendEvents_def by (intro frame_rules keeps_chunkEvents [OF assms(1)])
qed

lemma frame_upload_chunks:
  "upload_env_keeps I env inp \<Longrightarrow> (\<And>r. okcall (UploadGenerationChunk r)) \<Longrightarrow>
     keeps I (upload_generation_chunks env inp g chunks failed u)"
  by (induction chunks arbitrary: u)
    (auto simp: Let_def intro!: frame_rules keeps_validate frame_call env_keepsD(6))

lemma frame_commit:
  "upload_env_keeps I env inp \<Longrightarrow> (\<And>i g r. okcall (CommitGeneration i g r)) \<Longrightarrow>
     keeps I (commit_generation env inp p base c h)"
  unfolding commit_generation_def Let_def
  by (intro frame_rules keeps_assertEventResponse frame_call env_keepsD(7)) simp_all

text \<open>A rewrite, if the staging call it makes is one of the admitted ones.\<close>

lemma frame_replace:
  assumes "upload_env_keeps I env inp" and "\<And>r. okcall (UploadGenerationChunk r)" and "\<And>i g r. okcall (CommitGeneration i g r)"
    and "\<And>i p n h e g. pl_eventCount (in_plan inp) = Some n \<Longrightarrow> okcall (StageGeneration i
      (commit_request.extend (commit_body inp p base n h) (stage_request.fields e g)))"
  shows "keeps I (replaceEventGeneration env inp base limits)"
proof (cases "pl_eventCount (in_plan inp)")
  case None
  then show ?thesis by (cases "pl_finalEventHead (in_plan inp)") (simp_all add: replaceEventGeneration_def keeps_throw)
next
  case n: (Some n)
  show ?thesis
  proof (cases "pl_finalEventHead (in_plan inp)")
    case None
    then show ?thesis by (simp add: replaceEventGeneration_def n keeps_throw)
  next
    case (Some fh)
    show ?thesis
      unfolding replaceEventGeneration_def Some n prod.case option.case Let_def
      by (intro frame_rules frame_call assms(4) [OF n] keeps_chunkEvents [OF assms(1)] frame_upload_chunks [OF assms(1,2)]
          frame_commit [OF assms(1,3)] env_keepsD(5,8) [OF assms(1)])
  qed
qed

lemma frame_handle: "keeps I (handle_event_error env inp e)"
proof (cases e)
  case (ApiError st b m)
  then show ?thesis
    by (auto simp: handle_event_error_def intro!: frame_rules split: option.split json.split)
next
  case (AgentSkillSyncNotFoundError b m)
  then show ?thesis by (auto simp: handle_event_error_def intro!: frame_rules)
qed (auto simp: handle_event_error_def intro!: frame_rules)

end

text \<open>The frame of a predicate that does not look at the calls at all: the whole upload keeps it.\<close>

locale upload_frame = session_frame I "\<lambda>_. True" for I :: "'w engine \<Rightarrow> bool"
begin

lemma frame_attempts:
  assumes "upload_env_keeps I env inp" and "\<And>m. confirm = Some m \<Longrightarrow> keeps I m"
  shows "keeps I (event_attempts env inp confirm limits n fh attempts c)"
proof (induction attempts arbitrary: c)
  case (Suc attempts)
  have confirm: "keeps I (confirm_plan inp confirm)"
    unfolding confirm_plan_def by (intro frame_rules assms(2))
  have start: "keeps I (append_or_confirm env inp confirm limits n head c)" for head
    unfolding append_or_confirm_def
    by (intro frame_rules keeps_eventPrefixHead [OF assms(1)] frame_append [OF assms(1)] confirm) simp_all
  have rewrite: "keeps I (rewrite_generation env inp limits fh head)" for head
    unfolding rewrite_generation_def by (intro frame_rules frame_replace [OF assms(1)]) simp_all
  show ?case
    unfolding event_attempts.simps
    by (intro frame_rules env_keepsD(2) [OF assms(1)] start frame_handle)
      (auto intro!: frame_rules rewrite frame_handle Suc.IH split: option.split attempt_phase.split sum.split)
qed (simp add: keeps_throw)

lemma frame_snapshot:
  assumes "upload_env_keeps I env inp" and "plan_keeps I (in_plan inp)"
  shows "keeps I (syncSnapshotSession env inp needs)"
proof -
  have "keeps I read" if "pl_readSnapshot (in_plan inp) = Some read" for read
    using assms(2) that by (simp add: plan_keeps_def)
  then have up: "keeps I (upload_snapshot env inp needs settle)" if "\<And>u. keeps I (settle u)" for settle
    unfolding upload_snapshot_def Let_def
    by (intro frame_rules frame_call env_keepsD(3) [OF assms(1)] that)
      (auto intro!: frame_rules split: option.split)
  show ?thesis
    unfolding syncSnapshotSession_def Let_def by (intro frame_rules up)
qed

lemma frame_content:
  assumes "upload_env_keeps I env inp" and "plan_keeps I (in_plan inp)" and "\<And>m. confirm = Some m \<Longrightarrow> keeps I m"
  shows "keeps I (syncSessionContent env inp needs confirm)"
proof -
  have ev: "keeps I (syncEventSession env inp confirm)"
    unfolding syncEventSession_def eventUploadCapabilities_def Let_def
    by (auto intro!: frame_rules frame_attempts assms env_keepsD(1) [OF assms(1)] split: option.split)
  show ?thesis
    unfolding syncSessionContent_def by (intro frame_rules frame_snapshot assms ev)
qed

end

text \<open>A predicate on the queue alone is such a predicate.\<close>

interpretation on_queue: upload_frame "\<lambda>s. P (en_queue s)" for P :: "retry_queue \<Rightarrow> bool"
  by unfold_locales simp_all

end
