(* ===== verification/SessionSync.thy ===== *)
theory SessionSync
  imports SessionUploadLaws UploadFrame
begin

text \<open>
  The upload protocol as a whole: what a reported success has recorded, when a longer remote history
  may be replaced, and what a restart finds in the sessions lock.
\<close>

section \<open>Rules\<close>

abbreviation anyway :: "'a \<Rightarrow> 'b \<Rightarrow> bool" where
  "anyway \<equiv> \<lambda>_ _. True"

lemma valid_any: "valid P m anyway anyway"
  by (auto simp: valid_def split: prod.split sum.split)

lemma valid_bind_any: "(\<And>a. valid (\<lambda>_. True) (f a) Q E) \<Longrightarrow> valid P m anyway E \<Longrightarrow> valid P (ebind m f) Q E"
  by (rule valid_bind)

lemma bind_any: "(\<And>a. valid (\<lambda>_. True) (f a) Q anyway) \<Longrightarrow> valid P (ebind m f) Q anyway"
  by (rule valid_bind [OF valid_any])

lemma then_any: "valid (\<lambda>_. True) n Q anyway \<Longrightarrow> valid P (ethen m n) Q anyway"
  unfolding ethen_def by (rule bind_any)

lemma valid_throw_any: "valid P (ethrow e) Q anyway"
  by (simp add: valid_def ethrow_def)

lemma valid_ret_pre: "(\<And>s. P s \<Longrightarrow> Q a s) \<Longrightarrow> valid P (eret a) Q E"
  by (simp add: valid_def eret_def)

lemma bind_fact: "valid P m (\<lambda>a _. R a) anyway \<Longrightarrow> (\<And>a. R a \<Longrightarrow> valid (\<lambda>_. True) (f a) Q anyway) \<Longrightarrow> valid P (ebind m f) Q anyway"
  by (rule valid_bind [where R = "\<lambda>a _. R a"]) (auto simp: valid_def)

lemma catch_any: "valid P m Q anyway \<Longrightarrow> (\<And>e. valid (\<lambda>_. True) (h e) Q anyway) \<Longrightarrow> valid P (ecatch m h) Q anyway"
  by (rule valid_catch)

section \<open>A reported success\<close>

definition settled :: "'w upload_env \<Rightarrow> 'w upload_input \<Rightarrow> nat \<Rightarrow> string \<Rightarrow> 'w engine \<Rightarrow> bool" where
  "settled env inp n finalHead s \<longleftrightarrow>
     (\<exists>head g data. truthy_generation head = Some g \<and> eh_count head = int n \<and> eh_head_hash head = finalHead \<and>
        en_sessionsLock s = persistFencedSessionEntry (ue_parse env) (sha_hex (ue_sha env)) (in_fence inp)
          (success_entry inp head g) data)"

definition reaches :: "nat \<Rightarrow> string \<Rightarrow> event_head \<Rightarrow> bool" where
  "reaches n finalHead head \<longleftrightarrow> eh_count head = int n \<and> eh_head_hash head = finalHead"

lemma persistEventSuccess_settles:
  "reaches n fh head \<Longrightarrow> valid (\<lambda>_. True) (persistEventSuccess env inp head) (\<lambda>_. settled env inp n fh) anyway"
  by (auto simp: valid_def persistEventSuccess_def up_persist_def emodify_def ethrow_def settled_def reaches_def
      split: option.split)

lemma covers_last:
  "covers sha limits h n chunks encs \<Longrightarrow> chunks \<noteq> [] \<Longrightarrow>
     ch_startSeq (last chunks) + int (ch_count (last chunks)) = n + int (length encs) \<and>
     ch_resultHead (last chunks) = hex_encode (chain_from sha h encs)"
proof (induction chunks arbitrary: h n encs)
  case (Cons c cs)
  have split: "chain_from sha (chain_from sha h (take k encs)) (drop k encs) = chain_from sha h encs" for k
    by (metis append_take_drop_id chain_from_simps(3))
  show ?case
  proof (cases "cs = []")
    case True
    then show ?thesis using Cons.prems by auto
  next
    case False
    then show ?thesis using Cons.IH [OF _ False] Cons.prems split by (auto simp: of_nat_diff)
  qed
qed simp

lemma chunk_walk_failed: "chunk_walk sha limits k c es failed = (chunks, None) \<Longrightarrow> failed = None"
  by (induction sha limits k c es failed arbitrary: chunks rule: chunk_walk.induct)
    (auto simp: Let_def split: if_splits prod.splits)

text \<open>A plan's chunks from a number below its count end at the planned count and head.\<close>

lemma chunkEvents_reach:
  assumes "\<And>x. length (sha x) = 32" and "li_targetBytes limits \<le> li_maxBytes limits" and "0 \<le> k"
    and "pl_eventCount plan = Some n" and "pl_finalEventHead plan = Some fh" and "k < int n"
  shows "valid P (chunkEvents sha plan k limits)
    (\<lambda>r _. snd r = None \<longrightarrow> fst r \<noteq> [] \<and> ch_startSeq (last (fst r)) + int (ch_count (last (fst r))) = int n \<and>
       ch_resultHead (last (fst r)) = fh) anyway"
  unfolding valid_def
proof (intro allI impI)
  fix s
  show "case chunkEvents sha plan k limits s of
      (Inr r, s') \<Rightarrow> snd r = None \<longrightarrow> fst r \<noteq> [] \<and> ch_startSeq (last (fst r)) + int (ch_count (last (fst r))) = int n \<and>
        ch_resultHead (last (fst r)) = fh
    | (Inl e, s') \<Rightarrow> True"
  proof (cases "readPlanEvents sha plan s")
    case (Pair r s')
    show ?thesis
    proof (cases r)
      case (Inl e)
      then show ?thesis using Pair by (simp add: chunkEvents_def ebind_def)
    next
      case (Inr st)
      obtain es failed where st: "st = (es, failed)" by fastforce
      obtain chunks err where w: "chunk_walk sha limits k (start_chunks sha k) es failed = (chunks, err)" by fastforce
      have run: "chunkEvents sha plan k limits s = (Inr (chunks, err), s')"
        using Pair Inr st w by (simp add: chunkEvents_def ebind_def eret_def)
      have "chunks \<noteq> [] \<and> ch_startSeq (last chunks) + int (ch_count (last chunks)) = int n \<and> ch_resultHead (last chunks) = fh"
        if e: "err = None"
      proof -
        have f: "failed = None" using chunk_walk_failed w e by blast
        have ch: "chained sha (sha HEAD_DOMAIN) 0 es" "length es = n"
            "hex_encode (chain_from sha (sha HEAD_DOMAIN) (map pe_encoded es)) = fh"
          using readPlanEvents_chained [of sha plan s es None s'] Pair Inr st f assms(1,4,5) by auto
        define m where "m = nat k"
        have m: "int m = k" "m < n" using assms(3,6) by (simp_all add: m_def)
        have cov: "covers sha limits (chain_from sha (sha HEAD_DOMAIN) (map pe_encoded (take m es))) (int m) chunks
            (map pe_encoded (drop m es))"
          using chunk_walk_suffix [of sha limits es m chunks err] assms(1,2) ch m w f e by simp
        have ne: "chunks \<noteq> []" using cov ch(2) m(2) by (cases chunks) auto
        have "chain_from sha (chain_from sha (sha HEAD_DOMAIN) (map pe_encoded (take m es))) (map pe_encoded (drop m es)) =
            chain_from sha (sha HEAD_DOMAIN) (map pe_encoded es)"
          by (metis append_take_drop_id chain_from_simps(3) map_append)
        then show ?thesis using covers_last [OF cov ne] ne ch m by simp
      qed
      then show ?thesis using run by simp
    qed
  qed
qed

lemma receipt_checked:
  "valid P (ethen (assertEventResponse r g v c h) (eret (head_of_receipt r)))
     (\<lambda>x _. eh_count x = c \<and> eh_head_hash x = h) anyway"
  by (auto simp: assertEventResponse_def ethen_def ebind_def ethrow_def eret_def valid_def head_of_receipt_def)

lemma append_chunk_receipt:
  "valid P (append_chunk env inp g chunk head)
     (\<lambda>h _. eh_count h = ch_startSeq chunk + int (ch_count chunk) \<and> eh_head_hash h = ch_resultHead chunk) anyway"
  unfolding append_chunk_def Let_def
  by (rule bind_any, rule bind_any, rule then_any, rule bind_any, rule receipt_checked)

lemma append_chunks_reach:
  "valid P (append_chunks env inp g chunks failed head u)
     (\<lambda>r _. failed = None \<and> (chunks = [] \<or> eh_count (fst r) = ch_startSeq (last chunks) + int (ch_count (last chunks)) \<and>
        eh_head_hash (fst r) = ch_resultHead (last chunks))) anyway"
proof (induction chunks arbitrary: P head u)
  case Nil
  then show ?case by (cases failed) (auto intro!: valid_throw_any valid_ret_pre)
next
  case (Cons c cs)
  show ?case
  proof (cases "cs = []")
    case True
    show ?thesis unfolding append_chunks.simps True
      by (rule bind_fact [OF append_chunk_receipt]) (cases failed; auto intro!: valid_throw_any valid_ret_pre)
  next
    case False
    show ?thesis unfolding append_chunks.simps
      by (rule bind_any, rule valid_post [OF Cons.IH]) (use False in auto)
  qed
qed

lemma appendEvents_reach:
  assumes "\<And>x. length (ue_sha env x) = 32" and "li_targetBytes limits \<le> li_maxBytes limits" and "0 \<le> eh_count head"
    and "pl_eventCount (in_plan inp) = Some n" and "pl_finalEventHead (in_plan inp) = Some fh" and "eh_count head < int n"
  shows "valid P (appendEvents env inp head limits) (\<lambda>r _. reaches n fh (fst r)) anyway"
proof (cases "truthy_generation head")
  case None
  then show ?thesis by (simp add: appendEvents_def valid_throw_any)
next
  case (Some g)
  show ?thesis
    unfolding appendEvents_def Some option.case
  proof (rule bind_fact [OF chunkEvents_reach [OF assms]])
    fix r :: "event_chunk list \<times> sync_error option"
    assume "snd r = None \<longrightarrow> fst r \<noteq> [] \<and> ch_startSeq (last (fst r)) + int (ch_count (last (fst r))) = int n \<and>
      ch_resultHead (last (fst r)) = fh"
    then show "valid (\<lambda>_. True) (case r of (chunks, failed) \<Rightarrow> append_chunks env inp g chunks failed head False)
        (\<lambda>r _. reaches n fh (fst r)) anyway"
      by (cases r) (auto simp: reaches_def intro: valid_post [OF append_chunks_reach])
  qed
qed

lemma commit_reach: "valid P (commit_generation env inp pending base n fh) (\<lambda>h _. reaches n fh h) anyway"
  unfolding commit_generation_def Let_def reaches_def by (rule bind_any, rule receipt_checked)

lemma replace_reach:
  assumes "pl_eventCount (in_plan inp) = Some n" and "pl_finalEventHead (in_plan inp) = Some fh"
  shows "valid P (replaceEventGeneration env inp base limits) (\<lambda>r _. reaches n fh (fst r)) anyway"
proof -
  have fin: "valid P (ebind (commit_generation env inp pending base n fh) (\<lambda>h. eret (h, u))) (\<lambda>r _. reaches n fh (fst r)) anyway"
    for P pending u
    by (rule bind_fact [OF commit_reach]) (auto intro: valid_ret_pre)
  show ?thesis
    unfolding replaceEventGeneration_def Let_def assms prod.case option.case
    by (intro valid_if valid_throw_any bind_any then_any) (auto intro!: valid_throw_any fin bind_any)
qed

lemma eventPrefixHead_count:
  assumes "\<And>x. length (sha x) = 32"
  shows "valid P (eventPrefixHead sha plan count) (\<lambda>r _. r \<noteq> None \<longrightarrow> 0 \<le> count) anyway"
proof -
  have nonneg: "\<forall>e\<in>set es. n \<le> pe_seq e" if "chained sha h n es" for h n es
    using that by (induction es arbitrary: h n) force+
  have fold: "fold (\<lambda>e prefix. if pe_seq e + 1 = count then Some (pe_resultHead e) else prefix) es z \<noteq> None \<Longrightarrow>
      z \<noteq> None \<or> (\<exists>e\<in>set es. pe_seq e + 1 = count)" for es z
    by (induction es arbitrary: z) (auto split: if_splits)
  have "valid P (readPlanEvents sha plan) (\<lambda>st _. chained sha (sha HEAD_DOMAIN) 0 (fst st)) anyway"
    using readPlanEvents_chained [of sha plan] assms by (auto simp: valid_def split: prod.split sum.split)
  then show ?thesis
    unfolding eventPrefixHead_def
  proof (rule bind_fact)
    fix st :: "planned_event list \<times> sync_error option" assume c: "chained sha (sha HEAD_DOMAIN) 0 (fst st)"
    have w: "valid (\<lambda>_. True) (whole st) (\<lambda>es _. es = fst st) anyway"
      by (auto simp: whole_def intro: valid_throw_any valid_ret_pre split: option.split)
    show "valid (\<lambda>_. True) (ebind (whole st) (\<lambda>events. eret (fold (\<lambda>e prefix. if pe_seq e + 1 = count then Some (pe_resultHead e)
        else prefix) events (if count = 0 then Some (EMPTY_EVENT_HEAD sha) else None)))) (\<lambda>r _. r \<noteq> None \<longrightarrow> 0 \<le> count) anyway"
      by (rule bind_fact [OF w], rule valid_ret_pre) (use fold nonneg [OF c] in \<open>fastforce split: if_splits\<close>)
  qed
qed

text \<open>What is known when one attempt ends.\<close>

definition good_result :: "'w upload_env \<Rightarrow> 'w upload_input \<Rightarrow> nat \<Rightarrow> string \<Rightarrow> content_result \<Rightarrow> 'w engine \<Rightarrow> bool" where
  "good_result env inp n fh r s \<longleftrightarrow> (\<forall>u h. r = Synced u h \<longrightarrow> h = fh \<and> settled env inp n fh s)"

lemma good_Synced [intro]: "settled env inp n fh s \<Longrightarrow> good_result env inp n fh (Synced u fh) s"
  by (simp add: good_result_def)

lemma handle_never_synced:
  "valid P (handle_event_error env inp e) (\<lambda>r s. \<forall>res. r = Some res \<longrightarrow> good_result env inp n fh res s) anyway"
proof -
  have blk: "valid P (ebind (persistBlocked env inp code size msg) (\<lambda>r. eret (Some r)))
      (\<lambda>r s. \<forall>res. r = Some res \<longrightarrow> good_result env inp n fh res s) anyway" for P code size msg
    by (auto simp: valid_def persistBlocked_def ebind_def ethen_def egets_def eret_def up_persist_def emodify_def good_result_def)
  show ?thesis
    by (cases e) (auto simp: handle_event_error_def intro!: blk valid_throw_any bind_any then_any valid_ret_pre
        split: option.split json.split)
qed

lemma append_or_confirm_settles:
  assumes "\<And>x. length (ue_sha env x) = 32" and "li_targetBytes limits \<le> li_maxBytes limits"
    and "pl_eventCount (in_plan inp) = Some n" and "pl_finalEventHead (in_plan inp) = Some fh"
  shows "valid P (append_or_confirm env inp confirm limits n head pc) (\<lambda>p s. \<forall>u. p = Appended u \<longrightarrow> settled env inp n fh s) anyway"
  unfolding append_or_confirm_def
proof (rule bind_fact [where R = "\<lambda>extends. extends \<longrightarrow> 0 \<le> eh_count head \<and> eh_count head < int n"])
  show "valid P (if eh_protocol head = EVENTS_V1 \<and> eh_generation head \<noteq> None \<and> eh_count head < int n
      then ebind (eventPrefixHead (ue_sha env) (in_plan inp) (eh_count head)) (\<lambda>prefix. eret (prefix = Some (eh_head_hash head)))
      else eret False) (\<lambda>extends _. extends \<longrightarrow> 0 \<le> eh_count head \<and> eh_count head < int n) anyway"
    by (auto intro!: valid_if valid_ret_pre bind_fact [OF eventPrefixHead_count [of "ue_sha env", OF assms(1)]])
next
  fix extends assume "extends \<longrightarrow> 0 \<le> eh_count head \<and> eh_count head < int n"
  then have app: "valid (\<lambda>_. True) (appendEvents env inp head limits) (\<lambda>r _. reaches n fh (fst r)) anyway" if extends
    using appendEvents_reach [OF assms(1,2) _ assms(3,4)] that by blast
  show "valid (\<lambda>_. True) (if extends then ebind (appendEvents env inp head limits)
        (\<lambda>(h, uploaded). ethen (persistEventSuccess env inp h) (eret (Appended uploaded)))
      else if truthy_generation head \<noteq> None \<and> int n < eh_count head \<and> \<not> pc
        then ethen (confirm_plan inp confirm) (eret (Rewrite True)) else eret (Rewrite pc))
      (\<lambda>p s. \<forall>u. p = Appended u \<longrightarrow> settled env inp n fh s) anyway"
  proof (rule valid_if)
    assume extends
    show "valid (\<lambda>_. True) (ebind (appendEvents env inp head limits)
        (\<lambda>(h, uploaded). ethen (persistEventSuccess env inp h) (eret (Appended uploaded))))
        (\<lambda>p s. \<forall>u. p = Appended u \<longrightarrow> settled env inp n fh s) anyway"
      by (rule bind_fact [OF app [OF \<open>extends\<close>]])
        (auto intro!: valid_then [OF persistEventSuccess_settles] valid_ret_pre)
  qed (auto intro!: then_any valid_ret_pre)
qed

lemma rewrite_settles:
  assumes "pl_eventCount (in_plan inp) = Some n" and "pl_finalEventHead (in_plan inp) = Some fh"
  shows "valid P (rewrite_generation env inp limits fh head) (\<lambda>r s. good_result env inp n fh r s) anyway"
  unfolding rewrite_generation_def
  by (rule bind_fact [OF replace_reach [OF assms]])
    (auto simp: good_result_def intro!: valid_then [OF persistEventSuccess_settles] valid_ret_pre)

lemma event_attempts_good:
  assumes "\<And>x. length (ue_sha env x) = 32" and "li_targetBytes limits \<le> li_maxBytes limits"
    and "pl_eventCount (in_plan inp) = Some n" and "pl_finalEventHead (in_plan inp) = Some fh"
  shows "valid P (event_attempts env inp confirm limits n fh attempts pc) (\<lambda>r s. good_result env inp n fh r s) anyway"
proof (induction attempts arbitrary: P pc)
  case 0
  then show ?case by (simp add: valid_throw_any)
next
  case (Suc attempts)
  let ?good = "\<lambda>r s. good_result env inp n fh r s"
  let ?phase = "\<lambda>p s. (\<forall>res. p = Inl (Some res) \<longrightarrow> ?good res s) \<and> (\<forall>u. p = Inr (Appended u) \<longrightarrow> settled env inp n fh s)"
  have phase: "valid P (ecatch (ebind (append_or_confirm env inp confirm limits n head pc) (\<lambda>p. eret (Inr p)))
      (\<lambda>e. ebind (handle_event_error env inp e) (\<lambda>outcome. eret (Inl outcome)))) ?phase anyway" for P head
    by (intro catch_any valid_bind [OF append_or_confirm_settles [OF assms]] valid_bind [OF handle_never_synced [where n = n and fh = fh]])
      (auto intro: valid_ret_pre)
  have last: "valid P (ecatch (ebind (rewrite_generation env inp limits fh head) (\<lambda>r. eret (Some r))) (handle_event_error env inp))
      (\<lambda>r s. \<forall>res. r = Some res \<longrightarrow> ?good res s) anyway" for P head
    by (intro catch_any valid_bind [OF rewrite_settles [OF assms(3,4)]] handle_never_synced) (auto intro: valid_ret_pre)
  have rewrite: "valid P (ebind (ecatch (ebind (rewrite_generation env inp limits fh head) (\<lambda>r. eret (Some r)))
      (handle_event_error env inp)) (\<lambda>outcome. case outcome of Some result \<Rightarrow> eret result
        | None \<Rightarrow> event_attempts env inp confirm limits n fh attempts confirmed)) ?good anyway" for P head confirmed
    by (rule valid_bind [OF last]) (auto intro!: valid_ret_pre Suc.IH split: option.split)
  show ?case
    unfolding event_attempts.simps
  proof (rule bind_any, rule valid_if)
    fix head assume "eh_count head = int n \<and> eh_head_hash head = fh \<and> truthy_generation head \<noteq> None"
    then have "reaches n fh head" by (simp add: reaches_def)
    then show "valid (\<lambda>_. True) (ethen (persistEventSuccess env inp head) (eret (Synced False fh))) ?good anyway"
      by (rule valid_then [OF persistEventSuccess_settles]) (auto intro: valid_ret_pre)
  qed (rule valid_bind [OF phase], auto intro!: valid_ret_pre Suc.IH rewrite
      split: sum.split option.split attempt_phase.split)
qed

lemma limits_ordered:
  "valid P (eventUploadCapabilities env) (\<lambda>l _. \<forall>x. l = Some x \<longrightarrow> li_targetBytes x \<le> li_maxBytes x \<and> 1 \<le> li_maxBytes x) anyway"
  unfolding eventUploadCapabilities_def
  by (rule bind_any) (auto simp: Let_def CLIENT_EVENT_CHUNK_MAX_BYTES_def intro!: valid_ret_pre split: option.split)

text \<open>C13. A reported success is recorded and true to the plan: whatever the server answers, when the
  event upload of a session ends in \<open>synced\<close>, the last write to the sessions lock is the success entry
  of the session's fence, with the plan's hash, a generation, and exactly the planned event count and
  head. A receipt that does not match the planned head is never taken for a success.\<close>

theorem synced_means_recorded:
  assumes "\<And>x. length (ue_sha env x) = 32"
    and "syncEventSession env inp confirm s = (Inr (Synced uploaded h), s')"
  shows "\<exists>n head g data. pl_eventCount (in_plan inp) = Some n \<and> pl_finalEventHead (in_plan inp) = Some h \<and>
    eh_count head = int n \<and> eh_head_hash head = h \<and> truthy_generation head = Some g \<and>
    en_sessionsLock s' = persistFencedSessionEntry (ue_parse env) (sha_hex (ue_sha env)) (in_fence inp)
      (success_entry inp head g) data"
proof -
  obtain n fh where plan: "pl_eventCount (in_plan inp) = Some n" "pl_finalEventHead (in_plan inp) = Some fh"
    using assms(2) by (auto simp: syncEventSession_def ethrow_def split: option.splits)
  have "valid (\<lambda>_. True) (syncEventSession env inp confirm) (\<lambda>r s. good_result env inp n fh r s) anyway"
    unfolding syncEventSession_def plan prod.case option.case
    by (rule bind_fact [OF limits_ordered])
      (auto intro!: valid_throw_any event_attempts_good [OF assms(1) _ plan] split: option.split)
  from validD [OF this _ assms(2)] have "good_result env inp n fh (Synced uploaded h) s'" by simp
  then show ?thesis using plan unfolding good_result_def settled_def by blast
qed

definition sample_head :: event_head where
  "sample_head = \<lparr>eh_protocol = EVENTS_V1, eh_generation = Some ''g1'', eh_revision = 4, eh_count = 1,
     eh_head_hash = head_of toy_sha sample_events\<rparr>"

definition sample_upload_env :: "unit upload_env" where
  "sample_upload_env =
     \<lparr>ue_parse = json_parse, ue_sha = toy_sha,
      ue_capabilities = eret (Some \<lparr>ca_protocols = [EVENTS_V1], ca_event_chunk_max_bytes = 8388608,
        ca_event_chunk_target_bytes = 1048576\<rparr>),
      ue_eventHead = (\<lambda>_ _ _. eret sample_head), ue_uploadContent = (\<lambda>r. eret (ct_expectedContentHash r)),
      ue_append = (\<lambda>r. eret \<lparr>er_generation = ap_generation r, er_revision = ap_baseRevision r + 1,
        er_count = ap_finalCount r, er_head_hash = ap_finalHeadHash r\<rparr>),
      ue_stage = (\<lambda>_ r. eret (sg_generation r, ''staged'')),
      ue_chunk = (\<lambda>r. ethrow (ApiError 422 [] ''bad chunk'')),
      ue_commit = (\<lambda>_ g r. eret \<lparr>er_generation = g, er_revision = cm_base_revision r + 1, er_count = cm_final_count r,
        er_head_hash = cm_final_head_hash r\<rparr>),
      ue_randomUUID = eret ''uuid'', ue_nowIso = (\<lambda>_. ''2026-01-01T00:00:00.000Z''), ue_nowMs = (\<lambda>_. 1767225600000),
      ue_dateParse = (\<lambda>_. Some 1767225600000), ue_cliVersion = ''1.0.0''\<rparr>"

definition sample_upload_input :: "unit upload_input" where
  "sample_upload_input = \<lparr>in_fence = sample_fence, in_session = sample_session, in_plan = sample_event_plan\<rparr>"

lemma sample_synced:
  "\<exists>s'. syncEventSession sample_upload_env sample_upload_input None (fresh_engine ()) =
     (Inr (Synced False (head_of toy_sha sample_events)), s')"
  by (simp add: syncEventSession_def sample_upload_input_def sample_event_plan_def event_plan_def eventUploadCapabilities_def
      sample_upload_env_def EVENT_RETRY_LIMIT_def numeral_3_eq_3 sample_head_def truthy_generation_def
      persistEventSuccess_def up_persist_def eng_defs Let_def)

theorem synced_means_recorded_witness:
  "\<exists>s' n head g data. syncEventSession sample_upload_env sample_upload_input None (fresh_engine ()) =
     (Inr (Synced False (head_of toy_sha sample_events)), s') \<and> eh_count head = int n \<and>
   en_sessionsLock s' = persistFencedSessionEntry json_parse (sha_hex toy_sha) sample_fence
     (success_entry sample_upload_input head g) data"
proof -
  obtain s' where run: "syncEventSession sample_upload_env sample_upload_input None (fresh_engine ()) =
      (Inr (Synced False (head_of toy_sha sample_events)), s')" using sample_synced by blast
  have len: "length (ue_sha sample_upload_env x) = 32" for x by (simp add: sample_upload_env_def length_toy_sha)
  have "ue_parse sample_upload_env = json_parse" "ue_sha sample_upload_env = toy_sha" "in_fence sample_upload_input = sample_fence"
    by (simp_all add: sample_upload_env_def sample_upload_input_def)
  with synced_means_recorded [OF len run] run show ?thesis by metis
qed

section \<open>A longer remote history\<close>

text \<open>A staged rewrite may shorten the remote history only if it has no generation.\<close>

fun shortens :: "nat \<Rightarrow> api_call \<Rightarrow> bool" where
  "shortens n (StageGeneration _ r) \<longleftrightarrow> int n < cm_base_count r \<and> cm_base_generation r \<noteq> None \<and> cm_base_generation r \<noteq> Some []"
| "shortens n _ \<longleftrightarrow> False"

definition no_shortening :: "nat \<Rightarrow> 'w engine \<Rightarrow> bool" where
  "no_shortening n s \<longleftrightarrow> \<not> list_ex (shortens n) (en_calls s)"

interpretation history: session_frame "no_shortening n" "\<lambda>c. \<not> shortens n c" for n
  by unfold_locales (auto simp: no_shortening_def)

lemma keeps_replace:
  assumes "upload_env_keeps (no_shortening n) env inp" and "pl_eventCount (in_plan inp) = Some n"
    and "truthy_generation base = None \<or> eh_count base \<le> int n"
  shows "keeps (no_shortening n) (replaceEventGeneration env inp base limits)"
  by (rule history.frame_replace [OF assms(1)])
    (use assms(2,3) in \<open>auto simp: commit_body_def commit_request.defs stage_request.defs truthy_generation_def
      split: option.splits if_splits\<close>)

lemmas keeps_upload = keeps_flow history.frame_persist history.frame_success history.frame_handle

text \<open>\<open>unconfirmed\<close>: there is no confirmation, or it never answers that the plan is current.\<close>

definition unconfirmed :: "('w engine \<Rightarrow> bool) \<Rightarrow> ('w, bool) eng option \<Rightarrow> bool" where
  "unconfirmed I confirm \<longleftrightarrow> (\<forall>m. confirm = Some m \<longrightarrow> valid I m (\<lambda>ok s. I s \<and> \<not> ok) (\<lambda>_. I))"

lemma confirm_never: "unconfirmed I confirm \<Longrightarrow> valid I (confirm_plan inp confirm) (\<lambda>_ _. False) (\<lambda>_. I)"
proof (cases confirm)
  case None
  then show ?thesis by (simp add: confirm_plan_def valid_def ethrow_def)
next
  case (Some m)
  assume "unconfirmed I confirm"
  with Some have m: "valid I m (\<lambda>ok s. I s \<and> \<not> ok) (\<lambda>_. I)" by (simp add: unconfirmed_def)
  show ?thesis unfolding confirm_plan_def Some option.case
    by (rule valid_bind [OF m]) (auto simp: valid_def ethrow_def)
qed

lemma append_or_confirm_unconfirmed:
  assumes "upload_env_keeps (no_shortening n) env inp" and "unconfirmed (no_shortening n) confirm"
  shows "valid (no_shortening n) (append_or_confirm env inp confirm limits n head False)
    (\<lambda>p s. no_shortening n s \<and> (\<forall>b. p = Rewrite b \<longrightarrow> \<not> b \<and> (truthy_generation head = None \<or> eh_count head \<le> int n)))
    (\<lambda>_. no_shortening n)"
proof -
  let ?I = "no_shortening n"
  let ?post = "\<lambda>p s. ?I s \<and> (\<forall>b. p = Rewrite b \<longrightarrow> \<not> b \<and> (truthy_generation head = None \<or> eh_count head \<le> int n))"
  have prefix: "keeps ?I (if eh_protocol head = EVENTS_V1 \<and> eh_generation head \<noteq> None \<and> eh_count head < int n
      then ebind (eventPrefixHead (ue_sha env) (in_plan inp) (eh_count head)) (\<lambda>prefix. eret (prefix = Some (eh_head_hash head)))
      else eret False)"
    by (intro keeps_upload keeps_eventPrefixHead [OF assms(1)])
  have app: "valid ?I (ebind (appendEvents env inp head limits)
        (\<lambda>(h, uploaded). ethen (persistEventSuccess env inp h) (eret (Appended uploaded)))) ?post (\<lambda>_. ?I)"
    by (rule valid_bind [OF history.frame_append [OF assms(1), unfolded keeps_def]])
      (auto intro!: valid_then [OF history.frame_success [unfolded keeps_def]] valid_ret_pre)
  have conf: "valid ?I (ethen (confirm_plan inp confirm) (eret (Rewrite True))) ?post (\<lambda>_. ?I)"
    by (rule valid_then [OF valid_post [OF confirm_never [OF assms(2)]]]) (auto intro: valid_ret_pre)
  show ?thesis
    unfolding append_or_confirm_def
    by (rule valid_bind [OF prefix [unfolded keeps_def]], intro valid_if app conf valid_ret_pre) auto
qed

lemma event_attempts_unconfirmed:
  assumes "upload_env_keeps (no_shortening n) env inp" and "unconfirmed (no_shortening n) confirm"
    and "pl_eventCount (in_plan inp) = Some n"
  shows "keeps (no_shortening n) (event_attempts env inp confirm limits n fh attempts False)"
proof (induction attempts)
  case 0
  show ?case by (simp add: keeps_throw)
next
  case (Suc attempts)
  let ?I = "no_shortening n"
  have hd: "valid ?I (handle_event_error env inp e) (\<lambda>_. ?I) (\<lambda>_. ?I)" for e
    using history.frame_handle by (simp add: keeps_def)
  have rw: "keeps ?I (ebind (ecatch (ebind (rewrite_generation env inp limits fh head) (\<lambda>r. eret (Some r))) (handle_event_error env inp))
      (\<lambda>outcome. case outcome of Some result \<Rightarrow> eret result | None \<Rightarrow> event_attempts env inp confirm limits n fh attempts False))"
    if "truthy_generation head = None \<or> eh_count head \<le> int n" for head
    unfolding rewrite_generation_def
    by (intro keeps_upload keeps_replace [OF assms(1,3) that] Suc.IH)
  have phase: "valid ?I (ecatch (ebind (append_or_confirm env inp confirm limits n head False) (\<lambda>p. eret (Inr p)))
      (\<lambda>e. ebind (handle_event_error env inp e) (\<lambda>outcome. eret (Inl outcome))))
      (\<lambda>p s. ?I s \<and> (\<forall>b. p = Inr (Rewrite b) \<longrightarrow> \<not> b \<and> (truthy_generation head = None \<or> eh_count head \<le> int n))) (\<lambda>_. ?I)" for head
    by (rule valid_catch [OF valid_bind [OF append_or_confirm_unconfirmed [OF assms(1,2)]] valid_bind [OF hd]])
      (auto intro: valid_ret_pre)
  have rest: "valid (\<lambda>s. ?I s \<and> (\<forall>b. p = Inr (Rewrite b) \<longrightarrow> \<not> b \<and> (truthy_generation head = None \<or> eh_count head \<le> int n)))
      (case p of Inl (Some result) \<Rightarrow> eret result
           | Inl None \<Rightarrow> event_attempts env inp confirm limits n fh attempts False
           | Inr (Appended uploaded) \<Rightarrow> eret (Synced uploaded fh)
           | Inr (Rewrite confirmed) \<Rightarrow>
               ebind (ecatch (ebind (rewrite_generation env inp limits fh head) (\<lambda>r. eret (Some r))) (handle_event_error env inp))
                 (\<lambda>outcome. case outcome of Some result \<Rightarrow> eret result
                   | None \<Rightarrow> event_attempts env inp confirm limits n fh attempts confirmed)) (\<lambda>_. ?I) (\<lambda>_. ?I)" for p head
  proof (cases "\<exists>b. p = Inr (Rewrite b)")
    case True
    then obtain b where p: "p = Inr (Rewrite b)" by blast
    show ?thesis
      using rw [of head] unfolding p keeps_def valid_def by auto
  next
    case False
    then show ?thesis using Suc.IH
      by (auto simp: keeps_def intro!: valid_ret_pre split: sum.split option.split attempt_phase.split elim!: valid_pre)
  qed
  show ?case
    unfolding event_attempts.simps
  proof (rule keeps_bind [OF env_keepsD(2) [OF assms(1)]], rule keeps_if)
    fix head
    show "keeps ?I (ethen (persistEventSuccess env inp head) (eret (Synced False fh)))"
      by (intro keeps_upload)
  qed (unfold keeps_def, rule valid_bind [OF phase], rule rest)
qed

text \<open>C14. A longer remote history is never overwritten unasked: unless the caller confirms that the plan
  is still what the source holds, no attempt stages a generation that replaces a live remote history
  by a shorter one, however often the upload conflicts and retries.\<close>

theorem longer_history_needs_confirmation:
  assumes "upload_env_keeps (no_shortening n) env inp" and "unconfirmed (no_shortening n) confirm"
    and "pl_eventCount (in_plan inp) = Some n" and "no_shortening n s"
    and "syncEventSession env inp confirm s = (r, s')"
  shows "no_shortening n s'"
proof -
  have "keeps (no_shortening n) (syncEventSession env inp confirm)"
    unfolding syncEventSession_def assms(3) prod.case option.case eventUploadCapabilities_def Let_def
    by (intro keeps_upload event_attempts_unconfirmed assms env_keepsD(1) [OF assms(1)])
  then show ?thesis using assms(4,5) by (rule keepsD)
qed

theorem longer_history_needs_confirmation_witness:
  "no_shortening 1 (snd (syncEventSession sample_upload_env sample_upload_input None (fresh_engine ())))"
proof -
  have env: "upload_env_keeps (no_shortening 1) sample_upload_env sample_upload_input"
    by (simp add: upload_env_keeps_def sample_upload_env_def sample_upload_input_def sample_event_plan_def event_plan_def
        keeps_ret keeps_throw)
  have plan: "pl_eventCount (in_plan sample_upload_input) = Some 1"
    by (simp add: sample_upload_input_def sample_event_plan_def event_plan_def)
  have init: "no_shortening 1 (fresh_engine ())" by (simp add: no_shortening_def fresh_engine_def)
  obtain r s' where run: "syncEventSession sample_upload_env sample_upload_input None (fresh_engine ()) = (r, s')" by fastforce
  have un: "unconfirmed (no_shortening 1) (None :: (unit, bool) eng option)" by (simp add: unconfirmed_def)
  show ?thesis using longer_history_needs_confirmation [OF env un plan init run] run by simp
qed

section \<open>After a restart\<close>

text \<open>A lock that is well-formed, and a write of a valid entry.\<close>

definition lock_ok :: "'w upload_env \<Rightarrow> 'w engine \<Rightarrow> bool" where
  "lock_ok env s \<longleftrightarrow> sessions_ok (readSessionsLock (ue_parse env) (en_sessionsLock s))"

definition fence_keys :: "string list" where
  "fence_keys = [''api_origin'', ''environment_id'', ''adapter'', ''source_session_key'', ''profile_key'']"

definition good_fields :: "(string \<times> json) list \<Rightarrow> bool" where
  "good_fields fs \<longleftrightarrow>
     wf_map fs \<and> list_all (\<lambda>(k, v). k \<notin> set fence_keys \<and> plain_key k \<and> json_ok v) fs \<and>
     map_get fs ''protocol'' \<in> {Some (JStr SNAPSHOT_V1), Some (JStr EVENTS_V1)} \<and>
     optional_string (map_get fs ''source_revision'')"

lemma jprop_fenced_entry:
  assumes "good_fields fs"
  shows "k \<notin> set fence_keys \<Longrightarrow> jprop (fenced_entry fence fs) k = map_get fs k"
    and "exact_fence fence (fenced_entry fence fs)" and "isFencedSessionLockEntry (fenced_entry fence fs)"
    and "json_ok (fenced_entry fence fs)"
proof -
  let ?base = "[(''api_origin'', JStr (fe_apiOrigin fence)), (''environment_id'', JStr (fe_environmentId fence)),
    (''adapter'', JStr (fe_adapter fence)), (''source_session_key'', JStr (fe_sourceSessionKey fence))]"
  let ?prof = "case fe_profileKey fence of None \<Rightarrow> [] | Some p \<Rightarrow> [(''profile_key'', JStr p)]"
  have wf: "wf_map fs" "wf_map ?prof" "wf_map ?base" using assms by (auto simp: good_fields_def wf_map_def split: option.split)
  have get: "jprop (fenced_entry fence fs) = (map_get ?base ++ map_get fs) ++ map_get ?prof"
    using wf by (simp add: fenced_entry_def map_get_spread fun_eq_iff)
  have none: "map_get fs k = None" if "k \<in> set fence_keys" for k
    using assms that by (auto simp: good_fields_def list_all_iff map_of_eq_None_iff)
  show key: "jprop (fenced_entry fence fs) k = map_get fs k" if "k \<notin> set fence_keys" for k
    using that by (auto simp: get fence_keys_def map_add_def split: option.split)
  show ex: "exact_fence fence (fenced_entry fence fs)"
    using none by (auto simp: exact_fence_def get fence_keys_def map_add_def split: option.split)
  have "optional_string (jprop (fenced_entry fence fs) ''profile_key'')"
    using none [of "''profile_key''"] by (auto simp: get fence_keys_def map_add_def optional_string_def split: option.split)
  moreover have "is_record (fenced_entry fence fs)" by (simp add: fenced_entry_def)
  moreover have "optional_string (jprop (fenced_entry fence fs) ''source_revision'')"
    "jprop (fenced_entry fence fs) ''protocol'' \<in> {Some (JStr SNAPSHOT_V1), Some (JStr EVENTS_V1)}"
    using key [of "''source_revision''"] key [of "''protocol''"] assms by (auto simp: good_fields_def fence_keys_def)
  ultimately show "isFencedSessionLockEntry (fenced_entry fence fs)"
    using ex by (auto simp: isFencedSessionLockEntry_def exact_fence_def SNAPSHOT_V1_def EVENTS_V1_def)
  have "distinct (map fst (spread (spread ?base fs) ?prof))"
    using wf_spread [OF wf_spread [OF wf(3), of fs], of ?prof] by (simp add: wf_map_def)
  moreover have "(k, v) \<in> set (spread (spread ?base fs) ?prof) \<Longrightarrow> plain_key k \<and> json_ok v" for k v
    using set_spread [of "spread ?base fs" ?prof] set_spread [of ?base fs] assms
    by (fastforce simp: good_fields_def list_all_iff plain_key_def split: option.splits)
  ultimately show "json_ok (fenced_entry fence fs)" by (auto simp: fenced_entry_def list_all_iff)
qed

context json_file_codec
begin

lemma persisted_entry:
  assumes "sessions_ok (readSessionsLock parse data)" and "good_fields fs"
  shows "readFencedSessionEntry sha256 (readSessionsLock parse (persistFencedSessionEntry parse sha256 fence fs data)) fence =
    Some (fenced_entry fence fs)"
proof -
  let ?lock = "map_set (sessionFenceKey sha256 fence) (fenced_entry fence fs) (readSessionsLock parse data)"
  note e = jprop_fenced_entry [OF assms(2), where fence = fence]
  have ok: "sessions_ok ?lock" by (rule sessions_ok_set [OF assms(1) sessionFenceKey_plain e(3,4)])
  have "readSessionsLock parse (persistFencedSessionEntry parse sha256 fence fs data) = sort_keys ?lock"
    using read_written_sessions [OF ok] by (simp add: persistFencedSessionEntry_def writeFencedSessionEntry_def)
  moreover have "map_get (sort_keys ?lock) = map_get ?lock" using ok by (simp add: sessions_ok_def)
  ultimately show ?thesis using e(2,3) by (simp add: readFencedSessionEntry_def)
qed

end

text \<open>A block lasts: what blocked an upload is remembered for exactly this content. After a block is
  recorded, every later check of the same plan within a day, also by a restarted daemon of the same
  version, answers with its message, so the session is not uploaded again only to be refused again.\<close>

lemma block_is_durable:
  fixes env :: "'w upload_env"
  assumes "\<And>j. json_ok j \<Longrightarrow> ue_parse env (stringify j) = Some j"
    and "\<And>j. json_ok j \<Longrightarrow> ue_parse env (stringify_pretty j @ [newline]) = Some j"
    and "lock_ok env s" and "pl_protocol (in_plan inp) \<in> {SNAPSHOT_V1, EVENTS_V1}"
    and "case bytes of None \<Rightarrow> True | Some b \<Rightarrow> safe_integer b"
    and "persistBlocked env inp code bytes message s = (r, s')"
    and "ue_dateParse env (ue_nowIso env s) = Some t"
    and "en_sessionsLock later = en_sessionsLock s'" and "t \<le> ue_nowMs env later" and "ue_nowMs env later \<le> t + 86400000"
  shows "r = Inr (Blocked (pl_localHash (in_plan inp)) message) \<and>
    sessionPlanIsDurablyBlocked env (in_fence inp) (in_plan inp) later = Some message"
proof -
  let ?block = "JObj ([(''code'', JStr code), (''content_hash'', JStr (pl_localHash (in_plan inp)))] @
             (case bytes of None \<Rightarrow> [] | Some n \<Rightarrow> [(''size_bytes'', JNum n)]) @
             [(''message'', JStr message), (''blocked_at'', JStr (ue_nowIso env s)),
              (''cli_version'', JStr (ue_cliVersion env))])"
  define fs where "fs = [(''protocol'', JStr (pl_protocol (in_plan inp))), (''local_hash'', JStr (pl_localHash (in_plan inp)))] @
          sourceRevisionEntry (in_session inp) @ snapshot_entry (in_plan inp) @ [(''blocked'', ?block)]"
  have r: "r = Inr (Blocked (pl_localHash (in_plan inp)) message)"
    and s': "en_sessionsLock s' = persistFencedSessionEntry (ue_parse env) (sha_hex (ue_sha env)) (in_fence inp) fs (en_sessionsLock s)"
    using assms(6) by (auto simp: persistBlocked_def eng_defs up_persist_def fs_def)
  have good: "good_fields fs"
    using assms(4,5)
    by (auto simp: good_fields_def fs_def wf_map_def sourceRevisionEntry_def snapshot_entry_def fence_keys_def plain_key_def
        optional_string_def split: option.splits)
  have "up_entry env (in_fence inp) later = Some (fenced_entry (in_fence inp) fs)"
    using json_file_codec.persisted_entry [OF json_file_codecI [OF assms(1,2)] assms(3) [unfolded lock_ok_def] good]
    by (simp add: up_entry_def assms(8) s')
  moreover have "map_get fs ''local_hash'' = Some (JStr (pl_localHash (in_plan inp)))" "map_get fs ''blocked'' = Some ?block"
    by (auto simp: fs_def sourceRevisionEntry_def snapshot_entry_def split: option.splits)
  ultimately show ?thesis
    using r assms(7,9,10) jprop_fenced_entry(1) [OF good]
    by (auto simp: sessionPlanIsDurablyBlocked_def fence_keys_def block_of_def isSessionBlockCurrent_def split: option.splits)
qed

lemma fresh_lock_ok: "lock_ok env (fresh_engine w)"
  by (simp add: lock_ok_def fresh_engine_def readSessionsLock_def sessions_ok_def)

lemma sample_parse: "json_ok j \<Longrightarrow> ue_parse sample_upload_env (stringify j) = Some j"
  "json_ok j \<Longrightarrow> ue_parse sample_upload_env (stringify_pretty j @ [newline]) = Some j"
  by (simp_all add: sample_upload_env_def parser.parse_stringify parser.parse_pretty)

lemma block_is_durable_witness:
  "\<exists>s'. persistBlocked sample_upload_env sample_upload_input ''event_too_large'' (Some 9000000) ''too big'' (fresh_engine ()) =
       (Inr (Blocked (pl_localHash sample_event_plan) ''too big''), s') \<and>
     sessionPlanIsDurablyBlocked sample_upload_env sample_fence sample_event_plan s' = Some ''too big''"
proof -
  obtain r s' where run: "persistBlocked sample_upload_env sample_upload_input ''event_too_large'' (Some 9000000) ''too big''
      (fresh_engine ()) = (r, s')" by fastforce
  have p: "pl_protocol (in_plan sample_upload_input) \<in> {SNAPSHOT_V1, EVENTS_V1}"
    by (simp add: sample_upload_input_def sample_event_plan_def event_plan_def)
  have n: "case Some 9000000 of None \<Rightarrow> True | Some b \<Rightarrow> safe_integer b" by (simp add: safe_integer_def)
  have t: "ue_dateParse sample_upload_env (ue_nowIso sample_upload_env (fresh_engine ())) = Some 1767225600000"
    "ue_nowMs sample_upload_env s' = 1767225600000"
    by (simp_all add: sample_upload_env_def)
  have "r = Inr (Blocked (pl_localHash (in_plan sample_upload_input)) ''too big'') \<and>
      sessionPlanIsDurablyBlocked sample_upload_env (in_fence sample_upload_input) (in_plan sample_upload_input) s' = Some ''too big''"
    by (rule block_is_durable [OF sample_parse fresh_lock_ok p n run t(1)]) (simp_all add: t(2))
  then show ?thesis using run by (auto simp: sample_upload_input_def)
qed

lemma prior_json_ok:
  assumes "lock_ok env s" and "up_entry env fence s = Some entry"
  shows "json_ok entry \<and> isFencedSessionLockEntry entry"
proof -
  let ?lock = "readSessionsLock (ue_parse env) (en_sessionsLock s)"
  have m: "map_get ?lock (sessionFenceKey (sha_hex (ue_sha env)) fence) = Some entry" "isFencedSessionLockEntry entry"
    using readFenced_exact [of "sha_hex (ue_sha env)" ?lock fence entry] assms(2) by (simp_all add: up_entry_def)
  have "(sessionFenceKey (sha_hex (ue_sha env)) fence, entry) \<in> set ?lock" by (rule map_of_SomeD [OF m(1)])
  then show ?thesis using assms(1) m(2) unfolding lock_ok_def sessions_ok_def by blast
qed

lemma jprop_json_ok: "json_ok j \<Longrightarrow> jprop j k = Some v \<Longrightarrow> json_ok v"
  by (cases j) (auto simp: list_all_iff dest: map_of_SomeD)

lemma pending_entry_good:
  assumes "\<And>p. prior = Some p \<Longrightarrow> json_ok p" and "json_ok pending"
  shows "good_fields (pending_entry plan prior pending)"
proof -
  have "json_ok v" if "prior = Some p" "jprop p k = Some v" for p k v
    using jprop_json_ok assms(1) that by blast
  then show ?thesis using assms(2)
    by (auto simp: good_fields_def pending_entry_def copy_truthy_def copy_defined_def wf_map_def fence_keys_def plain_key_def
        optional_string_def split: option.splits)
qed

text \<open>A retried upload is recognised: after an upload is recorded as pending, looking for a pending
  upload of the same shape, in the same process or after a restart, finds it with its identifier, so
  the retry of an append whose answer was lost carries the same idempotency key.\<close>

lemma pending_upload_is_resumed:
  fixes env :: "'w upload_env"
  assumes "\<And>j. json_ok j \<Longrightarrow> ue_parse env (stringify j) = Some j"
    and "\<And>j. json_ok j \<Longrightarrow> ue_parse env (stringify_pretty j @ [newline]) = Some j"
    and "lock_ok env s"
    and "shape = pending_shape kind generation base base_revision base_count base_head final_count final_head"
    and "safe_integer base_revision" and "safe_integer base_count" and "safe_integer final_count"
    and "persistPending env inp (JObj (shape @ [(''append_id'', JStr appendId)])) s = (r, s')"
    and "en_sessionsLock later = en_sessionsLock s'"
  shows "reusableAppendId env (in_fence inp) shape later = Some appendId"
proof -
  let ?pending = "JObj (shape @ [(''append_id'', JStr appendId)])"
  define fs where "fs = pending_entry (in_plan inp) (up_entry env (in_fence inp) s) ?pending"
  have s': "en_sessionsLock s' = persistFencedSessionEntry (ue_parse env) (sha_hex (ue_sha env)) (in_fence inp) fs (en_sessionsLock s)"
    using assms(8) by (auto simp: persistPending_def eng_defs up_persist_def fs_def)
  have ok: "json_ok ?pending"
    using assms(4-7) by (auto simp: pending_shape_def plain_key_def opt_str_def split: option.splits)
  have good: "good_fields fs"
    unfolding fs_def by (rule pending_entry_good [OF _ ok]) (use prior_json_ok [OF assms(3)] in blast)
  have "up_entry env (in_fence inp) later = Some (fenced_entry (in_fence inp) fs)"
    using json_file_codec.persisted_entry [OF json_file_codecI [OF assms(1,2)] assms(3) [unfolded lock_ok_def] good]
    by (simp add: up_entry_def assms(9) s')
  moreover have "map_get fs ''pending'' = Some ?pending"
    by (auto simp: fs_def pending_entry_def copy_truthy_def copy_defined_def split: option.splits)
  moreover have "list_all (\<lambda>(k, v). jprop ?pending k = Some v) shape" "jprop ?pending ''append_id'' = Some (JStr appendId)"
    by (auto simp: assms(4) pending_shape_def split: option.splits)
  ultimately show ?thesis
    using jprop_fenced_entry(1) [OF good, of "''pending''"]
    by (simp add: reusableAppendId_def reusablePending_def fence_keys_def)
qed

lemma pending_upload_is_resumed_witness:
  "reusableAppendId sample_upload_env sample_fence (pending_shape ''append'' (Some ''g'') (Some ''g'') 4 1 ''h1'' 2 ''h2'')
     (snd (persistPending sample_upload_env sample_upload_input
       (JObj (pending_shape ''append'' (Some ''g'') (Some ''g'') 4 1 ''h1'' 2 ''h2'' @ [(''append_id'', JStr ''a1'')]))
       (fresh_engine ()))) = Some ''a1''"
proof -
  let ?shape = "pending_shape ''append'' (Some ''g'') (Some ''g'') 4 1 ''h1'' 2 ''h2''"
  obtain r s' where run: "persistPending sample_upload_env sample_upload_input (JObj (?shape @ [(''append_id'', JStr ''a1'')]))
      (fresh_engine ()) = (r, s')" by fastforce
  have safe: "safe_integer 4" "safe_integer 1" "safe_integer 2" by (simp_all add: safe_integer_def)
  have "reusableAppendId sample_upload_env (in_fence sample_upload_input) ?shape s' = Some ''a1''"
    by (rule pending_upload_is_resumed [OF sample_parse fresh_lock_ok refl safe run refl])
  then show ?thesis using run by (simp add: sample_upload_input_def)
qed

end
