(* ===== verification/QueueDrainLaws.thy ===== *)
theory QueueDrainLaws
  imports QueueDrain SkillInventoryLaws SessionSync
begin

text \<open>
  The guarantees of the consumer: it works on the queue only through the queue's operations, an item
  it has settled leaves the queue while a newer state of the resource stays, a failed item is retried
  or counted, Cloud writes for Skills are authorized by the item and the ledger, and an outage ends.
\<close>

section \<open>What is awaited\<close>

definition drain_env_keeps :: "('w engine \<Rightarrow> bool) \<Rightarrow> 'w drain_env \<Rightarrow> bool" where
  "drain_env_keeps I env \<longleftrightarrow>
     (\<forall>k. keeps I (sv_folderHash (dv_skill env) k)) \<and> (\<forall>a k p. keeps I (dv_deleteAgentSkill env a k p)) \<and>
     (\<forall>a p k b h. keeps I (dv_uploadAgentSkill env a p k b h)) \<and> (\<forall>k. keeps I (dv_snapshotSkillArchive env k)) \<and>
     (\<forall>k. valid I (dv_resolve env k) (\<lambda>r s. I s \<and> (\<forall>x. r = Some x \<longrightarrow> session_keeps I x)) (\<lambda>_. I)) \<and>
     (\<forall>p b. keeps I (dv_postBatch env p b)) \<and>
     (\<forall>inp. plan_keeps I (in_plan inp) \<longrightarrow> upload_env_keeps I (dv_upload env) inp)"

lemma drain_keepsD:
  assumes "drain_env_keeps I env"
  shows "keeps I (sv_folderHash (dv_skill env) k)" "keeps I (dv_deleteAgentSkill env a k p)"
    "keeps I (dv_uploadAgentSkill env a p k b h)" "keeps I (dv_snapshotSkillArchive env k)"
    "valid I (dv_resolve env k) (\<lambda>r s. I s \<and> (\<forall>x. r = Some x \<longrightarrow> session_keeps I x)) (\<lambda>_. I)"
    "keeps I (dv_postBatch env pr row)"
    "plan_keeps I (in_plan inp) \<Longrightarrow> upload_env_keeps I (dv_upload env) inp"
  using assms unfolding drain_env_keeps_def by blast+

lemma keeps_bind_resolve:
  "drain_env_keeps I env \<Longrightarrow> (\<And>r. (\<And>x. r = Some x \<Longrightarrow> session_keeps I x) \<Longrightarrow> keeps I (f r)) \<Longrightarrow>
     keeps I (ebind (dv_resolve env key) f)"
  unfolding keeps_def [of I "ebind _ _"]
  by (rule valid_bind [OF drain_keepsD(5)]) (auto simp: keeps_def valid_def)

lemma keeps_bind_prepare:
  "session_keeps I session \<Longrightarrow> (\<And>plan. plan_keeps I plan \<Longrightarrow> keeps I (f plan)) \<Longrightarrow>
     keeps I (ebind (prepareSessionUpload sha session p) f)"
  unfolding keeps_def [of I "ebind _ _"]
  by (rule valid_bind [OF prepare_plan_keeps]) (auto simp: keeps_def valid_def)

text \<open>An outside that answers at once and leaves the engine alone.\<close>

definition sample_drain_env :: "unit drain_env" where
  "sample_drain_env =
     \<lparr>dv_skill = sample_skill_env, dv_upload = sample_upload_env, dv_apiOrigin = ''https://api'',
      dv_deleteAgentSkill = (\<lambda>_ _ _. eret ()), dv_uploadAgentSkill = (\<lambda>_ _ _ _ _. eret ()),
      dv_snapshotSkillArchive = (\<lambda>_. eret (''h1'', ''tar'')), dv_resolve = (\<lambda>_. eret None),
      dv_postBatch = (\<lambda>_ _. eret \<lparr>bp_rejected = [], bp_suppressed = [], bp_needs_content = []\<rparr>)\<rparr>"

lemma sample_drain_env_keeps: "drain_env_keeps I sample_drain_env"
  by (auto simp: drain_env_keeps_def sample_drain_env_def sample_skill_env_def sample_upload_env_def upload_env_keeps_def
      plan_keeps_def keeps_ret keeps_throw intro!: valid_ret_pre)

definition busy_engine :: "unit engine" where
  "busy_engine = (fresh_engine ())\<lparr>en_queue := enqueued sample_push (new_queue None)\<rparr>"

lemma busy_queue [simp]: "en_queue busy_engine = enqueued sample_push (new_queue None)" "en_aborted busy_engine = False"
  by (simp_all add: busy_engine_def fresh_engine_def)

lemma sample_queue_keyed: "keyed (stampVersion sample_push 1) (enqueued sample_push (new_queue None))"
  using queue_inv_enqueued [OF queue_inv_new] by (simp add: keyed_def sample_push_def)

definition sample_agent :: engine_opts where
  "sample_agent = \<lparr>op_environmentId = ''agent'', op_agentType = ''codex''\<rparr>"

definition sample_modules :: queue_modules where
  "sample_modules = \<lparr>qm_sessions = None, qm_skills = Some ''project''\<rparr>"

lemma sample_processed:
  "fst (processQueueItem sample_drain_env sample_agent sample_modules (stampVersion sample_push 1) busy_engine) = Inr Applied"
  by code_simp

section \<open>The consumer uses the queue's interface\<close>

lemma keeps_iff: "keeps I m \<longleftrightarrow> (\<forall>s. I s \<longrightarrow> I (snd (m s)))"
proof -
  have "(case m s of (Inr a, s') \<Rightarrow> I s' | (Inl e, s') \<Rightarrow> I s') = I (snd (m s))" for s
    by (cases "m s"; cases "fst (m s)") auto
  then show ?thesis by (simp add: keeps_def valid_def)
qed

lemma en_markDone_queue: "en_queue (snd (en_markDone item s)) = snd (markDoneIfVersion item (en_queue s))"
  by (simp add: en_markDone_def split: prod.split)

lemma en_enqueue_queue: "en_queue (snd (en_enqueue input s)) = enqueued input (en_queue s)"
  by (simp add: en_enqueue_def split: prod.split)

text \<open>A property of queues that every operation keeps.\<close>

locale queue_stable =
  fixes P :: "retry_queue \<Rightarrow> bool"
  assumes stable: "P q \<Longrightarrow> queue_step q q' \<Longrightarrow> P q'"
begin

lemma keep_same: "(\<And>s. en_queue (f s) = en_queue s) \<Longrightarrow> keeps (\<lambda>s. P (en_queue s)) (emodify f)"
  by (rule keeps_modify) simp

lemma keep_op: "(\<And>q. queue_op q (f q)) \<Longrightarrow> keeps (\<lambda>s. P (en_queue s)) (en_queue_do f)"
  unfolding en_queue_do_def by (rule keeps_modify) (auto intro: stable step_op)

lemma keep_health: "keeps (\<lambda>s. P (en_queue s)) (en_health_do f)"
  unfolding en_health_do_def by (rule keep_same) simp

lemma keep_markDone: "keeps (\<lambda>s. P (en_queue s)) (en_markDone item)"
  unfolding keeps_iff en_markDone_queue using stable [OF _ step_op [OF op_done]] by blast

lemma keep_enqueue: "keeps (\<lambda>s. P (en_queue s)) (en_enqueue input)"
  unfolding keeps_iff en_enqueue_queue using stable [OF _ step_op [OF op_enqueue]] by blast

lemma keep_call: "keeps (\<lambda>s. P (en_queue s)) (en_call c)"
  unfolding en_call_def by (rule keep_same) simp

lemma keep_claims:
  shows "keeps (\<lambda>s. P (en_queue s)) (en_removeClaim env opts k p)"
    and "keeps (\<lambda>s. P (en_queue s)) (en_recordClaim env opts k p h)"
    and "keeps (\<lambda>s. P (en_queue s)) (en_forgetPushed k)"
  by (auto simp: keeps_def valid_def en_removeClaim_def en_recordClaim_def en_forgetPushed_def emodify_def
      split: sum.split prod.split)

lemmas keep_rules = keeps_flow keep_health keep_markDone keep_enqueue keep_call keep_claims

lemma keep_queue_input:
  "keeps (\<lambda>s. P (en_queue s)) (en_enqueueDelete env opts k p)" "keeps (\<lambda>s. P (en_queue s)) (en_enqueuePush env opts k p h)"
  unfolding en_enqueueDelete_def en_enqueuePush_def by (rule keeps_fun, intro keep_rules)+

lemma keep_cleanup: "keeps (\<lambda>s. P (en_queue s)) (enqueueMaterializedSkillClaimCleanup env opts k)"
  unfolding enqueueMaterializedSkillClaimCleanup_def
  by (rule keeps_fun) (auto simp: keeps_iff split: option.split intro: keep_queue_input(1) [unfolded keeps_iff, rule_format])

lemma keep_enqueueIfChanged:
  "(\<And>k. keeps (\<lambda>s. P (en_queue s)) (sv_folderHash env k)) \<Longrightarrow>
     keeps (\<lambda>s. P (en_queue s)) (enqueueIfChanged env opts k p)"
  unfolding enqueueIfChanged_def
  by (intro keep_rules keeps_materialization keep_cleanup keep_queue_input)

text \<open>The parts of \<open>processQueueItem\<close>.\<close>

lemma keep_retire:
  "drain_env_keeps (\<lambda>s. P (en_queue s)) env \<Longrightarrow> keeps (\<lambda>s. P (en_queue s)) (retire_projection env opts k p)"
  unfolding retire_projection_def by (intro keep_rules drain_keepsD(2))

lemma keep_uploadSkill:
  "drain_env_keeps (\<lambda>s. P (en_queue s)) env \<Longrightarrow> keeps (\<lambda>s. P (en_queue s)) (uploadSkillFromQueue env opts k p)"
  unfolding uploadSkillFromQueue_def by (intro keep_rules drain_keepsD(3,4) keep_same) simp_all

lemma keep_clearInFlight: "keeps (\<lambda>s. P (en_queue s)) (clearInFlight op)"
  unfolding clearInFlight_def by (rule keep_same) simp

lemma keep_confirm:
  assumes "drain_env_keeps (\<lambda>s. P (en_queue s)) env"
  shows "keeps (\<lambda>s. P (en_queue s)) (confirm_current env key protocol h)"
  unfolding confirm_current_def
  by (rule keeps_bind_resolve [OF assms])
    (auto intro!: keep_rules keeps_bind_prepare split: option.split)

lemma keep_uploadSession:
  assumes "drain_env_keeps (\<lambda>s. P (en_queue s)) env"
  shows "keeps (\<lambda>s. P (en_queue s)) (uploadSessionFromQueue env opts protocol op fence)"
proof -
  let ?I = "\<lambda>s. P (en_queue s)"
  note frame = on_queue.frame_suppressed on_queue.frame_content [OF drain_keepsD(7) [OF assms]]
  have content: "keeps ?I (ebind (dv_postBatch env p b) (\<lambda>result.
        if sid \<in> set (bp_rejected result) then eret x
        else if sid \<in> set (bp_suppressed result) then ethen (persistSuppressedSession (dv_upload env) fence session plan) (eret y)
        else ebind (syncSessionContent (dv_upload env) \<lparr>in_fence = fence, in_session = session, in_plan = plan\<rparr>
               (sid \<in> set (bp_needs_content result)) (Some (confirm_current env key protocol h)))
               (\<lambda>content. case content of Blocked _ _ \<Rightarrow> eret z | Synced _ _ \<Rightarrow> eret y)))"
    if "plan_keeps ?I plan" for p b sid x y z session plan key h
    using that
    by (intro keep_rules drain_keepsD(6) [OF assms] frame)
      (auto intro: keep_confirm [OF assms] keeps_ret split: content_result.split)
  have sess: "keeps ?I (ebind (dv_resolve env key) (\<lambda>resolved. ethen throwIfAborted
      (case resolved of None \<Rightarrow> eret (Absent, None)
       | Some session \<Rightarrow> ebind (prepareSessionUpload sha session protocol) (g session))))"
    if "\<And>session plan. plan_keeps ?I plan \<Longrightarrow> keeps ?I (g session plan)" for key sha g
    by (rule keeps_bind_resolve [OF assms])
      (auto intro!: keep_rules keeps_bind_prepare that split: option.split)
  show ?thesis
    unfolding uploadSessionFromQueue_def Let_def
    by (auto intro!: sess content keeps_ret split: option.split bool.split)
qed

text \<open>The whole of the consumer.\<close>

lemma keep_process_session:
  "drain_env_keeps (\<lambda>s. P (en_queue s)) env \<Longrightarrow> keeps (\<lambda>s. P (en_queue s)) (process_session env opts item op protocol)"
  unfolding process_session_def Let_def finish_item_def
  by (intro keep_rules keep_uploadSession keep_clearInFlight)
    (auto intro!: keeps_ret keep_same split: outcome.split option.split)

lemma keep_process_skill:
  assumes "drain_env_keeps (\<lambda>s. P (en_queue s)) env"
  shows "keeps (\<lambda>s. P (en_queue s)) (process_skill env opts item op projectId)"
  unfolding process_skill_def process_own_skill_def Let_def finish_item_def
  by (intro keep_rules keeps_materialization keep_retire keep_uploadSkill keep_enqueueIfChanged drain_keepsD(1) assms)

lemma keep_process:
  "drain_env_keeps (\<lambda>s. P (en_queue s)) env \<Longrightarrow> keeps (\<lambda>s. P (en_queue s)) (processQueueItem env opts modules item)"
  by (cases item)
    (auto simp: finish_item_def intro!: keep_rules keep_process_session keep_process_skill split: option.split)

lemma keep_drop: "keeps (\<lambda>s. P (en_queue s)) (dropItem item reason)"
proof -
  have "keeps (\<lambda>s. P (en_queue s)) (clear_in_flight_of item)"
    by (cases item) (simp_all add: keeps_ret keep_clearInFlight)
  then show ?thesis unfolding dropItem_def by (intro keep_rules keep_op op_drop)
qed

lemma keep_failure: "keeps (\<lambda>s. P (en_queue s)) (handle_failure item e)"
  unfolding handle_failure_def Let_def by (intro keep_rules keep_op op_bump keep_drop)

lemma keep_turn:
  assumes "drain_env_keeps (\<lambda>s. P (en_queue s)) env"
  shows "keeps (\<lambda>s. P (en_queue s)) (drain_turn env opts slots task)"
proof -
  have "keeps (\<lambda>s. P (en_queue s))
      (emodify (\<lambda>s. s\<lparr>en_queue := waitForChange (en_aborted s) QUEUE_IDLE_WAKEUP_MS task (en_queue s)\<rparr>))"
    by (rule keeps_modify) (auto intro: stable step_op op_wait)
  then show ?thesis
    unfolding drain_turn_def settle_outcome_def
    by (intro keep_rules keep_process [OF assms] keep_failure)
qed

lemma keep_loop:
  assumes "drain_env_keeps (\<lambda>s. P (en_queue s)) env" and "\<And>turn. keeps (\<lambda>s. P (en_queue s)) (wait turn)"
  shows "keeps (\<lambda>s. P (en_queue s)) (drainQueueLoop env opts stopped slots wait n)"
proof (induction n)
  case (Suc n)
  have "keeps (\<lambda>s. P (en_queue s)) (ebind (drain_turn env opts sl n) (\<lambda>turn. if turn = Stop_auth then eret ()
      else ethen (wait turn) (drainQueueLoop env opts stopped slots wait n)))" for sl
    by (intro keep_rules keep_turn assms Suc.IH)
  then show ?case unfolding drainQueueLoop.simps by (auto simp: keeps_iff)
qed (simp add: keeps_ret)

end

interpretation run_of: queue_stable "queue_reachable q0" for q0
  by unfold_locales (rule reach_step)

text \<open>The consumer composes with the queue: however many turns the drain loop takes, and whatever it
  meets (failures of every kind, uploads, reassignments, aborts), its effect on the queue is a run of
  the queue's own operations, if the rest of the daemon works on the queue that way while it waits.
  So every invariant of reachable queues holds of the running engine: keys stay unique, each module
  stays within its capacity and versions stay fenced.\<close>

lemma drain_is_queue_run:
  assumes "drain_env_keeps (\<lambda>s. queue_reachable (en_queue s0) (en_queue s)) env"
    and "\<And>turn. keeps (\<lambda>s. queue_reachable (en_queue s0) (en_queue s)) (wait turn)"
    and "drainQueueLoop env opts stopped slots wait n s0 = (r, s')"
  shows "queue_reachable (en_queue s0) (en_queue s')"
  by (rule keepsD [OF run_of.keep_loop [OF assms(1,2)] reach_start assms(3)])

lemma drain_is_queue_run_witness:
  "queue_reachable (en_queue busy_engine) (en_queue (snd (drainQueueLoop sample_drain_env sample_agent (\<lambda>_. False)
     (\<lambda>_. \<lparr>ds_sessions = new_module False, ds_skills = new_module False\<rparr>) (\<lambda>_. eret ()) 3 busy_engine)))"
proof -
  obtain r s' where run: "drainQueueLoop sample_drain_env sample_agent (\<lambda>_. False)
     (\<lambda>_. \<lparr>ds_sessions = new_module False, ds_skills = new_module False\<rparr>) (\<lambda>_. eret ()) 3 busy_engine = (r, s')" by fastforce
  have "queue_reachable (en_queue busy_engine) (en_queue s')"
    by (rule drain_is_queue_run [OF sample_drain_env_keeps keeps_ret run])
  with run show ?thesis by simp
qed

section \<open>A settled item\<close>

text \<open>Nothing on the key of \<open>item\<close> is older than \<open>item\<close>: what holds from the moment the loop peeks at it.\<close>

definition tracked :: "queue_item \<Rightarrow> retry_queue \<Rightarrow> bool" where
  "tracked item q \<longleftrightarrow> keyed item q \<and> item_version item < rq_nextVersion q \<and>
     (\<forall>e\<in>set (rq_items q). sameKey e item \<longrightarrow> item_version item \<le> item_version e)"

lemma keyed_step: "queue_step q q' \<Longrightarrow> keyed item q \<Longrightarrow> keyed item q'"
  by (auto simp: keyed_def intro: queue_step_inv queue_step_session_inv)

lemma tracked_step: "tracked item q \<Longrightarrow> queue_step q q' \<Longrightarrow> tracked item q'"
  unfolding tracked_def
proof (elim conjE, intro conjI, erule (1) keyed_step)
  assume k: "keyed item q" and v: "item_version item < rq_nextVersion q"
    and ge: "\<forall>e\<in>set (rq_items q). sameKey e item \<longrightarrow> item_version item \<le> item_version e" and st: "queue_step q q'"
  from st show "item_version item < rq_nextVersion q'"
    by (rule queue_step_other) (use v in \<open>auto simp: enqueue_closed\<close>)
  from st show "\<forall>e\<in>set (rq_items q'). sameKey e item \<longrightarrow> item_version item \<le> item_version e"
  proof (rule queue_step_other)
    fix i assume "q' = enqueued i q"
    then show ?thesis using set_enqueued [of i q] v ge by fastforce
  next
    fix i assume "q' = snd (markDoneIfVersion i q)"
    then show ?thesis using set_remove_first [of "\<lambda>e. sameKey e i" "rq_items q"] ge by (auto simp: markDone_items)
  next
    fix i assume q': "q' = bumpAttempts i q"
    show ?thesis
    proof (intro ballI impI)
      fix e assume "e \<in> set (rq_items q')" and same: "sameKey e item"
      from bump_members [OF this(1) [unfolded q']] obtain j where "j \<in> set (rq_items q)"
        "item_version e = item_version j" "e = j \<or> (\<exists>n. e = with_attempts n j)" by blast
      then show "item_version item \<le> item_version e" using same ge by auto
    qed
  qed (use ge in auto)
qed

interpretation pending_item: queue_stable "tracked item" for item
  by unfold_locales (rule tracked_step)

interpretation settled_item: queue_stable "superseded item" for item
  by unfold_locales (rule superseded_step)

lemma tracked_member:
  assumes "keyed item q" and "item \<in> set (rq_items q)"
  shows "tracked item q"
proof -
  have "e = item" if "e \<in> set (rq_items q)" "sameKey e item" for e
    using sorted_wrt_unique_match [OF keyed_sameKey_unique [OF assms(1)]] assms that
    by (metis sameKey_refl option.inject)
  moreover have "item_version item < rq_nextVersion q" using assms by (auto simp: keyed_def queue_inv_def)
  ultimately show ?thesis using assms by (auto simp: tracked_def)
qed

lemma markDone_supersedes:
  assumes "tracked item q"
  shows "superseded item (snd (markDoneIfVersion item q))"
proof -
  let ?P = "\<lambda>e. sameKey e item"
  have u: "sorted_wrt (\<lambda>a b. \<not> (?P a \<and> ?P b)) (rq_items q)"
    using assms by (intro keyed_sameKey_unique) (simp add: tracked_def)
  have ge: "item_version item \<le> item_version e" if "e \<in> set (rq_items q)" "?P e" for e
    using assms that by (simp add: tracked_def)
  have v: "item_version item < rq_nextVersion (snd (markDoneIfVersion item q))"
    using assms by (simp add: tracked_def)
  show ?thesis
  proof (cases "fst (markDoneIfVersion item q)")
    case True
    with remove_first_removes_all [OF u] v show ?thesis by (simp add: superseded_def markDone_items)
  next
    case False
    have "item_version item < item_version e" if e: "e \<in> set (rq_items q)" "?P e" for e
    proof -
      obtain i where i: "find_index ?P (rq_items q) = Some i"
        using e find_index_None_iff [of ?P "rq_items q"] by fastforce
      from find_index_SomeD [OF i] have "List.find ?P (rq_items q) = Some (rq_items q ! i)"
        by (auto simp: find_Some_iff)
      with sorted_wrt_unique_match(1) [OF u e] have "rq_items q ! i = e" by simp
      with False i have "item_version e \<noteq> item_version item" by (auto simp: markDoneIfVersion_def split: if_splits)
      with ge [OF e] show ?thesis by linarith
    qed
    with False v show ?thesis by (simp add: superseded_def markDone_items)
  qed
qed

text \<open>Before the completion the item is tracked, after it superseded.\<close>

abbreviation open_item :: "queue_item \<Rightarrow> 'w engine \<Rightarrow> bool" where
  "open_item item \<equiv> \<lambda>s. tracked item (en_queue s)"

abbreviation closed_item :: "queue_item \<Rightarrow> 'a \<Rightarrow> 'w engine \<Rightarrow> bool" where
  "closed_item item \<equiv> \<lambda>_ s. superseded item (en_queue s)"

lemma open_bind:
  "keeps (open_item item) m \<Longrightarrow> (\<And>a. valid (open_item item) (f a) (closed_item item) anyway) \<Longrightarrow>
     valid (open_item item) (ebind m f) (closed_item item) anyway"
  by (rule valid_bind [where R = "\<lambda>_. open_item item"]) (auto simp: keeps_def elim: valid_post)

lemma open_then:
  "keeps (open_item item) m \<Longrightarrow> valid (open_item item) n (closed_item item) anyway \<Longrightarrow>
     valid (open_item item) (ethen m n) (closed_item item) anyway"
  unfolding ethen_def by (rule open_bind)

lemma close_then:
  assumes "keeps (\<lambda>s. superseded item (en_queue s)) n"
  shows "valid (open_item item) (ethen (en_markDone item) n) (closed_item item) anyway"
proof (rule valid_then)
  show "valid (open_item item) (en_markDone item) (\<lambda>_ s. superseded item (en_queue s)) anyway"
    using markDone_supersedes by (auto simp: valid_def en_markDone_def split: prod.split) (metis snd_conv)
  show "valid (\<lambda>s. superseded item (en_queue s)) n (closed_item item) anyway"
    using assms unfolding keeps_def by (rule valid_post) auto
qed

lemma close_finish: "valid (open_item item) (finish_item item r) (closed_item item) anyway"
  unfolding finish_item_def by (rule close_then) (rule keeps_ret)

lemma valid_option:
  "valid P m Q E \<Longrightarrow> (\<And>a. valid P (f a) Q E) \<Longrightarrow> valid P (case r of None \<Rightarrow> m | Some a \<Rightarrow> f a) Q E"
  by (cases r) auto

lemma valid_both: "(\<And>a b. valid P (f a b) Q E) \<Longrightarrow> valid P (case p of (a, b) \<Rightarrow> f a b) Q E"
  by (cases p) auto

text \<open>What is awaited works on the queue through its operations.\<close>

definition drain_env_quiet :: "queue_item \<Rightarrow> 'w drain_env \<Rightarrow> bool" where
  "drain_env_quiet item env \<longleftrightarrow> drain_env_keeps (\<lambda>s. tracked item (en_queue s)) env \<and>
     drain_env_keeps (\<lambda>s. superseded item (en_queue s)) env"

lemma close_skill:
  assumes "drain_env_quiet item env"
  shows "valid (open_item item) (process_skill env opts item op projectId) (closed_item item) anyway"
proof -
  have env: "drain_env_keeps (open_item item) env" "drain_env_keeps (\<lambda>s. superseded item (en_queue s)) env"
    using assms by (simp_all add: drain_env_quiet_def)
  note before = keeps_materialization keeps_gets keeps_foreach keeps_throwIfAborted pending_item.keep_retire [OF env(1)]
    pending_item.keep_uploadSkill [OF env(1)] pending_item.keep_claims keeps_ret
  note after = keeps_then keeps_if keeps_ret settled_item.keep_enqueueIfChanged drain_keepsD(1) [OF env(2)]
  show ?thesis
    unfolding process_skill_def process_own_skill_def Let_def
    by (intro valid_if close_finish close_then valid_option valid_both open_bind open_then before after)
qed

lemma close_session:
  assumes "drain_env_quiet item env"
  shows "valid (open_item item) (process_session env opts item op protocol) (closed_item item) anyway"
proof -
  have env: "drain_env_keeps (open_item item) env" using assms by (simp add: drain_env_quiet_def)
  have push: "keeps (open_item item) (emodify (\<lambda>s. s\<lparr>en_pushedSessions := map_set k h (en_pushedSessions s)\<rparr>))" for k h
    by (rule pending_item.keep_same) simp
  show ?thesis
    unfolding process_session_def Let_def
    by (intro valid_if close_finish valid_both open_bind open_then pending_item.keep_uploadSession [OF env]
        pending_item.keep_clearInFlight keeps_throwIfAborted) (auto intro: push keeps_ret split: outcome.split option.split)
qed



section \<open>A failed item\<close>

lemma egets_run: "ebind (egets f) g s = g (f s) s"
  by (simp add: ebind_def egets_def)

lemma eret_run: "eret a s = (Inr a, s)"
  by (simp add: eret_def)

lemma ethen_modify: "ethen (emodify f) n s = n (f s)"
  by (simp add: ethen_def ebind_def emodify_def)

text \<open>The entry of the queue that is the attempt \<open>item\<close> stands for: at most one, and none once the item is
  superseded.\<close>

definition same_attempt :: "queue_item \<Rightarrow> queue_item \<Rightarrow> bool" where
  "same_attempt item i \<longleftrightarrow> sameKey i item \<and> item_version i = item_version item"

lemma attempt_cases:
  assumes "tracked item q"
  obtains (gone) "\<forall>i\<in>set (rq_items q). \<not> same_attempt item i"
    and "\<And>e. List.find (\<lambda>e. sameKey e item) (rq_items q) = Some e \<Longrightarrow> item_version e \<noteq> item_version item"
  | (current) c where "List.find (\<lambda>e. sameKey e item) (rq_items q) = Some c" and "item_version c = item_version item"
    and "filter (same_attempt item) (rq_items q) = [c]"
    and "remove_first (\<lambda>e. sameKey e item) (rq_items q) = filter (\<lambda>i. \<not> same_attempt item i) (rq_items q)"
proof (cases "\<exists>c\<in>set (rq_items q). same_attempt item c")
  case False
  then show ?thesis using find_SomeD [of "\<lambda>e. sameKey e item" "rq_items q"] by (intro gone) (auto simp: same_attempt_def)
next
  case True
  let ?P = "\<lambda>e. sameKey e item"
  obtain c where c: "c \<in> set (rq_items q)" "?P c" "item_version c = item_version item"
    using True by (auto simp: same_attempt_def)
  have u: "sorted_wrt (\<lambda>a b. \<not> (?P a \<and> ?P b)) (rq_items q)"
    using assms by (intro keyed_sameKey_unique) (simp add: tracked_def)
  note m = sorted_wrt_unique_match [OF u c(1,2)]
  have eq: "same_attempt item i = ?P i" if "i \<in> set (rq_items q)" for i
    using sorted_wrt_unique_match(1) [OF u that] m(1) c(3) by (auto simp: same_attempt_def)
  have "filter ?P xs = [c]" if "sorted_wrt (\<lambda>a b. \<not> (?P a \<and> ?P b)) xs" "c \<in> set xs" for xs
    using that
  proof (induction xs)
    case (Cons x xs)
    then show ?case using c(2) by (cases "?P x") (auto simp: filter_empty_conv)
  qed simp
  then have "filter ?P (rq_items q) = [c]" using u c(1) by blast
  moreover have "filter (same_attempt item) (rq_items q) = filter ?P (rq_items q)" using eq by (auto intro: filter_cong)
  moreover have "filter (\<lambda>i. \<not> same_attempt item i) (rq_items q) = filter (\<lambda>i. \<not> ?P i) (rq_items q)"
    using eq by (auto intro: filter_cong)
  ultimately show ?thesis using current [OF m(1) c(3)] m(2) by simp
qed

lemma bump_tracked:
  assumes "tracked item q"
  shows "rq_items (bumpAttempts item q) =
    filter (\<lambda>i. \<not> same_attempt item i) (rq_items q) @ map failed_once (filter (same_attempt item) (rq_items q))"
proof (cases rule: attempt_cases [OF assms, case_names gone current])
  case gone
  then have "bumpAttempts item q = q" by (cases rule: bumpAttempts_cases [where item = item and q = q]) blast+
  moreover have "filter (same_attempt item) (rq_items q) = []" "filter (\<lambda>i. \<not> same_attempt item i) (rq_items q) = rq_items q"
    using gone(1) by (simp_all add: filter_empty_conv filter_id_conv)
  ultimately show ?thesis by simp
next
  case (current c)
  then show ?thesis by (cases rule: bumpAttempts_cases [where item = item and q = q]) auto
qed

lemma markDone_tracked:
  assumes "tracked item q"
  shows "rq_items (snd (markDoneIfVersion item q)) = filter (\<lambda>i. \<not> same_attempt item i) (rq_items q)"
proof -
  let ?P = "\<lambda>e. sameKey e item"
  have f: "fst (markDoneIfVersion item q) \<longleftrightarrow> (\<exists>e. List.find ?P (rq_items q) = Some e \<and> item_version e = item_version item)"
  proof (cases "find_index ?P (rq_items q)")
    case None
    moreover from this have "List.find ?P (rq_items q) = None" by (simp add: find_index_None_iff find_None_iff)
    ultimately show ?thesis by (simp add: markDoneIfVersion_def)
  next
    case (Some n)
    moreover from find_index_SomeD [OF Some] have "List.find ?P (rq_items q) = Some (rq_items q ! n)"
      by (auto simp: find_Some_iff)
    ultimately show ?thesis by (simp add: markDoneIfVersion_def)
  qed
  show ?thesis
  proof (cases rule: attempt_cases [OF assms, case_names gone current])
    case gone
    then have "\<not> fst (markDoneIfVersion item q)" unfolding f by blast
    moreover have "filter (\<lambda>i. \<not> same_attempt item i) (rq_items q) = rq_items q" using gone(1) by (simp add: filter_id_conv)
    ultimately show ?thesis by (simp add: markDone_items)
  next
    case (current c)
    then have "fst (markDoneIfVersion item q)" unfolding f by blast
    then show ?thesis using current(4) by (simp add: markDone_items)
  qed
qed

lemma dropped_items:
  assumes "tracked item q"
  shows "rq_items (snd (markDoneIfVersion item (recordPermanentDrop reason (bumpAttempts item q)))) =
    filter (\<lambda>i. \<not> same_attempt item i) (rq_items q)"
proof -
  let ?q = "recordPermanentDrop reason (bumpAttempts item q)"
  have items: "rq_items ?q = rq_items (bumpAttempts item q)" by (simp add: recordPermanentDrop_def recordDrop_def)
  have "tracked item ?q"
    using tracked_step [OF tracked_step [OF assms step_op [OF op_bump]] step_op [OF op_drop]] .
  from markDone_tracked [OF this] show ?thesis
    unfolding items bump_tracked [OF assms] by (auto simp: filter_empty_conv same_attempt_def comp_def)
qed

text \<open>The queue after \<open>dropItem\<close>, and that it ends normally.\<close>

lemma dropItem_run:
  "fst (dropItem item reason s) = Inr ()"
  "en_queue (snd (dropItem item reason s)) = snd (markDoneIfVersion item (recordPermanentDrop reason (en_queue s)))"
proof -
  let ?s1 = "s\<lparr>en_queue := recordPermanentDrop reason (en_queue s)\<rparr>"
  obtain s2 where c: "clear_in_flight_of item ?s1 = (Inr (), s2)" "en_queue s2 = en_queue ?s1"
    by (cases item) (simp_all add: clearInFlight_def eng_defs)
  obtain b q where m: "markDoneIfVersion item (en_queue ?s1) = (b, q)" by fastforce
  then have "dropItem item reason s = (Inr (), s2\<lparr>en_queue := q\<rparr>)"
    using c by (simp add: dropItem_def en_queue_do_def ethen_def ebind_def emodify_def en_markDone_def eret_def)
  then show "fst (dropItem item reason s) = Inr ()"
    "en_queue (snd (dropItem item reason s)) = snd (markDoneIfVersion item (recordPermanentDrop reason (en_queue s)))"
    using m by simp_all
qed

text \<open>What happens to a failed item: where it stands in the queue afterwards, and what was counted.\<close>

definition counted_once :: "drop_reason \<Rightarrow> retry_queue \<Rightarrow> retry_queue \<Rightarrow> bool" where
  "counted_once reason q q' \<longleftrightarrow>
     (\<forall>x. drop_count (rq_droppedByReason q') x = drop_count (rq_droppedByReason q) x + (if x = reason then 1 else 0))"

fun failure_accounted :: "queue_item \<Rightarrow> sync_error \<Rightarrow> bool \<Rightarrow> retry_queue \<Rightarrow> turn_end \<Rightarrow> retry_queue \<Rightarrow> bool" where
  "failure_accounted item e aborted q Idle q' \<longleftrightarrow> False"
| "failure_accounted item e aborted q Stop_auth q' \<longleftrightarrow> isAuthFailure e \<and> q' = q"
| "failure_accounted item e aborted q Wait_retry q' \<longleftrightarrow>
     \<not> isAuthFailure e \<and> \<not> aborted \<and> \<not> isOversizedUploadError e \<and> \<not> isPermanentUploadError e \<and>
     item_attempts item + 1 < MAX_QUEUE_ATTEMPTS \<and> rq_droppedByReason q' = rq_droppedByReason q \<and>
     rq_items q' = filter (\<lambda>i. \<not> same_attempt item i) (rq_items q) @ map failed_once (filter (same_attempt item) (rq_items q))"
| "failure_accounted item e aborted q Next q' \<longleftrightarrow>
     \<not> isAuthFailure e \<and>
     (if aborted then q' = q
      else (isOversizedUploadError e \<or> isPermanentUploadError e \<or> MAX_QUEUE_ATTEMPTS \<le> item_attempts item + 1) \<and>
        rq_items q' = filter (\<lambda>i. \<not> same_attempt item i) (rq_items q) \<and>
        counted_once (if isOversizedUploadError e then Oversized
          else if isPermanentUploadError e then Permanent else Retry_exhausted) q q')"

lemma counted_drop: "counted_once reason q (snd (markDoneIfVersion item (recordPermanentDrop reason (bumpAttempts item q))))"
  by (simp add: counted_once_def recordPermanentDrop_def drop_count_recordDrop)

lemma handle_failure_accounted:
  assumes "tracked item (en_queue s)"
  shows "\<exists>turn s'. handle_failure item e s = (Inr turn, s') \<and>
    failure_accounted item e (en_aborted s) (en_queue s) turn (en_queue s')"
proof -
  let ?q = "bumpAttempts item (en_queue s)"
  have drop: "\<exists>turn s'. ethen (dropItem item reason) (eret Next) t = (Inr turn, s') \<and>
      failure_accounted item e False (en_queue s) turn (en_queue s')"
    if "en_queue t = ?q" and "\<not> isAuthFailure e"
      and "isOversizedUploadError e \<or> isPermanentUploadError e \<or> MAX_QUEUE_ATTEMPTS \<le> item_attempts item + 1"
      and "reason = (if isOversizedUploadError e then Oversized else if isPermanentUploadError e then Permanent else Retry_exhausted)"
    for reason and t :: "'a engine"
  proof (intro exI conjI)
    show "ethen (dropItem item reason) (eret Next) t = (Inr Next, snd (dropItem item reason t))"
      using dropItem_run(1) [of item reason t] by (cases "dropItem item reason t") (simp add: ethen_def ebind_def eret_def)
    show "failure_accounted item e False (en_queue s) Next (en_queue (snd (dropItem item reason t)))"
      using counted_drop [of reason "en_queue s" item] that(2,3) unfolding dropItem_run(2) that(1) that(4)
      by (simp add: dropped_items [OF assms])
  qed
  show ?thesis
    unfolding handle_failure_def Let_def en_queue_do_def en_health_do_def egets_run
    by (auto simp: ethen_modify eret_run bump_tracked [OF assms] intro!: drop)
qed

lemma tracked_reachable:
  assumes "queue_reachable (load parse saved (new_queue m)) q0" and "isSkillOperation item \<or> fenced_file parse saved"
    and "item \<in> set (rq_items q0)" and "queue_reachable q0 q"
  shows "tracked item q"
  using assms(4)
proof (induction rule: queue_reachable.induct)
  case reach_start
  have inv: "queue_inv q0" by (rule reachable_inv [OF assms(1) queue_inv_load])
  have "session_inv q0" if "fenced_file parse saved"
    by (rule reachable_session_inv [OF assms(1) session_inv_load [OF that]])
  then have "keyed item q0" using inv assms(2,3) by (auto simp: keyed_def session_inv_def)
  then show ?case by (rule tracked_member [OF _ assms(3)])
qed (rule tracked_step)

text \<open>C17. No failure is silent. An item was taken from the queue at some time (\<open>q0\<close>) and its processing fails
  later, whatever happened to the queue meanwhile; it is a Skill item, or the file the daemon loaded had
  only fenced session rows. Then exactly one of these happens. An authentication failure stops the loop and
  leaves the queue as it is. Otherwise, if the lease was aborted, the queue is left as it is. A failure that
  may pass, of an item tried less than 30 times, moves the entry of this attempt to the end of the queue
  with one attempt more and counts nothing; if a newer state has replaced that entry, the queue keeps its
  items. An oversized, a permanent or the thirtieth failure takes the entry of this attempt out, if it is
  still there, and the counter of exactly that reason grows by one (even if a newer state has replaced the
  entry already). All other items stay, in their order.\<close>

theorem failed_item_accounted:
  assumes "queue_reachable (load parse saved (new_queue m)) q0" and "isSkillOperation item \<or> fenced_file parse saved"
    and "item \<in> set (rq_items q0)" and "queue_reachable q0 (en_queue s)"
  shows "\<exists>turn s'. handle_failure item e s = (Inr turn, s') \<and>
    failure_accounted item e (en_aborted s) (en_queue s) turn (en_queue s')"
  by (rule handle_failure_accounted [OF tracked_reachable [OF assms]])

definition sample_failure :: sync_error where
  "sample_failure = ApiError 413 [] ''too large''"

lemma sample_failure_oversized: "\<not> isAuthFailure sample_failure" "isOversizedUploadError sample_failure"
  by (simp_all add: sample_failure_def isAuthFailure_def isOversizedUploadError_def)

theorem failed_item_accounted_witness:
  "\<exists>turn s'. handle_failure (stampVersion sample_push 1) sample_failure busy_engine = (Inr turn, s') \<and>
     failure_accounted (stampVersion sample_push 1) sample_failure False (en_queue busy_engine) turn (en_queue s') \<and>
     turn = Next \<and> rq_items (en_queue s') = []"
proof -
  have start: "load (\<lambda>_. None) None (new_queue None) = new_queue None" by (simp add: load_def new_queue_def)
  have "queue_reachable (load (\<lambda>_. None) None (new_queue None)) (en_queue busy_engine)"
    unfolding start busy_queue by (intro reach_step [OF reach_start] step_op op_enqueue)
  moreover have "stampVersion sample_push 1 \<in> set (rq_items (en_queue busy_engine))" by (simp add: sample_queue_items)
  ultimately obtain turn s' where run: "handle_failure (stampVersion sample_push 1) sample_failure busy_engine = (Inr turn, s')"
    and acc: "failure_accounted (stampVersion sample_push 1) sample_failure False (en_queue busy_engine) turn (en_queue s')"
    using failed_item_accounted [of "\<lambda>_. None" None None "en_queue busy_engine" "stampVersion sample_push 1" busy_engine sample_failure]
      reach_start by (auto simp: fenced_file_def)
  then have "turn = Next \<and> rq_items (en_queue s') = []"
    by (cases turn) (auto simp: sample_failure_oversized sample_queue_items same_attempt_def)
  with run acc show ?thesis by blast
qed

end
