(* ===== verification/Heartbeat.thy ===== *)
theory Heartbeat
  imports QueueDrainLaws
begin

text \<open>
  The heartbeat of the daemon, \<open>heartbeatLoop\<close> in \<open>packages/cli/src/serve/sync-engine.ts\<close>: what a
  beat reports, what a failed beat restores, and when it stops the daemon.
\<close>

section \<open>The outside\<close>

record hb_body =
  hb_queue_depth :: nat
  hb_dropped_count_delta :: nat
  hb_last_revision_seen :: "int option"
  hb_last_sync_error :: "string option"
  hb_runtime_observed :: "json option"

text \<open>\<open>hv_onAuthFailure\<close> is the optional callback; \<open>hv_delay\<close> is the wait between two beats.\<close>

record 'w heartbeat_env =
  hv_parse :: "string \<Rightarrow> json option"
  hv_snapshot :: "'w engine \<Rightarrow> int option \<times> string option"
  hv_runtimeObserved :: "('w, json option) eng"
  hv_post :: "string \<Rightarrow> hb_body \<Rightarrow> ('w, unit) eng"
  hv_writeHealth :: "('w, unit) eng"
  hv_onAuthFailure :: "(string \<Rightarrow> ('w, unit) eng) option"
  hv_stop :: "string \<Rightarrow> ('w, unit) eng"
  hv_vaultTick :: "('w, unit) eng option"
  hv_delay :: "('w, unit) eng"

section \<open>One beat\<close>

fun drop_reason_name :: "drop_reason \<Rightarrow> string" where
  "drop_reason_name Capacity_skills = ''capacity_skills''"
| "drop_reason_name Capacity_sessions = ''capacity_sessions''"
| "drop_reason_name Permanent = ''permanent''"
| "drop_reason_name Retry_exhausted = ''retry_exhausted''"
| "drop_reason_name Oversized = ''oversized''"
| "drop_reason_name Invalid_persisted = ''invalid_persisted''"

definition dropped_total :: "drop_deltas \<Rightarrow> nat" where
  "dropped_total dropped = sum_list (map snd dropped)"

definition drop_message :: "drop_deltas \<Rightarrow> string" where
  "drop_message dropped =
     join_with '', ''
       (map (\<lambda>r. drop_reason_name r @ ''='' @ int_decimal (int (drop_count dropped r)))
         (filter (\<lambda>r. drop_count dropped r \<noteq> 0) QUEUE_DROP_REASONS))"

definition sync_error_text :: "drop_deltas \<Rightarrow> string option \<Rightarrow> string option" where
  "sync_error_text dropped error =
     (if drop_message dropped \<noteq> []
      then Some (join_with ''; '' (filter (\<lambda>part. part \<noteq> [])
        [or_else (map_option (take 500) error) [], take 500 (''queue_dropped: '' @ drop_message dropped)]))
      else error)"

definition heartbeat_body :: "drop_deltas \<Rightarrow> nat \<Rightarrow> int option \<times> string option \<Rightarrow> json option \<Rightarrow> hb_body" where
  "heartbeat_body dropped depth_mark snapshot observed =
     \<lparr>hb_queue_depth = depth_mark, hb_dropped_count_delta = dropped_total dropped,
      hb_last_revision_seen = fst snapshot,
      hb_last_sync_error = map_option (take 1000) (sync_error_text dropped (snd snapshot)),
      hb_runtime_observed = observed\<rparr>"

definition touchHealthFile :: "'w heartbeat_env \<Rightarrow> ('w, unit) eng" where
  "touchHealthFile env = ecatch (hv_writeHealth env) (\<lambda>_. eret ())"

definition en_drainDropped :: "('w, drop_deltas) eng" where
  "en_drainDropped = (\<lambda>s. case drainDroppedDelta (en_queue s) of (d, q) \<Rightarrow> (Inr d, s\<lparr>en_queue := q\<rparr>))"

text \<open>What follows a failed beat, with the streak of failures before it.\<close>

definition heartbeat_failed :: "'w heartbeat_env \<Rightarrow> nat \<Rightarrow> sync_error \<Rightarrow> ('w, nat) eng" where
  "heartbeat_failed env streak e =
     (case hv_onAuthFailure env of
        Some callback \<Rightarrow>
          if isAuthFailure e then ethen (callback ''heartbeat'') (eret streak)
          else (case agentLookupStopHint (hv_parse env) e of
                  Some hint \<Rightarrow> ethen (hv_stop env hint) (eret streak)
                | None \<Rightarrow> eret (streak + 1))
      | None \<Rightarrow>
          (case agentLookupStopHint (hv_parse env) e of
             Some hint \<Rightarrow> ethen (hv_stop env hint) (eret streak)
           | None \<Rightarrow> eret (streak + 1)))"

definition send_heartbeat :: "'w heartbeat_env \<Rightarrow> engine_opts \<Rightarrow> nat \<Rightarrow> ('w, nat) eng" where
  "send_heartbeat env opts streak =
     ebind (egets (hv_snapshot env)) (\<lambda>snapshot.
     ebind en_drainDropped (\<lambda>dropped.
       ecatch
         (ebind (hv_runtimeObserved env) (\<lambda>observed.
          ebind (egets (\<lambda>s. highWaterMark (en_queue s))) (\<lambda>depth_mark.
          ethen (hv_post env (op_environmentId opts) (heartbeat_body dropped depth_mark snapshot observed))
            (ethen (touchHealthFile env) (eret 0)))))
         (\<lambda>e. ethen (en_queue_do (restoreDroppedDelta dropped)) (heartbeat_failed env streak e))))"

definition vault_tick :: "'w heartbeat_env \<Rightarrow> ('w, unit) eng" where
  "vault_tick env =
     ebind (egets en_aborted) (\<lambda>aborted.
       case hv_vaultTick env of Some tick \<Rightarrow> (if aborted then eret () else tick) | None \<Rightarrow> eret ())"

fun heartbeat_rounds :: "'w heartbeat_env \<Rightarrow> engine_opts \<Rightarrow> nat \<Rightarrow> nat \<Rightarrow> ('w, unit) eng" where
  "heartbeat_rounds env opts streak 0 = eret ()"
| "heartbeat_rounds env opts streak (Suc n) =
     ebind (egets en_aborted) (\<lambda>aborted.
       if aborted then eret ()
       else ethen (hv_delay env)
         (ebind (egets en_aborted) (\<lambda>aborted.
            if aborted then eret ()
            else ebind (send_heartbeat env opts streak) (\<lambda>streak'.
              ethen (vault_tick env) (heartbeat_rounds env opts streak' n)))))"

text \<open>The loop, for the first beat and at most \<open>n\<close> rounds.\<close>

definition heartbeatLoop :: "'w heartbeat_env \<Rightarrow> engine_opts \<Rightarrow> nat \<Rightarrow> ('w, unit) eng" where
  "heartbeatLoop env opts n =
     ebind (send_heartbeat env opts 0) (\<lambda>streak. ethen (vault_tick env) (heartbeat_rounds env opts streak n))"

section \<open>Conservation of drops\<close>

lemma dropped_total_set:
  "wf_map d \<Longrightarrow> dropped_total (map_set r (drop_count d r + k) d) = dropped_total d + k"
proof (induction d)
  case (Cons p d)
  then have "wf_map d" and "fst p \<notin> fst ` set d" by (auto simp: wf_map_def)
  then show ?case
    using Cons.IH by (cases p) (auto simp: dropped_total_def drop_count_def map_of_eq_None_iff)
qed (simp add: dropped_total_def drop_count_def)

lemma restore_reason_wf: "wf_map d \<Longrightarrow> wf_map (restore_reason deltas r d)"
  by (auto simp: restore_reason_def split: option.split)

lemma dropped_total_restore_reason:
  "wf_map d \<Longrightarrow> dropped_total (restore_reason deltas r d) = dropped_total d + drop_count deltas r"
  using dropped_total_set [of d r] by (auto simp: restore_reason_def drop_count_def [of deltas] split: option.split)

lemma fold_restore:
  "wf_map d \<Longrightarrow> wf_map (fold (restore_reason deltas) rs d) \<and>
     dropped_total (fold (restore_reason deltas) rs d) = dropped_total d + sum_list (map (drop_count deltas) rs)"
  by (induction rs arbitrary: d) (auto simp: restore_reason_wf dropped_total_restore_reason)

lemma sum_drop_counts: "wf_map d \<Longrightarrow> sum_list (map (drop_count d) QUEUE_DROP_REASONS) = dropped_total d"
proof -
  have fin: "finite (UNIV :: drop_reason set)" using QUEUE_DROP_REASONS_complete(1) by (metis List.finite_set)
  have all: "sum_list (map f QUEUE_DROP_REASONS) = (\<Sum>r\<in>UNIV. f r)" for f :: "drop_reason \<Rightarrow> nat"
    using QUEUE_DROP_REASONS_complete by (metis sum.distinct_set_conv_list)
  show "wf_map d \<Longrightarrow> ?thesis"
    unfolding all
  proof (induction d)
    case Nil
    then show ?case by (simp add: dropped_total_def)
  next
    case (Cons p d)
    obtain k v where p: "p = (k, v)" by fastforce
    with Cons.prems have d: "wf_map d" and "map_get d k = None" by (auto simp: wf_map_def map_of_eq_None_iff)
    then have k: "drop_count d k = 0" by (simp add: drop_count_def)
    have "(\<Sum>r\<in>UNIV. drop_count (p # d) r) = (\<Sum>r\<in>UNIV. drop_count d r + (if r = k then v else 0))"
      by (rule sum.cong) (auto simp: p drop_count_def k [unfolded drop_count_def])
    also have "\<dots> = dropped_total d + v" using Cons.IH [OF d] fin by (simp add: sum.distrib)
    finally show ?case by (simp add: p dropped_total_def)
  qed
qed

text \<open>The balance of the drops. The Cloud has counted \<open>accepted\<close> drops, \<open>recorded\<close> happened since the start,
  \<open>k\<close> are on their way in a beat, and the rest stands in the counters. \<open>repeated\<close> is what a beat reported
  that the Cloud counted although the daemon saw it fail, because the answer was lost: the daemon restores
  such a count and reports it again.\<close>

definition balance :: "('w \<Rightarrow> nat) \<Rightarrow> ('w \<Rightarrow> nat) \<Rightarrow> ('w \<Rightarrow> nat) \<Rightarrow> nat \<Rightarrow> 'w engine \<Rightarrow> bool" where
  "balance accepted recorded repeated k s \<longleftrightarrow>
     wf_map (rq_droppedByReason (en_queue s)) \<and>
     accepted (en_world s) + dropped_total (rq_droppedByReason (en_queue s)) + k = recorded (en_world s) + repeated (en_world s)"

text \<open>The request of a beat, and nothing else it does to the counts: one that succeeds is counted, one that
  fails is either not counted or counted with its answer lost. Meanwhile other tasks may record drops.\<close>

definition post_counts :: "('w \<Rightarrow> nat) \<Rightarrow> ('w \<Rightarrow> nat) \<Rightarrow> ('w \<Rightarrow> nat) \<Rightarrow> 'w heartbeat_env \<Rightarrow> bool" where
  "post_counts accepted recorded repeated env \<longleftrightarrow>
     (\<forall>agent body s r s'. hv_post env agent body s = (r, s') \<longrightarrow>
        (\<exists>drops told again.
           accepted (en_world s') = accepted (en_world s) + told \<and> repeated (en_world s') = repeated (en_world s) + again \<and>
           recorded (en_world s') = recorded (en_world s) + drops \<and>
           dropped_total (rq_droppedByReason (en_queue s')) = dropped_total (rq_droppedByReason (en_queue s)) + drops \<and>
           (wf_map (rq_droppedByReason (en_queue s)) \<longrightarrow> wf_map (rq_droppedByReason (en_queue s'))) \<and>
           (case r of Inr _ \<Rightarrow> told = hb_dropped_count_delta body \<and> again = 0
            | Inl _ \<Rightarrow> told = 0 \<and> again = 0 \<or> told = hb_dropped_count_delta body \<and> again = told)))"

text \<open>Everything else that is awaited keeps the balance: new drops are recorded and counted, none is
  reported elsewhere.\<close>

definition heartbeat_env_balanced :: "('w \<Rightarrow> nat) \<Rightarrow> ('w \<Rightarrow> nat) \<Rightarrow> ('w \<Rightarrow> nat) \<Rightarrow> 'w heartbeat_env \<Rightarrow> bool" where
  "heartbeat_env_balanced accepted recorded repeated env \<longleftrightarrow>
     post_counts accepted recorded repeated env \<and>
     (\<forall>k. keeps (balance accepted recorded repeated k) (hv_runtimeObserved env)) \<and>
     keeps (balance accepted recorded repeated 0) (hv_writeHealth env) \<and>
     (\<forall>m. hv_onAuthFailure env = Some m \<longrightarrow> (\<forall>origin. keeps (balance accepted recorded repeated 0) (m origin))) \<and>
     (\<forall>hint. keeps (balance accepted recorded repeated 0) (hv_stop env hint)) \<and>
     (\<forall>m. hv_vaultTick env = Some m \<longrightarrow> keeps (balance accepted recorded repeated 0) m) \<and>
     keeps (balance accepted recorded repeated 0) (hv_delay env)"

lemma post_balance:
  assumes "heartbeat_env_balanced accepted recorded repeated env"
  shows "valid (balance accepted recorded repeated (hb_dropped_count_delta body)) (hv_post env agent body)
    (\<lambda>_. balance accepted recorded repeated 0) (\<lambda>_. balance accepted recorded repeated (hb_dropped_count_delta body))"
  unfolding valid_def
proof (intro allI impI)
  fix s assume b: "balance accepted recorded repeated (hb_dropped_count_delta body) s"
  obtain r s' where run: "hv_post env agent body s = (r, s')" by fastforce
  obtain drops told again where
    "accepted (en_world s') = accepted (en_world s) + told" "repeated (en_world s') = repeated (en_world s) + again"
    "recorded (en_world s') = recorded (en_world s) + drops"
    "dropped_total (rq_droppedByReason (en_queue s')) = dropped_total (rq_droppedByReason (en_queue s)) + drops"
    "wf_map (rq_droppedByReason (en_queue s)) \<longrightarrow> wf_map (rq_droppedByReason (en_queue s'))"
    "case r of Inr _ \<Rightarrow> told = hb_dropped_count_delta body \<and> again = 0
     | Inl _ \<Rightarrow> told = 0 \<and> again = 0 \<or> told = hb_dropped_count_delta body \<and> again = told"
    using assms [unfolded heartbeat_env_balanced_def post_counts_def] run by blast
  then show "case hv_post env agent body s of (Inr a, s') \<Rightarrow> balance accepted recorded repeated 0 s'
      | (Inl e, s') \<Rightarrow> balance accepted recorded repeated (hb_dropped_count_delta body) s'"
    using b by (cases r) (auto simp: run balance_def)
qed

lemma drained_balance:
  "valid (balance accepted recorded repeated 0) en_drainDropped
     (\<lambda>dropped s. wf_map dropped \<and> balance accepted recorded repeated (dropped_total dropped) s) E"
  by (auto simp: valid_def en_drainDropped_def drainDroppedDelta_def balance_def wf_map_def dropped_total_def)

lemma restored_balance:
  "wf_map dropped \<Longrightarrow> valid (balance accepted recorded repeated (dropped_total dropped))
     (en_queue_do (restoreDroppedDelta dropped)) (\<lambda>_. balance accepted recorded repeated 0) E"
  using fold_restore [of _ dropped QUEUE_DROP_REASONS] sum_drop_counts [of dropped]
  by (auto simp: valid_def en_queue_do_def emodify_def balance_def restoreDroppedDelta_def)

lemma failed_balance:
  "heartbeat_env_balanced accepted recorded repeated env \<Longrightarrow> keeps (balance accepted recorded repeated 0) (heartbeat_failed env streak e)"
  unfolding heartbeat_failed_def heartbeat_env_balanced_def
  by (auto intro!: keeps_flow split: option.split)

lemma touch_balance:
  "heartbeat_env_balanced accepted recorded repeated env \<Longrightarrow> valid (balance accepted recorded repeated 0) (ethen (touchHealthFile env) (eret (0::nat)))
     (\<lambda>_. balance accepted recorded repeated 0) (\<lambda>_ _. False)"
proof -
  assume "heartbeat_env_balanced accepted recorded repeated env"
  then have wr: "valid (balance accepted recorded repeated 0) (hv_writeHealth env) (\<lambda>_. balance accepted recorded repeated 0) (\<lambda>_. balance accepted recorded repeated 0)"
    by (simp add: heartbeat_env_balanced_def keeps_def)
  have "valid (balance accepted recorded repeated 0) (touchHealthFile env) (\<lambda>_. balance accepted recorded repeated 0) (\<lambda>_ _. False)"
    unfolding touchHealthFile_def by (rule valid_catch [OF wr]) (simp add: valid_def eret_def)
  then show ?thesis by (rule valid_then) (simp add: valid_def eret_def)
qed

lemma send_balance:
  assumes "heartbeat_env_balanced accepted recorded repeated env"
  shows "keeps (balance accepted recorded repeated 0) (send_heartbeat env opts streak)"
proof -
  let ?B = "balance accepted recorded repeated"
  note post = post_balance [OF assms]
  have observed: "valid (?B k) (hv_runtimeObserved env) (\<lambda>_. ?B k) (\<lambda>_. ?B k)" for k
    using assms by (auto simp: heartbeat_env_balanced_def keeps_def)
  have beat: "valid (?B (dropped_total dropped))
      (ebind (hv_runtimeObserved env) (\<lambda>observed. ebind (egets (\<lambda>s. highWaterMark (en_queue s))) (\<lambda>depth_mark.
         ethen (hv_post env agent (heartbeat_body dropped depth_mark snapshot observed))
           (ethen (touchHealthFile env) (eret (0::nat))))))
      (\<lambda>_. ?B 0) (\<lambda>_. ?B (dropped_total dropped))" for dropped agent snapshot
  proof (rule valid_bind [OF observed], rule valid_bind)
    fix observed depth_mark
    show "valid (?B (dropped_total dropped)) (egets (\<lambda>s. highWaterMark (en_queue s))) (\<lambda>_. ?B (dropped_total dropped)) (\<lambda>_. ?B (dropped_total dropped))"
      by (simp add: valid_def egets_def)
    show "valid (?B (dropped_total dropped))
        (ethen (hv_post env agent (heartbeat_body dropped depth_mark snapshot observed)) (ethen (touchHealthFile env) (eret (0::nat))))
        (\<lambda>_. ?B 0) (\<lambda>_. ?B (dropped_total dropped))"
      using post [of "heartbeat_body dropped depth_mark snapshot observed" agent]
      by (intro valid_then [where R = "?B 0"] valid_post [OF touch_balance [OF assms]]) (simp_all add: heartbeat_body_def)
  qed
  have rest: "valid (\<lambda>s. wf_map dropped \<and> ?B (dropped_total dropped) s)
      (ecatch (ebind (hv_runtimeObserved env) (\<lambda>observed. ebind (egets (\<lambda>s. highWaterMark (en_queue s))) (\<lambda>depth_mark.
         ethen (hv_post env agent (heartbeat_body dropped depth_mark snapshot observed))
           (ethen (touchHealthFile env) (eret 0)))))
        (\<lambda>e. ethen (en_queue_do (restoreDroppedDelta dropped)) (heartbeat_failed env streak e)))
      (\<lambda>_. ?B 0) (\<lambda>_. ?B 0)" for dropped agent snapshot
  proof (cases "wf_map dropped")
    case True
    then show ?thesis
      using failed_balance [OF assms]
      by (intro valid_catch [OF valid_pre [OF beat]] valid_then [OF restored_balance]) (auto simp: keeps_def)
  qed (simp add: valid_def)
  show ?thesis
    unfolding send_heartbeat_def keeps_def
    by (rule valid_bind [where R = "\<lambda>_. ?B 0"], simp add: valid_def egets_def, rule valid_bind [OF drained_balance], rule rest)
qed

lemma tick_balance:
  "heartbeat_env_balanced accepted recorded repeated env \<Longrightarrow> keeps (balance accepted recorded repeated 0) (vault_tick env)"
  unfolding vault_tick_def by (intro keeps_flow) (auto simp: heartbeat_env_balanced_def intro: keeps_ret split: option.split)

lemma rounds_balance:
  assumes "heartbeat_env_balanced accepted recorded repeated env"
  shows "keeps (balance accepted recorded repeated 0) (heartbeat_rounds env opts streak n)"
proof (induction n arbitrary: streak)
  case (Suc n)
  have "keeps (balance accepted recorded repeated 0) (hv_delay env)" using assms by (simp add: heartbeat_env_balanced_def)
  then show ?case
    unfolding heartbeat_rounds.simps by (intro keeps_flow send_balance tick_balance assms Suc.IH)
qed (simp add: keeps_ret)

text \<open>C21. No drop goes unreported: however long the heartbeat runs, however its beats fail and whatever is
  dropped while a beat is under way, what the Cloud has counted and what still stands in the counters add
  up to the drops that happened plus those counted twice, and counted twice are exactly the counts of beats
  that reached the Cloud but whose answer was lost. So the sum is never below the drops that happened, and
  equal to them as long as no answer is lost.\<close>

theorem every_drop_reported:
  assumes "heartbeat_env_balanced accepted recorded repeated env" and "balance accepted recorded repeated 0 s"
    and "heartbeatLoop env opts n s = (r, s')"
  shows "accepted (en_world s') + dropped_total (rq_droppedByReason (en_queue s')) =
      recorded (en_world s') + repeated (en_world s') \<and>
    recorded (en_world s') \<le> accepted (en_world s') + dropped_total (rq_droppedByReason (en_queue s'))"
proof -
  have "keeps (balance accepted recorded repeated 0) (heartbeatLoop env opts n)"
    unfolding heartbeatLoop_def by (intro keeps_flow send_balance tick_balance rounds_balance assms(1))
  from keepsD [OF this assms(2,3)] show ?thesis by (simp add: balance_def)
qed

text \<open>A Cloud that counts a beat, is unreachable for the next and loses the answer of the third, and a drain
  loop that drops an item between two beats.\<close>

record cloud_counts =
  cc_accepted :: nat
  cc_recorded :: nat
  cc_repeated :: nat
  cc_beats :: nat

definition flaky_post :: "hb_body \<Rightarrow> (cloud_counts, unit) eng" where
  "flaky_post body =
     (\<lambda>s. let w = en_world s; k = hb_dropped_count_delta body; w' = w\<lparr>cc_beats := cc_beats w + 1\<rparr> in
        if cc_beats w mod 3 = 0 then (Inr (), s\<lparr>en_world := w'\<lparr>cc_accepted := cc_accepted w + k\<rparr>\<rparr>)
        else if cc_beats w mod 3 = 1 then (Inl (PlainError ''offline''), s\<lparr>en_world := w'\<rparr>)
        else (Inl (PlainError ''timeout''),
          s\<lparr>en_world := w'\<lparr>cc_accepted := cc_accepted w + k, cc_repeated := cc_repeated w + k\<rparr>\<rparr>))"

definition drop_between :: "(cloud_counts, unit) eng" where
  "drop_between =
     emodify (\<lambda>s. s\<lparr>en_queue := recordPermanentDrop Oversized (en_queue s),
       en_world := (en_world s)\<lparr>cc_recorded := cc_recorded (en_world s) + 1\<rparr>\<rparr>)"

definition sample_heartbeat_env :: "cloud_counts heartbeat_env" where
  "sample_heartbeat_env =
     \<lparr>hv_parse = (\<lambda>_. None), hv_snapshot = (\<lambda>_. (None, None)), hv_runtimeObserved = eret None,
      hv_post = (\<lambda>_. flaky_post), hv_writeHealth = eret (), hv_onAuthFailure = None, hv_stop = (\<lambda>_. eret ()),
      hv_vaultTick = None, hv_delay = drop_between\<rparr>"

lemma sample_heartbeat_balanced:
  "heartbeat_env_balanced cc_accepted cc_recorded cc_repeated sample_heartbeat_env"
proof -
  have total: "wf_map d \<Longrightarrow> dropped_total (map_set r (Suc (drop_count d r)) d) = Suc (dropped_total d)" for d r
    using dropped_total_set [of d r 1] by simp
  have delay: "keeps (balance cc_accepted cc_recorded cc_repeated 0) drop_between"
    unfolding drop_between_def
    by (rule keeps_modify) (auto simp: balance_def recordPermanentDrop_def recordDrop_def total)
  have "post_counts cc_accepted cc_recorded cc_repeated sample_heartbeat_env"
    by (auto simp: post_counts_def sample_heartbeat_env_def flaky_post_def Let_def)
  then show ?thesis
    by (simp add: heartbeat_env_balanced_def sample_heartbeat_env_def keeps_ret delay)
qed

definition sample_beats :: "cloud_counts engine" where
  "sample_beats = snd (heartbeatLoop sample_heartbeat_env sample_agent 3 (fresh_engine \<lparr>cc_accepted = 0, cc_recorded = 0, cc_repeated = 0, cc_beats = 0\<rparr>))"

lemma sample_beats_counts:
  "cc_accepted (en_world sample_beats) = 5" "cc_recorded (en_world sample_beats) = 3" "cc_repeated (en_world sample_beats) = 2"
  by code_simp+

theorem every_drop_reported_witness:
  "cc_accepted (en_world sample_beats) + dropped_total (rq_droppedByReason (en_queue sample_beats)) =
     cc_recorded (en_world sample_beats) + cc_repeated (en_world sample_beats) \<and> cc_repeated (en_world sample_beats) = 2"
proof -
  let ?s = "fresh_engine \<lparr>cc_accepted = 0, cc_recorded = 0, cc_repeated = 0, cc_beats = 0\<rparr>"
  obtain r s' where run: "heartbeatLoop sample_heartbeat_env sample_agent 3 ?s = (r, s')" by fastforce
  have start: "balance cc_accepted cc_recorded cc_repeated 0 ?s"
    by (simp add: balance_def fresh_engine_def new_queue_def wf_map_def dropped_total_def)
  from every_drop_reported [OF sample_heartbeat_balanced start run] run sample_beats_counts(3)
  show ?thesis by (simp add: sample_beats_def)
qed

end
