(* ===== verification/ProjectReconcile.thy ===== *)
theory ProjectReconcile
  imports QueueDrainLaws SkillsLockLaws
begin

text \<open>
  The Project Skills of an Agent (\<open>packages/cli/src/serve/project-skill-reconcile.ts\<close>): the Cloud says
  which Skills of connected Projects this Agent should have; they are downloaded, checked, and then
  installed and removed as one transaction over the Skill folders and the materialization receipts of
  the ledger (\<open>lib/skills-lock.ts\<close>, theory \<open>SkillsLock\<close>).

  The adapter's folder operations, the Cloud and the archive library are computations given as
  arguments. \<open>pj_rank\<close> is the collation order of \<open>localeCompare\<close>.
\<close>

section \<open>Data\<close>

record desired_skill =
  de_skill_key :: string
  de_skill_id :: string
  de_project_id :: string
  de_content_hash :: string
  de_archive_url :: string

record parsed_url =
  url_origin :: string
  url_pathname :: string
  url_search :: string
  url_hash :: string

record 'w fetched =
  ft_ok :: bool
  ft_status :: int
  ft_cancel :: "('w, unit) eng"
  ft_bytes :: "('w, string) eng"

record prior_materialization =
  pr_input :: materialization_input
  pr_archive :: string

datatype applied_change = Installed materialization_input "prior_materialization option" | Removed prior_materialization

record 'w project_env =
  pj_parse :: "string \<Rightarrow> json option"
  pj_baseUrl :: string
  pj_url :: "string \<Rightarrow> sync_error + parsed_url"
  pj_rank :: "string \<Rightarrow> nat"
  pj_putCapability :: "string \<Rightarrow> ('w, unit) eng"
  pj_getDesired :: "string \<Rightarrow> ('w, string \<times> desired_skill list) eng"
  pj_requestStream :: "parsed_url \<Rightarrow> ('w, 'w fetched) eng"
  pj_mkdtemp :: "('w, string) eng"
  pj_extractTarGz :: "string \<Rightarrow> string \<Rightarrow> ('w, unit) eng"
  pj_stageHasSkill :: "string \<Rightarrow> string \<Rightarrow> 'w engine \<Rightarrow> bool"
  pj_snapshotStage :: "string \<Rightarrow> string \<Rightarrow> ('w, string \<times> string) eng"
  pj_rmStage :: "string \<Rightarrow> ('w, unit) eng"
  pj_listKeys :: "('w, string list) eng"
  pj_exists :: "string \<Rightarrow> 'w engine \<Rightarrow> bool"
  pj_hasSkill :: "string \<Rightarrow> 'w engine \<Rightarrow> bool"
  pj_snapshotSkill :: "string \<Rightarrow> ('w, string \<times> string) eng"
  pj_folderHash :: "string \<Rightarrow> ('w, string) eng"
  pj_writeArchive :: "string \<Rightarrow> string \<Rightarrow> ('w, unit) eng"
  pj_remove :: "string \<Rightarrow> ('w, unit) eng"

definition desiredInput :: "string \<Rightarrow> string \<Rightarrow> desired_skill \<Rightarrow> materialization_input" where
  "desiredInput agentType agentId desired =
     \<lparr>mi_agentType = agentType, mi_localSkillKey = de_skill_key desired, mi_sourceProjectId = de_project_id desired,
      mi_sourceSkillKey = de_skill_key desired, mi_contentHash = de_content_hash desired, mi_reconcileAgentId = Some agentId\<rparr>"

definition priorInput :: "string \<Rightarrow> string \<Rightarrow> materialization \<Rightarrow> materialization_input" where
  "priorInput agentType agentId receipt =
     \<lparr>mi_agentType = agentType, mi_localSkillKey = mt_local_skill_key receipt, mi_sourceProjectId = mt_source_project_id receipt,
      mi_sourceSkillKey = mt_source_skill_key receipt, mi_contentHash = mt_content_hash receipt, mi_reconcileAgentId = Some agentId\<rparr>"

section \<open>The ledger, from the engine\<close>

definition ledger_get :: "(lock_file \<Rightarrow> lock_error + 'a) \<Rightarrow> ('w, 'a) eng" where
  "ledger_get f = (\<lambda>s. case f (en_skillsLock s) of Inl e \<Rightarrow> (Inl (lock_message e), s) | Inr a \<Rightarrow> (Inr a, s))"

definition ledger_put :: "(lock_file \<Rightarrow> lock_error + lock_file) \<Rightarrow> ('w, unit) eng" where
  "ledger_put f = (\<lambda>s. case f (en_skillsLock s) of
     Inl e \<Rightarrow> (Inl (lock_message e), s) | Inr data \<Rightarrow> (Inr (), s\<lparr>en_skillsLock := data\<rparr>))"

definition ledger_remove :: "'w project_env \<Rightarrow> materialization_input \<Rightarrow> ('w, bool) eng" where
  "ledger_remove env input = (\<lambda>s. case removeExactProjectSkillMaterialization (pj_parse env) True input (en_skillsLock s) of
     Inl e \<Rightarrow> (Inl (lock_message e), s) | Inr (removed, data) \<Rightarrow> (Inr removed, s\<lparr>en_skillsLock := data\<rparr>))"

definition ledger_record :: "'w project_env \<Rightarrow> materialization_input \<Rightarrow> ('w, unit) eng" where
  "ledger_record env input = ledger_put (recordProjectSkillMaterialization (pj_parse env) True input)"

text \<open>\<open>commitProjectSkillMaterialization\<close> with an activation that is awaited.\<close>

definition ledger_commit :: "'w project_env \<Rightarrow> materialization_input \<Rightarrow> ('w, unit) eng \<Rightarrow> ('w, unit) eng" where
  "ledger_commit env input activate =
     ebind (ledger_get (readProjectSkillMaterialization (pj_parse env) input)) (\<lambda>previous.
     ethen (ledger_record env input)
       (ecatch activate (\<lambda>e.
          ethen (ledger_put (rollback_materialization (pj_parse env) True input previous)) (ethrow e))))"

section \<open>Before the transaction\<close>

text \<open>\<open>snapshotOwnedTarget\<close>: \<open>None\<close> stands for a thrown \<open>LocallyModifiedProjectSkillError\<close>, which its only
  caller catches.\<close>

definition snapshotOwnedTarget :: "'w project_env \<Rightarrow> materialization_input \<Rightarrow> ('w, string option) eng" where
  "snapshotOwnedTarget env input =
     (let key = mi_localSkillKey input
      in ebind (egets (pj_hasSkill env key)) (\<lambda>present.
           if \<not> present then ethrow (PlainError (''Project Skill '' @ key @ '' is missing from this Agent''))
           else ebind (pj_snapshotSkill env key) (\<lambda>(hash, archive).
             eret (if hash \<noteq> mi_contentHash input then None else Some archive))))"

definition archive_prefix :: "string \<Rightarrow> desired_skill \<Rightarrow> string" where
  "archive_prefix agentId desired =
     ''/v1/runtime/project-skill-archives/'' @ agentId @ ''/'' @ de_project_id desired @ ''/'' @ de_skill_id desired @ ''/'' @
       de_content_hash desired @ ''/''"

definition ends_with :: "string \<Rightarrow> string \<Rightarrow> bool" where
  "ends_with text suf \<longleftrightarrow> length suf \<le> length text \<and> drop (length text - length suf) text = suf"

definition assertArchiveUrl :: "'w project_env \<Rightarrow> string \<Rightarrow> desired_skill \<Rightarrow> sync_error + parsed_url" where
  "assertArchiveUrl env agentId desired =
     bind_res (pj_url env (de_archive_url desired)) (\<lambda>url.
     bind_res (pj_url env (pj_baseUrl env)) (\<lambda>base.
       if url_origin url \<noteq> url_origin base \<or> url_search url \<noteq> [] \<or> url_hash url \<noteq> []
       then Inl (PlainError (''Project Skill '' @ de_skill_key desired @ '' has an invalid download address''))
       else if take (length (archive_prefix agentId desired)) (url_pathname url) \<noteq> archive_prefix agentId desired \<or>
           \<not> ends_with (url_pathname url) (''/'' @ de_skill_key desired @ ''.tar.gz'')
       then Inl (PlainError (''Project Skill '' @ de_skill_key desired @ '' has an invalid download identity''))
       else Inr url))"

text \<open>\<open>try ... finally\<close>.\<close>

definition efinally :: "('w, 'a) eng \<Rightarrow> ('w, unit) eng \<Rightarrow> ('w, 'a) eng" where
  "efinally m f = ebind (ecatch (ebind m (\<lambda>a. eret (Inr a))) (\<lambda>e. eret (Inl e))) (\<lambda>r. ethen f (elift r))"

definition check_archive :: "'w project_env \<Rightarrow> string \<Rightarrow> string \<Rightarrow> desired_skill \<Rightarrow> ('w, string) eng" where
  "check_archive env stage bytes desired =
     (let key = de_skill_key desired
      in ethen (pj_extractTarGz env stage bytes)
           (ebind (egets (pj_stageHasSkill env stage key)) (\<lambda>present.
             if \<not> present then ethrow (PlainError (''Project Skill '' @ key @ '' archive is invalid''))
             else ebind (pj_snapshotStage env stage key) (\<lambda>(hash, archive).
               if hash \<noteq> de_content_hash desired
               then ethrow (PlainError (''Project Skill '' @ key @ '' download failed its identity check''))
               else eret archive))))"

definition downloadDesiredArchive :: "'w project_env \<Rightarrow> string \<Rightarrow> desired_skill \<Rightarrow> ('w, string) eng" where
  "downloadDesiredArchive env agentId desired =
     ebind (elift (assertArchiveUrl env agentId desired)) (\<lambda>url.
     ebind (pj_requestStream env url) (\<lambda>response.
       if \<not> ft_ok response
       then ethen (ft_cancel response)
         (ethrow (PlainError (''Project Skill '' @ de_skill_key desired @ '' download failed ('' @ int_decimal (ft_status response) @ '')'')))
       else ebind (ft_bytes response) (\<lambda>bytes.
         ebind (pj_mkdtemp env) (\<lambda>stage.
           efinally (check_archive env stage bytes desired) (pj_rmStage env stage)))))"

text \<open>The desired Skills by key; a key desired twice is skipped.\<close>

fun desired_by_key ::
  "desired_skill list \<Rightarrow> string list \<Rightarrow> (string, desired_skill) js_map \<Rightarrow> string list \<times> (string, desired_skill) js_map" where
  "desired_by_key [] skipped desiredByKey = (skipped, desiredByKey)"
| "desired_by_key (d # ds) skipped desiredByKey =
     (if map_has desiredByKey (de_skill_key d) then desired_by_key ds (set_add (de_skill_key d) skipped) desiredByKey
      else desired_by_key ds skipped (map_set (de_skill_key d) d desiredByKey))"

record survey =
  sy_skipped :: "string list"
  sy_missing :: "string list"
  sy_priors :: "(string, prior_materialization) js_map"

fun survey_receipts :: "'w project_env \<Rightarrow> string \<Rightarrow> string \<Rightarrow> materialization list \<Rightarrow> survey \<Rightarrow> ('w, survey) eng" where
  "survey_receipts env agentType agentId [] y = eret y"
| "survey_receipts env agentType agentId (receipt # remaining) y =
     (let key = mt_local_skill_key receipt; input = priorInput agentType agentId receipt
      in ebind (egets (pj_exists env key)) (\<lambda>present.
           if \<not> present then survey_receipts env agentType agentId remaining (y\<lparr>sy_missing := set_add key (sy_missing y)\<rparr>)
           else if key \<in> set (sy_skipped y) then survey_receipts env agentType agentId remaining y
           else ebind (snapshotOwnedTarget env input) (\<lambda>archive.
             survey_receipts env agentType agentId remaining
               (case archive of
                  Some a \<Rightarrow> y\<lparr>sy_priors := map_set key \<lparr>pr_input = input, pr_archive = a\<rparr> (sy_priors y)\<rparr>
                | None \<Rightarrow> y\<lparr>sy_skipped := set_add key (sy_skipped y)\<rparr>))))"

fun download_desired ::
  "'w project_env \<Rightarrow> string \<Rightarrow> string \<Rightarrow> string list \<Rightarrow> string list \<Rightarrow> desired_skill list \<Rightarrow> string list \<Rightarrow> (string, string) js_map \<Rightarrow>
     ('w, string list \<times> (string, string) js_map) eng" where
  "download_desired env agentType agentId localKeys missing [] skipped downloads = eret (skipped, downloads)"
| "download_desired env agentType agentId localKeys missing (d # ds) skipped downloads =
     (let key = de_skill_key d; new = desiredInput agentType agentId d
      in if key \<in> set skipped then download_desired env agentType agentId localKeys missing ds skipped downloads
         else ebind (ledger_get (readProjectSkillMaterialization (pj_parse env) \<lparr>mi_agentType = agentType, mi_localSkillKey = key\<rparr>))
           (\<lambda>receipt.
             if (receipt = None \<and> key \<in> set localKeys) \<or>
                (case receipt of Some r \<Rightarrow> mt_reconcile_agent_id r \<noteq> Some agentId | None \<Rightarrow> False)
             then download_desired env agentType agentId localKeys missing ds (set_add key skipped) downloads
             else ebind (if key \<in> set missing then eret False
                         else ledger_get (hasExactProjectSkillMaterialization (pj_parse env) new)) (\<lambda>have.
               if have then download_desired env agentType agentId localKeys missing ds skipped downloads
               else ebind (downloadDesiredArchive env agentId d) (\<lambda>archive.
                 download_desired env agentType agentId localKeys missing ds skipped (map_set key archive downloads)))))"

fun forget_missing :: "'w project_env \<Rightarrow> string \<Rightarrow> string \<Rightarrow> string list \<Rightarrow> string list \<Rightarrow> materialization list \<Rightarrow> ('w, unit) eng" where
  "forget_missing env agentType agentId skipped missing [] = eret ()"
| "forget_missing env agentType agentId skipped missing (receipt # remaining) =
     (let key = mt_local_skill_key receipt
      in if key \<in> set skipped \<or> key \<notin> set missing then forget_missing env agentType agentId skipped missing remaining
         else ebind (ledger_remove env (priorInput agentType agentId receipt)) (\<lambda>_.
           forget_missing env agentType agentId skipped missing remaining))"

section \<open>The transaction\<close>

text \<open>Each step returns what has been applied so far, also when it fails: \<open>applied\<close> is a variable of the
  enclosing function.\<close>

type_synonym 'w change = "('w, applied_change list \<times> sync_error option) eng"

definition attempt_change :: "applied_change list \<Rightarrow> ('w, 'a) eng \<Rightarrow> ('a \<Rightarrow> 'w change) \<Rightarrow> 'w change" where
  "attempt_change done_so_far m k =
     ebind (ecatch (ebind m (\<lambda>a. eret (Inr a))) (\<lambda>e. eret (Inl e))) (\<lambda>r.
       case r of Inl e \<Rightarrow> eret (done_so_far, Some e) | Inr a \<Rightarrow> k a)"

fun install_all ::
  "'w project_env \<Rightarrow> string \<Rightarrow> string \<Rightarrow> (string, desired_skill) js_map \<Rightarrow> (string, prior_materialization) js_map \<Rightarrow>
     (string \<times> string) list \<Rightarrow> applied_change list \<Rightarrow> 'w change" where
  "install_all env agentType agentId desiredByKey priors [] applied = eret (applied, None)"
| "install_all env agentType agentId desiredByKey priors ((key, archive) # rest) applied =
     (case map_get desiredByKey key of
        None \<Rightarrow> eret (applied, Some (PlainError ''Project Skill inventory changed during reconcile''))
      | Some desired \<Rightarrow>
          (let new = desiredInput agentType agentId desired;
               applied' = applied @ [Installed new (map_get priors key)]
           in attempt_change applied (ledger_commit env new (pj_writeArchive env key archive)) (\<lambda>_.
                attempt_change applied' (pj_folderHash env key) (\<lambda>installedHash.
                  if installedHash \<noteq> de_content_hash desired
                  then eret (applied', Some (PlainError (''Project Skill '' @ key @ '' did not install with the expected content'')))
                  else install_all env agentType agentId desiredByKey priors rest applied'))))"

fun remove_undesired ::
  "'w project_env \<Rightarrow> string list \<Rightarrow> (string, desired_skill) js_map \<Rightarrow> prior_materialization list \<Rightarrow> applied_change list \<Rightarrow>
     'w change" where
  "remove_undesired env skipped desiredByKey [] applied = eret (applied, None)"
| "remove_undesired env skipped desiredByKey (prior # priors) applied =
     (let key = mi_localSkillKey (pr_input prior)
      in if key \<in> set skipped \<or> map_has desiredByKey key then remove_undesired env skipped desiredByKey priors applied
         else attempt_change applied (pj_remove env key) (\<lambda>_.
           attempt_change (applied @ [Removed prior]) (ledger_remove env (pr_input prior)) (\<lambda>removed.
             if \<not> removed
             then eret (applied @ [Removed prior], Some (PlainError (''Project Skill '' @ key @ '' ownership changed during reconcile'')))
             else remove_undesired env skipped desiredByKey priors (applied @ [Removed prior]))))"

fun undo_change :: "'w project_env \<Rightarrow> applied_change \<Rightarrow> ('w, unit) eng" where
  "undo_change env (Removed prior) =
     ethen (pj_writeArchive env (mi_localSkillKey (pr_input prior)) (pr_archive prior)) (ledger_record env (pr_input prior))"
| "undo_change env (Installed new (Some prior)) =
     ethen (pj_writeArchive env (mi_localSkillKey (pr_input prior)) (pr_archive prior)) (ledger_record env (pr_input prior))"
| "undo_change env (Installed new None) =
     ethen (pj_remove env (mi_localSkillKey new)) (ethen (ledger_remove env new) (eret ()))"

text \<open>The loop over \<open>applied.reverse()\<close>: the messages of the undo steps that failed.\<close>

fun undo_all :: "'w project_env \<Rightarrow> applied_change list \<Rightarrow> string list \<Rightarrow> ('w, string list) eng" where
  "undo_all env [] errors = eret errors"
| "undo_all env (c # cs) errors =
     ebind (ecatch (ethen (undo_change env c) (eret None)) (\<lambda>e. eret (Some (toErrorMessage e)))) (\<lambda>failed.
       undo_all env cs (errors @ (case failed of None \<Rightarrow> [] | Some m \<Rightarrow> [m])))"

definition rollback_error :: "string list \<Rightarrow> sync_error" where
  "rollback_error errors = PlainError (''Project Skill update failed and rollback needs attention: '' @ join_with ''; '' errors)"

definition apply_changes ::
  "'w project_env \<Rightarrow> string \<Rightarrow> string \<Rightarrow> (string, desired_skill) js_map \<Rightarrow> (string, prior_materialization) js_map \<Rightarrow>
     string list \<Rightarrow> (string, string) js_map \<Rightarrow> ('w, unit) eng" where
  "apply_changes env agentType agentId desiredByKey priors skipped downloads =
     ebind (install_all env agentType agentId desiredByKey priors (sort_key (\<lambda>(key, _). pj_rank env key) downloads) []) (\<lambda>(applied, failed).
     ebind (case failed of
              Some e \<Rightarrow> eret (applied, Some e)
            | None \<Rightarrow> remove_undesired env skipped desiredByKey
                (sort_key (\<lambda>p. pj_rank env (mi_localSkillKey (pr_input p))) (map_values priors)) applied) (\<lambda>(applied, failed).
       case failed of
         None \<Rightarrow> eret ()
       | Some e \<Rightarrow>
           ebind (undo_all env (rev applied) []) (\<lambda>errors.
             if errors \<noteq> [] then ethrow (rollback_error errors) else ethrow e)))"

definition skipped_error :: "string list \<Rightarrow> sync_error" where
  "skipped_error skipped = PlainError (''Project Skills skipped due to local conflicts: '' @ join_with '', '' (sort skipped))"

definition reconcileConnectedProjectSkills :: "'w project_env \<Rightarrow> string \<Rightarrow> string \<Rightarrow> ('w, unit) eng" where
  "reconcileConnectedProjectSkills env agentType agentId =
     ethen (pj_putCapability env agentId)
     (ebind (pj_getDesired env agentId) (\<lambda>(inventoryAgent, desired).
       if inventoryAgent \<noteq> agentId then ethrow (PlainError ''Project Skill inventory Agent mismatch'')
       else (let (skipped0, desiredByKey) = desired_by_key desired [] []
         in ebind (pj_listKeys env) (\<lambda>localKeys.
            ebind (egets (\<lambda>s. readProjectSkillMaterializationsForReconcile (pj_parse env) agentType agentId (en_skillsLock s))) (\<lambda>owned.
            ebind (survey_receipts env agentType agentId owned \<lparr>sy_skipped = skipped0, sy_missing = [], sy_priors = []\<rparr>) (\<lambda>y.
            ebind (download_desired env agentType agentId localKeys (sy_missing y)
                (sort_key (\<lambda>d. pj_rank env (de_skill_key d)) (map_values desiredByKey)) (sy_skipped y) []) (\<lambda>(skipped, downloads).
            ethen (forget_missing env agentType agentId skipped (sy_missing y) owned)
              (ethen (apply_changes env agentType agentId desiredByKey (sy_priors y) skipped downloads)
                (if skipped \<noteq> []
                 then ethrow (skipped_error skipped)
                 else eret ())))))))))"

end
