(* ===== verification/SkillSync.thy ===== *)
theory SkillSync
  imports Heartbeat ProjectReconcile
begin

text \<open>
  The prepared Skill module of the daemon, \<open>prepareSkillSync\<close> in
  \<open>packages/cli/src/serve/sync-engine.ts\<close>: what is resolved and synced before the module is ready, and the
  callbacks and loops it runs afterwards, on the functions of the inventory (\<open>SkillInventory\<close>) and of
  the Project Skills (\<open>ProjectReconcile\<close>). Also the two ways \<open>runSyncEngine\<close> stops the daemon.

  The variables these functions share beside the engine's state are \<open>daemon\<close>, the outside world of the
  engine. \<open>en_aborted\<close> is the signal of the module's scope, which follows that of the engine. Loops run for a
  number of rounds given as an argument.
\<close>

section \<open>State\<close>

text \<open>\<open>da_exitCode\<close> is \<open>process.exitCode\<close>, \<open>da_supervised\<close> whether launchd still supervises the daemon,
  \<open>da_finalHeartbeat\<close> the heartbeat sent on the way out, \<open>da_scopeRetired\<close> whether the scope was aborted for
  a new Project; \<open>da_projectDue\<close> and \<open>da_inventoryDue\<close> are the \<open>...Requested\<close> flags.\<close>

record 'w daemon =
  da_lastSeenRevision :: "int option"
  da_listingEtag :: "string option"
  da_authFailureFired :: bool
  da_vaultRevoked :: bool
  da_exitCode :: "int option"
  da_supervised :: bool
  da_finalHeartbeat :: "hb_body option"
  da_scopeRetired :: bool
  da_projectDue :: bool
  da_inventoryDue :: bool
  da_outside :: 'w

type_synonym ('w, 'a) deng = "('w daemon, 'a) eng"

record 'w skill_sync_env =
  ks_skill :: "'w daemon skill_env"
  ks_pages :: "nat \<Rightarrow> string option \<Rightarrow> ('w, page_response) deng"
  ks_project :: "'w daemon project_env"
  ks_delivery :: bool
  ks_getAgentProject :: "('w, string option) deng"
  ks_sleep :: "('w, unit) deng"

definition da_modify :: "('w daemon \<Rightarrow> 'w daemon) \<Rightarrow> ('w, unit) deng" where
  "da_modify f = emodify (\<lambda>s. s\<lparr>en_world := f (en_world s)\<rparr>)"

definition en_healthSet :: "health_area \<Rightarrow> string \<Rightarrow> string \<Rightarrow> ('w, unit) eng" where
  "en_healthSet area resource message = emodify (\<lambda>s. s\<lparr>en_health := health_set area resource message False (en_health s)\<rparr>)"

definition en_healthClear :: "health_area \<Rightarrow> string \<Rightarrow> ('w, unit) eng" where
  "en_healthClear area resource = emodify (\<lambda>s. s\<lparr>en_health := health_clear area resource (en_health s)\<rparr>)"

definition en_clearScans :: "('w, unit) eng" where
  "en_clearScans = emodify (\<lambda>s. s\<lparr>en_health := health_clearAbsent Push ''skill_scan:'' [] (en_health s)\<rparr>)"

section \<open>Stopping the daemon\<close>

definition stop_process :: "('w, unit) deng" where
  "stop_process =
     ethen (da_modify (\<lambda>d. d\<lparr>da_exitCode := Some 2, da_supervised := False\<rparr>))
       (emodify (\<lambda>s. s\<lparr>en_aborted := True\<rparr>))"

definition stopDisconnectedAgent :: "string \<Rightarrow> ('w, unit) deng" where
  "stopDisconnectedAgent hint = ethen (da_modify (\<lambda>d. d\<lparr>da_vaultRevoked := True\<rparr>)) stop_process"

definition final_heartbeat :: "'w daemon engine \<Rightarrow> hb_body" where
  "final_heartbeat s =
     \<lparr>hb_queue_depth = highWaterMark (en_queue s), hb_dropped_count_delta = 0,
      hb_last_revision_seen = da_lastSeenRevision (en_world s), hb_last_sync_error = health_project (en_health s),
      hb_runtime_observed = None\<rparr>"

definition triggerAuthFailureAbort :: "string \<Rightarrow> ('w, unit) deng" where
  "triggerAuthFailureAbort origin =
     ebind (egets (\<lambda>s. da_authFailureFired (en_world s))) (\<lambda>fired.
       if fired then eret ()
       else ethen (da_modify (\<lambda>d. d\<lparr>da_authFailureFired := True, da_vaultRevoked := True\<rparr>))
         (ethen (en_healthSet Transport ''auth'' ''auth_revoked: api key rejected by server'')
           (ethen (emodify (\<lambda>s. s\<lparr>en_world := (en_world s)\<lparr>da_finalHeartbeat := Some (final_heartbeat s)\<rparr>\<rparr>)) stop_process)))"

definition handleStartupFailure :: "'w skill_sync_env \<Rightarrow> sync_error \<Rightarrow> ('w, bool) deng" where
  "handleStartupFailure env error =
     (case agentLookupStopHint (sv_parse (ks_skill env)) error of
        Some hint \<Rightarrow> ethen (stopDisconnectedAgent hint) (eret True)
      | None \<Rightarrow>
          if \<not> isAuthFailure error then eret False
          else ethen (da_modify (\<lambda>d. d\<lparr>da_vaultRevoked := True\<rparr>)) (ethen stop_process (eret True)))"

section \<open>The Project of the Agent\<close>

definition fetchDefaultProjectId :: "'w skill_sync_env \<Rightarrow> engine_opts \<Rightarrow> ('w, string) deng" where
  "fetchDefaultProjectId env opts =
     ecatch
       (ebind (ks_getAgentProject env) (\<lambda>projectId.
          if or_else projectId [] = []
          then ethrow (PlainError (''environment '' @ op_environmentId opts @ '' has no default_project_id; cannot upload''))
          else eret (the projectId)))
       (\<lambda>error. case agentLookupStopHint (sv_parse (ks_skill env)) error of
          Some hint \<Rightarrow> ethen (stopDisconnectedAgent hint) (ethrow error)
        | None \<Rightarrow> ethrow error)"

section \<open>Project Skills\<close>

text \<open>The loop of \<open>reconcileProjectSkills\<close>: it goes on while a request came in.\<close>

fun project_rounds :: "'w skill_sync_env \<Rightarrow> engine_opts \<Rightarrow> nat \<Rightarrow> ('w, unit) deng" where
  "project_rounds env opts 0 = eret ()"
| "project_rounds env opts (Suc n) =
     ebind (egets (\<lambda>s. da_projectDue (en_world s) \<and> \<not> en_aborted s)) (\<lambda>due.
       if \<not> due then eret ()
       else ethen (da_modify (\<lambda>d. d\<lparr>da_projectDue := False\<rparr>))
         (ethen (reconcileConnectedProjectSkills (ks_project env) (op_agentType opts) (op_environmentId opts))
           (project_rounds env opts n)))"

definition reconcileProjectSkills :: "'w skill_sync_env \<Rightarrow> engine_opts \<Rightarrow> nat \<Rightarrow> ('w, unit) deng" where
  "reconcileProjectSkills env opts n =
     (if \<not> ks_delivery env then eret ()
      else ethen (da_modify (\<lambda>d. d\<lparr>da_projectDue := True\<rparr>)) (project_rounds env opts n))"

text \<open>A caught failure: a revoked key stops the daemon and is thrown on, another one is only shown.\<close>

definition stop_or_show :: "health_area \<Rightarrow> string \<Rightarrow> string \<Rightarrow> sync_error \<Rightarrow> ('w, unit) deng" where
  "stop_or_show area resource pre error =
     (if isAuthFailure error then ethen (triggerAuthFailureAbort ''skill_sync'') (ethrow error)
      else en_healthSet area resource (pre @ toErrorMessage error))"

definition sync_project_skills :: "'w skill_sync_env \<Rightarrow> engine_opts \<Rightarrow> nat \<Rightarrow> ('w, unit) deng" where
  "sync_project_skills env opts n =
     ecatch (ethen (reconcileProjectSkills env opts n) (en_healthClear Projection ''project_skills''))
       (stop_or_show Projection ''project_skills'' ''Project Skills: '')"

section \<open>Preparing the module\<close>

definition load_claims :: "'w skill_sync_env \<Rightarrow> engine_opts \<Rightarrow> string \<Rightarrow> ('w, unit) deng" where
  "load_claims env opts projectId =
     emodify (\<lambda>s. s\<lparr>en_pushed := readSkillProjectionState (sv_parse (ks_skill env)) (op_agentType opts) (op_environmentId opts)
        projectId (en_skillsLock s)\<rparr>)"

text \<open>The answer is the Project of the binding, \<^term>\<open>None\<close> when the preparation was given up.\<close>

definition initial_sync :: "'w skill_sync_env \<Rightarrow> engine_opts \<Rightarrow> string \<Rightarrow> ('w, string option) deng" where
  "initial_sync env opts projectId =
     ecatch
       (ebind (initialAgentProjectionSync (ks_skill env) (ks_pages env) opts projectId) (\<lambda>found.
          ethen (case found of
                   None \<Rightarrow> eret ()
                 | Some (revision, etag) \<Rightarrow> da_modify (\<lambda>d. d\<lparr>da_lastSeenRevision := Some revision, da_listingEtag := Some etag\<rparr>))
            (eret (Some projectId))))
       (\<lambda>e. if isAuthFailure e then ethen (triggerAuthFailureAbort ''initial_sync'') (eret None) else ethrow e)"

definition prepareSkillSync :: "'w skill_sync_env \<Rightarrow> engine_opts \<Rightarrow> nat \<Rightarrow> ('w, string option) deng" where
  "prepareSkillSync env opts n =
     ebind (fetchDefaultProjectId env opts) (\<lambda>projectId.
       ethen (load_claims env opts projectId)
         (ethen (if ks_delivery env then sync_project_skills env opts n else eret ())
           (initial_sync env opts projectId)))"

text \<open>A preparation under the \<open>failed\<close> callback of \<open>runSyncEngine\<close>.\<close>

definition skills_attempt :: "'w skill_sync_env \<Rightarrow> engine_opts \<Rightarrow> nat \<Rightarrow> ('w, string option) deng" where
  "skills_attempt env opts n =
     ecatch (prepareSkillSync env opts n)
       (\<lambda>error. ethen (if isAuthFailure error then triggerAuthFailureAbort ''skills_sync'' else eret ()) (ethrow error))"

section \<open>Callbacks of the running module\<close>

definition onLocalChange :: "'w skill_sync_env \<Rightarrow> engine_opts \<Rightarrow> string \<Rightarrow> string \<Rightarrow> ('w, unit) deng" where
  "onLocalChange env opts projectId skillKey =
     ecatch (ethen (enqueueIfChanged (ks_skill env) opts skillKey projectId) (en_healthClear Push (''skill_scan:'' @ skillKey)))
       (\<lambda>e. en_healthSet Push (''skill_scan:'' @ skillKey) (''skill '' @ skillKey @ '' scan: '' @ toErrorMessage e))"

fun inventory_rounds :: "'w skill_sync_env \<Rightarrow> engine_opts \<Rightarrow> string \<Rightarrow> nat \<Rightarrow> ('w, unit) deng" where
  "inventory_rounds env opts projectId 0 = eret ()"
| "inventory_rounds env opts projectId (Suc n) =
     ebind (egets (\<lambda>s. da_inventoryDue (en_world s) \<and> \<not> en_aborted s)) (\<lambda>due.
       if \<not> due then eret ()
       else ethen (da_modify (\<lambda>d. d\<lparr>da_inventoryDue := False\<rparr>))
         (ethen (reconcileAgentSkillProjection (ks_skill env) opts projectId []) (inventory_rounds env opts projectId n)))"

text \<open>The scan that a change of the inventory starts when none is running.\<close>

definition onSkillInventoryChanged :: "'w skill_sync_env \<Rightarrow> engine_opts \<Rightarrow> string \<Rightarrow> nat \<Rightarrow> ('w, unit) deng" where
  "onSkillInventoryChanged env opts projectId n =
     ethen (da_modify (\<lambda>d. d\<lparr>da_inventoryDue := True\<rparr>))
       (ecatch
         (ethen (inventory_rounds env opts projectId n) (ethen (en_healthClear Push ''skills_scan'') en_clearScans))
         (stop_or_show Push ''skills_scan'' ''skills scan: ''))"

definition event_scan :: "'w skill_sync_env \<Rightarrow> engine_opts \<Rightarrow> string \<Rightarrow> string \<Rightarrow> int \<Rightarrow> ('w, unit) deng" where
  "event_scan env opts projectId skillKey revision =
     ethen (da_modify (\<lambda>d. d\<lparr>da_lastSeenRevision := Some revision\<rparr>))
       (ecatch
         (ethen (reconcileAgentSkillProjection (ks_skill env) opts projectId [skillKey])
           (ethen (en_healthClear Push (''skill_scan:'' @ skillKey)) en_clearScans))
         (stop_or_show Push (''skill_scan:'' @ skillKey) (''skill '' @ skillKey @ '' scan: '')))"

definition onServerEvent :: "'w skill_sync_env \<Rightarrow> engine_opts \<Rightarrow> string \<Rightarrow> nat \<Rightarrow> server_event \<Rightarrow> ('w, unit) deng" where
  "onServerEvent env opts projectId n event =
     (case event of
        Runtime_vaults_changed _ \<Rightarrow> eret ()
      | Runtime_manifest_changed environmentId \<Rightarrow>
          if environmentId \<noteq> op_environmentId opts \<or> \<not> ks_delivery env then eret () else sync_project_skills env opts n
      | Skill_event _ _ _ revision \<Rightarrow>
          (case skillInvalidationKey event projectId of
             None \<Rightarrow> eret ()
           | Some skillKey \<Rightarrow> event_scan env opts projectId skillKey revision))"

section \<open>Loops of the running module\<close>

definition STALE_PROJECT_THRESHOLD :: nat where
  "STALE_PROJECT_THRESHOLD = 3"

text \<open>One refresh: the failures in a row after it, or \<^term>\<open>None\<close> when the loop is left.\<close>

definition refresh_failed :: "'w skill_sync_env \<Rightarrow> nat \<Rightarrow> sync_error \<Rightarrow> ('w, nat option) deng" where
  "refresh_failed env failures e =
     (case agentLookupStopHint (sv_parse (ks_skill env)) e of
        Some hint \<Rightarrow> ethen (stopDisconnectedAgent hint) (eret None)
      | None \<Rightarrow>
          if isAuthFailure e then ethen (triggerAuthFailureAbort ''project_refresh'') (eret None)
          else ethen (if failures + 1 \<ge> STALE_PROJECT_THRESHOLD
              then en_healthSet Transport ''project_refresh'' (''project_refresh: '' @ toErrorMessage e) else eret ())
            (eret (Some (failures + 1))))"

definition refresh_project :: "'w skill_sync_env \<Rightarrow> engine_opts \<Rightarrow> string \<Rightarrow> nat \<Rightarrow> ('w, nat option) deng" where
  "refresh_project env opts projectId failures =
     ecatch
       (ebind (fetchDefaultProjectId env opts) (\<lambda>fresh.
          ethen (en_healthClear Transport ''project_refresh'')
            (if fresh \<noteq> projectId
             then ethen (da_modify (\<lambda>d. d\<lparr>da_scopeRetired := True\<rparr>)) (ethen (emodify (\<lambda>s. s\<lparr>en_aborted := True\<rparr>)) (eret None))
             else eret (Some 0))))
       (refresh_failed env failures)"

fun refreshDefaultProjectIdLoop :: "'w skill_sync_env \<Rightarrow> engine_opts \<Rightarrow> string \<Rightarrow> nat \<Rightarrow> nat \<Rightarrow> ('w, unit) deng" where
  "refreshDefaultProjectIdLoop env opts projectId failures 0 = eret ()"
| "refreshDefaultProjectIdLoop env opts projectId failures (Suc n) =
     ebind (egets en_aborted) (\<lambda>aborted.
       if aborted then eret ()
       else ethen (ks_sleep env) (ebind (egets en_aborted) (\<lambda>aborted.
         if aborted then eret ()
         else ebind (refresh_project env opts projectId failures) (\<lambda>r.
           case r of None \<Rightarrow> eret () | Some k \<Rightarrow> refreshDefaultProjectIdLoop env opts projectId k n))))"

text \<open>One cycle of the safety net. Its failures are only shown.\<close>

definition listing_caught_up :: "catch_up \<Rightarrow> ('w, unit) deng" where
  "listing_caught_up catchUp =
     (if cu_complete catchUp
      then ethen (da_modify (\<lambda>d. d\<lparr>da_listingEtag := cu_etag catchUp, da_lastSeenRevision := cu_revision catchUp\<rparr>))
        (en_healthClear Projection ''listing'')
      else en_healthSet Projection ''listing'' ''reconcile: cloud skill listing was incomplete or unfenced'')"

definition reconcile_cycle :: "'w skill_sync_env \<Rightarrow> engine_opts \<Rightarrow> string \<Rightarrow> nat \<Rightarrow> ('w, unit) deng" where
  "reconcile_cycle env opts projectId n =
     ecatch
       (ethen (reconcileProjectSkills env opts n)
       (ethen (en_healthClear Projection ''project_skills'')
       (ethen (reconcileAgentSkillProjection (ks_skill env) opts projectId [])
       (ethen en_clearScans
       (ebind (egets (\<lambda>s. da_listingEtag (en_world s))) (\<lambda>previousEtag.
        ebind (reconcileAgentSkillProjectionListing (ks_skill env) (ks_pages env) opts projectId previousEtag True) (\<lambda>catchUp.
          ethen (listing_caught_up catchUp) (en_healthClear Push ''skills_scan''))))))))
       (\<lambda>e. en_healthSet Push ''skills_scan'' (''skills scan: '' @ toErrorMessage e))"

fun reconcile_loop :: "'w skill_sync_env \<Rightarrow> engine_opts \<Rightarrow> string \<Rightarrow> nat \<Rightarrow> nat \<Rightarrow> ('w, unit) deng" where
  "reconcile_loop env opts projectId n 0 = eret ()"
| "reconcile_loop env opts projectId n (Suc k) =
     ebind (egets en_aborted) (\<lambda>aborted.
       if aborted then eret ()
       else ethen (ks_sleep env) (ebind (egets en_aborted) (\<lambda>aborted.
         if aborted then eret ()
         else ethen (reconcile_cycle env opts projectId n) (reconcile_loop env opts projectId n k))))"

end
