(* ===== verification/ProjectReconcileLaws.thy ===== *)
theory ProjectReconcileLaws
  imports ProjectReconcile
begin

text \<open>
  The Project Skill transaction: it is undone as a whole when a step fails, and it never touches a
  Skill that is not its own.
\<close>

section \<open>The ledger operations of the engine\<close>

abbreviation slot :: "string \<Rightarrow> string \<Rightarrow> string" where
  "slot agentType key \<equiv> projectSkillMaterializationCacheKey agentType key"

abbreviation lock_receipts :: "'w project_env \<Rightarrow> 'w engine \<Rightarrow> string \<Rightarrow> materialization option" where
  "lock_receipts env s \<equiv> receipts (pj_parse env) (en_skillsLock s)"

abbreviation ledger_sound :: "'w project_env \<Rightarrow> 'w engine \<Rightarrow> bool" where
  "ledger_sound env s \<equiv> ledger_ok (pj_parse env) (en_skillsLock s)"

text \<open>Two states that differ in the ledger only.\<close>

definition same_but_ledger :: "'w engine \<Rightarrow> 'w engine \<Rightarrow> bool" where
  "same_but_ledger s s' \<longleftrightarrow> s' = s\<lparr>en_skillsLock := en_skillsLock s'\<rparr>"

lemma same_but_ledger_world: "same_but_ledger s s' \<Longrightarrow> en_world s' = en_world s"
  unfolding same_but_ledger_def by (metis engine.select_convs(10) engine.surjective engine.update_convs(2))

lemma same_but_ledger_set [simp]: "same_but_ledger s (s\<lparr>en_skillsLock := d\<rparr>)" "same_but_ledger s s"
  by (simp_all add: same_but_ledger_def)

lemma record_run:
  assumes "json_file_codec (pj_parse env)" and "ledger_sound env s" and "ledger_record env i s = (r, s')"
  shows "same_but_ledger s s' \<and> ledger_sound env s' \<and>
    (case r of Inl e \<Rightarrow> s' = s
     | Inr _ \<Rightarrow> assert_materialization_input i = Inr () \<and>
         lock_receipts env s' = (lock_receipts env s)(materialization_key i \<mapsto> materialization_of i))"
proof (cases "recordProjectSkillMaterialization (pj_parse env) True i (en_skillsLock s)")
  case (Inl e)
  then show ?thesis using assms(2,3) by (auto simp: ledger_record_def ledger_put_def)
next
  case (Inr d)
  then show ?thesis
    using assms(3) json_file_codec.record_receipt [OF assms(1,2) Inr] by (auto simp: ledger_record_def ledger_put_def)
qed

lemma receipt_removed:
  assumes "json_file_codec parse" and "ledger_ok parse data" and "removeExactProjectSkillMaterialization parse True i data = Inr (removed, data')"
  shows "ledger_ok parse data' \<and>
    (if removed then receipts parse data' = (receipts parse data)(materialization_key i := None) else data' = data) \<and>
    (receipts parse data (materialization_key i) = Some (materialization_of i) \<and> mi_reconcileAgentId i \<noteq> Some [] \<longrightarrow> removed)"
proof -
  let ?lock = "readSkillsLock parse data"
  let ?lock' = "?lock\<lparr>sl_materializations := map_delete (materialization_key i) (sl_materializations ?lock)\<rparr>"
  have ok: "SkillsLockLaws.lock_ok ?lock'" by (rule lock_ok_delete_materialization [OF ledger_ok_lock [OF assms(2)]])
  have mine: "same_local i (materialization_of i) \<and> same_source i (materialization_of i)"
    by (simp add: same_local_def same_source_def materialization_of_def)
  have agent: "mi_reconcileAgentId i \<noteq> Some [] \<Longrightarrow> mt_reconcile_agent_id (materialization_of i) = mi_reconcileAgentId i"
    by (simp add: materialization_of_def split: option.split)
  have "removed \<Longrightarrow> commit_lock True ?lock' = Inr data'" and "\<not> removed \<Longrightarrow> data' = data"
    and "receipts parse data (materialization_key i) = Some (materialization_of i) \<Longrightarrow> mi_reconcileAgentId i \<noteq> Some [] \<Longrightarrow> removed"
    using assms(3) mine agent
    by (auto simp: removeExactProjectSkillMaterialization_def remove_receipt_def bind_res_Inr_iff Let_def
        split: option.splits if_splits)
  then show ?thesis
    using json_file_codec.committed_receipts [OF assms(1) ok] json_file_codec.read_committed(2) [OF assms(1) ok] assms(2)
    by (auto simp: fun_eq_iff)
qed

lemma remove_run:
  assumes "json_file_codec (pj_parse env)" and "ledger_sound env s" and "ledger_remove env i s = (r, s')"
  shows "same_but_ledger s s' \<and> ledger_sound env s' \<and>
    (case r of Inl e \<Rightarrow> s' = s
     | Inr removed \<Rightarrow>
         (if removed then lock_receipts env s' = (lock_receipts env s)(materialization_key i := None) else s' = s) \<and>
         (lock_receipts env s (materialization_key i) = Some (materialization_of i) \<and> mi_reconcileAgentId i \<noteq> Some [] \<longrightarrow> removed))"
proof (cases "removeExactProjectSkillMaterialization (pj_parse env) True i (en_skillsLock s)")
  case (Inl e)
  then show ?thesis using assms(2,3) by (auto simp: ledger_remove_def)
next
  case (Inr x)
  then obtain removed d where x: "removeExactProjectSkillMaterialization (pj_parse env) True i (en_skillsLock s) = Inr (removed, d)"
    by (cases x) auto
  then have "r = Inr removed" "s' = s\<lparr>en_skillsLock := d\<rparr>" using assms(3) by (auto simp: ledger_remove_def)
  with receipt_removed [OF assms(1,2) x] show ?thesis by (cases removed) auto
qed

text \<open>Undoing a receipt keeps the ledger well-formed.\<close>

context json_file_codec
begin

lemma rollback_sound:
  assumes "ledger_ok parse data" and "\<forall>p. previous = Some p \<longrightarrow> materialization_ok (materialization_key i) p"
    and "rollback_materialization parse True i previous data = Inr data'"
  shows "ledger_ok parse data'"
proof -
  let ?lock = "readSkillsLock parse data"
  let ?lock' = "?lock\<lparr>sl_materializations := (case previous of
      Some p \<Rightarrow> map_set (materialization_key i) p (sl_materializations ?lock)
    | None \<Rightarrow> map_delete (materialization_key i) (sl_materializations ?lock))\<rparr>"
  have "SkillsLockLaws.lock_ok ?lock'"
    using assms(2) ledger_ok_lock [OF assms(1)]
    by (cases previous) (simp_all add: lock_ok_set_materialization lock_ok_delete_materialization)
  moreover have "data' = data \<or> commit_lock True ?lock' = Inr data'"
    using assms(3) by (auto simp: rollback_materialization_def Let_def split: option.splits if_splits)
  ultimately show ?thesis using assms(1) read_committed(2) by blast
qed

end

section \<open>Undoing\<close>

fun change_key :: "applied_change \<Rightarrow> string" where
  "change_key (Installed new _) = mi_localSkillKey new"
| "change_key (Removed p) = mi_localSkillKey (pr_input p)"

fun change_prior :: "applied_change \<Rightarrow> prior_materialization option" where
  "change_prior (Installed _ p) = p"
| "change_prior (Removed p) = Some p"

text \<open>The folders: \<open>files w key\<close> is the content of a Skill folder, if there is a Skill, and \<open>unpack\<close> that of an
  archive. For a key of \<open>K\<close>, installing and removing act on the folder of that key only; one that fails may
  leave that folder in any state.\<close>

definition folder_ops :: "string set \<Rightarrow> ('w \<Rightarrow> string \<Rightarrow> 'c option) \<Rightarrow> (string \<Rightarrow> 'c) \<Rightarrow> 'w project_env \<Rightarrow> bool" where
  "folder_ops K files unpack env \<longleftrightarrow>
     (\<forall>key\<in>K. \<forall>a s. case pj_writeArchive env key a s of (r, s') \<Rightarrow> en_skillsLock s' = en_skillsLock s \<and>
        (if isl r then \<forall>k. k \<noteq> key \<longrightarrow> files (en_world s') k = files (en_world s) k
         else files (en_world s') = (files (en_world s))(key \<mapsto> unpack a))) \<and>
     (\<forall>key\<in>K. \<forall>s. case pj_remove env key s of (r, s') \<Rightarrow> en_skillsLock s' = en_skillsLock s \<and>
        (if isl r then \<forall>k. k \<noteq> key \<longrightarrow> files (en_world s') k = files (en_world s) k
         else files (en_world s') = (files (en_world s))(key := None))) \<and>
     (\<forall>key s. case pj_folderHash env key s of (r, s') \<Rightarrow> en_skillsLock s' = en_skillsLock s \<and> files (en_world s') = files (en_world s))"

lemma folder_opsD:
  assumes "folder_ops K files unpack env"
  shows "key \<in> K \<Longrightarrow> pj_writeArchive env key a s = (r, s') \<Longrightarrow> en_skillsLock s' = en_skillsLock s \<and>
      (if isl r then \<forall>k. k \<noteq> key \<longrightarrow> files (en_world s') k = files (en_world s) k
       else files (en_world s') = (files (en_world s))(key \<mapsto> unpack a))"
    and "key \<in> K \<Longrightarrow> pj_remove env key s = (u, s') \<Longrightarrow> en_skillsLock s' = en_skillsLock s \<and>
      (if isl u then \<forall>k. k \<noteq> key \<longrightarrow> files (en_world s') k = files (en_world s) k
       else files (en_world s') = (files (en_world s))(key := None))"
    and "pj_folderHash env key s = (h, s') \<Longrightarrow> en_skillsLock s' = en_skillsLock s \<and> files (en_world s') = files (en_world s)"
  using assms unfolding folder_ops_def by (metis (mono_tags, lifting) case_prod_conv)+

text \<open>An installation or removal of \<open>key\<close> that failed with \<open>e\<close> and left the folder of \<open>key\<close> changed.\<close>

definition torn :: "('w \<Rightarrow> string \<Rightarrow> 'c option) \<Rightarrow> 'w project_env \<Rightarrow> string \<Rightarrow> sync_error \<Rightarrow> bool" where
  "torn files env key e \<longleftrightarrow> (\<exists>s s'. ((\<exists>a. pj_writeArchive env key a s = (Inl e, s')) \<or> pj_remove env key s = (Inl e, s')) \<and>
     files (en_world s') key \<noteq> files (en_world s) key)"

text \<open>What one applied change remembers of the folders and receipts \<open>b0\<close> it leads back to, and finds in the state \<open>s\<close>.\<close>

type_synonym 'c base = "(string \<Rightarrow> 'c option) \<times> (string \<Rightarrow> materialization option)"

definition remembers :: "string set \<Rightarrow> ('w \<Rightarrow> string \<Rightarrow> 'c option) \<Rightarrow> (string \<Rightarrow> 'c) \<Rightarrow> 'w project_env \<Rightarrow> string \<Rightarrow> 'c base \<Rightarrow> 'w engine \<Rightarrow>
    applied_change \<Rightarrow> bool" where
  "remembers K files unpack env agentType b0 s c \<longleftrightarrow> change_key c \<in> K \<and>
     (case change_prior c of
        Some p \<Rightarrow> mi_localSkillKey (pr_input p) = change_key c \<and> mi_agentType (pr_input p) = agentType \<and>
          fst b0 (change_key c) = Some (unpack (pr_archive p)) \<and>
          snd b0 (slot agentType (change_key c)) = Some (materialization_of (pr_input p))
      | None \<Rightarrow> (\<exists>new. c = Installed new None \<and> mi_agentType new = agentType \<and> mi_reconcileAgentId new \<noteq> Some [] \<and>
          fst b0 (change_key c) = None \<and> snd b0 (slot agentType (change_key c)) = None \<and>
          lock_receipts env s (slot agentType (change_key c)) = Some (materialization_of new)))"

text \<open>\<open>s\<close> has the folders and receipts \<open>b0\<close> but for the changes \<open>applied\<close>, which know how to lead back.\<close>

definition undoable :: "string set \<Rightarrow> ('w \<Rightarrow> string \<Rightarrow> 'c option) \<Rightarrow> (string \<Rightarrow> 'c) \<Rightarrow> 'w project_env \<Rightarrow> string \<Rightarrow> 'c base \<Rightarrow> applied_change list \<Rightarrow>
    'w engine \<Rightarrow> bool" where
  "undoable K files unpack env agentType b0 applied s \<longleftrightarrow>
     ledger_sound env s \<and> distinct (map change_key applied) \<and>
     (\<forall>c\<in>set applied. remembers K files unpack env agentType b0 s c) \<and>
     (\<forall>k. k \<notin> change_key ` set applied \<longrightarrow> files (en_world s) k = fst b0 k) \<and>
     (\<forall>x. x \<notin> slot agentType ` change_key ` set applied \<longrightarrow> lock_receipts env s x = snd b0 x)"

lemma undoable_start: "ledger_sound env s \<Longrightarrow> undoable K files unpack env agentType (files (en_world s), lock_receipts env s) [] s"
  by (simp add: undoable_def)

lemma undoable_end:
  "undoable K files unpack env agentType b0 [] s \<Longrightarrow>
     files (en_world s) = fst b0 \<and> lock_receipts env s = snd b0"
  by (auto simp: undoable_def fun_eq_iff)

lemma remembers_frame:
  "remembers K files unpack env agentType b0 s c \<Longrightarrow>
     lock_receipts env s' (slot agentType (change_key c)) = lock_receipts env s (slot agentType (change_key c)) \<Longrightarrow>
     remembers K files unpack env agentType b0 s' c"
  by (auto simp: remembers_def split: option.splits)

text \<open>A state that differs only at \<open>key\<close>, its folder and its receipt.\<close>

definition only_at :: "('w \<Rightarrow> string \<Rightarrow> 'c option) \<Rightarrow> 'w project_env \<Rightarrow> string \<Rightarrow> string \<Rightarrow> 'w engine \<Rightarrow> 'w engine \<Rightarrow> bool" where
  "only_at files env agentType key s s' \<longleftrightarrow>
     ledger_sound env s' \<and> (\<forall>k. k \<noteq> key \<longrightarrow> files (en_world s') k = files (en_world s) k) \<and>
     (\<forall>x. x \<noteq> slot agentType key \<longrightarrow> lock_receipts env s' x = lock_receipts env s x)"

lemma undoable_unchanged:
  assumes "undoable K files unpack env agentType b0 applied s" and "ledger_sound env s'"
    and "files (en_world s') = files (en_world s)" and "lock_receipts env s' = lock_receipts env s"
  shows "undoable K files unpack env agentType b0 applied s'"
  using assms(1) remembers_frame [of K files unpack env agentType b0 s _ s'] by (auto simp: undoable_def assms)

lemma undoableD:
  assumes "undoable K files unpack env agentType b0 applied s"
  shows "ledger_sound env s" and "distinct (map change_key applied)"
    and "c \<in> set applied \<Longrightarrow> remembers K files unpack env agentType b0 s c"
    and "k \<notin> change_key ` set applied \<Longrightarrow> files (en_world s) k = fst b0 k"
    and "x \<notin> slot agentType ` change_key ` set applied \<Longrightarrow> lock_receipts env s x = snd b0 x"
  using assms unfolding undoable_def by blast+

lemma undoableI:
  assumes "ledger_sound env s" and "distinct (map change_key applied)"
    and "\<And>c. c \<in> set applied \<Longrightarrow> remembers K files unpack env agentType b0 s c"
    and "\<And>k. k \<notin> change_key ` set applied \<Longrightarrow> files (en_world s) k = fst b0 k"
    and "\<And>x. x \<notin> slot agentType ` change_key ` set applied \<Longrightarrow> lock_receipts env s x = snd b0 x"
  shows "undoable K files unpack env agentType b0 applied s"
  unfolding undoable_def using assms by blast

lemma only_atD:
  assumes "only_at files env agentType key s s'"
  shows "ledger_sound env s'" and "k \<noteq> key \<Longrightarrow> files (en_world s') k = files (en_world s) k"
    and "x \<noteq> slot agentType key \<Longrightarrow> lock_receipts env s' x = lock_receipts env s x"
  using assms unfolding only_at_def by blast+

lemma still_remembered:
  assumes "undoable K files unpack env agentType b0 applied s" and "only_at files env agentType (change_key c) s s'"
    and "d \<in> set applied" and "change_key d \<noteq> change_key c"
  shows "remembers K files unpack env agentType b0 s' d"
  using undoableD(3) [OF assms(1,3)] by (rule remembers_frame) (use only_atD(3) [OF assms(2)] assms(4) in simp)

lemma undoable_apply:
  assumes un: "undoable K files unpack env agentType b0 applied s" and at: "only_at files env agentType (change_key c) s s'"
    and new: "change_key c \<notin> change_key ` set applied" and rem: "remembers K files unpack env agentType b0 s' c"
  shows "undoable K files unpack env agentType b0 (applied @ [c]) s'"
proof (rule undoableI)
  show "distinct (map change_key (applied @ [c]))" using undoableD(2) [OF un] new by auto
  have other: "d \<in> set applied \<Longrightarrow> change_key d \<noteq> change_key c" for d using new by (metis imageI)
  show "remembers K files unpack env agentType b0 s' d" if "d \<in> set (applied @ [c])" for d
    using that still_remembered [OF un at, of d] rem other [of d] by (cases "d \<in> set applied") auto
  show "files (en_world s') k = fst b0 k" if "k \<notin> change_key ` set (applied @ [c])" for k
  proof -
    have "k \<noteq> change_key c" "k \<notin> change_key ` set applied" using that by auto
    from only_atD(2) [OF at this(1)] undoableD(4) [OF un this(2)] show ?thesis by (rule trans)
  qed
  show "lock_receipts env s' x = snd b0 x" if "x \<notin> slot agentType ` change_key ` set (applied @ [c])" for x
  proof -
    have "x \<noteq> slot agentType (change_key c)" "x \<notin> slot agentType ` change_key ` set applied" using that by auto
    from only_atD(3) [OF at this(1)] undoableD(5) [OF un this(2)] show ?thesis by (rule trans)
  qed
qed (rule only_atD(1) [OF at])

text \<open>An operation on a key without a recorded change, that failed: \<open>s'\<close> leads back to the folders as they
  were, or to them with whatever it left of that one folder.\<close>

definition undoable_but :: "string set \<Rightarrow> ('w \<Rightarrow> string \<Rightarrow> 'c option) \<Rightarrow> (string \<Rightarrow> 'c) \<Rightarrow> 'w project_env \<Rightarrow> string \<Rightarrow> 'c base \<Rightarrow>
    applied_change list \<Rightarrow> sync_error option \<Rightarrow> 'w engine \<Rightarrow> bool" where
  "undoable_but K files unpack env agentType b0 applied failed s \<longleftrightarrow>
     undoable K files unpack env agentType b0 applied s \<or>
     (\<exists>key v e. failed = Some e \<and> torn files env key e \<and> undoable K files unpack env agentType ((fst b0)(key := v), snd b0) applied s)"

lemma undoable_torn:
  assumes un: "undoable K files unpack env agentType b0 applied s" and fresh: "key \<notin> change_key ` set applied"
    and s': "ledger_sound env s'" "\<And>k. k \<noteq> key \<Longrightarrow> files (en_world s') k = files (en_world s) k" "lock_receipts env s' = lock_receipts env s"
    and e: "files (en_world s') key \<noteq> files (en_world s) key \<Longrightarrow> torn files env key e"
  shows "undoable_but K files unpack env agentType b0 applied (Some e) s'"
proof (cases "files (en_world s') key = files (en_world s) key")
  case True
  then have "files (en_world s') = files (en_world s)" using s'(2) by (metis ext)
  from undoable_unchanged [OF un s'(1) this s'(3)] show ?thesis by (simp add: undoable_but_def)
next
  case False
  have "undoable K files unpack env agentType ((fst b0)(key := files (en_world s') key), snd b0) applied s'"
  proof (rule undoableI)
    show "remembers K files unpack env agentType ((fst b0)(key := files (en_world s') key), snd b0) s' c" if "c \<in> set applied" for c
    proof -
      have "change_key c \<noteq> key" using fresh that by blast
      then show ?thesis using undoableD(3) [OF un that] by (auto simp: remembers_def s'(3) split: option.splits)
    qed
    show "files (en_world s') k = fst ((fst b0)(key := files (en_world s') key), snd b0) k" if "k \<notin> change_key ` set applied" for k
      using s'(2) [of k] undoableD(4) [OF un that] by simp
    show "lock_receipts env s' x = snd ((fst b0)(key := files (en_world s') key), snd b0) x"
      if "x \<notin> slot agentType ` change_key ` set applied" for x
      using undoableD(5) [OF un that] by (simp add: s'(3))
  qed (use s'(1) undoableD(2) [OF un] in simp_all)
  with e [OF False] show ?thesis by (auto simp: undoable_but_def)
qed

lemma undoable_undo:
  assumes un: "undoable K files unpack env agentType b0 (applied @ [c]) s" and at: "only_at files env agentType (change_key c) s s'"
    and folder: "files (en_world s') (change_key c) = fst b0 (change_key c)"
    and receipt: "lock_receipts env s' (slot agentType (change_key c)) = snd b0 (slot agentType (change_key c))"
  shows "undoable K files unpack env agentType b0 applied s'"
proof (rule undoableI)
  have d: "distinct (map change_key applied)" "change_key c \<notin> change_key ` set applied" using undoableD(2) [OF un] by auto
  then show "distinct (map change_key applied)" by simp
  have other: "e \<in> set applied \<Longrightarrow> change_key e \<noteq> change_key c" for e using d(2) by (metis imageI)
  show "remembers K files unpack env agentType b0 s' e" if "e \<in> set applied" for e
    using still_remembered [OF un at, of e] that other [OF that] by simp
  show "files (en_world s') k = fst b0 k" if k: "k \<notin> change_key ` set applied" for k
  proof (cases "k = change_key c")
    case False
    then have "k \<notin> change_key ` set (applied @ [c])" using k by auto
    from only_atD(2) [OF at False] undoableD(4) [OF un this] show ?thesis by (rule trans)
  qed (use folder in simp)
  show "lock_receipts env s' x = snd b0 x" if x: "x \<notin> slot agentType ` change_key ` set applied" for x
  proof (cases "x = slot agentType (change_key c)")
    case False
    then have "x \<notin> slot agentType ` change_key ` set (applied @ [c])" using x by auto
    from only_atD(3) [OF at False] undoableD(5) [OF un this] show ?thesis by (rule trans)
  qed (use receipt in simp)
qed (rule only_atD(1) [OF at])

lemma key_slot: "mi_agentType i = agentType \<Longrightarrow> materialization_key i = slot agentType (mi_localSkillKey i)"
  by (simp add: materialization_key_def)

lemma ethen_ok: "ethen m n s = (Inr a, s') \<longleftrightarrow> (\<exists>b s1. m s = (Inr b, s1) \<and> n s1 = (Inr a, s'))"
  by (auto simp: ethen_def ebind_def split: prod.splits sum.splits)

lemma put_back:
  assumes codec: "json_file_codec (pj_parse env)" and ops: "folder_ops K files unpack env" and sound: "ledger_sound env s"
    and key: "key \<in> K" "mi_localSkillKey (pr_input p) = key" "mi_agentType (pr_input p) = agentType"
    and run: "ethen (pj_writeArchive env key (pr_archive p)) (ledger_record env (pr_input p)) s = (Inr u, s')"
  shows "only_at files env agentType key s s' \<and> files (en_world s') key = Some (unpack (pr_archive p)) \<and>
    lock_receipts env s' (slot agentType key) = Some (materialization_of (pr_input p))"
proof -
  obtain b s1 where w: "pj_writeArchive env key (pr_archive p) s = (Inr b, s1)" and r: "ledger_record env (pr_input p) s1 = (Inr u, s')"
    using run by (auto simp: ethen_ok)
  note w1 = folder_opsD(1) [OF ops key(1) w]
  have "ledger_sound env s1" using sound w1 by simp
  note r1 = record_run [OF codec this r]
  have "materialization_key (pr_input p) = slot agentType key" using key by (simp add: key_slot)
  then show ?thesis using w1 r1 same_but_ledger_world [of s1 s'] by (auto simp: only_at_def)
qed

lemma undo_step:
  assumes codec: "json_file_codec (pj_parse env)" and ops: "folder_ops K files unpack env"
    and un: "undoable K files unpack env agentType b0 (applied @ [c]) s" and run: "undo_change env c s = (Inr u, s')"
  shows "undoable K files unpack env agentType b0 applied s'"
proof (cases "change_prior c")
  case (Some p)
  have sound: "ledger_sound env s" and rem: "remembers K files unpack env agentType b0 s c" using un by (simp_all add: undoable_def)
  have key: "change_key c \<in> K" "mi_localSkillKey (pr_input p) = change_key c" "mi_agentType (pr_input p) = agentType"
    and old: "fst b0 (change_key c) = Some (unpack (pr_archive p))"
      "snd b0 (slot agentType (change_key c)) = Some (materialization_of (pr_input p))"
    using rem Some by (simp_all add: remembers_def)
  have "ethen (pj_writeArchive env (change_key c) (pr_archive p)) (ledger_record env (pr_input p)) s = (Inr u, s')"
    using run Some key(2) by (cases c) auto
  from put_back [OF codec ops sound key this] show ?thesis using undoable_undo [OF un, of s'] old by simp
next
  case None
  have sound: "ledger_sound env s" and rem: "remembers K files unpack env agentType b0 s c" using un by (simp_all add: undoable_def)
  obtain new where c: "c = Installed new None" and ty: "mi_agentType new = agentType" "mi_reconcileAgentId new \<noteq> Some []"
    and inK: "mi_localSkillKey new \<in> K" and old: "fst b0 (change_key c) = None" "snd b0 (slot agentType (change_key c)) = None"
    and cur: "lock_receipts env s (slot agentType (change_key c)) = Some (materialization_of new)"
    using rem None by (auto simp: remembers_def)
  have mk: "materialization_key new = slot agentType (change_key c)" using ty c by (simp add: key_slot)
  obtain b1 b2 s1 where w: "pj_remove env (mi_localSkillKey new) s = (Inr b1, s1)" and r: "ledger_remove env new s1 = (Inr b2, s')"
    using run c by (auto simp: ethen_ok eret_def)
  note w1 = folder_opsD(2) [OF ops inK w]
  have "ledger_sound env s1" using sound w1 by simp
  note r1 = remove_run [OF codec this r]
  have "lock_receipts env s1 (materialization_key new) = Some (materialization_of new)" using cur w1 mk by simp
  then have "b2" using r1 ty by simp
  then have "only_at files env agentType (change_key c) s s' \<and> files (en_world s') (change_key c) = None \<and>
      lock_receipts env s' (slot agentType (change_key c)) = None"
    using w1 r1 same_but_ledger_world [of s1 s'] mk c by (auto simp: only_at_def)
  then show ?thesis using undoable_undo [OF un, of s'] old by simp
qed

lemma undo_all_errors: "undo_all env cs errors s = (Inr out, s') \<Longrightarrow> \<exists>more_errors. out = errors @ more_errors"
proof (induction cs arbitrary: errors s)
  case Nil
  then show ?case by (simp add: eret_def)
next
  case (Cons c cs)
  then show ?case by (fastforce simp: ebind_def split: prod.splits sum.splits)
qed

lemma undo_all_restores:
  assumes "json_file_codec (pj_parse env)" and "folder_ops K files unpack env"
    and "undoable K files unpack env agentType b0 applied s" and "undo_all env (rev applied) [] s = (Inr [], s')"
  shows "undoable K files unpack env agentType b0 [] s'"
  using assms(3,4)
proof (induction applied arbitrary: s rule: rev_induct)
  case Nil
  then show ?case by (simp add: eret_def)
next
  case (snoc c applied)
  obtain r s1 where undo: "undo_change env c s = (r, s1)" by fastforce
  show ?case
  proof (cases r)
    case (Inl e)
    then show ?thesis using snoc.prems(2) undo undo_all_errors [of env "rev applied" "[toErrorMessage e]" s1]
      by (auto simp: ebind_def ecatch_def ethen_def eret_def)
  next
    case (Inr u)
    then have "undo_all env (rev applied) [] s1 = (Inr [], s')"
      using snoc.prems(2) undo by (simp add: ebind_def ecatch_def ethen_def eret_def)
    then show ?thesis using snoc.IH undo_step [OF assms(1,2) snoc.prems(1)] undo Inr by blast
  qed
qed

section \<open>Applying\<close>

lemma attempt_run:
  "attempt_change applied m k s = (case m s of (Inl e, s1) \<Rightarrow> (Inr (applied, Some e), s1) | (Inr a, s1) \<Rightarrow> k a s1)"
  by (auto simp: attempt_change_def ebind_def ecatch_def eret_def split: prod.split sum.split)

text \<open>A commit installs the bytes and the receipt, or no receipt and at most a torn folder.\<close>

lemma commit_run:
  assumes codec: "json_file_codec (pj_parse env)" and ops: "folder_ops K files unpack env" and sound: "ledger_sound env s"
    and key: "mi_localSkillKey new = key" "mi_agentType new = agentType" and inK: "key \<in> K"
    and run: "ledger_commit env new (pj_writeArchive env key a) s = (r, s')"
  shows "case r of
      Inl e \<Rightarrow> ledger_sound env s' \<and> (\<forall>k. k \<noteq> key \<longrightarrow> files (en_world s') k = files (en_world s) k) \<and>
        lock_receipts env s' = lock_receipts env s \<and> (files (en_world s') key \<noteq> files (en_world s) key \<longrightarrow> torn files env key e)
    | Inr _ \<Rightarrow> only_at files env agentType key s s' \<and> mi_reconcileAgentId new \<noteq> Some [] \<and>
        lock_receipts env s' (slot agentType key) = Some (materialization_of new)"
proof (cases "readProjectSkillMaterialization (pj_parse env) new (en_skillsLock s)")
  case (Inl e)
  then show ?thesis using run sound by (auto simp: ledger_commit_def ledger_get_def ebind_def)
next
  case (Inr previous)
  have mk: "materialization_key new = slot agentType key" using key by (simp add: key_slot)
  have prev: "previous = lock_receipts env s (materialization_key new)"
    using Inr by (auto simp: read_receipt bind_res_Inr_iff)
  have start: "ledger_commit env new (pj_writeArchive env key a) s =
      ethen (ledger_record env new) (ecatch (pj_writeArchive env key a) (\<lambda>e.
        ethen (ledger_put (rollback_materialization (pj_parse env) True new previous)) (ethrow e))) s"
    using Inr by (simp add: ledger_commit_def ledger_get_def ebind_def)
  obtain r1 s1 where rec: "ledger_record env new s = (r1, s1)" by fastforce
  note rec1 = record_run [OF codec sound rec]
  show ?thesis
  proof (cases r1)
    case (Inl e)
    then show ?thesis using run rec rec1 sound unfolding start by (auto simp: ethen_def ebind_def)
  next
    case (Inr u)
    have v: "assert_materialization_input new = Inr ()" and sound1: "ledger_sound env s1" and world1: "en_world s1 = en_world s"
      and rec2: "lock_receipts env s1 = (lock_receipts env s)(materialization_key new \<mapsto> materialization_of new)"
      using rec1 Inr same_but_ledger_world by auto
    obtain r2 s2 where w: "pj_writeArchive env key a s1 = (r2, s2)" by fastforce
    note w1 = folder_opsD(1) [OF ops inK w]
    show ?thesis
    proof (cases r2)
      case (Inr b)
      then have "r = Inr b" "s' = s2" using run rec \<open>r1 = Inr u\<close> w unfolding start by (auto simp: ethen_def ebind_def ecatch_def)
      then show ?thesis using w1 Inr sound1 rec2 world1 mk assert_materialization_input_ok [OF v] by (auto simp: only_at_def)
    next
      case (Inl e)
      obtain d where d: "rollback_materialization (pj_parse env) True new previous (en_skillsLock s2) = Inr d"
        using rollback_owned_total by blast
      have res: "r = Inl e" "s' = s2\<lparr>en_skillsLock := d\<rparr>"
        using run rec \<open>r1 = Inr u\<close> w Inl d unfolding start
        by (auto simp: ethen_def ebind_def ecatch_def ledger_put_def ethrow_def)
      have pok: "\<forall>p. previous = Some p \<longrightarrow> materialization_ok (materialization_key new) p"
        using readSkillsLock_materializations_ok [of "pj_parse env" "en_skillsLock s"] map_get_SomeD prev by fast
      have "ledger_ok (pj_parse env) (en_skillsLock s2)" "receipts (pj_parse env) (en_skillsLock s2) (materialization_key new) =
          Some (materialization_of new)" using w1 sound1 rec2 by simp_all
      note undone = json_file_codec.rollback_restores [OF codec this v pok d]
      have "receipts (pj_parse env) d = lock_receipts env s"
        unfolding undone using w1 rec2 prev by (auto simp: fun_eq_iff)
      moreover have "ledger_ok (pj_parse env) d"
        by (rule json_file_codec.rollback_sound [OF codec _ pok d]) (use w1 sound1 in simp)
      moreover have "torn files env key e" if "files (en_world s2) key \<noteq> files (en_world s1) key"
        unfolding torn_def by (rule exI [of _ s1], rule exI [of _ s2]) (use w Inl that in auto)
      ultimately show ?thesis using res w1 Inl world1 by simp
    qed
  qed
qed

text \<open>What the plan of an installation or removal knows of the state before the transaction.\<close>

definition knows :: "string set \<Rightarrow> ('w \<Rightarrow> string \<Rightarrow> 'c option) \<Rightarrow> (string \<Rightarrow> 'c) \<Rightarrow> 'w project_env \<Rightarrow> string \<Rightarrow> 'c base \<Rightarrow> string \<Rightarrow>
    prior_materialization option \<Rightarrow> bool" where
  "knows K files unpack env agentType b0 key prior \<longleftrightarrow> key \<in> K \<and>
     (case prior of
        Some p \<Rightarrow> mi_localSkillKey (pr_input p) = key \<and> mi_agentType (pr_input p) = agentType \<and>
          fst b0 key = Some (unpack (pr_archive p)) \<and>
          snd b0 (slot agentType key) = Some (materialization_of (pr_input p))
      | None \<Rightarrow> fst b0 key = None \<and> snd b0 (slot agentType key) = None)"

lemma install_undoable:
  assumes codec: "json_file_codec (pj_parse env)" and ops: "folder_ops K files unpack env"
    and desired: "\<And>k d. map_get desiredByKey k = Some d \<Longrightarrow> de_skill_key d = k"
  shows "undoable K files unpack env agentType b0 applied s \<Longrightarrow> distinct (map fst work) \<Longrightarrow>
    fst ` set work \<inter> change_key ` set applied = {} \<Longrightarrow>
    \<forall>k\<in>fst ` set work. knows K files unpack env agentType b0 k (map_get priors k) \<Longrightarrow>
    \<exists>applied' failed s'. install_all env agentType agentId desiredByKey priors work applied s = (Inr (applied', failed), s') \<and>
      undoable_but K files unpack env agentType b0 applied' failed s' \<and>
      (failed = None \<longrightarrow> undoable K files unpack env agentType b0 applied' s') \<and>
      change_key ` set applied' \<subseteq> change_key ` set applied \<union> {k. map_has desiredByKey k}"
proof (induction work arbitrary: applied s)
  case Nil
  then show ?case by (auto simp: eret_def undoable_but_def)
next
  case (Cons w work)
  obtain key a where w: "w = (key, a)" by fastforce
  show ?case
  proof (cases "map_get desiredByKey key")
    case None
    then show ?thesis using Cons.prems w by (auto simp: eret_def undoable_but_def)
  next
    case (Some d)
    define new where "new = desiredInput agentType agentId d"
    have new: "mi_localSkillKey new = key" "mi_agentType new = agentType" using desired [OF Some] by (simp_all add: new_def desiredInput_def)
    let ?c = "Installed new (map_get priors key)"
    obtain r s1 where cm: "ledger_commit env new (pj_writeArchive env key a) s = (r, s1)" by fastforce
    have inK: "key \<in> K" using Cons.prems(4) w by (simp add: knows_def)
    note cm1 = commit_run [OF codec ops undoableD(1) [OF Cons.prems(1)] new inK cm]
    have key: "change_key ?c = key" "key \<notin> change_key ` set applied" using new Cons.prems(3) w by auto
    show ?thesis
    proof (cases r)
      case (Inl e)
      have "undoable_but K files unpack env agentType b0 applied (Some e) s1"
        by (rule undoable_torn [OF Cons.prems(1) key(2)]) (use cm1 Inl in auto)
      then show ?thesis using w Some cm Inl by (auto simp: attempt_run Let_def new_def)
    next
      case (Inr u)
      have "remembers K files unpack env agentType b0 s1 ?c"
        using Cons.prems(4) w cm1 Inr new by (auto simp: knows_def remembers_def split: option.splits)
      then have un1: "undoable K files unpack env agentType b0 (applied @ [?c]) s1"
        using undoable_apply [OF Cons.prems(1), of ?c s1] cm1 Inr key by simp
      obtain h s2 where hs: "pj_folderHash env key s1 = (h, s2)" by fastforce
      have un2: "undoable K files unpack env agentType b0 (applied @ [?c]) s2"
        using undoable_unchanged [OF un1, of s2] folder_opsD(3) [OF ops hs] undoableD(1) [OF un1] by simp
      have sub: "change_key ` set (applied @ [?c]) \<subseteq> change_key ` set applied \<union> {k. map_has desiredByKey k}"
        using Some key(1) by auto
      have rest: "distinct (map fst work)" "fst ` set work \<inter> change_key ` set (applied @ [?c]) = {}"
        "\<forall>k\<in>fst ` set work. knows K files unpack env agentType b0 k (map_get priors k)"
        using Cons.prems w key by auto
      let ?bad = "PlainError (''Project Skill '' @ key @ '' did not install with the expected content'')"
      have run: "install_all env agentType agentId desiredByKey priors (w # work) applied s =
          (case h of Inl e \<Rightarrow> (Inr (applied @ [?c], Some e), s2)
           | Inr installedHash \<Rightarrow> if installedHash \<noteq> de_content_hash d then (Inr (applied @ [?c], Some ?bad), s2)
               else install_all env agentType agentId desiredByKey priors work (applied @ [?c]) s2)"
        using Some cm Inr hs by (simp add: w attempt_run Let_def new_def eret_def split: sum.split)
      show ?thesis
      proof (cases "h = Inr (de_content_hash d)")
        case True
        obtain applied' failed s' where ih: "install_all env agentType agentId desiredByKey priors work (applied @ [?c]) s2 =
            (Inr (applied', failed), s')" "undoable_but K files unpack env agentType b0 applied' failed s'"
            "failed = None \<longrightarrow> undoable K files unpack env agentType b0 applied' s'"
            "change_key ` set applied' \<subseteq> change_key ` set (applied @ [?c]) \<union> {k. map_has desiredByKey k}"
          using Cons.IH [OF un2 rest] by blast
        then show ?thesis using run True sub by auto
      next
        case False
        then obtain e where "install_all env agentType agentId desiredByKey priors (w # work) applied s = (Inr (applied @ [?c], Some e), s2)"
          using run by (cases h) auto
        then show ?thesis using un2 sub by (auto simp: undoable_but_def)
      qed
    qed
  qed
qed

lemma remove_undoable:
  assumes codec: "json_file_codec (pj_parse env)" and ops: "folder_ops K files unpack env"
  shows "undoable K files unpack env agentType b0 applied s \<Longrightarrow> distinct (map (\<lambda>p. mi_localSkillKey (pr_input p)) work) \<Longrightarrow>
    \<forall>p\<in>set work. map_has desiredByKey (mi_localSkillKey (pr_input p)) \<or> mi_localSkillKey (pr_input p) \<notin> change_key ` set applied \<Longrightarrow>
    \<forall>p\<in>set work. knows K files unpack env agentType b0 (mi_localSkillKey (pr_input p)) (Some p) \<Longrightarrow>
    \<exists>applied' failed s'. remove_undesired env skipped desiredByKey work applied s = (Inr (applied', failed), s') \<and>
      undoable_but K files unpack env agentType b0 applied' failed s'"
proof (induction work arbitrary: applied s)
  case Nil
  then show ?case by (auto simp: eret_def undoable_but_def)
next
  case (Cons p work)
  let ?key = "mi_localSkillKey (pr_input p)"
  show ?case
  proof (cases "?key \<in> set skipped \<or> map_has desiredByKey ?key")
    case True
    then show ?thesis using Cons.IH [OF Cons.prems(1)] Cons.prems(2-4) by simp
  next
    case False
    then have fresh: "?key \<notin> change_key ` set applied" using Cons.prems(3) by simp
    obtain r s1 where rm: "pj_remove env ?key s = (r, s1)" by fastforce
    have inK: "?key \<in> K" using Cons.prems(4) by (simp add: knows_def)
    note rm1 = folder_opsD(2) [OF ops inK rm]
    have sound: "ledger_sound env s1" using undoableD(1) [OF Cons.prems(1)] rm1 by simp
    show ?thesis
    proof (cases r)
      case (Inl e)
      have "torn files env ?key e" if "files (en_world s1) ?key \<noteq> files (en_world s) ?key"
        unfolding torn_def by (rule exI [of _ s], rule exI [of _ s1]) (use rm Inl that in auto)
      then have "undoable_but K files unpack env agentType b0 applied (Some e) s1"
        using rm1 sound Inl by (intro undoable_torn [OF Cons.prems(1) fresh]) auto
      then show ?thesis using False rm Inl by (auto simp: attempt_run Let_def)
    next
      case (Inr u)
      have rem: "remembers K files unpack env agentType b0 s1 (Removed p)"
        using Cons.prems(4) by (auto simp: knows_def remembers_def)
      have at: "only_at files env agentType (change_key (Removed p)) s s1"
        using rm1 Inr sound by (auto simp: only_at_def)
      have un1: "undoable K files unpack env agentType b0 (applied @ [Removed p]) s1"
        using undoable_apply [OF Cons.prems(1) at _ rem] fresh by simp
      obtain q s2 where lr: "ledger_remove env (pr_input p) s1 = (q, s2)" by fastforce
      note lr1 = remove_run [OF codec sound lr]
      have mk: "materialization_key (pr_input p) = slot agentType ?key" using Cons.prems(4) by (simp add: knows_def key_slot)
      have at2: "only_at files env agentType (change_key (Removed p)) s1 s2"
        using lr1 mk same_but_ledger_world [of s1 s2] by (cases q) (auto simp: only_at_def split: if_splits)
      have un2: "undoable K files unpack env agentType b0 (applied @ [Removed p]) s2"
      proof -
        have "remembers K files unpack env agentType b0 s2 (Removed p)" using rem by (simp add: remembers_def)
        have at': "only_at files env agentType (change_key (Removed p)) s s2"
          using at at2 unfolding only_at_def by metis
        show ?thesis using undoable_apply [OF Cons.prems(1) at'] fresh \<open>remembers K files unpack env agentType b0 s2 (Removed p)\<close> by simp
      qed
      have rest: "distinct (map (\<lambda>p. mi_localSkillKey (pr_input p)) work)"
        "\<forall>x\<in>set work. map_has desiredByKey (mi_localSkillKey (pr_input x)) \<or> mi_localSkillKey (pr_input x) \<notin> change_key ` set (applied @ [Removed p])"
        "\<forall>x\<in>set work. knows K files unpack env agentType b0 (mi_localSkillKey (pr_input x)) (Some x)"
      proof -
        have "mi_localSkillKey (pr_input x) \<noteq> ?key" if "x \<in> set work" for x
        proof
          assume "mi_localSkillKey (pr_input x) = ?key"
          then have "?key \<in> (\<lambda>p. mi_localSkillKey (pr_input p)) ` set work" using that by (metis imageI)
          then show False using Cons.prems(2) by simp
        qed
        then show "\<forall>x\<in>set work. map_has desiredByKey (mi_localSkillKey (pr_input x)) \<or>
            mi_localSkillKey (pr_input x) \<notin> change_key ` set (applied @ [Removed p])" using Cons.prems(3) by simp
      qed (use Cons.prems in simp_all)
      from Cons.IH [OF un2 rest] un2 show ?thesis
        using False rm Inr lr by (cases q) (auto simp: attempt_run Let_def eret_def undoable_but_def)
    qed
  qed
qed

lemma apply_restores:
  assumes codec: "json_file_codec (pj_parse env)" and ops: "folder_ops K files unpack env" and sound: "ledger_sound env s"
    and desired: "\<And>k d. map_get desiredByKey k = Some d \<Longrightarrow> de_skill_key d = k"
    and downloads: "wf_map downloads" and priors: "wf_map priors" "\<forall>(k, p)\<in>set priors. mi_localSkillKey (pr_input p) = k"
    and know: "\<forall>k\<in>set (map_keys downloads) \<union> set (map_keys priors). knows K files unpack env agentType (files (en_world s), lock_receipts env s) k (map_get priors k)"
    and run: "apply_changes env agentType agentId desiredByKey priors skipped downloads s = (Inl e, s')"
    and e: "\<forall>errors. e \<noteq> rollback_error errors"
  shows "(files (en_world s') = files (en_world s) \<or>
      (\<exists>key. torn files env key e \<and> (\<forall>k. k \<noteq> key \<longrightarrow> files (en_world s') k = files (en_world s) k))) \<and>
    lock_receipts env s' = lock_receipts env s"
proof -
  let ?b0 = "(files (en_world s), lock_receipts env s)"
  let ?undoable = "undoable K files unpack env agentType ?b0" and ?but = "undoable_but K files unpack env agentType ?b0"
  let ?work = "sort_key (\<lambda>(key, _). pj_rank env key) downloads"
    and ?gone = "sort_key (\<lambda>p. pj_rank env (mi_localSkillKey (pr_input p))) (map_values priors)"
  have "distinct (map fst ?work)" using downloads by (simp add: wf_map_def distinct_map_sort_key)
  moreover have "\<forall>k\<in>fst ` set ?work. knows K files unpack env agentType ?b0 k (map_get priors k)" using know by simp
  ultimately obtain ap1 failed1 s1 where inst: "install_all env agentType agentId desiredByKey priors ?work [] s = (Inr (ap1, failed1), s1)"
    and un1: "?but ap1 failed1 s1" "failed1 = None \<longrightarrow> ?undoable ap1 s1" and sub: "change_key ` set ap1 \<subseteq> {k. map_has desiredByKey k}"
    using install_undoable [where desiredByKey = desiredByKey and agentType = agentType and s = s and work = ?work
        and priors = priors and agentId = agentId, OF codec ops desired undoable_start [OF sound]]
    by auto
  have keys: "map (\<lambda>p. mi_localSkillKey (pr_input p)) (map_values priors) = map_keys priors"
    using priors(2) by (auto simp: map_eq_conv split: prod.splits)
  have gone: "distinct (map (\<lambda>p. mi_localSkillKey (pr_input p)) ?gone)"
    using priors(1) by (intro distinct_map_sort_key) (simp only: keys wf_map_def)
  have "knows K files unpack env agentType ?b0 (mi_localSkillKey (pr_input p)) (Some p)" if "p \<in> set ?gone" for p
  proof -
    obtain k where kp: "(k, p) \<in> set priors" using \<open>p \<in> set ?gone\<close> by auto
    then have "map_get priors k = Some p" "mi_localSkillKey (pr_input p) = k" "k \<in> set (map_keys priors)"
      using priors by (auto simp: wf_map_def intro: map_of_is_SomeI rev_image_eqI)
    moreover from this(3) have "knows K files unpack env agentType ?b0 k (map_get priors k)" using know by blast
    ultimately show ?thesis by simp
  qed
  then have known: "\<forall>p\<in>set ?gone. knows K files unpack env agentType ?b0 (mi_localSkillKey (pr_input p)) (Some p)" by blast
  have fresh: "\<forall>p\<in>set ?gone. map_has desiredByKey (mi_localSkillKey (pr_input p)) \<or> mi_localSkillKey (pr_input p) \<notin> change_key ` set ap1"
    using sub by blast
  obtain ap2 failed2 s2 where mid: "(case failed1 of Some e \<Rightarrow> eret (ap1, Some e)
      | None \<Rightarrow> remove_undesired env skipped desiredByKey ?gone ap1) s1 = (Inr (ap2, failed2), s2)" and un2: "?but ap2 failed2 s2"
  proof (cases failed1)
    case None
    then have "?undoable ap1 s1" using un1(2) by simp
    from remove_undoable [OF codec ops this gone fresh known, of skipped] that None show ?thesis by auto
  next
    case (Some f1)
    then show ?thesis using that [of ap1 "Some f1" s1] un1(1) by (simp add: eret_def)
  qed
  have all: "apply_changes env agentType agentId desiredByKey priors skipped downloads s =
      (case failed2 of None \<Rightarrow> eret ()
       | Some e \<Rightarrow> ebind (undo_all env (rev ap2) []) (\<lambda>errors. if errors \<noteq> [] then ethrow (rollback_error errors) else ethrow e)) s2"
    using inst mid by (simp add: apply_changes_def ebind_def split: option.split)
  obtain f where f: "failed2 = Some f" using run all by (cases failed2) (auto simp: eret_def)
  obtain r s3 where undo: "undo_all env (rev ap2) [] s2 = (r, s3)" by fastforce
  have total: "\<exists>out s'. undo_all env cs errors s = (Inr out, s')" for cs errors s
    by (induction cs arbitrary: errors s) (auto simp: eret_def ebind_def ecatch_def split: prod.splits sum.splits)
  obtain out where r: "r = Inr out" using total [of "rev ap2" "[]" s2] undo by auto
  have out: "out = []" "s' = s3" "e = f" using run all f undo r e by (auto simp: ebind_def ethrow_def split: if_splits)
  have undone: "files (en_world s') = fst b1 \<and> lock_receipts env s' = snd b1"
    if "undoable K files unpack env agentType b1 ap2 s2" for b1
    using undoable_end [OF undo_all_restores [OF codec ops that, of s']] undo r out by simp
  from un2 show ?thesis unfolding undoable_but_def
  proof
    assume "?undoable ap2 s2"
    from undone [OF this] show ?thesis by simp
  next
    assume "\<exists>key v e. failed2 = Some e \<and> torn files env key e \<and>
      undoable K files unpack env agentType ((fst ?b0)(key := v), snd ?b0) ap2 s2"
    then obtain key v where key: "torn files env key e"
      and "undoable K files unpack env agentType ((fst ?b0)(key := v), snd ?b0) ap2 s2" using f out(3) by auto
    from undone [OF this(2)] key show ?thesis by auto
  qed
qed

section \<open>The adapter and the Cloud\<close>

text \<open>Computations that leave the Skill folders and the ledger as they are.\<close>

definition unmoved :: "('w \<Rightarrow> string \<Rightarrow> 'c option) \<Rightarrow> (string \<Rightarrow> 'c option) \<Rightarrow> lock_file \<Rightarrow> 'w engine \<Rightarrow> bool" where
  "unmoved files f l s \<longleftrightarrow> files (en_world s) = f \<and> en_skillsLock s = l"

text \<open>What the reconciliation relies on: reading changes nothing, a Skill exists when its folder has
  content, a snapshot is the content, the Cloud desires keys of \<open>K\<close> only, and the listing has every Skill of
  \<open>K\<close> that exists.\<close>

definition adapter_ops :: "string set \<Rightarrow> ('w \<Rightarrow> string \<Rightarrow> 'c option) \<Rightarrow> (string \<Rightarrow> 'c) \<Rightarrow> 'w project_env \<Rightarrow> bool" where
  "adapter_ops K files unpack env \<longleftrightarrow> folder_ops K files unpack env \<and>
     (\<forall>f l. let I = unmoved files f l in
        (\<forall>a. keeps I (pj_putCapability env a)) \<and> 
        (\<forall>a. valid I (pj_getDesired env a) (\<lambda>r s. I s \<and> (\<forall>d\<in>set (snd r). de_skill_key d \<in> K)) (\<lambda>_. I)) \<and>
        (\<forall>u. valid I (pj_requestStream env u) (\<lambda>r s. I s \<and> keeps I (ft_cancel r) \<and> keeps I (ft_bytes r)) (\<lambda>_. I)) \<and>
        keeps I (pj_mkdtemp env) \<and> (\<forall>d b. keeps I (pj_extractTarGz env d b)) \<and> (\<forall>d k. keeps I (pj_snapshotStage env d k)) \<and>
        (\<forall>d. keeps I (pj_rmStage env d)) \<and>
        valid I (pj_listKeys env) (\<lambda>keys s. I s \<and> (\<forall>k\<in>K. f k \<noteq> None \<longrightarrow> k \<in> set keys)) (\<lambda>_. I) \<and>
        (\<forall>k. valid I (pj_snapshotSkill env k) (\<lambda>r s. I s \<and> f k = Some (unpack (snd r))) (\<lambda>_. I))) \<and>
     (\<forall>k s. pj_exists env k s \<longleftrightarrow> files (en_world s) k \<noteq> None)"

lemma keeps_finally: "keeps I m \<Longrightarrow> keeps I f \<Longrightarrow> keeps I (efinally m f)"
  unfolding efinally_def by (intro keeps_flow)

lemma adapter_opsD:
  assumes "adapter_ops K files unpack env"
  shows "folder_ops K files unpack env" and "keeps (unmoved files f l) (pj_putCapability env a)"
    and "valid (unmoved files f l) (pj_getDesired env a) (\<lambda>r s. unmoved files f l s \<and> (\<forall>d\<in>set (snd r). de_skill_key d \<in> K)) (\<lambda>_. unmoved files f l)"
    and "valid (unmoved files f l) (pj_requestStream env u)
      (\<lambda>r s. unmoved files f l s \<and> keeps (unmoved files f l) (ft_cancel r) \<and> keeps (unmoved files f l) (ft_bytes r)) (\<lambda>_. unmoved files f l)"
    and "keeps (unmoved files f l) (pj_mkdtemp env)" and "keeps (unmoved files f l) (pj_extractTarGz env d b)"
    and "keeps (unmoved files f l) (pj_snapshotStage env d k)" and "keeps (unmoved files f l) (pj_rmStage env d)"
    and "valid (unmoved files f l) (pj_listKeys env) (\<lambda>keys s. unmoved files f l s \<and> (\<forall>k\<in>K. f k \<noteq> None \<longrightarrow> k \<in> set keys)) (\<lambda>_. unmoved files f l)"
    and "valid (unmoved files f l) (pj_snapshotSkill env k) (\<lambda>r s. unmoved files f l s \<and> f k = Some (unpack (snd r))) (\<lambda>_. unmoved files f l)"
    and "pj_exists env k s \<longleftrightarrow> files (en_world s) k \<noteq> None"
  using assms unfolding adapter_ops_def Let_def by blast+

lemma keeps_download:
  assumes "adapter_ops K files unpack env"
  shows "keeps (unmoved files f l) (downloadDesiredArchive env agentId d)"
proof -
  let ?I = "unmoved files f l"
  note D = adapter_opsD [OF assms]
  have check: "keeps ?I (check_archive env stage bytes d)" for stage bytes
    unfolding check_archive_def Let_def by (intro keeps_flow D)
  have inner: "valid (\<lambda>s. ?I s \<and> keeps ?I (ft_cancel response) \<and> keeps ?I (ft_bytes response))
      (if \<not> ft_ok response then ethen (ft_cancel response) (ethrow e)
       else ebind (ft_bytes response) (\<lambda>bytes. ebind (pj_mkdtemp env) (\<lambda>stage.
         efinally (check_archive env stage bytes d) (pj_rmStage env stage)))) (\<lambda>_. ?I) (\<lambda>_. ?I)" for response e
  proof (cases "keeps ?I (ft_cancel response) \<and> keeps ?I (ft_bytes response)")
    case True
    then have "keeps ?I (if \<not> ft_ok response then ethen (ft_cancel response) (ethrow e)
       else ebind (ft_bytes response) (\<lambda>bytes. ebind (pj_mkdtemp env) (\<lambda>stage.
         efinally (check_archive env stage bytes d) (pj_rmStage env stage))))"
      by (intro keeps_flow keeps_finally check D) auto
    then show ?thesis using True by (simp add: keeps_def)
  next
    case False
    then show ?thesis unfolding valid_def by blast
  qed
  show ?thesis
    unfolding downloadDesiredArchive_def keeps_def
    by (rule valid_bind [OF keeps_lift [unfolded keeps_def]], rule valid_bind [OF D(4)], rule inner)
qed

section \<open>The phases before the transaction\<close>

lemma prior_receipt:
  "mt_agent_type r = agentType \<Longrightarrow> mt_reconcile_agent_id r = Some agentId \<Longrightarrow> agentId \<noteq> [] \<Longrightarrow>
     materialization_of (priorInput agentType agentId r) = r"
  by (simp add: materialization_of_def priorInput_def)

definition owned_by :: "'w project_env \<Rightarrow> string \<Rightarrow> string \<Rightarrow> lock_file \<Rightarrow> materialization \<Rightarrow> bool" where
  "owned_by env agentType agentId l r \<longleftrightarrow> mt_agent_type r = agentType \<and> mt_reconcile_agent_id r = Some agentId \<and> agentId \<noteq> [] \<and>
     receipts (pj_parse env) l (slot agentType (mt_local_skill_key r)) = Some r"

lemma owned_listed:
  assumes "r \<in> set (readProjectSkillMaterializationsForReconcile (pj_parse env) agentType agentId l)"
  shows "owned_by env agentType agentId l r"
proof -
  obtain k where kr: "(k, r) \<in> set (sl_materializations (readSkillsLock (pj_parse env) l))"
    and r: "mt_agent_type r = agentType" "mt_reconcile_agent_id r = Some agentId"
    using assms by (auto simp: readProjectSkillMaterializationsForReconcile_def)
  then have "materialization_ok k r" "wf_map (sl_materializations (readSkillsLock (pj_parse env) l))"
    using readSkillsLock_materializations_ok [of "pj_parse env" l] by auto
  with kr r show ?thesis by (auto simp: owned_by_def materialization_ok_def wf_map_def)
qed

lemma owned_exists:
  assumes "receipts (pj_parse env) l (slot agentType key) = Some r" and "mt_reconcile_agent_id r = Some agentId"
  shows "r \<in> set (readProjectSkillMaterializationsForReconcile (pj_parse env) agentType agentId l) \<and> mt_local_skill_key r = key"
proof -
  have "(slot agentType key, r) \<in> set (sl_materializations (readSkillsLock (pj_parse env) l))" using map_get_SomeD [OF assms(1)] .
  moreover from this have "materialization_ok (slot agentType key) r"
    using readSkillsLock_materializations_ok [of "pj_parse env" l] by auto
  ultimately show ?thesis
    using assms(2) by (auto simp: readProjectSkillMaterializationsForReconcile_def materialization_ok_def image_iff intro!: bexI)
qed

definition survey_ok :: "string set \<Rightarrow> (string \<Rightarrow> 'c) \<Rightarrow> 'w project_env \<Rightarrow> string \<Rightarrow> lock_file \<Rightarrow> (string \<Rightarrow> 'c option) \<Rightarrow> survey \<Rightarrow> bool" where
  "survey_ok K unpack env agentType l f y \<longleftrightarrow> wf_map (sy_priors y) \<and> (\<forall>k\<in>set (sy_missing y). f k = None) \<and>
     (\<forall>(k, p)\<in>set (sy_priors y). k \<in> K \<and> mi_localSkillKey (pr_input p) = k \<and> mi_agentType (pr_input p) = agentType \<and>
        f k = Some (unpack (pr_archive p)) \<and> receipts (pj_parse env) l (slot agentType k) = Some (materialization_of (pr_input p)))"

lemma survey_ok_prior:
  assumes "survey_ok K unpack env agentType l f y" and "owned_by env agentType agentId l r" and "mt_local_skill_key r \<in> K" and "f (mt_local_skill_key r) = Some (unpack a)"
  shows "survey_ok K unpack env agentType l f (y\<lparr>sy_priors := map_set (mt_local_skill_key r)
    \<lparr>pr_input = priorInput agentType agentId r, pr_archive = a\<rparr> (sy_priors y)\<rparr>)"
proof -
  have "materialization_of (priorInput agentType agentId r) = r" using assms(2) by (intro prior_receipt) (simp_all add: owned_by_def)
  then show ?thesis
    using assms set_map_set_subset [of "mt_local_skill_key r" "\<lparr>pr_input = priorInput agentType agentId r, pr_archive = a\<rparr>" "sy_priors y"]
    by (fastforce simp: survey_ok_def owned_by_def priorInput_def)
qed

text \<open>Every owned receipt ends up as a prior, as missing, or skipped.\<close>

definition accounted :: "survey \<Rightarrow> string \<Rightarrow> bool" where
  "accounted y k \<longleftrightarrow> k \<in> set (sy_missing y) \<or> k \<in> set (sy_skipped y) \<or> map_has (sy_priors y) k"

lemma survey_facts:
  assumes "adapter_ops K files unpack env"
  shows "\<forall>r\<in>set owned. owned_by env agentType agentId l r \<and> mt_local_skill_key r \<in> K \<Longrightarrow> survey_ok K unpack env agentType l f y \<Longrightarrow>
    valid (unmoved files f l) (survey_receipts env agentType agentId owned y)
      (\<lambda>y' s. unmoved files f l s \<and> survey_ok K unpack env agentType l f y' \<and>
         (\<forall>k. accounted y k \<longrightarrow> accounted y' k) \<and> (\<forall>r\<in>set owned. accounted y' (mt_local_skill_key r)))
      (\<lambda>_. unmoved files f l)"
proof (induction owned arbitrary: y)
  case Nil
  then show ?case by (simp add: valid_def eret_def)
next
  case (Cons r owned)
  let ?I = "unmoved files f l" and ?key = "mt_local_skill_key r"
  let ?ok = "\<lambda>y' s. ?I s \<and> survey_ok K unpack env agentType l f y' \<and>
         (\<forall>k. accounted y k \<longrightarrow> accounted y' k) \<and> (\<forall>r\<in>set (r # owned). accounted y' (mt_local_skill_key r))"
  have own: "owned_by env agentType agentId l r" "mt_local_skill_key r \<in> K"
    and rest: "\<forall>r\<in>set owned. owned_by env agentType agentId l r \<and> mt_local_skill_key r \<in> K" using Cons.prems(1) by simp_all
  have go: "valid ?I (survey_receipts env agentType agentId owned y1) ?ok (\<lambda>_. ?I)"
    if "survey_ok K unpack env agentType l f y1" "\<And>k. accounted y k \<Longrightarrow> accounted y1 k" "accounted y1 ?key" for y1
    by (rule valid_post [OF Cons.IH [OF rest that(1)]]) (use that(2,3) in auto)
  have shot: "valid ?I (snapshotOwnedTarget env (priorInput agentType agentId r))
      (\<lambda>a s. ?I s \<and> (\<forall>x. a = Some x \<longrightarrow> f ?key = Some (unpack x))) (\<lambda>_. ?I)"
    unfolding snapshotOwnedTarget_def Let_def
    by (rule valid_bind [OF keeps_gets [unfolded keeps_def]], rule valid_if, simp add: valid_def ethrow_def,
        rule valid_bind [OF adapter_opsD(10) [OF assms]])
      (auto simp: valid_def eret_def priorInput_def)
  show ?case
    unfolding survey_receipts.simps Let_def
  proof (rule valid_bind [where R = "\<lambda>b s. ?I s \<and> (b \<longleftrightarrow> f ?key \<noteq> None)"], goal_cases)
    case 1
    then show ?case using adapter_opsD(11) [OF assms] by (auto simp: valid_def egets_def unmoved_def)
  next
    case (2 present)
    have gone: "valid ?I (survey_receipts env agentType agentId owned (y\<lparr>sy_missing := set_add ?key (sy_missing y)\<rparr>)) ?ok (\<lambda>_. ?I)"
      if "f ?key = None"
      by (rule go) (use Cons.prems(2) that in \<open>auto simp: survey_ok_def accounted_def set_add_def\<close>)
    have keep: "valid ?I (survey_receipts env agentType agentId owned y) ?ok (\<lambda>_. ?I)" if "?key \<in> set (sy_skipped y)"
      by (rule go) (use Cons.prems(2) that in \<open>auto simp: accounted_def\<close>)
    have found: "valid (\<lambda>s. ?I s \<and> (\<forall>x. a = Some x \<longrightarrow> f ?key = Some (unpack x)))
        (survey_receipts env agentType agentId owned (case a of
            Some x \<Rightarrow> y\<lparr>sy_priors := map_set ?key \<lparr>pr_input = priorInput agentType agentId r, pr_archive = x\<rparr> (sy_priors y)\<rparr>
          | None \<Rightarrow> y\<lparr>sy_skipped := set_add ?key (sy_skipped y)\<rparr>)) ?ok (\<lambda>_. ?I)" for a
    proof (cases a)
      case None
      then show ?thesis
        by (intro valid_pre [OF go]) (use Cons.prems(2) in \<open>auto simp: survey_ok_def accounted_def set_add_def\<close>)
    next
      case (Some x)
      show ?thesis
      proof (cases "f ?key = Some (unpack x)")
        case True
        show ?thesis unfolding Some option.case
          by (rule valid_pre [OF go [OF survey_ok_prior [OF Cons.prems(2) own True]]]) (auto simp: accounted_def)
      next
        case False
        then show ?thesis using Some by (auto simp: valid_def)
      qed
    qed
    show ?case
    proof (cases "f ?key = None")
      case True
      show ?thesis by (rule valid_if, rule valid_pre [OF gone [OF True]]) (auto simp: valid_def True)
    next
      case False
      show ?thesis
        by (rule valid_if, simp add: valid_def False, rule valid_if, rule valid_pre [OF keep], assumption, simp,
            rule valid_pre [OF valid_bind [OF shot found]]) simp
    qed
  qed
qed

text \<open>A key that may be installed: free, or held for this Agent.\<close>

definition may_install :: "'w project_env \<Rightarrow> string \<Rightarrow> string \<Rightarrow> lock_file \<Rightarrow> string list \<Rightarrow> string \<Rightarrow> bool" where
  "may_install env agentType agentId l localKeys k \<longleftrightarrow>
     (case receipts (pj_parse env) l (slot agentType k) of
        None \<Rightarrow> k \<notin> set localKeys | Some r \<Rightarrow> mt_reconcile_agent_id r = Some agentId)"

lemma keys_of_set: "set (map_keys (map_set k v m)) = insert k (set (map_keys m))"
  by simp

lemma download_facts:
  assumes "adapter_ops K files unpack env"
  shows "distinct (map de_skill_key ds) \<Longrightarrow> set (map de_skill_key ds) \<subseteq> K \<Longrightarrow> wf_map downloads \<Longrightarrow> set (map_keys downloads) \<inter> set (map de_skill_key ds) = {} \<Longrightarrow>
    set (map_keys downloads) \<inter> set skipped = {} \<Longrightarrow>
    valid (unmoved files f l) (download_desired env agentType agentId localKeys missing ds skipped downloads)
      (\<lambda>(skipped', downloads') s. unmoved files f l s \<and> wf_map downloads' \<and> set skipped \<subseteq> set skipped' \<and>
         set (map_keys downloads') \<inter> set skipped' = {} \<and>
         (\<forall>k\<in>set (map_keys downloads'). k \<in> set (map_keys downloads) \<or>
            k \<in> K \<and> may_install env agentType agentId l localKeys k))
      (\<lambda>_. unmoved files f l)"
proof (induction ds arbitrary: skipped downloads)
  case Nil
  then show ?case by (simp add: valid_def eret_def)
next
  case (Cons d ds)
  let ?I = "unmoved files f l" and ?key = "de_skill_key d"
  let ?free = "may_install env agentType agentId l localKeys"
  let ?ok = "\<lambda>(skipped', downloads') s. ?I s \<and> wf_map downloads' \<and> set skipped \<subseteq> set skipped' \<and>
         set (map_keys downloads') \<inter> set skipped' = {} \<and> (\<forall>k\<in>set (map_keys downloads'). k \<in> set (map_keys downloads) \<or> k \<in> K \<and> ?free k)"
  have pass: "valid ?I (download_desired env agentType agentId localKeys missing ds skipped downloads) ?ok (\<lambda>_. ?I)"
    using Cons.prems by (intro Cons.IH) auto
  have skip: "valid ?I (download_desired env agentType agentId localKeys missing ds (set_add ?key skipped) downloads) ?ok (\<lambda>_. ?I)"
    by (rule valid_post [OF Cons.IH]) (use Cons.prems in \<open>auto simp: set_add_def\<close>)
  have get: "valid ?I (download_desired env agentType agentId localKeys missing ds skipped (map_set ?key a downloads)) ?ok (\<lambda>_. ?I)"
    if "?free ?key" "?key \<notin> set skipped" for a
    by (rule valid_post [OF Cons.IH]) (use Cons.prems that in \<open>auto simp: keys_of_set simp del: set_map split: prod.splits\<close>)
  have ask: "valid ?I (ledger_get (readProjectSkillMaterialization (pj_parse env) \<lparr>mi_agentType = agentType, mi_localSkillKey = ?key\<rparr>))
      (\<lambda>r s. ?I s \<and> r = receipts (pj_parse env) l (slot agentType ?key)) (\<lambda>_. ?I)"
    by (auto simp: valid_def ledger_get_def read_receipt unmoved_def bind_res_Inr_iff materialization_key_def split: sum.split)
  have exact: "keeps ?I (if b then eret False else ledger_get g)" for b and g :: "lock_file \<Rightarrow> lock_error + bool"
    by (auto simp: keeps_iff ledger_get_def eret_def split: sum.split)
  have fetch: "keeps ?I (downloadDesiredArchive env agentId d)" by (rule keeps_download [OF assms])
  have held: "(receipts (pj_parse env) l (slot agentType ?key) = None \<and> ?key \<in> set localKeys \<or>
      (case receipts (pj_parse env) l (slot agentType ?key) of Some r \<Rightarrow> mt_reconcile_agent_id r \<noteq> Some agentId | None \<Rightarrow> False)) =
      (\<not> ?free ?key)" by (auto simp: may_install_def split: option.split)
  show ?case
    unfolding download_desired.simps Let_def
  proof (rule valid_if)
    show "valid ?I (download_desired env agentType agentId localKeys missing ds skipped downloads) ?ok (\<lambda>_. ?I)" by (rule pass)
  next
    assume new: "?key \<notin> set skipped"
    let ?next = "ebind (if ?key \<in> set missing then eret False
        else ledger_get (hasExactProjectSkillMaterialization (pj_parse env) (desiredInput agentType agentId d))) (\<lambda>have.
          if have then download_desired env agentType agentId localKeys missing ds skipped downloads
          else ebind (downloadDesiredArchive env agentId d) (\<lambda>archive.
            download_desired env agentType agentId localKeys missing ds skipped (map_set ?key archive downloads)))"
    have go: "valid ?I ?next ?ok (\<lambda>_. ?I)" if "?free ?key"
      by (rule valid_bind [OF exact [unfolded keeps_def]], rule valid_if [OF pass], rule valid_bind [OF fetch [unfolded keeps_def]],
          rule get [OF that new])
    have "valid (\<lambda>s. ?I s \<and> r = receipts (pj_parse env) l (slot agentType ?key))
        (if r = None \<and> ?key \<in> set localKeys \<or> (case r of None \<Rightarrow> False | Some r \<Rightarrow> mt_reconcile_agent_id r \<noteq> Some agentId)
         then download_desired env agentType agentId localKeys missing ds (set_add ?key skipped) downloads else ?next) ?ok (\<lambda>_. ?I)" for r
    proof (cases "r = receipts (pj_parse env) l (slot agentType ?key)")
      case True
      show ?thesis
        unfolding True held by (rule valid_if, rule valid_pre [OF skip], simp only:, rule valid_pre [OF go], simp only: not_not, simp only:)
    next
      case False
      then show ?thesis by (simp add: valid_def)
    qed
    then show "valid ?I (ebind (ledger_get (readProjectSkillMaterialization (pj_parse env)
          \<lparr>mi_agentType = agentType, mi_localSkillKey = ?key\<rparr>)) (\<lambda>r.
        if r = None \<and> ?key \<in> set localKeys \<or> (case r of None \<Rightarrow> False | Some r \<Rightarrow> mt_reconcile_agent_id r \<noteq> Some agentId)
        then download_desired env agentType agentId localKeys missing ds (set_add ?key skipped) downloads else ?next)) ?ok (\<lambda>_. ?I)"
      by (rule valid_bind [OF ask])
  qed
qed

text \<open>Forgetting the receipts of Skills whose folder is gone.\<close>

definition forgotten :: "'w project_env \<Rightarrow> string \<Rightarrow> string list \<Rightarrow> string list \<Rightarrow> 'w engine \<Rightarrow> 'w engine \<Rightarrow> bool" where
  "forgotten env agentType skipped missing s s' \<longleftrightarrow> same_but_ledger s s' \<and> ledger_sound env s' \<and>
     (\<forall>x. lock_receipts env s' x = lock_receipts env s x \<or>
        lock_receipts env s' x = None \<and> x \<in> slot agentType ` (set missing - set skipped))"

lemma same_but_ledger_trans: "same_but_ledger a b \<Longrightarrow> same_but_ledger b c \<Longrightarrow> same_but_ledger a c"
  by (cases a; cases b; cases c) (auto simp: same_but_ledger_def)

lemma forget_facts:
  assumes codec: "json_file_codec (pj_parse env)" and agent: "agentId \<noteq> []"
  shows "ledger_sound env s \<Longrightarrow>
    \<forall>r\<in>set owned. mt_agent_type r = agentType \<and> mt_reconcile_agent_id r = Some agentId \<and>
      (lock_receipts env s (slot agentType (mt_local_skill_key r)) = Some r \<or> lock_receipts env s (slot agentType (mt_local_skill_key r)) = None) \<Longrightarrow>
    forget_missing env agentType agentId skipped missing owned s = (res, s') \<Longrightarrow>
    forgotten env agentType skipped missing s s' \<and>
    (\<not> isl res \<longrightarrow> (\<forall>r\<in>set owned. mt_local_skill_key r \<in> set missing - set skipped \<longrightarrow>
       lock_receipts env s' (slot agentType (mt_local_skill_key r)) = None))"
proof (induction owned arbitrary: s)
  case Nil
  then show ?case by (simp add: forgotten_def eret_def)
next
  case (Cons r owned)
  let ?key = "mt_local_skill_key r"
  show ?case
  proof (cases "?key \<in> set skipped \<or> ?key \<notin> set missing")
    case True
    then have "forget_missing env agentType agentId skipped missing owned s = (res, s')" using Cons.prems(3) by (simp add: Let_def)
    then show ?thesis using Cons.IH [OF Cons.prems(1)] Cons.prems(2) True by auto
  next
    case False
    obtain q s1 where lr: "ledger_remove env (priorInput agentType agentId r) s = (q, s1)" by fastforce
    note lr1 = remove_run [OF codec Cons.prems(1) lr]
    have mk: "materialization_key (priorInput agentType agentId r) = slot agentType ?key" by (simp add: key_slot priorInput_def)
    have mine: "materialization_of (priorInput agentType agentId r) = r"
      using Cons.prems(2) agent by (intro prior_receipt) auto
    have id: "mi_reconcileAgentId (priorInput agentType agentId r) \<noteq> Some []" using agent by (simp add: priorInput_def)
    have one: "forgotten env agentType skipped missing s s1"
      using lr1 mk False Cons.prems(1) by (cases q) (auto simp: forgotten_def split: if_splits)
    show ?thesis
    proof (cases q)
      case (Inl e)
      then have "res = Inl e" "s' = s1" using Cons.prems(3) False lr by (auto simp: Let_def ebind_def)
      then show ?thesis using one by simp
    next
      case (Inr removed)
      then have rest: "forget_missing env agentType agentId skipped missing owned s1 = (res, s')"
        using Cons.prems(3) False lr by (simp add: Let_def ebind_def)
      have none: "lock_receipts env s1 (slot agentType ?key) = None"
        using lr1 Inr mk mine id Cons.prems(2) by (auto split: if_splits)
      have sound: "ledger_sound env s1" using one by (simp add: forgotten_def)
      have shrunk: "lock_receipts env s1 x = lock_receipts env s x \<or> lock_receipts env s1 x = None" for x
        using one by (auto simp: forgotten_def)
      have "\<forall>r\<in>set owned. mt_agent_type r = agentType \<and> mt_reconcile_agent_id r = Some agentId \<and>
          (lock_receipts env s1 (slot agentType (mt_local_skill_key r)) = Some r \<or> lock_receipts env s1 (slot agentType (mt_local_skill_key r)) = None)"
        using Cons.prems(2) shrunk by (metis list.set_intros(2))
      note later = Cons.IH [OF sound this rest]
      have gone: "lock_receipts env s' (slot agentType ?key) = None"
        using later none unfolding forgotten_def by metis
      have "forgotten env agentType skipped missing s s'"
        using one later same_but_ledger_trans [of s s1 s'] unfolding forgotten_def by metis
      then show ?thesis using later gone by simp
    qed
  qed
qed

lemma desired_by_key_facts:
  "wf_map m \<Longrightarrow> (\<forall>(k, d)\<in>set m. de_skill_key d = k) \<Longrightarrow> desired_by_key ds skipped m = (skipped', m') \<Longrightarrow>
     wf_map m' \<and> (\<forall>(k, d)\<in>set m'. de_skill_key d = k)"
proof (induction ds arbitrary: skipped m)
  case (Cons d ds)
  show ?case
  proof (cases "map_has m (de_skill_key d)")
    case False
    have "\<forall>(k, x)\<in>set (map_set (de_skill_key d) d m). de_skill_key x = k"
      using set_map_set_subset [of "de_skill_key d" d m] Cons.prems(2) by auto
    then show ?thesis using Cons.IH [of "map_set (de_skill_key d) d m" skipped] Cons.prems False by simp
  qed (use Cons in auto)
qed simp

lemma desired_by_key_keys:
  "(\<forall>(k, d)\<in>set m. k \<in> K) \<Longrightarrow> (\<forall>d\<in>set ds. de_skill_key d \<in> K) \<Longrightarrow> desired_by_key ds skipped m = (skipped', m') \<Longrightarrow>
     \<forall>(k, d)\<in>set m'. k \<in> K"
proof (induction ds arbitrary: skipped m)
  case (Cons d ds)
  have "\<forall>(k, x)\<in>set (map_set (de_skill_key d) d m). k \<in> K"
    using set_map_set_subset [of "de_skill_key d" d m] Cons.prems(1,2) by auto
  then show ?case using Cons by (cases "map_has m (de_skill_key d)") auto
qed simp

text \<open>The state when the transaction starts, with what the plan knows of it.\<close>

lemma plan_knows:
  assumes ok: "survey_ok K unpack env agentType l f y" and every: "\<And>r. r \<in> set owned \<Longrightarrow> accounted y (mt_local_skill_key r)"
    and owned: "owned = readProjectSkillMaterializationsForReconcile (pj_parse env) agentType agentId l"
    and listed: "\<forall>k\<in>K. f k \<noteq> None \<longrightarrow> k \<in> set localKeys"
    and skipped: "set (sy_skipped y) \<subseteq> set skipped" and new: "set (map_keys downloads) \<inter> set skipped = {}"
      "\<forall>k\<in>set (map_keys downloads). k \<in> K \<and> may_install env agentType agentId l localKeys k"
    and files: "files (en_world s) = f" and shrunk: "\<And>x. lock_receipts env s x = receipts (pj_parse env) l x \<or>
      lock_receipts env s x = None \<and> x \<in> slot agentType ` (set (sy_missing y) - set skipped)"
    and gone: "\<And>r. r \<in> set owned \<Longrightarrow> mt_local_skill_key r \<in> set (sy_missing y) - set skipped \<Longrightarrow>
      lock_receipts env s (slot agentType (mt_local_skill_key r)) = None"
    and k: "k \<in> set (map_keys downloads) \<union> set (map_keys (sy_priors y))"
  shows "knows K files unpack env agentType (files (en_world s), lock_receipts env s) k (map_get (sy_priors y) k)"
proof (cases "map_get (sy_priors y) k")
  case (Some p)
  then have p: "k \<in> K" "mi_localSkillKey (pr_input p) = k" "mi_agentType (pr_input p) = agentType" "f k = Some (unpack (pr_archive p))"
      "receipts (pj_parse env) l (slot agentType k) = Some (materialization_of (pr_input p))"
    using ok map_get_SomeD [OF Some] by (auto simp: survey_ok_def)
  then have "k \<notin> set (sy_missing y)" using ok by (auto simp: survey_ok_def)
  then have "lock_receipts env s (slot agentType k) = receipts (pj_parse env) l (slot agentType k)"
    using shrunk [of "slot agentType k"] by auto
  then show ?thesis using p Some files by (simp add: knows_def)
next
  case None
  then have d: "k \<in> set (map_keys downloads)" using k by (auto simp: map_of_eq_None_iff)
  then have inK: "k \<in> K" using new(2) by blast
  have "files (en_world s) k = None \<and> lock_receipts env s (slot agentType k) = None"
  proof (cases "receipts (pj_parse env) l (slot agentType k)")
    case n: None
    then have "k \<notin> set localKeys" using new(2) d by (auto simp: may_install_def)
    then show ?thesis using n shrunk [of "slot agentType k"] listed files inK by auto
  next
    case (Some r)
    then have "mt_reconcile_agent_id r = Some agentId" using new(2) d by (auto simp: may_install_def)
    then have r: "r \<in> set owned" "mt_local_skill_key r = k" using owned_exists [OF Some] owned by auto
    have "k \<notin> set skipped" using new(1) d by blast
    then have "k \<in> set (sy_missing y)" using every [OF r(1)] r(2) None skipped by (auto simp: accounted_def)
    then show ?thesis using gone [OF r(1)] r(2) \<open>k \<notin> set skipped\<close> ok files by (auto simp: survey_ok_def)
  qed
  then show ?thesis using None inK by (simp add: knows_def)
qed

section \<open>All or nothing\<close>

text \<open>What an update that fails with \<open>e\<close> may leave: the folders as they were, except for the one whose own
  installation or removal failed with \<open>e\<close> and left it changed, and no receipt changed except that receipts of
  Skills without a folder may be gone.\<close>

definition folders_restored :: "('w \<Rightarrow> string \<Rightarrow> 'c option) \<Rightarrow> 'w project_env \<Rightarrow> (string \<Rightarrow> 'c option) \<Rightarrow> sync_error \<Rightarrow> 'w engine \<Rightarrow> bool" where
  "folders_restored files env f e s \<longleftrightarrow> files (en_world s) = f \<or>
     (\<exists>key. torn files env key e \<and> (\<forall>k. k \<noteq> key \<longrightarrow> files (en_world s) k = f k))"

definition restored :: "('w \<Rightarrow> string \<Rightarrow> 'c option) \<Rightarrow> 'w project_env \<Rightarrow> string \<Rightarrow> (string \<Rightarrow> 'c option) \<Rightarrow> lock_file \<Rightarrow> sync_error \<Rightarrow>
    'w engine \<Rightarrow> bool" where
  "restored files env agentType f l e s \<longleftrightarrow> folders_restored files env f e s \<and>
     (\<forall>x. lock_receipts env s x = receipts (pj_parse env) l x \<or>
        lock_receipts env s x = None \<and> (\<exists>key. x = slot agentType key \<and> f key = None))"

definition clean_error :: "sync_error \<Rightarrow> bool" where
  "clean_error e \<longleftrightarrow> (\<forall>errors. e \<noteq> rollback_error errors) \<and> (\<forall>keys. e \<noteq> skipped_error keys)"

lemma unmoved_restored: "unmoved files f l s \<Longrightarrow> restored files env agentType f l e s"
  by (simp add: unmoved_def restored_def folders_restored_def)

lemma transaction_restores:
  assumes codec: "json_file_codec (pj_parse env)" and ops: "adapter_ops K files unpack env" and sound: "ledger_ok (pj_parse env) l"
    and agent: "agentId \<noteq> []" and owned: "owned = readProjectSkillMaterializationsForReconcile (pj_parse env) agentType agentId l"
    and y: "survey_ok K unpack env agentType l f y" and every: "\<forall>r\<in>set owned. accounted y (mt_local_skill_key r)"
    and listed: "\<forall>k\<in>K. f k \<noteq> None \<longrightarrow> k \<in> set localKeys"
    and d: "\<And>k d. map_get desiredByKey k = Some d \<Longrightarrow> de_skill_key d = k"
    and dl: "wf_map downloads" "set (sy_skipped y) \<subseteq> set skipped" "set (map_keys downloads) \<inter> set skipped = {}"
      "\<forall>k\<in>set (map_keys downloads). k \<in> K \<and> may_install env agentType agentId l localKeys k"
    and s: "unmoved files f l s"
    and run: "ethen (forget_missing env agentType agentId skipped (sy_missing y) owned)
        (ethen (apply_changes env agentType agentId desiredByKey (sy_priors y) skipped downloads)
          (if skipped \<noteq> [] then ethrow (skipped_error skipped) else eret ())) s = (Inl e, s')"
    and e: "clean_error e"
  shows "restored files env agentType f l e s'"
proof -
  have s0: "files (en_world s) = f" "en_skillsLock s = l" "ledger_sound env s" using s sound by (simp_all add: unmoved_def)
  have "\<forall>r\<in>set owned. mt_agent_type r = agentType \<and> mt_reconcile_agent_id r = Some agentId \<and>
      (lock_receipts env s (slot agentType (mt_local_skill_key r)) = Some r \<or> lock_receipts env s (slot agentType (mt_local_skill_key r)) = None)"
    using owned_listed [of _ env agentType agentId l] s0 by (auto simp: owned owned_by_def)
  note forget = forget_facts [OF codec agent s0(3) this]
  have missing: "\<forall>k\<in>set (sy_missing y). f k = None" using y by (simp add: survey_ok_def)
  have shrink: "restored files env agentType f l e s1" if "forgotten env agentType skipped (sy_missing y) s s1" for s1
    using that missing s0 same_but_ledger_world [of s s1] by (auto simp: forgotten_def restored_def folders_restored_def)
  obtain q s1 where fg: "forget_missing env agentType agentId skipped (sy_missing y) owned s = (q, s1)" by fastforce
  note f1 = forget [OF fg]
  show ?thesis
  proof (cases q)
    case (Inl e1)
    then have "s' = s1" using run fg by (simp add: ethen_def ebind_def)
    then show ?thesis using shrink f1 by simp
  next
    case (Inr u)
    obtain a s2 where ap: "apply_changes env agentType agentId desiredByKey (sy_priors y) skipped downloads s1 = (a, s2)" by fastforce
    have "a = Inl e \<and> s' = s2"
      using run fg Inr ap e by (cases a) (auto simp: ethen_def ebind_def ethrow_def eret_def clean_error_def split: if_splits)
    then have ap: "apply_changes env agentType agentId desiredByKey (sy_priors y) skipped downloads s1 = (Inl e, s')" using ap by simp
    have w1: "files (en_world s1) = f" using f1 s0 same_but_ledger_world [of s s1] by (simp add: forgotten_def)
    have shrunk: "lock_receipts env s1 x = receipts (pj_parse env) l x \<or>
        lock_receipts env s1 x = None \<and> x \<in> slot agentType ` (set (sy_missing y) - set skipped)" for x
      using f1 s0 by (simp add: forgotten_def)
    have know: "\<forall>k\<in>set (map_keys downloads) \<union> set (map_keys (sy_priors y)). knows K files unpack env agentType (files (en_world s1), lock_receipts env s1) k (map_get (sy_priors y) k)"
    proof
      fix k assume k: "k \<in> set (map_keys downloads) \<union> set (map_keys (sy_priors y))"
      show "knows K files unpack env agentType (files (en_world s1), lock_receipts env s1) k (map_get (sy_priors y) k)"
        by (rule plan_knows [where files = files and s = s1 and skipped = skipped, OF y bspec [OF every] owned listed dl(2-4) w1 shrunk _ k])
          (use f1 Inr in simp_all)
    qed
    have "wf_map (sy_priors y)" "\<forall>(k, p)\<in>set (sy_priors y). mi_localSkillKey (pr_input p) = k" using y by (auto simp: survey_ok_def)
    note apply_restores [OF codec adapter_opsD(1) [OF ops] _ d dl(1) this know ap]
    moreover have "ledger_sound env s1" using f1 by (simp add: forgotten_def)
    ultimately have "folders_restored files env (files (en_world s1)) e s' \<and> lock_receipts env s' = lock_receipts env s1"
      using e by (simp add: clean_error_def folders_restored_def)
    moreover have "restored files env agentType f l e s1" using shrink f1 by simp
    ultimately show ?thesis by (simp add: restored_def w1)
  qed
qed

text \<open>The phases in sequence: each one moves nothing, and says something of its result.\<close>

definition fails_clean :: "('w \<Rightarrow> string \<Rightarrow> 'c option) \<Rightarrow> 'w project_env \<Rightarrow> string \<Rightarrow> (string \<Rightarrow> 'c option) \<Rightarrow> lock_file \<Rightarrow> sync_error \<Rightarrow>
    'w engine \<Rightarrow> bool" where
  "fails_clean files env agentType f l e s \<longleftrightarrow> (clean_error e \<longrightarrow> restored files env agentType f l e s)"

lemma restores_bind:
  assumes "valid (unmoved files f l) m (\<lambda>a s. unmoved files f l s \<and> R a) (\<lambda>_. unmoved files f l)"
    and "\<And>a. R a \<Longrightarrow> valid (unmoved files f l) (k a) anyway (fails_clean files env agentType f l)"
  shows "valid (unmoved files f l) (ebind m k) anyway (fails_clean files env agentType f l)"
proof (rule valid_bind [where R = "\<lambda>a s. unmoved files f l s \<and> R a"])
  show "valid (unmoved files f l) m (\<lambda>a s. unmoved files f l s \<and> R a) (fails_clean files env agentType f l)"
    by (rule valid_post [OF assms(1)]) (use unmoved_restored in \<open>unfold fails_clean_def, blast+\<close>)
  show "valid (\<lambda>s. unmoved files f l s \<and> R a) (k a) anyway (fails_clean files env agentType f l)" for a
    using assms(2) [of a] by (cases "R a") (auto simp: valid_def)
qed

lemma restores_keep: "keeps (unmoved files f l) m \<Longrightarrow> valid (unmoved files f l) m (\<lambda>a s. unmoved files f l s \<and> True) (\<lambda>_. unmoved files f l)"
  by (simp add: keeps_def)

lemma restores_throw: "valid (unmoved files f l) (ethrow e) anyway (fails_clean files env agentType f l)"
  using unmoved_restored [of files f l _ env agentType] by (auto simp: valid_def ethrow_def fails_clean_def)

lemma inventory_restores:
  assumes codec: "json_file_codec (pj_parse env)" and ops: "adapter_ops K files unpack env" and soundl: "ledger_ok (pj_parse env) l"
    and agent: "agentId \<noteq> []" and desired: "desired_by_key desired [] [] = (skipped0, desiredByKey)"
    and inK: "\<forall>d\<in>set desired. de_skill_key d \<in> K" and ownK: "\<And>r. owned_by env agentType agentId l r \<Longrightarrow> mt_local_skill_key r \<in> K"
    and listed: "\<forall>k\<in>K. f k \<noteq> None \<longrightarrow> k \<in> set localKeys"
  shows "valid (unmoved files f l) (ebind (egets (\<lambda>s. readProjectSkillMaterializationsForReconcile (pj_parse env) agentType agentId (en_skillsLock s))) (\<lambda>owned.
      ebind (survey_receipts env agentType agentId owned \<lparr>sy_skipped = skipped0, sy_missing = [], sy_priors = []\<rparr>) (\<lambda>y.
      ebind (download_desired env agentType agentId localKeys (sy_missing y)
          (sort_key (\<lambda>d. pj_rank env (de_skill_key d)) (map_values desiredByKey)) (sy_skipped y) []) (\<lambda>(skipped, downloads).
      ethen (forget_missing env agentType agentId skipped (sy_missing y) owned)
        (ethen (apply_changes env agentType agentId desiredByKey (sy_priors y) skipped downloads)
          (if skipped \<noteq> [] then ethrow (skipped_error skipped) else eret ()))))))
    anyway (fails_clean files env agentType f l)"
    (is "valid ?I _ anyway ?E")
proof (rule restores_bind [where R = "\<lambda>owned. owned = readProjectSkillMaterializationsForReconcile (pj_parse env) agentType agentId l"], simp add: valid_def egets_def unmoved_def, rule restores_bind)
  fix owned assume owned: "owned = readProjectSkillMaterializationsForReconcile (pj_parse env) agentType agentId l"
  show "valid ?I (survey_receipts env agentType agentId owned \<lparr>sy_skipped = skipped0, sy_missing = [], sy_priors = []\<rparr>)
      (\<lambda>y s. ?I s \<and> (survey_ok K unpack env agentType l f y \<and> (\<forall>r\<in>set owned. accounted y (mt_local_skill_key r)))) (\<lambda>_. ?I)"
    by (rule valid_post [OF survey_facts [OF ops]]) (use owned_listed [of _ env agentType agentId l] owned ownK in \<open>auto simp: survey_ok_def\<close>)
  fix y assume y: "survey_ok K unpack env agentType l f y \<and> (\<forall>r\<in>set owned. accounted y (mt_local_skill_key r))"
  have dbk: "wf_map desiredByKey" "\<forall>(k, d)\<in>set desiredByKey. de_skill_key d = k"
    using desired_by_key_facts [of "[]" desired "[]" skipped0 desiredByKey] desired by simp_all
  let ?ds = "sort_key (\<lambda>d. pj_rank env (de_skill_key d)) (map_values desiredByKey)"
  have keys: "map de_skill_key (map_values desiredByKey) = map_keys desiredByKey" using dbk(2) by (auto simp: map_eq_conv)
  have "distinct (map de_skill_key ?ds)" using dbk(1) by (intro distinct_map_sort_key) (simp only: keys wf_map_def)
  moreover have "set (map de_skill_key ?ds) \<subseteq> K"
    using desired_by_key_keys [of "[]" K desired "[]" skipped0 desiredByKey] desired inK dbk(2) by fastforce
  ultimately have ds: "distinct (map de_skill_key ?ds)" "set (map de_skill_key ?ds) \<subseteq> K" by blast+
  note dl = download_facts [OF ops ds, where downloads = "[]", simplified]
  let ?R = "\<lambda>(skipped, downloads :: (string, string) js_map). wf_map downloads \<and> set (sy_skipped y) \<subseteq> set skipped \<and> set (map_keys downloads) \<inter> set skipped = {} \<and>
      (\<forall>k\<in>set (map_keys downloads). k \<in> K \<and> may_install env agentType agentId l localKeys k)"
  show "valid ?I (ebind (download_desired env agentType agentId localKeys (sy_missing y) ?ds (sy_skipped y) []) (\<lambda>(skipped, downloads).
      ethen (forget_missing env agentType agentId skipped (sy_missing y) owned)
        (ethen (apply_changes env agentType agentId desiredByKey (sy_priors y) skipped downloads)
          (if skipped \<noteq> [] then ethrow (skipped_error skipped) else eret ())))) anyway ?E"
  proof (rule restores_bind [where R = ?R])
    show "valid ?I (download_desired env agentType agentId localKeys (sy_missing y) ?ds (sy_skipped y) []) (\<lambda>a s. ?I s \<and> ?R a) (\<lambda>_. ?I)"
      by (rule valid_post [OF dl]) auto
    fix a :: "string list \<times> (string, string) js_map" assume a: "?R a"
    obtain skipped downloads where ad: "a = (skipped, downloads)" by fastforce
    have get: "map_get desiredByKey k = Some d \<Longrightarrow> de_skill_key d = k" for k d using dbk(2) map_get_SomeD by fastforce
    have "restored files env agentType f l e s2" if "?I s1" "clean_error e"
        "ethen (forget_missing env agentType agentId skipped (sy_missing y) owned)
          (ethen (apply_changes env agentType agentId desiredByKey (sy_priors y) skipped downloads)
            (if skipped \<noteq> [] then ethrow (skipped_error skipped) else eret ())) s1 = (Inl e, s2)" for e s1 s2
      by (rule transaction_restores [OF codec ops soundl agent owned conjunct1 [OF y] conjunct2 [OF y] listed get _ _ _ _ that(1,3,2)])
        (use a ad in auto)
    then show "valid ?I (case a of (skipped, downloads) \<Rightarrow>
        ethen (forget_missing env agentType agentId skipped (sy_missing y) owned)
          (ethen (apply_changes env agentType agentId desiredByKey (sy_priors y) skipped downloads)
            (if skipped \<noteq> [] then ethrow (skipped_error skipped) else eret ()))) anyway ?E"
      unfolding ad prod.case valid_def by (auto simp: fails_clean_def split: prod.split sum.split)
  qed
qed


text \<open>An adapter over a map of folders; what it installs is reported with a wrong hash.\<close>

definition sample_project_env :: "(string, string) js_map project_env" where
  "sample_project_env =
     \<lparr>pj_parse = json_parse, pj_baseUrl = ''https://api'',
      pj_url = (\<lambda>u. Inr \<lparr>url_origin = take 11 u, url_pathname = drop 11 u, url_search = [], url_hash = []\<rparr>),
      pj_rank = length, pj_putCapability = (\<lambda>_. eret ()),
      pj_getDesired = (\<lambda>a. eret (a, [\<lparr>de_skill_key = ''notes'', de_skill_id = ''s'', de_project_id = ''p'', de_content_hash = ''h'',
        de_archive_url = ''https://api/v1/runtime/project-skill-archives/agent/p/s/h/notes.tar.gz''\<rparr>])),
      pj_requestStream = (\<lambda>_. eret \<lparr>ft_ok = True, ft_status = 200, ft_cancel = eret (), ft_bytes = eret ''bytes''\<rparr>),
      pj_mkdtemp = eret ''stage'', pj_extractTarGz = (\<lambda>_ _. eret ()), pj_stageHasSkill = (\<lambda>_ _ _. True),
      pj_snapshotStage = (\<lambda>_ _. eret (''h'', ''bytes'')), pj_rmStage = (\<lambda>_. eret ()),
      pj_listKeys = egets (\<lambda>s. map_keys (en_world s)), pj_exists = (\<lambda>k s. map_has (en_world s) k),
      pj_hasSkill = (\<lambda>k s. map_has (en_world s) k),
      pj_snapshotSkill = (\<lambda>k. \<lambda>s. case map_get (en_world s) k of None \<Rightarrow> (Inl (Thrown ''ENOENT''), s) | Some c \<Rightarrow> (Inr (''h'', c), s)),
      pj_folderHash = (\<lambda>_. eret ''wrong''),
      pj_writeArchive = (\<lambda>k a. emodify (\<lambda>s. s\<lparr>en_world := map_set k a (en_world s)\<rparr>)),
      pj_remove = (\<lambda>k. emodify (\<lambda>s. s\<lparr>en_world := map_delete k (en_world s)\<rparr>))\<rparr>"

lemma sample_adapter_ops: "adapter_ops UNIV map_get id sample_project_env"
  unfolding adapter_ops_def folder_ops_def Let_def
  by (auto simp: sample_project_env_def emodify_def eret_def egets_def unmoved_def keeps_def valid_def
      split: option.split) (metis domI dom_map_of_conv_image_fst)

lemma sample_project_run:
  "fst (reconcileConnectedProjectSkills sample_project_env ''codex'' ''agent'' (fresh_engine [(''mine'', ''x'')])) =
     Inl (PlainError ''Project Skill notes did not install with the expected content'')"
  by code_simp


end
