(* ===== verification/ProjectForeign.thy ===== *)
theory ProjectForeign
  imports ProjectReconcileLaws
begin

text \<open>
  What the Project Skill reconciliation may not touch: a Skill of the user, or one another Agent or
  another way of installing holds. The predicate \<open>F\<close> of the outside stands for whatever is true of that
  Skill's folder.
\<close>

section \<open>The foreign Skill\<close>

lemma keeps_guard:
  assumes "valid I m (\<lambda>a s. I s \<and> R a) (\<lambda>_. I)" and "\<And>a. R a \<Longrightarrow> keeps I (k a)"
  shows "keeps I (ebind m k)"
  unfolding keeps_def
proof (rule valid_bind [OF assms(1)])
  show "valid (\<lambda>s. I s \<and> R a) (k a) (\<lambda>_. I) (\<lambda>_. I)" for a
    using assms(2) [of a] by (cases "R a") (auto simp: valid_def keeps_def)
qed

text \<open>Keys are paths below the folder of all Skills: one may lie inside the folder of another.\<close>

definition path_above :: "string \<Rightarrow> string \<Rightarrow> bool" where
  "path_above a b \<longleftrightarrow> take (Suc (length a)) b = a @ ''/''"

definition overlaps :: "string \<Rightarrow> string \<Rightarrow> bool" where
  "overlaps a b \<longleftrightarrow> a = b \<or> path_above a b \<or> path_above b a"

lemma overlaps_refl [simp]: "overlaps k k"
  by (simp add: overlaps_def)

text \<open>\<open>r\<close> is the receipt of the Skill \<open>k\<close>, if any; no Skill the reconciliation of this Agent holds lies in the
  folder of \<open>k\<close> or around it.\<close>

definition holds_foreign ::
  "('w \<Rightarrow> bool) \<Rightarrow> 'w project_env \<Rightarrow> string \<Rightarrow> string \<Rightarrow> string \<Rightarrow> materialization option \<Rightarrow> 'w engine \<Rightarrow> bool" where
  "holds_foreign F env agentType agentId k r s \<longleftrightarrow>
     F (en_world s) \<and> ledger_sound env s \<and> lock_receipts env s (slot agentType k) = r \<and>
     (\<forall>x m. x \<noteq> k \<and> lock_receipts env s (slot agentType x) = Some m \<and> mt_reconcile_agent_id m = Some agentId \<longrightarrow> \<not> overlaps x k)"

definition is_foreign :: "string \<Rightarrow> materialization option \<Rightarrow> bool" where
  "is_foreign agentId r \<longleftrightarrow> (case r of None \<Rightarrow> True | Some m \<Rightarrow> mt_reconcile_agent_id m \<noteq> Some agentId)"

text \<open>What is awaited keeps \<open>I\<close>: reading and downloading.\<close>

definition adapter_keeps :: "('w engine \<Rightarrow> bool) \<Rightarrow> 'w project_env \<Rightarrow> bool" where
  "adapter_keeps I env \<longleftrightarrow>
     (\<forall>a. keeps I (pj_putCapability env a)) \<and>
     (\<forall>u. valid I (pj_requestStream env u) (\<lambda>r s. I s \<and> keeps I (ft_cancel r) \<and> keeps I (ft_bytes r)) (\<lambda>_. I)) \<and>
     keeps I (pj_mkdtemp env) \<and> (\<forall>d b. keeps I (pj_extractTarGz env d b)) \<and> (\<forall>d x. keeps I (pj_snapshotStage env d x)) \<and>
     (\<forall>d. keeps I (pj_rmStage env d)) \<and> (\<forall>x. keeps I (pj_snapshotSkill env x)) \<and> (\<forall>x. keeps I (pj_folderHash env x))"

lemma adapter_keepsD:
  assumes "adapter_keeps I env"
  shows "keeps I (pj_putCapability env a)"
    and "valid I (pj_requestStream env u) (\<lambda>r s. I s \<and> keeps I (ft_cancel r) \<and> keeps I (ft_bytes r)) (\<lambda>_. I)"
    and "keeps I (pj_mkdtemp env)" and "keeps I (pj_extractTarGz env d b)" and "keeps I (pj_snapshotStage env d x)"
    and "keeps I (pj_rmStage env d)" and "keeps I (pj_snapshotSkill env x)" and "keeps I (pj_folderHash env x)"
  using assms by (simp_all add: adapter_keeps_def)

text \<open>It leaves the Skill \<open>k\<close> alone: so do the operations on folders that neither lie in that of \<open>k\<close> nor around
  it; and the Cloud desires only such Skills, or \<open>k\<close> itself. A Skill without a receipt is listed by the adapter.\<close>

definition leaves_alone :: "('w engine \<Rightarrow> bool) \<Rightarrow> 'w project_env \<Rightarrow> string \<Rightarrow> bool \<Rightarrow> bool" where
  "leaves_alone I env k listed \<longleftrightarrow> adapter_keeps I env \<and>
     (\<forall>a. valid I (pj_getDesired env a)
        (\<lambda>r s. I s \<and> (\<forall>d\<in>set (snd r). de_skill_key d \<noteq> k \<longrightarrow> \<not> overlaps (de_skill_key d) k)) (\<lambda>_. I)) \<and>
     valid I (pj_listKeys env) (\<lambda>keys s. I s \<and> (listed \<longrightarrow> k \<in> set keys)) (\<lambda>_. I) \<and>
     (\<forall>x a. \<not> overlaps x k \<longrightarrow> keeps I (pj_writeArchive env x a)) \<and> (\<forall>x. \<not> overlaps x k \<longrightarrow> keeps I (pj_remove env x))"

lemma leaves_aloneD:
  assumes "leaves_alone I env k listed"
  shows "adapter_keeps I env"
    and "valid I (pj_getDesired env a) (\<lambda>r s. I s \<and> (\<forall>d\<in>set (snd r). de_skill_key d \<noteq> k \<longrightarrow> \<not> overlaps (de_skill_key d) k)) (\<lambda>_. I)"
    and "valid I (pj_listKeys env) (\<lambda>keys s. I s \<and> (listed \<longrightarrow> k \<in> set keys)) (\<lambda>_. I)"
    and "\<not> overlaps x k \<Longrightarrow> keeps I (pj_writeArchive env x z)" and "\<not> overlaps x k \<Longrightarrow> keeps I (pj_remove env x)"
  using assms by (simp_all add: leaves_alone_def)

section \<open>The ledger of other Skills\<close>

lemma slot_other: "mi_agentType i = agentType \<Longrightarrow> \<not> overlaps (mi_localSkillKey i) k \<Longrightarrow> slot agentType k \<noteq> materialization_key i"
  by (auto simp: key_slot)

lemma holds_foreign_other:
  assumes s: "holds_foreign F env agentType agentId k r s" and i: "mi_agentType i = agentType" "\<not> overlaps (mi_localSkillKey i) k"
    and "same_but_ledger s s'" and "ledger_sound env s'"
    and other: "\<And>x. x \<noteq> materialization_key i \<Longrightarrow> lock_receipts env s' x = lock_receipts env s x"
  shows "holds_foreign F env agentType agentId k r s'"
proof -
  have "\<not> overlaps x k" if "x \<noteq> k" "lock_receipts env s' (slot agentType x) = Some m" "mt_reconcile_agent_id m = Some agentId" for x m
  proof (cases "x = mi_localSkillKey i")
    case False
    then have "slot agentType x \<noteq> materialization_key i" using i(1) by (simp add: key_slot)
    from other [OF this] that s show ?thesis unfolding holds_foreign_def by metis
  qed (use i(2) in simp)
  then show ?thesis
    using s assms(4,5) other [OF slot_other [OF i]] same_but_ledger_world [OF assms(4)] by (simp add: holds_foreign_def)
qed

lemma foreign_record:
  assumes "json_file_codec (pj_parse env)" and "mi_agentType i = agentType" and "\<not> overlaps (mi_localSkillKey i) k"
  shows "keeps (holds_foreign F env agentType agentId k r) (ledger_record env i)"
  unfolding keeps_iff
proof (intro allI impI)
  fix s assume s: "holds_foreign F env agentType agentId k r s"
  obtain q s' where run: "ledger_record env i s = (q, s')" by fastforce
  note record_run [OF assms(1) _ run]
  then show "holds_foreign F env agentType agentId k r (snd (ledger_record env i s))"
    using s holds_foreign_other [OF s assms(2,3), of s'] by (cases q) (auto simp: run holds_foreign_def)
qed

lemma foreign_remove:
  assumes "json_file_codec (pj_parse env)" and "mi_agentType i = agentType" and "\<not> overlaps (mi_localSkillKey i) k"
  shows "keeps (holds_foreign F env agentType agentId k r) (ledger_remove env i)"
  unfolding keeps_iff
proof (intro allI impI)
  fix s assume s: "holds_foreign F env agentType agentId k r s"
  obtain q s' where run: "ledger_remove env i s = (q, s')" by fastforce
  note remove_run [OF assms(1) _ run]
  then show "holds_foreign F env agentType agentId k r (snd (ledger_remove env i s))"
    using s holds_foreign_other [OF s assms(2,3), of s'] by (cases q) (auto simp: run holds_foreign_def split: if_splits)
qed

lemma rollback_other:
  assumes "json_file_codec parse" and "ledger_ok parse data" and "\<forall>p. previous = Some p \<longrightarrow> materialization_ok (materialization_key i) p"
    and "rollback_materialization parse True i previous data = Inr data'" and "x \<noteq> materialization_key i"
  shows "receipts parse data' x = receipts parse data x"
proof -
  let ?lock = "readSkillsLock parse data"
  let ?lock' = "?lock\<lparr>sl_materializations := (case previous of
      Some p \<Rightarrow> map_set (materialization_key i) p (sl_materializations ?lock)
    | None \<Rightarrow> map_delete (materialization_key i) (sl_materializations ?lock))\<rparr>"
  have ok: "SkillsLockLaws.lock_ok ?lock'"
    using assms(3) ledger_ok_lock [OF assms(2)]
    by (cases previous) (simp_all add: lock_ok_set_materialization lock_ok_delete_materialization)
  have "data' = data \<or> commit_lock True ?lock' = Inr data'"
    using assms(4) by (auto simp: rollback_materialization_def Let_def split: option.splits if_splits)
  then show ?thesis
    using json_file_codec.committed_receipts [OF assms(1) ok] assms(5) by (cases previous) auto
qed

lemma foreign_commit:
  assumes codec: "json_file_codec (pj_parse env)" and i: "mi_agentType i = agentType" "\<not> overlaps (mi_localSkillKey i) k"
    and act: "keeps (holds_foreign F env agentType agentId k r) activate"
  shows "keeps (holds_foreign F env agentType agentId k r) (ledger_commit env i activate)"
proof -
  let ?I = "holds_foreign F env agentType agentId k r"
  let ?good = "\<lambda>previous. \<forall>p. previous = Some p \<longrightarrow> materialization_ok (materialization_key i) p"
  have get: "valid ?I (ledger_get (readProjectSkillMaterialization (pj_parse env) i)) (\<lambda>p s. ?I s \<and> ?good p) (\<lambda>_. ?I)"
    unfolding valid_def ledger_get_def
  proof (intro allI impI)
    fix s assume s: "?I s"
    have "?good (lock_receipts env s (materialization_key i))"
      using readSkillsLock_materializations_ok [of "pj_parse env" "en_skillsLock s"] map_get_SomeD by fast
    then show "case case readProjectSkillMaterialization (pj_parse env) i (en_skillsLock s) of
        Inl e \<Rightarrow> (Inl (lock_message e), s) | Inr a \<Rightarrow> (Inr a, s) of
      (Inr p, s') \<Rightarrow> ?I s' \<and> ?good p | (Inl e, s') \<Rightarrow> ?I s'"
      using s by (auto simp: read_receipt bind_res_Inr_iff split: sum.split)
  qed
  have undo: "keeps ?I (ledger_put (rollback_materialization (pj_parse env) True i previous))" if "?good previous" for previous
    unfolding keeps_iff
  proof (intro allI impI)
    fix s assume s: "?I s"
    obtain d where d: "rollback_materialization (pj_parse env) True i previous (en_skillsLock s) = Inr d"
      using rollback_owned_total by blast
    have sound: "ledger_sound env s" using s by (simp add: holds_foreign_def)
    have "ledger_ok (pj_parse env) d" by (rule json_file_codec.rollback_sound [OF codec sound that d])
    moreover have "receipts (pj_parse env) d x = lock_receipts env s x" if "x \<noteq> materialization_key i" for x
      by (rule rollback_other [OF codec sound \<open>?good previous\<close> d that])
    ultimately have "?I (s\<lparr>en_skillsLock := d\<rparr>)" by (intro holds_foreign_other [OF s i]) simp_all
    then show "?I (snd (ledger_put (rollback_materialization (pj_parse env) True i previous) s))"
      using d by (simp add: ledger_put_def)
  qed
  have "valid (\<lambda>s. ?I s \<and> ?good previous) (ethen (ledger_record env i) (ecatch activate (\<lambda>e.
      ethen (ledger_put (rollback_materialization (pj_parse env) True i previous)) (ethrow e)))) (\<lambda>_. ?I) (\<lambda>_. ?I)" for previous
  proof (cases "?good previous")
    case True
    have "keeps ?I (ethen (ledger_record env i) (ecatch activate (\<lambda>e.
      ethen (ledger_put (rollback_materialization (pj_parse env) True i previous)) (ethrow e))))"
      by (intro keeps_flow act undo True foreign_record codec i)
    then show ?thesis using True by (simp add: keeps_def)
  qed (unfold valid_def, blast)
  then show ?thesis
    unfolding ledger_commit_def keeps_def by (rule valid_bind [OF get])
qed

section \<open>The transaction\<close>

text \<open>Changes that concern other Skills of this adapter.\<close>

fun elsewhere :: "string \<Rightarrow> string \<Rightarrow> applied_change \<Rightarrow> bool" where
  "elsewhere agentType k (Removed p) \<longleftrightarrow> \<not> overlaps (mi_localSkillKey (pr_input p)) k \<and> mi_agentType (pr_input p) = agentType"
| "elsewhere agentType k (Installed new prior) \<longleftrightarrow> \<not> overlaps (mi_localSkillKey new) k \<and> mi_agentType new = agentType \<and>
     (case prior of None \<Rightarrow> True | Some p \<Rightarrow> \<not> overlaps (mi_localSkillKey (pr_input p)) k \<and> mi_agentType (pr_input p) = agentType)"

lemma keeps_attempt:
  assumes "keeps I m" and "P applied" and "\<And>a. valid I (k a) (\<lambda>(ap, f) s. I s \<and> P ap) (\<lambda>_. I)"
  shows "valid I (attempt_change applied m k) (\<lambda>(ap, f) s. I s \<and> P ap) (\<lambda>_. I)"
proof -
  have "keeps I (ecatch (ebind m (\<lambda>a. eret (Inr a))) (\<lambda>e. eret (Inl e)))" by (intro keeps_flow assms(1))
  then show ?thesis
    unfolding attempt_change_def keeps_def
    by (rule valid_bind) (use assms(2,3) in \<open>auto simp: valid_def eret_def split: sum.split\<close>)
qed

lemma foreign_install:
  assumes codec: "json_file_codec (pj_parse env)" and env: "leaves_alone (holds_foreign F env agentType agentId k r) env k listed"
    and desired: "\<And>x d. map_get desiredByKey x = Some d \<Longrightarrow> de_skill_key d = x"
    and priors: "\<forall>(x, p)\<in>set priors. mi_localSkillKey (pr_input p) = x \<and> mi_agentType (pr_input p) = agentType \<and> \<not> overlaps x k"
  shows "\<forall>x\<in>set (map_keys work). \<not> overlaps x k \<Longrightarrow> list_all (elsewhere agentType k) applied \<Longrightarrow>
    valid (holds_foreign F env agentType agentId k r) (install_all env agentType agentId desiredByKey priors work applied)
      (\<lambda>(ap, f) s. holds_foreign F env agentType agentId k r s \<and> list_all (elsewhere agentType k) ap) (\<lambda>_. holds_foreign F env agentType agentId k r)"
proof (induction work arbitrary: applied)
  case Nil
  then show ?case by (simp add: valid_def eret_def)
next
  case (Cons w work)
  obtain x a where w: "w = (x, a)" by fastforce
  let ?I = "holds_foreign F env agentType agentId k r"
  show ?case
  proof (cases "map_get desiredByKey x")
    case None
    then show ?thesis using Cons.prems w by (simp add: valid_def eret_def)
  next
    case (Some d)
    let ?new = "desiredInput agentType agentId d"
    have new: "mi_agentType ?new = agentType" "\<not> overlaps (mi_localSkillKey ?new) k" and x: "\<not> overlaps x k"
      using desired [OF Some] Cons.prems(1) w by (auto simp: desiredInput_def)
    have good: "list_all (elsewhere agentType k) (applied @ [Installed ?new (map_get priors x)])"
      using Cons.prems(2) new priors map_get_SomeD [of priors x] by (fastforce split: option.split)
    have "\<forall>x\<in>set (map_keys work). \<not> overlaps x k" using Cons.prems(1) by simp
    note rest = Cons.IH [OF this good]
    show ?thesis
      unfolding w install_all.simps Some option.case Let_def
      by (intro keeps_attempt foreign_commit codec new adapter_keepsD(8) [OF leaves_aloneD(1) [OF env]] leaves_aloneD(4) [OF env] x Cons.prems(2) good valid_if rest)
        (use good in \<open>simp add: valid_def eret_def\<close>)
  qed
qed

lemma foreign_removals:
  assumes codec: "json_file_codec (pj_parse env)" and env: "leaves_alone (holds_foreign F env agentType agentId k r) env k listed"
  shows "\<forall>p\<in>set work. \<not> overlaps (mi_localSkillKey (pr_input p)) k \<and> mi_agentType (pr_input p) = agentType \<Longrightarrow>
    list_all (elsewhere agentType k) applied \<Longrightarrow>
    valid (holds_foreign F env agentType agentId k r) (remove_undesired env skipped desiredByKey work applied)
      (\<lambda>(ap, f) s. holds_foreign F env agentType agentId k r s \<and> list_all (elsewhere agentType k) ap) (\<lambda>_. holds_foreign F env agentType agentId k r)"
proof (induction work arbitrary: applied)
  case Nil
  then show ?case by (simp add: valid_def eret_def)
next
  case (Cons p work)
  have p: "\<not> overlaps (mi_localSkillKey (pr_input p)) k" "mi_agentType (pr_input p) = agentType" using Cons.prems(1) by simp_all
  have good: "list_all (elsewhere agentType k) (applied @ [Removed p])" using Cons.prems(2) p by simp
  have rest: "\<forall>p\<in>set work. \<not> overlaps (mi_localSkillKey (pr_input p)) k \<and> mi_agentType (pr_input p) = agentType" using Cons.prems(1) by simp
  show ?case
    unfolding remove_undesired.simps Let_def
    by (intro valid_if keeps_attempt foreign_remove codec p leaves_aloneD(5) [OF env] Cons.prems(2) good Cons.IH rest)
      (use good in \<open>simp add: valid_def eret_def\<close>)
qed

lemma foreign_undo:
  assumes codec: "json_file_codec (pj_parse env)" and env: "leaves_alone (holds_foreign F env agentType agentId k r) env k listed"
    and "list_all (elsewhere agentType k) cs"
  shows "keeps (holds_foreign F env agentType agentId k r) (undo_all env cs errors)"
  using assms(3)
proof (induction cs arbitrary: errors)
  case Nil
  then show ?case by (simp add: keeps_ret)
next
  case (Cons c cs)
  have "keeps (holds_foreign F env agentType agentId k r) (undo_change env c)"
  proof (cases c)
    case (Removed prior)
    show ?thesis unfolding Removed undo_change.simps
      by (intro keeps_flow leaves_aloneD(4) [OF env] foreign_record codec) (use Cons.prems Removed in simp_all)
  next
    case (Installed new q)
    show ?thesis
    proof (cases q)
      case None
      show ?thesis unfolding Installed None undo_change.simps
        by (intro keeps_flow leaves_aloneD(5) [OF env] foreign_remove codec) (use Cons.prems Installed None in simp_all)
    next
      case (Some prior)
      show ?thesis unfolding Installed Some undo_change.simps
        by (intro keeps_flow leaves_aloneD(4) [OF env] foreign_record codec) (use Cons.prems Installed Some in simp_all)
    qed
  qed
  then show ?case unfolding undo_all.simps by (intro keeps_flow Cons.IH) (use Cons.prems in simp_all)
qed

lemma foreign_apply:
  assumes codec: "json_file_codec (pj_parse env)" and env: "leaves_alone (holds_foreign F env agentType agentId k r) env k listed"
    and desired: "\<And>x d. map_get desiredByKey x = Some d \<Longrightarrow> de_skill_key d = x"
    and priors: "\<forall>(x, p)\<in>set priors. mi_localSkillKey (pr_input p) = x \<and> mi_agentType (pr_input p) = agentType \<and> \<not> overlaps x k"
    and downloads: "\<forall>x\<in>set (map_keys downloads). \<not> overlaps x k"
  shows "keeps (holds_foreign F env agentType agentId k r) (apply_changes env agentType agentId desiredByKey priors skipped downloads)"
proof -
  let ?I = "holds_foreign F env agentType agentId k r" and ?good = "list_all (elsewhere agentType k)"
  let ?ok = "\<lambda>(ap, f :: sync_error option) s. ?I s \<and> ?good ap"
  let ?gone = "sort_key (\<lambda>p. pj_rank env (mi_localSkillKey (pr_input p))) (map_values priors)"
  have gone: "\<forall>p\<in>set ?gone. \<not> overlaps (mi_localSkillKey (pr_input p)) k \<and> mi_agentType (pr_input p) = agentType" using priors by auto
  have work: "\<forall>x\<in>set (map_keys (sort_key (\<lambda>(key, _). pj_rank env key) downloads)). \<not> overlaps x k" using downloads by simp
  have undo: "valid (\<lambda>s. ?I s \<and> ?good ap) (case failed of None \<Rightarrow> eret ()
      | Some e \<Rightarrow> ebind (undo_all env (rev ap) []) (\<lambda>errors. if errors \<noteq> [] then ethrow (rollback_error errors) else ethrow e))
      (\<lambda>_. ?I) (\<lambda>_. ?I)" for ap failed
  proof (cases "?good ap")
    case True
    then have "list_all (elsewhere agentType k) (rev ap)" by (simp add: list_all_rev)
    then have "keeps ?I (case failed of None \<Rightarrow> eret ()
      | Some e \<Rightarrow> ebind (undo_all env (rev ap) []) (\<lambda>errors. if errors \<noteq> [] then ethrow (rollback_error errors) else ethrow e))"
      by (intro keeps_flow foreign_undo [OF codec env])
    then show ?thesis using True by (simp add: keeps_def)
  qed (unfold valid_def, blast)
  have mid: "valid (\<lambda>s. ?I s \<and> ?good ap) (case failed of Some e \<Rightarrow> eret (ap, Some e)
      | None \<Rightarrow> remove_undesired env skipped desiredByKey ?gone ap) ?ok (\<lambda>_. ?I)" for ap failed
  proof (cases "?good ap")
    case True
    then show ?thesis using foreign_removals [OF codec env gone True] by (cases failed) (auto simp: valid_def eret_def)
  qed (unfold valid_def, blast)
  show ?thesis
    unfolding apply_changes_def keeps_def
    by (rule valid_bind [OF foreign_install [OF codec env desired priors work]], simp)
      (auto intro!: valid_bind [OF mid] undo split: prod.split)
qed

section \<open>The phases before\<close>

lemma foreign_survey:
  assumes env: "leaves_alone I env k listed"
    and priors: "\<And>x. x \<in> set owned \<Longrightarrow> \<not> overlaps (mt_local_skill_key x) k"
  shows "\<forall>(x, p)\<in>set (sy_priors y). mi_localSkillKey (pr_input p) = x \<and> mi_agentType (pr_input p) = agentType \<and> \<not> overlaps x k \<Longrightarrow>
    valid I (survey_receipts env agentType agentId owned y)
      (\<lambda>y' s. I s \<and> (\<forall>(x, p)\<in>set (sy_priors y'). mi_localSkillKey (pr_input p) = x \<and> mi_agentType (pr_input p) = agentType \<and> \<not> overlaps x k))
      (\<lambda>_. I)"
  using priors
proof (induction owned arbitrary: y)
  case Nil
  then show ?case by (simp add: valid_def eret_def)
next
  case (Cons m owned)
  let ?key = "mt_local_skill_key m"
  have shot: "keeps I (snapshotOwnedTarget env i)" for i
    unfolding snapshotOwnedTarget_def Let_def by (intro keeps_flow adapter_keepsD(7) [OF leaves_aloneD(1) [OF env]])
  have go: "valid I (survey_receipts env agentType agentId owned y1)
      (\<lambda>y' s. I s \<and> (\<forall>(x, p)\<in>set (sy_priors y'). mi_localSkillKey (pr_input p) = x \<and> mi_agentType (pr_input p) = agentType \<and> \<not> overlaps x k)) (\<lambda>_. I)"
    if "\<forall>(x, p)\<in>set (sy_priors y1). mi_localSkillKey (pr_input p) = x \<and> mi_agentType (pr_input p) = agentType \<and> \<not> overlaps x k" for y1
    using Cons.IH [OF that] Cons.prems(2) by simp
  have new: "\<forall>(x, p)\<in>set (map_set ?key \<lparr>pr_input = priorInput agentType agentId m, pr_archive = a\<rparr> (sy_priors y)).
      mi_localSkillKey (pr_input p) = x \<and> mi_agentType (pr_input p) = agentType \<and> \<not> overlaps x k" for a
    using Cons.prems set_map_set_subset [of ?key "\<lparr>pr_input = priorInput agentType agentId m, pr_archive = a\<rparr>" "sy_priors y"]
    by (fastforce simp: priorInput_def)
  note gets = valid_bind [OF keeps_gets [unfolded keeps_def]]
  show ?case
    unfolding survey_receipts.simps Let_def
    by (rule gets, intro valid_if valid_bind [OF shot [unfolded keeps_def]] go) (use Cons.prems(1) new in \<open>auto split: option.split\<close>)
qed

lemma foreign_download_one: "adapter_keeps I env \<Longrightarrow> keeps I (downloadDesiredArchive env agentId d)"
proof -
  assume env: "adapter_keeps I env"
  have check: "keeps I (check_archive env stage bytes d)" for stage bytes
    unfolding check_archive_def Let_def by (intro keeps_flow adapter_keepsD [OF env])
  have inner: "valid (\<lambda>s. I s \<and> keeps I (ft_cancel response) \<and> keeps I (ft_bytes response))
      (if \<not> ft_ok response then ethen (ft_cancel response) (ethrow e)
       else ebind (ft_bytes response) (\<lambda>bytes. ebind (pj_mkdtemp env) (\<lambda>stage.
         efinally (check_archive env stage bytes d) (pj_rmStage env stage)))) (\<lambda>_. I) (\<lambda>_. I)" for response e
  proof (cases "keeps I (ft_cancel response) \<and> keeps I (ft_bytes response)")
    case True
    then have "keeps I (if \<not> ft_ok response then ethen (ft_cancel response) (ethrow e)
       else ebind (ft_bytes response) (\<lambda>bytes. ebind (pj_mkdtemp env) (\<lambda>stage.
         efinally (check_archive env stage bytes d) (pj_rmStage env stage))))"
      by (intro keeps_flow keeps_finally check adapter_keepsD [OF env]) auto
    then show ?thesis using True by (simp add: keeps_def)
  qed (unfold valid_def, blast)
  show ?thesis
    unfolding downloadDesiredArchive_def keeps_def
    by (rule valid_bind [OF keeps_lift [unfolded keeps_def]], rule valid_bind [OF adapter_keepsD(2) [OF env]], rule inner)
qed

lemma foreign_download:
  assumes env: "leaves_alone (holds_foreign F env agentType agentId k r) env k listed" and r: "is_foreign agentId r" "r = None \<Longrightarrow> k \<in> set localKeys"
  shows "\<forall>x\<in>set (map_keys downloads). \<not> overlaps x k \<Longrightarrow> \<forall>d\<in>set ds. de_skill_key d \<noteq> k \<longrightarrow> \<not> overlaps (de_skill_key d) k \<Longrightarrow>
    valid (holds_foreign F env agentType agentId k r) (download_desired env agentType agentId localKeys missing ds skipped downloads)
      (\<lambda>(sk, dl) s. holds_foreign F env agentType agentId k r s \<and> (\<forall>x\<in>set (map_keys dl). \<not> overlaps x k)) (\<lambda>_. holds_foreign F env agentType agentId k r)"
proof (induction ds arbitrary: skipped downloads)
  case Nil
  then show ?case by (simp add: valid_def eret_def)
next
  case (Cons d ds)
  let ?I = "holds_foreign F env agentType agentId k r" and ?key = "de_skill_key d"
  let ?ok = "\<lambda>(sk :: string list, dl :: (string, string) js_map) s. ?I s \<and> (\<forall>x\<in>set (map_keys dl). \<not> overlaps x k)"
  let ?blocked = "\<lambda>m. m = None \<and> ?key \<in> set localKeys \<or> (case m of Some x \<Rightarrow> mt_reconcile_agent_id x \<noteq> Some agentId | None \<Rightarrow> False)"
  have ask: "valid ?I (ledger_get (readProjectSkillMaterialization (pj_parse env) \<lparr>mi_agentType = agentType, mi_localSkillKey = ?key\<rparr>))
      (\<lambda>m s. ?I s \<and> (?key = k \<longrightarrow> ?blocked m)) (\<lambda>_. ?I)"
    using r by (auto simp: valid_def ledger_get_def read_receipt holds_foreign_def is_foreign_def bind_res_Inr_iff materialization_key_def
        split: sum.split option.splits)
  have exact: "keeps ?I (if b then eret False else ledger_get g)" for b and g :: "lock_file \<Rightarrow> lock_error + bool"
    by (auto simp: keeps_iff ledger_get_def eret_def split: sum.split)
  have ds: "\<forall>d\<in>set ds. de_skill_key d \<noteq> k \<longrightarrow> \<not> overlaps (de_skill_key d) k" using Cons.prems(2) by simp
  note pass = Cons.IH [OF Cons.prems(1) ds]
  have get: "valid ?I (download_desired env agentType agentId localKeys missing ds skipped (map_set ?key a downloads)) ?ok (\<lambda>_. ?I)"
    if "?key \<noteq> k" for a
  proof -
    have "\<forall>x\<in>set (map_keys (map_set ?key a downloads)). \<not> overlaps x k" using Cons.prems that by simp
    from Cons.IH [OF this ds] show ?thesis .
  qed
  let ?next = "ebind (if ?key \<in> set missing then eret False
      else ledger_get (hasExactProjectSkillMaterialization (pj_parse env) (desiredInput agentType agentId d))) (\<lambda>have.
        if have then download_desired env agentType agentId localKeys missing ds skipped downloads
        else ebind (downloadDesiredArchive env agentId d) (\<lambda>archive.
          download_desired env agentType agentId localKeys missing ds skipped (map_set ?key archive downloads)))"
  have go: "valid ?I ?next ?ok (\<lambda>_. ?I)" if "?key \<noteq> k"
    by (rule valid_bind [OF exact [unfolded keeps_def]], rule valid_if [OF pass],
        rule valid_bind [OF foreign_download_one [OF leaves_aloneD(1) [OF env], unfolded keeps_def]], rule get [OF that])
  have "valid (\<lambda>s. ?I s \<and> (?key = k \<longrightarrow> ?blocked m)) (if ?blocked m
      then download_desired env agentType agentId localKeys missing ds (set_add ?key skipped) downloads else ?next) ?ok (\<lambda>_. ?I)" for m
  proof (cases "?blocked m")
    case True
    then show ?thesis by (simp only: if_True) (rule valid_pre [OF pass], simp)
  next
    case False
    show ?thesis
    proof (cases "?key = k")
      case True
      then have "\<not> (?key = k \<longrightarrow> ?blocked m)" using False by blast
      then show ?thesis by (simp only: valid_def) blast
    next
      case other: False
      show ?thesis using False by (simp only: if_False) (rule valid_pre [OF go [OF other]], simp)
    qed
  qed
  note other = valid_bind [OF ask this]
  show ?case
    unfolding download_desired.simps Let_def by (rule valid_if, rule pass, rule other)
qed

lemma foreign_forget:
  assumes codec: "json_file_codec (pj_parse env)" and owned: "\<forall>x\<in>set owned. \<not> overlaps (mt_local_skill_key x) k"
  shows "keeps (holds_foreign F env agentType agentId k r) (forget_missing env agentType agentId skipped missing owned)"
  using owned
proof (induction owned)
  case (Cons x owned)
  then show ?case
    by (auto simp: Let_def intro!: keeps_flow foreign_remove [OF codec] simp: priorInput_def)
qed (simp add: keeps_ret)

text \<open>C25. The Skills of others are safe: let \<open>k\<close> be a Skill that has no receipt but is listed by the adapter
  (the user's own), or whose receipt is not of this Agent's reconciliation, and let no other Skill that
  the Cloud desires or this Agent holds lie inside the folder of \<open>k\<close> or around it. Then, whatever the Cloud
  desires (\<open>k\<close> itself included), and however the reconciliation ends, with or without a rollback,
  everything that was true of the folder of \<open>k\<close> before is true after it, and its receipt is what it was.\<close>

theorem foreign_skills_untouched:
  assumes "\<And>j. json_ok j \<Longrightarrow> pj_parse env (stringify j) = Some j"
    and "\<And>j. json_ok j \<Longrightarrow> pj_parse env (stringify_pretty j @ [newline]) = Some j"
    and env: "leaves_alone (holds_foreign F env agentType agentId k r) env k (r = None)" and r: "is_foreign agentId r"
    and s: "holds_foreign F env agentType agentId k r s"
    and run: "reconcileConnectedProjectSkills env agentType agentId s = (res, s')"
  shows "F (en_world s') \<and> lock_receipts env s' (slot agentType k) = r"
proof -
  note codec = json_file_codecI [OF assms(1,2)]
  let ?I = "holds_foreign F env agentType agentId k r"
  let ?owned = "\<lambda>l. readProjectSkillMaterializationsForReconcile (pj_parse env) agentType agentId l"
  have "keeps ?I (reconcileConnectedProjectSkills env agentType agentId)"
    unfolding reconcileConnectedProjectSkills_def
  proof (rule keeps_then [OF adapter_keepsD(1) [OF leaves_aloneD(1) [OF env]]], rule keeps_guard [OF leaves_aloneD(2) [OF env]])
    fix inv :: "string \<times> desired_skill list" assume apart: "\<forall>d\<in>set (snd inv). de_skill_key d \<noteq> k \<longrightarrow> \<not> overlaps (de_skill_key d) k"
    obtain inventoryAgent desired where inv: "inv = (inventoryAgent, desired)" by fastforce
    obtain skipped0 desiredByKey where dbk: "desired_by_key desired [] [] = (skipped0, desiredByKey)" by fastforce
    have d: "map_get desiredByKey x = Some y \<Longrightarrow> de_skill_key y = x" for x y
      using desired_by_key_facts [of "[]" desired "[]" skipped0 desiredByKey] dbk map_get_SomeD [of desiredByKey x y] by auto
    have own: "valid ?I (egets (\<lambda>s. ?owned (en_skillsLock s))) (\<lambda>ow s. ?I s \<and> (\<forall>x\<in>set ow. \<not> overlaps (mt_local_skill_key x) k)) (\<lambda>_. ?I)"
      unfolding valid_def egets_def
    proof (intro allI impI, unfold prod.case sum.case, intro conjI ballI)
      fix s x assume s: "?I s" and x: "x \<in> set (?owned (en_skillsLock s))"
      have o: "owned_by env agentType agentId (en_skillsLock s) x" by (rule owned_listed [OF x])
      moreover from o r s have "mt_local_skill_key x \<noteq> k"
        by (auto simp: holds_foreign_def is_foreign_def owned_by_def split: option.splits)
      ultimately show "\<not> overlaps (mt_local_skill_key x) k" using s by (auto simp: holds_foreign_def owned_by_def)
    qed
    have last: "keeps ?I (ethen (forget_missing env agentType agentId skipped (sy_missing y) ow)
        (ethen (apply_changes env agentType agentId desiredByKey (sy_priors y) skipped downloads)
          (if skipped \<noteq> [] then ethrow (skipped_error skipped) else eret ())))"
      if "\<forall>x\<in>set ow. \<not> overlaps (mt_local_skill_key x) k" "\<forall>x\<in>set (map_keys downloads). \<not> overlaps x k"
        "\<forall>(x, p)\<in>set (sy_priors y). mi_localSkillKey (pr_input p) = x \<and> mi_agentType (pr_input p) = agentType \<and> \<not> overlaps x k"
      for ow y skipped downloads
      by (intro keeps_flow foreign_forget foreign_apply [OF codec env d] codec that)
    have wanted: "\<forall>d\<in>set (map_values desiredByKey). de_skill_key d \<noteq> k \<longrightarrow> \<not> overlaps (de_skill_key d) k"
      using desired_by_key_keys [of "[]" "{x. x \<noteq> k \<longrightarrow> \<not> overlaps x k}" desired "[]" skipped0 desiredByKey] dbk apart inv
        desired_by_key_facts [of "[]" desired "[]" skipped0 desiredByKey] by fastforce
    have "keeps ?I (let (skipped0, desiredByKey) = desired_by_key desired [] [] in
      ebind (pj_listKeys env) (\<lambda>localKeys. ebind (egets (\<lambda>s. ?owned (en_skillsLock s))) (\<lambda>owned.
      ebind (survey_receipts env agentType agentId owned \<lparr>sy_skipped = skipped0, sy_missing = [], sy_priors = []\<rparr>) (\<lambda>y.
      ebind (download_desired env agentType agentId localKeys (sy_missing y)
          (sort_key (\<lambda>d. pj_rank env (de_skill_key d)) (map_values desiredByKey)) (sy_skipped y) []) (\<lambda>(skipped, downloads).
      ethen (forget_missing env agentType agentId skipped (sy_missing y) owned)
        (ethen (apply_changes env agentType agentId desiredByKey (sy_priors y) skipped downloads)
          (if skipped \<noteq> [] then ethrow (skipped_error skipped) else eret ())))))))"
      unfolding dbk prod.case Let_def
    proof (rule keeps_guard [OF leaves_aloneD(3) [OF env]], rule keeps_guard [OF own],
        rule keeps_guard [OF foreign_survey [OF env]], blast, simp)
      fix localKeys and ow :: "materialization list" and y
      assume listed: "r = None \<longrightarrow> k \<in> set localKeys" and ow: "\<forall>x\<in>set ow. \<not> overlaps (mt_local_skill_key x) k"
        and y: "\<forall>(x, p)\<in>set (sy_priors y). mi_localSkillKey (pr_input p) = x \<and> mi_agentType (pr_input p) = agentType \<and> \<not> overlaps x k"
      have dl: "valid ?I (download_desired env agentType agentId localKeys (sy_missing y) ds (sy_skipped y) [])
          (\<lambda>a s. ?I s \<and> (case a of (sk, dl) \<Rightarrow> \<forall>x\<in>set (map_keys dl). \<not> overlaps x k)) (\<lambda>_. ?I)"
        if "\<forall>d\<in>set ds. de_skill_key d \<noteq> k \<longrightarrow> \<not> overlaps (de_skill_key d) k" for ds
        by (rule valid_post [OF foreign_download [OF env r _ _ that]]) (use listed in auto)
      show "keeps ?I (ebind (download_desired env agentType agentId localKeys (sy_missing y)
          (sort_key (\<lambda>d. pj_rank env (de_skill_key d)) (map_values desiredByKey)) (sy_skipped y) []) (\<lambda>(skipped, downloads).
        ethen (forget_missing env agentType agentId skipped (sy_missing y) ow)
          (ethen (apply_changes env agentType agentId desiredByKey (sy_priors y) skipped downloads)
            (if skipped \<noteq> [] then ethrow (skipped_error skipped) else eret ()))))"
        by (rule keeps_guard [OF dl]) (use wanted in \<open>auto intro!: last ow y\<close>)
    qed
    then show "keeps ?I (case inv of (inventoryAgent, desired) \<Rightarrow>
        if inventoryAgent \<noteq> agentId then ethrow (PlainError ''Project Skill inventory Agent mismatch'')
        else (let (skipped0, desiredByKey) = desired_by_key desired [] [] in
      ebind (pj_listKeys env) (\<lambda>localKeys. ebind (egets (\<lambda>s. ?owned (en_skillsLock s))) (\<lambda>owned.
      ebind (survey_receipts env agentType agentId owned \<lparr>sy_skipped = skipped0, sy_missing = [], sy_priors = []\<rparr>) (\<lambda>y.
      ebind (download_desired env agentType agentId localKeys (sy_missing y)
          (sort_key (\<lambda>d. pj_rank env (de_skill_key d)) (map_values desiredByKey)) (sy_skipped y) []) (\<lambda>(skipped, downloads).
      ethen (forget_missing env agentType agentId skipped (sy_missing y) owned)
        (ethen (apply_changes env agentType agentId desiredByKey (sy_priors y) skipped downloads)
          (if skipped \<noteq> [] then ethrow (skipped_error skipped) else eret ()))))))))"
      unfolding inv prod.case by (intro keeps_flow)
  qed
  from keepsD [OF this s run] show ?thesis by (simp add: holds_foreign_def)
qed

lemma sample_leaves_alone:
  "leaves_alone (holds_foreign (\<lambda>w. map_get w ''mine'' = Some ''x'') sample_project_env ''codex'' ''agent'' ''mine'' None) sample_project_env ''mine'' True"
  unfolding leaves_alone_def adapter_keeps_def
  by (auto simp: sample_project_env_def emodify_def eret_def egets_def keeps_def valid_def holds_foreign_def overlaps_def path_above_def
      split: option.split) (metis domI dom_map_of_conv_image_fst)

theorem foreign_skills_untouched_witness:
  "\<exists>s'. reconcileConnectedProjectSkills sample_project_env ''codex'' ''agent'' (fresh_engine [(''mine'', ''x'')]) =
       (Inl (PlainError ''Project Skill notes did not install with the expected content''), s') \<and>
     map_get (en_world s') ''mine'' = Some ''x''"
proof -
  let ?F = "\<lambda>w. map_get w ''mine'' = Some ''x''"
  obtain res s' where run: "reconcileConnectedProjectSkills sample_project_env ''codex'' ''agent'' (fresh_engine [(''mine'', ''x'')]) = (res, s')"
    by fastforce
  have parse: "pj_parse sample_project_env = json_parse" by (simp add: sample_project_env_def)
  have codec: "json_ok j \<Longrightarrow> pj_parse sample_project_env (stringify j) = Some j"
    "json_ok j \<Longrightarrow> pj_parse sample_project_env (stringify_pretty j @ [newline]) = Some j" for j
    unfolding parse using parser.parse_stringify parser.parse_pretty by simp_all
  have s: "holds_foreign ?F sample_project_env ''codex'' ''agent'' ''mine'' None (fresh_engine [(''mine'', ''x'')])"
    by (simp add: holds_foreign_def fresh_engine_def ledger_ok_empty readSkillsLock_def emptyLock_def)
  have "leaves_alone (holds_foreign ?F sample_project_env ''codex'' ''agent'' ''mine'' None) sample_project_env ''mine'' (None = (None :: materialization option))"
    using sample_leaves_alone by simp
  from foreign_skills_untouched [OF codec this _ s run] have "?F (en_world s')" by (simp add: is_foreign_def)
  moreover have "res = Inl (PlainError ''Project Skill notes did not install with the expected content'')"
    using sample_project_run run by simp
  ultimately show ?thesis using run by blast
qed

text \<open>The condition on nested keys is needed: ownership is checked for the key itself. Where folders nest, as
  in the adapter of Hermes, installing \<open>notes\<close> replaces the folder that holds the user's \<open>notes/mine\<close>, and the
  rollback of the failed update does not bring it back.\<close>

definition nested_project_env :: "(string, string) js_map project_env" where
  "nested_project_env = sample_project_env\<lparr>pj_writeArchive := (\<lambda>k a. emodify (\<lambda>s.
     s\<lparr>en_world := map_set k a (filter (\<lambda>(x, _). \<not> path_above k x) (en_world s))\<rparr>))\<rparr>"

lemma nested_skill_lost:
  "map_get (en_world (snd (reconcileConnectedProjectSkills nested_project_env ''codex'' ''agent'' (fresh_engine [(''notes/mine'', ''x'')]))))
     ''notes/mine'' = None"
  by code_simp

end
