(* ===== verification/SkillSyncLaws.thy ===== *)
theory SkillSyncLaws
  imports SkillSync ProjectForeign
begin

text \<open>
  The Skill module of the daemon never carries on with a revoked key it has noticed, and it treats the
  events of the Cloud as hints to look at the local files.
\<close>

section \<open>What the inner functions leave alone\<close>

text \<open>A predicate of the daemon's own variables and of the abort signal. The functions of the inventory and
  of the ledger keep it, whatever they do to queue, ledger and health.\<close>

definition outer :: "('w engine \<Rightarrow> bool) \<Rightarrow> bool" where
  "outer I \<longleftrightarrow> (\<forall>s s'. en_world s = en_world s' \<longrightarrow> en_aborted s = en_aborted s' \<longrightarrow> I s = I s')"

definition inner :: "('w, 'a) eng \<Rightarrow> bool" where
  "inner m \<longleftrightarrow> (\<forall>s. en_world (snd (m s)) = en_world s \<and> en_aborted (snd (m s)) = en_aborted s)"

lemma outer_inner: "outer I \<Longrightarrow> inner m \<Longrightarrow> keeps I m"
  unfolding outer_def inner_def keeps_iff by blast

lemma inner_enqueue: "inner (ethen (en_enqueue input) (eret a))"
  by (auto simp: inner_def en_enqueue_def eng_defs split: prod.split)

lemma inner_fun: "(\<And>s. inner (f s)) \<Longrightarrow> inner (\<lambda>s. f s s)"
  by (simp add: inner_def)

lemma inner_enqueueDelete: "inner (en_enqueueDelete env opts k p)"
  unfolding en_enqueueDelete_def by (rule inner_fun) (rule inner_enqueue)

lemma inner_enqueuePush: "inner (en_enqueuePush env opts k p h)"
  unfolding en_enqueuePush_def by (rule inner_fun) (rule inner_enqueue)

lemma innerD: "inner m \<Longrightarrow> en_world (snd (m s)) = en_world s" "inner m \<Longrightarrow> en_aborted (snd (m s)) = en_aborted s"
  by (simp_all add: inner_def)

lemma inner_materialization: "inner (en_materialization env opts k)"
  by (auto simp: inner_def en_materialization_def split: sum.split)

lemma inner_cleanup: "inner (enqueueMaterializedSkillClaimCleanup env opts k)"
  by (simp add: inner_def enqueueMaterializedSkillClaimCleanup_def innerD [OF inner_enqueueDelete] split: option.split)

lemma inner_absent: "inner (enqueueAbsentSkill env opts p keys trusted k)"
  by (simp add: inner_def enqueueAbsentSkill_def innerD [OF inner_enqueueDelete])

lemma inner_health: "inner (en_healthSet a r m)" "inner (en_healthClear a r)" "inner en_clearScans"
  "inner (emodify (\<lambda>s. s\<lparr>en_health := f (en_health s)\<rparr>))"
  by (simp_all add: inner_def en_healthSet_def en_healthClear_def en_clearScans_def emodify_def)

lemma inner_ledger: "inner (ledger_get f)" "inner (ledger_remove penv i)" "inner (ledger_record penv i)" "inner (ledger_put g)"
  by (auto simp: inner_def ledger_get_def ledger_remove_def ledger_record_def ledger_put_def split: sum.split)

lemmas inner_rules = inner_enqueueDelete inner_enqueuePush inner_materialization inner_cleanup inner_absent inner_health inner_ledger

text \<open>The computations given as arguments keep the predicate, too.\<close>

definition inventory_keeps :: "('w engine \<Rightarrow> bool) \<Rightarrow> 'w skill_env \<Rightarrow> bool" where
  "inventory_keeps I env \<longleftrightarrow> outer I \<and> keeps I (sv_listKeys env) \<and> (\<forall>k. keeps I (sv_folderHash env k))"

lemma keeps_inner: "inventory_keeps I env \<Longrightarrow> inner m \<Longrightarrow> keeps I m"
  by (simp add: inventory_keeps_def outer_inner)

lemma reconcile_outer:
  assumes "inventory_keeps I env"
  shows "keeps I (reconcileAgentSkillProjection env opts projectId trusted)"
proof -
  have env: "keeps I (sv_listKeys env)" "\<And>k. keeps I (sv_folderHash env k)" using assms by (auto simp: inventory_keeps_def)
  note inn = inner_rules [THEN keeps_inner [OF assms]]
  have key: "keeps I (reconcile_key env opts projectId l c st trusted k)" for l c st k
    unfolding reconcile_key_def by (intro keeps_flow env inn)
  show ?thesis
    unfolding reconcileAgentSkillProjection_def Let_def
    by (rule keeps_bind [OF env(1)], rule keeps_then [OF keeps_throwIfAborted], rule keeps_foreach_of, rule key)
qed

lemma change_outer:
  assumes "inventory_keeps I env"
  shows "keeps I (enqueueIfChanged env opts k projectId)"
proof -
  have env: "\<And>k. keeps I (sv_folderHash env k)" using assms by (auto simp: inventory_keeps_def)
  note inn = inner_rules [THEN keeps_inner [OF assms]]
  show ?thesis
    unfolding enqueueIfChanged_def by (intro keeps_flow env inn)
qed

lemma pages_outer: "(\<And>p e. keeps I (get p e)) \<Longrightarrow> keeps I (list_pages get n page e out t rv)"
proof (induction n arbitrary: page e out t rv)
  case (Suc n)
  then show ?case by (auto intro!: keeps_flow split: sum.split prod.split)
qed (simp add: keeps_ret)

lemma listing_outer:
  assumes "inventory_keeps I env" and "\<And>p e. keeps I (get p e)"
  shows "keeps I (reconcileAgentSkillProjectionListing env get opts projectId e b)"
  unfolding reconcileAgentSkillProjectionListing_def listAllCloudSkills_def
  by (intro keeps_flow pages_outer reconcile_outer assms)

lemma initial_outer:
  assumes "inventory_keeps I env" and "\<And>p e. keeps I (get p e)"
  shows "keeps I (initialAgentProjectionSync env get opts projectId)"
proof -
  note inn = inner_rules [THEN keeps_inner [OF assms(1)]]
  show ?thesis
    unfolding initialAgentProjectionSync_def
    by (intro keeps_flow reconcile_outer listing_outer assms inn)
      (auto intro!: keeps_flow inn split: bool.split option.split)
qed

section \<open>The same for the Project Skills\<close>

definition project_keeps :: "('w engine \<Rightarrow> bool) \<Rightarrow> 'w project_env \<Rightarrow> bool" where
  "project_keeps I env \<longleftrightarrow> outer I \<and> adapter_keeps I env \<and> (\<forall>a. keeps I (pj_getDesired env a)) \<and> keeps I (pj_listKeys env) \<and>
     (\<forall>x a. keeps I (pj_writeArchive env x a)) \<and> (\<forall>x. keeps I (pj_remove env x))"

lemma project_keepsD:
  assumes "project_keeps I env"
  shows "outer I" "adapter_keeps I env" "keeps I (pj_listKeys env)" "keeps I (pj_writeArchive env x a)" "keeps I (pj_remove env x)"
    "keeps I (pj_getDesired env agent)"
  using assms by (simp_all add: project_keeps_def)

lemma attempt_outer:
  assumes "keeps I m" and "\<And>a. keeps I (k a)"
  shows "keeps I (attempt_change applied m k)"
proof -
  have "keeps I (case r of Inl e \<Rightarrow> eret (applied, Some e) | Inr a \<Rightarrow> k a)" for r
    using assms(2) by (cases r) (simp_all add: keeps_ret)
  then show ?thesis unfolding attempt_change_def by (intro keeps_flow assms(1))
qed

lemma commit_outer:
  assumes "outer I" and "keeps I m"
  shows "keeps I (ledger_commit env i m)"
  unfolding ledger_commit_def by (intro keeps_flow inner_ledger [THEN outer_inner [OF assms(1)]] assms(2))

lemma install_outer: "project_keeps I env \<Longrightarrow> keeps I (install_all env agentType agentId desiredByKey priors work applied)"
proof (induction work arbitrary: applied)
  case (Cons w work)
  note D = project_keepsD [OF Cons.prems]
  obtain x a where w: "w = (x, a)" by fastforce
  show ?case
    unfolding w install_all.simps Let_def
    by (intro keeps_flow attempt_outer commit_outer D adapter_keepsD(8) [OF D(2)] Cons.IH Cons.prems)
qed (simp add: keeps_ret)

lemma removals_outer: "project_keeps I env \<Longrightarrow> keeps I (remove_undesired env skipped desiredByKey work applied)"
proof (induction work arbitrary: applied)
  case (Cons p work)
  note D = project_keepsD [OF Cons.prems]
  show ?case
    unfolding remove_undesired.simps Let_def
    by (intro keeps_flow attempt_outer D inner_ledger [THEN outer_inner [OF D(1)]] Cons.IH Cons.prems)
qed (simp add: keeps_ret)

lemma undo_outer: "project_keeps I env \<Longrightarrow> keeps I (undo_all env cs errors)"
proof (induction cs arbitrary: errors)
  case (Cons c cs)
  note D = project_keepsD [OF Cons.prems]
  have "keeps I (undo_change env c)"
    by (cases "(env, c)" rule: undo_change.cases) (auto intro!: keeps_flow D(4,5) inner_ledger [THEN outer_inner [OF D(1)]])
  then show ?case unfolding undo_all.simps by (intro keeps_flow Cons.IH Cons.prems)
qed (simp add: keeps_ret)

lemma apply_outer: "project_keeps I env \<Longrightarrow> keeps I (apply_changes env agentType agentId desiredByKey priors skipped downloads)"
  unfolding apply_changes_def by (intro keeps_flow install_outer removals_outer undo_outer) (auto intro!: keeps_flow removals_outer split: option.split)

lemma survey_outer: "project_keeps I env \<Longrightarrow> keeps I (survey_receipts env agentType agentId owned y)"
proof (induction owned arbitrary: y)
  case (Cons m owned)
  note L = adapter_keepsD [OF project_keepsD(2) [OF Cons.prems]]
  have "keeps I (snapshotOwnedTarget env i)" for i
    unfolding snapshotOwnedTarget_def Let_def by (intro keeps_flow L(7))
  then show ?case unfolding survey_receipts.simps Let_def by (intro keeps_flow Cons.IH Cons.prems)
qed (simp add: keeps_ret)

lemma download_outer: "project_keeps I env \<Longrightarrow> keeps I (download_desired env agentType agentId localKeys missing ds skipped downloads)"
proof (induction ds arbitrary: skipped downloads)
  case (Cons d ds)
  note D = project_keepsD [OF Cons.prems]
  show ?case
    unfolding download_desired.simps Let_def
    by (intro keeps_flow inner_ledger [THEN outer_inner [OF D(1)]] foreign_download_one [OF D(2)] Cons.IH Cons.prems)
qed (simp add: keeps_ret)

lemma forget_outer: "project_keeps I env \<Longrightarrow> keeps I (forget_missing env agentType agentId skipped missing owned)"
proof (induction owned)
  case (Cons m owned)
  note D = project_keepsD [OF Cons.prems]
  show ?case
    unfolding forget_missing.simps Let_def by (intro keeps_flow inner_ledger [THEN outer_inner [OF D(1)]] Cons.IH Cons.prems)
qed (simp add: keeps_ret)

lemma project_outer:
  assumes "project_keeps I env"
  shows "keeps I (reconcileConnectedProjectSkills env agentType agentId)"
  unfolding reconcileConnectedProjectSkills_def
  by (intro keeps_flow project_keepsD(3,6) [OF assms] adapter_keepsD(1) [OF project_keepsD(2) [OF assms]])
    (auto intro!: keeps_flow project_keepsD(3) [OF assms] survey_outer download_outer forget_outer apply_outer assms split: prod.split)

section \<open>A revoked key\<close>

text \<open>The daemon is stopped: the supervisor will not restart it, the Vault files are withdrawn and a last
  heartbeat tells the reason.\<close>

definition stopped_for_auth :: "'w daemon engine \<Rightarrow> bool" where
  "stopped_for_auth s \<longleftrightarrow> da_authFailureFired (en_world s) \<and> en_aborted s \<and> da_exitCode (en_world s) = Some 2 \<and>
     \<not> da_supervised (en_world s) \<and> da_vaultRevoked (en_world s) \<and> da_finalHeartbeat (en_world s) \<noteq> None"

definition auth_consistent :: "'w daemon engine \<Rightarrow> bool" where
  "auth_consistent s \<longleftrightarrow> (da_authFailureFired (en_world s) \<longrightarrow> stopped_for_auth s)"

lemma outer_auth: "outer auth_consistent"
  unfolding outer_def auth_consistent_def stopped_for_auth_def by simp

text \<open>What is awaited may stop the daemon, but only as the daemon stops itself.\<close>

definition skill_env_consistent :: "'w skill_sync_env \<Rightarrow> bool" where
  "skill_env_consistent env \<longleftrightarrow> inventory_keeps auth_consistent (ks_skill env) \<and> project_keeps auth_consistent (ks_project env) \<and>
     (\<forall>p e. keeps auth_consistent (ks_pages env p e)) \<and> keeps auth_consistent (ks_getAgentProject env) \<and>
     keeps auth_consistent (ks_sleep env)"

lemma skill_env_consistentD:
  assumes "skill_env_consistent env"
  shows "inventory_keeps auth_consistent (ks_skill env)" "project_keeps auth_consistent (ks_project env)"
    "keeps auth_consistent (ks_pages env p e)" "keeps auth_consistent (ks_getAgentProject env)" "keeps auth_consistent (ks_sleep env)"
  using assms by (simp_all add: skill_env_consistent_def)

lemma trigger_stops: "valid auth_consistent (triggerAuthFailureAbort origin) (\<lambda>_. stopped_for_auth) (\<lambda>_ _. False)"
  by (auto simp: valid_def triggerAuthFailureAbort_def stop_process_def da_modify_def en_healthSet_def eng_defs
      auth_consistent_def stopped_for_auth_def)

lemma stopped_consistent: "stopped_for_auth s \<Longrightarrow> auth_consistent s"
  by (simp add: auth_consistent_def)

lemma keeps_stop: "keeps auth_consistent (stopDisconnectedAgent hint)"
  by (auto simp: keeps_iff stopDisconnectedAgent_def stop_process_def da_modify_def eng_defs auth_consistent_def stopped_for_auth_def)

lemma keeps_trigger: "keeps auth_consistent (triggerAuthFailureAbort origin)"
  unfolding keeps_def by (rule valid_post [OF trigger_stops]) (auto intro: stopped_consistent)

lemma keeps_daemon:
  "(\<And>d. da_authFailureFired (f d) = da_authFailureFired d \<and> da_exitCode (f d) = da_exitCode d \<and> da_supervised (f d) = da_supervised d \<and>
     da_vaultRevoked (f d) = da_vaultRevoked d \<and> da_finalHeartbeat (f d) = da_finalHeartbeat d) \<Longrightarrow> keeps auth_consistent (da_modify f)"
  by (simp add: keeps_iff da_modify_def emodify_def auth_consistent_def stopped_for_auth_def)

lemmas keeps_consistent = keeps_flow inner_health [THEN outer_inner [OF outer_auth]] keeps_stop keeps_trigger

lemma fetch_consistent: "skill_env_consistent env \<Longrightarrow> keeps auth_consistent (fetchDefaultProjectId env opts)"
  unfolding fetchDefaultProjectId_def
  by (intro keeps_consistent skill_env_consistentD(4)) (auto intro!: keeps_consistent split: option.split)

lemma rounds_consistent: "skill_env_consistent env \<Longrightarrow> keeps auth_consistent (project_rounds env opts n)"
proof (induction n)
  case (Suc n)
  then show ?case
    unfolding project_rounds.simps by (intro keeps_consistent keeps_daemon project_outer skill_env_consistentD(2)) simp_all
qed (simp add: keeps_ret)

lemma project_skills_consistent: "skill_env_consistent env \<Longrightarrow> keeps auth_consistent (reconcileProjectSkills env opts n)"
  unfolding reconcileProjectSkills_def by (intro keeps_consistent keeps_daemon rounds_consistent) simp_all

lemma inventory_consistent: "skill_env_consistent env \<Longrightarrow> keeps auth_consistent (inventory_rounds env opts projectId n)"
proof (induction n)
  case (Suc n)
  then show ?case
    unfolding inventory_rounds.simps by (intro keeps_consistent keeps_daemon reconcile_outer skill_env_consistentD(1)) simp_all
qed (simp add: keeps_ret)

text \<open>A failure that is thrown on is a revoked key, and then the daemon is stopped.\<close>

lemma stop_or_show_stops:
  "valid auth_consistent (stop_or_show area resource pre error) (\<lambda>_. auth_consistent) (\<lambda>_. stopped_for_auth)"
  unfolding stop_or_show_def
proof (rule valid_if)
  show "valid auth_consistent (ethen (triggerAuthFailureAbort ''skill_sync'') (ethrow error)) (\<lambda>_. auth_consistent) (\<lambda>_. stopped_for_auth)"
    by (rule valid_then [where R = stopped_for_auth], rule valid_post [OF trigger_stops], assumption, simp, simp add: valid_def ethrow_def)
  show "valid auth_consistent (en_healthSet area resource (pre @ toErrorMessage error)) (\<lambda>_. auth_consistent) (\<lambda>_. stopped_for_auth)"
    by (simp add: valid_def en_healthSet_def emodify_def auth_consistent_def stopped_for_auth_def)
qed

text \<open>A guarded callback ends well or, with the daemon stopped, in an error.\<close>

lemma guarded_stops:
  assumes "keeps auth_consistent m"
  shows "valid auth_consistent (ecatch m (stop_or_show area resource pre)) (\<lambda>_. auth_consistent) (\<lambda>_. stopped_for_auth)"
  by (rule valid_catch [OF assms [unfolded keeps_def] stop_or_show_stops])

lemma project_sync_stops:
  "skill_env_consistent env \<Longrightarrow> valid auth_consistent (sync_project_skills env opts n) (\<lambda>_. auth_consistent) (\<lambda>_. stopped_for_auth)"
  unfolding sync_project_skills_def by (intro guarded_stops keeps_consistent project_skills_consistent)

lemma daemon_then:
  "(\<And>d. da_authFailureFired (f d) = da_authFailureFired d \<and> da_exitCode (f d) = da_exitCode d \<and> da_supervised (f d) = da_supervised d \<and>
     da_vaultRevoked (f d) = da_vaultRevoked d \<and> da_finalHeartbeat (f d) = da_finalHeartbeat d) \<Longrightarrow>
   valid auth_consistent n Q E \<Longrightarrow> valid auth_consistent (ethen (da_modify f) n) Q E"
  by (simp add: valid_def ethen_def ebind_def da_modify_def emodify_def auth_consistent_def stopped_for_auth_def)

lemma event_stops:
  assumes "skill_env_consistent env"
  shows "valid auth_consistent (onServerEvent env opts projectId n event) (\<lambda>_. auth_consistent) (\<lambda>_. stopped_for_auth)"
proof -
  have scan: "valid auth_consistent (event_scan env opts projectId k revision) (\<lambda>_. auth_consistent) (\<lambda>_. stopped_for_auth)" for k revision
    unfolding event_scan_def
    by (rule daemon_then, simp, intro guarded_stops keeps_consistent reconcile_outer skill_env_consistentD(1) assms)
  have ret: "valid auth_consistent (eret ()) (\<lambda>_. auth_consistent) (\<lambda>_. stopped_for_auth)" by (simp add: valid_def eret_def)
  show ?thesis
    unfolding onServerEvent_def
    by (cases event) (auto intro: scan ret project_sync_stops [OF assms] split: option.split)
qed

lemma inventory_stops:
  assumes "skill_env_consistent env"
  shows "valid auth_consistent (onSkillInventoryChanged env opts projectId n) (\<lambda>_. auth_consistent) (\<lambda>_. stopped_for_auth)"
  unfolding onSkillInventoryChanged_def
  by (rule daemon_then, simp, intro guarded_stops keeps_consistent inventory_consistent assms)

lemma initial_stops:
  assumes "skill_env_consistent env"
  shows "valid auth_consistent (initial_sync env opts projectId)
    (\<lambda>r s. auth_consistent s \<and> (r = None \<longrightarrow> stopped_for_auth s)) (\<lambda>_. auth_consistent)"
proof -
  let ?Q = "\<lambda>r s. auth_consistent s \<and> (r = None \<longrightarrow> stopped_for_auth s)"
  have store: "valid auth_consistent (ethen (case found of None \<Rightarrow> eret ()
      | Some (revision, etag) \<Rightarrow> da_modify (\<lambda>d. d\<lparr>da_lastSeenRevision := Some revision, da_listingEtag := Some etag\<rparr>))
      (eret (Some projectId))) ?Q (\<lambda>_. auth_consistent)" for found
    by (cases found) (auto simp: valid_def eng_defs da_modify_def auth_consistent_def stopped_for_auth_def)
  have ok: "valid auth_consistent (ebind (initialAgentProjectionSync (ks_skill env) (ks_pages env) opts projectId) (\<lambda>found.
      ethen (case found of None \<Rightarrow> eret ()
        | Some (revision, etag) \<Rightarrow> da_modify (\<lambda>d. d\<lparr>da_lastSeenRevision := Some revision, da_listingEtag := Some etag\<rparr>))
      (eret (Some projectId)))) ?Q (\<lambda>_. auth_consistent)"
    by (rule valid_bind [OF initial_outer [OF skill_env_consistentD(1,3) [OF assms], unfolded keeps_def] store])
  have err: "valid auth_consistent (if isAuthFailure e then ethen (triggerAuthFailureAbort ''initial_sync'') (eret None) else ethrow e)
      ?Q (\<lambda>_. auth_consistent)" for e
  proof (rule valid_if)
    show "valid auth_consistent (ethen (triggerAuthFailureAbort ''initial_sync'') (eret None)) ?Q (\<lambda>_. auth_consistent)"
      by (rule valid_then [where R = stopped_for_auth], rule valid_post [OF trigger_stops], assumption, simp)
        (simp add: valid_def eret_def stopped_consistent)
  qed (simp add: valid_def ethrow_def)
  show ?thesis unfolding initial_sync_def by (rule valid_catch [OF ok err])
qed

lemma prepare_stops:
  assumes "skill_env_consistent env"
  shows "valid auth_consistent (prepareSkillSync env opts n)
    (\<lambda>r s. auth_consistent s \<and> (r = None \<longrightarrow> stopped_for_auth s)) (\<lambda>_. auth_consistent)"
proof -
  have load: "keeps auth_consistent (load_claims env opts p)" for p
    by (simp add: keeps_iff load_claims_def emodify_def auth_consistent_def stopped_for_auth_def)
  have project: "valid auth_consistent (if ks_delivery env then sync_project_skills env opts n else eret ()) (\<lambda>_. auth_consistent) (\<lambda>_. auth_consistent)"
  proof (rule valid_if)
    show "valid auth_consistent (sync_project_skills env opts n) (\<lambda>_. auth_consistent) (\<lambda>_. auth_consistent)"
      by (rule valid_post [OF project_sync_stops [OF assms]]) (auto intro: stopped_consistent)
  qed (simp add: valid_def eret_def)
  show ?thesis
    unfolding prepareSkillSync_def
    by (rule valid_bind [OF fetch_consistent [OF assms, unfolded keeps_def]], rule valid_then [OF load [unfolded keeps_def]],
        rule valid_then [OF project initial_stops [OF assms]])
qed

lemma attempt_stops:
  assumes "skill_env_consistent env"
  shows "valid auth_consistent (skills_attempt env opts n)
    (\<lambda>r s. r = None \<longrightarrow> stopped_for_auth s) (\<lambda>e s. isAuthFailure e \<longrightarrow> stopped_for_auth s)"
proof -
  let ?Q = "\<lambda>r :: string option. \<lambda>s. r = None \<longrightarrow> stopped_for_auth s" and ?E = "\<lambda>e s. isAuthFailure e \<longrightarrow> stopped_for_auth s"
  have "valid auth_consistent (ethen (if isAuthFailure e then triggerAuthFailureAbort ''skills_sync'' else eret ()) (ethrow e)) ?Q ?E" for e
  proof (cases "isAuthFailure e")
    case True
    then show ?thesis
      by (simp only: if_True) (rule valid_then [where R = stopped_for_auth], rule valid_post [OF trigger_stops], assumption, simp,
        simp add: valid_def ethrow_def)
  qed (simp add: valid_def eng_defs)
  note failed = this
  have "valid auth_consistent (prepareSkillSync env opts n) ?Q (\<lambda>_. auth_consistent)"
    by (rule valid_post [OF prepare_stops [OF assms]]) auto
  then show ?thesis unfolding skills_attempt_def by (rule valid_catch [OF _ failed])
qed

section \<open>What becomes of a failure\<close>

text \<open>\<open>halted\<close>: the process is on its way out and is not restarted, the Vault files are withdrawn. A daemon
  \<^const>\<open>stopped_for_auth\<close> is halted and, besides, has sent its last heartbeat.\<close>

definition halted :: "'w daemon engine \<Rightarrow> bool" where
  "halted s \<longleftrightarrow> en_aborted s \<and> da_exitCode (en_world s) = Some 2 \<and> \<not> da_supervised (en_world s) \<and> da_vaultRevoked (en_world s)"

text \<open>What a guarded callback makes of the end of its body. With success it ends well, too. A revoked key is
  thrown on, and by then the daemon is stopped; of any other error it keeps running and shows the message.\<close>

definition unharmed :: "'w daemon engine \<Rightarrow> 'w daemon engine \<Rightarrow> bool" where
  "unharmed s s' \<longleftrightarrow> en_world s' = en_world s \<and> en_aborted s' = en_aborted s \<and> en_queue s' = en_queue s \<and>
     en_skillsLock s' = en_skillsLock s"

definition shown_as :: "health_area \<Rightarrow> string \<Rightarrow> string \<Rightarrow> 'w daemon engine \<Rightarrow> bool" where
  "shown_as area resource message s \<longleftrightarrow>
     map_get (area_errors area (en_health s)) resource = Some \<lparr>he_message = take 500 message, he_transient = False\<rparr>"

definition answers :: "health_area \<Rightarrow> string \<Rightarrow> string \<Rightarrow> (sync_error + 'a) \<times> 'w daemon engine \<Rightarrow> (sync_error + unit) \<times> 'w daemon engine \<Rightarrow> bool" where
  "answers area resource pre body outcome \<longleftrightarrow>
     (case (body, outcome) of
        ((Inr _, s1), (r, s')) \<Rightarrow> r = Inr () \<and> unharmed s1 s'
      | ((Inl e, s1), (r, s')) \<Rightarrow>
          if isAuthFailure e then r = Inl e \<and> stopped_for_auth s'
          else r = Inr () \<and> unharmed s1 s' \<and> shown_as area resource (pre @ toErrorMessage e) s')"

lemma trigger_result:
  assumes "auth_consistent s"
  shows "\<exists>s'. triggerAuthFailureAbort origin s = (Inr (), s') \<and> stopped_for_auth s'"
proof -
  obtain r s' where run: "triggerAuthFailureAbort origin s = (r, s')" by fastforce
  show ?thesis using validD [OF trigger_stops assms run] run by (cases r) auto
qed

lemma shown: "shown_as area resource message (snd (en_healthSet area resource message s))"
  by (cases area) (simp_all add: shown_as_def en_healthSet_def emodify_def health_set_def)

lemma guard_answers:
  assumes "keeps auth_consistent m" and "auth_consistent s"
    and "\<And>a s1. \<exists>s2. k a s1 = (Inr (), s2) \<and> unharmed s1 s2"
  shows "answers area resource pre (m s) (ecatch (ebind m k) (stop_or_show area resource pre) s)"
proof -
  obtain r s1 where body: "m s = (r, s1)" by fastforce
  have c: "auth_consistent s1" using assms(1,2) body by (rule keepsD)
  show ?thesis
  proof (cases r)
    case (Inl e)
    show ?thesis
    proof (cases "isAuthFailure e")
      case True
      obtain s' where "triggerAuthFailureAbort ''skill_sync'' s1 = (Inr (), s')" "stopped_for_auth s'" using trigger_result [OF c] by blast
      then show ?thesis using True Inl body by (simp add: answers_def ecatch_def ebind_def stop_or_show_def ethen_def ethrow_def)
    next
      case False
      obtain s2 where s2: "en_healthSet area resource (pre @ toErrorMessage e) s1 = (Inr (), s2)" "unharmed s1 s2"
        "shown_as area resource (pre @ toErrorMessage e) s2"
        using shown [of area resource "pre @ toErrorMessage e" s1] by (simp add: en_healthSet_def emodify_def unharmed_def)
      then show ?thesis using False Inl body by (simp add: answers_def ecatch_def ebind_def stop_or_show_def)
    qed
  next
    case (Inr a)
    then show ?thesis using body assms(3) [of a s1] by (auto simp: answers_def ecatch_def ebind_def)
  qed
qed

lemma unharmed_trans: "unharmed s s1 \<Longrightarrow> unharmed s1 s2 \<Longrightarrow> unharmed s s2"
  by (simp add: unharmed_def)

lemma clearing:
  "\<exists>s2. en_healthClear area resource s = (Inr (), s2) \<and> unharmed s s2"
  "\<exists>s2. ethen (en_healthClear area resource) en_clearScans s = (Inr (), s2) \<and> unharmed s s2"
  by (simp_all add: en_healthClear_def en_clearScans_def ethen_def ebind_def emodify_def unharmed_def)

lemma due_modify:
  "(\<And>d. da_authFailureFired (f d) = da_authFailureFired d \<and> da_exitCode (f d) = da_exitCode d \<and> da_supervised (f d) = da_supervised d \<and>
     da_vaultRevoked (f d) = da_vaultRevoked d \<and> da_finalHeartbeat (f d) = da_finalHeartbeat d) \<Longrightarrow>
   auth_consistent s \<Longrightarrow> auth_consistent (s\<lparr>en_world := f (en_world s)\<rparr>)"
  by (simp add: auth_consistent_def stopped_for_auth_def)

lemma modify_then: "ethen (da_modify f) m s = m (s\<lparr>en_world := f (en_world s)\<rparr>)"
  by (simp add: ethen_def ebind_def da_modify_def emodify_def)

lemma project_sync_answers:
  assumes "skill_env_consistent env" and "auth_consistent s"
  shows "answers Projection ''project_skills'' ''Project Skills: '' (reconcileProjectSkills env opts n s) (sync_project_skills env opts n s)"
  unfolding sync_project_skills_def ethen_def
  by (rule guard_answers [OF project_skills_consistent [OF assms(1)] assms(2)]) (rule clearing(1))

lemma inventory_answers:
  assumes "skill_env_consistent env" and "auth_consistent s"
  shows "answers Push ''skills_scan'' ''skills scan: ''
    (inventory_rounds env opts projectId n (s\<lparr>en_world := (en_world s)\<lparr>da_inventoryDue := True\<rparr>\<rparr>)) (onSkillInventoryChanged env opts projectId n s)"
  unfolding onSkillInventoryChanged_def modify_then ethen_def [of "inventory_rounds env opts projectId n"]
  by (rule guard_answers [OF inventory_consistent [OF assms(1)]], rule due_modify [OF _ assms(2)], simp, rule clearing(2))

lemma event_answers:
  assumes "skill_env_consistent env" and "auth_consistent s" and "isSkillSyncServerEvent (Skill_event kind key projectId revision)"
  shows "answers Push (''skill_scan:'' @ key) (''skill '' @ key @ '' scan: '')
    (reconcileAgentSkillProjection (ks_skill env) opts projectId [key] (s\<lparr>en_world := (en_world s)\<lparr>da_lastSeenRevision := Some revision\<rparr>\<rparr>))
    (onServerEvent env opts projectId n (Skill_event kind key projectId revision) s)"
proof -
  have run: "onServerEvent env opts projectId n (Skill_event kind key projectId revision) s = event_scan env opts projectId key revision s"
    using assms(3) by (simp add: onServerEvent_def skillInvalidationKey_def)
  show ?thesis
    unfolding run event_scan_def modify_then ethen_def [of "reconcileAgentSkillProjection (ks_skill env) opts projectId [key]"]
    by (rule guard_answers [OF reconcile_outer [OF skill_env_consistentD(1) [OF assms(1)]]], rule due_modify [OF _ assms(2)], simp, rule clearing(2))
qed

lemma prepare_consistent: "skill_env_consistent env \<Longrightarrow> keeps auth_consistent (prepareSkillSync env opts n)"
  unfolding keeps_def by (rule valid_post [OF prepare_stops]) auto

lemma failed_attempt:
  assumes "skill_env_consistent env" and "auth_consistent s" and "prepareSkillSync env opts n s = (Inl e, s1)"
  shows "if isAuthFailure e then \<exists>s'. skills_attempt env opts n s = (Inl e, s') \<and> stopped_for_auth s'
    else skills_attempt env opts n s = (Inl e, s1)"
proof -
  have "auth_consistent s1" using prepare_consistent [OF assms(1)] assms(2,3) by (rule keepsD)
  then obtain s' where "triggerAuthFailureAbort ''skills_sync'' s1 = (Inr (), s')" "stopped_for_auth s'" using trigger_result by blast
  then show ?thesis using assms(3) by (simp add: skills_attempt_def ecatch_def ethen_def ebind_def eret_def ethrow_def)
qed

lemma failed_initial:
  assumes "skill_env_consistent env" and "auth_consistent s"
    and "initialAgentProjectionSync (ks_skill env) (ks_pages env) opts projectId s = (Inl e, s1)"
  shows "if isAuthFailure e then \<exists>s'. initial_sync env opts projectId s = (Inr None, s') \<and> stopped_for_auth s'
    else initial_sync env opts projectId s = (Inl e, s1)"
proof -
  have "auth_consistent s1" using initial_outer [OF skill_env_consistentD(1,3) [OF assms(1)]] assms(2,3) by (rule keepsD)
  then obtain s' where "triggerAuthFailureAbort ''initial_sync'' s1 = (Inr (), s')" "stopped_for_auth s'" using trigger_result by blast
  then show ?thesis using assms(3) by (simp add: initial_sync_def ecatch_def ethen_def ebind_def eret_def ethrow_def)
qed

lemma stopped_halted: "stopped_for_auth s \<Longrightarrow> halted s"
  by (simp add: stopped_for_auth_def halted_def)

lemma disconnect_halts: "\<exists>s'. stopDisconnectedAgent hint s = (Inr (), s') \<and> halted s'"
  by (simp add: stopDisconnectedAgent_def stop_process_def da_modify_def eng_defs halted_def)

lemma failed_refresh:
  assumes "skill_env_consistent env" and "auth_consistent s" and "fetchDefaultProjectId env opts s = (Inl e, s1)"
  shows "if isAuthFailure e then \<exists>s'. refresh_project env opts projectId failures s = (Inr None, s') \<and> halted s'
    else \<forall>s'. refresh_project env opts projectId failures s = (Inr None, s') \<longrightarrow> agentLookupStopHint (sv_parse (ks_skill env)) e \<noteq> None"
proof -
  have "auth_consistent s1" using fetch_consistent [OF assms(1)] assms(2,3) by (rule keepsD)
  then obtain s' where s': "triggerAuthFailureAbort ''project_refresh'' s1 = (Inr (), s')" "halted s'"
    using trigger_result stopped_halted by blast
  have run: "refresh_project env opts projectId failures s = refresh_failed env failures e s1"
    using assms(3) by (simp add: refresh_project_def ecatch_def ebind_def)
  show ?thesis
  proof (cases "agentLookupStopHint (sv_parse (ks_skill env)) e")
    case None
    then show ?thesis using s'
      by (auto simp: run refresh_failed_def ethen_def ebind_def eret_def en_healthSet_def emodify_def split: if_splits)
  next
    case (Some hint)
    obtain s2 where "stopDisconnectedAgent hint s1 = (Inr (), s2)" "halted s2" using disconnect_halts by blast
    then show ?thesis using Some by (simp add: run refresh_failed_def ethen_def ebind_def eret_def)
  qed
qed

lemma halted_loops:
  assumes "halted s"
  shows "reconcile_loop env opts projectId n rounds s = (Inr (), s)" and "refreshDefaultProjectIdLoop env opts projectId failures rounds s = (Inr (), s)"
  using assms by (cases rounds; simp add: eng_defs halted_def)+

text \<open>C32. A revoked key stops the daemon for good. Let what the Skill module awaits change the stop variables of
  the daemon only the way the daemon does (\<^const>\<open>skill_env_consistent\<close>) and let them agree at the start.
  Then: when the body of a guarded callback (the Project Skills, the scan of the inventory, the scan after
  an event of one of the four Skill kinds for the Agent's Project) fails with an authentication failure, the callback throws it on and the
  daemon is stopped - aborted, exit code 2, not supervised, Vault files withdrawn, last heartbeat made; when
  it fails with another error the callback ends well, the stop variables are as the body left them and the
  message is shown. When the preparation fails with an authentication failure, the attempt does, and the
  daemon is stopped; so it is when the initial inventory does, and then no module is made; and an attempt without
  a module leaves the daemon stopped. When the refresh of the Project fails with one, its loop is left and
  the daemon halted. A halted daemon's loops do nothing any more.\<close>

theorem revoked_key_stops_daemon:
  assumes "skill_env_consistent env" and "auth_consistent s" and "isSkillSyncServerEvent (Skill_event kind key projectId revision)"
  shows "answers Projection ''project_skills'' ''Project Skills: '' (reconcileProjectSkills env opts n s) (sync_project_skills env opts n s) \<and>
    answers Push ''skills_scan'' ''skills scan: ''
      (inventory_rounds env opts projectId n (s\<lparr>en_world := (en_world s)\<lparr>da_inventoryDue := True\<rparr>\<rparr>)) (onSkillInventoryChanged env opts projectId n s) \<and>
    answers Push (''skill_scan:'' @ key) (''skill '' @ key @ '' scan: '')
      (reconcileAgentSkillProjection (ks_skill env) opts projectId [key] (s\<lparr>en_world := (en_world s)\<lparr>da_lastSeenRevision := Some revision\<rparr>\<rparr>))
      (onServerEvent env opts projectId n (Skill_event kind key projectId revision) s) \<and>
    (case prepareSkillSync env opts n s of
       (Inl e, s1) \<Rightarrow> if isAuthFailure e then \<exists>s'. skills_attempt env opts n s = (Inl e, s') \<and> stopped_for_auth s'
         else skills_attempt env opts n s = (Inl e, s1)
     | (Inr r, s1) \<Rightarrow> skills_attempt env opts n s = (Inr r, s1) \<and> (r = None \<longrightarrow> stopped_for_auth s1)) \<and>
    (case initialAgentProjectionSync (ks_skill env) (ks_pages env) opts projectId s of
       (Inl e, s1) \<Rightarrow> if isAuthFailure e then \<exists>s'. initial_sync env opts projectId s = (Inr None, s') \<and> stopped_for_auth s'
         else initial_sync env opts projectId s = (Inl e, s1)
     | (Inr _, s1) \<Rightarrow> fst (initial_sync env opts projectId s) = Inr (Some projectId)) \<and>
    (case fetchDefaultProjectId env opts s of
       (Inl e, s1) \<Rightarrow> if isAuthFailure e then \<exists>s'. refresh_project env opts projectId failures s = (Inr None, s') \<and> halted s'
         else \<forall>s'. refresh_project env opts projectId failures s = (Inr None, s') \<longrightarrow> agentLookupStopHint (sv_parse (ks_skill env)) e \<noteq> None
     | (Inr fresh, s1) \<Rightarrow> fresh = projectId \<longrightarrow> fst (refresh_project env opts projectId failures s) = Inr (Some 0)) \<and>
    (\<forall>s'. halted s' \<longrightarrow> reconcile_loop env opts projectId n rounds s' = (Inr (), s') \<and>
       refreshDefaultProjectIdLoop env opts projectId failures rounds s' = (Inr (), s'))"
  (is "?P \<and> ?I \<and> ?E \<and> ?A \<and> ?N \<and> ?R \<and> ?L")
proof (intro conjI)
  show ?P by (rule project_sync_answers [OF assms(1,2)])
  show ?I by (rule inventory_answers [OF assms(1,2)])
  show ?E by (rule event_answers [OF assms])
  show ?A
    using failed_attempt [OF assms(1,2), of opts n] validD [OF prepare_stops [OF assms(1), of opts n] assms(2)]
    by (auto simp: skills_attempt_def ecatch_def split: prod.splits sum.splits)
  show ?N
    using failed_initial [OF assms(1,2), of opts projectId]
    by (auto simp: initial_sync_def ecatch_def ebind_def ethen_def eret_def da_modify_def emodify_def split: prod.splits sum.splits option.splits)
  show ?R
    using failed_refresh [OF assms(1,2), where opts = opts and projectId = projectId and failures = failures]
    by (auto simp: refresh_project_def ecatch_def ebind_def ethen_def eret_def en_healthClear_def emodify_def split: prod.splits sum.splits)
  show ?L by (auto intro: halted_loops)
qed

section \<open>Events are hints\<close>

lemma bounds_daemon: "reconcile_bounds env opts projectId trusted s (t\<lparr>en_world := d\<rparr>) = reconcile_bounds env opts projectId trusted s t"
  by (simp add: reconcile_bounds_def queue_within_def)

lemma bounds_health: "reconcile_bounds env opts projectId trusted s (t\<lparr>en_health := h\<rparr>) = reconcile_bounds env opts projectId trusted s t"
  by (simp add: reconcile_bounds_def queue_within_def)

lemma bounds_aborted: "reconcile_bounds env opts projectId trusted s (t\<lparr>en_aborted := b\<rparr>) = reconcile_bounds env opts projectId trusted s t"
  by (simp add: reconcile_bounds_def queue_within_def)

lemma bounds_steps:
  "keeps (reconcile_bounds env opts projectId trusted s) (da_modify f)"
  "keeps (reconcile_bounds env opts projectId trusted s) (en_healthSet a r m)"
  "keeps (reconcile_bounds env opts projectId trusted s) (en_healthClear a r)"
  "keeps (reconcile_bounds env opts projectId trusted s) en_clearScans"
  "keeps (reconcile_bounds env opts projectId trusted s) (stop_or_show a r pre e)"
  by (auto simp: keeps_iff da_modify_def en_healthSet_def en_healthClear_def en_clearScans_def stop_or_show_def triggerAuthFailureAbort_def
      stop_process_def eng_defs bounds_daemon bounds_health bounds_aborted)

text \<open>C33. Cloud events are hints: a Skill event of another Project changes nothing at all. One of the Agent's own
  Project only makes the daemon look at its local files again: ledger and claims stay what they are, and
  whatever is in the queue afterwards was there before or is authorized by the local inventory, a claim,
  or the named key as the trusted one.\<close>

theorem server_events_are_hints:
  fixes env :: "'w skill_sync_env" and s :: "'w daemon engine"
  assumes "keeps (reconcile_bounds (ks_skill env) opts projectId [key] s) (sv_listKeys (ks_skill env))"
    and "\<And>k. keeps (reconcile_bounds (ks_skill env) opts projectId [key] s) (sv_folderHash (ks_skill env) k)"
    and "onServerEvent env opts projectId n (Skill_event kind key project revision) s = (r, s')"
  shows "(project \<noteq> projectId \<longrightarrow> r = Inr () \<and> s' = s) \<and>
    en_skillsLock s' = en_skillsLock s \<and> en_pushed s' = en_pushed s \<and>
    list_all (\<lambda>i. i \<in> set (rq_items (en_queue s)) \<or>
      authorized_item (ks_skill env) opts projectId [key] (en_pushed s) (en_skillsLock s) i) (rq_items (en_queue s'))"
proof -
  let ?I = "reconcile_bounds (ks_skill env) opts projectId [key] s"
  have rec: "keeps ?I (reconcileAgentSkillProjection (ks_skill env) opts projectId [key])"
    using assms(1,2) unfolding reconcile_bounds_def by (intro keeps_reconcile) (auto simp: admits_def)
  have "keeps ?I (event_scan env opts projectId key revision)"
    unfolding event_scan_def by (intro keeps_flow bounds_steps rec)
  then have "keeps ?I (onServerEvent env opts projectId n (Skill_event kind key project revision))"
    by (simp add: onServerEvent_def skillInvalidationKey_def keeps_ret)
  moreover have "?I s" by (simp add: reconcile_bounds_def queue_within_def)
  ultimately have "?I s'" using assms(3) by (rule keepsD)
  moreover have "project \<noteq> projectId \<Longrightarrow> r = Inr () \<and> s' = s"
    using assms(3) by (simp add: onServerEvent_def skillInvalidationKey_def eret_def)
  ultimately show ?thesis by (simp add: reconcile_bounds_def queue_within_def list_all_iff)
qed

section \<open>Witnesses\<close>

definition idle_project :: "'w daemon project_env" where
  "idle_project = \<lparr>pj_parse = (\<lambda>_. None), pj_baseUrl = [], pj_url = (\<lambda>_. Inl (PlainError [])), pj_rank = (\<lambda>_. 0),
     pj_putCapability = (\<lambda>_. eret ()), pj_getDesired = (\<lambda>a. eret (a, [])), pj_requestStream = (\<lambda>_. ethrow (PlainError [])),
     pj_mkdtemp = eret [], pj_extractTarGz = (\<lambda>_ _. eret ()), pj_stageHasSkill = (\<lambda>_ _ _. False),
     pj_snapshotStage = (\<lambda>_ _. eret ([], [])), pj_rmStage = (\<lambda>_. eret ()), pj_listKeys = eret [], pj_exists = (\<lambda>_ _. False),
     pj_hasSkill = (\<lambda>_ _. False), pj_snapshotSkill = (\<lambda>_. eret ([], [])), pj_folderHash = (\<lambda>_. eret []),
     pj_writeArchive = (\<lambda>_ _. eret ()), pj_remove = (\<lambda>_. eret ())\<rparr>"

definition sample_sync_env :: "string option + sync_error \<Rightarrow> ('w daemon, string list) eng \<Rightarrow> 'w skill_sync_env" where
  "sample_sync_env project keys =
     \<lparr>ks_skill = \<lparr>sv_parse = (\<lambda>_. None), sv_listKeys = keys, sv_folderHash = (\<lambda>_. eret ''h1''), sv_hasSkillMd = (\<lambda>_ _. True),
        sv_existsDir = (\<lambda>_ _. True), sv_ignoreUserSkill = (\<lambda>_ _. False), sv_localeLess = (<), sv_now = (\<lambda>_. ''t0'')\<rparr>,
      ks_pages = (\<lambda>_ _. ethrow (PlainError ''offline'')), ks_project = idle_project, ks_delivery = True,
      ks_getAgentProject = (case project of Inl p \<Rightarrow> eret p | Inr e \<Rightarrow> ethrow e), ks_sleep = eret ()\<rparr>"

definition fresh_daemon :: "unit daemon engine" where
  "fresh_daemon = fresh_engine \<lparr>da_lastSeenRevision = None, da_listingEtag = None, da_authFailureFired = False, da_vaultRevoked = False,
     da_exitCode = None, da_supervised = True, da_finalHeartbeat = None, da_scopeRetired = False, da_projectDue = False,
     da_inventoryDue = False, da_outside = ()\<rparr>"

lemma idle_project_keeps: "outer I \<Longrightarrow> project_keeps I idle_project"
  by (auto simp: project_keeps_def adapter_keeps_def idle_project_def keeps_iff valid_def eret_def ethrow_def)

lemma sample_sync_consistent: "keeps auth_consistent keys \<Longrightarrow> skill_env_consistent (sample_sync_env project keys)"
  by (cases project)
    (simp_all add: skill_env_consistent_def sample_sync_env_def inventory_keeps_def outer_auth idle_project_keeps keeps_ret keeps_throw)

lemma fresh_daemon_consistent: "auth_consistent fresh_daemon"
  by (simp add: auth_consistent_def fresh_daemon_def fresh_engine_def)

theorem revoked_key_stops_daemon_witness:
  "(\<exists>s'. skills_attempt (sample_sync_env (Inr (ApiError 401 [] [])) (eret [])) sample_opts 1 fresh_daemon = (Inl (ApiError 401 [] []), s') \<and>
     stopped_for_auth s') \<and>
   (\<exists>s'. onSkillInventoryChanged (sample_sync_env (Inl None) (ethrow (ApiError 401 [] []))) sample_opts ''p1'' 1 fresh_daemon =
     (Inl (ApiError 401 [] []), s') \<and> stopped_for_auth s')"
proof -
  let ?gone = "sample_sync_env (Inr (ApiError 401 [] [])) (eret []) :: unit skill_sync_env"
  let ?scan = "sample_sync_env (Inl None) (ethrow (ApiError 401 [] [])) :: unit skill_sync_env"
  let ?due = "fresh_daemon\<lparr>en_world := (en_world fresh_daemon)\<lparr>da_inventoryDue := True\<rparr>\<rparr> :: unit daemon engine"
  have env: "skill_env_consistent ?gone" "skill_env_consistent ?scan" by (intro sample_sync_consistent keeps_ret keeps_throw)+
  have event: "isSkillSyncServerEvent (Skill_event ''skill_changed'' [] ''p1'' 0)" by simp
  note gone = revoked_key_stops_daemon [OF env(1) fresh_daemon_consistent event, of sample_opts 1]
  note scan = revoked_key_stops_daemon [OF env(2) fresh_daemon_consistent event, of sample_opts 1, THEN conjunct2, THEN conjunct1]
  have "prepareSkillSync ?gone sample_opts 1 fresh_daemon = (Inl (ApiError 401 [] []), fresh_daemon)"
    by (simp add: prepareSkillSync_def fetchDefaultProjectId_def sample_sync_env_def eng_defs agentLookupStopHint_def)
  then have "\<exists>s'. skills_attempt ?gone sample_opts 1 fresh_daemon = (Inl (ApiError 401 [] []), s') \<and> stopped_for_auth s'"
    using gone [THEN conjunct2, THEN conjunct2, THEN conjunct2, THEN conjunct1] by (simp add: isAuthFailure_def)
  moreover obtain s1 where "inventory_rounds ?scan sample_opts ''p1'' 1 ?due = (Inl (ApiError 401 [] []), s1)"
    by (simp add: sample_sync_env_def reconcileAgentSkillProjection_def eng_defs da_modify_def fresh_daemon_def fresh_engine_def)
  then have "\<exists>s'. onSkillInventoryChanged ?scan sample_opts ''p1'' 1 fresh_daemon = (Inl (ApiError 401 [] []), s') \<and> stopped_for_auth s'"
    using scan by (simp add: answers_def isAuthFailure_def split: prod.splits)
  ultimately show ?thesis by blast
qed

theorem server_events_are_hints_witness:
  "let s' = snd (onServerEvent (sample_sync_env (Inl None) (eret [''notes''])) sample_opts ''p1'' 1
        (Skill_event ''skill_changed'' ''notes'' ''p1'' 7) fresh_daemon)
   in map item_skill_key (rq_items (en_queue s')) = [''notes''] \<and> en_skillsLock s' = None \<and>
      list_all (\<lambda>i. authorized_item (ks_skill (sample_sync_env (Inl None) (eret [''notes'']) :: unit skill_sync_env)) sample_opts ''p1''
        [''notes''] [] None i) (rq_items (en_queue s'))"
proof -
  let ?env = "sample_sync_env (Inl None) (eret [''notes'']) :: unit skill_sync_env"
  let ?ev = "Skill_event ''skill_changed'' ''notes'' ''p1'' 7"
  obtain r s' where run: "onServerEvent ?env sample_opts ''p1'' 1 ?ev fresh_daemon = (r, s')" by (rule prod.exhaust)
  have "map item_skill_key (rq_items (en_queue (snd (onServerEvent ?env sample_opts ''p1'' 1 ?ev fresh_daemon)))) = [''notes'']"
    by code_simp
  moreover have "en_skillsLock fresh_daemon = None" "en_pushed fresh_daemon = []" "rq_items (en_queue fresh_daemon) = []"
    by (simp_all add: fresh_daemon_def fresh_engine_def new_queue_def)
  moreover note server_events_are_hints [OF _ _ run]
  ultimately show ?thesis using run by (simp add: sample_sync_env_def keeps_ret)
qed

text \<open>The periodic reconciliation is the exception: it only shows an authentication failure and goes on.\<close>

lemma periodic_auth_failure_goes_on:
  "let s' = snd (reconcile_cycle (sample_sync_env (Inl None) (ethrow (ApiError 401 [] ''revoked''))) sample_opts ''p1'' 1 fresh_daemon)
   in \<not> en_aborted s' \<and> da_exitCode (en_world s') = None \<and>
      map_get (hs_push (en_health s')) ''skills_scan'' = Some \<lparr>he_message = ''skills scan: revoked'', he_transient = False\<rparr>"
  by code_simp

end
