(* ===== verification/SessionWatcher.thy ===== *)
theory SessionWatcher
  imports Json
begin

text \<open>
  The watcher of the session files, \<open>packages/cli/src/serve/sessions-watcher.ts\<close>: the choice between file
  system events and polling, the two collectors that report a change once the files have been quiet, and
  the metadata snapshot of a path.

  Timers, clocks and the file system are inputs: an event of the platform or a timer comes with the time it
  comes at, and a round of polling with what its reads found. Once the signal is aborted nothing more is
  given to the functions here.
\<close>

section \<open>What is reported\<close>

datatype watch_event = Rescan | Changed_paths "string list"

definition SESSION_STABLE_AFTER_MS :: int where "SESSION_STABLE_AFTER_MS = 30000"
definition SESSION_IDLE_POLL_INTERVAL_MS :: int where "SESSION_IDLE_POLL_INTERVAL_MS = 60000"

definition stable_event :: "bool \<Rightarrow> string list \<Rightarrow> watch_event" where
  "stable_event pendingRescan pendingPaths = (if pendingRescan then Rescan else Changed_paths pendingPaths)"

text \<open>\<open>join\<close> of an absolute path with a relative one that has no \<open>.\<close> or \<open>..\<close> parts.\<close>

definition path_join :: "string \<Rightarrow> string \<Rightarrow> string" where
  "path_join dir name = (if dir \<noteq> [] \<and> last dir = CHR ''/'' then dir @ name else dir @ ''/'' @ name)"

section \<open>File system events\<close>

text \<open>\<open>fw_timer\<close> is when the armed timer is due.\<close>

record fs_watch =
  fw_pendingPaths :: "string list"
  fw_pendingRescan :: bool
  fw_timer :: "int option"
  fw_settled :: bool

definition new_fs_watch :: fs_watch where
  "new_fs_watch = \<lparr>fw_pendingPaths = [], fw_pendingRescan = False, fw_timer = None, fw_settled = False\<rparr>"

definition armStable :: "int \<Rightarrow> string option \<Rightarrow> fs_watch \<Rightarrow> fs_watch" where
  "armStable now path w =
     (if fw_settled w then w
      else (let w1 = (case path of
                  Some p \<Rightarrow> if p \<noteq> [] then w\<lparr>fw_pendingPaths := set_add p (fw_pendingPaths w)\<rparr> else w\<lparr>fw_pendingRescan := True\<rparr>
                | None \<Rightarrow> w\<lparr>fw_pendingRescan := True\<rparr>)
            in w1\<lparr>fw_timer := Some (now + SESSION_STABLE_AFTER_MS)\<rparr>))"

text \<open>The callback of the timer.\<close>

definition stable_timer :: "fs_watch \<Rightarrow> watch_event option \<times> fs_watch" where
  "stable_timer w =
     (if fw_settled w then (None, w\<lparr>fw_timer := None\<rparr>)
      else (Some (stable_event (fw_pendingRescan w) (fw_pendingPaths w)),
            w\<lparr>fw_timer := None, fw_pendingPaths := [], fw_pendingRescan := False\<rparr>))"

definition settle :: "fs_watch \<Rightarrow> fs_watch" where
  "settle w = w\<lparr>fw_settled := True, fw_timer := None\<rparr>"

text \<open>A watcher reports the watched path, whether it is a directory and the name the platform gives, if any.
  A timer runs when it is due or later. An error of a watcher settles the loop.\<close>

datatype fs_event = Fs_change string bool "string option" | Fs_timer | Fs_error

definition changed_path :: "string \<Rightarrow> bool \<Rightarrow> string option \<Rightarrow> string option" where
  "changed_path p isDir filename =
     (if \<not> isDir then Some p
      else (case filename of None \<Rightarrow> None | Some f \<Rightarrow> if f = [] then None else Some (path_join p f)))"

fun fs_step :: "int \<Rightarrow> fs_event \<Rightarrow> fs_watch \<Rightarrow> watch_event option \<times> fs_watch" where
  "fs_step now (Fs_change p isDir filename) w = (None, armStable now (changed_path p isDir filename) w)"
| "fs_step now Fs_timer w =
     (case fw_timer w of None \<Rightarrow> (None, w) | Some due \<Rightarrow> if now < due then (None, w) else stable_timer w)"
| "fs_step now Fs_error w = (None, settle w)"

fun fs_run :: "(int \<times> fs_event) list \<Rightarrow> fs_watch \<Rightarrow> (int \<times> watch_event) list" where
  "fs_run [] w = []"
| "fs_run ((now, e) # es) w =
     (let (out, w') = fs_step now e w
      in (case out of None \<Rightarrow> [] | Some ev \<Rightarrow> [(now, ev)]) @ fs_run es w')"

text \<open>The mode: what attaching a watcher to each path gave.\<close>

datatype attachment = Path_missing | Attach_failed | Attached

datatype watch_mode = Fs_events | Poll_mode

definition fsWatchLoop_mode :: "attachment list \<Rightarrow> watch_mode" where
  "fsWatchLoop_mode attachments =
     (if list_ex (\<lambda>a. a \<noteq> Attached) attachments \<or> \<not> list_ex (\<lambda>a. a = Attached) attachments then Poll_mode else Fs_events)"

text \<open>\<open>runSessionWatcher\<close>: polling when forced, when a path cannot be watched, and after an error of a watcher.\<close>

definition runSessionWatcher_mode :: "bool \<Rightarrow> attachment list \<Rightarrow> fs_watch \<Rightarrow> watch_mode" where
  "runSessionWatcher_mode forcePoll attachments w =
     (if forcePoll \<or> fsWatchLoop_mode attachments = Poll_mode \<or> fw_settled w then Poll_mode else Fs_events)"

section \<open>Snapshots\<close>

record path_snapshot =
  ps_signature :: string
  ps_entries :: "(string, string) js_map option"

text \<open>What is on disk: a file with the text of its modification time and its size; what is neither a file nor
  a directory; an entry whose \<open>stat\<close> fails; a directory, possibly one that cannot be listed.\<close>

datatype disk_entry =
    Disk_file string int
  | Disk_other string int
  | Disk_gone
  | Disk_dir "(string \<times> disk_entry) list option"

definition SIG_MAX_DEPTH :: nat where "SIG_MAX_DEPTH = 3"
definition SESSION_PATH_TRACKED_ENTRY_LIMIT :: nat where "SESSION_PATH_TRACKED_ENTRY_LIMIT = 4096"

definition stat_text :: "string \<Rightarrow> int \<Rightarrow> string" where
  "stat_text mtime bytes = mtime @ '':'' @ int_decimal bytes"

text \<open>What the walk has gathered: the text fed to the hash, the entries and the number of files.\<close>

record walk_state =
  wk_text :: string
  wk_entries :: "(string, string) js_map option"
  wk_counted :: nat

definition count_file :: "nat \<Rightarrow> string \<Rightarrow> string \<Rightarrow> walk_state \<Rightarrow> walk_state" where
  "count_file limit full signature st =
     st\<lparr>wk_text := wk_text st @ full @ '':'' @ signature @ '';'',
        wk_entries := (case wk_entries st of None \<Rightarrow> None
           | Some es \<Rightarrow> if length es < limit then Some (map_set full signature es) else None),
        wk_counted := wk_counted st + 1\<rparr>"

definition mark_dir :: "string \<Rightarrow> walk_state \<Rightarrow> walk_state" where
  "mark_dir name st = st\<lparr>wk_text := wk_text st @ ''d:'' @ name @ ''/''\<rparr>"

definition listed :: "(string \<times> disk_entry) list option \<Rightarrow> (string \<times> disk_entry) list" where
  "listed dir = (case dir of None \<Rightarrow> [] | Some entries \<Rightarrow> sort_key fst entries)"

function walk :: "nat \<Rightarrow> nat \<Rightarrow> string \<Rightarrow> (string \<times> disk_entry) list \<Rightarrow> walk_state \<Rightarrow> walk_state" where
  "walk limit depth dir [] st = st"
| "walk limit depth dir ((name, Disk_file mtime bytes) # es) st =
     walk limit depth dir es (count_file limit (path_join dir name) (stat_text mtime bytes) st)"
| "walk limit depth dir ((name, Disk_other mtime bytes) # es) st = walk limit depth dir es st"
| "walk limit depth dir ((name, Disk_gone) # es) st = walk limit depth dir es st"
| "walk limit depth dir ((name, Disk_dir sub) # es) st =
     walk limit depth dir es
       (if depth < SIG_MAX_DEPTH then walk limit (depth + 1) (path_join dir name) (listed sub) (mark_dir name st)
        else mark_dir name st)"
  by pat_completeness auto
termination
  by (relation "measures [\<lambda>(limit, depth, dir, es, st). SIG_MAX_DEPTH - depth, \<lambda>(limit, depth, dir, es, st). length es]") auto

definition sessionPathSnapshot :: "(string \<Rightarrow> string) \<Rightarrow> nat \<Rightarrow> string \<Rightarrow> disk_entry \<Rightarrow> path_snapshot" where
  "sessionPathSnapshot sha256 limit p entry =
     (case entry of
        Disk_gone \<Rightarrow> \<lparr>ps_signature = [], ps_entries = Some []\<rparr>
      | Disk_file mtime bytes \<Rightarrow>
          \<lparr>ps_signature = ''f:'' @ stat_text mtime bytes, ps_entries = Some [(p, ''f:'' @ stat_text mtime bytes)]\<rparr>
      | Disk_other mtime bytes \<Rightarrow>
          \<lparr>ps_signature = ''f:'' @ stat_text mtime bytes, ps_entries = Some [(p, ''f:'' @ stat_text mtime bytes)]\<rparr>
      | Disk_dir dir \<Rightarrow>
          (let st = walk limit 0 p (listed dir) \<lparr>wk_text = [], wk_entries = Some [], wk_counted = 0\<rparr>
           in \<lparr>ps_signature = ''d:'' @ int_decimal (int (wk_counted st)) @ '':'' @ sha256 (wk_text st), ps_entries = wk_entries st\<rparr>))"

definition diffSnapshotEntries :: "(string, string) js_map option \<Rightarrow> (string, string) js_map option \<Rightarrow> string list option" where
  "diffSnapshotEntries previous current =
     (case (previous, current) of
        (Some prev, Some cur) \<Rightarrow>
          Some (set_of_list (map fst (filter (\<lambda>(path, signature). map_get prev path \<noteq> Some signature) cur) @
             filter (\<lambda>path. \<not> map_has cur path) (map_keys prev)))
      | _ \<Rightarrow> None)"

section \<open>Polling\<close>

record session_poll =
  sp_last :: "(string, path_snapshot) js_map"
  sp_deadline :: "int option"
  sp_pendingPaths :: "string list"
  sp_pendingRescan :: bool

text \<open>One round: the clock before the pause, what is read from each path after it, and the clock then.\<close>

record poll_reading =
  pr_now :: int
  pr_snapshot :: "string \<Rightarrow> path_snapshot"
  pr_observedAt :: int

definition start_poll :: "string list \<Rightarrow> (string \<Rightarrow> path_snapshot) \<Rightarrow> session_poll" where
  "start_poll paths snapshot =
     \<lparr>sp_last = fold (\<lambda>p. map_set p (snapshot p)) paths [], sp_deadline = None, sp_pendingPaths = [], sp_pendingRescan = False\<rparr>"

definition poll_delay :: "int \<Rightarrow> session_poll \<Rightarrow> int" where
  "poll_delay now st =
     (case sp_deadline st of
        None \<Rightarrow> SESSION_IDLE_POLL_INTERVAL_MS
      | Some deadline \<Rightarrow> min SESSION_IDLE_POLL_INTERVAL_MS (max 0 (deadline - now)))"

definition last_snapshot :: "session_poll \<Rightarrow> string \<Rightarrow> path_snapshot" where
  "last_snapshot st p = (case map_get (sp_last st) p of None \<Rightarrow> \<lparr>ps_signature = [], ps_entries = None\<rparr> | Some s \<Rightarrow> s)"

text \<open>A path that reads differently than before: what is pending because of it.\<close>

definition note_changed :: "string list option \<Rightarrow> session_poll \<Rightarrow> session_poll" where
  "note_changed changedPaths st =
     (case changedPaths of
        None \<Rightarrow> st\<lparr>sp_pendingRescan := True\<rparr>
      | Some [] \<Rightarrow> st\<lparr>sp_pendingRescan := True\<rparr>
      | Some ps \<Rightarrow> st\<lparr>sp_pendingPaths := fold set_add ps (sp_pendingPaths st)\<rparr>)"

fun poll_paths :: "string list \<Rightarrow> (string \<Rightarrow> path_snapshot) \<Rightarrow> session_poll \<Rightarrow> bool \<times> session_poll" where
  "poll_paths [] snapshot st = (False, st)"
| "poll_paths (p # ps) snapshot st =
     (let cur = snapshot p; prev = last_snapshot st p
      in if ps_signature cur = ps_signature prev then poll_paths ps snapshot st
         else (let (_, st') = poll_paths ps snapshot
                  (note_changed (diffSnapshotEntries (ps_entries prev) (ps_entries cur)) (st\<lparr>sp_last := map_set p cur (sp_last st)\<rparr>))
               in (True, st')))"

definition poll_round :: "string list \<Rightarrow> poll_reading \<Rightarrow> session_poll \<Rightarrow> watch_event option \<times> session_poll" where
  "poll_round paths r st =
     (let (anyChanged, st1) = poll_paths paths (pr_snapshot r) st
      in if anyChanged then (None, st1\<lparr>sp_deadline := Some (pr_observedAt r + SESSION_STABLE_AFTER_MS)\<rparr>)
         else (case sp_deadline st1 of
             None \<Rightarrow> (None, st1)
           | Some deadline \<Rightarrow>
               if pr_observedAt r \<ge> deadline
               then (Some (stable_event (sp_pendingRescan st1) (sp_pendingPaths st1)),
                     st1\<lparr>sp_deadline := None, sp_pendingPaths := [], sp_pendingRescan := False\<rparr>)
               else (None, st1)))"

fun poll_run :: "string list \<Rightarrow> poll_reading list \<Rightarrow> session_poll \<Rightarrow> (int \<times> watch_event) list" where
  "poll_run paths [] st = []"
| "poll_run paths (r # rs) st =
     (let (out, st') = poll_round paths r st
      in (case out of None \<Rightarrow> [] | Some ev \<Rightarrow> [(pr_observedAt r, ev)]) @ poll_run paths rs st')"

definition pollSessionPaths :: "string list \<Rightarrow> (string \<Rightarrow> path_snapshot) \<Rightarrow> poll_reading list \<Rightarrow> (int \<times> watch_event) list" where
  "pollSessionPaths paths first rs = poll_run paths rs (start_poll paths first)"

end
