(* ===== verification/SessionWatcherLaws.thy ===== *)
theory SessionWatcherLaws
  imports SessionWatcher
begin

text \<open>
  What both modes of the session watcher promise: they are the same collector of changes, which reports once
  the files have been quiet for thirty seconds and covers everything seen since its last report. The
  collector is stated on its own, and a locale carries its laws to every implementation of it.
\<close>

section \<open>The collector\<close>

datatype change = Unknown_change | File_change string

datatype observation = Seen "change list" | Shut

record collector =
  co_changes :: "change list"
  co_last :: "int option"

definition nothing_seen :: collector where
  "nothing_seen = \<lparr>co_changes = [], co_last = None\<rparr>"

fun file_changes :: "change list \<Rightarrow> string list" where
  "file_changes [] = []"
| "file_changes (Unknown_change # cs) = file_changes cs"
| "file_changes (File_change f # cs) = f # file_changes cs"

definition event_of :: "change list \<Rightarrow> watch_event" where
  "event_of cs = stable_event (Unknown_change \<in> set cs) (set_of_list (file_changes cs))"

definition covers :: "watch_event \<Rightarrow> change \<Rightarrow> bool" where
  "covers ev c = (case ev of Rescan \<Rightarrow> True | Changed_paths ps \<Rightarrow> (case c of Unknown_change \<Rightarrow> False | File_change f \<Rightarrow> f \<in> set ps))"

definition observe :: "int \<Rightarrow> observation \<Rightarrow> collector \<Rightarrow> watch_event option \<times> collector" where
  "observe t seen q =
     (case seen of
        Shut \<Rightarrow> (None, nothing_seen)
      | Seen cs \<Rightarrow>
          if cs \<noteq> [] then (None, \<lparr>co_changes = co_changes q @ cs, co_last = Some t\<rparr>)
          else (case co_last q of
              None \<Rightarrow> (None, q)
            | Some s \<Rightarrow> if s + SESSION_STABLE_AFTER_MS \<le> t then (Some (event_of (co_changes q)), nothing_seen) else (None, q)))"

fun collected :: "(int \<times> observation) list \<Rightarrow> collector \<Rightarrow> collector" where
  "collected [] q = q"
| "collected ((t, seen) # xs) q = collected xs (snd (observe t seen q))"

fun reports :: "(int \<times> observation) list \<Rightarrow> collector \<Rightarrow> (int \<times> watch_event) list" where
  "reports [] q = []"
| "reports ((t, seen) # xs) q =
     (case fst (observe t seen q) of None \<Rightarrow> [] | Some ev \<Rightarrow> [(t, ev)]) @ reports xs (snd (observe t seen q))"

definition changes_at :: "(int \<times> observation) list \<Rightarrow> (int \<times> change) list" where
  "changes_at xs = concat (map (\<lambda>(t, seen). case seen of Shut \<Rightarrow> [] | Seen cs \<Rightarrow> map (Pair t) cs) xs)"

lemma collected_snoc: "collected (xs @ [(t, seen)]) q = snd (observe t seen (collected xs q))"
  by (induction xs q rule: collected.induct) auto

lemma reports_snoc:
  "reports (xs @ [(t, seen)]) q = reports xs q @ (case fst (observe t seen (collected xs q)) of None \<Rightarrow> [] | Some ev \<Rightarrow> [(t, ev)])"
  by (induction xs q rule: collected.induct) auto

lemma changes_at_snoc:
  "changes_at (xs @ [(t, seen)]) = changes_at xs @ (case seen of Shut \<Rightarrow> [] | Seen cs \<Rightarrow> map (Pair t) cs)"
  by (simp add: changes_at_def)

lemma file_changes_iff: "f \<in> set (file_changes cs) \<longleftrightarrow> File_change f \<in> set cs"
  by (induction cs rule: file_changes.induct) auto

lemma event_covers: "c \<in> set cs \<Longrightarrow> covers (event_of cs) c"
  by (auto simp: covers_def event_of_def stable_event_def file_changes_iff split: change.split)

lemma event_names: "event_of cs = Changed_paths ps \<Longrightarrow> f \<in> set ps \<Longrightarrow> File_change f \<in> set cs"
  by (auto simp: event_of_def stable_event_def file_changes_iff split: if_splits)

definition settled_by :: "(int \<times> watch_event) list \<Rightarrow> int \<times> change \<Rightarrow> bool" where
  "settled_by out sc \<longleftrightarrow> (\<exists>(t, ev)\<in>set out. fst sc + SESSION_STABLE_AFTER_MS \<le> t \<and> covers ev (snd sc))"

definition waiting :: "collector \<Rightarrow> int \<times> change \<Rightarrow> bool" where
  "waiting q sc \<longleftrightarrow> snd sc \<in> set (co_changes q) \<and> (\<exists>l. co_last q = Some l \<and> fst sc \<le> l)"

lemma settled_by_append [simp]: "settled_by (xs @ ys) sc \<longleftrightarrow> settled_by xs sc \<or> settled_by ys sc"
  by (auto simp: settled_by_def)

lemma changes_at_time: "(s, c) \<in> set (changes_at xs) \<Longrightarrow> s \<in> set (map fst xs)"
  by (force simp: changes_at_def split: observation.splits)

lemma waiting_observe:
  assumes "waiting q (s, c)" and "s \<le> t" and "seen \<noteq> Shut"
  shows "waiting (snd (observe t seen q)) (s, c) \<or> settled_by (case fst (observe t seen q) of None \<Rightarrow> [] | Some ev \<Rightarrow> [(t, ev)]) (s, c)"
proof -
  from assms(1) obtain l where l: "c \<in> set (co_changes q)" "co_last q = Some l" "s \<le> l" by (auto simp: waiting_def)
  obtain cs where cs: "seen = Seen cs" using assms(3) by (cases seen) auto
  show ?thesis
  proof (cases "cs = []")
    case True
    then show ?thesis
      using l cs event_covers [OF l(1)] assms(1) by (auto simp: observe_def settled_by_def)
  next
    case False
    then show ?thesis using l(1) cs assms(2) by (simp add: observe_def waiting_def)
  qed
qed

lemma collector_covers:
  assumes "sorted (map fst xs)" and "\<forall>x\<in>set xs. snd x \<noteq> Shut" and "sc \<in> set (changes_at xs)"
  shows "settled_by (reports xs q) sc \<or> waiting (collected xs q) sc"
  using assms
proof (induction xs rule: rev_induct)
  case (snoc x xs)
  obtain t seen where x: "x = (t, seen)" by (cases x)
  obtain s c where sc: "sc = (s, c)" by (cases sc)
  have sorted: "sorted (map fst xs)" and shut: "\<forall>x\<in>set xs. snd x \<noteq> Shut" "seen \<noteq> Shut"
    and before: "\<forall>u\<in>set (map fst xs). u \<le> t"
    using snoc.prems(1,2) x by (auto simp: sorted_append)
  show ?case
  proof (cases "sc \<in> set (changes_at xs)")
    case True
    then have "s \<le> t" using changes_at_time [of s c xs] before sc by auto
    from snoc.IH [OF sorted shut(1) True] waiting_observe [OF _ this shut(2)] show ?thesis
      by (auto simp: x sc collected_snoc reports_snoc)
  next
    case False
    then have "waiting (snd (observe t seen (collected xs q))) sc"
      using snoc.prems(3) by (auto simp: x changes_at_snoc observe_def waiting_def split: observation.splits)
    then show ?thesis by (simp add: x collected_snoc)
  qed
qed (simp add: changes_at_def)

lemma collector_pending: "c \<in> set (co_changes (collected xs nothing_seen)) \<Longrightarrow> c \<in> snd ` set (changes_at xs)"
proof (induction xs rule: rev_induct)
  case (snoc x xs)
  then show ?case
    by (cases x) (auto simp: collected_snoc changes_at_snoc observe_def nothing_seen_def image_Un image_image
        split: observation.splits option.splits if_splits)
qed (simp add: nothing_seen_def)

text \<open>A report comes when the last change is thirty seconds old and covers everything seen before.\<close>

lemma collector_report:
  assumes "fst (observe t seen (collected xs nothing_seen)) = Some ev"
  shows "\<exists>l. seen = Seen [] \<and> co_last (collected xs nothing_seen) = Some l \<and> l + SESSION_STABLE_AFTER_MS \<le> t \<and>
    ev = event_of (co_changes (collected xs nothing_seen)) \<and> collected (xs @ [(t, seen)]) nothing_seen = nothing_seen"
  using assms by (auto simp: observe_def collected_snoc split: observation.splits if_splits option.splits)

lemma collector_last:
  "co_last (collected xs nothing_seen) = Some l \<Longrightarrow> l \<in> fst ` set (changes_at xs)"
proof (induction xs rule: rev_induct)
  case (snoc x xs)
  obtain t seen where x: "x = (t, seen)" by (cases x)
  show ?case
  proof (cases "\<exists>c cs. seen = Seen (c # cs)")
    case True
    then obtain c cs where seen: "seen = Seen (c # cs)" by blast
    then have "t = l" using snoc.prems by (simp add: x collected_snoc observe_def)
    then show ?thesis by (simp add: x changes_at_snoc seen image_Un)
  next
    case False
    then have "co_last (collected xs nothing_seen) = Some l"
      using snoc.prems
      by (auto simp: x collected_snoc observe_def nothing_seen_def neq_Nil_conv split: observation.splits option.splits if_splits)
    then show ?thesis using snoc.IH by (auto simp: x changes_at_snoc)
  qed
qed (simp add: nothing_seen_def)

section \<open>Implementations\<close>

locale quiet_collector =
  fixes step :: "'i \<Rightarrow> 's \<Rightarrow> watch_event option \<times> 's"
    and moment :: "'i \<Rightarrow> int"
    and seen_by :: "'i \<Rightarrow> 's \<Rightarrow> observation"
    and represents :: "'s \<Rightarrow> collector \<Rightarrow> bool"
  assumes refines: "represents s q \<Longrightarrow> fst (step i s) = fst (observe (moment i) (seen_by i s) q) \<and>
      represents (snd (step i s)) (snd (observe (moment i) (seen_by i s) q))"
begin

fun state_after :: "'i list \<Rightarrow> 's \<Rightarrow> 's" where
  "state_after [] s = s"
| "state_after (i # ins) s = state_after ins (snd (step i s))"

fun trace :: "'i list \<Rightarrow> 's \<Rightarrow> (int \<times> watch_event) list" where
  "trace [] s = []"
| "trace (i # ins) s = (case fst (step i s) of None \<Rightarrow> [] | Some ev \<Rightarrow> [(moment i, ev)]) @ trace ins (snd (step i s))"

fun observations :: "'i list \<Rightarrow> 's \<Rightarrow> (int \<times> observation) list" where
  "observations [] s = []"
| "observations (i # ins) s = (moment i, seen_by i s) # observations ins (snd (step i s))"

lemma trace_reports: "represents s q \<Longrightarrow> trace ins s = reports (observations ins s) q"
proof (induction ins arbitrary: s q)
  case (Cons i ins)
  from refines [OF Cons.prems, of i] Cons.IH [of "snd (step i s)" "snd (observe (moment i) (seen_by i s) q)"]
  show ?case by simp
qed simp

lemma represents_after: "represents s q \<Longrightarrow> represents (state_after ins s) (collected (observations ins s) q)"
proof (induction ins arbitrary: s q)
  case (Cons i ins)
  from refines [OF Cons.prems, of i] Cons.IH [of "snd (step i s)" "snd (observe (moment i) (seen_by i s) q)"]
  show ?case by simp
qed simp

lemma observations_moments: "map fst (observations ins s) = map moment ins"
  by (induction ins arbitrary: s) auto

lemma observations_snoc: "observations (ins @ [i]) s = observations ins s @ [(moment i, seen_by i (state_after ins s))]"
  by (induction ins arbitrary: s) auto

lemma trace_snoc:
  "trace (ins @ [i]) s = trace ins s @ (case fst (step i (state_after ins s)) of None \<Rightarrow> [] | Some ev \<Rightarrow> [(moment i, ev)])"
  by (induction ins arbitrary: s) auto

lemma state_after_snoc: "state_after (ins @ [i]) s = snd (step i (state_after ins s))"
  by (induction ins arbitrary: s) auto

lemma report_covers:
  assumes "represents s nothing_seen" and "sorted (map moment (ins @ [i]))"
    and "\<forall>x\<in>set (observations ins s). snd x \<noteq> Shut"
    and "trace (ins @ [i]) s = trace ins s @ [(t, ev)]" and "sc \<in> set (changes_at (observations ins s))"
  shows "settled_by (trace (ins @ [i]) s) sc"
proof -
  let ?q = "collected (observations ins s) nothing_seen"
  from assms(4) have out: "fst (step i (state_after ins s)) = Some ev" "t = moment i"
    by (auto simp: trace_snoc split: option.splits)
  with refines [OF represents_after [OF assms(1)], of i ins] have "fst (observe (moment i) (seen_by i (state_after ins s)) ?q) = Some ev"
    by simp
  from collector_report [OF this] obtain l where report: "co_last ?q = Some l" "l + SESSION_STABLE_AFTER_MS \<le> t"
    "ev = event_of (co_changes ?q)" using out by auto
  have "settled_by (trace ins s) sc \<or> waiting ?q sc"
    using collector_covers [OF _ assms(3,5), of nothing_seen] assms(1,2) by (simp add: trace_reports observations_moments sorted_append)
  then show ?thesis
    using report event_covers by (fastforce simp: assms(4) waiting_def settled_by_def)
qed

text \<open>The report comes: with a quiet step thirty seconds after the last change everything seen is reported.\<close>

lemma report_comes:
  assumes "represents s nothing_seen" and "sorted (map moment (ins @ [i]))"
    and "\<forall>x\<in>set (observations ins s). snd x \<noteq> Shut" and "seen_by i (state_after ins s) = Seen []"
    and "\<forall>sc\<in>set (changes_at (observations ins s)). fst sc + SESSION_STABLE_AFTER_MS \<le> moment i"
    and "sc \<in> set (changes_at (observations ins s))"
  shows "settled_by (trace (ins @ [i]) s) sc"
proof (cases "settled_by (trace ins s) sc")
  case False
  let ?q = "collected (observations ins s) nothing_seen"
  have "waiting ?q sc"
    using collector_covers [OF _ assms(3,6), of nothing_seen] assms(1,2) False
    by (simp add: trace_reports observations_moments sorted_append)
  then obtain l where l: "snd sc \<in> set (co_changes ?q)" "co_last ?q = Some l" by (auto simp: waiting_def)
  then have due: "l + SESSION_STABLE_AFTER_MS \<le> moment i" using collector_last [OF l(2)] assms(5) by auto
  have "fst (observe (moment i) (Seen []) ?q) = Some (event_of (co_changes ?q))" using l(2) due by (simp add: observe_def)
  then have "fst (step i (state_after ins s)) = Some (event_of (co_changes ?q))"
    using refines [OF represents_after [OF assms(1)], of i ins] assms(4) by simp
  then show ?thesis using event_covers [OF l(1)] assms(5,6) by (auto simp: trace_snoc settled_by_def)
qed (simp add: trace_snoc)

lemma report_names:
  assumes "represents s nothing_seen" and "trace (ins @ [i]) s = trace ins s @ [(t, Changed_paths ps)]" and "f \<in> set ps"
  shows "File_change f \<in> snd ` set (changes_at (observations ins s))"
proof -
  let ?q = "collected (observations ins s) nothing_seen"
  from assms(2) have out: "fst (step i (state_after ins s)) = Some (Changed_paths ps)"
    by (auto simp: trace_snoc split: option.splits)
  with refines [OF represents_after [OF assms(1)], of i ins]
  have "fst (observe (moment i) (seen_by i (state_after ins s)) ?q) = Some (Changed_paths ps)" by simp
  from collector_report [OF this] have "event_of (co_changes ?q) = Changed_paths ps" by auto
  from collector_pending [OF event_names [OF this assms(3)]] show ?thesis .
qed

end

section \<open>File system events\<close>

lemma file_changes_append [simp]: "file_changes (xs @ ys) = file_changes xs @ file_changes ys"
  by (induction xs rule: file_changes.induct) auto

lemma file_changes_map [simp]: "file_changes (map File_change fs) = fs"
  by (induction fs) auto

lemma set_of_list_snoc: "set_of_list (xs @ ys) = fold set_add ys (set_of_list xs)"
  by (simp add: set_of_list_def)

definition as_change :: "string option \<Rightarrow> change" where
  "as_change path = (case path of None \<Rightarrow> Unknown_change | Some p \<Rightarrow> if p = [] then Unknown_change else File_change p)"

definition fs_seen :: "int \<times> fs_event \<Rightarrow> fs_watch \<Rightarrow> observation" where
  "fs_seen i w =
     (case snd i of
        Fs_error \<Rightarrow> Shut
      | Fs_timer \<Rightarrow> Seen []
      | Fs_change p isDir filename \<Rightarrow> if fw_settled w then Seen [] else Seen [as_change (changed_path p isDir filename)])"

definition fs_represents :: "fs_watch \<Rightarrow> collector \<Rightarrow> bool" where
  "fs_represents w q \<longleftrightarrow>
     (if fw_settled w then fw_timer w = None \<and> co_last q = None
      else fw_pendingPaths w = set_of_list (file_changes (co_changes q)) \<and>
        (fw_pendingRescan w \<longleftrightarrow> Unknown_change \<in> set (co_changes q)) \<and>
        fw_timer w = map_option (\<lambda>s. s + SESSION_STABLE_AFTER_MS) (co_last q))"

lemma fs_new: "fs_represents new_fs_watch nothing_seen"
  by (simp add: fs_represents_def new_fs_watch_def nothing_seen_def set_of_list_def)

interpretation fsw: quiet_collector "\<lambda>i. fs_step (fst i) (snd i)" fst fs_seen fs_represents
proof
  fix w :: fs_watch and q :: collector and i :: "int \<times> fs_event"
  assume rel: "fs_represents w q"
  obtain now e where i: "i = (now, e)" by (cases i)
  show "fst (fs_step (fst i) (snd i) w) = fst (observe (fst i) (fs_seen i w) q) \<and>
    fs_represents (snd (fs_step (fst i) (snd i) w)) (snd (observe (fst i) (fs_seen i w) q))"
  proof (cases e)
    case (Fs_change p isDir filename)
    then show ?thesis
      using rel by (auto simp: i fs_seen_def observe_def armStable_def Let_def fs_represents_def as_change_def set_of_list_snoc
          split: option.splits)
  next
    case Fs_timer
    then show ?thesis
      using rel by (auto simp: i fs_seen_def observe_def stable_timer_def fs_represents_def event_of_def nothing_seen_def set_of_list_def
          split: option.splits if_splits)
  next
    case Fs_error
    then show ?thesis using rel by (simp add: i fs_seen_def observe_def settle_def fs_represents_def nothing_seen_def)
  qed
qed

lemma fs_trace: "fs_run es w = fsw.trace es w"
  by (induction es arbitrary: w) (auto simp: Let_def split: prod.split option.split)

lemma fs_settled_silent: "fw_settled w \<Longrightarrow> fw_timer w = None \<Longrightarrow> fs_run es w = []"
proof (induction es arbitrary: w)
  case (Cons i es)
  then show ?case by (cases i; cases "snd i") (auto simp: armStable_def settle_def)
qed simp

section \<open>Polling\<close>

definition path_changes :: "path_snapshot \<Rightarrow> path_snapshot \<Rightarrow> change list" where
  "path_changes prev cur =
     (if ps_signature cur = ps_signature prev then []
      else (case diffSnapshotEntries (ps_entries prev) (ps_entries cur) of
          None \<Rightarrow> [Unknown_change]
        | Some fs \<Rightarrow> if fs = [] then [Unknown_change] else map File_change fs))"

fun poll_seen :: "string list \<Rightarrow> (string \<Rightarrow> path_snapshot) \<Rightarrow> session_poll \<Rightarrow> change list" where
  "poll_seen [] snapshot st = []"
| "poll_seen (p # ps) snapshot st =
     path_changes (last_snapshot st p) (snapshot p) @
       poll_seen ps snapshot (if ps_signature (snapshot p) = ps_signature (last_snapshot st p) then st
         else st\<lparr>sp_last := map_set p (snapshot p) (sp_last st)\<rparr>)"

lemma poll_seen_pending: "sp_last st = sp_last st' \<Longrightarrow> poll_seen ps snapshot st = poll_seen ps snapshot st'"
proof (induction ps arbitrary: st st')
  case (Cons p ps)
  have "last_snapshot st p = last_snapshot st' p" using Cons.prems by (simp add: last_snapshot_def)
  moreover have "poll_seen ps snapshot (st\<lparr>sp_last := map_set p (snapshot p) (sp_last st)\<rparr>) =
      poll_seen ps snapshot (st'\<lparr>sp_last := map_set p (snapshot p) (sp_last st')\<rparr>)"
    by (rule Cons.IH) (simp add: Cons.prems)
  ultimately show ?case using Cons.IH [OF Cons.prems] by (simp del: session_poll.update_convs)
qed simp

lemma note_changed_keeps [simp]: "sp_last (note_changed d st) = sp_last st" "sp_deadline (note_changed d st) = sp_deadline st"
  by (auto simp: note_changed_def split: option.split list.split)

lemma poll_paths_seen:
  "poll_paths ps snapshot st = (c, st') \<Longrightarrow>
     (c \<longleftrightarrow> poll_seen ps snapshot st \<noteq> []) \<and> sp_deadline st' = sp_deadline st \<and>
     sp_pendingPaths st' = fold set_add (file_changes (poll_seen ps snapshot st)) (sp_pendingPaths st) \<and>
     (sp_pendingRescan st' \<longleftrightarrow> sp_pendingRescan st \<or> Unknown_change \<in> set (poll_seen ps snapshot st))"
proof (induction ps arbitrary: st c st')
  case (Cons p ps)
  let ?prev = "last_snapshot st p" and ?cur = "snapshot p"
  show ?case
  proof (cases "ps_signature ?cur = ps_signature ?prev")
    case True
    then show ?thesis using Cons by (simp add: Let_def path_changes_def)
  next
    case False
    let ?d = "diffSnapshotEntries (ps_entries ?prev) (ps_entries ?cur)"
    let ?st = "st\<lparr>sp_last := map_set p ?cur (sp_last st)\<rparr>"
    obtain c1 st1 where rest: "poll_paths ps snapshot (note_changed ?d ?st) = (c1, st1)" by (cases "poll_paths ps snapshot (note_changed ?d ?st)")
    have same: "poll_seen ps snapshot (note_changed ?d ?st) = poll_seen ps snapshot ?st" by (rule poll_seen_pending) simp
    have out: "c" "st' = st1" using Cons.prems False rest by (simp_all add: Let_def)
    have nonempty: "path_changes ?prev ?cur \<noteq> []" using False by (auto simp: path_changes_def split: option.split)
    have "sp_pendingPaths (note_changed ?d ?st) = fold set_add (file_changes (path_changes ?prev ?cur)) (sp_pendingPaths st) \<and>
      (sp_pendingRescan (note_changed ?d ?st) \<longleftrightarrow> sp_pendingRescan st \<or> Unknown_change \<in> set (path_changes ?prev ?cur))"
      using False by (auto simp: note_changed_def path_changes_def split: option.split list.split)
    then show ?thesis using Cons.IH [OF rest] False out nonempty by (auto simp: same)
  qed
qed simp

definition poll_represents :: "session_poll \<Rightarrow> collector \<Rightarrow> bool" where
  "poll_represents st q \<longleftrightarrow>
     sp_pendingPaths st = set_of_list (file_changes (co_changes q)) \<and>
     (sp_pendingRescan st \<longleftrightarrow> Unknown_change \<in> set (co_changes q)) \<and>
     sp_deadline st = map_option (\<lambda>s. s + SESSION_STABLE_AFTER_MS) (co_last q)"

lemma poll_new: "poll_represents (start_poll paths first) nothing_seen"
  by (simp add: poll_represents_def start_poll_def nothing_seen_def set_of_list_def)

interpretation plw: quiet_collector "poll_round paths" pr_observedAt "\<lambda>r st. Seen (poll_seen paths (pr_snapshot r) st)" poll_represents
  for paths
proof
  fix st :: session_poll and q :: collector and r :: poll_reading
  assume rel: "poll_represents st q"
  obtain c st' where ps: "poll_paths paths (pr_snapshot r) st = (c, st')" by (cases "poll_paths paths (pr_snapshot r) st")
  from poll_paths_seen [OF ps] rel
  show "fst (poll_round paths r st) = fst (observe (pr_observedAt r) (Seen (poll_seen paths (pr_snapshot r) st)) q) \<and>
    poll_represents (snd (poll_round paths r st)) (snd (observe (pr_observedAt r) (Seen (poll_seen paths (pr_snapshot r) st)) q))"
    by (auto simp: poll_round_def ps observe_def poll_represents_def event_of_def nothing_seen_def set_of_list_snoc set_of_list_def [of "[]"]
        split: option.splits)
qed

lemma poll_trace: "poll_run paths rs st = plw.trace paths rs st"
  by (induction rs arbitrary: st) (auto simp: Let_def split: prod.split)

section \<open>What is reported, and when\<close>

text \<open>What changed, without the state of the loop. \<open>known\<close> is the reading of a path that its signature last
  changed with; a later reading with another signature shows the differences: the files that one reading has
  and the other has not, or has with another time or size. When there is none, or one reading is not
  tracked file by file, what changed is unknown.\<close>

definition differences :: "path_snapshot \<Rightarrow> path_snapshot \<Rightarrow> change set" where
  "differences old new =
     (case (ps_entries old, ps_entries new) of
        (Some x, Some y) \<Rightarrow> if map_get x = map_get y then {Unknown_change} else File_change ` {f. map_get x f \<noteq> map_get y f}
      | _ \<Rightarrow> {Unknown_change})"

definition reread :: "(string \<Rightarrow> path_snapshot) \<Rightarrow> (string \<Rightarrow> path_snapshot) \<Rightarrow> string \<Rightarrow> path_snapshot" where
  "reread known reading p = (if ps_signature (reading p) = ps_signature (known p) then known p else reading p)"

definition round_changes :: "string list \<Rightarrow> (string \<Rightarrow> path_snapshot) \<Rightarrow> (string \<Rightarrow> path_snapshot) \<Rightarrow> change set" where
  "round_changes paths known reading =
     (\<Union>p\<in>{p \<in> set paths. ps_signature (reading p) \<noteq> ps_signature (known p)}. differences (known p) (reading p))"

fun seen_by_polling :: "string list \<Rightarrow> (string \<Rightarrow> path_snapshot) \<Rightarrow> poll_reading list \<Rightarrow> (int \<times> change) set" where
  "seen_by_polling paths known [] = {}"
| "seen_by_polling paths known (r # rs) =
     Pair (pr_observedAt r) ` round_changes paths known (pr_snapshot r) \<union> seen_by_polling paths (reread known (pr_snapshot r)) rs"

text \<open>The entries of a reading are a Map: no file twice.\<close>

definition proper_reading :: "string list \<Rightarrow> (string \<Rightarrow> path_snapshot) \<Rightarrow> bool" where
  "proper_reading paths reading \<longleftrightarrow>
     list_all (\<lambda>p. case ps_entries (reading p) of None \<Rightarrow> True | Some es \<Rightarrow> wf_map es) paths"

lemma reread_proper: "proper_reading paths known \<Longrightarrow> proper_reading paths reading \<Longrightarrow> proper_reading paths (reread known reading)"
  by (simp add: proper_reading_def reread_def list_all_iff)

lemma diff_set:
  assumes "wf_map y"
  shows "diffSnapshotEntries (Some x) (Some y) = Some fs \<Longrightarrow> set fs = {f. map_get x f \<noteq> map_get y f}"
proof -
  assume "diffSnapshotEntries (Some x) (Some y) = Some fs"
  then have "fs = set_of_list (map fst (filter (\<lambda>(path, signature). map_get x path \<noteq> Some signature) y) @
      filter (\<lambda>path. \<not> map_has y path) (map_keys x))"
    by (simp only: diffSnapshotEntries_def prod.case option.case option.inject)
  then have fs: "set fs = fst ` {e \<in> set y. map_get x (fst e) \<noteq> Some (snd e)} \<union> {f \<in> set (map_keys x). \<not> map_has y f}"
    by (auto simp: split_beta)
  have "f \<in> set fs \<longleftrightarrow> map_get x f \<noteq> map_get y f" for f
  proof (cases "map_get y f")
    case None
    then have "f \<notin> fst ` set y" by (simp add: map_of_eq_None_iff)
    then have "f \<in> set fs \<longleftrightarrow> f \<in> fst ` set x" using None by (force simp: fs)
    then show ?thesis using None by (simp add: map_of_eq_None_iff) (metis map_of_eq_None_iff)
  next
    case (Some v)
    then have v: "(f, w) \<in> set y \<longleftrightarrow> w = v" for w using map_get_eq_Some [OF assms, of f w] by auto
    have "f \<in> fst ` {e \<in> set y. map_get x (fst e) \<noteq> Some (snd e)} \<longleftrightarrow> (\<exists>w. (f, w) \<in> set y \<and> map_get x f \<noteq> Some w)"
      by (auto intro: rev_image_eqI)
    then have "f \<in> set fs \<longleftrightarrow> map_get x f \<noteq> Some v" unfolding fs v using Some by simp
    then show ?thesis using Some by simp
  qed
  then show ?thesis by auto
qed

lemma path_changes_set:
  assumes "case ps_entries cur of None \<Rightarrow> True | Some es \<Rightarrow> wf_map es"
  shows "set (path_changes prev cur) = (if ps_signature cur = ps_signature prev then {} else differences prev cur)"
proof (cases "\<exists>x y. ps_entries prev = Some x \<and> ps_entries cur = Some y")
  case True
  then obtain x y fs where xy: "ps_entries prev = Some x" "ps_entries cur = Some y" and fs: "diffSnapshotEntries (Some x) (Some y) = Some fs"
    by (auto simp: diffSnapshotEntries_def)
  have "set fs = {f. map_get x f \<noteq> map_get y f}" using diff_set [OF _ fs] assms xy by simp
  moreover from this have "fs = [] \<longleftrightarrow> map_get x = map_get y" by (auto simp: fun_eq_iff)
  ultimately show ?thesis by (auto simp: path_changes_def differences_def xy fs)
next
  case False
  then show ?thesis
    by (auto simp: path_changes_def differences_def diffSnapshotEntries_def split: option.splits)
qed

definition knows :: "string list \<Rightarrow> (string \<Rightarrow> path_snapshot) \<Rightarrow> session_poll \<Rightarrow> bool" where
  "knows paths known st \<longleftrightarrow> (\<forall>p\<in>set paths. last_snapshot st p = known p)"

lemma start_knows: "knows paths first (start_poll paths first)"
proof -
  have "map_get (fold (\<lambda>p. map_set p (first p)) ps m) p = (if p \<in> set ps then Some (first p) else map_get m p)" for ps m p
    by (induction ps arbitrary: m) auto
  then show ?thesis by (simp add: knows_def last_snapshot_def start_poll_def)
qed

lemma last_set: "last_snapshot (st\<lparr>sp_last := map_set p s (sp_last st)\<rparr>) q = (if q = p then s else last_snapshot st q)"
  by (simp add: last_snapshot_def)

lemma poll_seen_set:
  assumes "proper_reading ps reading"
  shows "set (poll_seen ps reading st) = round_changes ps (last_snapshot st) reading"
  using assms
proof (induction ps arbitrary: st)
  case (Cons p ps)
  have p: "case ps_entries (reading p) of None \<Rightarrow> True | Some es \<Rightarrow> wf_map es" and ps: "proper_reading ps reading"
    using Cons.prems by (simp_all add: proper_reading_def)
  have sc: "round_changes ps known' reading \<union> (if ps_signature (reading p) = ps_signature (known p) then {} else differences (known p) (reading p)) =
      round_changes (p # ps) known reading"
    if "known' = (if ps_signature (reading p) = ps_signature (known p) then known else known(p := reading p))" for known known'
    using that by (auto simp: round_changes_def split: if_splits)
  have upd: "last_snapshot (st\<lparr>sp_last := map_set p (reading p) (sp_last st)\<rparr>) = (last_snapshot st)(p := reading p)"
    by (rule ext) (simp add: last_set)
  have "set (poll_seen (p # ps) reading st) = set (path_changes (last_snapshot st p) (reading p)) \<union>
      round_changes ps (if ps_signature (reading p) = ps_signature (last_snapshot st p) then last_snapshot st
        else (last_snapshot st)(p := reading p)) reading"
    using Cons.IH [OF ps] by (cases "ps_signature (reading p) = ps_signature (last_snapshot st p)") (simp_all only: poll_seen.simps set_append if_True if_False simp_thms upd)
  then show ?case
    unfolding path_changes_set [OF p] sc [OF refl, symmetric] by (simp only: Un_commute)
qed (simp add: round_changes_def)

lemma poll_paths_last:
  "poll_paths ps reading st = (c, st') \<Longrightarrow>
     last_snapshot st' q = (if q \<in> set ps then reread (last_snapshot st) reading q else last_snapshot st q)"
proof (induction ps arbitrary: st c st')
  case (Cons p ps)
  show ?case
  proof (cases "ps_signature (reading p) = ps_signature (last_snapshot st p)")
    case True
    then show ?thesis using Cons by (auto simp: Let_def reread_def)
  next
    case False
    let ?d = "diffSnapshotEntries (ps_entries (last_snapshot st p)) (ps_entries (reading p))"
    let ?st = "note_changed ?d (st\<lparr>sp_last := map_set p (reading p) (sp_last st)\<rparr>)"
    obtain c1 where rest: "poll_paths ps reading ?st = (c1, st')"
      using Cons.prems False by (auto simp: Let_def split: prod.splits)
    have "last_snapshot ?st q = (if q = p then reading p else last_snapshot st q)" for q
      by (simp add: last_snapshot_def)
    then show ?thesis using Cons.IH [OF rest] False by (auto simp: reread_def)
  qed
qed simp

lemma round_knows:
  assumes "knows paths known st"
  shows "knows paths (reread known (pr_snapshot r)) (snd (poll_round paths r st))"
proof -
  obtain c st' where ps: "poll_paths paths (pr_snapshot r) st = (c, st')" by fastforce
  have "last_snapshot (snd (poll_round paths r st)) q = last_snapshot st' q" for q
    by (auto simp: poll_round_def ps last_snapshot_def split: option.splits)
  then show ?thesis using poll_paths_last [OF ps] assms by (simp add: knows_def reread_def)
qed

lemma round_changes_known: "knows paths known st \<Longrightarrow> round_changes paths (last_snapshot st) reading = round_changes paths known reading"
  by (auto simp: round_changes_def knows_def)

lemma seen_observed:
  assumes "list_all (\<lambda>r. proper_reading paths (pr_snapshot r)) rs" and "knows paths known st"
  shows "set (changes_at (plw.observations paths rs st)) = seen_by_polling paths known rs"
  using assms
proof (induction rs arbitrary: known st)
  case (Cons r rs)
  have "set (poll_seen paths (pr_snapshot r) st) = round_changes paths known (pr_snapshot r)"
    using poll_seen_set round_changes_known [OF Cons.prems(2)] Cons.prems(1) by simp
  then show ?case using Cons.IH [OF _ round_knows [OF Cons.prems(2)]] Cons.prems(1) by (auto simp: changes_at_def)
qed (simp add: changes_at_def)

definition seen_by_events :: "(int \<times> fs_event) list \<Rightarrow> (int \<times> change) list" where
  "seen_by_events es = changes_at (fsw.observations es new_fs_watch)"

lemma no_error_no_shut: "list_all (\<lambda>i. snd i \<noteq> Fs_error) es \<Longrightarrow> \<forall>x\<in>set (fsw.observations es w). snd x \<noteq> Shut"
  by (induction es arbitrary: w) (auto simp: fs_seen_def split: fs_event.split)

lemma polling_no_shut: "\<forall>x\<in>set (plw.observations paths rs st). snd x \<noteq> Shut"
  by (induction rs arbitrary: st) auto

lemma events_report_settled:
  assumes "sorted (map fst (es @ [e]))" and "list_all (\<lambda>i. snd i \<noteq> Fs_error) es"
    and "fs_run (es @ [e]) new_fs_watch = fs_run es new_fs_watch @ [(t, ev)]"
  shows "list_all (settled_by (fs_run (es @ [e]) new_fs_watch)) (seen_by_events es)"
  using fsw.report_covers [OF fs_new assms(1) no_error_no_shut [OF assms(2)]] assms(3)
  by (simp add: fs_trace list_all_iff seen_by_events_def)

lemma state_knows: "knows paths known st \<Longrightarrow> knows paths (fold (\<lambda>r known. reread known (pr_snapshot r)) rs known) (plw.state_after paths rs st)"
  by (induction rs arbitrary: known st) (simp_all add: round_knows)

lemma seen_snoc:
  "seen_by_polling paths known (rs @ [r]) = seen_by_polling paths known rs \<union>
     Pair (pr_observedAt r) ` round_changes paths (fold (\<lambda>r known. reread known (pr_snapshot r)) rs known) (pr_snapshot r)"
  by (induction rs arbitrary: known) auto

text \<open>C34. Polled changes are reported. Let the rounds be read in the order of the clock, and let no reading list
  a file twice. What changed between the readings is \<^const>\<open>seen_by_polling\<close>, defined on the readings alone. When a round finds
  nothing changed and every change before is at least thirty seconds old, by its end every change was
  reported: by the file's path or by asking for a full scan, thirty seconds after it was seen or later.
  Whenever a round reports, too, every change seen before was reported by then; and a path that is named is
  one of a file that did change.\<close>

theorem polling_reports_settled:
  assumes "sorted (map pr_observedAt (rs @ [r]))" and "list_all (\<lambda>r. proper_reading paths (pr_snapshot r)) (rs @ [r])"
  shows "(seen_by_polling paths first (rs @ [r]) = seen_by_polling paths first rs \<and>
      (\<forall>sc\<in>seen_by_polling paths first rs. fst sc + SESSION_STABLE_AFTER_MS \<le> pr_observedAt r) \<longrightarrow>
        (\<forall>sc\<in>seen_by_polling paths first rs. settled_by (pollSessionPaths paths first (rs @ [r])) sc)) \<and>
    (\<forall>t ev. pollSessionPaths paths first (rs @ [r]) = pollSessionPaths paths first rs @ [(t, ev)] \<longrightarrow>
      (\<forall>sc\<in>seen_by_polling paths first rs. settled_by (pollSessionPaths paths first (rs @ [r])) sc) \<and>
      (\<forall>ps f. ev = Changed_paths ps \<and> f \<in> set ps \<longrightarrow> (\<exists>s. (s, File_change f) \<in> seen_by_polling paths first rs)))"
proof -
  let ?st = "start_poll paths first"
  have seen: "set (changes_at (plw.observations paths rs ?st)) = seen_by_polling paths first rs"
    by (rule seen_observed [OF _ start_knows]) (use assms(2) in simp)
  have run: "pollSessionPaths paths first rs' = plw.trace paths rs' ?st" for rs' by (simp add: pollSessionPaths_def poll_trace)
  show ?thesis
  proof (intro conjI impI allI)
    assume quiet: "seen_by_polling paths first (rs @ [r]) = seen_by_polling paths first rs \<and>
      (\<forall>sc\<in>seen_by_polling paths first rs. fst sc + SESSION_STABLE_AFTER_MS \<le> pr_observedAt r)"
    have "poll_seen paths (pr_snapshot r) (plw.state_after paths rs ?st) = []"
    proof (rule ccontr)
      assume "\<not> ?thesis"
      then obtain c where "c \<in> set (poll_seen paths (pr_snapshot r) (plw.state_after paths rs ?st))" by (meson list.set_sel(1))
      then have "(pr_observedAt r, c) \<in> seen_by_polling paths first (rs @ [r])"
        using poll_seen_set [of paths "pr_snapshot r"] round_changes_known [OF state_knows [OF start_knows [of paths first], where rs = rs], where reading = "pr_snapshot r"] assms(2)
        by (auto simp: seen_snoc)
      then show False using quiet by (auto simp: SESSION_STABLE_AFTER_MS_def)
    qed
    then show "\<forall>sc\<in>seen_by_polling paths first rs. settled_by (pollSessionPaths paths first (rs @ [r])) sc"
      using plw.report_comes [OF poll_new assms(1) polling_no_shut] quiet by (simp add: seen run)
  next
    fix t ev assume out: "pollSessionPaths paths first (rs @ [r]) = pollSessionPaths paths first rs @ [(t, ev)]"
    show "\<forall>sc\<in>seen_by_polling paths first rs. settled_by (pollSessionPaths paths first (rs @ [r])) sc"
      using plw.report_covers [OF poll_new assms(1) polling_no_shut out [unfolded run]] by (simp add: seen run)
    fix ps f assume f: "ev = Changed_paths ps \<and> f \<in> set ps"
    then have "File_change f \<in> snd ` set (changes_at (plw.observations paths rs ?st))"
      using plw.report_names [OF poll_new] out by (simp add: run)
    then show "\<exists>s. (s, File_change f) \<in> seen_by_polling paths first rs" by (auto simp: seen)
  qed
qed

text \<open>The state of the loop before the next round.\<close>

definition polled :: "string list \<Rightarrow> (string \<Rightarrow> path_snapshot) \<Rightarrow> poll_reading list \<Rightarrow> session_poll" where
  "polled paths first rs = fold (\<lambda>r st. snd (poll_round paths r st)) rs (start_poll paths first)"

lemma polled_state: "polled paths first rs = plw.state_after paths rs (start_poll paths first)"
proof -
  have "fold (\<lambda>r st. snd (poll_round paths r st)) rs st = plw.state_after paths rs st" for st
    by (induction rs arbitrary: st) auto
  then show ?thesis by (simp add: polled_def)
qed

lemma poll_after_change:
  assumes "poll_seen paths (pr_snapshot r) st \<noteq> []"
  shows "sp_deadline (snd (poll_round paths r st)) = Some (pr_observedAt r + SESSION_STABLE_AFTER_MS)" "fst (poll_round paths r st) = None"
  using assms poll_paths_seen [of paths "pr_snapshot r" st]
  by (auto simp: poll_round_def split: prod.splits)

text \<open>A change is not kept waiting: after a round that saw a change, the next pause is at most thirty
  seconds, and if the round after it sees no other change, that round reports.\<close>

lemma polling_reports_next:
  assumes "polled paths first rs = st" and "poll_seen paths (pr_snapshot r) st \<noteq> []"
    and "st' = snd (poll_round paths r st)" and "poll_seen paths (pr_snapshot r') st' = []"
    and "pr_observedAt r \<le> pr_now r'" and "pr_now r' + poll_delay (pr_now r') st' \<le> pr_observedAt r'"
  shows "poll_delay (pr_now r') st' \<le> SESSION_STABLE_AFTER_MS \<and>
    (\<exists>ev. pollSessionPaths paths first (rs @ [r, r']) = pollSessionPaths paths first rs @ [(pr_observedAt r', ev)])"
proof -
  have deadline: "sp_deadline st' = Some (pr_observedAt r + SESSION_STABLE_AFTER_MS)" and silent: "fst (poll_round paths r st) = None"
    using poll_after_change [OF assms(2)] assms(3) by simp_all
  from deadline assms(5,6) have due: "pr_observedAt r + SESSION_STABLE_AFTER_MS \<le> pr_observedAt r'"
    by (auto simp: poll_delay_def SESSION_STABLE_AFTER_MS_def SESSION_IDLE_POLL_INTERVAL_MS_def)
  obtain c st2 where ps: "poll_paths paths (pr_snapshot r') st' = (c, st2)" by (cases "poll_paths paths (pr_snapshot r') st'")
  from poll_paths_seen [OF ps] assms(4) deadline due obtain ev where "fst (poll_round paths r' st') = Some ev"
    by (auto simp: poll_round_def ps)
  then have "pollSessionPaths paths first ((rs @ [r]) @ [r']) = pollSessionPaths paths first rs @ [(pr_observedAt r', ev)]"
    using silent assms(1,3) by (simp only: pollSessionPaths_def poll_trace plw.trace_snoc plw.state_after_snoc polled_state) simp
  moreover have "poll_delay (pr_now r') st' \<le> SESSION_STABLE_AFTER_MS"
    using deadline assms(5) by (auto simp: poll_delay_def SESSION_STABLE_AFTER_MS_def SESSION_IDLE_POLL_INTERVAL_MS_def)
  ultimately show ?thesis by auto
qed

text \<open>A poll of one directory: a file grows, the next round is quiet and reports it.\<close>

definition grown_file :: "int \<Rightarrow> string \<Rightarrow> path_snapshot" where
  "grown_file bytes p = sessionPathSnapshot id SESSION_PATH_TRACKED_ENTRY_LIMIT p (Disk_dir (Some [(''a.jsonl'', Disk_file ''1'' bytes)]))"

definition growing :: "poll_reading list" where
  "growing = [\<lparr>pr_now = 0, pr_snapshot = grown_file 1, pr_observedAt = 60000\<rparr>,
     \<lparr>pr_now = 60000, pr_snapshot = grown_file 2, pr_observedAt = 120000\<rparr>]"

definition quiet_round :: poll_reading where
  "quiet_round = \<lparr>pr_now = 120000, pr_snapshot = grown_file 2, pr_observedAt = 150000\<rparr>"

lemma growing_trace:
  "pollSessionPaths [''/s''] (grown_file 1) growing = []"
  "pollSessionPaths [''/s''] (grown_file 1) (growing @ [quiet_round]) = [(150000, Changed_paths [''/s/a.jsonl''])]"
  by code_simp+

theorem polling_reports_settled_witness:
  "(\<exists>s. (s, File_change ''/s/a.jsonl'') \<in> seen_by_polling [''/s''] (grown_file 1) growing) \<and>
   settled_by (pollSessionPaths [''/s''] (grown_file 1) (growing @ [quiet_round])) (120000, File_change ''/s/a.jsonl'')"
proof -
  have "sorted (map pr_observedAt (growing @ [quiet_round]))"
    "list_all (\<lambda>r. proper_reading [''/s''] (pr_snapshot r)) (growing @ [quiet_round])" by code_simp+
  note law = polling_reports_settled [OF this, of "grown_file 1"]
  have out: "pollSessionPaths [''/s''] (grown_file 1) (growing @ [quiet_round]) =
      pollSessionPaths [''/s''] (grown_file 1) growing @ [(150000, Changed_paths [''/s/a.jsonl''])]"
    by (simp add: growing_trace)
  have "settled_by (pollSessionPaths [''/s''] (grown_file 1) (growing @ [quiet_round])) (120000, File_change ''/s/a.jsonl'')"
    by (simp add: growing_trace settled_by_def covers_def SESSION_STABLE_AFTER_MS_def)
  then show ?thesis using law out by auto
qed

lemma polling_reports_next_witness:
  "poll_delay 120000 (snd (poll_round [''/s''] (growing ! 1) (polled [''/s''] (grown_file 1) [growing ! 0]))) \<le> 30000"
proof -
  let ?st = "polled [''/s''] (grown_file 1) [growing ! 0]"
  have "poll_seen [''/s''] (pr_snapshot (growing ! 1)) ?st \<noteq> []"
    "poll_seen [''/s''] (pr_snapshot quiet_round) (snd (poll_round [''/s''] (growing ! 1) ?st)) = []"
    "pr_observedAt (growing ! 1) \<le> pr_now quiet_round"
    "pr_now quiet_round + poll_delay (pr_now quiet_round) (snd (poll_round [''/s''] (growing ! 1) ?st)) \<le> pr_observedAt quiet_round"
    by code_simp+
  from polling_reports_next [OF refl this(1) refl this(2-4)] show ?thesis
    by (simp add: quiet_round_def SESSION_STABLE_AFTER_MS_def)
qed

end
