(* ===== verification/SessionSnapshot.thy ===== *)
theory SessionSnapshot
  imports SessionWatcher
begin

text \<open>
  The snapshot of a session directory against a reference: looking up a file by the names on its path.
\<close>

section \<open>Names and paths\<close>

definition full_path :: "string \<Rightarrow> string list \<Rightarrow> string" where
  "full_path dir names = foldl path_join dir names"

definition proper_name :: "string \<Rightarrow> bool" where
  "proper_name n \<longleftrightarrow> n \<noteq> [] \<and> CHR ''/'' \<notin> set n"

lemma join_with_Cons: "ns \<noteq> [] \<Longrightarrow> join_with sep (n # ns) = n @ sep @ join_with sep ns"
  by (cases ns) auto

lemma full_path_after: "proper_name n \<Longrightarrow> list_all proper_name ns \<Longrightarrow> foldl path_join (d @ n) ns = d @ join_with ''/'' (n # ns)"
proof (induction ns arbitrary: d n)
  case (Cons m ns)
  have "path_join (d @ n) m = (d @ n @ ''/'') @ m"
  proof -
    have "last n \<noteq> CHR ''/''" using Cons.prems(1) last_in_set [of n] by (metis proper_name_def)
    then show ?thesis using Cons.prems(1) by (simp add: path_join_def proper_name_def)
  qed
  then show ?case using Cons.IH [of m "d @ n @ ''/''"] Cons.prems by (simp add: join_with_Cons)
qed simp

lemma full_path_join:
  assumes "list_all proper_name ns" and "ns \<noteq> []"
  shows "full_path d ns = (if d \<noteq> [] \<and> last d = CHR ''/'' then d else d @ ''/'') @ join_with ''/'' ns"
proof -
  obtain n ms where ns: "ns = n # ms" using assms(2) by (cases ns) auto
  have "path_join d n = (if d \<noteq> [] \<and> last d = CHR ''/'' then d else d @ ''/'') @ n" by (simp add: path_join_def)
  then show ?thesis using full_path_after assms(1) by (simp add: full_path_def ns)
qed

lemma full_path_inject:
  assumes "list_all proper_name ns" "list_all proper_name ms" "ns \<noteq> []" "ms \<noteq> []" and "full_path d ns = full_path d ms"
  shows "ns = ms"
proof (rule join_with_inject)
  show "join_with [CHR ''/''] ns = join_with [CHR ''/''] ms" using assms by (simp add: full_path_join)
qed (use assms in \<open>auto simp: list_all_iff proper_name_def\<close>)

section \<open>The files of a directory\<close>

text \<open>Looking up a path: a directory that cannot be listed has no entries to look up.\<close>

fun disk_lookup :: "disk_entry \<Rightarrow> string list \<Rightarrow> disk_entry option" where
  "disk_lookup e [] = Some e"
| "disk_lookup (Disk_dir (Some es)) (n # ns) = (case map_of es n of None \<Rightarrow> None | Some e \<Rightarrow> disk_lookup e ns)"
| "disk_lookup e (n # ns) = None"

text \<open>A directory as a file system has it, as deep as the walk goes: no name twice, none with a slash.\<close>

function proper_dir :: "nat \<Rightarrow> (string \<times> disk_entry) list \<Rightarrow> bool" where
  "proper_dir k [] = True"
| "proper_dir k ((name, e) # es) \<longleftrightarrow>
     proper_name name \<and> name \<notin> set (map fst es) \<and> proper_dir k es \<and>
     (case e of Disk_dir (Some sub) \<Rightarrow> k > 0 \<longrightarrow> proper_dir (k - 1) sub | _ \<Rightarrow> True)"
  by pat_completeness auto
termination by (relation "measures [fst, \<lambda>(k, es). length es]") auto

lemma proper_dir_names: "proper_dir k es \<Longrightarrow> distinct (map fst es) \<and> list_all proper_name (map fst es)"
  by (induction k es rule: proper_dir.induct) auto

lemma proper_dir_sub: "proper_dir k es \<Longrightarrow> (name, Disk_dir (Some sub)) \<in> set es \<Longrightarrow> k > 0 \<Longrightarrow> proper_dir (k - 1) sub"
  by (induction k es rule: proper_dir.induct) auto

text \<open>The files in the order of the walk, \<open>k\<close> levels of directories deep.\<close>

function file_list :: "nat \<Rightarrow> (string \<times> disk_entry) list \<Rightarrow> (string list \<times> string) list" where
  "file_list k [] = []"
| "file_list k ((name, e) # es) =
     (case e of
        Disk_file mtime bytes \<Rightarrow> [([name], stat_text mtime bytes)]
      | Disk_dir sub \<Rightarrow> if k > 0 then map (\<lambda>(ns, s). (name # ns, s)) (file_list (k - 1) (listed sub)) else []
      | _ \<Rightarrow> []) @ file_list k es"
  by pat_completeness auto
termination by (relation "measures [fst, \<lambda>(k, es). length es]") auto

definition track :: "nat \<Rightarrow> (string \<times> string) list option \<Rightarrow> string \<times> string \<Rightarrow> (string \<times> string) list option" where
  "track limit entries f =
     (case entries of None \<Rightarrow> None | Some es \<Rightarrow> if length es < limit then Some (map_set (fst f) (snd f) es) else None)"

lemma count_file_track:
  "wk_entries (count_file limit full signature st) = track limit (wk_entries st) (full, signature)"
  "wk_counted (count_file limit full signature st) = wk_counted st + 1"
  by (simp_all add: count_file_def track_def split: option.split)

lemma track_simps [simp]:
  "track limit None f = None"
  "track limit (Some es) f = (if length es < limit then Some (map_set (fst f) (snd f) es) else None)"
  by (simp_all add: track_def)

lemma walk_tracks:
  "depth \<le> SIG_MAX_DEPTH \<Longrightarrow>
     wk_entries (walk limit depth dir es st) =
       foldl (track limit) (wk_entries st) (map (\<lambda>(ns, s). (full_path dir ns, s)) (file_list (SIG_MAX_DEPTH - depth) es)) \<and>
     wk_counted (walk limit depth dir es st) = wk_counted st + length (file_list (SIG_MAX_DEPTH - depth) es)"
proof (induction limit depth dir es st rule: walk.induct)
  case (5 limit depth dir name sub es st)
  show ?case
  proof (cases "depth < SIG_MAX_DEPTH")
    case True
    have under: "map (\<lambda>(ns, s). (full_path dir ns, s)) (map (\<lambda>(ns, s). (name # ns, s)) fs) =
        map (\<lambda>(ns, s). (full_path (path_join dir name) ns, s)) fs" for fs :: "(string list \<times> string) list"
      by (simp add: full_path_def split_beta comp_def)
    have "SIG_MAX_DEPTH - (depth + 1) = SIG_MAX_DEPTH - depth - 1" by simp
    then show ?thesis using 5 True by (simp add: mark_dir_def under del: map_map)
  next
    case False
    then show ?thesis using 5 by (simp add: mark_dir_def)
  qed
qed (simp_all add: count_file_track full_path_def)

lemma track_all:
  "distinct (map fst (es @ fs)) \<Longrightarrow>
     foldl (track limit) (Some es) fs = (if fs = [] \<or> length (es @ fs) \<le> limit then Some (es @ fs) else None)"
proof (induction fs arbitrary: es)
  case (Cons f fs)
  have absent: "map_set k v m = m @ [(k, v)]" if "k \<notin> set (map fst m)" for k :: string and v :: string and m
    using that by (induction m) auto
  have none: "foldl (track limit) None gs = None" for gs by (induction gs) auto
  from Cons show ?case by (cases f) (auto simp: absent none)
qed simp

lemma listed_set: "set (listed (Some es)) = set es" "listed None = []"
  by (simp_all add: listed_def)

definition entry_files :: "nat \<Rightarrow> string \<Rightarrow> disk_entry \<Rightarrow> (string list \<times> string) list" where
  "entry_files k name e =
     (case e of
        Disk_file mtime bytes \<Rightarrow> [([name], stat_text mtime bytes)]
      | Disk_dir sub \<Rightarrow> if k > 0 then map (\<lambda>(ns, s). (name # ns, s)) (file_list (k - 1) (listed sub)) else []
      | _ \<Rightarrow> [])"

lemma file_list_mem: "(ns, s) \<in> set (file_list k es) \<longleftrightarrow> (\<exists>name e. (name, e) \<in> set es \<and> (ns, s) \<in> set (entry_files k name e))"
proof (induction es)
  case (Cons x es)
  obtain name e where x: "x = (name, e)" by (cases x)
  have "file_list k (x # es) = entry_files k name e @ file_list k es" by (simp add: x entry_files_def)
  then show ?case using Cons.IH by (auto simp: x)
qed simp

lemma entry_files_flat: "(ns, s) \<in> set (entry_files 0 name e) \<longleftrightarrow> (\<exists>m b. e = Disk_file m b \<and> ns = [name] \<and> s = stat_text m b)"
  by (cases e) (auto simp: entry_files_def)

lemma entry_files_deep:
  "(ns, s) \<in> set (entry_files (Suc k) name e) \<longleftrightarrow>
     (\<exists>m b. e = Disk_file m b \<and> ns = [name] \<and> s = stat_text m b) \<or>
     (\<exists>sub ms. e = Disk_dir sub \<and> ns = name # ms \<and> (ms, s) \<in> set (file_list k (listed sub)))"
  by (cases e) (auto simp: entry_files_def)

lemma file_list_flat:
  "(ns, s) \<in> set (file_list 0 es) \<longleftrightarrow> (\<exists>name m b. (name, Disk_file m b) \<in> set es \<and> ns = [name] \<and> s = stat_text m b)"
  unfolding file_list_mem entry_files_flat by blast

lemma file_list_deep:
  "(ns, s) \<in> set (file_list (Suc k) es) \<longleftrightarrow>
     (\<exists>name m b. (name, Disk_file m b) \<in> set es \<and> ns = [name] \<and> s = stat_text m b) \<or>
     (\<exists>name sub ms. (name, Disk_dir sub) \<in> set es \<and> ns = name # ms \<and> (ms, s) \<in> set (file_list k (listed sub)))"
  unfolding file_list_mem entry_files_deep by blast

lemma file_list_lookup:
  assumes "proper_dir k es"
  shows "(ns, s) \<in> set (file_list k (listed (Some es))) \<longleftrightarrow>
    ns \<noteq> [] \<and> length ns \<le> k + 1 \<and> (\<exists>m b. disk_lookup (Disk_dir (Some es)) ns = Some (Disk_file m b) \<and> s = stat_text m b)"
  using assms
proof (induction k arbitrary: es ns)
  case 0
  from proper_dir_names [OF 0] have d: "distinct (map fst es)" by simp
  show ?case
  proof (cases ns)
    case (Cons n ms)
    have "(n, e) \<in> set es \<longleftrightarrow> map_of es n = Some e" for e by (simp add: map_of_eq_Some_iff [OF d])
    then show ?thesis by (cases ms) (auto simp: Cons file_list_flat listed_set split: option.splits)
  qed (simp add: file_list_flat)
next
  case (Suc k)
  from proper_dir_names [OF Suc.prems] have d: "distinct (map fst es)" by simp
  show ?case
  proof (cases ns)
    case (Cons n ms)
    have e: "(n, e) \<in> set es \<longleftrightarrow> map_of es n = Some e" for e by (simp add: map_of_eq_Some_iff [OF d])
    show ?thesis
    proof (cases "map_of es n")
      case None
      then show ?thesis by (simp add: Cons file_list_deep listed_set e)
    next
      case (Some x)
      show ?thesis
      proof (cases "\<exists>sub. x = Disk_dir (Some sub)")
        case True
        then obtain sub where sub: "x = Disk_dir (Some sub)" by blast
        with Some e have "proper_dir k sub" using proper_dir_sub [OF Suc.prems, of n sub] by simp
        from Suc.IH [OF this, of ms] show ?thesis
          using Some by (auto simp: Cons file_list_deep listed_set e sub)
      next
        case False
        then show ?thesis
          using Some by (cases x; cases ms) (auto simp: Cons file_list_deep listed_set e split: option.splits)
      qed
    qed
  qed (simp add: file_list_deep)
qed

section \<open>The snapshot is exact\<close>

lemma proper_dir_iff:
  "proper_dir k es \<longleftrightarrow> distinct (map fst es) \<and> list_all proper_name (map fst es) \<and>
     (\<forall>name sub. (name, Disk_dir (Some sub)) \<in> set es \<and> k > 0 \<longrightarrow> proper_dir (k - 1) sub)"
proof (induction es)
  case (Cons x es)
  obtain name e where x: "x = (name, e)" by (cases x)
  have "name \<notin> set (map fst es) \<longleftrightarrow> (\<forall>e. (name, e) \<notin> set es)" by force
  then show ?case using Cons.IH unfolding x by (cases e) (auto split: option.splits)
qed simp

lemma proper_dir_listed: "proper_dir k es \<Longrightarrow> proper_dir k (listed (Some es))"
proof -
  have "distinct (map fst (listed (Some es))) = distinct (map fst es)"
    by (simp add: listed_def distinct_map)
  moreover have "set (map fst (listed (Some es))) = set (map fst es)" by (simp add: listed_def)
  ultimately show "proper_dir k es \<Longrightarrow> ?thesis"
    unfolding proper_dir_iff [of k es] proper_dir_iff [of k "listed (Some es)"] by (simp add: listed_set list_all_iff) blast
qed

lemma file_list_heads: "(ns, s) \<in> set (file_list k es) \<Longrightarrow> ns \<noteq> [] \<and> hd ns \<in> set (map fst es)"
proof -
  assume "(ns, s) \<in> set (file_list k es)"
  then obtain name e where e: "(name, e) \<in> set es" "(ns, s) \<in> set (entry_files k name e)" unfolding file_list_mem by blast
  from e(2) have "ns \<noteq> [] \<and> hd ns = name" by (cases e) (auto simp: entry_files_def split: if_splits)
  then show ?thesis using e(1) by force
qed

lemma file_list_proper:
  "proper_dir k es \<Longrightarrow> (ns, s) \<in> set (file_list k es) \<Longrightarrow> list_all proper_name ns"
proof (induction k arbitrary: es ns)
  case 0
  then show ?case using proper_dir_names [OF 0(1)] by (auto simp: file_list_flat list_all_iff)
next
  case (Suc k)
  from proper_dir_names [OF Suc.prems(1)] have names: "list_all proper_name (map fst es)" by simp
  from Suc.prems(2) consider name m b where "(name, Disk_file m b) \<in> set es" "ns = [name]"
    | name sub ms where "(name, Disk_dir sub) \<in> set es" "ns = name # ms" "(ms, s) \<in> set (file_list k (listed sub))"
    unfolding file_list_deep by blast
  then show ?case
  proof cases
    case 1
    then show ?thesis using names by (auto simp: list_all_iff)
  next
    case 2
    then obtain x where "sub = Some x" by (cases sub) (auto simp: listed_set)
    with 2 have "proper_dir k (listed sub)" using proper_dir_sub [OF Suc.prems(1), of name x] by (simp add: proper_dir_listed)
    from Suc.IH [OF this 2(3)] show ?thesis using 2 names by (auto simp: list_all_iff)
  qed
qed

lemma file_list_distinct: "proper_dir k es \<Longrightarrow> distinct (map fst (file_list k es))"
proof (induction k es rule: file_list.induct)
  case (2 k name e es)
  have rest: "distinct (map fst (file_list k es))" using 2 by simp
  have "distinct (map fst (entry_files k name e))"
  proof (cases "\<exists>sub. e = Disk_dir (Some sub) \<and> k > 0")
    case True
    then obtain sub where sub: "e = Disk_dir (Some sub)" "k > 0" by blast
    have "distinct (map fst (file_list (k - 1) (listed (Some sub))))"
      using 2 sub by (simp add: proper_dir_listed)
    then show ?thesis using sub by (simp add: entry_files_def distinct_map inj_on_def split_beta comp_def)
  qed (cases e rule: disk_entry.exhaust; auto simp: entry_files_def listed_set split: option.splits)
  moreover have "fst ` set (entry_files k name e) \<inter> fst ` set (file_list k es) = {}"
  proof -
    have "hd ns = name" if "(ns, s) \<in> set (entry_files k name e)" for ns s
      using that by (auto simp: entry_files_def split: disk_entry.splits if_splits)
    moreover have "hd ns \<noteq> name" if "(ns, s) \<in> set (file_list k es)" for ns s
      using file_list_heads [OF that] 2(3) by auto
    ultimately show ?thesis by fastforce
  qed
  moreover have "file_list k ((name, e) # es) = entry_files k name e @ file_list k es" by (simp add: entry_files_def)
  ultimately show ?case using rest by simp
qed simp

lemma full_files_distinct:
  assumes "proper_dir k es"
  shows "distinct (map fst (map (\<lambda>(ns, s). (full_path p ns, s)) (file_list k (listed (Some es)))))"
proof -
  let ?fl = "file_list k (listed (Some es))"
  from proper_dir_listed [OF assms] have proper: "proper_dir k (listed (Some es))" .
  have "inj_on (full_path p) (set (map fst ?fl))"
  proof (rule inj_onI)
    fix ns ms
    assume "ns \<in> set (map fst ?fl)" and "ms \<in> set (map fst ?fl)" and eq: "full_path p ns = full_path p ms"
    then obtain s t where "(ns, s) \<in> set ?fl" "(ms, t) \<in> set ?fl" by auto
    then show "ns = ms"
      using file_list_proper [OF proper] file_list_heads eq by (intro full_path_inject [OF _ _ _ _ eq]) blast+
  qed
  then have "distinct (map (full_path p) (map fst ?fl))" using file_list_distinct [OF proper] by (simp add: distinct_map [of "full_path p"] del: map_map)
  then show ?thesis by (simp add: split_beta comp_def)
qed

lemma snapshot_entries:
  assumes "proper_dir SIG_MAX_DEPTH es"
  shows "ps_entries (sessionPathSnapshot sha256 limit p (Disk_dir (Some es))) =
    (let files = map (\<lambda>(ns, s). (full_path p ns, s)) (file_list SIG_MAX_DEPTH (listed (Some es)))
     in if files = [] \<or> length files \<le> limit then Some files else None)"
  using track_all [of "[]", simplified, OF full_files_distinct [OF assms], of limit p]
  by (simp add: sessionPathSnapshot_def walk_tracks Let_def)

text \<open>C35. The snapshot of a session directory is exact: unless it has more files than are tracked, its entries are
  the files up to three directories below it, each by its full path with the modification time and size it
  has on disk, so that an appended line shows in the entry of its own file.\<close>

theorem session_snapshot_exact:
  assumes "proper_dir SIG_MAX_DEPTH es"
  shows "(case ps_entries (sessionPathSnapshot sha256 limit p (Disk_dir (Some es))) of
      None \<Rightarrow> limit < length (file_list SIG_MAX_DEPTH (listed (Some es)))
    | Some entries \<Rightarrow> \<forall>f s. map_get entries f = Some s \<longleftrightarrow>
        (\<exists>ns m b. ns \<noteq> [] \<and> length ns \<le> SIG_MAX_DEPTH + 1 \<and> f = full_path p ns \<and>
           disk_lookup (Disk_dir (Some es)) ns = Some (Disk_file m b) \<and> s = stat_text m b))"
proof -
  let ?fl = "file_list SIG_MAX_DEPTH (listed (Some es))"
  let ?files = "map (\<lambda>(ns, s). (full_path p ns, s)) ?fl"
  have "map_get ?files f = Some s \<longleftrightarrow> (f, s) \<in> set ?files" for f s
    by (rule map_of_eq_Some_iff [OF full_files_distinct [OF assms]])
  moreover have "(f, s) \<in> set ?files \<longleftrightarrow> (\<exists>ns. f = full_path p ns \<and> (ns, s) \<in> set ?fl)" for f s by force
  ultimately have "map_get ?files f = Some s \<longleftrightarrow> (\<exists>ns m b. ns \<noteq> [] \<and> length ns \<le> SIG_MAX_DEPTH + 1 \<and> f = full_path p ns \<and>
           disk_lookup (Disk_dir (Some es)) ns = Some (Disk_file m b) \<and> s = stat_text m b)" for f s
    unfolding file_list_lookup [OF assms] by blast
  then show ?thesis unfolding snapshot_entries [OF assms] Let_def by auto
qed

text \<open>A Codex transcript, three directories deep.\<close>

definition codex_day :: "(string \<times> disk_entry) list" where
  "codex_day = [(''2025'', Disk_dir (Some [(''06'', Disk_dir (Some [(''30'', Disk_dir (Some [(''a.jsonl'', Disk_file ''5'' 7)]))]))]))]"

theorem session_snapshot_exact_witness:
  "map_get (the (ps_entries (sessionPathSnapshot id 4096 ''/s'' (Disk_dir (Some codex_day))))) ''/s/2025/06/30/a.jsonl'' =
     Some (stat_text ''5'' 7)"
proof -
  let ?e = "ps_entries (sessionPathSnapshot id 4096 ''/s'' (Disk_dir (Some codex_day)))"
  have "proper_dir SIG_MAX_DEPTH codex_day" by code_simp
  note exact = session_snapshot_exact [OF this, of 4096 "''/s''" id]
  have "\<not> 4096 < length (file_list SIG_MAX_DEPTH (listed (Some codex_day)))" by code_simp
  with exact obtain m where m: "?e = Some m" by (auto split: option.splits)
  from exact have "map_get m (full_path ''/s'' ns) = Some (stat_text k b)"
    if "ns \<noteq> []" "length ns \<le> SIG_MAX_DEPTH + 1" "disk_lookup (Disk_dir (Some codex_day)) ns = Some (Disk_file k b)" for ns k b
    unfolding m option.case using that by blast
  from this [of "[''2025'', ''06'', ''30'', ''a.jsonl'']" "''5''" 7] have
    "map_get m (full_path ''/s'' [''2025'', ''06'', ''30'', ''a.jsonl'']) = Some (stat_text ''5'' 7)"
    by (simp add: SIG_MAX_DEPTH_def codex_day_def)
  moreover have "full_path ''/s'' [''2025'', ''06'', ''30'', ''a.jsonl''] = ''/s/2025/06/30/a.jsonl''" by code_simp
  ultimately show ?thesis unfolding m option.sel by simp
qed

end
