(* ===== verification/SkillWatcher.thy ===== *)
theory SkillWatcher
  imports SkillKey SessionWatcher
begin

text \<open>
  The watcher of the local Skill directories, \<open>packages/cli/src/serve/watcher.ts\<close>: the debounced emitter,
  the handlers of the file system events with their watchers per directory, and the polling fallback.

  Timers, clocks and the file system are inputs, as in \<open>SessionWatcher\<close>. A call the watcher makes of its owner
  is a \<open>skill_call\<close>.
\<close>

datatype skill_call = Skill_changed string | Inventory_changed

definition POLL_INTERVAL_MS :: int where "POLL_INTERVAL_MS = 30000"
definition CHANGE_DEBOUNCE_MS :: int where "CHANGE_DEBOUNCE_MS = 500"

section \<open>The debounced emitter\<close>

record change_emitter =
  ce_pending :: "string list"
  ce_timer :: "int option"
  ce_disposed :: bool

definition createDebouncedSkillChangeEmitter :: change_emitter where
  "createDebouncedSkillChangeEmitter = \<lparr>ce_pending = [], ce_timer = None, ce_disposed = False\<rparr>"

definition emitter_flush :: "change_emitter \<Rightarrow> skill_call list \<times> change_emitter" where
  "emitter_flush e =
     (if ce_disposed e then ([], e) else (map Skill_changed (ce_pending e), e\<lparr>ce_pending := [], ce_timer := None\<rparr>))"

definition emitter_dispose :: "change_emitter \<Rightarrow> change_emitter" where
  "emitter_dispose e = e\<lparr>ce_disposed := True, ce_timer := None, ce_pending := []\<rparr>"

definition emitter_emit :: "int \<Rightarrow> string \<Rightarrow> change_emitter \<Rightarrow> change_emitter" where
  "emitter_emit now skillKey e =
     (if ce_disposed e then e
      else (let e1 = e\<lparr>ce_pending := set_add skillKey (ce_pending e)\<rparr>
            in if ce_timer e \<noteq> None then e1 else e1\<lparr>ce_timer := Some (now + CHANGE_DEBOUNCE_MS)\<rparr>))"

text \<open>The timer runs when it is due or later.\<close>

definition emitter_timer :: "int \<Rightarrow> change_emitter \<Rightarrow> skill_call list \<times> change_emitter" where
  "emitter_timer now e =
     (case ce_timer e of None \<Rightarrow> ([], e) | Some due \<Rightarrow> if now < due then ([], e) else emitter_flush e)"

section \<open>File system events\<close>

text \<open>What attaching a watcher meets: whether the path is a directory, and whether it can be watched recursively.\<close>

record skill_disk =
  sd_isDirectory :: "string \<Rightarrow> bool"
  sd_watchable :: "string \<Rightarrow> bool"

record skill_watch =
  sw_subs :: "string list"
  sw_emitter :: change_emitter

type_synonym key_resolver = "(string \<Rightarrow> string option) option"

definition on_key :: "int \<Rightarrow> string \<Rightarrow> skill_watch \<Rightarrow> skill_watch" where
  "on_key now skillKey w = (if \<not> isValidSkillKey skillKey then w else w\<lparr>sw_emitter := emitter_emit now skillKey (sw_emitter w)\<rparr>)"

text \<open>\<^term>\<open>Inl ()\<close> is the thrown \<open>RecursiveWatchUnsupportedError\<close>.\<close>

definition attachSubWatcher :: "skill_disk \<Rightarrow> string \<Rightarrow> skill_watch \<Rightarrow> unit + skill_watch" where
  "attachSubWatcher disk key w =
     (if key \<in> set (sw_subs w) \<or> \<not> isValidSkillKey key \<or> \<not> sd_isDirectory disk key then Inr w
      else if \<not> sd_watchable disk key then Inl ()
      else Inr (w\<lparr>sw_subs := sw_subs w @ [key]\<rparr>))"

definition emit_resolved :: "int \<Rightarrow> string option \<Rightarrow> skill_watch \<Rightarrow> skill_watch" where
  "emit_resolved now resolved w = (case resolved of None \<Rightarrow> w | Some key \<Rightarrow> if key = [] then w else on_key now key w)"

definition resolve_path :: "key_resolver \<Rightarrow> string \<Rightarrow> string \<Rightarrow> string option" where
  "resolve_path resolver path own = (case resolver of None \<Rightarrow> Some own | Some f \<Rightarrow> f path)"

definition sub_event :: "key_resolver \<Rightarrow> int \<Rightarrow> string \<Rightarrow> string option \<Rightarrow> skill_watch \<Rightarrow> skill_call list \<times> skill_watch" where
  "sub_event resolver now key filename w =
     (let pathFromRoot = (case filename of None \<Rightarrow> key | Some f \<Rightarrow> if f = [] then key else path_join key f)
      in ([Inventory_changed], emit_resolved now (resolve_path resolver pathFromRoot key) w))"

text \<open>An error of a sub-watcher drops it.\<close>

definition sub_error :: "string \<Rightarrow> skill_watch \<Rightarrow> skill_watch" where
  "sub_error key w = w\<lparr>sw_subs := filter (\<lambda>k. k \<noteq> key) (sw_subs w)\<rparr>"

definition root_event :: "key_resolver \<Rightarrow> skill_disk \<Rightarrow> int \<Rightarrow> string option \<Rightarrow> skill_watch \<Rightarrow> skill_call list \<times> skill_watch" where
  "root_event resolver disk now filename w =
     (case filename of
        None \<Rightarrow> ([], w)
      | Some f \<Rightarrow>
          (let topKey = hd (split_on (CHR ''/'') f)
           in if f = [] \<or> topKey = [] \<or> \<not> isValidSkillKey topKey then ([], w)
              else (let w1 = (case attachSubWatcher disk topKey w of Inl _ \<Rightarrow> w | Inr w' \<Rightarrow> w')
                    in ([Inventory_changed], emit_resolved now (resolve_path resolver f topKey) w1))))"

datatype skill_event = Root_event skill_disk "string option" | Sub_event string "string option" | Sub_error string | Debounce_timer | Watch_abort

fun skill_step :: "key_resolver \<Rightarrow> int \<Rightarrow> skill_event \<Rightarrow> skill_watch \<Rightarrow> skill_call list \<times> skill_watch" where
  "skill_step resolver now (Root_event disk filename) w = root_event resolver disk now filename w"
| "skill_step resolver now (Sub_event key filename) w =
     (if key \<in> set (sw_subs w) then sub_event resolver now key filename w else ([], w))"
| "skill_step resolver now (Sub_error key) w = ([], sub_error key w)"
| "skill_step resolver now Debounce_timer w =
     (let (calls, e) = emitter_timer now (sw_emitter w) in (calls, w\<lparr>sw_emitter := e\<rparr>))"
| "skill_step resolver now Watch_abort w = ([], w\<lparr>sw_subs := [], sw_emitter := emitter_dispose (sw_emitter w)\<rparr>)"

fun skill_run :: "key_resolver \<Rightarrow> (int \<times> skill_event) list \<Rightarrow> skill_watch \<Rightarrow> (int \<times> skill_call) list" where
  "skill_run resolver [] w = []"
| "skill_run resolver ((now, e) # es) w =
     (let (calls, w') = skill_step resolver now e w in map (Pair now) calls @ skill_run resolver es w')"

text \<open>The directories found at the start; a root that cannot be listed has none.\<close>

definition listSkillDirs :: "(string \<times> disk_entry) list option \<Rightarrow> string list" where
  "listSkillDirs entries =
     (case entries of
        None \<Rightarrow> []
      | Some es \<Rightarrow> map fst (filter (\<lambda>(name, e). (case e of Disk_dir _ \<Rightarrow> True | _ \<Rightarrow> False) \<and> isValidSkillKey name) es))"

fun attach_all :: "skill_disk \<Rightarrow> string list \<Rightarrow> skill_watch \<Rightarrow> unit + skill_watch" where
  "attach_all disk [] w = Inr w"
| "attach_all disk (key # keys) w = bind_res (attachSubWatcher disk key w) (attach_all disk keys)"

text \<open>\<open>watchEvents\<close> up to where it waits: \<^term>\<open>Inl ()\<close> when recursive watching is not supported; then everything
  opened so far is closed and the owner falls back to polling.\<close>

definition watchEvents :: "skill_disk \<Rightarrow> (string \<times> disk_entry) list option \<Rightarrow> unit + skill_watch" where
  "watchEvents disk entries = attach_all disk (listSkillDirs entries) \<lparr>sw_subs = [], sw_emitter = createDebouncedSkillChangeEmitter\<rparr>"

definition runSkillWatcher_mode :: "bool \<Rightarrow> skill_disk \<Rightarrow> (string \<times> disk_entry) list option \<Rightarrow> watch_mode" where
  "runSkillWatcher_mode forcePoll disk entries =
     (if forcePoll then Poll_mode else (case watchEvents disk entries of Inl _ \<Rightarrow> Poll_mode | Inr _ \<Rightarrow> Fs_events))"

section \<open>Polling\<close>

text \<open>Files and directories below a Skill directory, however deep; what cannot be listed or stated is left out.\<close>

fun signature_parts :: "string \<Rightarrow> (string \<times> disk_entry) list \<Rightarrow> string list" where
  "signature_parts dir [] = []"
| "signature_parts dir ((name, Disk_file mtime bytes) # es) = (path_join dir name @ ''@'' @ stat_text mtime bytes) # signature_parts dir es"
| "signature_parts dir ((name, Disk_dir (Some sub)) # es) = signature_parts (path_join dir name) sub @ signature_parts dir es"
| "signature_parts dir ((name, Disk_dir None) # es) = signature_parts dir es"
| "signature_parts dir ((name, Disk_other mtime bytes) # es) = signature_parts dir es"
| "signature_parts dir ((name, Disk_gone) # es) = signature_parts dir es"

definition dirSignature :: "string \<Rightarrow> disk_entry \<Rightarrow> string" where
  "dirSignature dir e = join_with ''|'' (sort (case e of Disk_dir (Some es) \<Rightarrow> signature_parts dir es | _ \<Rightarrow> []))"

text \<open>The Skill keys come from the adapter, which may fail, or from the root directory.\<close>

definition skill_snapshot :: "string \<Rightarrow> (string + string list) option \<Rightarrow> (string \<times> disk_entry) list option \<Rightarrow> (string \<Rightarrow> disk_entry) \<Rightarrow>
    string + (string, string) js_map" where
  "skill_snapshot rootDir listSkillKeys entries disk =
     bind_res (case listSkillKeys of Some keys \<Rightarrow> keys | None \<Rightarrow> Inr (listSkillDirs entries)) (\<lambda>skills.
       Inr (fold (\<lambda>key out. map_set key (dirSignature (path_join rootDir key) (disk key)) out) (filter isValidSkillKey skills) []))"

definition snapshot_diff :: "(string, string) js_map \<Rightarrow> (string, string) js_map \<Rightarrow> string list" where
  "snapshot_diff prev next = filter (\<lambda>k. map_get prev k \<noteq> map_get next k) (set_of_list (map_keys prev @ map_keys next))"

text \<open>One round: a failed discovery keeps the last baseline.\<close>

definition poll_skills :: "string + (string, string) js_map \<Rightarrow> (string, string) js_map option \<Rightarrow>
    skill_call list \<times> (string, string) js_map option" where
  "poll_skills found prev =
     (case found of
        Inl _ \<Rightarrow> ([], prev)
      | Inr next \<Rightarrow>
          (case prev of
             None \<Rightarrow> ([], Some next)
           | Some p \<Rightarrow>
               (let changed = snapshot_diff p next
                in (map Skill_changed changed @ (if changed \<noteq> [] then [Inventory_changed] else []), Some next))))"

fun pollLoop :: "(string + (string, string) js_map) list \<Rightarrow> (string, string) js_map option \<Rightarrow> skill_call list" where
  "pollLoop [] prev = []"
| "pollLoop (found # rounds) prev = (let (calls, prev') = poll_skills found prev in calls @ pollLoop rounds prev')"

end
