(* ===== verification/SkillWatcherLaws.thy ===== *)
theory SkillWatcherLaws
  imports SkillWatcher
begin

text \<open>
  What the engine hears of local Skills: events are merged but none is lost, names no Skill can have are kept
  out, and polling reports exactly the differences between the snapshots that could be taken.
\<close>

section \<open>Events\<close>

definition watched_from :: "key_resolver \<Rightarrow> skill_watch \<Rightarrow> (int \<times> skill_event) list \<Rightarrow> skill_watch" where
  "watched_from resolver w es = fold (\<lambda>(now, e) w. snd (skill_step resolver now e w)) es w"

lemma skill_run_step [simp]:
  "skill_run resolver ((now, e) # es) w =
     map (Pair now) (fst (skill_step resolver now e w)) @ skill_run resolver es (snd (skill_step resolver now e w))"
  by (simp add: split_beta)

declare skill_run.simps(2) [simp del]

lemma skill_run_append: "skill_run resolver (es @ fs) w = skill_run resolver es w @ skill_run resolver fs (watched_from resolver w es)"
  by (induction es arbitrary: w) (auto simp: watched_from_def)

definition pending_valid :: "skill_watch \<Rightarrow> bool" where
  "pending_valid w \<longleftrightarrow> list_all isValidSkillKey (ce_pending (sw_emitter w))"

lemma pending_valid_emit: "pending_valid w \<Longrightarrow> pending_valid (emit_resolved now k w)"
  by (auto simp: pending_valid_def emit_resolved_def on_key_def emitter_emit_def Let_def list_all_iff split: option.split)

lemma attach_emitter: "attachSubWatcher disk key w = Inr w' \<Longrightarrow> sw_emitter w' = sw_emitter w"
  by (auto simp: attachSubWatcher_def split: if_splits)

lemma step_valid:
  assumes "pending_valid w"
  shows "pending_valid (snd (skill_step resolver now e w)) \<and>
    (\<forall>k. Skill_changed k \<in> set (fst (skill_step resolver now e w)) \<longrightarrow> isValidSkillKey k)"
proof (cases e)
  case (Root_event disk filename)
  have "pending_valid (case attachSubWatcher disk key w of Inl _ \<Rightarrow> w | Inr w' \<Rightarrow> w')" for key
    using assms attach_emitter [of disk key w] by (auto simp: pending_valid_def split: sum.split)
  then show ?thesis using assms pending_valid_emit
    by (auto simp: Root_event root_event_def Let_def split: option.split)
next
  case (Sub_event key filename)
  then show ?thesis using assms pending_valid_emit by (auto simp: sub_event_def Let_def)
next
  case Debounce_timer
  then show ?thesis using assms
    by (auto simp: emitter_timer_def emitter_flush_def pending_valid_def list_all_iff split: option.split)
qed (use assms in \<open>auto simp: sub_error_def pending_valid_def emitter_dispose_def\<close>)

lemma run_valid: "pending_valid w \<Longrightarrow> (t, Skill_changed k) \<in> set (skill_run resolver es w) \<Longrightarrow> isValidSkillKey k"
proof (induction es arbitrary: w)
  case (Cons x es)
  obtain now e where x: "x = (now, e)" by (cases x)
  show ?case using Cons step_valid [OF Cons.prems(1), of resolver now e] by (auto simp: x)
qed simp

definition awaited :: "int \<Rightarrow> string \<Rightarrow> skill_watch \<Rightarrow> bool" where
  "awaited due k w \<longleftrightarrow> \<not> ce_disposed (sw_emitter w) \<and> k \<in> set (ce_pending (sw_emitter w)) \<and>
     (\<exists>d. ce_timer (sw_emitter w) = Some d \<and> d \<le> due)"

lemma awaited_emit: "awaited due k w \<Longrightarrow> awaited due k (emit_resolved now r w)"
  by (auto simp: awaited_def emit_resolved_def on_key_def emitter_emit_def Let_def split: option.split)

lemma step_awaited:
  assumes "awaited due k w" and "e \<noteq> Watch_abort"
  shows "awaited due k (snd (skill_step resolver now e w)) \<or> Skill_changed k \<in> set (fst (skill_step resolver now e w))"
proof (cases e)
  case (Root_event disk filename)
  have "awaited due k (case attachSubWatcher disk key w of Inl _ \<Rightarrow> w | Inr w' \<Rightarrow> w')" for key
    using assms(1) attach_emitter [of disk key w] by (auto simp: awaited_def split: sum.split)
  then show ?thesis using assms(1) awaited_emit
    by (auto simp: Root_event root_event_def Let_def split: option.split)
next
  case (Sub_event key filename)
  then show ?thesis using assms(1) awaited_emit by (auto simp: sub_event_def Let_def)
next
  case Debounce_timer
  then show ?thesis using assms(1)
    by (auto simp: emitter_timer_def emitter_flush_def awaited_def split: option.split)
qed (use assms in \<open>auto simp: sub_error_def awaited_def\<close>)

lemma timer_delivers:
  assumes "awaited due k w" and "due \<le> now"
  shows "Skill_changed k \<in> set (fst (skill_step resolver now Debounce_timer w))"
  using assms by (auto simp: awaited_def emitter_timer_def emitter_flush_def split: prod.split)

lemma awaited_delivered:
  assumes "awaited due k w" and "list_all (\<lambda>x. snd x \<noteq> Watch_abort) es" and "due \<le> now"
  shows "Skill_changed k \<in> snd ` set (skill_run resolver (es @ [(now, Debounce_timer)]) w)"
  using assms(1,2)
proof (induction es arbitrary: w)
  case Nil
  from timer_delivers [OF Nil(1) assms(3), of resolver] show ?case
    by (auto simp del: skill_step.simps simp: image_iff)
next
  case (Cons x es)
  obtain t e where x: "x = (t, e)" by (cases x)
  let ?w = "snd (skill_step resolver t e w)" and ?calls = "fst (skill_step resolver t e w)"
  have "e \<noteq> Watch_abort" "list_all (\<lambda>x. snd x \<noteq> Watch_abort) es" using Cons.prems(2) by (auto simp: x)
  from step_awaited [OF Cons.prems(1) this(1), of resolver t] consider "awaited due k ?w" | "Skill_changed k \<in> set ?calls"
    by auto
  then show ?case
  proof cases
    case 1
    from Cons.IH [OF this \<open>list_all _ es\<close>] show ?thesis by (simp add: x image_Un)
  qed (force simp: x)
qed

lemma emit_awaits:
  assumes "isValidSkillKey k" and "\<not> ce_disposed (sw_emitter w)"
    and "\<forall>d. ce_timer (sw_emitter w) = Some d \<longrightarrow> d \<le> now + CHANGE_DEBOUNCE_MS"
  shows "awaited (now + CHANGE_DEBOUNCE_MS) k (emit_resolved now (Some k) w)"
  using assms valid_key_not_empty [OF assms(1)]
  by (auto simp: emit_resolved_def on_key_def emitter_emit_def Let_def awaited_def)

text \<open>The emitter's timer was armed in the past and, before an abort, nothing is disposed.\<close>

definition timer_sound :: "int \<Rightarrow> skill_watch \<Rightarrow> bool" where
  "timer_sound now w \<longleftrightarrow> \<not> ce_disposed (sw_emitter w) \<and> (\<forall>d. ce_timer (sw_emitter w) = Some d \<longrightarrow> d \<le> now + CHANGE_DEBOUNCE_MS)"

lemma timer_sound_emit: "timer_sound now w \<Longrightarrow> timer_sound now (emit_resolved now r w)"
  by (auto simp: timer_sound_def emit_resolved_def on_key_def emitter_emit_def Let_def split: option.split)

lemma timer_sound_attach: "timer_sound now w \<Longrightarrow> timer_sound now (case attachSubWatcher disk key w of Inl _ \<Rightarrow> w | Inr w' \<Rightarrow> w')"
  using attach_emitter [of disk key w] by (auto simp: timer_sound_def split: sum.split)

lemma step_timer_sound:
  assumes "timer_sound now w" and "e \<noteq> Watch_abort"
  shows "timer_sound now (snd (skill_step resolver now e w))"
proof (cases e)
  case (Root_event disk filename)
  then show ?thesis using assms(1) timer_sound_emit timer_sound_attach
    by (auto simp: root_event_def Let_def split: option.split)
next
  case (Sub_event key filename)
  then show ?thesis using assms(1) timer_sound_emit by (auto simp: sub_event_def Let_def)
next
  case Debounce_timer
  then show ?thesis using assms(1) by (auto simp: emitter_timer_def emitter_flush_def timer_sound_def split: option.split)
qed (use assms in \<open>auto simp: sub_error_def timer_sound_def\<close>)

lemma timer_sound_later: "timer_sound now w \<Longrightarrow> now \<le> later \<Longrightarrow> timer_sound later w"
  by (auto simp: timer_sound_def)

lemma run_timer_sound:
  "timer_sound t0 w \<Longrightarrow> sorted (t0 # map fst es) \<Longrightarrow> list_all (\<lambda>x. snd x \<noteq> Watch_abort) es \<Longrightarrow>
     (\<forall>x\<in>set es. fst x \<le> t) \<Longrightarrow> t0 \<le> t \<Longrightarrow> timer_sound t (watched_from resolver w es)"
proof (induction es arbitrary: w t0)
  case Nil
  then show ?case by (simp add: watched_from_def timer_sound_later)
next
  case (Cons x es)
  obtain now e where x: "x = (now, e)" by (cases x)
  have "timer_sound now w" using Cons.prems(1,2) timer_sound_later by (auto simp: x)
  then have "timer_sound now (snd (skill_step resolver now e w))" using Cons.prems(3) by (intro step_timer_sound) (auto simp: x)
  from Cons.IH [OF this] show ?case using Cons.prems by (simp add: x watched_from_def)
qed

text \<open>The key a file system event is about, if it is reported at all.\<close>

definition names_key :: "key_resolver \<Rightarrow> skill_watch \<Rightarrow> skill_event \<Rightarrow> string \<Rightarrow> bool" where
  "names_key resolver w e k \<longleftrightarrow>
     (case e of
        Root_event disk (Some f) \<Rightarrow>
          (let topKey = hd (split_on (CHR ''/'') f)
           in f \<noteq> [] \<and> topKey \<noteq> [] \<and> isValidSkillKey topKey \<and> resolve_path resolver f topKey = Some k)
      | Sub_event key filename \<Rightarrow>
          key \<in> set (sw_subs w) \<and>
          resolve_path resolver (case filename of None \<Rightarrow> key | Some f \<Rightarrow> if f = [] then key else path_join key f) key = Some k
      | _ \<Rightarrow> False)"

lemma named_awaits:
  assumes "names_key resolver w e k" and "isValidSkillKey k" and "timer_sound now w"
  shows "awaited (now + CHANGE_DEBOUNCE_MS) k (snd (skill_step resolver now e w))"
proof -
  have emits: "awaited (now + CHANGE_DEBOUNCE_MS) k (emit_resolved now (Some k) w')" if "timer_sound now w'" for w'
    using emit_awaits [OF assms(2)] that by (simp add: timer_sound_def)
  show ?thesis
    using assms(1) emits [OF assms(3)] emits [OF timer_sound_attach [OF assms(3)]]
    by (auto simp: names_key_def root_event_def sub_event_def Let_def split: skill_event.splits option.splits)
qed

lemma start_sound: "watchEvents disk entries = Inr w \<Longrightarrow> timer_sound now w \<and> pending_valid w"
proof -
  have "sw_emitter w' = sw_emitter w" if "attach_all disk keys w = Inr w'" for keys w w'
    using that by (induction keys arbitrary: w) (auto simp: bind_res_Inr_iff dest: attach_emitter)
  then show "watchEvents disk entries = Inr w \<Longrightarrow> timer_sound now w \<and> pending_valid w"
    by (fastforce simp: watchEvents_def timer_sound_def pending_valid_def createDebouncedSkillChangeEmitter_def)
qed

text \<open>C36. A change of a Skill reaches the engine: when an event of the file system names a Skill, the engine is
  told of the Skill by the first time the debounce timer runs 500 milliseconds later or after; and what
  the engine is told of always has a name the Cloud accepts.\<close>

theorem skill_changes_reach_engine:
  assumes "watchEvents disk entries = Inr w0" and "sorted (map fst (before @ (now, e) # after @ [(t, Debounce_timer)]))"
    and "list_all (\<lambda>x. snd x \<noteq> Watch_abort) (before @ (now, e) # after)"
    and "names_key resolver (watched_from resolver w0 before) e k" and "isValidSkillKey k" and "now + CHANGE_DEBOUNCE_MS \<le> t"
  shows "Skill_changed k \<in> snd ` set (skill_run resolver ((now, e) # after @ [(t, Debounce_timer)]) (watched_from resolver w0 before)) \<and>
    (\<forall>s key. (s, Skill_changed key) \<in> set (skill_run resolver (before @ (now, e) # after @ [(t, Debounce_timer)]) w0) \<longrightarrow> isValidSkillKey key)"
proof
  let ?w = "watched_from resolver w0 before"
  let ?t0 = "case before of [] \<Rightarrow> now | x # _ \<Rightarrow> fst x"
  have "timer_sound now ?w"
    using run_timer_sound [of ?t0 w0 before now resolver] start_sound [OF assms(1), of ?t0] assms(2,3)
    by (cases before) (auto simp: sorted_append)
  from named_awaits [OF assms(4,5) this] have "awaited (now + CHANGE_DEBOUNCE_MS) k (snd (skill_step resolver now e ?w))" .
  from awaited_delivered [OF this _ assms(6), of after resolver] assms(3)
  show "Skill_changed k \<in> snd ` set (skill_run resolver ((now, e) # after @ [(t, Debounce_timer)]) ?w)"
    by (simp add: image_Un)
  show "\<forall>s key. (s, Skill_changed key) \<in> set (skill_run resolver (before @ (now, e) # after @ [(t, Debounce_timer)]) w0) \<longrightarrow> isValidSkillKey key"
    using run_valid start_sound [OF assms(1)] by blast
qed

text \<open>A Skill is edited twice within half a second.\<close>

definition sample_disk :: skill_disk where
  "sample_disk = \<lparr>sd_isDirectory = (\<lambda>_. True), sd_watchable = (\<lambda>_. True)\<rparr>"

definition sample_watch :: skill_watch where
  "sample_watch = \<lparr>sw_subs = [''notes''], sw_emitter = createDebouncedSkillChangeEmitter\<rparr>"

theorem skill_changes_reach_engine_witness:
  "Skill_changed ''notes'' \<in> snd ` set (skill_run None [(100, Sub_event ''notes'' (Some ''SKILL.md'')), (200, Sub_event ''notes'' None), (600, Debounce_timer)] sample_watch)"
proof -
  have "watchEvents sample_disk (Some [(''notes'', Disk_dir None), (''.git'', Disk_dir None)]) = Inr sample_watch" by code_simp
  moreover have "names_key None (watched_from None sample_watch []) (Sub_event ''notes'' (Some ''SKILL.md'')) ''notes''"
    "isValidSkillKey ''notes''" "100 + CHANGE_DEBOUNCE_MS \<le> 600"
    "sorted (map fst ([] @ (100, Sub_event ''notes'' (Some ''SKILL.md'')) # [(200, Sub_event ''notes'' None)] @ [(600 :: int, Debounce_timer)]))"
    by code_simp+
  moreover have "list_all (\<lambda>x. snd x \<noteq> Watch_abort) ([] @ (100 :: int, Sub_event ''notes'' (Some ''SKILL.md'')) # [(200, Sub_event ''notes'' None)])"
    by simp
  ultimately show ?thesis
    using skill_changes_reach_engine [of sample_disk "Some [(''notes'', Disk_dir None), (''.git'', Disk_dir None)]" sample_watch "[]" 100
        "Sub_event ''notes'' (Some ''SKILL.md'')" "[(200, Sub_event ''notes'' None)]" 600 None "''notes''"]
    by (simp add: watched_from_def)
qed

section \<open>Polling\<close>

text \<open>What is reported from one snapshot to the next.\<close>

fun differences :: "(string, string) js_map list \<Rightarrow> skill_call list" where
  "differences (a # b # ms) =
     map Skill_changed (snapshot_diff a b) @ (if snapshot_diff a b \<noteq> [] then [Inventory_changed] else []) @ differences (b # ms)"
| "differences _ = []"

definition taken :: "('e + 'm) list \<Rightarrow> 'm list" where
  "taken rounds = concat (map (\<lambda>r. case r of Inl _ \<Rightarrow> [] | Inr m \<Rightarrow> [m]) rounds)"

lemma taken_simps [simp]: "taken [] = []" "taken (Inl e # rs) = taken rs" "taken (Inr m # rs) = m # taken rs"
  by (simp_all add: taken_def)

lemma pollLoop_differences: "pollLoop rounds prev = differences ((case prev of None \<Rightarrow> [] | Some m \<Rightarrow> [m]) @ taken rounds)"
proof (induction rounds arbitrary: prev)
  case Nil
  then show ?case by (cases prev) auto
next
  case (Cons r rounds)
  then show ?case by (cases r; cases prev) (auto simp: poll_skills_def Let_def)
qed

lemma count_distinct: "distinct xs \<Longrightarrow> count_list xs x = (if x \<in> set xs then 1 else 0)"
  by (induction xs) auto

lemma snapshot_diff_iff: "k \<in> set (snapshot_diff a b) \<longleftrightarrow> map_get a k \<noteq> map_get b k"
  by (auto simp: snapshot_diff_def map_of_eq_None_iff) (metis map_of_eq_None_iff option.collapse)+

lemma snapshot_valid: "skill_snapshot rootDir listSkillKeys entries disk = Inr m \<Longrightarrow> map_get m k \<noteq> None \<Longrightarrow> isValidSkillKey k"
proof -
  have "map_get (fold (\<lambda>key out. map_set key (f key) out) ks m0) k \<noteq> None \<Longrightarrow> k \<in> set ks \<or> map_get m0 k \<noteq> None"
    for f :: "string \<Rightarrow> string" and ks m0
    by (induction ks arbitrary: m0) (fastforce split: if_splits)+
  then show "skill_snapshot rootDir listSkillKeys entries disk = Inr m \<Longrightarrow> map_get m k \<noteq> None \<Longrightarrow> isValidSkillKey k"
    by (fastforce simp: skill_snapshot_def bind_res_Inr_iff)
qed

text \<open>Polling reports exactly the differences: whatever rounds fail, a Skill is reported, once, for each two
  consecutive snapshots in which it reads differently, and for nothing else; between them the inventory is
  announced as changed when anything differs.\<close>

lemma polling_reports_differences:
  "pollLoop rounds None = differences (taken rounds) \<and>
     (\<forall>a b k. count_list (map Skill_changed (snapshot_diff a b)) (Skill_changed k) = (if map_get a k = map_get b k then 0 else 1))"
proof -
  have "count_list (map Skill_changed (snapshot_diff a b)) (Skill_changed k) = (if map_get a k = map_get b k then 0 else 1)" for a b k
  proof -
    have "distinct (map Skill_changed (snapshot_diff a b))" by (simp add: snapshot_diff_def distinct_map inj_on_def)
    then have "count_list (map Skill_changed (snapshot_diff a b)) (Skill_changed k) =
        (if Skill_changed k \<in> set (map Skill_changed (snapshot_diff a b)) then 1 else 0)"
      by (rule count_distinct)
    moreover have "Skill_changed k \<in> set (map Skill_changed (snapshot_diff a b)) \<longleftrightarrow> map_get a k \<noteq> map_get b k"
      using snapshot_diff_iff [of k a b] by auto
    ultimately show ?thesis by simp
  qed
  then show ?thesis by (simp add: pollLoop_differences)
qed

end
