(* ===== verification/VaultFiles.thy ===== *)
theory VaultFiles
  imports SessionUpload
begin

text \<open>
  The Vault files of an Agent, \<open>packages/cli/src/runtime/vault-files.ts\<close>: the directory \<open>.clawdi/vaults\<close> of a
  workspace, the private receipt that says which of its files were generated, and the operations that bring
  the directory in line with what the Cloud grants.

  The world is that directory and the receipt. Every call that reaches the disk or the network takes one unit
  of \<open>vw_budget\<close> and fails when none is left, so a state in which an operation fails is one an interruption
  at that point leaves. Writing a file is atomic: the temporary file of \<open>atomicFile\<close> has a name no generated
  file has and is not kept here. What the checks of owner, mode and symbolic links along the path find is an
  input, and so are the answers of git and of the Cloud and the registration checks of the caller.
\<close>

section \<open>Data\<close>

record vault_field =
  vf_id :: string
  vf_section :: string
  vf_name :: string
  vf_references :: "string list"
  vf_value :: string

text \<open>\<open>vt_fields\<close> is \<^term>\<open>None\<close> for a Vault whose values the caller already has.\<close>

record vault =
  vt_id :: string
  vt_name :: string
  vt_slug :: string
  vt_project_ids :: "string list"
  vt_revision :: string
  vt_content_version :: int
  vt_fields :: "vault_field list option"

record vault_snapshot =
  sn_agent_id :: string
  sn_user_id :: string
  sn_vaults :: "vault list"

record index_field =
  if_id :: string
  if_name :: string
  if_references :: "string list"
  if_env_name :: "string option"

record index_section =
  is_id :: string
  is_name :: string
  is_file :: string
  is_fields :: "index_field list"

record index_vault =
  iv_id :: string
  iv_name :: string
  iv_slug :: string
  iv_project_ids :: "string list"
  iv_revision :: string
  iv_content_version :: "int option"
  iv_sections :: "index_section list"

record vault_receipt =
  vr_userId :: "string option"
  vr_machineId :: "string option"
  vr_nativeAgentId :: "string option"
  vr_digests :: "(string, string) js_map"
  vr_apiUrl :: string
  vr_agentId :: string
  vr_workspace :: string
  vr_inode :: int
  vr_files :: "string list"
  vr_inventory :: "index_vault list"
  vr_etag :: "string option"

text \<open>The directory entries: a regular file of the user with mode 600 and one link, or anything else.\<close>

datatype vault_entry = Plain string | Odd

record vault_dir =
  vd_inode :: int
  vd_private :: bool
  vd_entries :: "(string, vault_entry) js_map"

datatype receipt_file = No_receipt | Bad_receipt | Receipt vault_receipt

record vault_world =
  vw_dir :: "vault_dir option"
  vw_receipt :: receipt_file
  vw_budget :: nat
  vw_checks :: nat

record git_answers =
  git_top_status :: int
  git_top_stderr :: string
  git_ls_status :: int
  git_ls_stdout :: string

record connected_agent =
  ca_userId :: string
  ca_machineId :: string
  ca_nativeAgentId :: "string option"

text \<open>\<open>vc_current\<close> answers the registration checks one by one; \<open>vc_trusted\<close> is what the checks of the
  directories above find, \<open>vc_inside\<close> whether the workspace is below the home directory, \<open>vc_inode\<close> the inode
  a new directory gets.\<close>

record vault_config =
  vc_apiUrl :: string
  vc_apiKey :: string
  vc_agentId :: string
  vc_workspace :: string
  vc_connected :: "connected_agent option"
  vc_sha256 :: "string \<Rightarrow> string"
  vc_git :: git_answers
  vc_trusted :: bool
  vc_inside :: bool
  vc_inode :: int
  vc_supported :: bool
  vc_current :: "nat \<Rightarrow> bool"

section \<open>Operations that may fail\<close>

type_synonym 'a vault_op = "vault_world \<Rightarrow> 'a option \<times> vault_world"

definition vret :: "'a \<Rightarrow> 'a vault_op" where "vret x w = (Some x, w)"
definition vfail :: "'a vault_op" where "vfail w = (None, w)"

definition vbind :: "'a vault_op \<Rightarrow> ('a \<Rightarrow> 'b vault_op) \<Rightarrow> 'b vault_op" where
  "vbind p f w = (case p w of (None, w') \<Rightarrow> (None, w') | (Some x, w') \<Rightarrow> f x w')"

definition vthen :: "'a vault_op \<Rightarrow> 'b vault_op \<Rightarrow> 'b vault_op" where
  "vthen p q = vbind p (\<lambda>_. q)"

definition vgets :: "(vault_world \<Rightarrow> 'a) \<Rightarrow> 'a vault_op" where "vgets f w = (Some (f w), w)"
definition vmodify :: "(vault_world \<Rightarrow> vault_world) \<Rightarrow> unit vault_op" where "vmodify f w = (Some (), f w)"

definition vguard :: "bool \<Rightarrow> unit vault_op" where
  "vguard ok = (if ok then vret () else vfail)"

fun veach :: "('a \<Rightarrow> unit vault_op) \<Rightarrow> 'a list \<Rightarrow> unit vault_op" where
  "veach f [] = vret ()"
| "veach f (x # xs) = vthen (f x) (veach f xs)"

text \<open>One call of the disk or the network.\<close>

definition vcall :: "unit vault_op" where
  "vcall w = (case vw_budget w of 0 \<Rightarrow> (None, w) | Suc n \<Rightarrow> (Some (), w\<lparr>vw_budget := n\<rparr>))"

lemmas vault_op_defs = vret_def vfail_def vbind_def vthen_def vgets_def vmodify_def vguard_def vcall_def

section \<open>Files\<close>

definition dir_entries :: "vault_world \<Rightarrow> (string, vault_entry) js_map" where
  "dir_entries w = (case vw_dir w of None \<Rightarrow> [] | Some d \<Rightarrow> vd_entries d)"

definition set_entries :: "((string, vault_entry) js_map \<Rightarrow> (string, vault_entry) js_map) \<Rightarrow> unit vault_op" where
  "set_entries f = vmodify (\<lambda>w. w\<lparr>vw_dir := map_option (\<lambda>d. d\<lparr>vd_entries := f (vd_entries d)\<rparr>) (vw_dir w)\<rparr>)"

definition verifyFile :: "string \<Rightarrow> bool vault_op" where
  "verifyFile name =
     vthen vcall (vbind (vgets dir_entries) (\<lambda>es.
       case map_get es name of None \<Rightarrow> vret False | Some (Plain _) \<Rightarrow> vret True | Some Odd \<Rightarrow> vfail))"

definition MAX_FILE_BYTES :: nat where "MAX_FILE_BYTES = 16 * 1024 * 1024"

definition fileDigest :: "vault_config \<Rightarrow> string \<Rightarrow> string option vault_op" where
  "fileDigest config name =
     vthen vcall (vbind (vgets dir_entries) (\<lambda>es.
       case map_get es name of
         None \<Rightarrow> vret None
       | Some (Plain content) \<Rightarrow> vthen (vguard (length (utf8 content) \<le> MAX_FILE_BYTES)) (vret (Some (vc_sha256 config content)))
       | Some Odd \<Rightarrow> vfail))"

definition atomicFile :: "string \<Rightarrow> string \<Rightarrow> unit vault_op" where
  "atomicFile name content =
     vbind (verifyFile name) (\<lambda>_. vbind (vgets dir_entries) (\<lambda>es.
       if map_get es name = Some (Plain content) then vret ()
       else vthen vcall (set_entries (map_set name (Plain content)))))"

definition unlink_if_there :: "string \<Rightarrow> unit vault_op" where
  "unlink_if_there name =
     vbind (verifyFile name) (\<lambda>there. if there then vthen vcall (set_entries (map_delete name)) else vret ())"

definition saveReceipt :: "vault_receipt \<Rightarrow> unit vault_op" where
  "saveReceipt receipt = vthen vcall (vmodify (\<lambda>w. w\<lparr>vw_receipt := Receipt receipt\<rparr>))"

definition readReceiptFile :: "vault_receipt option vault_op" where
  "readReceiptFile =
     vthen vcall (vbind (vgets vw_receipt) (\<lambda>r.
       case r of No_receipt \<Rightarrow> vret None | Bad_receipt \<Rightarrow> vfail | Receipt x \<Rightarrow> vret (Some x)))"

definition receipt_matches :: "vault_config \<Rightarrow> vault_receipt \<Rightarrow> bool" where
  "receipt_matches config receipt \<longleftrightarrow>
     vr_apiUrl receipt = vc_apiUrl config \<and> vr_agentId receipt = vc_agentId config \<and> vr_workspace receipt = vc_workspace config \<and>
     vr_userId receipt = map_option ca_userId (vc_connected config) \<and>
     vr_machineId receipt = map_option ca_machineId (vc_connected config) \<and>
     vr_nativeAgentId receipt = Option.bind (vc_connected config) ca_nativeAgentId"

definition readReceipt :: "vault_config \<Rightarrow> vault_receipt option vault_op" where
  "readReceipt config =
     vbind readReceiptFile (\<lambda>r. case r of None \<Rightarrow> vret None
       | Some receipt \<Rightarrow> vthen (vguard (receipt_matches config receipt)) (vret (Some receipt)))"

text \<open>The directory is opened for an operation only as the private one the receipt is about.\<close>

definition withDirectory :: "vault_config \<Rightarrow> vault_receipt \<Rightarrow> 'a vault_op \<Rightarrow> 'a vault_op" where
  "withDirectory config receipt operation =
     vthen vcall (vbind (vgets vw_dir) (\<lambda>dir.
       case dir of
         None \<Rightarrow> vfail
       | Some d \<Rightarrow> vthen (vguard (vc_trusted config \<and> vd_inode d = vr_inode receipt \<and> vd_private d)) operation))"

fun contains :: "string \<Rightarrow> string \<Rightarrow> bool" where
  "contains pat [] \<longleftrightarrow> pat = []"
| "contains pat (c # s) \<longleftrightarrow> take (length pat) (c # s) = pat \<or> contains pat s"

text \<open>What \<open>trim\<close> takes away.\<close>

definition trim_blank :: "char \<Rightarrow> bool" where
  "trim_blank c \<longleftrightarrow> of_char c \<in> {9 .. 13 :: nat} \<or> of_char c \<in> {32, 160 :: nat}"

definition checkTracked :: "vault_config \<Rightarrow> unit vault_op" where
  "checkTracked config =
     vthen vcall (let git = vc_git config in
       if git_top_status git = 0
       then vguard (git_ls_status git = 0 \<and> list_all trim_blank (git_ls_stdout git))
       else vguard (contains ''not a git repository'' (git_top_stderr git)))"

definition empty_receipt :: "vault_config \<Rightarrow> vault_receipt" where
  "empty_receipt config =
     \<lparr>vr_userId = map_option ca_userId (vc_connected config), vr_machineId = map_option ca_machineId (vc_connected config),
      vr_nativeAgentId = Option.bind (vc_connected config) ca_nativeAgentId, vr_digests = [], vr_apiUrl = vc_apiUrl config,
      vr_agentId = vc_agentId config, vr_workspace = vc_workspace config, vr_inode = vc_inode config, vr_files = [],
      vr_inventory = [], vr_etag = None\<rparr>"

text \<open>A directory that is already there is not adopted: \<open>mkdir\<close> fails.\<close>

definition make_directory :: "vault_config \<Rightarrow> unit vault_op" where
  "make_directory config =
     vthen vcall (vbind (vgets vw_dir) (\<lambda>dir.
       if dir \<noteq> None then vfail
       else vmodify (\<lambda>w. w\<lparr>vw_dir := Some \<lparr>vd_inode = vc_inode config, vd_private = True, vd_entries = []\<rparr>\<rparr>)))"

definition initialize :: "vault_config \<Rightarrow> vault_receipt vault_op" where
  "initialize config =
     vthen (vguard (vc_connected config \<noteq> None \<or> vc_inside config))
     (vthen (checkTracked config)
     (vthen (vguard (vc_trusted config))
     (vthen (make_directory config)
     (vthen (saveReceipt (empty_receipt config)) (vret (empty_receipt config))))))"

section \<open>Taking files back\<close>

definition forgotten_receipt :: "vault_receipt \<Rightarrow> vault_receipt" where
  "forgotten_receipt receipt = receipt\<lparr>vr_files := [], vr_inventory := [], vr_digests := [], vr_etag := None\<rparr>"

definition revoke :: "vault_config \<Rightarrow> vault_receipt option \<Rightarrow> unit vault_op" where
  "revoke config receipt =
     (case receipt of
        None \<Rightarrow> vret ()
      | Some r \<Rightarrow>
          vthen (checkTracked config)
          (vthen (withDirectory config r (vthen (veach unlink_if_there (vr_files r)) vcall))
          (saveReceipt (forgotten_receipt r))))"

section \<open>The generated files\<close>

definition GITIGNORE :: string where "GITIGNORE = ''.gitignore''"
definition INDEX_JSON :: string where "INDEX_JSON = ''index.json''"

text \<open>\<open>JSON.stringify(value, null, 2)\<close>.\<close>

definition spaces :: "nat \<Rightarrow> string" where "spaces n = replicate n (CHR '' '')"

fun pretty :: "nat \<Rightarrow> json \<Rightarrow> string" where
  "pretty k (JArr vs) =
     (if vs = [] then ''[]''
      else ''['' @ [newline] @ spaces (k + 2) @ join_with ('','' @ [newline] @ spaces (k + 2)) (map (pretty (k + 2)) vs) @
        [newline] @ spaces k @ '']'')"
| "pretty k (JObj fs) =
     (if fs = [] then ''{}''
      else ''{'' @ [newline] @ spaces (k + 2) @
        join_with ('','' @ [newline] @ spaces (k + 2)) (map (\<lambda>(key, v). json_string key @ '': '' @ pretty (k + 2) v) fs) @
        [newline] @ spaces k @ ''}'')"
| "pretty k v = stringify v"

definition json_strings :: "string list \<Rightarrow> json" where
  "json_strings xs = JArr (map JStr xs)"

definition index_field_json :: "index_field \<Rightarrow> json" where
  "index_field_json f =
     JObj [(''id'', JStr (if_id f)), (''name'', JStr (if_name f)), (''references'', json_strings (if_references f)),
       (''env_name'', case if_env_name f of None \<Rightarrow> JNull | Some e \<Rightarrow> JStr e)]"

definition index_section_json :: "index_section \<Rightarrow> json" where
  "index_section_json s =
     JObj [(''id'', JStr (is_id s)), (''name'', JStr (is_name s)), (''file'', JStr (is_file s)),
       (''fields'', JArr (map index_field_json (is_fields s)))]"

definition index_vault_json :: "index_vault \<Rightarrow> json" where
  "index_vault_json v =
     JObj ([(''id'', JStr (iv_id v)), (''name'', JStr (iv_name v)), (''slug'', JStr (iv_slug v)),
       (''project_ids'', json_strings (iv_project_ids v)), (''revision'', JStr (iv_revision v))] @
       (case iv_content_version v of None \<Rightarrow> [] | Some n \<Rightarrow> [(''content_version'', JNum n)]) @
       [(''sections'', JArr (map index_section_json (iv_sections v)))])"

definition index_content :: "string \<Rightarrow> string \<Rightarrow> index_vault list \<Rightarrow> string" where
  "index_content agentId userId inventory =
     pretty 0 (JObj [(''version'', JNum 1), (''agent_id'', JStr agentId), (''user_id'', JStr userId),
       (''vaults'', JArr (map index_vault_json inventory))]) @ [newline]"

definition uuid_of_file :: "string \<Rightarrow> string" where
  "uuid_of_file name = take 36 name"

definition prunable :: "string list \<Rightarrow> string \<Rightarrow> bool" where
  "prunable allowed name \<longleftrightarrow> name \<noteq> INDEX_JSON \<and> name \<noteq> GITIGNORE \<and> uuid_of_file name \<notin> set allowed"

definition pruneRevoked :: "vault_config \<Rightarrow> vault_receipt option \<Rightarrow> vault_snapshot \<Rightarrow> vault_receipt option vault_op" where
  "pruneRevoked config receipt metadata =
     (case receipt of
        None \<Rightarrow> vret None
      | Some r \<Rightarrow>
          (let allowed = map vt_id (sn_vaults metadata);
               removed = filter (prunable allowed) (vr_files r);
               inventory = filter (\<lambda>v. iv_id v \<in> set allowed) (vr_inventory r);
               next = r\<lparr>vr_inventory := inventory, vr_files := filter (\<lambda>n. n \<notin> set removed) (vr_files r), vr_etag := None\<rparr>
           in vthen (vguard (distinct allowed))
             (if removed = [] then vret (Some r)
              else vthen (checkTracked config)
                (vthen (withDirectory config r
                   (vthen (veach unlink_if_there removed)
                   (vthen (atomicFile INDEX_JSON (index_content (sn_agent_id metadata) (sn_user_id metadata) inventory)) vcall)))
                (vthen (saveReceipt next) (vret (Some next)))))))"

definition name_start :: "char \<Rightarrow> bool" where
  "name_start c \<longleftrightarrow> of_char c \<in> {65 .. 90 :: nat} \<or> of_char c = (95 :: nat) \<or> of_char c \<in> {97 .. 122 :: nat}"

text \<open>\<open>/^[A-Za-z_][A-Za-z0-9_]*$/\<close>.\<close>

definition env_name :: "string \<Rightarrow> string option" where
  "env_name name =
     (case name of
        [] \<Rightarrow> None
      | c # cs \<Rightarrow> if name_start c \<and> list_all (\<lambda>c. name_start c \<or> of_char c \<in> {48 .. 57 :: nat}) cs then Some name else None)"

definition index_field_of :: "vault_field \<Rightarrow> index_field" where
  "index_field_of f = \<lparr>if_id = vf_id f, if_name = vf_name f, if_references = vf_references f, if_env_name = env_name (vf_name f)\<rparr>"

definition section_names :: "vault_field list \<Rightarrow> string list" where
  "section_names fds = set_of_list (map vf_section fds)"

definition section_fields :: "vault_field list \<Rightarrow> string \<Rightarrow> vault_field list" where
  "section_fields fds section = filter (\<lambda>f. vf_section f = section) fds"

definition section_file :: "vault_config \<Rightarrow> vault \<Rightarrow> string \<Rightarrow> string" where
  "section_file config v section = vt_id v @ ''-'' @ vc_sha256 config section @ ''.json''"

text \<open>The fields in their order; a name that reads as an array index, which JavaScript would list first, is not moved.\<close>

definition section_content :: "vault_field list \<Rightarrow> string" where
  "section_content fds = stringify (JObj (map (\<lambda>f. (vf_name f, JStr (vf_value f))) fds)) @ [newline]"

definition index_section_of :: "vault_config \<Rightarrow> vault \<Rightarrow> vault_field list \<Rightarrow> string \<Rightarrow> index_section" where
  "index_section_of config v fds section =
     \<lparr>is_id = vc_sha256 config section, is_name = section, is_file = section_file config v section,
      is_fields = map index_field_of (section_fields fds section)\<rparr>"

text \<open>One Vault: its index entry and the files of its sections, \<^term>\<open>None\<close> when the snapshot is refused.\<close>

definition render_vault :: "vault_config \<Rightarrow> vault_receipt option \<Rightarrow> vault \<Rightarrow> (index_vault \<times> (string \<times> string) list) option" where
  "render_vault config previous v =
     (case vt_fields v of
        None \<Rightarrow>
          (case find (\<lambda>e. iv_id e = vt_id v \<and> iv_revision e = vt_revision v) (case previous of None \<Rightarrow> [] | Some r \<Rightarrow> vr_inventory r) of
             None \<Rightarrow> None
           | Some old \<Rightarrow> Some (old\<lparr>iv_content_version := Some (vt_content_version v)\<rparr>, []))
      | Some fds \<Rightarrow>
          if \<not> list_all (\<lambda>s. distinct (map vf_name (section_fields fds s))) (section_names fds) then None
          else Some (\<lparr>iv_id = vt_id v, iv_name = vt_name v, iv_slug = vt_slug v, iv_project_ids = vt_project_ids v,
                      iv_revision = vt_revision v, iv_content_version = Some (vt_content_version v),
                      iv_sections = map (index_section_of config v fds) (section_names fds)\<rparr>,
                     map (\<lambda>s. (section_file config v s, section_content (section_fields fds s))) (section_names fds)))"

fun render_vaults :: "vault_config \<Rightarrow> vault_receipt option \<Rightarrow> vault list \<Rightarrow> (index_vault list \<times> (string \<times> string) list) option" where
  "render_vaults config previous [] = Some ([], [])"
| "render_vaults config previous (v # vs) =
     (case render_vault config previous v of
        None \<Rightarrow> None
      | Some (entry, files) \<Rightarrow>
          (case render_vaults config previous vs of
             None \<Rightarrow> None
           | Some (entries, others) \<Rightarrow> Some (entry # entries, files @ others)))"

definition index_files :: "index_vault list \<Rightarrow> string list" where
  "index_files inventory = concat (map (\<lambda>v. map is_file (iv_sections v)) inventory)"

record rendered =
  rn_files :: "(string, string) js_map"
  rn_inventory :: "index_vault list"
  rn_names :: "string list"

definition render_snapshot :: "vault_config \<Rightarrow> vault_snapshot \<Rightarrow> vault_receipt option \<Rightarrow> rendered option" where
  "render_snapshot config snapshot previous =
     (if \<not> distinct (map vt_id (sn_vaults snapshot)) then None
      else (case render_vaults config previous (sn_vaults snapshot) of
          None \<Rightarrow> None
        | Some (inventory, files) \<Rightarrow>
            if sum_list (map (\<lambda>v. sum_list (map (\<lambda>s. length (is_fields s)) (iv_sections v))) inventory) > 10000 \<or>
               length (utf8 (stringify (JArr (map index_vault_json inventory)))) > 8 * 1024 * 1024 then None
            else Some \<lparr>rn_files = map_set INDEX_JSON (index_content (sn_agent_id snapshot) (sn_user_id snapshot) inventory)
                        (fold (\<lambda>(name, content). map_set name content) files [(GITIGNORE, ''*'' @ [newline])]),
                      rn_inventory = inventory, rn_names = [GITIGNORE, INDEX_JSON] @ index_files inventory\<rparr>))"

section \<open>Synchronization\<close>

text \<open>A response: \<open>rp_body\<close> is the snapshot its body parses to, if it does and is not too long.\<close>

record vault_reply =
  rp_status :: int
  rp_etag :: "string option"
  rp_body :: "vault_snapshot option"

datatype sync_result = Unchanged | Synced | Revoked | Deferred

text \<open>The Cloud: the listing for an entity tag, the material for the entity tag of the listing and the
  revisions already here; \<^term>\<open>None\<close> when the request fails.\<close>

record vault_cloud =
  vq_metadata :: "string option \<Rightarrow> vault_reply option"
  vq_material :: "string \<Rightarrow> (string \<times> string) list \<Rightarrow> vault_reply option"

definition assertCurrent :: "vault_config \<Rightarrow> unit vault_op" where
  "assertCurrent config =
     (if vc_connected config = None then vret ()
      else vbind (vgets vw_checks) (\<lambda>n. vthen (vmodify (\<lambda>w. w\<lparr>vw_checks := n + 1\<rparr>)) (vguard (vc_current config n))))"

definition ask :: "vault_reply option \<Rightarrow> vault_reply vault_op" where
  "ask reply = vthen vcall (case reply of None \<Rightarrow> vfail | Some r \<Rightarrow> vret r)"

fun all_intact :: "vault_config \<Rightarrow> vault_receipt \<Rightarrow> string list \<Rightarrow> bool vault_op" where
  "all_intact config r [] = vret True"
| "all_intact config r (n # ns) =
     vbind (fileDigest config n) (\<lambda>d. if d = map_get (vr_digests r) n \<and> d \<noteq> None then all_intact config r ns else vret False)"

definition check_intact :: "vault_config \<Rightarrow> vault_receipt option \<Rightarrow> bool vault_op" where
  "check_intact config receipt =
     (case receipt of None \<Rightarrow> vret False | Some r \<Rightarrow> withDirectory config r (all_intact config r (vr_files r)))"

definition usable_etag :: "bool \<Rightarrow> vault_receipt option \<Rightarrow> string option" where
  "usable_etag intact receipt =
     (case receipt of None \<Rightarrow> None
      | Some r \<Rightarrow> if intact \<and> list_all (\<lambda>v. iv_content_version v \<noteq> None) (vr_inventory r) then vr_etag r else None)"

definition refuse_new :: "vault_receipt \<Rightarrow> string \<Rightarrow> unit vault_op" where
  "refuse_new r name = (if name \<in> set (vr_files r) then vret () else vbind (verifyFile name) (\<lambda>there. vguard (\<not> there)))"

definition drop_old :: "string list \<Rightarrow> string \<Rightarrow> unit vault_op" where
  "drop_old names name = (if name \<in> set names then vret () else unlink_if_there name)"

definition new_digests :: "vault_config \<Rightarrow> vault_receipt \<Rightarrow> rendered \<Rightarrow> (string, string) js_map" where
  "new_digests config r out =
     fold (\<lambda>n m. case (case map_get (rn_files out) n of Some content \<Rightarrow> Some (vc_sha256 config content) | None \<Rightarrow> map_get (vr_digests r) n) of
         None \<Rightarrow> m | Some d \<Rightarrow> map_set n d m) (rn_names out) []"

text \<open>The names are reserved in the receipt before anything is written under them.\<close>

definition write_files :: "vault_config \<Rightarrow> vault_receipt \<Rightarrow> rendered \<Rightarrow> string \<Rightarrow> unit vault_op" where
  "write_files config receipt out etag =
     (let reserved = receipt\<lparr>vr_files := set_of_list (vr_files receipt @ rn_names out), vr_etag := None\<rparr>
      in vthen (withDirectory config receipt (veach (refuse_new receipt) (map_keys (rn_files out))))
        (vthen (saveReceipt reserved)
        (vthen (withDirectory config reserved
           (vthen (veach (\<lambda>n. vbind (verifyFile n) (\<lambda>_. vret ())) (vr_files reserved))
           (vthen (veach (\<lambda>(n, c). atomicFile n c) (rn_files out))
           (vthen (veach (drop_old (rn_names out)) (vr_files reserved)) vcall))))
        (saveReceipt (receipt\<lparr>vr_files := rn_names out, vr_digests := new_digests config receipt out,
           vr_inventory := rn_inventory out, vr_etag := Some etag\<rparr>)))))"

definition accept_material :: "vault_config \<Rightarrow> bool \<Rightarrow> vault_receipt option \<Rightarrow> vault_snapshot \<Rightarrow> string \<Rightarrow> vault_reply \<Rightarrow> sync_result vault_op" where
  "accept_material config intact receipt metadata etag material =
     (case rp_body material of
        None \<Rightarrow> vfail
      | Some snapshot \<Rightarrow>
          vthen (vguard (sn_agent_id snapshot = vc_agentId config \<and> sn_user_id snapshot = sn_user_id metadata \<and> rp_etag material = Some etag))
          (vthen (assertCurrent config)
            (case render_snapshot config snapshot (if intact then receipt else None) of
               None \<Rightarrow> vfail
             | Some out \<Rightarrow>
                 vbind (case receipt of Some r \<Rightarrow> vthen (checkTracked config) (vret r) | None \<Rightarrow> initialize config) (\<lambda>r.
                   vthen (write_files config r out etag) (vret Synced)))))"

definition ok_status :: "int \<Rightarrow> bool" where "ok_status s \<longleftrightarrow> 200 \<le> s \<and> s \<le> 299"

definition fetch_material :: "vault_config \<Rightarrow> vault_cloud \<Rightarrow> bool \<Rightarrow> vault_receipt option \<Rightarrow> vault_snapshot \<Rightarrow> string \<Rightarrow> sync_result vault_op" where
  "fetch_material config cloud intact receipt metadata etag =
     vbind (ask (vq_material cloud etag
         (case receipt of Some r \<Rightarrow> if intact then map (\<lambda>v. (iv_id v, iv_revision v)) (vr_inventory r) else [] | None \<Rightarrow> []))) (\<lambda>material.
       vthen (assertCurrent config)
         (if rp_status material \<in> {401, 403} then vthen (revoke config receipt) (vret Revoked)
          else if rp_status material = 409 then vret Deferred
          else if \<not> ok_status (rp_status material) then vfail
          else accept_material config intact receipt metadata etag material))"

definition syncVaultSnapshot :: "vault_config \<Rightarrow> vault_cloud \<Rightarrow> sync_result vault_op" where
  "syncVaultSnapshot config cloud =
     vthen (assertCurrent config)
     (vthen (vguard (vc_connected config \<noteq> None \<or> vc_apiKey config \<noteq> []))
     (vbind (readReceipt config) (\<lambda>receipt.
      vbind (check_intact config receipt) (\<lambda>intact.
      let etag = usable_etag intact receipt in
      vbind (ask (vq_metadata cloud etag)) (\<lambda>response.
      vthen (assertCurrent config)
        (if rp_status response = 304 then (if or_else etag [] = [] then vfail else vret Unchanged)
         else if rp_status response \<in> {401, 403} then vthen (revoke config receipt) (vret Revoked)
         else if \<not> ok_status (rp_status response) then vfail
         else (case (rp_etag response, rp_body response) of
             (Some tag, Some metadata) \<Rightarrow>
               vthen (assertCurrent config)
               (vthen (vguard (sn_agent_id metadata = vc_agentId config \<and>
                   (case vc_connected config of None \<Rightarrow> True | Some c \<Rightarrow> sn_user_id metadata = ca_userId c)))
               (vbind (pruneRevoked config receipt metadata) (\<lambda>receipt1.
                  fetch_material config cloud intact receipt1 metadata tag)))
           | _ \<Rightarrow> vfail)))))))"

section \<open>Clearing\<close>

record vault_binding =
  vb_userId :: string
  vb_machineId :: string
  vb_nativeAgentId :: "string option"
  vb_agentId :: string
  vb_workspace :: string
  vb_apiUrl :: string

definition binding_matches :: "vault_binding option \<Rightarrow> vault_receipt \<Rightarrow> bool" where
  "binding_matches expected r =
     (case expected of
        None \<Rightarrow> False
      | Some b \<Rightarrow> vr_userId r = Some (vb_userId b) \<and> vr_machineId r = Some (vb_machineId b) \<and> vr_agentId r = vb_agentId b \<and>
          vr_workspace r = vb_workspace b \<and> vr_apiUrl r = vb_apiUrl b \<and> vr_nativeAgentId r = vb_nativeAgentId b)"

text \<open>The configuration of the receipt's own binding.\<close>

definition config_of :: "vault_config \<Rightarrow> vault_receipt \<Rightarrow> vault_config" where
  "config_of config r =
     config\<lparr>vc_apiUrl := vr_apiUrl r, vc_agentId := vr_agentId r, vc_workspace := vr_workspace r,
       vc_connected := Some \<lparr>ca_userId = or_else (vr_userId r) [], ca_machineId = or_else (vr_machineId r) [],
         ca_nativeAgentId = vr_nativeAgentId r\<rparr>\<rparr>"

definition rebind_receipt :: "vault_binding \<Rightarrow> vault_receipt \<Rightarrow> vault_receipt" where
  "rebind_receipt b r =
     (forgotten_receipt r)\<lparr>vr_userId := Some (vb_userId b), vr_machineId := Some (vb_machineId b), vr_nativeAgentId := vb_nativeAgentId b,
       vr_agentId := vb_agentId b, vr_workspace := vb_workspace b, vr_apiUrl := vb_apiUrl b\<rparr>"

definition clear_rebind :: "vault_binding option \<Rightarrow> bool \<Rightarrow> vault_receipt \<Rightarrow> unit vault_op" where
  "clear_rebind expected clearMatching r =
     (case expected of
        None \<Rightarrow> vret ()
      | Some b \<Rightarrow>
          if clearMatching then vret ()
          else if vr_workspace r = vb_workspace b then saveReceipt (rebind_receipt b r)
          else vthen vcall (vmodify (\<lambda>w. w\<lparr>vw_receipt := No_receipt\<rparr>)))"

definition clearConnectedVaultFilesLocked :: "vault_config \<Rightarrow> vault_binding option \<Rightarrow> bool \<Rightarrow> unit vault_op" where
  "clearConnectedVaultFilesLocked config expected clearMatching =
     vbind readReceiptFile (\<lambda>receipt.
       case receipt of
         None \<Rightarrow> vret ()
       | Some r \<Rightarrow>
           vthen (vguard (or_else (vr_userId r) [] \<noteq> [] \<and> or_else (vr_machineId r) [] \<noteq> []))
             (if (if clearMatching then \<not> binding_matches expected r else binding_matches expected r) then vret ()
              else vthen (revoke (config_of config r) (Some r)) (clear_rebind expected clearMatching r)))"

text \<open>\<open>lock\<close> is whether the writer's lock was free.\<close>

definition clearConnectedVaultFiles :: "vault_config \<Rightarrow> bool \<Rightarrow> vault_binding option \<Rightarrow> bool \<Rightarrow> unit vault_op" where
  "clearConnectedVaultFiles config lock expected clearMatching =
     vthen (vguard (vc_supported config))
       (vbind (vgets vw_receipt) (\<lambda>r.
          if r = No_receipt then vret ()
          else vthen (vguard lock) (clearConnectedVaultFilesLocked config expected clearMatching)))"

definition syncRuntimeVaultFiles :: "vault_config \<Rightarrow> bool \<Rightarrow> vault_cloud \<Rightarrow> sync_result vault_op" where
  "syncRuntimeVaultFiles config lock cloud =
     vthen (vguard (vc_supported config))
       (vthen (vguard (vc_connected config = None \<or> lock)) (syncVaultSnapshot config cloud))"

end
