(* ===== verification/VaultTriples.thy ===== *)
theory VaultTriples
  imports VaultFiles
begin

text \<open>
  A logic for the Vault operations: triples with a postcondition for the end of an operation and one for its
  failure, and the rules of the file operations as weakest preconditions over the lookup of the directory.
\<close>

section \<open>Triples\<close>

definition vt :: "(vault_world \<Rightarrow> bool) \<Rightarrow> 'a vault_op \<Rightarrow> ('a \<Rightarrow> vault_world \<Rightarrow> bool) \<Rightarrow> (vault_world \<Rightarrow> bool) \<Rightarrow> bool" where
  "vt P m Q E \<longleftrightarrow> (\<forall>w. P w \<longrightarrow> (case m w of (None, w') \<Rightarrow> E w' | (Some x, w') \<Rightarrow> Q x w'))"

lemma vtI: "(\<And>w. P w \<Longrightarrow> case m w of (None, w') \<Rightarrow> E w' | (Some x, w') \<Rightarrow> Q x w') \<Longrightarrow> vt P m Q E"
  by (simp add: vt_def)

lemma vtD: "vt P m Q E \<Longrightarrow> P w \<Longrightarrow> case m w of (None, w') \<Rightarrow> E w' | (Some x, w') \<Rightarrow> Q x w'"
  by (simp add: vt_def)

lemma vt_conseq:
  "vt P' m Q' E' \<Longrightarrow> (\<And>w. P w \<Longrightarrow> P' w) \<Longrightarrow> (\<And>x w. Q' x w \<Longrightarrow> Q x w) \<Longrightarrow> (\<And>w. E' w \<Longrightarrow> E w) \<Longrightarrow> vt P m Q E"
  by (fastforce simp: vt_def split: prod.splits option.splits)

lemma vt_pre: "vt P' m Q E \<Longrightarrow> (\<And>w. P w \<Longrightarrow> P' w) \<Longrightarrow> vt P m Q E"
  by (rule vt_conseq)

lemma vt_bind:
  assumes "vt P m R E" and "\<And>x. vt (R x) (f x) Q E"
  shows "vt P (vbind m f) Q E"
proof (rule vtI)
  fix w assume "P w"
  with assms(1) have "case m w of (None, w') \<Rightarrow> E w' | (Some x, w') \<Rightarrow> R x w'" by (simp add: vt_def)
  moreover have "case f x w' of (None, w'') \<Rightarrow> E w'' | (Some y, w'') \<Rightarrow> Q y w''" if "R x w'" for x w'
    using assms(2) that by (simp add: vt_def)
  ultimately show "case vbind m f w of (None, w') \<Rightarrow> E w' | (Some x, w') \<Rightarrow> Q x w'"
    by (cases "m w"; cases "fst (m w)") (auto simp: vbind_def)
qed

lemma vt_then: "vt P m (\<lambda>_. R) E \<Longrightarrow> vt R p Q E \<Longrightarrow> vt P (vthen m p) Q E"
  unfolding vthen_def by (rule vt_bind)

lemma vt_ret: "(\<And>w. P w \<Longrightarrow> Q x w) \<Longrightarrow> vt P (vret x) Q E"
  by (simp add: vt_def vret_def)

lemma vt_fail: "(\<And>w. P w \<Longrightarrow> E w) \<Longrightarrow> vt P vfail Q E"
  by (simp add: vt_def vfail_def)

lemma vt_gets: "(\<And>w. P w \<Longrightarrow> Q (f w) w) \<Longrightarrow> vt P (vgets f) Q E"
  by (simp add: vt_def vgets_def)

lemma vt_modify: "(\<And>w. P w \<Longrightarrow> Q () (f w)) \<Longrightarrow> vt P (vmodify f) Q E"
  by (simp add: vt_def vmodify_def)

lemma vt_guard: "(\<And>w. P w \<Longrightarrow> E w) \<Longrightarrow> (\<And>w. ok \<Longrightarrow> P w \<Longrightarrow> Q () w) \<Longrightarrow> vt P (vguard ok) Q E"
  by (simp add: vt_def vguard_def vret_def vfail_def)

definition timeless :: "(vault_world \<Rightarrow> bool) \<Rightarrow> bool" where
  "timeless P \<longleftrightarrow> (\<forall>w n k. P w \<longrightarrow> P (w\<lparr>vw_budget := n, vw_checks := k\<rparr>))"

lemma vt_call: "timeless P \<Longrightarrow> (\<And>w. P w \<Longrightarrow> E w) \<Longrightarrow> vt P vcall (\<lambda>_. P) E"
proof (rule vtI)
  fix w assume P: "timeless P" "P w" and E: "\<And>w. P w \<Longrightarrow> E w"
  have "P (w\<lparr>vw_budget := n\<rparr>)" for n
  proof -
    have "P (w\<lparr>vw_budget := n, vw_checks := vw_checks w\<rparr>)" using P unfolding timeless_def by blast
    then show ?thesis by simp
  qed
  then show "case vcall w of (None, w') \<Rightarrow> E w' | (Some x, w') \<Rightarrow> P w'"
    using P E by (auto simp: vcall_def split: nat.split)
qed

lemma vt_current: "timeless P \<Longrightarrow> (\<And>w. P w \<Longrightarrow> E w) \<Longrightarrow> vt P (assertCurrent config) (\<lambda>_. P) E"
proof (rule vtI)
  fix w assume P: "timeless P" "P w" and E: "\<And>w. P w \<Longrightarrow> E w"
  have "P (w\<lparr>vw_checks := k\<rparr>)" for k
  proof -
    have "P (w\<lparr>vw_budget := vw_budget w, vw_checks := k\<rparr>)" using P unfolding timeless_def by blast
    then show ?thesis by simp
  qed
  then show "case assertCurrent config w of (None, w') \<Rightarrow> E w' | (Some x, w') \<Rightarrow> P w'"
    using P E by (auto simp: assertCurrent_def vault_op_defs)
qed

section \<open>The directory beside a receipt\<close>

text \<open>Under the receipt \<open>R\<close>: the entries that are not generated are \<open>S\<close>, and \<open>X\<close> holds of the lookup.\<close>

definition beside :: "vault_receipt \<Rightarrow> (string, vault_entry) js_map \<Rightarrow> ((string \<Rightarrow> vault_entry option) \<Rightarrow> bool) \<Rightarrow> vault_world \<Rightarrow> bool" where
  "beside R S X w \<longleftrightarrow>
     vw_receipt w = Receipt R \<and> filter (\<lambda>e. fst e \<notin> set (vr_files R)) (dir_entries w) = S \<and> X (map_of (dir_entries w))"

definition inside :: "vault_receipt \<Rightarrow> (string, vault_entry) js_map \<Rightarrow> ((string \<Rightarrow> vault_entry option) \<Rightarrow> bool) \<Rightarrow> vault_world \<Rightarrow> bool" where
  "inside R S X w \<longleftrightarrow> vw_dir w \<noteq> None \<and> beside R S X w"

lemma timeless_beside [simp]: "timeless (beside R S X)" "timeless (inside R S X)"
  by (simp_all add: timeless_def beside_def inside_def dir_entries_def)

lemma inside_beside: "inside R S X w \<Longrightarrow> beside R S X w"
  by (simp add: inside_def)

lemma beside_mono: "beside R S X w \<Longrightarrow> (\<And>f. X f \<Longrightarrow> Y f) \<Longrightarrow> beside R S Y w"
  by (simp add: beside_def)

lemma inside_mono: "inside R S X w \<Longrightarrow> (\<And>f. X f \<Longrightarrow> Y f) \<Longrightarrow> inside R S Y w"
  by (auto simp: inside_def intro: beside_mono)

lemma beside_any: "beside R S X w \<Longrightarrow> beside R S (\<lambda>_. True) w"
  by (rule beside_mono) auto

lemma filter_set_owned: "\<not> P k \<Longrightarrow> filter (\<lambda>e. P (fst e)) (map_set k v m) = filter (\<lambda>e. P (fst e)) m"
  by (induction k v m rule: map_set.induct) auto

lemma filter_delete_owned: "\<not> P k \<Longrightarrow> filter (\<lambda>e. P (fst e)) (map_delete k m) = filter (\<lambda>e. P (fst e)) m"
  by (induction m) (auto simp: map_delete_def)

lemma vt_verify:
  "vt (inside R S X) (verifyFile n) (\<lambda>there. inside R S (\<lambda>f. X f \<and> (there \<longleftrightarrow> f n \<noteq> None))) (beside R S (\<lambda>_. True))"
  unfolding verifyFile_def
proof (rule vt_then [OF vt_call])
  show "vt (inside R S X) (vbind (vgets dir_entries) (\<lambda>es. case map_get es n of None \<Rightarrow> vret False
      | Some (Plain _) \<Rightarrow> vret True | Some Odd \<Rightarrow> vfail)) (\<lambda>there. inside R S (\<lambda>f. X f \<and> (there \<longleftrightarrow> f n \<noteq> None)))
      (beside R S (\<lambda>_. True))"
    by (auto simp: vt_def vault_op_defs inside_def beside_def split: option.splits vault_entry.splits)
qed (auto dest: inside_beside beside_any)

lemma vt_digest:
  "vt (inside R S X) (fileDigest config n)
     (\<lambda>d. inside R S (\<lambda>f. X f \<and> (\<forall>x. d = Some x \<longrightarrow> (\<exists>c. f n = Some (Plain c) \<and> x = vc_sha256 config c)))) (beside R S (\<lambda>_. True))"
  unfolding fileDigest_def
proof (rule vt_then [OF vt_call])
  show "vt (inside R S X) (vbind (vgets dir_entries) (\<lambda>es. case map_get es n of None \<Rightarrow> vret None
      | Some (Plain content) \<Rightarrow> vthen (vguard (length (utf8 content) \<le> MAX_FILE_BYTES)) (vret (Some (vc_sha256 config content)))
      | Some Odd \<Rightarrow> vfail))
     (\<lambda>d. inside R S (\<lambda>f. X f \<and> (\<forall>x. d = Some x \<longrightarrow> (\<exists>c. f n = Some (Plain c) \<and> x = vc_sha256 config c)))) (beside R S (\<lambda>_. True))"
    by (auto simp: vt_def vault_op_defs inside_def beside_def split: option.splits vault_entry.splits)
qed (auto dest: inside_beside beside_any)

lemma set_entries_owned:
  assumes "n \<in> set (vr_files R)" and "inside R S (\<lambda>f. X (f(n \<mapsto> v))) w"
  shows "inside R S X (snd (set_entries (map_set n v) w))"
  using assms by (auto simp: inside_def beside_def set_entries_def vmodify_def dir_entries_def filter_set_owned [of "\<lambda>k. k \<notin> set (vr_files R)"])

lemma delete_owned:
  assumes "n \<in> set (vr_files R)" and "inside R S (\<lambda>f. X (f(n := None))) w"
  shows "inside R S X (snd (set_entries (map_delete n) w))"
  using assms by (auto simp: inside_def beside_def set_entries_def vmodify_def dir_entries_def filter_delete_owned [of "\<lambda>k. k \<notin> set (vr_files R)"])

lemma vt_set_entries:
  "n \<in> set (vr_files R) \<Longrightarrow> vt (inside R S (\<lambda>f. X (f(n \<mapsto> v)))) (set_entries (map_set n v)) (\<lambda>_. inside R S X) E"
  "n \<in> set (vr_files R) \<Longrightarrow> vt (inside R S (\<lambda>f. X (f(n := None)))) (set_entries (map_delete n)) (\<lambda>_. inside R S X) E"
  using set_entries_owned delete_owned by (auto simp: vt_def set_entries_def vmodify_def)

lemma vt_atomic:
  assumes "n \<in> set (vr_files R)"
  shows "vt (inside R S (\<lambda>f. X (f(n \<mapsto> Plain c)))) (atomicFile n c) (\<lambda>_. inside R S X) (beside R S (\<lambda>_. True))"
  unfolding atomicFile_def
proof (rule vt_bind [OF vt_verify], rule vt_bind)
  fix there
  let ?P = "inside R S (\<lambda>f. X (f(n \<mapsto> Plain c)))"
  show "vt (inside R S (\<lambda>f. X (f(n \<mapsto> Plain c)) \<and> (there \<longleftrightarrow> f n \<noteq> None))) (vgets dir_entries)
      (\<lambda>es w. es = dir_entries w \<and> ?P w) (beside R S (\<lambda>_. True))"
    by (rule vt_gets) (auto intro: inside_mono)
  show "vt (\<lambda>w. es = dir_entries w \<and> ?P w)
      (if map_get es n = Some (Plain c) then vret () else vthen vcall (set_entries (map_set n (Plain c))))
      (\<lambda>_. inside R S X) (beside R S (\<lambda>_. True))" for es
  proof (cases "map_get es n = Some (Plain c)")
    case True
    then show ?thesis by (auto simp: inside_def beside_def map_upd_triv intro!: vt_ret)
  next
    case False
    have "vt ?P (vthen vcall (set_entries (map_set n (Plain c)))) (\<lambda>_. inside R S X) (beside R S (\<lambda>_. True))"
      by (rule vt_then [OF vt_call vt_set_entries(1) [OF assms]]) (auto dest: inside_beside beside_any)
    then show ?thesis using False by (auto elim: vt_pre)
  qed
qed

lemma vt_unlink:
  assumes "n \<in> set (vr_files R)"
  shows "vt (inside R S (\<lambda>f. X (f(n := None)))) (unlink_if_there n) (\<lambda>_. inside R S X) (beside R S (\<lambda>_. True))"
  unfolding unlink_if_there_def
proof (rule vt_bind [OF vt_verify])
  fix there
  show "vt (inside R S (\<lambda>f. X (f(n := None)) \<and> (there \<longleftrightarrow> f n \<noteq> None)))
      (if there then vthen vcall (set_entries (map_delete n)) else vret ()) (\<lambda>_. inside R S X) (beside R S (\<lambda>_. True))"
  proof (cases there)
    case True
    have "vt (inside R S (\<lambda>f. X (f(n := None)))) (vthen vcall (set_entries (map_delete n))) (\<lambda>_. inside R S X) (beside R S (\<lambda>_. True))"
      by (rule vt_then [OF vt_call vt_set_entries(2) [OF assms]]) (auto dest: inside_beside beside_any)
    then show ?thesis using True by (auto elim!: vt_pre intro: inside_mono)
  next
    case False
    then show ?thesis
      by (auto intro!: vt_ret elim!: inside_mono simp: fun_upd_idem)
  qed
qed

section \<open>Loops\<close>

lemma vt_unlink_all:
  "set ns \<subseteq> set (vr_files R) \<Longrightarrow>
     vt (inside R S (\<lambda>f. X (\<lambda>k. if k \<in> set ns then None else f k))) (veach unlink_if_there ns) (\<lambda>_. inside R S X) (beside R S (\<lambda>_. True))"
proof (induction ns)
  case (Cons n ns)
  have upd: "(\<lambda>k. if k \<in> set (n # ns) then None else f k) = (\<lambda>k. if k \<in> set ns then None else (f(n := None)) k)" for f :: "string \<Rightarrow> vault_entry option"
    by auto
  show ?case
    unfolding veach.simps upd by (rule vt_then [OF vt_unlink Cons.IH]) (use Cons.prems in auto)
qed (simp add: vt_ret)

lemma vt_drop_all:
  "set ns \<subseteq> set (vr_files R) \<Longrightarrow>
     vt (inside R S (\<lambda>f. X (\<lambda>k. if k \<in> set ns \<and> k \<notin> set names then None else f k))) (veach (drop_old names) ns)
       (\<lambda>_. inside R S X) (beside R S (\<lambda>_. True))"
proof (induction ns)
  case (Cons n ns)
  show ?case
  proof (cases "n \<in> set names")
    case True
    then have "(\<lambda>k. if k \<in> set (n # ns) \<and> k \<notin> set names then None else f k) =
        (\<lambda>k. if k \<in> set ns \<and> k \<notin> set names then None else f k)" for f :: "string \<Rightarrow> vault_entry option" by auto
    then show ?thesis using Cons True by (simp add: drop_old_def vthen_def vbind_def vret_def)
  next
    case False
    then have upd: "(\<lambda>k. if k \<in> set (n # ns) \<and> k \<notin> set names then None else f k) =
        (\<lambda>k. if k \<in> set ns \<and> k \<notin> set names then None else (f(n := None)) k)" for f :: "string \<Rightarrow> vault_entry option" by auto
    have drop: "drop_old names n = unlink_if_there n" using False by (simp add: drop_old_def)
    show ?thesis
      unfolding veach.simps upd drop by (rule vt_then [OF vt_unlink Cons.IH]) (use Cons.prems in auto)
  qed
qed (simp add: vt_ret)

lemma vt_write_all:
  "fst ` set fs \<subseteq> set (vr_files R) \<Longrightarrow> distinct (map fst fs) \<Longrightarrow>
     vt (inside R S (\<lambda>f. X (f ++ (\<lambda>k. map_option Plain (map_of fs k))))) (veach (\<lambda>(n, c). atomicFile n c) fs)
       (\<lambda>_. inside R S X) (beside R S (\<lambda>_. True))"
proof (induction fs)
  case Nil
  have "(\<lambda>k. map_option Plain (map_of [] k)) = Map.empty" by auto
  then show ?case by (simp add: vt_ret)
next
  case (Cons x fs)
  obtain n c where x: "x = (n, c)" by (cases x)
  have "n \<notin> fst ` set fs" using Cons.prems(2) by (auto simp: x)
  then have absent: "map_of fs n = None" by (simp add: map_of_eq_None_iff)
  have upd: "f ++ (\<lambda>k. map_option Plain (map_of ((n, c) # fs) k)) = (f(n \<mapsto> Plain c)) ++ (\<lambda>k. map_option Plain (map_of fs k))"
    for f :: "string \<Rightarrow> vault_entry option"
    using absent by (auto simp: map_add_def fun_eq_iff split: option.splits)
  show ?case
    unfolding x veach.simps prod.case upd by (rule vt_then [OF vt_atomic Cons.IH]) (use Cons.prems in \<open>auto simp: x\<close>)
qed

lemma vt_verify_all:
  "vt (inside R S X) (veach (\<lambda>n. vbind (verifyFile n) (\<lambda>_. vret ())) ns) (\<lambda>_. inside R S X) (beside R S (\<lambda>_. True))"
proof (induction ns)
  case (Cons n ns)
  have "vt (inside R S X) (vbind (verifyFile n) (\<lambda>_. vret ())) (\<lambda>_. inside R S X) (beside R S (\<lambda>_. True))"
    by (rule vt_bind [OF vt_verify], rule vt_ret) (auto intro: inside_mono)
  from vt_then [OF this Cons.IH] show ?case by simp
qed (simp add: vt_ret)

lemma vt_refuse_all:
  "vt (inside R S X) (veach (refuse_new r) ns)
     (\<lambda>_. inside R S (\<lambda>f. X f \<and> (\<forall>n\<in>set ns. n \<notin> set (vr_files r) \<longrightarrow> f n = None))) (beside R S (\<lambda>_. True))"
proof (induction ns arbitrary: X)
  case (Cons n ns)
  have "vt (inside R S X) (refuse_new r n) (\<lambda>_. inside R S (\<lambda>f. X f \<and> (n \<notin> set (vr_files r) \<longrightarrow> f n = None))) (beside R S (\<lambda>_. True))"
  proof (cases "n \<in> set (vr_files r)")
    case False
    have "vt (inside R S X) (vbind (verifyFile n) (\<lambda>there. vguard (\<not> there))) (\<lambda>_. inside R S (\<lambda>f. X f \<and> f n = None)) (beside R S (\<lambda>_. True))"
      by (rule vt_bind [OF vt_verify], rule vt_guard) (auto intro: inside_mono dest: inside_beside beside_any)
    then show ?thesis using False by (simp add: refuse_new_def)
  qed (simp add: refuse_new_def vt_ret)
  from vt_then [OF this Cons.IH] show ?case by (auto elim!: vt_conseq intro: inside_mono)
qed (simp add: vt_ret)

section \<open>Directory and receipt\<close>

lemma vt_directory:
  assumes "vt (inside R S X) operation Q E" and "\<And>w. beside R S X w \<Longrightarrow> E w"
  shows "vt (beside R S X) (withDirectory config r operation) Q E"
  unfolding withDirectory_def
proof (rule vt_then [OF vt_call])
  show "vt (beside R S X) (vbind (vgets vw_dir) (\<lambda>dir. case dir of None \<Rightarrow> vfail
      | Some d \<Rightarrow> vthen (vguard (vc_trusted config \<and> vd_inode d = vr_inode r \<and> vd_private d)) operation)) Q E"
    using assms by (auto simp: vt_def vbind_def vgets_def vfail_def vthen_def vguard_def vret_def inside_def split: option.splits prod.splits)
qed (use assms(2) in auto)

lemma vt_save:
  assumes "\<And>f n. X f \<Longrightarrow> n \<in> set (vr_files R) \<Longrightarrow> n \<notin> set (vr_files R') \<Longrightarrow> f n = None"
    and "\<And>f n. X f \<Longrightarrow> n \<notin> set (vr_files R) \<Longrightarrow> n \<in> set (vr_files R') \<Longrightarrow> f n = None"
  shows "vt (beside R S X) (saveReceipt R') (\<lambda>_. beside R' S X) (beside R S (\<lambda>_. True))"
  unfolding saveReceipt_def
proof (rule vt_then [OF vt_call], simp_all add: beside_any)
  show "vt (beside R S X) (vmodify (\<lambda>w. w\<lparr>vw_receipt := Receipt R'\<rparr>)) (\<lambda>_. beside R' S X) (beside R S (\<lambda>_. True))"
  proof (rule vt_modify)
    fix w assume w: "beside R S X w"
    have "filter (\<lambda>e. fst e \<notin> set (vr_files R')) (dir_entries w) = filter (\<lambda>e. fst e \<notin> set (vr_files R)) (dir_entries w)"
    proof (rule filter_cong [OF refl])
      fix e assume "e \<in> set (dir_entries w)"
      then have "map_of (dir_entries w) (fst e) \<noteq> None" by (simp add: map_of_eq_None_iff)
      moreover have "X (map_of (dir_entries w))" using w by (simp add: beside_def)
      ultimately show "(fst e \<notin> set (vr_files R')) = (fst e \<notin> set (vr_files R))"
        using assms(1) [of "map_of (dir_entries w)" "fst e"] assms(2) [of "map_of (dir_entries w)" "fst e"]
        by (cases "fst e \<in> set (vr_files R)"; cases "fst e \<in> set (vr_files R')") simp_all
    qed
    then show "beside R' S X (w\<lparr>vw_receipt := Receipt R'\<rparr>)" using w by (auto simp: beside_def dir_entries_def)
  qed
qed

lemma vt_tracked: "timeless P \<Longrightarrow> (\<And>w. P w \<Longrightarrow> E w) \<Longrightarrow> vt P (checkTracked config) (\<lambda>_. P) E"
  unfolding checkTracked_def by (rule vt_then [OF vt_call]) (auto simp: Let_def intro!: vt_guard)

end
