(* ===== verification/VaultLaws.thy ===== *)
theory VaultLaws
  imports VaultTriples
begin

text \<open>
  What the Vault operations guarantee, wherever they stop: the user's own files in the directory stay as they
  are, and no generated file is ever outside the receipt; revoked values are gone; and after a successful
  synchronization the directory holds exactly what the Cloud granted.
\<close>

section \<open>The invariant\<close>

definition generated :: "vault_world \<Rightarrow> string list" where
  "generated w = (case vw_receipt w of Receipt r \<Rightarrow> vr_files r | _ \<Rightarrow> [])"

text \<open>The entries of the directory that are not generated, in their order and with their content.\<close>

definition strays :: "vault_world \<Rightarrow> (string, vault_entry) js_map" where
  "strays w = filter (\<lambda>e. fst e \<notin> set (generated w)) (dir_entries w)"

definition sound_receipt :: "vault_receipt \<Rightarrow> bool" where
  "sound_receipt r \<longleftrightarrow>
     (vr_files r \<noteq> [] \<longrightarrow> INDEX_JSON \<in> set (vr_files r)) \<and> set (index_files (vr_inventory r)) \<subseteq> set (vr_files r) \<and>
     (\<forall>v\<in>set (vr_inventory r). \<forall>s\<in>set (iv_sections v). uuid_of_file (is_file s) = iv_id v)"

definition sound_world :: "vault_world \<Rightarrow> bool" where
  "sound_world w \<longleftrightarrow> (case vw_receipt w of Receipt r \<Rightarrow> sound_receipt r | _ \<Rightarrow> True)"

definition vault_inv :: "(string, vault_entry) js_map \<Rightarrow> vault_world \<Rightarrow> bool" where
  "vault_inv S w \<longleftrightarrow> strays w = S \<and> sound_world w"

lemma timeless_inv [simp]: "timeless (vault_inv S)"
  by (simp add: timeless_def vault_inv_def strays_def sound_world_def generated_def dir_entries_def)

lemma beside_inv: "beside R S X w \<Longrightarrow> sound_receipt R \<Longrightarrow> vault_inv S w"
  by (simp add: beside_def vault_inv_def strays_def sound_world_def generated_def)

lemma inside_inv: "inside R S X w \<Longrightarrow> sound_receipt R \<Longrightarrow> vault_inv S w"
  by (rule beside_inv [OF inside_beside])

lemma vt_directory_inv:
  assumes "vt (inside R S X) operation (\<lambda>_. inside R S Y) (vault_inv S)" and "sound_receipt R"
  shows "vt (beside R S X) (withDirectory config r operation) (\<lambda>_. beside R S Y) (vault_inv S)"
proof -
  have "vt (beside R S X) (withDirectory config r operation) (\<lambda>_. inside R S Y) (vault_inv S)"
    by (rule vt_directory [OF assms(1)]) (rule beside_inv [OF _ assms(2)])
  then show ?thesis by (rule vt_conseq) (auto intro: inside_beside)
qed

lemma sound_forgotten [simp]: "sound_receipt (forgotten_receipt r)"
  by (simp add: sound_receipt_def forgotten_receipt_def index_files_def)

section \<open>Taking back\<close>

lemma vt_revoke:
  assumes "sound_receipt r"
  shows "vt (beside r S X) (revoke config (Some r)) (\<lambda>_. beside (forgotten_receipt r) S (\<lambda>f. \<forall>n\<in>set (vr_files r). f n = None)) (vault_inv S)"
proof -
  let ?gone = "\<lambda>f. \<forall>n\<in>set (vr_files r). f n = None"
  have err: "beside r S Y w \<Longrightarrow> vault_inv S w" for Y w using beside_inv assms by blast
  have "vt (inside r S X) (veach unlink_if_there (vr_files r)) (\<lambda>_. inside r S ?gone) (vault_inv S)"
    by (rule vt_conseq [OF vt_unlink_all [OF subset_refl, of r S ?gone]]) (auto intro: inside_mono err)
  then have "vt (inside r S X) (vthen (veach unlink_if_there (vr_files r)) vcall) (\<lambda>_. inside r S ?gone) (vault_inv S)"
    by (rule vt_then) (rule vt_call, auto dest: inside_inv intro: assms)
  then have dir: "vt (beside r S X) (withDirectory config r (vthen (veach unlink_if_there (vr_files r)) vcall)) (\<lambda>_. beside r S ?gone) (vault_inv S)"
    by (rule vt_directory_inv [OF _ assms])
  have save: "vt (beside r S ?gone) (saveReceipt (forgotten_receipt r)) (\<lambda>_. beside (forgotten_receipt r) S ?gone) (vault_inv S)"
    by (rule vt_conseq [OF vt_save]) (auto simp: forgotten_receipt_def intro: err)
  show ?thesis
    unfolding revoke_def option.case
    by (rule vt_then [OF vt_tracked], simp, erule err, rule vt_then [OF dir save])
qed

text \<open>What is left of a receipt when the Vaults outside \<open>allowed\<close> are gone.\<close>

definition pruned :: "string list \<Rightarrow> vault_receipt \<Rightarrow> vault_receipt" where
  "pruned allowed r =
     r\<lparr>vr_inventory := filter (\<lambda>v. iv_id v \<in> set allowed) (vr_inventory r),
       vr_files := filter (\<lambda>n. \<not> prunable allowed n) (vr_files r), vr_etag := None\<rparr>"

lemma sound_pruned: "sound_receipt r \<Longrightarrow> sound_receipt (pruned allowed r)"
  by (auto simp: sound_receipt_def pruned_def prunable_def index_files_def dest: filter_empty_conv [THEN iffD1])

definition kept :: "vault_config \<Rightarrow> vault_receipt \<Rightarrow> (string \<Rightarrow> vault_entry option) \<Rightarrow> bool" where
  "kept config r f \<longleftrightarrow> (\<forall>n\<in>set (vr_files r). n \<noteq> INDEX_JSON \<longrightarrow>
     (\<exists>c. f n = Some (Plain c) \<and> map_get (vr_digests r) n = Some (vc_sha256 config c)))"

lemma kept_pruned:
  "kept config r f \<Longrightarrow> kept config (pruned allowed r) ((\<lambda>k. if prunable allowed k \<and> k \<in> set (vr_files r) then None else f k)(INDEX_JSON \<mapsto> x))"
  by (auto simp: kept_def pruned_def)

definition unlisted_gone :: "string list \<Rightarrow> vault_receipt \<Rightarrow> (string \<Rightarrow> vault_entry option) \<Rightarrow> bool" where
  "unlisted_gone allowed r f \<longleftrightarrow> (\<forall>n\<in>set (vr_files r). prunable allowed n \<longrightarrow> f n = None)"

text \<open>Pruning: the receipt it answers, and the files of Vaults that are no longer listed are gone.\<close>

lemma vt_prune:
  assumes "sound_receipt r"
  shows "vt (beside r S X) (pruneRevoked config (Some r) metadata)
    (\<lambda>q. \<lambda>w. \<exists>r'. q = Some r' \<and> sound_receipt r' \<and> list_all (\<lambda>n. \<not> prunable (map vt_id (sn_vaults metadata)) n) (vr_files r') \<and>
       beside r' S (\<lambda>f. unlisted_gone (map vt_id (sn_vaults metadata)) r f \<and>
         (\<exists>f0. X f0 \<and> (kept config r f0 \<longrightarrow> kept config r' f))) w) (vault_inv S)"
proof -
  let ?allowed = "map vt_id (sn_vaults metadata)"
  let ?removed = "filter (prunable ?allowed) (vr_files r)"
  let ?p = "pruned ?allowed r"
  let ?inventory = "filter (\<lambda>v. iv_id v \<in> set ?allowed) (vr_inventory r)"
  let ?index = "index_content (sn_agent_id metadata) (sn_user_id metadata) ?inventory"
  let ?Y = "\<lambda>f. unlisted_gone ?allowed r f \<and> (\<exists>f0. X f0 \<and> (kept config r f0 \<longrightarrow> kept config ?p f))"
  let ?Q = "\<lambda>q. \<lambda>w. \<exists>r'. q = Some r' \<and> sound_receipt r' \<and> list_all (\<lambda>n. \<not> prunable ?allowed n) (vr_files r') \<and>
       beside r' S (\<lambda>f. unlisted_gone ?allowed r f \<and> (\<exists>f0. X f0 \<and> (kept config r f0 \<longrightarrow> kept config r' f))) w"
  have err: "beside r S Y w \<Longrightarrow> vault_inv S w" for Y w using beside_inv assms by blast
  have following: "r\<lparr>vr_inventory := ?inventory, vr_files := filter (\<lambda>n. n \<notin> set ?removed) (vr_files r), vr_etag := None\<rparr> = ?p"
  proof -
    have "filter (\<lambda>n. n \<notin> set ?removed) (vr_files r) = filter (\<lambda>n. \<not> prunable ?allowed n) (vr_files r)" by (rule filter_cong) auto
    then show ?thesis by (simp add: pruned_def)
  qed
  show ?thesis
  proof (cases "?removed = []")
    case True
    then have none: "\<forall>n\<in>set (vr_files r). \<not> prunable ?allowed n" by (simp add: filter_empty_conv)
    then have "unlisted_gone ?allowed r f" for f by (simp add: unlisted_gone_def)
    then show ?thesis
      unfolding pruneRevoked_def option.case Let_def if_P [OF True]
      by (intro vt_then [OF vt_guard [where Q = "\<lambda>_. beside r S X"]] vt_ret) (auto simp: list_all_iff none intro: err assms elim!: beside_mono)
  next
    case False
    then have index: "INDEX_JSON \<in> set (vr_files r)" using assms by (auto simp: sound_receipt_def filter_empty_conv)
    have start: "X f \<Longrightarrow> ?Y ((\<lambda>k. if k \<in> set ?removed then None else f k)(INDEX_JSON \<mapsto> Plain ?index))" for f
    proof
      assume "X f"
      show "unlisted_gone ?allowed r ((\<lambda>k. if k \<in> set ?removed then None else f k)(INDEX_JSON \<mapsto> Plain ?index))"
        by (auto simp: unlisted_gone_def prunable_def)
      have eq: "(\<lambda>k. if k \<in> set ?removed then None else f k) = (\<lambda>k. if prunable ?allowed k \<and> k \<in> set (vr_files r) then None else f k)"
        by auto
      show "\<exists>f0. X f0 \<and> (kept config r f0 \<longrightarrow> kept config ?p ((\<lambda>k. if k \<in> set ?removed then None else f k)(INDEX_JSON \<mapsto> Plain ?index)))"
        unfolding eq using \<open>X f\<close> kept_pruned by blast
    qed
    have "vt (inside r S X) (veach unlink_if_there ?removed) (\<lambda>_. inside r S (\<lambda>f. ?Y (f(INDEX_JSON \<mapsto> Plain ?index)))) (vault_inv S)"
    proof (rule vt_conseq [OF vt_unlink_all])
      show "set ?removed \<subseteq> set (vr_files r)" by auto
      show "inside r S X w \<Longrightarrow> inside r S (\<lambda>f. ?Y ((\<lambda>k. if k \<in> set ?removed then None else f k)(INDEX_JSON \<mapsto> Plain ?index))) w" for w
        by (erule inside_mono) (erule start)
    qed (assumption, erule err)
    moreover have "vt (inside r S (\<lambda>f. ?Y (f(INDEX_JSON \<mapsto> Plain ?index)))) (atomicFile INDEX_JSON ?index) (\<lambda>_. inside r S ?Y) (vault_inv S)"
      by (rule vt_conseq [OF vt_atomic [OF index, of S ?Y]]) (auto intro: err)
    moreover have "vt (inside r S ?Y) vcall (\<lambda>_. inside r S ?Y) (vault_inv S)"
      by (rule vt_call) (auto dest: inside_inv intro: assms)
    ultimately have "vt (inside r S X) (vthen (veach unlink_if_there ?removed) (vthen (atomicFile INDEX_JSON ?index) vcall)) (\<lambda>_. inside r S ?Y) (vault_inv S)"
      by (intro vt_then)
    then have dir: "vt (beside r S X) (withDirectory config r (vthen (veach unlink_if_there ?removed) (vthen (atomicFile INDEX_JSON ?index) vcall)))
        (\<lambda>_. beside r S ?Y) (vault_inv S)"
      by (rule vt_directory_inv [OF _ assms])
    have save: "vt (beside r S ?Y) (saveReceipt ?p) (\<lambda>_. beside ?p S ?Y) (vault_inv S)"
      by (rule vt_conseq [OF vt_save]) (auto simp: pruned_def unlisted_gone_def intro: err)
    have answer: "vt (beside ?p S ?Y) (vret (Some ?p)) ?Q (vault_inv S)"
    proof (rule vt_ret)
      fix w assume w: "beside ?p S ?Y w"
      have "list_all (\<lambda>n. \<not> prunable ?allowed n) (vr_files ?p)" by (simp add: pruned_def list_all_iff)
      then show "?Q (Some ?p) w" using sound_pruned [OF assms] w by blast
    qed
    show ?thesis
      unfolding pruneRevoked_def option.case Let_def if_not_P [OF False] following
      by (rule vt_then [OF vt_guard [where Q = "\<lambda>_. beside r S X"]], erule err, assumption,
          rule vt_then [OF vt_tracked], simp, erule err, rule vt_then [OF dir vt_then [OF save answer]])
  qed
qed

end
