(* ===== verification/VaultGuarantees.thy ===== *)
theory VaultGuarantees
  imports VaultLaws
begin

text \<open>
  The guarantees of a whole synchronization and of clearing, from the laws of their steps.
\<close>

section \<open>What is rendered\<close>

definition uuid_ids :: "vault_snapshot \<Rightarrow> bool" where
  "uuid_ids snapshot \<longleftrightarrow> list_all (\<lambda>v. length (vt_id v) = 36) (sn_vaults snapshot)"

definition from_inventory :: "vault_receipt option \<Rightarrow> string \<Rightarrow> bool" where
  "from_inventory previous n \<longleftrightarrow> (\<exists>r. previous = Some r \<and> n \<in> set (index_files (vr_inventory r)))"

definition sound_previous :: "vault_receipt option \<Rightarrow> bool" where
  "sound_previous previous \<longleftrightarrow> (case previous of None \<Rightarrow> True | Some r \<Rightarrow> sound_receipt r)"

definition section_entries :: "vault_config \<Rightarrow> vault \<Rightarrow> (string \<times> string) list" where
  "section_entries config v =
     (case vt_fields v of None \<Rightarrow> []
      | Some fds \<Rightarrow> map (\<lambda>s. (section_file config v s, section_content (section_fields fds s))) (section_names fds))"

lemma render_vault_entry:
  assumes "render_vault config previous v = Some (e, fs)" and "length (vt_id v) = 36" and "sound_previous previous"
  shows "iv_id e = vt_id v \<and> fs = section_entries config v \<and> fst ` set fs \<subseteq> is_file ` set (iv_sections e) \<and>
    (\<forall>s\<in>set (iv_sections e). uuid_of_file (is_file s) = vt_id v \<and> (is_file s \<in> fst ` set fs \<or> from_inventory previous (is_file s)))"
proof (cases "vt_fields v")
  case None
  then obtain old where old: "find (\<lambda>e. iv_id e = vt_id v \<and> iv_revision e = vt_revision v)
      (case previous of None \<Rightarrow> [] | Some r \<Rightarrow> vr_inventory r) = Some old"
    "e = old\<lparr>iv_content_version := Some (vt_content_version v)\<rparr>" "fs = []"
    using assms(1) by (auto simp: render_vault_def split: option.splits)
  from find_SomeD [OF old(1)] obtain r where "previous = Some r" "old \<in> set (vr_inventory r)" "iv_id old = vt_id v"
    by (auto split: option.splits)
  then show ?thesis
    using assms(3) None old by (auto simp: sound_previous_def sound_receipt_def from_inventory_def index_files_def section_entries_def)
next
  case (Some fds)
  have "uuid_of_file (section_file config v s) = vt_id v" for s
    using assms(2) by (simp add: uuid_of_file_def section_file_def)
  then show ?thesis
    using assms(1) Some by (auto simp: render_vault_def index_section_of_def section_entries_def image_image split: if_splits)
qed

lemma render_vaults_entries:
  assumes "render_vaults config previous vs = Some (es, fs)" and "list_all (\<lambda>v. length (vt_id v) = 36) vs" and "sound_previous previous"
  shows "map iv_id es = map vt_id vs \<and> fs = concat (map (section_entries config) vs) \<and> fst ` set fs \<subseteq> set (index_files es) \<and>
    (\<forall>e\<in>set es. \<forall>s\<in>set (iv_sections e). uuid_of_file (is_file s) = iv_id e \<and> (is_file s \<in> fst ` set fs \<or> from_inventory previous (is_file s)))"
  using assms(1,2)
proof (induction vs arbitrary: es fs)
  case (Cons v vs)
  obtain e fs1 es2 fs2 where parts: "render_vault config previous v = Some (e, fs1)" "render_vaults config previous vs = Some (es2, fs2)"
    "es = e # es2" "fs = fs1 @ fs2"
    using Cons.prems(1) by (auto split: option.splits)
  have "length (vt_id v) = 36" "list_all (\<lambda>v. length (vt_id v) = 36) vs" using Cons.prems(2) by auto
  note head = render_vault_entry [OF parts(1) this(1) assms(3)] and rest = Cons.IH [OF parts(2) this(2)]
  have fs: "fst ` set fs = fst ` set fs1 \<union> fst ` set fs2" by (simp add: parts(4) image_Un)
  have "fst ` set fs1 \<subseteq> is_file ` set (iv_sections e)" "fst ` set fs2 \<subseteq> set (index_files es2)" using head rest by blast+
  then have "fst ` set fs \<subseteq> set (index_files es)" unfolding fs by (auto simp: parts(3) index_files_def)
  moreover have "\<forall>e\<in>set es. \<forall>s\<in>set (iv_sections e). uuid_of_file (is_file s) = iv_id e \<and>
      (is_file s \<in> fst ` set fs \<or> from_inventory previous (is_file s))"
  proof (intro ballI)
    fix e' s assume "e' \<in> set es" and s: "s \<in> set (iv_sections e')"
    then consider "e' = e" | "e' \<in> set es2" by (auto simp: parts(3))
    then show "uuid_of_file (is_file s) = iv_id e' \<and> (is_file s \<in> fst ` set fs \<or> from_inventory previous (is_file s))"
    proof cases
      case 1
      then show ?thesis using head s unfolding fs by simp blast
    next
      case 2
      then show ?thesis using rest s unfolding fs by blast
    qed
  qed
  ultimately show ?case using head rest by (simp add: parts(3,4))
qed simp

lemma fold_map_set_keys: "fst ` set (fold (\<lambda>(n, c). map_set n c) fs m) = fst ` set fs \<union> fst ` set m"
proof (induction fs arbitrary: m)
  case (Cons x fs)
  then show ?case by (cases x) (simp add: set_map_keys_set [simplified])
qed simp

lemma fold_map_set_wf: "wf_map m \<Longrightarrow> wf_map (fold (\<lambda>(n, c). map_set n c) fs m)"
  by (induction fs arbitrary: m) auto

lemma fold_map_set_absent: "n \<notin> fst ` set fs \<Longrightarrow> map_get (fold (\<lambda>(n, c). map_set n c) fs m) n = map_get m n"
  by (induction fs arbitrary: m) auto

lemma fold_map_set_get: "distinct (map fst fs) \<Longrightarrow> (n, c) \<in> set fs \<Longrightarrow> map_get (fold (\<lambda>(n, c). map_set n c) fs m) n = Some c"
proof (induction fs arbitrary: m)
  case (Cons x fs)
  then show ?case by (cases x) (auto simp: fold_map_set_absent)
qed simp

text \<open>No two section names of one Vault have the same digest, and so the same file.\<close>

definition sections_apart :: "vault_config \<Rightarrow> vault list \<Rightarrow> bool" where
  "sections_apart config vs \<longleftrightarrow>
     list_all (\<lambda>v. case vt_fields v of None \<Rightarrow> True | Some fds \<Rightarrow> inj_on (vc_sha256 config) (set (section_names fds))) vs"

lemma section_files_distinct:
  assumes "sections_apart config vs" and "list_all (\<lambda>v. length (vt_id v) = 36) vs" and "distinct (map vt_id vs)"
  shows "distinct (map fst (concat (map (section_entries config) vs)))"
  using assms
proof (induction vs)
  case (Cons v vs)
  have uuid: "uuid_of_file n = vt_id u" if "n \<in> fst ` set (section_entries config u)" "length (vt_id u) = 36" for n u
    using that by (auto simp: section_entries_def uuid_of_file_def section_file_def split: option.splits)
  have "distinct (map (section_file config v) (section_names fds))" if "vt_fields v = Some fds" for fds
    using Cons.prems(1) that by (simp add: sections_apart_def distinct_map inj_on_def section_file_def) (simp add: section_names_def)
  then have "distinct (map fst (section_entries config v))" by (simp add: section_entries_def comp_def split: option.split)
  moreover have "fst ` set (section_entries config v) \<inter> fst ` set (concat (map (section_entries config) vs)) = {}"
  proof -
    have same: "vt_id u = vt_id v" if "u \<in> set vs" "n \<in> fst ` set (section_entries config u)" "n \<in> fst ` set (section_entries config v)" for n u
      using uuid [OF that(2)] uuid [OF that(3)] Cons.prems(2) that(1) by (auto simp: list_all_iff)
    show ?thesis
    proof (rule ccontr)
      assume "\<not> ?thesis"
      then obtain n where n: "n \<in> fst ` set (section_entries config v)" "n \<in> fst ` set (concat (map (section_entries config) vs))" by blast
      then obtain u where u: "u \<in> set vs" "n \<in> fst ` set (section_entries config u)" by auto
      from same [OF u n(1)] u(1) Cons.prems(3) show False by (metis distinct.simps(2) image_eqI list.set_map list.simps(9))
    qed
  qed
  ultimately show ?case using Cons by (simp add: image_Un sections_apart_def)
qed simp

lemma names_apart: "GITIGNORE \<noteq> INDEX_JSON"
  by (simp add: GITIGNORE_def INDEX_JSON_def)

lemma long_name: "uuid_of_file n = i \<Longrightarrow> length i = 36 \<Longrightarrow> n \<noteq> GITIGNORE \<and> n \<noteq> INDEX_JSON"
  by (auto simp: uuid_of_file_def GITIGNORE_def INDEX_JSON_def)

definition well_rendered :: "vault_receipt option \<Rightarrow> rendered \<Rightarrow> bool" where
  "well_rendered previous out \<longleftrightarrow>
     distinct (map fst (rn_files out)) \<and> INDEX_JSON \<in> fst ` set (rn_files out) \<and> fst ` set (rn_files out) \<subseteq> set (rn_names out) \<and>
     set (rn_names out) = {GITIGNORE, INDEX_JSON} \<union> set (index_files (rn_inventory out)) \<and>
     (\<forall>n\<in>set (rn_names out). n \<in> fst ` set (rn_files out) \<or> from_inventory previous n) \<and>
     (\<forall>e\<in>set (rn_inventory out). \<forall>s\<in>set (iv_sections e). uuid_of_file (is_file s) = iv_id e)"

lemma render_facts:
  assumes "render_snapshot config snapshot previous = Some out" and "uuid_ids snapshot" and "sound_previous previous"
  shows "well_rendered previous out \<and> map iv_id (rn_inventory out) = map vt_id (sn_vaults snapshot) \<and>
    (sections_apart config (sn_vaults snapshot) \<longrightarrow> (\<forall>v\<in>set (sn_vaults snapshot). \<forall>(n, c)\<in>set (section_entries config v). map_get (rn_files out) n = Some c))"
proof -
  obtain inventory fs where parts: "render_vaults config previous (sn_vaults snapshot) = Some (inventory, fs)"
    and ids: "distinct (map vt_id (sn_vaults snapshot))"
    and out: "out = \<lparr>rn_files = map_set INDEX_JSON (index_content (sn_agent_id snapshot) (sn_user_id snapshot) inventory)
                        (fold (\<lambda>(name, content). map_set name content) fs [(GITIGNORE, ''*'' @ [newline])]),
                      rn_inventory = inventory, rn_names = [GITIGNORE, INDEX_JSON] @ index_files inventory\<rparr>"
    using assms(1) by (auto simp: render_snapshot_def split: if_splits option.splits)
  have long: "list_all (\<lambda>v. length (vt_id v) = 36) (sn_vaults snapshot)" using assms(2) by (simp add: uuid_ids_def)
  note entries = render_vaults_entries [OF parts long assms(3)]
  have keys: "fst ` set (rn_files out) = {INDEX_JSON, GITIGNORE} \<union> fst ` set fs"
    by (auto simp: out fold_map_set_keys)
  have "wf_map [(GITIGNORE, ''*'' @ [newline])]" by (simp add: wf_map_def)
  then have "wf_map (rn_files out)" unfolding out rendered.simps by (intro wf_map_set fold_map_set_wf)
  then have d: "distinct (map fst (rn_files out))" by (simp add: wf_map_def)
  have "well_rendered previous out"
  proof -
    have k: "fst ` set fs \<subseteq> set (index_files inventory)"
      and sec: "\<And>e s. e \<in> set inventory \<Longrightarrow> s \<in> set (iv_sections e) \<Longrightarrow>
        uuid_of_file (is_file s) = iv_id e \<and> (is_file s \<in> fst ` set fs \<or> from_inventory previous (is_file s))"
      using entries by blast+
    have "n \<in> fst ` set fs \<or> from_inventory previous n" if "n \<in> set (index_files inventory)" for n
      using that sec by (auto simp: index_files_def)
    then have "\<forall>n\<in>set (rn_names out). n \<in> fst ` set (rn_files out) \<or> from_inventory previous n" unfolding keys by (simp add: out)
    moreover have "\<forall>e\<in>set (rn_inventory out). \<forall>s\<in>set (iv_sections e). uuid_of_file (is_file s) = iv_id e" using sec by (simp add: out)
    moreover have "fst ` set (rn_files out) \<subseteq> set (rn_names out)" unfolding keys using k by (auto simp: out)
    moreover have "INDEX_JSON \<in> fst ` set (rn_files out)" by (simp add: keys)
    moreover have "set (rn_names out) = {GITIGNORE, INDEX_JSON} \<union> set (index_files (rn_inventory out))" by (simp add: out)
    ultimately show ?thesis unfolding well_rendered_def using d by blast
  qed
  moreover have "map_get (rn_files out) n = Some c"
    if "sections_apart config (sn_vaults snapshot)" "v \<in> set (sn_vaults snapshot)" "(n, c) \<in> set (section_entries config v)" for v n c
  proof -
    have "distinct (map fst fs)" using section_files_distinct [OF that(1) long ids] entries by simp
    moreover have "(n, c) \<in> set fs" using that entries by auto
    moreover have "uuid_of_file n = vt_id v"
      using that(2,3) long by (auto simp: section_entries_def uuid_of_file_def section_file_def list_all_iff split: option.splits)
    then have "n \<noteq> INDEX_JSON" using long_name that(2) long by (auto simp: list_all_iff)
    ultimately show ?thesis by (simp add: out fold_map_set_get)
  qed
  ultimately show ?thesis using entries by (auto simp: out)
qed

section \<open>Writing\<close>

definition final_receipt :: "vault_config \<Rightarrow> vault_receipt \<Rightarrow> rendered \<Rightarrow> string \<Rightarrow> vault_receipt" where
  "final_receipt config r out etag =
     r\<lparr>vr_files := rn_names out, vr_digests := new_digests config r out, vr_inventory := rn_inventory out, vr_etag := Some etag\<rparr>"

definition reserved_receipt :: "vault_receipt \<Rightarrow> rendered \<Rightarrow> vault_receipt" where
  "reserved_receipt r out = r\<lparr>vr_files := set_of_list (vr_files r @ rn_names out), vr_etag := None\<rparr>"

lemma write_files_steps:
  "write_files config r out etag =
     vthen (withDirectory config r (veach (refuse_new r) (map_keys (rn_files out))))
     (vthen (saveReceipt (reserved_receipt r out))
     (vthen (withDirectory config (reserved_receipt r out)
        (vthen (veach (\<lambda>n. vbind (verifyFile n) (\<lambda>_. vret ())) (vr_files (reserved_receipt r out)))
        (vthen (veach (\<lambda>(n, c). atomicFile n c) (rn_files out))
        (vthen (veach (drop_old (rn_names out)) (vr_files (reserved_receipt r out))) vcall))))
     (saveReceipt (final_receipt config r out etag))))"
  by (simp only: write_files_def Let_def reserved_receipt_def final_receipt_def)

lemma sound_final: "well_rendered previous out \<Longrightarrow> sound_receipt (final_receipt config r out etag)"
  by (auto simp: sound_receipt_def final_receipt_def well_rendered_def)

lemma sound_reserved: "sound_receipt r \<Longrightarrow> well_rendered previous out \<Longrightarrow> sound_receipt (reserved_receipt r out)"
  by (auto simp: sound_receipt_def reserved_receipt_def well_rendered_def)

definition written :: "rendered \<Rightarrow> ((string \<Rightarrow> vault_entry option) \<Rightarrow> bool) \<Rightarrow> (string \<Rightarrow> vault_entry option) \<Rightarrow> bool" where
  "written out X f \<longleftrightarrow> (\<exists>f0. X f0 \<and>
     (\<forall>n\<in>set (rn_names out). f n = (case map_get (rn_files out) n of Some c \<Rightarrow> Some (Plain c) | None \<Rightarrow> f0 n)))"

lemma vt_write_files:
  assumes "sound_receipt r" and out: "well_rendered previous out"
    and previous: "\<And>n. from_inventory previous n \<Longrightarrow> n \<in> set (vr_files r)"
  shows "vt (beside r S X) (write_files config r out etag) (\<lambda>_. beside (final_receipt config r out etag) S (written out X)) (vault_inv S)"
proof -
  let ?v = "reserved_receipt r out" and ?fs = "rn_files out" and ?names = "rn_names out"
  let ?Z = "\<lambda>f. X f \<and> (\<forall>n\<in>fst ` set ?fs. n \<notin> set (vr_files r) \<longrightarrow> f n = None)"
  let ?W1 = "\<lambda>f. \<exists>f0. ?Z f0 \<and> f = f0 ++ (\<lambda>k. map_option Plain (map_of ?fs k))"
  let ?W = "\<lambda>f. \<exists>f1. ?W1 f1 \<and> f = (\<lambda>k. if k \<in> set (vr_files ?v) \<and> k \<notin> set ?names then None else f1 k)"
  have sv: "sound_receipt ?v" by (rule sound_reserved [OF assms(1) out])
  have files: "set (vr_files ?v) = set (vr_files r) \<union> set ?names" by (simp add: reserved_receipt_def)
  have errr: "beside r S Y w \<Longrightarrow> vault_inv S w" for Y w by (rule beside_inv [OF _ assms(1)])
  have errv: "beside ?v S Y w \<Longrightarrow> vault_inv S w" for Y w by (rule beside_inv [OF _ sv])
  have refuse: "vt (beside r S X) (withDirectory config r (veach (refuse_new r) (map_keys ?fs))) (\<lambda>_. beside r S ?Z) (vault_inv S)"
  proof (rule vt_directory_inv [OF vt_conseq [OF vt_refuse_all] assms(1)])
    show "inside r S X w \<Longrightarrow> inside r S X w" for w .
    show "inside r S (\<lambda>f. X f \<and> (\<forall>n\<in>set (map_keys ?fs). n \<notin> set (vr_files r) \<longrightarrow> f n = None)) w \<Longrightarrow> inside r S ?Z w" for w
      by simp
  qed (erule errr)
  have reserve: "vt (beside r S ?Z) (saveReceipt ?v) (\<lambda>_. beside ?v S ?Z) (vault_inv S)"
  proof (rule vt_conseq [OF vt_save])
    show "?Z f \<Longrightarrow> n \<in> set (vr_files r) \<Longrightarrow> n \<notin> set (vr_files ?v) \<Longrightarrow> f n = None" for f n by (simp add: files)
    show "f n = None" if "?Z f" "n \<notin> set (vr_files r)" "n \<in> set (vr_files ?v)" for f n
    proof -
      have "n \<in> set ?names" using that(2,3) by (simp add: files)
      then have "n \<in> fst ` set ?fs \<or> from_inventory previous n" using out unfolding well_rendered_def by blast
      then have n: "n \<in> fst ` set ?fs" using previous [of n] that(2) by metis
      from that(1) have "\<forall>n\<in>fst ` set ?fs. n \<notin> set (vr_files r) \<longrightarrow> f n = None" by (rule conjunct2)
      from bspec [OF this n] that(2) show ?thesis by simp
    qed
  qed (auto intro: errr)
  have "vt (inside ?v S ?Z) (veach (\<lambda>n. vbind (verifyFile n) (\<lambda>_. vret ())) (vr_files ?v)) (\<lambda>_. inside ?v S ?Z) (vault_inv S)"
    by (rule vt_conseq [OF vt_verify_all]) (assumption, assumption, erule errv)
  moreover have "vt (inside ?v S ?Z) (veach (\<lambda>(n, c). atomicFile n c) ?fs) (\<lambda>_. inside ?v S ?W1) (vault_inv S)"
  proof (rule vt_conseq [OF vt_write_all])
    show "fst ` set ?fs \<subseteq> set (vr_files ?v)" "distinct (map fst ?fs)" using out by (auto simp: files well_rendered_def)
    show "inside ?v S ?Z w \<Longrightarrow> inside ?v S (\<lambda>f. ?W1 (f ++ (\<lambda>k. map_option Plain (map_of ?fs k)))) w" for w
      by (erule inside_mono) (rule exI, rule conjI, assumption, rule refl)
  qed (assumption, erule errv)
  moreover have "vt (inside ?v S ?W1) (veach (drop_old ?names) (vr_files ?v)) (\<lambda>_. inside ?v S ?W) (vault_inv S)"
  proof (rule vt_conseq [OF vt_drop_all [OF subset_refl]])
    show "inside ?v S ?W1 w \<Longrightarrow> inside ?v S (\<lambda>f. ?W (\<lambda>k. if k \<in> set (vr_files ?v) \<and> k \<notin> set ?names then None else f k)) w" for w
      by (erule inside_mono) (rule exI, rule conjI, assumption, rule refl)
  qed (assumption, erule errv)
  moreover have "vt (inside ?v S ?W) vcall (\<lambda>_. inside ?v S ?W) (vault_inv S)"
    by (rule vt_call, simp) (erule inside_inv [OF _ sv])
  ultimately have fill: "vt (beside ?v S ?Z) (withDirectory config ?v
       (vthen (veach (\<lambda>n. vbind (verifyFile n) (\<lambda>_. vret ())) (vr_files ?v))
         (vthen (veach (\<lambda>(n, c). atomicFile n c) ?fs) (vthen (veach (drop_old ?names) (vr_files ?v)) vcall))))
       (\<lambda>_. beside ?v S ?W) (vault_inv S)"
    by (intro vt_directory_inv [OF _ sv] vt_then)
  have settle: "vt (beside ?v S ?W) (saveReceipt (final_receipt config r out etag)) (\<lambda>_. beside (final_receipt config r out etag) S ?W) (vault_inv S)"
  proof (rule vt_conseq [OF vt_save])
    show "?W f \<Longrightarrow> n \<in> set (vr_files ?v) \<Longrightarrow> n \<notin> set (vr_files (final_receipt config r out etag)) \<Longrightarrow> f n = None" for f n
      by (auto simp: final_receipt_def)
    show "?W f \<Longrightarrow> n \<notin> set (vr_files ?v) \<Longrightarrow> n \<in> set (vr_files (final_receipt config r out etag)) \<Longrightarrow> f n = None" for f n
      by (auto simp: final_receipt_def files)
  qed (auto intro: errv)
  have wr: "written out X f" if "?W f" for f
    using that by (auto simp: written_def map_add_def split: option.split)
  have settle': "vt (beside ?v S ?W) (saveReceipt (final_receipt config r out etag))
      (\<lambda>_. beside (final_receipt config r out etag) S (written out X)) (vault_inv S)"
    by (rule vt_conseq [OF settle]) (assumption, erule beside_mono, erule wr, assumption)
  show ?thesis
    unfolding write_files_steps by (rule vt_then [OF refuse vt_then [OF reserve vt_then [OF fill settle']]])
qed

end
