(* ===== verification/VaultOutcome.thy ===== *)
theory VaultOutcome
  imports VaultGuarantees
begin

text \<open>
  A whole synchronization and the clearing of the Vault files: what holds however they end.
\<close>

section \<open>Steps\<close>

text \<open>Under the receipt that was read: without one nothing is generated; with one, and intact, the generated
  files are those of the receipt.\<close>

definition holding :: "vault_config \<Rightarrow> vault_receipt option \<Rightarrow> bool \<Rightarrow> (string, vault_entry) js_map \<Rightarrow> vault_world \<Rightarrow> bool" where
  "holding config q intact S w \<longleftrightarrow>
     (case q of
        None \<Rightarrow> vw_receipt w = No_receipt \<and> vault_inv S w \<and> \<not> intact
      | Some r \<Rightarrow> sound_receipt r \<and> beside r S (\<lambda>f. intact \<longrightarrow> kept config r f) w)"

lemma holding_inv: "holding config q intact S w \<Longrightarrow> vault_inv S w"
  by (auto simp: holding_def intro: beside_inv split: option.splits)

lemma timeless_holding [simp]: "timeless (holding config q intact S)"
proof (cases q)
  case None
  then show ?thesis using timeless_inv [of S] by (simp add: holding_def timeless_def)
next
  case (Some r)
  then show ?thesis using timeless_beside(1) [of r S "\<lambda>f. intact \<longrightarrow> kept config r f"] by (simp add: holding_def timeless_def)
qed

lemma vt_read:
  "vt (vault_inv S) (readReceipt config) (\<lambda>q w. case q of None \<Rightarrow> vw_receipt w = No_receipt \<and> vault_inv S w
     | Some r \<Rightarrow> sound_receipt r \<and> beside r S (\<lambda>_. True) w) (vault_inv S)"
proof (rule vtI)
  fix w assume I: "vault_inv S w"
  have J: "vault_inv S (w\<lparr>vw_budget := n\<rparr>)" for n
    using I by (simp add: vault_inv_def strays_def generated_def sound_world_def dir_entries_def)
  show "case readReceipt config w of (None, w') \<Rightarrow> vault_inv S w'
    | (Some q, w') \<Rightarrow> case q of None \<Rightarrow> vw_receipt w' = No_receipt \<and> vault_inv S w' | Some r \<Rightarrow> sound_receipt r \<and> beside r S (\<lambda>_. True) w'"
    using I J
    by (auto simp: readReceipt_def readReceiptFile_def vault_op_defs beside_def vault_inv_def strays_def generated_def sound_world_def
        dir_entries_def split: receipt_file.splits nat.split)
qed

lemma vt_all_intact:
  "vt (inside r S X) (all_intact config r ns)
     (\<lambda>b. inside r S (\<lambda>f. X f \<and> (b \<longrightarrow> (\<forall>n\<in>set ns. \<exists>c. f n = Some (Plain c) \<and> map_get (vr_digests r) n = Some (vc_sha256 config c)))))
     (beside r S (\<lambda>_. True))"
proof (induction ns arbitrary: X)
  case (Cons n ns)
  let ?ok = "\<lambda>f n. \<exists>c. f n = Some (Plain c) \<and> map_get (vr_digests r) n = Some (vc_sha256 config c)"
  show ?case
    unfolding all_intact.simps
  proof (rule vt_bind [OF vt_digest])
    fix d
    let ?X = "\<lambda>f. X f \<and> (\<forall>x. d = Some x \<longrightarrow> (\<exists>c. f n = Some (Plain c) \<and> x = vc_sha256 config c))"
    show "vt (inside r S ?X) (if d = map_get (vr_digests r) n \<and> d \<noteq> None then all_intact config r ns else vret False)
      (\<lambda>b. inside r S (\<lambda>f. X f \<and> (b \<longrightarrow> (\<forall>n\<in>set (n # ns). ?ok f n)))) (beside r S (\<lambda>_. True))"
    proof (cases "d = map_get (vr_digests r) n \<and> d \<noteq> None")
      case True
      then have "?X f \<Longrightarrow> ?ok f n" for f by auto
      then show ?thesis using True by (auto intro!: vt_conseq [OF Cons.IH [of ?X]] elim!: inside_mono)
    next
      case False
      then show ?thesis by (simp only: if_False) (rule vt_ret, erule inside_mono, simp)
    qed
  qed
qed (simp add: vt_ret inside_mono)

lemma vt_intact:
  "vt (\<lambda>w. case q of None \<Rightarrow> vw_receipt w = No_receipt \<and> vault_inv S w | Some r \<Rightarrow> sound_receipt r \<and> beside r S (\<lambda>_. True) w)
     (check_intact config q) (\<lambda>intact. holding config q intact S) (vault_inv S)"
proof (cases q)
  case None
  then show ?thesis by (simp add: check_intact_def holding_def vt_ret)
next
  case (Some r)
  show ?thesis
  proof (cases "sound_receipt r")
    case True
    have "vt (inside r S (\<lambda>_. True)) (all_intact config r (vr_files r)) (\<lambda>b. holding config q b S) (vault_inv S)"
      by (rule vt_conseq [OF vt_all_intact])
        (auto simp: holding_def Some True kept_def intro: beside_inv elim!: beside_mono [OF inside_beside])
    then have "vt (beside r S (\<lambda>_. True)) (withDirectory config r (all_intact config r (vr_files r))) (\<lambda>b. holding config q b S) (vault_inv S)"
      by (rule vt_directory) (rule beside_inv [OF _ True])
    then show ?thesis by (simp add: check_intact_def Some True)
  qed (simp add: Some vt_def)
qed

lemma vt_initialize:
  "vt (holding config None intact S) (initialize config) (\<lambda>r w. sound_receipt r \<and> vr_inventory r = [] \<and> beside r S (\<lambda>_. True) w) (vault_inv S)"
proof -
  have sound: "sound_receipt (empty_receipt config)" by (simp add: sound_receipt_def empty_receipt_def index_files_def)
  let ?D = "\<lambda>w. vw_receipt w = No_receipt \<and> dir_entries w = [] \<and> S = []"
  have make: "vt (holding config None intact S) (make_directory config) (\<lambda>_. ?D) (vault_inv S)"
    unfolding make_directory_def
  proof (rule vt_then [OF vt_call], simp, erule holding_inv)
    show "vt (holding config None intact S) (vbind (vgets vw_dir) (\<lambda>dir. if dir \<noteq> None then vfail
       else vmodify (\<lambda>w. w\<lparr>vw_dir := Some \<lparr>vd_inode = vc_inode config, vd_private = True, vd_entries = []\<rparr>\<rparr>))) (\<lambda>_. ?D) (vault_inv S)"
      by (auto simp: vt_def vault_op_defs holding_def vault_inv_def strays_def generated_def dir_entries_def)
  qed
  have save: "vt ?D (saveReceipt (empty_receipt config)) (\<lambda>_. beside (empty_receipt config) S (\<lambda>_. True)) (vault_inv S)"
    unfolding saveReceipt_def
    by (rule vt_then [OF vt_call], simp add: timeless_def dir_entries_def,
        simp add: vault_inv_def strays_def generated_def sound_world_def, rule vt_modify, simp add: beside_def dir_entries_def)
  show ?thesis
    unfolding initialize_def
    apply (rule vt_then [OF vt_guard [where Q = "\<lambda>_. holding config None intact S"]], erule holding_inv, assumption)
    apply (rule vt_then [OF vt_tracked], simp, erule holding_inv)
    apply (rule vt_then [OF vt_guard [where Q = "\<lambda>_. holding config None intact S"]], erule holding_inv, assumption)
    by (rule vt_then [OF make vt_then [OF save vt_ret]]) (use sound in \<open>simp add: empty_receipt_def\<close>)
qed

section \<open>A synchronized directory\<close>

definition in_sync :: "vault_config \<Rightarrow> vault_world \<Rightarrow> bool" where
  "in_sync config w \<longleftrightarrow> (\<exists>r. vw_receipt w = Receipt r \<and>
     (\<forall>n\<in>set (vr_files r). \<exists>c. map_get (dir_entries w) n = Some (Plain c) \<and> map_get (vr_digests r) n = Some (vc_sha256 config c)))"

definition reflects :: "vault_config \<Rightarrow> vault_snapshot \<Rightarrow> vault_world \<Rightarrow> bool" where
  "reflects config snapshot w \<longleftrightarrow>
     list_all (\<lambda>n. n = GITIGNORE \<or> n = INDEX_JSON \<or> uuid_of_file n \<in> set (map vt_id (sn_vaults snapshot))) (generated w) \<and>
     list_all (\<lambda>v. list_all (\<lambda>(n, c). map_get (dir_entries w) n = Some (Plain c)) (section_entries config v)) (sn_vaults snapshot)"

lemma new_digests_get:
  "n \<in> set (rn_names out) \<Longrightarrow>
     map_get (new_digests config r out) n =
       (case map_get (rn_files out) n of Some c \<Rightarrow> Some (vc_sha256 config c) | None \<Rightarrow> map_get (vr_digests r) n)"
proof -
  let ?d = "\<lambda>n. case map_get (rn_files out) n of Some c \<Rightarrow> Some (vc_sha256 config c) | None \<Rightarrow> map_get (vr_digests r) n"
  have "map_get (fold (\<lambda>n m. case ?d n of None \<Rightarrow> m | Some d \<Rightarrow> map_set n d m) ns m) n =
      (if n \<in> set ns then (case ?d n of None \<Rightarrow> map_get m n | Some d \<Rightarrow> Some d) else map_get m n)" for ns m
    by (induction ns arbitrary: m) (auto split: option.splits)
  then show "n \<in> set (rn_names out) \<Longrightarrow> ?thesis" by (auto simp: new_digests_def split: option.splits)
qed

lemma written_in_sync:
  assumes "beside (final_receipt config r out etag) S (written out X) w" and out: "well_rendered previous out"
    and "\<And>f n. X f \<Longrightarrow> from_inventory previous n \<Longrightarrow> n \<noteq> INDEX_JSON \<Longrightarrow>
      \<exists>c. f n = Some (Plain c) \<and> map_get (vr_digests r) n = Some (vc_sha256 config c)"
  shows "in_sync config w"
proof -
  from assms(1) obtain f0 where receipt: "vw_receipt w = Receipt (final_receipt config r out etag)" and "X f0"
    and f: "\<And>n. n \<in> set (rn_names out) \<Longrightarrow>
      map_get (dir_entries w) n = (case map_get (rn_files out) n of Some c \<Rightarrow> Some (Plain c) | None \<Rightarrow> f0 n)"
    by (auto simp: beside_def written_def)
  have "\<exists>c. map_get (dir_entries w) n = Some (Plain c) \<and> map_get (new_digests config r out) n = Some (vc_sha256 config c)"
    if n: "n \<in> set (rn_names out)" for n
  proof (cases "map_get (rn_files out) n")
    case None
    then have "n \<notin> fst ` set (rn_files out)" by (simp add: map_of_eq_None_iff)
    then have "from_inventory previous n" "n \<noteq> INDEX_JSON" using out n unfolding well_rendered_def by metis+
    from assms(3) [OF \<open>X f0\<close> this] show ?thesis by (simp add: f [OF n] new_digests_get [OF n] None)
  qed (simp add: f [OF n] new_digests_get [OF n])
  then show ?thesis by (simp add: in_sync_def receipt) (simp add: final_receipt_def)
qed

lemma written_reflects:
  assumes "beside (final_receipt config r out etag) S (written out X) w" and "render_snapshot config snapshot previous = Some out"
    and "uuid_ids snapshot" and "sound_previous previous" and "sections_apart config (sn_vaults snapshot)"
  shows "reflects config snapshot w"
proof -
  note facts = render_facts [OF assms(2-4)]
  note out = facts [THEN conjunct1] and ids = facts [THEN conjunct2, THEN conjunct1]
  note all = facts [THEN conjunct2, THEN conjunct2, THEN mp, OF assms(5)]
  have get: "map_get (rn_files out) n = Some c" if "v \<in> set (sn_vaults snapshot)" "(n, c) \<in> set (section_entries config v)" for v n c
    using bspec [OF bspec [OF all that(1)] that(2)] by simp
  have "map_get (dir_entries w) n = Some (Plain c)" if "v \<in> set (sn_vaults snapshot)" "(n, c) \<in> set (section_entries config v)" for v n c
  proof -
    from get [OF that] have g: "map_get (rn_files out) n = Some c" .
    have "fst ` set (rn_files out) \<subseteq> set (rn_names out)" using out unfolding well_rendered_def by blast
    moreover have "n \<in> fst ` set (rn_files out)" using map_get_SomeD [OF g] by (rule rev_image_eqI) simp
    ultimately have "n \<in> set (rn_names out)" by blast
    then show ?thesis using assms(1) g by (auto simp: beside_def written_def)
  qed
  moreover have "n = GITIGNORE \<or> n = INDEX_JSON \<or> uuid_of_file n \<in> set (map vt_id (sn_vaults snapshot))" if "n \<in> set (rn_names out)" for n
  proof -
    have "set (rn_names out) = {GITIGNORE, INDEX_JSON} \<union> set (index_files (rn_inventory out))"
      and uuid: "\<And>e s. e \<in> set (rn_inventory out) \<Longrightarrow> s \<in> set (iv_sections e) \<Longrightarrow> uuid_of_file (is_file s) = iv_id e"
      using out unfolding well_rendered_def by blast+
    then consider "n = GITIGNORE \<or> n = INDEX_JSON" | "n \<in> set (index_files (rn_inventory out))" using \<open>n \<in> set (rn_names out)\<close> by blast
    then show ?thesis
    proof cases
      case 2
      then obtain e s where "e \<in> set (rn_inventory out)" "s \<in> set (iv_sections e)" "n = is_file s" by (auto simp: index_files_def)
      then have "uuid_of_file n \<in> set (map iv_id (rn_inventory out))" using uuid by simp
      then show ?thesis by (simp only: ids simp_thms)
    qed blast
  qed
  moreover have "generated w = rn_names out" using assms(1) by (simp add: beside_def generated_def final_receipt_def)
  ultimately show ?thesis by (auto simp: reflects_def list_all_iff)
qed

section \<open>What is asked and answered\<close>

definition valid_replies :: "vault_cloud \<Rightarrow> bool" where
  "valid_replies cloud \<longleftrightarrow>
     (\<forall>tag revisions m s. vq_material cloud tag revisions = Some m \<and> rp_body m = Some s \<longrightarrow> uuid_ids s)"

text \<open>The dialogue of a synchronization that begins in \<open>w\<close>, told from \<open>w\<close> alone: the receipt it reads, whether every
  file of the receipt is there with the recorded digest, the listing the Cloud answers to the entity tag that
  is usable then, and the material it answers to the tag of the listing and the revisions already here.\<close>

definition receipt_at :: "vault_world \<Rightarrow> vault_receipt option" where
  "receipt_at w = (case vw_receipt w of Receipt r \<Rightarrow> Some r | _ \<Rightarrow> None)"

definition recorded :: "vault_config \<Rightarrow> vault_receipt \<Rightarrow> vault_world \<Rightarrow> string \<Rightarrow> bool" where
  "recorded config r w n \<longleftrightarrow>
     (case map_get (dir_entries w) n of
        Some (Plain c) \<Rightarrow> map_get (vr_digests r) n = Some (vc_sha256 config c)
      | _ \<Rightarrow> False)"

definition intact_at :: "vault_config \<Rightarrow> vault_world \<Rightarrow> bool" where
  "intact_at config w \<longleftrightarrow> (case receipt_at w of None \<Rightarrow> False | Some r \<Rightarrow> list_all (recorded config r w) (vr_files r))"

definition listing_reply :: "vault_config \<Rightarrow> vault_cloud \<Rightarrow> vault_world \<Rightarrow> vault_reply option" where
  "listing_reply config cloud w = vq_metadata cloud (usable_etag (intact_at config w) (receipt_at w))"

definition after_pruning :: "vault_receipt option \<Rightarrow> vault_snapshot \<Rightarrow> vault_receipt option" where
  "after_pruning q metadata =
     map_option (\<lambda>r. if list_ex (prunable (map vt_id (sn_vaults metadata))) (vr_files r) then pruned (map vt_id (sn_vaults metadata)) r else r) q"

definition known_revisions :: "bool \<Rightarrow> vault_receipt option \<Rightarrow> (string \<times> string) list" where
  "known_revisions intact q =
     (case q of Some r \<Rightarrow> if intact then map (\<lambda>v. (iv_id v, iv_revision v)) (vr_inventory r) else [] | None \<Rightarrow> [])"

definition material_reply :: "vault_config \<Rightarrow> vault_cloud \<Rightarrow> vault_world \<Rightarrow> vault_reply option" where
  "material_reply config cloud w =
     (case listing_reply config cloud w of
        None \<Rightarrow> None
      | Some listing \<Rightarrow>
          (case (rp_etag listing, rp_body listing) of
             (Some tag, Some metadata) \<Rightarrow>
               vq_material cloud tag (known_revisions (intact_at config w) (after_pruning (receipt_at w) metadata))
           | _ \<Rightarrow> None))"

definition untouched :: "vault_world \<Rightarrow> vault_world \<Rightarrow> bool" where
  "untouched w0 w \<longleftrightarrow> vw_dir w = vw_dir w0 \<and> vw_receipt w = vw_receipt w0"

text \<open>What each answer stands for.\<close>

definition synced :: "vault_config \<Rightarrow> vault_cloud \<Rightarrow> vault_world \<Rightarrow> vault_world \<Rightarrow> bool" where
  "synced config cloud w0 w \<longleftrightarrow> in_sync config w \<and>
     (\<exists>m s. material_reply config cloud w0 = Some m \<and> ok_status (rp_status m) \<and> rp_body m = Some s \<and>
        (sections_apart config (sn_vaults s) \<longrightarrow> reflects config s w))"

definition refused :: "vault_config \<Rightarrow> vault_cloud \<Rightarrow> vault_world \<Rightarrow> bool" where
  "refused config cloud w0 \<longleftrightarrow>
     (\<exists>m. (listing_reply config cloud w0 = Some m \<or> material_reply config cloud w0 = Some m) \<and> rp_status m \<in> {401, 403})"

definition deferred :: "vault_config \<Rightarrow> vault_cloud \<Rightarrow> vault_world \<Rightarrow> vault_world \<Rightarrow> bool" where
  "deferred config cloud w0 w \<longleftrightarrow>
     (\<exists>l s m. listing_reply config cloud w0 = Some l \<and> rp_body l = Some s \<and>
        material_reply config cloud w0 = Some m \<and> rp_status m = 409 \<and>
        list_all (\<lambda>n. \<not> prunable (map vt_id (sn_vaults s)) n) (generated w))"

definition unchanged :: "vault_config \<Rightarrow> vault_cloud \<Rightarrow> vault_world \<Rightarrow> vault_world \<Rightarrow> bool" where
  "unchanged config cloud w0 w \<longleftrightarrow>
     in_sync config w \<and> untouched w0 w \<and> (\<exists>l. listing_reply config cloud w0 = Some l \<and> rp_status l = 304)"

definition outcome :: "vault_config \<Rightarrow> vault_cloud \<Rightarrow> vault_world \<Rightarrow> (string, vault_entry) js_map \<Rightarrow> sync_result \<Rightarrow> vault_world \<Rightarrow> bool" where
  "outcome config cloud w0 S result w \<longleftrightarrow>
     vault_inv S w \<and>
     (case result of
        Synced \<Rightarrow> synced config cloud w0 w
      | Revoked \<Rightarrow> generated w = [] \<and> refused config cloud w0
      | Deferred \<Rightarrow> deferred config cloud w0 w
      | Unchanged \<Rightarrow> unchanged config cloud w0 w)"

section \<open>Reading changes nothing\<close>

lemma timeless_untouched [simp]: "timeless (untouched w0)"
  by (simp add: timeless_def untouched_def)

lemma timeless_conj: "timeless P \<Longrightarrow> timeless Q \<Longrightarrow> timeless (\<lambda>w. P w \<and> Q w)"
  by (simp add: timeless_def)

lemma vt_conj:
  "vt P m Q E \<Longrightarrow> vt P' m Q' E' \<Longrightarrow> vt (\<lambda>w. P w \<and> P' w) m (\<lambda>x w. Q x w \<and> Q' x w) (\<lambda>w. E w \<and> E' w)"
  by (auto simp: vt_def split: prod.splits option.splits)

lemma vt_top: "vt (\<lambda>_. True) m (\<lambda>_ _. True) (\<lambda>_. True)"
  by (simp add: vt_def split: prod.split option.split)

lemma untouched_reads: "untouched w0 w \<Longrightarrow> dir_entries w = dir_entries w0 \<and> receipt_at w = receipt_at w0"
  by (simp add: untouched_def dir_entries_def receipt_at_def)

lemma vt_read_same: "vt (untouched w0) (readReceipt config) (\<lambda>q w. q = receipt_at w0 \<and> untouched w0 w) (\<lambda>_. True)"
  by (auto simp: vt_def readReceipt_def readReceiptFile_def vault_op_defs untouched_def receipt_at_def split: receipt_file.split nat.split)

lemma vt_digest_same:
  "vt (untouched w0) (fileDigest config n)
     (\<lambda>d w. untouched w0 w \<and> d = (case map_get (dir_entries w0) n of Some (Plain c) \<Rightarrow> Some (vc_sha256 config c) | _ \<Rightarrow> None)) (\<lambda>_. True)"
  unfolding fileDigest_def
proof (rule vt_then [OF vt_call [OF timeless_untouched]], simp)
  show "vt (untouched w0) (vbind (vgets dir_entries) (\<lambda>es. case map_get es n of None \<Rightarrow> vret None
      | Some (Plain content) \<Rightarrow> vthen (vguard (length (utf8 content) \<le> MAX_FILE_BYTES)) (vret (Some (vc_sha256 config content)))
      | Some Odd \<Rightarrow> vfail))
     (\<lambda>d w. untouched w0 w \<and> d = (case map_get (dir_entries w0) n of Some (Plain c) \<Rightarrow> Some (vc_sha256 config c) | _ \<Rightarrow> None)) (\<lambda>_. True)"
    by (auto simp: vt_def vault_op_defs untouched_reads split: option.splits vault_entry.splits)
qed

lemma vt_all_intact_same:
  "vt (untouched w0) (all_intact config r ns) (\<lambda>b w. b = list_all (recorded config r w0) ns \<and> untouched w0 w) (\<lambda>_. True)"
proof (induction ns)
  case (Cons n ns)
  show ?case
    unfolding all_intact.simps
  proof (rule vt_bind [OF vt_digest_same])
    fix d
    let ?d = "case map_get (dir_entries w0) n of Some (Plain c) \<Rightarrow> Some (vc_sha256 config c) | _ \<Rightarrow> None"
    show "vt (\<lambda>w. untouched w0 w \<and> d = ?d) (if d = map_get (vr_digests r) n \<and> d \<noteq> None then all_intact config r ns else vret False)
       (\<lambda>b w. b = list_all (recorded config r w0) (n # ns) \<and> untouched w0 w) (\<lambda>_. True)"
    proof (cases "d = ?d")
      case True
      have rec: "recorded config r w0 n \<longleftrightarrow> d = map_get (vr_digests r) n \<and> d \<noteq> None"
        unfolding True by (auto simp: recorded_def split: option.split vault_entry.split)
      have "vt (untouched w0) (if recorded config r w0 n then all_intact config r ns else vret False)
          (\<lambda>b w. b = list_all (recorded config r w0) (n # ns) \<and> untouched w0 w) (\<lambda>_. True)"
        using Cons.IH by (auto intro: vt_ret)
      from this [unfolded rec] show ?thesis by (rule vt_pre) (rule conjunct1)
    qed (simp add: vt_def)
  qed
qed (simp add: vt_ret)

lemma vt_directory_same:
  "vt (untouched w0) m Q (\<lambda>_. True) \<Longrightarrow> vt (untouched w0) (withDirectory config r m) Q (\<lambda>_. True)"
  unfolding withDirectory_def
  by (rule vt_then [OF vt_call [OF timeless_untouched]], simp, rule vt_bind [OF vt_gets [where Q = "\<lambda>_. untouched w0"]], assumption)
    (auto split: option.split intro: vt_fail vt_then [OF vt_guard [where Q = "\<lambda>_. untouched w0"]])

lemma vt_intact_same:
  "vt (untouched w0) (check_intact config (receipt_at w0)) (\<lambda>b w. b = intact_at config w0 \<and> untouched w0 w) (\<lambda>_. True)"
proof (cases "receipt_at w0")
  case (Some r)
  then show ?thesis using vt_directory_same [OF vt_all_intact_same [of w0 config r "vr_files r"]] by (simp add: check_intact_def intact_at_def)
qed (simp add: check_intact_def intact_at_def vt_ret)

lemma vt_pruning_same: "vt (\<lambda>_. True) (pruneRevoked config q metadata) (\<lambda>q' _. q' = after_pruning q metadata) (\<lambda>_. True)"
proof (cases q)
  case (Some r)
  let ?allowed = "map vt_id (sn_vaults metadata)"
  have same: "filter (\<lambda>n. n \<notin> set (filter (prunable ?allowed) (vr_files r))) (vr_files r) = filter (\<lambda>n. \<not> prunable ?allowed n) (vr_files r)"
    by (rule filter_cong) auto
  show ?thesis
  proof (cases "filter (prunable ?allowed) (vr_files r) = []")
    case True
    then have "after_pruning q metadata = Some r" by (auto simp: Some after_pruning_def list_ex_iff filter_empty_conv)
    then show ?thesis
      unfolding Some pruneRevoked_def option.case Let_def if_P [OF True] by (intro vt_then [OF vt_top vt_ret]) (simp add: Some)
  next
    case False
    then have "after_pruning q metadata = Some (pruned ?allowed r)" by (auto simp: Some after_pruning_def list_ex_iff filter_empty_conv)
    then show ?thesis
      unfolding Some pruneRevoked_def option.case Let_def if_not_P [OF False] same
      by (intro vt_then [OF vt_top vt_then [OF vt_top vt_then [OF vt_top vt_then [OF vt_top vt_ret]]]]) (simp add: Some pruned_def)
  qed
qed (simp add: pruneRevoked_def after_pruning_def vt_ret)

section \<open>The whole operation\<close>

lemma vt_ask: "timeless P \<Longrightarrow> (\<And>w. P w \<Longrightarrow> E w) \<Longrightarrow> vt P (ask reply) (\<lambda>r w. reply = Some r \<and> P w) E"
  unfolding ask_def by (rule vt_then [OF vt_call]) (auto split: option.split intro: vt_fail vt_ret)

lemma vt_assume: "(A \<Longrightarrow> vt P m Q E) \<Longrightarrow> vt (\<lambda>w. A \<and> P w) m Q E"
  by (auto simp: vt_def)

lemma material_valid:
  assumes "valid_replies cloud" and "material_reply config cloud w0 = Some m" and "rp_body m = Some s"
  shows "uuid_ids s"
  using assms unfolding material_reply_def valid_replies_def by (auto split: option.splits)

lemma vt_accept:
  assumes "valid_replies cloud" and "material_reply config cloud w0 = Some material" and "ok_status (rp_status material)"
  shows "vt (holding config q intact S) (accept_material config intact q metadata etag material) (outcome config cloud w0 S) (vault_inv S)"
proof (cases "rp_body material")
  case None
  then show ?thesis by (auto simp: accept_material_def intro: vt_fail holding_inv)
next
  case (Some snapshot)
  let ?H = "holding config q intact S" and ?previous = "if intact then q else None"
  let ?put = "\<lambda>out. vbind (case q of Some r \<Rightarrow> vthen (checkTracked config) (vret r) | None \<Rightarrow> initialize config) (\<lambda>r.
                   vthen (write_files config r out etag) (vret Synced))"
  have uuid: "uuid_ids snapshot" using material_valid [OF assms(1,2)] Some by blast
  have put: "vt ?H (?put out) (outcome config cloud w0 S) (vault_inv S)" if render_snapshot: "render_snapshot config snapshot ?previous = Some out" for out
  proof (cases "q = None \<or> (\<exists>r. q = Some r \<and> sound_receipt r)")
    case True
    have previous: "sound_previous ?previous" using True by (auto simp: sound_previous_def)
    have out: "well_rendered ?previous out" using render_facts [OF render_snapshot uuid previous] by blast
    let ?X = "\<lambda>r f. intact \<longrightarrow> kept config r f"
    let ?R = "\<lambda>r w. sound_receipt r \<and> (\<forall>p. ?previous = Some p \<longrightarrow> r = p) \<and> beside r S (?X r) w"
    have choose: "vt ?H (case q of Some r \<Rightarrow> vthen (checkTracked config) (vret r) | None \<Rightarrow> initialize config) ?R (vault_inv S)"
    proof (cases q)
      case None
      show ?thesis
      proof (cases intact)
        case True
        then show ?thesis by (simp add: None vt_def holding_def)
      next
        case False
        then show ?thesis unfolding None option.case by (intro vt_conseq [OF vt_initialize [of config intact]]) auto
      qed
    next
      case (Some r)
      have "vt ?H (vthen (checkTracked config) (vret r)) ?R (vault_inv S)"
        by (rule vt_then [OF vt_tracked [OF timeless_holding holding_inv]], assumption, rule vt_ret) (auto simp: Some holding_def)
      then show ?thesis by (simp add: Some)
    qed
    have fill: "vt (?R r) (vthen (write_files config r out etag) (vret Synced)) (outcome config cloud w0 S) (vault_inv S)" for r
    proof (rule vt_pre [where P' = "\<lambda>w. (sound_receipt r \<and> (\<forall>p. ?previous = Some p \<longrightarrow> r = p)) \<and> beside r S (?X r) w"], rule vt_assume)
      assume r: "sound_receipt r \<and> (\<forall>p. ?previous = Some p \<longrightarrow> r = p)"
      have inv: "from_inventory ?previous n \<Longrightarrow> n \<in> set (vr_files r) \<and> intact" for n
        using r by (auto simp: from_inventory_def sound_receipt_def split: if_splits)
      have ended: "outcome config cloud w0 S Synced w" if w: "beside (final_receipt config r out etag) S (written out (?X r)) w" for w
      proof -
        have "in_sync config w"
          by (rule written_in_sync [OF w out]) (use inv in \<open>auto simp: kept_def\<close>)
        moreover have "sections_apart config (sn_vaults snapshot) \<longrightarrow> reflects config snapshot w"
          using written_reflects [OF w render_snapshot uuid previous] by blast
        ultimately show ?thesis using beside_inv [OF w sound_final [OF out]] by (auto simp: outcome_def synced_def assms(2,3) Some)
      qed
      show "vt (beside r S (?X r)) (vthen (write_files config r out etag) (vret Synced)) (outcome config cloud w0 S) (vault_inv S)"
        by (rule vt_then [OF vt_write_files [OF _ out] vt_ret]) (use r inv ended in auto)
    qed auto
    show ?thesis by (rule vt_bind [OF choose fill])
  qed (auto simp: vt_def holding_def split: option.splits)
  show ?thesis
    unfolding accept_material_def Some option.case
    apply (rule vt_then [OF vt_guard [where Q = "\<lambda>_. ?H"]], erule holding_inv, assumption)
    apply (rule vt_then [OF vt_current], simp, erule holding_inv)
    by (cases "render_snapshot config snapshot ?previous") (auto intro: vt_fail holding_inv put)
qed

lemma vt_revoked:
  assumes "refused config cloud w0"
  shows "vt (holding config q intact S) (vthen (revoke config q) (vret Revoked)) (outcome config cloud w0 S) (vault_inv S)"
proof (cases q)
  case None
  then show ?thesis
    unfolding None revoke_def option.case by (intro vt_then [OF vt_ret vt_ret]) (auto simp: holding_def outcome_def generated_def assms)
next
  case (Some r)
  show ?thesis
  proof (cases "sound_receipt r")
    case True
    show ?thesis
      unfolding Some
    proof (rule vt_then [OF vt_pre [OF vt_revoke [OF True, of S "\<lambda>f. intact \<longrightarrow> kept config r f"]] vt_ret])
      show "outcome config cloud w0 S Revoked w" if w: "beside (forgotten_receipt r) S (\<lambda>f. \<forall>n\<in>set (vr_files r). f n = None) w" for w
        using beside_inv [OF w] w assms by (simp add: outcome_def beside_def generated_def) (simp add: forgotten_receipt_def)
    qed (simp add: holding_def)
  qed (simp add: Some vt_def holding_def)
qed

lemma vt_material:
  assumes "valid_replies cloud" and listing: "listing_reply config cloud w0 = Some listing" "rp_etag listing = Some tag" "rp_body listing = Some metadata"
    and q: "q = after_pruning (receipt_at w0) metadata" and intact: "intact = intact_at config w0"
  shows "vt (\<lambda>w. holding config q intact S w \<and> list_all (\<lambda>n. \<not> prunable (map vt_id (sn_vaults metadata)) n) (generated w))
    (fetch_material config cloud intact q metadata tag) (outcome config cloud w0 S) (vault_inv S)" (is "vt ?P _ _ _")
proof -
  have t: "timeless ?P" using timeless_holding [of config q intact S] by (simp add: timeless_def generated_def)
  have e: "?P w \<Longrightarrow> vault_inv S w" for w by (auto intro: holding_inv)
  have asked: "material_reply config cloud w0 = vq_material cloud tag (known_revisions intact q)"
    by (simp add: material_reply_def listing q intact)
  show ?thesis
    unfolding fetch_material_def known_revisions_def [symmetric] asked [symmetric]
  proof (rule vt_bind [OF vt_ask [OF t e]], assumption, rule vt_assume, rule vt_then [OF vt_current [OF t e]], assumption)
    fix material assume m: "material_reply config cloud w0 = Some material"
    have revoked: "vt ?P (vthen (revoke config q) (vret Revoked)) (outcome config cloud w0 S) (vault_inv S)" if "rp_status material \<in> {401, 403}"
      by (rule vt_pre [OF vt_revoked]) (use m that in \<open>auto simp: refused_def\<close>)
    have accepted: "vt ?P (accept_material config intact q metadata tag material) (outcome config cloud w0 S) (vault_inv S)"
      if "ok_status (rp_status material)"
      by (rule vt_pre [OF vt_accept [OF assms(1) m that]]) auto
    have deferred: "vt ?P (vret Deferred) (outcome config cloud w0 S) (vault_inv S)" if "rp_status material = 409"
      using listing m that by (intro vt_ret) (auto simp: outcome_def deferred_def intro: holding_inv)
    show "vt ?P (if rp_status material \<in> {401, 403} then vthen (revoke config q) (vret Revoked)
          else if rp_status material = 409 then vret Deferred
          else if \<not> ok_status (rp_status material) then vfail
          else accept_material config intact q metadata tag material) (outcome config cloud w0 S) (vault_inv S)"
    proof (cases "rp_status material \<in> {401, 403}")
      case True
      then show ?thesis by (simp only: if_True) (rule revoked)
    next
      case False
      then show ?thesis using accepted deferred by (simp only: if_False) (auto intro: vt_fail e)
    qed
  qed
qed

lemma vt_pruning:
  "vt (holding config q intact S) (pruneRevoked config q metadata)
     (\<lambda>q' w. q' = after_pruning q metadata \<and>
       holding config q' intact S w \<and> list_all (\<lambda>n. \<not> prunable (map vt_id (sn_vaults metadata)) n) (generated w)) (vault_inv S)"
proof -
  have "vt (holding config q intact S) (pruneRevoked config q metadata)
     (\<lambda>q' w. holding config q' intact S w \<and> list_all (\<lambda>n. \<not> prunable (map vt_id (sn_vaults metadata)) n) (generated w)) (vault_inv S)"
  proof (cases q)
    case None
    then show ?thesis by (simp add: pruneRevoked_def) (rule vt_ret, simp add: holding_def generated_def)
  next
    case (Some r)
    show ?thesis
    proof (cases "sound_receipt r")
      case True
      have start: "vt (holding config q intact S) (pruneRevoked config q metadata)
        (\<lambda>q'. \<lambda>w. \<exists>r'. q' = Some r' \<and> sound_receipt r' \<and> list_all (\<lambda>n. \<not> prunable (map vt_id (sn_vaults metadata)) n) (vr_files r') \<and>
         beside r' S (\<lambda>f. unlisted_gone (map vt_id (sn_vaults metadata)) r f \<and>
           (\<exists>f0. (intact \<longrightarrow> kept config r f0) \<and> (kept config r f0 \<longrightarrow> kept config r' f))) w) (vault_inv S)"
        unfolding Some by (rule vt_pre [OF vt_prune [OF True]]) (simp add: holding_def)
      show ?thesis
        by (rule vt_conseq [OF start])
          (auto simp: Some holding_def generated_def list_all_iff beside_def)
    qed (simp add: Some vt_def holding_def)
  qed
  from vt_conj [OF vt_pruning_same this] show ?thesis by (rule vt_conseq) auto
qed

lemma recorded_iff:
  "recorded config r w n \<longleftrightarrow> (\<exists>c. map_get (dir_entries w) n = Some (Plain c) \<and> map_get (vr_digests r) n = Some (vc_sha256 config c))"
  by (auto simp: recorded_def split: option.split vault_entry.split)

lemma intact_in_sync:
  assumes "intact_at config w0" and "untouched w0 w"
  shows "in_sync config w"
proof -
  obtain r where "vw_receipt w0 = Receipt r" "list_all (recorded config r w0) (vr_files r)"
    using assms(1) by (auto simp: intact_at_def receipt_at_def split: receipt_file.splits)
  then show ?thesis using assms(2) untouched_reads [OF assms(2)] by (simp add: in_sync_def list_all_iff recorded_iff untouched_def)
qed

text \<open>After the two readings: the receipt and its state are those of the world the synchronization began in.\<close>

lemma vt_opening:
  "vt (\<lambda>w. vault_inv S w \<and> untouched w0 w) (readReceipt config)
     (\<lambda>q w. (case q of None \<Rightarrow> vw_receipt w = No_receipt \<and> vault_inv S w | Some r \<Rightarrow> sound_receipt r \<and> beside r S (\<lambda>_. True) w) \<and>
       q = receipt_at w0 \<and> untouched w0 w) (vault_inv S)"
  by (rule vt_conseq [OF vt_conj [OF vt_read vt_read_same]]) auto

lemma vt_opened:
  "vt (\<lambda>w. (case q of None \<Rightarrow> vw_receipt w = No_receipt \<and> vault_inv S w | Some r \<Rightarrow> sound_receipt r \<and> beside r S (\<lambda>_. True) w) \<and>
       q = receipt_at w0 \<and> untouched w0 w) (check_intact config q)
     (\<lambda>intact w. (q = receipt_at w0 \<and> intact = intact_at config w0) \<and> holding config q intact S w \<and> untouched w0 w) (vault_inv S)"
proof (cases "q = receipt_at w0")
  case True
  show ?thesis unfolding True by (rule vt_conseq [OF vt_conj [OF vt_intact vt_intact_same]]) auto
qed (simp add: vt_def)

lemma vt_listed:
  assumes "valid_replies cloud" and listing: "listing_reply config cloud w0 = Some response"
    and q: "q = receipt_at w0" and intact: "intact = intact_at config w0"
  shows "vt (\<lambda>w. holding config q intact S w \<and> untouched w0 w)
    (if rp_status response = 304 then (if or_else (usable_etag intact q) [] = [] then vfail else vret Unchanged)
         else if rp_status response \<in> {401, 403} then vthen (revoke config q) (vret Revoked)
         else if \<not> ok_status (rp_status response) then vfail
         else (case (rp_etag response, rp_body response) of
             (Some tag, Some metadata) \<Rightarrow>
               vthen (assertCurrent config)
               (vthen (vguard (sn_agent_id metadata = vc_agentId config \<and>
                   (case vc_connected config of None \<Rightarrow> True | Some c \<Rightarrow> sn_user_id metadata = ca_userId c)))
               (vbind (pruneRevoked config q metadata) (\<lambda>receipt1.
                  fetch_material config cloud intact receipt1 metadata tag)))
           | _ \<Rightarrow> vfail)) (outcome config cloud w0 S) (vault_inv S)" (is "vt ?P _ _ _")
proof -
  let ?H = "holding config q intact S"
  have e: "?P w \<Longrightarrow> vault_inv S w" for w by (auto intro: holding_inv)
  have failed: "vt ?P vfail (outcome config cloud w0 S) (vault_inv S)" by (rule vt_fail) (rule e)
  have same: "vt ?P (if or_else (usable_etag intact q) [] = [] then vfail else vret Unchanged) (outcome config cloud w0 S) (vault_inv S)"
    if "rp_status response = 304"
  proof (cases "or_else (usable_etag intact q) [] = []")
    case False
    then have "intact_at config w0" using intact by (auto simp: usable_etag_def split: option.splits if_splits)
    then show ?thesis using False that listing intact_in_sync e
      by (simp only: if_False) (rule vt_ret, auto simp: outcome_def unchanged_def)
  qed (use failed in simp)
  have revoked: "vt ?P (vthen (revoke config q) (vret Revoked)) (outcome config cloud w0 S) (vault_inv S)"
    if "rp_status response \<in> {401, 403}"
    by (rule vt_pre [OF vt_revoked]) (use listing that in \<open>auto simp: refused_def\<close>)
  have go: "vt ?H (vthen (assertCurrent config) (vthen (vguard (sn_agent_id metadata = vc_agentId config \<and>
          (case vc_connected config of None \<Rightarrow> True | Some c \<Rightarrow> sn_user_id metadata = ca_userId c)))
        (vbind (pruneRevoked config q metadata) (\<lambda>receipt1. fetch_material config cloud intact receipt1 metadata tag))))
      (outcome config cloud w0 S) (vault_inv S)" if "rp_etag response = Some tag" "rp_body response = Some metadata" for metadata tag
  proof (rule vt_then [OF vt_current], simp, erule holding_inv, rule vt_then [OF vt_guard [where Q = "\<lambda>_. ?H"]], erule holding_inv, assumption,
      rule vt_bind [OF vt_pruning], rule vt_assume)
    fix q' assume "q' = after_pruning q metadata"
    then show "vt (\<lambda>w. holding config q' intact S w \<and> list_all (\<lambda>n. \<not> prunable (map vt_id (sn_vaults metadata)) n) (generated w))
      (fetch_material config cloud intact q' metadata tag) (outcome config cloud w0 S) (vault_inv S)"
      using vt_material [OF assms(1) listing that _ intact] q by blast
  qed
  have went: "vt ?P (vthen (assertCurrent config) (vthen (vguard (sn_agent_id metadata = vc_agentId config \<and>
          (case vc_connected config of None \<Rightarrow> True | Some c \<Rightarrow> sn_user_id metadata = ca_userId c)))
        (vbind (pruneRevoked config q metadata) (\<lambda>receipt1. fetch_material config cloud intact receipt1 metadata tag))))
      (outcome config cloud w0 S) (vault_inv S)" if "rp_etag response = Some tag" "rp_body response = Some metadata" for metadata tag
    by (rule vt_pre [OF go [OF that]]) auto
  show ?thesis
    using same failed went revoked by (cases "rp_etag response"; cases "rp_body response") (auto simp del: or_else_simps)
qed

lemma vt_sync:
  assumes "valid_replies cloud"
  shows "vt (\<lambda>w. vault_inv S w \<and> untouched w0 w) (syncVaultSnapshot config cloud) (outcome config cloud w0 S) (vault_inv S)"
proof -
  have t: "timeless (\<lambda>w. vault_inv S w \<and> untouched w0 w)" "timeless (\<lambda>w. holding config q intact S w \<and> untouched w0 w)" for q intact
    by (simp_all add: timeless_conj)
  show ?thesis
    unfolding syncVaultSnapshot_def Let_def
  proof (rule vt_then [OF vt_current [OF t(1)]], blast,
      rule vt_then [OF vt_guard [where Q = "\<lambda>_ w. vault_inv S w \<and> untouched w0 w"]], blast, assumption, rule vt_bind [OF vt_opening], rule vt_bind [OF vt_opened], rule vt_assume,
      rule vt_bind [OF vt_ask [OF t(2)]], blast intro: holding_inv, rule vt_assume, rule vt_then [OF vt_current [OF t(2)]], blast intro: holding_inv)
    fix q intact response
    assume from_w0: "q = receipt_at w0 \<and> intact = intact_at config w0" and "vq_metadata cloud (usable_etag intact q) = Some response"
    then have "listing_reply config cloud w0 = Some response" by (simp add: listing_reply_def)
    from vt_listed [OF assms this conjunct1 [OF from_w0] conjunct2 [OF from_w0]]
    show "vt (\<lambda>w. holding config q intact S w \<and> untouched w0 w)
      (if rp_status response = 304 then (if or_else (usable_etag intact q) [] = [] then vfail else vret Unchanged)
         else if rp_status response \<in> {401, 403} then vthen (revoke config q) (vret Revoked)
         else if \<not> ok_status (rp_status response) then vfail
         else (case (rp_etag response, rp_body response) of
             (Some tag, Some metadata) \<Rightarrow>
               vthen (assertCurrent config)
               (vthen (vguard (sn_agent_id metadata = vc_agentId config \<and>
                   (case vc_connected config of None \<Rightarrow> True | Some c \<Rightarrow> sn_user_id metadata = ca_userId c)))
               (vbind (pruneRevoked config q metadata) (\<lambda>receipt1.
                  fetch_material config cloud intact receipt1 metadata tag)))
           | _ \<Rightarrow> vfail)) (outcome config cloud w0 S) (vault_inv S)" .
  qed
qed

lemma sync_outcome:
  assumes "valid_replies cloud" and "sound_world w" and "syncRuntimeVaultFiles config lock cloud w = (r, w')"
  shows "vault_inv (strays w) w' \<and> (\<forall>result. r = Some result \<longrightarrow> outcome config cloud w (strays w) result w')"
proof -
  let ?I = "\<lambda>u. vault_inv (strays w) u \<and> untouched w u"
  have I: "?I w" using assms(2) by (simp add: vault_inv_def untouched_def)
  have "vt ?I (syncRuntimeVaultFiles config lock cloud) (outcome config cloud w (strays w)) (vault_inv (strays w))"
    unfolding syncRuntimeVaultFiles_def
    by (rule vt_then [OF vt_guard [where Q = "\<lambda>_. ?I"]], blast, assumption,
        rule vt_then [OF vt_guard [where Q = "\<lambda>_. ?I"]], blast, assumption, rule vt_sync [OF assms(1)])
  from vtD [OF this I] assms(3) show ?thesis by (cases r) (auto simp: outcome_def)
qed

section \<open>Clearing\<close>

lemma sound_rebind [simp]: "sound_receipt (rebind_receipt b r)"
  by (simp add: sound_receipt_def rebind_receipt_def forgotten_receipt_def index_files_def)

lemma vt_rebind:
  "vt (beside (forgotten_receipt r) S X) (clear_rebind expected clearMatching r) (\<lambda>_ w. vault_inv S w \<and> generated w = []) (vault_inv S)"
proof -
  have fin: "beside (forgotten_receipt r) S X w \<Longrightarrow> vault_inv S w \<and> generated w = []" for w
    using beside_inv [of "forgotten_receipt r" S X w] by (simp add: beside_def generated_def) (simp add: forgotten_receipt_def)
  have save: "vt (beside (forgotten_receipt r) S X) (saveReceipt (rebind_receipt b r)) (\<lambda>_ w. vault_inv S w \<and> generated w = []) (vault_inv S)" for b
  proof (rule vt_conseq [OF vt_save])
    show "beside (rebind_receipt b r) S X w \<Longrightarrow> vault_inv S w \<and> generated w = []" for w
      using beside_inv [of "rebind_receipt b r" S X w] by (simp add: beside_def generated_def) (simp add: rebind_receipt_def forgotten_receipt_def)
    show "beside (forgotten_receipt r) S (\<lambda>_. True) w \<Longrightarrow> vault_inv S w" for w by (rule beside_inv) auto
  qed (auto simp: rebind_receipt_def forgotten_receipt_def)
  have drop: "vt (beside (forgotten_receipt r) S X) (vthen vcall (vmodify (\<lambda>w. w\<lparr>vw_receipt := No_receipt\<rparr>)))
      (\<lambda>_ w. vault_inv S w \<and> generated w = []) (vault_inv S)"
    by (rule vt_then [OF vt_call vt_modify])
      (use fin in \<open>auto simp: beside_def vault_inv_def strays_def generated_def sound_world_def dir_entries_def forgotten_receipt_def\<close>)
  show ?thesis
    using save drop fin by (auto simp: clear_rebind_def split: option.split intro: vt_ret)
qed

lemma vt_clear:
  "vt (vault_inv S) (clearConnectedVaultFiles config lock expected clearMatching) (\<lambda>_. vault_inv S) (vault_inv S)"
proof -
  have cleared: "vt (beside r S (\<lambda>_. True)) (vthen (revoke (config_of config r) (Some r)) (clear_rebind expected clearMatching r))
      (\<lambda>_. vault_inv S) (vault_inv S)" if "sound_receipt r" for r
    by (rule vt_then [OF vt_revoke [OF that] vt_conseq [OF vt_rebind]]) auto
  have found: "vt (\<lambda>w. sound_receipt r \<and> beside r S (\<lambda>_. True) w)
      (vthen (vguard (or_else (vr_userId r) [] \<noteq> [] \<and> or_else (vr_machineId r) [] \<noteq> []))
         (if (if clearMatching then \<not> binding_matches expected r else binding_matches expected r) then vret ()
          else vthen (revoke (config_of config r) (Some r)) (clear_rebind expected clearMatching r))) (\<lambda>_. vault_inv S) (vault_inv S)" for r
  proof (rule vt_assume, rule vt_then [OF vt_guard [where Q = "\<lambda>_. beside r S (\<lambda>_. True)"]])
    assume r: "sound_receipt r"
    show "vt (beside r S (\<lambda>_. True)) (if (if clearMatching then \<not> binding_matches expected r else binding_matches expected r) then vret ()
          else vthen (revoke (config_of config r) (Some r)) (clear_rebind expected clearMatching r)) (\<lambda>_. vault_inv S) (vault_inv S)"
      using cleared [OF r] beside_inv [OF _ r] by (auto intro: vt_ret)
    show "beside r S (\<lambda>_. True) w \<Longrightarrow> vault_inv S w" for w by (rule beside_inv [OF _ r])
  qed assumption
  have read: "vt (vault_inv S) readReceiptFile (\<lambda>q w. case q of None \<Rightarrow> vault_inv S w
     | Some r \<Rightarrow> sound_receipt r \<and> beside r S (\<lambda>_. True) w) (vault_inv S)"
    unfolding readReceiptFile_def
    by (rule vt_then [OF vt_call [OF timeless_inv]], assumption)
      (auto simp: vt_def vault_op_defs beside_def vault_inv_def strays_def generated_def sound_world_def split: receipt_file.splits)
  have locked: "vt (vault_inv S) (clearConnectedVaultFilesLocked config expected clearMatching) (\<lambda>_. vault_inv S) (vault_inv S)"
    unfolding clearConnectedVaultFilesLocked_def
  proof (rule vt_bind [OF read])
    fix q
    show "vt (\<lambda>w. case q of None \<Rightarrow> vault_inv S w | Some r \<Rightarrow> sound_receipt r \<and> beside r S (\<lambda>_. True) w)
      (case q of None \<Rightarrow> vret () | Some r \<Rightarrow>
        vthen (vguard (or_else (vr_userId r) [] \<noteq> [] \<and> or_else (vr_machineId r) [] \<noteq> []))
         (if (if clearMatching then \<not> binding_matches expected r else binding_matches expected r) then vret ()
          else vthen (revoke (config_of config r) (Some r)) (clear_rebind expected clearMatching r)))
      (\<lambda>_. vault_inv S) (vault_inv S)"
    proof (cases q)
      case None
      then show ?thesis by (simp add: vt_ret)
    next
      case (Some r)
      show ?thesis unfolding Some option.case by (rule found)
    qed
  qed
  show ?thesis
    unfolding clearConnectedVaultFiles_def
    by (rule vt_then [OF vt_guard [where Q = "\<lambda>_. vault_inv S"]], assumption, assumption, rule vt_bind [OF vt_gets [where Q = "\<lambda>_. vault_inv S"]], assumption)
      (auto intro: vt_ret vt_then [OF vt_guard [where Q = "\<lambda>_. vault_inv S"] locked])
qed

end
