(* ===== verification/VaultProperties.thy ===== *)
theory VaultProperties
  imports VaultOutcome "HOL-Library.Code_Target_Nat"
begin

text \<open>
  What the Vault file operations guarantee as a whole.
\<close>

text \<open>C37. Neither a synchronization nor a clearing of the Vault files changes an entry of \<open>.clawdi/vaults\<close> that
  the receipt does not list as generated, whatever the Cloud answers and wherever it fails or is interrupted:
  such entries stay as they are, and what the receipt lists stays consistent, so the next run can rely on it.\<close>

theorem vault_foreign_files_untouched:
  assumes "valid_replies cloud" and "sound_world w"
  shows "strays (snd (syncRuntimeVaultFiles config lock cloud w)) = strays w \<and>
    sound_world (snd (syncRuntimeVaultFiles config lock cloud w)) \<and>
    strays (snd (clearConnectedVaultFiles config lock expected clearMatching w)) = strays w \<and>
    sound_world (snd (clearConnectedVaultFiles config lock expected clearMatching w))"
proof -
  have "vault_inv (strays w) (snd (syncRuntimeVaultFiles config lock cloud w))"
    using sync_outcome [OF assms prod.collapse [symmetric]] by blast
  moreover have "vault_inv (strays w) (snd (clearConnectedVaultFiles config lock expected clearMatching w))"
    using vtD [OF vt_clear, of "strays w" w config lock expected clearMatching] assms(2)
    by (auto simp: vault_inv_def split: prod.splits option.splits)
  ultimately show ?thesis by (simp add: vault_inv_def)
qed

text \<open>C38. What a synchronization answers is what it left. Let the replies list Vaults by identifiers of 36 characters
  (the schema's UUIDs) and let the receipt at the start be consistent. The replies below are the ones to
  the two requests this very run makes, told from the world it began in: the listing for the entity tag of
  the receipt, when every file of it is there as recorded, and the material for the listing's tag and the
  revisions left after pruning. \<^const>\<open>Synced\<close>: the material was answered with success, every generated file is a plain
  file with the content its recorded digest is for, and - unless two section names of one Vault of the material
  have the same SHA-256 - the generated files are those of Vaults in the material and every section that came with
  it is there with exactly its content. \<^const>\<open>Revoked\<close>: the listing or the material was refused with 401 or
  403, and no generated file is left. \<^const>\<open>Deferred\<close>: the material was answered with 409, and no generated file belongs
  to a Vault the listing does not name. \<^const>\<open>Unchanged\<close>: the listing was answered with 304, every generated file is as
  recorded, and directory and receipt are untouched.\<close>

theorem vault_sync_exact:
  assumes "valid_replies cloud" and "sound_world w" and "syncRuntimeVaultFiles config lock cloud w = (Some result, w')"
  shows "strays w' = strays w \<and>
    (case result of
      Synced \<Rightarrow> in_sync config w' \<and>
        (\<exists>m s. material_reply config cloud w = Some m \<and> ok_status (rp_status m) \<and> rp_body m = Some s \<and>
          (sections_apart config (sn_vaults s) \<longrightarrow> reflects config s w'))
    | Revoked \<Rightarrow> generated w' = [] \<and> dir_entries w' = strays w \<and>
        (\<exists>m. (listing_reply config cloud w = Some m \<or> material_reply config cloud w = Some m) \<and> rp_status m \<in> {401, 403})
    | Deferred \<Rightarrow> (\<exists>l s m. listing_reply config cloud w = Some l \<and> rp_body l = Some s \<and>
          material_reply config cloud w = Some m \<and> rp_status m = 409 \<and>
          list_all (\<lambda>n. \<not> prunable (map vt_id (sn_vaults s)) n) (generated w'))
    | Unchanged \<Rightarrow> in_sync config w' \<and> vw_dir w' = vw_dir w \<and> vw_receipt w' = vw_receipt w \<and>
        (\<exists>l. listing_reply config cloud w = Some l \<and> rp_status l = 304))"
proof -
  have "outcome config cloud w (strays w) result w'" using sync_outcome [OF assms] by simp
  then show ?thesis
    by (cases result)
      (auto simp: outcome_def vault_inv_def synced_def refused_def deferred_def unchanged_def untouched_def strays_def [of w'])
qed

section \<open>Witnesses\<close>

text \<open>An Agent whose directory holds a note of the user's beside an index.\<close>

definition an_agent :: vault_config where
  "an_agent = \<lparr>vc_apiUrl = ''u'', vc_apiKey = ''k'', vc_agentId = ''a'', vc_workspace = ''w'', vc_connected = None, vc_sha256 = id,
     vc_git = \<lparr>git_top_status = 128, git_top_stderr = ''fatal: not a git repository'', git_ls_status = 0, git_ls_stdout = []\<rparr>,
     vc_trusted = True, vc_inside = True, vc_inode = 7, vc_supported = True, vc_current = (\<lambda>_. True)\<rparr>"

definition a_vault :: vault where
  "a_vault = \<lparr>vt_id = ''00000000-0000-4000-8000-000000000001'', vt_name = ''db'', vt_slug = ''db'', vt_project_ids = [],
     vt_revision = ''r1'', vt_content_version = 1,
     vt_fields = Some [\<lparr>vf_id = ''f'', vf_section = ''s'', vf_name = ''PASS'', vf_references = [], vf_value = ''x''\<rparr>]\<rparr>"

definition a_listing :: vault_snapshot where
  "a_listing = \<lparr>sn_agent_id = ''a'', sn_user_id = ''me'', sn_vaults = [a_vault]\<rparr>"

definition a_cloud :: "int \<Rightarrow> vault_cloud" where
  "a_cloud status =
     \<lparr>vq_metadata = (\<lambda>_. Some \<lparr>rp_status = 200, rp_etag = Some ''e'', rp_body = Some (a_listing\<lparr>sn_vaults := [a_vault\<lparr>vt_fields := None\<rparr>]\<rparr>)\<rparr>),
      vq_material = (\<lambda>_ _. Some \<lparr>rp_status = status, rp_etag = Some ''e'', rp_body = Some a_listing\<rparr>)\<rparr>"

definition nothing_yet :: "nat \<Rightarrow> vault_world" where
  "nothing_yet budget = \<lparr>vw_dir = None, vw_receipt = No_receipt, vw_budget = budget, vw_checks = 0\<rparr>"

lemma a_cloud_valid: "valid_replies (a_cloud status)"
  by (simp add: valid_replies_def a_cloud_def uuid_ids_def a_listing_def a_vault_def)

text \<open>The directory of a receipt that lists nothing yet, with a note beside it.\<close>

definition with_note :: "nat \<Rightarrow> vault_world" where
  "with_note budget =
     \<lparr>vw_dir = Some \<lparr>vd_inode = 7, vd_private = True, vd_entries = [(''notes.md'', Plain ''mine'')]\<rparr>,
      vw_receipt = Receipt (empty_receipt an_agent), vw_budget = budget, vw_checks = 0\<rparr>"

theorem vault_foreign_files_untouched_witness:
  "strays (snd (syncRuntimeVaultFiles an_agent True (a_cloud 200) (with_note 18))) = [(''notes.md'', Plain ''mine'')] \<and>
   fst (syncRuntimeVaultFiles an_agent True (a_cloud 200) (with_note 18)) = None \<and>
   map_keys (dir_entries (snd (syncRuntimeVaultFiles an_agent True (a_cloud 200) (with_note 18)))) = [''notes.md'', GITIGNORE, ''00000000-0000-4000-8000-000000000001-s.json'']"
proof -
  have "sound_world (with_note 18)" by (simp add: sound_world_def with_note_def sound_receipt_def empty_receipt_def index_files_def)
  note untouched = vault_foreign_files_untouched [OF a_cloud_valid [of 200] this, THEN conjunct1]
  have "strays (with_note 18) = [(''notes.md'', Plain ''mine'')]" by code_simp
  moreover have "fst (syncRuntimeVaultFiles an_agent True (a_cloud 200) (with_note 18)) = None" by code_simp
  moreover have "map_keys (dir_entries (snd (syncRuntimeVaultFiles an_agent True (a_cloud 200) (with_note 18)))) = [''notes.md'', GITIGNORE, ''00000000-0000-4000-8000-000000000001-s.json'']"
    by code_simp
  ultimately show ?thesis using untouched by simp
qed

text \<open>The same Agent with a digest of 64 characters.\<close>

definition short_digest :: "string \<Rightarrow> string" where
  "short_digest s = take 64 (s @ replicate 64 (CHR ''0''))"

definition hashing_agent :: vault_config where
  "hashing_agent = an_agent\<lparr>vc_sha256 := short_digest\<rparr>"

theorem vault_sync_exact_witness:
  "fst (syncRuntimeVaultFiles hashing_agent True (a_cloud 200) (nothing_yet 60)) = Some Synced \<and>
   in_sync hashing_agent (snd (syncRuntimeVaultFiles hashing_agent True (a_cloud 200) (nothing_yet 60))) \<and>
   reflects hashing_agent a_listing (snd (syncRuntimeVaultFiles hashing_agent True (a_cloud 200) (nothing_yet 60)))"
proof -
  have run: "fst (syncRuntimeVaultFiles hashing_agent True (a_cloud 200) (nothing_yet 60)) = Some Synced" by code_simp
  then have "syncRuntimeVaultFiles hashing_agent True (a_cloud 200) (nothing_yet 60) =
      (Some Synced, snd (syncRuntimeVaultFiles hashing_agent True (a_cloud 200) (nothing_yet 60)))"
    by (metis prod.collapse)
  note exact = vault_sync_exact [OF a_cloud_valid _ this]
  have "sound_world (nothing_yet 60)" by (simp add: sound_world_def nothing_yet_def)
  moreover have "rp_body m = Some s \<Longrightarrow> s = a_listing" if "material_reply hashing_agent (a_cloud 200) (nothing_yet 60) = Some m" for m s
    using that by (auto simp: material_reply_def listing_reply_def a_cloud_def)
  moreover have "sections_apart hashing_agent (sn_vaults a_listing)"
    by (simp add: sections_apart_def a_listing_def a_vault_def section_names_def set_of_list_def)
  ultimately show ?thesis using exact run by auto
qed

end
