(* ===== verification/VaultSync.thy ===== *)
theory VaultSync
  imports VaultProperties
begin

text \<open>
  When a connected Agent synchronizes its Vault files, \<open>packages/cli/src/serve/vault-sync.ts\<close>: one consumer of
  the ticks of the sync engine, with a fence on the identity of the Agent, a pause between passes, a growing
  pause after failures and the clearing of the files when the identity changes.

  One step is what runs between two suspensions. The registration checks of \<open>current\<close> and the attempts to clear
  are answered one by one by inputs; that a synchronization ended, and how, comes as an event, like the end of a
  pause, the abort and the moment in which the end of a run is recorded.
\<close>

section \<open>State\<close>

text \<open>A pause has the time it ends; \<open>Ending\<close> is a run that has returned and whose \<open>finally\<close> has yet to run.\<close>

datatype vault_phase = Not_running | Pausing int | Syncing | Ending

text \<open>What is done and seen, in order.\<close>

datatype vault_act =
  Checked bool
| Forced
| Sync_began int
| Sync_ended "sync_result option" int
| Clear_tried bool
| Vault_report "string option" bool

text \<open>\<open>by_bound\<close> is whether the registration names a workspace, a user and a machine; \<open>by_own\<close> whether it is the
  Agent's and the signed-in user's.\<close>

record vault_host =
  by_hosted :: bool
  by_supported :: bool
  by_bound :: bool
  by_binding :: bool
  by_own :: bool
  by_current :: "nat \<Rightarrow> bool"
  by_clears :: "nat \<Rightarrow> bool"

record vault_sync =
  vy_enabled :: bool
  vy_phase :: vault_phase
  vy_pending :: bool
  vy_pendingClear :: bool
  vy_retryAt :: int
  vy_backoff :: int
  vy_aborted :: bool
  vy_checked :: nat
  vy_cleared :: nat
  vy_acts :: "vault_act list"

definition act :: "vault_act \<Rightarrow> vault_sync \<Rightarrow> vault_sync" where
  "act a s = s\<lparr>vy_acts := vy_acts s @ [a]\<rparr>"

section \<open>The fence and the clearing\<close>

definition current :: "vault_host \<Rightarrow> vault_sync \<Rightarrow> bool \<times> vault_sync" where
  "current host s =
     (let ok = by_bound host \<and> by_current host (vy_checked s) in (ok, act (Checked ok) (s\<lparr>vy_checked := vy_checked s + 1\<rparr>)))"

text \<open>One attempt to clear, and whether it succeeded.\<close>

definition try_clear :: "vault_host \<Rightarrow> vault_sync \<Rightarrow> bool \<times> vault_sync" where
  "try_clear host s =
     (let ok = by_clears host (vy_cleared s) in (ok, act (Clear_tried ok) (s\<lparr>vy_cleared := vy_cleared s + 1\<rparr>)))"

definition cleanup_deferred :: string where
  "cleanup_deferred = ''Owned Vault cleanup is deferred; persistent filesystem conflicts require local repair.''"

definition clear :: "vault_host \<Rightarrow> vault_sync \<Rightarrow> vault_sync" where
  "clear host s =
     (if by_hosted host \<or> \<not> by_supported host \<or> \<not> by_bound host then s
      else case try_clear host (s\<lparr>vy_pendingClear := True\<rparr>) of
        (True, s') \<Rightarrow> s'\<lparr>vy_pendingClear := False\<rparr>
      | (False, s') \<Rightarrow> act (Vault_report (Some cleanup_deferred) True) s')"

section \<open>Preparation\<close>

definition needs_repair :: string where "needs_repair = ''Owned Vault files need local repair.''"

definition fresh_sync :: "vault_host \<Rightarrow> vault_sync" where
  "fresh_sync host =
     \<lparr>vy_enabled = \<not> by_hosted host \<and> by_supported host, vy_phase = Not_running, vy_pending = False, vy_pendingClear = False,
      vy_retryAt = 0, vy_backoff = 0, vy_aborted = False, vy_checked = 0, vy_cleared = 0, vy_acts = []\<rparr>"

definition unsupported_vaults :: string where
  "unsupported_vaults = ''Automatic Vault files require macOS or Linux/WSL; native Windows is unsupported.''"

definition clear_or_report :: "vault_host \<Rightarrow> vault_sync \<Rightarrow> vault_sync" where
  "clear_or_report host s =
     (case try_clear host s of (True, s') \<Rightarrow> s' | (False, s') \<Rightarrow> act (Vault_report (Some needs_repair) True) s')"

text \<open>\<open>mismatch\<close> is what \<open>clearAccountMismatchedVaultFiles\<close> finds to do: nothing, or to clear.\<close>

definition disable_now :: "vault_host \<Rightarrow> bool \<Rightarrow> string \<Rightarrow> vault_sync \<Rightarrow> vault_sync" where
  "disable_now host mismatch advice s0 =
     (let s1 = s0\<lparr>vy_enabled := False\<rparr>;
          s2 = (if \<not> mismatch then s1 else clear_or_report host s1);
          s3 = (if \<not> by_own host then s2
                else if by_binding host then clear host s2
                else clear_or_report host s2)
      in act (Vault_report (Some advice) False) s3)"

definition prepareConnectedVaultSync :: "vault_host \<Rightarrow> bool \<Rightarrow> string \<Rightarrow> vault_sync" where
  "prepareConnectedVaultSync host mismatch advice =
     (let s = fresh_sync host in
      if by_hosted host then s
      else if \<not> by_supported host then act (Vault_report (Some unsupported_vaults) False) s
      else case current host s of
        (False, s1) \<Rightarrow> disable_now host mismatch advice s1
      | (True, s1) \<Rightarrow>
          (case try_clear host s1 of
             (True, s2) \<Rightarrow> s2
           | (False, s2) \<Rightarrow> disable_now host mismatch advice s2))"

section \<open>Runs\<close>

definition end_run :: "vault_sync \<Rightarrow> vault_sync" where
  "end_run s = s\<lparr>vy_phase := Ending\<rparr>"

definition begin_sync :: "int \<Rightarrow> vault_sync \<Rightarrow> vault_sync" where
  "begin_sync now s = act (Sync_began now) (s\<lparr>vy_phase := Syncing\<rparr>)"

definition identity_changed :: string where
  "identity_changed = ''Vault identity or workspace changed; run setup and restart the daemon.''"

text \<open>One pass of the loop up to its first suspension.\<close>

definition vault_round :: "vault_host \<Rightarrow> int \<Rightarrow> vault_sync \<Rightarrow> vault_sync" where
  "vault_round host now s =
     (if \<not> (vy_pending s \<and> \<not> vy_aborted s \<and> vy_enabled s) then end_run s
      else case current host (s\<lparr>vy_pending := False\<rparr>) of
        (False, s1) \<Rightarrow> end_run (act (Vault_report (Some identity_changed) False) (clear host (s1\<lparr>vy_enabled := False\<rparr>)))
      | (True, s1) \<Rightarrow>
          if now < vy_retryAt s1 then (if vy_backoff s1 > 0 then end_run s1 else s1\<lparr>vy_phase := Pausing (vy_retryAt s1)\<rparr>)
          else begin_sync now s1)"

definition reconcile :: "vault_host \<Rightarrow> bool \<Rightarrow> int \<Rightarrow> vault_sync \<Rightarrow> vault_sync" where
  "reconcile host force now s0 =
     (let s = (if force then act Forced (s0\<lparr>vy_retryAt := 0, vy_backoff := 0\<rparr>) else s0) in
      if \<not> vy_enabled s \<or> vy_aborted s then s
      else let s1 = s\<lparr>vy_pending := True\<rparr> in
        if vy_phase s1 \<noteq> Not_running then s1 else vault_round host now s1)"

definition pause_over :: "int \<Rightarrow> vault_sync \<Rightarrow> vault_sync" where
  "pause_over now s = (if vy_aborted s then end_run s else begin_sync now s)"

definition access_revoked :: string where
  "access_revoked = ''Vault access was revoked; generated files removed.''"

definition sync_deferred :: string where
  "sync_deferred = ''Vault file sync deferred; last good files retained where possible.''"

definition next_backoff :: "int \<Rightarrow> int" where
  "next_backoff b = min (if b \<noteq> 0 then b * 2 else 60000) 300000"

definition sync_over :: "vault_host \<Rightarrow> sync_result option \<Rightarrow> int \<Rightarrow> vault_sync \<Rightarrow> vault_sync" where
  "sync_over host result now s0 =
     (let s = act (Sync_ended result now) s0 in
      case result of
        Some r \<Rightarrow>
          vault_round host now
            (act (Vault_report (if r = Revoked then Some access_revoked else None) (r = Revoked))
               (s\<lparr>vy_backoff := 0, vy_retryAt := now + 250\<rparr>))
      | None \<Rightarrow>
          (let s2 = (case current host s of (True, s1) \<Rightarrow> s1 | (False, s1) \<Rightarrow> clear host (s1\<lparr>vy_enabled := False\<rparr>));
               backoff = next_backoff (vy_backoff s2);
               s3 = s2\<lparr>vy_backoff := backoff, vy_retryAt := now + backoff\<rparr>;
               s4 = (if vy_aborted s3 then s3 else act (Vault_report (Some sync_deferred) True) s3)
           in vault_round host now s4))"

definition run_ended :: "vault_host \<Rightarrow> vault_sync \<Rightarrow> vault_sync" where
  "run_ended host s = (let s1 = s\<lparr>vy_phase := Not_running\<rparr> in if vy_pendingClear s1 then clear host s1 else s1)"

definition finish_sync :: "vault_host \<Rightarrow> vault_sync \<Rightarrow> vault_sync" where
  "finish_sync host s =
     (let s1 = (if vy_pendingClear s then clear host s else s) in
      case current host s1 of (True, s2) \<Rightarrow> s2 | (False, s2) \<Rightarrow> clear host s2)"

section \<open>Events\<close>

datatype vault_event =
  Reconcile bool int
| Pause_over int
| Sync_over "sync_result option" int
| Run_ended
| Vault_revoke
| Vault_finish
| Vault_abort

text \<open>An event happens only in the phase that expects it, and the clock is not negative.\<close>

fun expected :: "vault_event \<Rightarrow> vault_sync \<Rightarrow> bool" where
  "expected (Pause_over now) s \<longleftrightarrow> (case vy_phase s of Pausing till \<Rightarrow> vy_aborted s \<or> till \<le> now | _ \<Rightarrow> False)"
| "expected (Sync_over r now) s \<longleftrightarrow> vy_phase s = Syncing \<and> 0 \<le> now"
| "expected (Reconcile force now) s \<longleftrightarrow> 0 \<le> now"
| "expected Run_ended s \<longleftrightarrow> vy_phase s = Ending"
| "expected Vault_finish s \<longleftrightarrow> vy_phase s = Not_running"
| "expected _ s \<longleftrightarrow> True"

fun vault_step :: "vault_host \<Rightarrow> vault_event \<Rightarrow> vault_sync \<Rightarrow> vault_sync" where
  "vault_step host (Reconcile force now) s = reconcile host force now s"
| "vault_step host (Pause_over now) s = pause_over now s"
| "vault_step host (Sync_over r now) s = sync_over host r now s"
| "vault_step host Run_ended s = run_ended host s"
| "vault_step host Vault_revoke s = clear host s"
| "vault_step host Vault_finish s = finish_sync host s"
| "vault_step host Vault_abort s = s\<lparr>vy_aborted := True\<rparr>"

fun vault_run :: "vault_host \<Rightarrow> vault_event list \<Rightarrow> vault_sync \<Rightarrow> vault_sync option" where
  "vault_run host [] s = Some s"
| "vault_run host (e # es) s = (if expected e s then vault_run host es (vault_step host e s) else None)"

end
