(* ===== verification/VaultSyncLaws.thy ===== *)
theory VaultSyncLaws
  imports VaultSync
begin

text \<open>
  The pacing and the fence of the Vault synchronizations of a connected Agent.
\<close>

section \<open>What the record of a run shows\<close>

text \<open>The fence as it stands after a record: whether the last check of the identity passed and was not used up.\<close>

fun fence :: "bool \<Rightarrow> vault_act list \<Rightarrow> bool" where
  "fence ok [] = ok"
| "fence ok (Checked b # acts) = fence b acts"
| "fence ok (Sync_began t # acts) = fence False acts"
| "fence ok (_ # acts) = fence ok acts"

fun fenced :: "bool \<Rightarrow> vault_act list \<Rightarrow> bool" where
  "fenced ok [] = True"
| "fenced ok (Checked b # acts) = fenced b acts"
| "fenced ok (Sync_began t # acts) = (ok \<and> fenced False acts)"
| "fenced ok (_ # acts) = fenced ok acts"

text \<open>The earliest time of the next synchronization, and the pause it comes from.\<close>

fun earliest :: "int \<times> int \<Rightarrow> vault_act list \<Rightarrow> int \<times> int" where
  "earliest p [] = p"
| "earliest p (Forced # acts) = earliest (0, 0) acts"
| "earliest p (Sync_ended r t # acts) =
     (let pause = (if r = None then next_backoff (snd p) else 250)
      in earliest (t + pause, if r = None then pause else 0) acts)"
| "earliest p (_ # acts) = earliest p acts"

fun paced :: "int \<times> int \<Rightarrow> vault_act list \<Rightarrow> bool" where
  "paced p [] = True"
| "paced p (a # acts) = ((case a of Sync_began t \<Rightarrow> fst p \<le> t | _ \<Rightarrow> True) \<and> paced (earliest p [a]) acts)"

lemma fence_append [simp]: "fence ok (xs @ ys) = fence (fence ok xs) ys"
  by (induction ok xs rule: fence.induct) auto

lemma fenced_append [simp]: "fenced ok (xs @ ys) \<longleftrightarrow> fenced ok xs \<and> fenced (fence ok xs) ys"
  by (induction ok xs rule: fenced.induct) auto

lemma earliest_append [simp]: "earliest p (xs @ ys) = earliest (earliest p xs) ys"
  by (induction p xs rule: earliest.induct) (auto simp: Let_def)

lemma earliest_Cons: "earliest p (a # acts) = earliest (earliest p [a]) acts"
  using earliest_append [of p "[a]" acts] by simp

lemma paced_append [simp]: "paced p (xs @ ys) \<longleftrightarrow> paced p xs \<and> paced (earliest p xs) ys"
proof (induction xs arbitrary: p)
  case (Cons a xs)
  have "earliest p (a # xs) = earliest (earliest p [a]) xs" by (rule earliest_Cons)
  then show ?case using Cons.IH [of "earliest p [a]"] by (simp only: append.simps paced.simps conj_assoc)
qed simp

section \<open>The invariant\<close>

definition on_course :: "vault_sync \<Rightarrow> bool" where
  "on_course s \<longleftrightarrow>
     fenced False (vy_acts s) \<and> paced (0, 0) (vy_acts s) \<and> earliest (0, 0) (vy_acts s) = (vy_retryAt s, vy_backoff s) \<and> 0 \<le> vy_retryAt s \<and> 0 \<le> vy_backoff s"

definition vault_sync_inv :: "vault_sync \<Rightarrow> bool" where
  "vault_sync_inv s \<longleftrightarrow>
     on_course s \<and>
     (case vy_phase s of
        Pausing till \<Rightarrow> vy_enabled s \<and> fence False (vy_acts s) \<and> vy_retryAt s \<le> till
      | Syncing \<Rightarrow> vy_enabled s
      | _ \<Rightarrow> True)"

lemma act_simps [simp]:
  "vy_enabled (act a s) = vy_enabled s" "vy_phase (act a s) = vy_phase s" "vy_pending (act a s) = vy_pending s"
  "vy_pendingClear (act a s) = vy_pendingClear s" "vy_retryAt (act a s) = vy_retryAt s" "vy_backoff (act a s) = vy_backoff s"
  "vy_aborted (act a s) = vy_aborted s" "vy_acts (act a s) = vy_acts s @ [a]"
  by (simp_all add: act_def)

text \<open>A record without checks, ends, starts and forces moves neither the fence nor the times.\<close>

definition quiet :: "vault_act list \<Rightarrow> bool" where
  "quiet acts \<longleftrightarrow> list_all (\<lambda>a. case a of Clear_tried _ \<Rightarrow> True | Vault_report _ _ \<Rightarrow> True | _ \<Rightarrow> False) acts"

lemma quiet_acts [simp]: "quiet acts \<Longrightarrow> fence ok acts = ok \<and> fenced ok acts \<and> earliest p acts = p \<and> paced p acts"
  by (induction acts) (auto simp: quiet_def split: vault_act.splits)

definition same_course :: "vault_sync \<Rightarrow> vault_sync \<Rightarrow> bool" where
  "same_course s s' \<longleftrightarrow>
     vy_enabled s' = vy_enabled s \<and> vy_phase s' = vy_phase s \<and> vy_retryAt s' = vy_retryAt s \<and> vy_backoff s' = vy_backoff s \<and>
     vy_aborted s' = vy_aborted s \<and> vy_pending s' = vy_pending s \<and> (\<exists>more. vy_acts s' = vy_acts s @ more \<and> quiet more)"

lemma same_course_trans [trans]: "same_course s s' \<Longrightarrow> same_course s' s'' \<Longrightarrow> same_course s s''"
  by (auto simp: same_course_def quiet_def)

lemma same_try: "try_clear host s = (ok, s') \<Longrightarrow> same_course s s'"
  by (auto simp: same_course_def try_clear_def Let_def quiet_def)

lemma same_report: "same_course s (act (Vault_report m f) s)"
  by (simp add: same_course_def quiet_def)

lemma same_clear_or_report: "same_course s (clear_or_report host s)"
proof -
  obtain ok s' where t: "try_clear host s = (ok, s')" by fastforce
  show ?thesis using same_try [OF t] same_course_trans [OF same_try [OF t] same_report] by (cases ok) (simp_all add: clear_or_report_def t)
qed

lemma same_clear: "same_course s (clear host s)"
proof (cases "by_clears host (vy_cleared s)")
qed (simp_all add: same_course_def clear_def try_clear_def Let_def quiet_def)

lemma same_inv: "same_course s s' \<Longrightarrow> vault_sync_inv s \<Longrightarrow> vault_sync_inv s'"
  by (auto simp: same_course_def vault_sync_inv_def on_course_def split: vault_phase.splits)

lemma same_on_course: "same_course s s' \<Longrightarrow> on_course s \<Longrightarrow> on_course s'"
  by (auto simp: same_course_def on_course_def)

lemma current_facts:
  assumes "current host s = (ok, s')" and "on_course s"
  shows "on_course s' \<and> fence False (vy_acts s') = ok \<and> vy_phase s' = vy_phase s \<and> vy_enabled s' = vy_enabled s \<and>
    vy_aborted s' = vy_aborted s \<and> vy_retryAt s' = vy_retryAt s \<and> vy_backoff s' = vy_backoff s"
  using assms by (auto simp: current_def Let_def on_course_def)

lemma round_inv: "on_course s \<Longrightarrow> vault_sync_inv (vault_round host now s)"
proof -
  assume c: "on_course s"
  then have c1: "on_course (s\<lparr>vy_pending := False\<rparr>)" by (simp add: on_course_def)
  obtain ok s1 where check: "current host (s\<lparr>vy_pending := False\<rparr>) = (ok, s1)" by fastforce
  note facts = current_facts [OF check c1]
  have gone: "on_course (clear host (s1\<lparr>vy_enabled := False\<rparr>))"
    by (rule same_on_course [OF same_clear]) (use facts in \<open>simp add: on_course_def\<close>)
  show ?thesis
  proof (cases ok)
    case True
    then show ?thesis using facts c
      by (simp add: vault_round_def check vault_sync_inv_def end_run_def begin_sync_def on_course_def)
  next
    case False
    then show ?thesis using gone c
      by (simp add: vault_round_def check vault_sync_inv_def end_run_def on_course_def)
  qed
qed

lemma finish_inv: "vault_sync_inv s \<Longrightarrow> vy_phase s = Not_running \<Longrightarrow> vault_sync_inv (finish_sync host s)"
proof -
  assume s: "vault_sync_inv s" "vy_phase s = Not_running"
  define s1 where "s1 = (if vy_pendingClear s then clear host s else s)"
  have s1: "on_course s1 \<and> vy_phase s1 = Not_running"
    using s same_inv [OF same_clear s(1)] same_clear [of s host] by (simp add: s1_def vault_sync_inv_def same_course_def)
  obtain ok s2 where check: "current host s1 = (ok, s2)" by fastforce
  have s2: "on_course s2 \<and> vy_phase s2 = Not_running" using current_facts [OF check] s1 by simp
  have "on_course (clear host s2) \<and> vy_phase (clear host s2) = Not_running"
    using s2 same_on_course [OF same_clear] same_clear [of s2 host] by (simp add: same_course_def)
  then show ?thesis using s2 by (cases ok) (simp_all add: finish_sync_def s1_def [symmetric] check vault_sync_inv_def)
qed

lemma next_backoff_pos: "0 \<le> b \<Longrightarrow> 0 \<le> next_backoff b"
  by (simp add: next_backoff_def)

lemma over_inv:
  assumes "vault_sync_inv s" and "vy_phase s = Syncing" and "0 \<le> now"
  shows "vault_sync_inv (sync_over host result now s)"
proof (cases result)
  case (Some r)
  show ?thesis
    unfolding sync_over_def Let_def Some option.case
    by (rule round_inv) (use assms(1,3) in \<open>simp add: vault_sync_inv_def on_course_def\<close>)
next
  case None
  define t where "t = act (Sync_ended None now) s"
  have retry: "0 \<le> vy_backoff s" using assms(1) by (simp add: vault_sync_inv_def on_course_def)
  have t: "0 \<le> vy_backoff t \<and> fenced False (vy_acts t) \<and> paced (0, 0) (vy_acts t) \<and>
      earliest (0, 0) (vy_acts t) = (now + next_backoff (vy_backoff t), next_backoff (vy_backoff t))"
    using assms(1) by (simp add: t_def vault_sync_inv_def on_course_def Let_def)
  let ?delayed = "\<lambda>u. fenced False (vy_acts u) \<and> paced (0, 0) (vy_acts u) \<and> vy_backoff u = vy_backoff t \<and>
      earliest (0, 0) (vy_acts u) = (now + next_backoff (vy_backoff t), next_backoff (vy_backoff t))"
  obtain ok s1 where check: "current host t = (ok, s1)" by fastforce
  have s1: "?delayed s1" using t check by (auto simp: current_def Let_def)
  have gone: "?delayed (clear host (s1\<lparr>vy_enabled := False\<rparr>))"
    using same_clear [of "s1\<lparr>vy_enabled := False\<rparr>" host] s1 by (auto simp: same_course_def)
  define s2 where "s2 = (if ok then s1 else clear host (s1\<lparr>vy_enabled := False\<rparr>))"
  have s2: "?delayed s2" using s1 gone by (simp add: s2_def)
  have eq: "(case current host t of (True, s1) \<Rightarrow> s1 | (False, s1) \<Rightarrow> clear host (s1\<lparr>vy_enabled := False\<rparr>)) = s2"
    by (cases ok) (simp_all add: check s2_def)
  show ?thesis
    unfolding sync_over_def Let_def None option.case t_def [symmetric] eq
    by (rule round_inv) (use s2 t assms(3) next_backoff_pos in \<open>simp add: on_course_def\<close>)
qed

lemma step_inv:
  assumes "vault_sync_inv s" and "expected e s"
  shows "vault_sync_inv (vault_step host e s)"
proof (cases e)
  case (Reconcile force now)
  define s1 where "s1 = (if force then act Forced (s\<lparr>vy_retryAt := 0, vy_backoff := 0\<rparr>) else s)"
  have "vault_sync_inv s1"
    using assms(1) by (auto simp: s1_def vault_sync_inv_def on_course_def split: vault_phase.splits)
  then show ?thesis
    using round_inv [of "s1\<lparr>vy_pending := True\<rparr>" host now]
    by (auto simp: Reconcile reconcile_def s1_def [symmetric] Let_def vault_sync_inv_def on_course_def split: vault_phase.splits)
next
  case (Pause_over now)
  then show ?thesis using assms
    by (auto simp: pause_over_def vault_sync_inv_def on_course_def end_run_def begin_sync_def split: vault_phase.splits)
next
  case Run_ended
  have "vault_sync_inv (s\<lparr>vy_phase := Not_running\<rparr>)" using assms(1) by (simp add: vault_sync_inv_def on_course_def)
  then show ?thesis using same_inv [OF same_clear] by (simp add: Run_ended run_ended_def Let_def)
qed (use assms over_inv finish_inv same_inv [OF same_clear] in \<open>auto simp: vault_sync_inv_def on_course_def split: vault_phase.splits\<close>)

lemma run_inv: "vault_run host es s = Some s' \<Longrightarrow> vault_sync_inv s \<Longrightarrow> vault_sync_inv s'"
  by (induction es arbitrary: s) (auto split: if_splits dest: step_inv)

lemma disable_inv: "vault_sync_inv s \<Longrightarrow> vy_phase s = Not_running \<Longrightarrow> vault_sync_inv (disable_now host mismatch advice s)"
proof -
  assume s: "vault_sync_inv s" "vy_phase s = Not_running"
  define s1 where "s1 = s\<lparr>vy_enabled := False\<rparr>"
  have s1: "vault_sync_inv s1" using s by (simp add: s1_def vault_sync_inv_def on_course_def)
  define s2 where "s2 = (if \<not> mismatch then s1 else clear_or_report host s1)"
  have s2: "vault_sync_inv s2" using s1 same_inv [OF same_clear_or_report] by (simp add: s2_def)
  then show ?thesis
    unfolding disable_now_def Let_def s1_def [symmetric] s2_def [symmetric]
    using same_inv [OF same_report] same_inv [OF same_clear_or_report] same_inv [OF same_clear] by simp
qed

lemma prepared_inv: "vault_sync_inv (prepareConnectedVaultSync host mismatch advice)"
proof -
  have fresh: "on_course (fresh_sync host)" "vault_sync_inv (fresh_sync host)"
    by (simp_all add: vault_sync_inv_def on_course_def fresh_sync_def)
  obtain ok s1 where check: "current host (fresh_sync host) = (ok, s1)" by fastforce
  have s1: "vault_sync_inv s1" "vy_phase s1 = Not_running"
    using current_facts [OF check fresh(1)] by (simp_all add: vault_sync_inv_def fresh_sync_def)
  obtain cleared s2 where tried: "try_clear host s1 = (cleared, s2)" by fastforce
  have s2: "vault_sync_inv s2" "vy_phase s2 = Not_running"
    using same_inv [OF same_try [OF tried] s1(1)] same_try [OF tried] s1(2) by (simp_all add: same_course_def)
  show ?thesis
    using fresh disable_inv [OF s1] disable_inv [OF s2] s2 same_inv [OF same_report]
    by (cases ok; cases cleared) (simp_all add: prepareConnectedVaultSync_def check tried Let_def)
qed

section \<open>Pacing\<close>

lemma pauses: "snd p \<in> {0, 60000, 120000, 240000, 300000} \<Longrightarrow> snd (earliest p acts) \<in> {0, 60000, 120000, 240000, 300000}"
  by (induction p acts rule: earliest.induct) (auto simp: Let_def next_backoff_def)

lemma earliest_quiet:
  "list_all (\<lambda>a. case a of Forced \<Rightarrow> False | Sync_ended _ _ \<Rightarrow> False | _ \<Rightarrow> True) acts \<Longrightarrow> earliest p acts = p"
  by (induction acts) (auto split: vault_act.splits)

text \<open>C40. Unless a caller forces a pass, a synchronization begins at least 250 milliseconds after the last one
  ended, and at least a minute after it when that one failed; the pause after failures is one of 1, 2, 4 and 5
  minutes.\<close>

theorem vault_syncs_paced:
  assumes "vault_run host es (prepareConnectedVaultSync host mismatch advice) = Some s"
    and "vy_acts s = before @ Sync_ended result ended # between @ Sync_began began # rest"
    and "list_all (\<lambda>a. case a of Forced \<Rightarrow> False | Sync_ended _ _ \<Rightarrow> False | _ \<Rightarrow> True) between"
  shows "ended + (if result = None then 60000 else 250) \<le> began \<and> vy_backoff s \<in> {0, 60000, 120000, 240000, 300000}"
proof -
  have s: "paced (0, 0) (vy_acts s)" "earliest (0, 0) (vy_acts s) = (vy_retryAt s, vy_backoff s)"
    using run_inv [OF assms(1) prepared_inv] by (simp_all add: vault_sync_inv_def on_course_def)
  have "earliest (0, 0) (before @ Sync_ended result ended # between) = earliest (earliest (0, 0) before) [Sync_ended result ended]"
    using earliest_quiet [OF assms(3)] earliest_Cons [of _ "Sync_ended result ended" between] by simp
  moreover have "paced (earliest (0, 0) (before @ Sync_ended result ended # between)) (Sync_began began # rest)"
    using s(1) assms(2) paced_append [of "(0, 0)" "before @ Sync_ended result ended # between" "Sync_began began # rest"] by simp
  ultimately have "fst (earliest (earliest (0, 0) before) [Sync_ended result ended]) \<le> began" by simp
  moreover have "snd (earliest (0, 0) before) \<in> {0, 60000, 120000, 240000, 300000}" by (rule pauses) simp
  then have "60000 \<le> next_backoff (snd (earliest (0, 0) before))" by (auto simp: next_backoff_def)
  ultimately have "ended + (if result = None then 60000 else 250) \<le> began" by (auto simp: Let_def split: if_splits)
  moreover have "vy_backoff s \<in> {0, 60000, 120000, 240000, 300000}" using pauses [of "(0, 0)" "vy_acts s"] s(2) by simp
  ultimately show ?thesis by blast
qed

section \<open>The fence\<close>

lemma fence_was_set:
  "fence False acts \<Longrightarrow> \<exists>pre mid. acts = pre @ Checked True # mid \<and>
     list_all (\<lambda>a. case a of Checked _ \<Rightarrow> False | Sync_began _ \<Rightarrow> False | _ \<Rightarrow> True) mid"
proof (induction acts rule: rev_induct)
  case (snoc a acts)
  show ?case
  proof (cases "a = Checked True")
    case True
    then show ?thesis by (intro exI [of _ acts] exI [of _ "[]"]) simp
  next
    case False
    with snoc.prems have "fence False acts" and a: "case a of Checked _ \<Rightarrow> False | Sync_began _ \<Rightarrow> False | _ \<Rightarrow> True"
      by (cases a; auto)+
    from snoc.IH [OF this(1)] obtain pre mid where "acts = pre @ Checked True # mid"
      "list_all (\<lambda>a. case a of Checked _ \<Rightarrow> False | Sync_began _ \<Rightarrow> False | _ \<Rightarrow> True) mid" by blast
    then show ?thesis using a by (intro exI [of _ pre] exI [of _ "mid @ [a]"]) simp
  qed
qed simp

definition begun :: "vault_sync \<Rightarrow> vault_act list" where
  "begun s = filter (\<lambda>a. case a of Sync_began _ \<Rightarrow> True | _ \<Rightarrow> False) (vy_acts s)"

definition stopped :: "vault_sync \<Rightarrow> bool" where
  "stopped s \<longleftrightarrow> vault_sync_inv s \<and> (\<not> vy_enabled s \<or> vy_aborted s)"

lemma begun_same: "same_course s s' \<Longrightarrow> begun s' = begun s"
proof -
  assume "same_course s s'"
  then obtain more where "vy_acts s' = vy_acts s @ more" "quiet more" by (auto simp: same_course_def)
  moreover from \<open>quiet more\<close> have "filter (\<lambda>a. case a of Sync_began _ \<Rightarrow> True | _ \<Rightarrow> False) more = []"
    by (auto simp: quiet_def filter_empty_conv list_all_iff split: vault_act.splits)
  ultimately show ?thesis by (simp add: begun_def)
qed

lemma round_aborted: "vy_aborted s \<Longrightarrow> vault_round host now s = end_run s"
  by (simp add: vault_round_def)

lemma stopped_step:
  assumes "stopped s" and "expected e s"
  shows "begun (vault_step host e s) = begun s \<and> (\<not> vy_enabled (vault_step host e s) \<or> vy_aborted (vault_step host e s))"
proof (cases e)
  case (Sync_over result now)
  then have "vy_phase s = Syncing" "0 \<le> now" using assms(2) by auto
  then have a: "vy_aborted s" using assms(1) by (auto simp: stopped_def vault_sync_inv_def)
  define t where "t = act (Sync_ended result now) s"
  have t: "vy_aborted t" "begun t = begun s" using a by (simp_all add: t_def begun_def)
  obtain ok s1 where check: "current host t = (ok, s1)" by fastforce
  have s1: "vy_aborted s1" "begun s1 = begun s" using check t by (auto simp: current_def Let_def begun_def)
  have gone: "vy_aborted (clear host (s1\<lparr>vy_enabled := False\<rparr>))" "begun (clear host (s1\<lparr>vy_enabled := False\<rparr>)) = begun s"
    using same_clear [of "s1\<lparr>vy_enabled := False\<rparr>" host] begun_same [OF same_clear [of "s1\<lparr>vy_enabled := False\<rparr>" host]] s1
    by (simp_all add: same_course_def begun_def)
  define s2 where "s2 = (if ok then s1 else clear host (s1\<lparr>vy_enabled := False\<rparr>))"
  have eq: "(case current host t of (True, s1) \<Rightarrow> s1 | (False, s1) \<Rightarrow> clear host (s1\<lparr>vy_enabled := False\<rparr>)) = s2"
    by (cases ok) (simp_all add: check s2_def)
  have s2: "vy_aborted s2" "begun s2 = begun s" using s1 gone by (simp_all add: s2_def)
  show ?thesis
  proof (cases result)
    case None
    have "vault_step host e s = end_run (s2\<lparr>vy_backoff := next_backoff (vy_backoff s2), vy_retryAt := now + next_backoff (vy_backoff s2)\<rparr>)"
      using eq s2(1) by (simp add: Sync_over sync_over_def Let_def None t_def round_aborted)
    then show ?thesis using s2 by (simp add: begun_def end_run_def)
  next
    case (Some r)
    show ?thesis using a by (simp add: Sync_over sync_over_def Let_def Some round_aborted begun_def end_run_def)
  qed
next
  case (Pause_over now)
  then have "vy_aborted s" using assms by (auto simp: stopped_def vault_sync_inv_def split: vault_phase.splits)
  then show ?thesis by (simp add: Pause_over pause_over_def end_run_def begun_def)
next
  case (Reconcile force now)
  then show ?thesis using assms(1) by (auto simp: reconcile_def Let_def stopped_def begun_def)
next
  case Run_ended
  have "begun (clear host (s\<lparr>vy_phase := Not_running\<rparr>)) = begun s" using begun_same [OF same_clear] by (simp add: begun_def)
  moreover have "vy_enabled (clear host (s\<lparr>vy_phase := Not_running\<rparr>)) = vy_enabled s \<and> vy_aborted (clear host (s\<lparr>vy_phase := Not_running\<rparr>)) = vy_aborted s"
    using same_clear [of "s\<lparr>vy_phase := Not_running\<rparr>" host] by (simp add: same_course_def)
  ultimately show ?thesis using assms(1) by (auto simp: Run_ended run_ended_def Let_def stopped_def begun_def)
next
  case Vault_finish
  define s1 where "s1 = (if vy_pendingClear s then clear host s else s)"
  have s1: "begun s1 = begun s" "vy_enabled s1 = vy_enabled s" "vy_aborted s1 = vy_aborted s"
    using begun_same [OF same_clear [of s host]] same_clear [of s host] by (simp_all add: s1_def same_course_def)
  obtain ok s2 where check: "current host s1 = (ok, s2)" by fastforce
  have s2: "begun s2 = begun s" "vy_enabled s2 = vy_enabled s" "vy_aborted s2 = vy_aborted s"
    using check s1 by (auto simp: current_def Let_def begun_def)
  have "begun (clear host s2) = begun s" "vy_enabled (clear host s2) = vy_enabled s" "vy_aborted (clear host s2) = vy_aborted s"
    using begun_same [OF same_clear [of s2 host]] same_clear [of s2 host] s2 by (simp_all add: same_course_def)
  then show ?thesis using s2 assms(1) by (cases ok) (simp_all add: Vault_finish finish_sync_def s1_def [symmetric] check stopped_def)
next
  case Vault_revoke
  then show ?thesis using begun_same [OF same_clear [of s host]] same_clear [of s host] assms(1) by (simp add: same_course_def stopped_def)
qed (simp add: begun_def)

lemma stopped_run: "vault_run host es s = Some s' \<Longrightarrow> stopped s \<Longrightarrow> begun s' = begun s"
proof (induction es arbitrary: s)
  case (Cons e es)
  then have "expected e s" "vault_run host es (vault_step host e s) = Some s'" by (auto split: if_splits)
  moreover have "stopped (vault_step host e s)"
    using stopped_step [OF Cons.prems(2) calculation(1)] step_inv [of s e host] Cons.prems(2) calculation(1) by (simp add: stopped_def)
  ultimately show ?case using Cons.IH stopped_step [OF Cons.prems(2)] by simp
qed simp

text \<open>C39. Every synchronization begins on a check of the identity that passed and that no earlier one has used,
  with no failed check after it; and once the consumer is disabled by a changed identity, or aborted, none begins
  any more, whatever happens next.\<close>

theorem vault_syncs_fenced:
  assumes "vault_run host es (prepareConnectedVaultSync host mismatch advice) = Some s"
    and "vy_acts s = before @ Sync_began t # rest"
  shows "(\<exists>pre mid. before = pre @ Checked True # mid \<and>
       list_all (\<lambda>a. case a of Checked _ \<Rightarrow> False | Sync_began _ \<Rightarrow> False | _ \<Rightarrow> True) mid) \<and>
     (\<not> vy_enabled s \<or> vy_aborted s \<longrightarrow> vault_run host later s = Some s' \<longrightarrow> begun s' = begun s)"
proof -
  have inv: "vault_sync_inv s" by (rule run_inv [OF assms(1) prepared_inv])
  then have "fence False before" using assms(2) by (simp add: vault_sync_inv_def on_course_def)
  from fence_was_set [OF this] show ?thesis using stopped_run inv by (auto simp: stopped_def)
qed

section \<open>Witnesses\<close>

definition a_host :: vault_host where
  "a_host = \<lparr>by_hosted = False, by_supported = True, by_bound = True, by_binding = True, by_own = True,
     by_current = (\<lambda>n. n < 4), by_clears = (\<lambda>n. n \<noteq> 1)\<rparr>"

definition some_events :: "vault_event list" where
  "some_events = [Reconcile False 1000, Reconcile False 1100, Sync_over (Some Synced) 1200, Pause_over 1450,
     Sync_over None 1500, Run_ended, Reconcile False 2000]"

lemma some_run:
  "\<exists>s. vault_run a_host some_events (prepareConnectedVaultSync a_host False []) = Some s \<and> \<not> vy_enabled s \<and> vy_backoff s = 60000 \<and>
     vy_acts s = [Checked True, Clear_tried True, Checked True, Sync_began 1000] @ Sync_ended (Some Synced) 1200 #
       [Vault_report None False, Checked True] @ Sync_began 1450 #
       [Sync_ended None 1500, Checked True, Vault_report (Some sync_deferred) True, Checked False, Clear_tried False,
        Vault_report (Some cleanup_deferred) True, Vault_report (Some identity_changed) False]"
proof -
  have "map_option (\<lambda>s. (vy_enabled s, vy_backoff s, vy_acts s)) (vault_run a_host some_events (prepareConnectedVaultSync a_host False [])) =
    Some (False, 60000, [Checked True, Clear_tried True, Checked True, Sync_began 1000] @ Sync_ended (Some Synced) 1200 #
       [Vault_report None False, Checked True] @ Sync_began 1450 #
       [Sync_ended None 1500, Checked True, Vault_report (Some sync_deferred) True, Checked False, Clear_tried False,
        Vault_report (Some cleanup_deferred) True, Vault_report (Some identity_changed) False])"
    by code_simp
  then show ?thesis by auto
qed

theorem vault_syncs_paced_witness:
  "\<exists>s. vault_run a_host some_events (prepareConnectedVaultSync a_host False []) = Some s \<and>
     (1200 :: int) + 250 \<le> 1450 \<and> vy_backoff s \<in> {0, 60000, 120000, 240000, 300000}"
proof -
  obtain s where run: "vault_run a_host some_events (prepareConnectedVaultSync a_host False []) = Some s"
    and acts: "vy_acts s = [Checked True, Clear_tried True, Checked True, Sync_began 1000] @ Sync_ended (Some Synced) 1200 #
       [Vault_report None False, Checked True] @ Sync_began 1450 #
       [Sync_ended None 1500, Checked True, Vault_report (Some sync_deferred) True, Checked False, Clear_tried False,
        Vault_report (Some cleanup_deferred) True, Vault_report (Some identity_changed) False]"
    using some_run by blast
  show ?thesis using run vault_syncs_paced [OF run acts] by auto
qed

theorem vault_syncs_fenced_witness:
  "\<exists>s. vault_run a_host some_events (prepareConnectedVaultSync a_host False []) = Some s \<and>
     (\<forall>s'. vault_run a_host [Run_ended, Reconcile True 900000] s = Some s' \<longrightarrow> begun s' = [Sync_began 1000, Sync_began 1450])"
proof -
  obtain s where run: "vault_run a_host some_events (prepareConnectedVaultSync a_host False []) = Some s" and off: "\<not> vy_enabled s"
    and acts: "vy_acts s = [Checked True, Clear_tried True, Checked True, Sync_began 1000] @ Sync_ended (Some Synced) 1200 #
       [Vault_report None False, Checked True] @ Sync_began 1450 #
       [Sync_ended None 1500, Checked True, Vault_report (Some sync_deferred) True, Checked False, Clear_tried False,
        Vault_report (Some cleanup_deferred) True, Vault_report (Some identity_changed) False]"
    using some_run by blast
  from acts have first: "vy_acts s = [Checked True, Clear_tried True, Checked True] @ Sync_began 1000 # Sync_ended (Some Synced) 1200 #
       [Vault_report None False, Checked True] @ Sync_began 1450 #
       [Sync_ended None 1500, Checked True, Vault_report (Some sync_deferred) True, Checked False, Clear_tried False,
        Vault_report (Some cleanup_deferred) True, Vault_report (Some identity_changed) False]" by simp
  have "begun s = [Sync_began 1000, Sync_began 1450]" by (simp add: begun_def first)
  moreover have "begun s' = begun s" if "vault_run a_host [Run_ended, Reconcile True 900000] s = Some s'" for s'
    using vault_syncs_fenced [OF run first, THEN conjunct2] off that by blast
  ultimately show ?thesis using run by metis
qed

end
