(* ===== verification/Sanitize.thy ===== *)
theory Sanitize
  imports Prelude
begin

text \<open>
  Untrusted text for the terminal, \<open>packages/cli/src/lib/sanitize.ts\<close>: the six global replacements of
  \<open>stripTerminalEscapes\<close>, in their order, and the one-line form for names and descriptions.

  A regular expression is a matcher: how many characters it takes at the head of the text. None of
  them matches the empty text.
\<close>

section \<open>Global replacement\<close>

type_synonym matcher = "string \<Rightarrow> nat option"

function replace_all :: "matcher \<Rightarrow> string \<Rightarrow> string" where
  "replace_all m [] = []"
| "replace_all m (c # cs) =
     (case m (c # cs) of
        Some (Suc n) \<Rightarrow> replace_all m (drop n cs)
      | _ \<Rightarrow> c # replace_all m cs)"
  by pat_completeness auto
termination by (relation "measure (\<lambda>(m, s). length s)") auto

definition code_in :: "nat \<Rightarrow> nat \<Rightarrow> char \<Rightarrow> bool" where
  "code_in lo hi c \<longleftrightarrow> lo \<le> of_char c \<and> of_char c \<le> hi"

definition ESC :: char where "ESC = CHR 0x1B"
definition BEL :: char where "BEL = CHR 0x07"

text \<open>A lazy \<open>[\s\S]*?\<close> up to a terminator.\<close>

fun until_end :: "matcher \<Rightarrow> matcher" where
  "until_end t [] = t []"
| "until_end t (c # cs) = (case t (c # cs) of Some k \<Rightarrow> Some k | None \<Rightarrow> map_option Suc (until_end t cs))"

fun string_terminator :: matcher where
  "string_terminator (a # b # _) = (if a = ESC \<and> b = CHR 0x5C then Some 2 else None)"
| "string_terminator _ = None"

fun osc_terminator :: matcher where
  "osc_terminator [] = None"
| "osc_terminator (c # cs) = (if c = BEL then Some 1 else string_terminator (c # cs))"

section \<open>The six expressions\<close>

fun OSC_RE :: matcher where
  "OSC_RE (a # b # cs) = (if a = ESC \<and> b = CHR '']'' then map_option (\<lambda>n. n + 2) (until_end osc_terminator cs) else None)"
| "OSC_RE _ = None"

fun DCS_PM_APC_RE :: matcher where
  "DCS_PM_APC_RE (a # b # cs) =
     (if a = ESC \<and> b \<in> set ''P^_'' then map_option (\<lambda>n. n + 2) (until_end string_terminator cs) else None)"
| "DCS_PM_APC_RE _ = None"

fun CSI_RE :: matcher where
  "CSI_RE (a # b # cs) =
     (if a = ESC \<and> b = CHR ''['' then
        (let params = takeWhile (code_in 0x30 0x3F) cs; cs1 = dropWhile (code_in 0x30 0x3F) cs;
             inter = takeWhile (code_in 0x20 0x2F) cs1
         in case dropWhile (code_in 0x20 0x2F) cs1 of
              [] \<Rightarrow> None
            | final # _ \<Rightarrow> if code_in 0x40 0x7E final then Some (length params + length inter + 3) else None)
      else None)"
| "CSI_RE _ = None"

fun SIMPLE_ESC_RE :: matcher where
  "SIMPLE_ESC_RE (a # b # cs) = (if a = ESC \<and> code_in 0x20 0x7E b then Some 2 else None)"
| "SIMPLE_ESC_RE _ = None"

definition c1_control :: "char \<Rightarrow> bool" where
  "c1_control c \<longleftrightarrow> code_in 0x80 0x9F c"

definition c0_control :: "char \<Rightarrow> bool" where
  "c0_control c \<longleftrightarrow> code_in 0x00 0x08 c \<or> c = CHR 0x0B \<or> c = CHR 0x0C \<or> code_in 0x0D 0x1A c \<or> code_in 0x1C 0x1F c \<or> c = CHR 0x7F"

fun one_char :: "(char \<Rightarrow> bool) \<Rightarrow> matcher" where
  "one_char p [] = None"
| "one_char p (c # cs) = (if p c then Some 1 else None)"

definition stripTerminalEscapes :: "string \<Rightarrow> string" where
  "stripTerminalEscapes str =
     replace_all (one_char c0_control) (replace_all (one_char c1_control) (replace_all SIMPLE_ESC_RE
       (replace_all CSI_RE (replace_all DCS_PM_APC_RE (replace_all OSC_RE str)))))"

text \<open>\<open>replace(/[\r\n]+/g, " ")\<close> and \<open>trim()\<close>.\<close>

definition line_break :: "char \<Rightarrow> bool" where
  "line_break c \<longleftrightarrow> c = CHR 0x0D \<or> c = CHR 0x0A"

function join_lines :: "string \<Rightarrow> string" where
  "join_lines [] = []"
| "join_lines (c # cs) = (if line_break c then CHR '' '' # join_lines (dropWhile line_break cs) else c # join_lines cs)"
  by pat_completeness auto
termination by (relation "measure length") (auto simp: le_imp_less_Suc length_dropWhile_le)

definition js_space :: "char \<Rightarrow> bool" where
  "js_space c \<longleftrightarrow> code_in 9 13 c \<or> of_char c = (32 :: nat) \<or> of_char c = (160 :: nat)"

definition js_trim :: "string \<Rightarrow> string" where
  "js_trim s = rev (dropWhile js_space (rev (dropWhile js_space s)))"

definition sanitizeMetadata :: "string \<Rightarrow> string" where
  "sanitizeMetadata str = js_trim (join_lines (stripTerminalEscapes str))"

section \<open>What is left\<close>

lemma set_replace_all: "set (replace_all m s) \<subseteq> set s"
proof (induction m s rule: replace_all.induct)
  case (2 m c cs)
  then show ?case by (fastforce split: option.splits nat.splits dest: in_set_dropD)
qed simp

lemma replace_one_char: "replace_all (one_char p) s = filter (\<lambda>c. \<not> p c) s"
  by (induction s) (auto simp: numeral_2_eq_2)

lemma replace_nothing: "(\<And>c cs. c \<in> set s \<Longrightarrow> m (c # cs) = None) \<Longrightarrow> replace_all m s = s"
  by (induction s) auto

lemma no_escape_no_match:
  assumes "c \<noteq> ESC"
  shows "OSC_RE (c # cs) = None" and "DCS_PM_APC_RE (c # cs) = None" and "CSI_RE (c # cs) = None"
    and "SIMPLE_ESC_RE (c # cs) = None"
  using assms by (cases cs; simp)+

definition terminal_safe :: "char \<Rightarrow> bool" where
  "terminal_safe c \<longleftrightarrow> c \<noteq> ESC \<and> \<not> c0_control c \<and> \<not> c1_control c"

lemma stripped_chars:
  "c \<in> set (stripTerminalEscapes str) \<Longrightarrow> c \<in> set str \<and> \<not> c0_control c \<and> \<not> c1_control c"
  using set_replace_all [of OSC_RE str] set_replace_all [of DCS_PM_APC_RE "replace_all OSC_RE str"]
    set_replace_all [of CSI_RE "replace_all DCS_PM_APC_RE (replace_all OSC_RE str)"]
    set_replace_all [of SIMPLE_ESC_RE "replace_all CSI_RE (replace_all DCS_PM_APC_RE (replace_all OSC_RE str))"]
  by (auto simp: stripTerminalEscapes_def replace_one_char)

text \<open>Text for the terminal: whatever goes in, no control character comes out, neither of the C0 range
  (but tab, line feed and the escape character itself) nor of the C1 range, and no character appears
  that was not in the input; a result with an escape character can only come from an input with one; and
  text without control characters is passed on unchanged.\<close>

lemma stripped_text:
  "list_all (\<lambda>c. c \<in> set str \<and> \<not> c0_control c \<and> \<not> c1_control c) (stripTerminalEscapes str) \<and>
   (list_all terminal_safe str \<longrightarrow> stripTerminalEscapes str = str)"
proof
  let ?s = "replace_all SIMPLE_ESC_RE (replace_all CSI_RE (replace_all DCS_PM_APC_RE (replace_all OSC_RE str)))"
  show "list_all (\<lambda>c. c \<in> set str \<and> \<not> c0_control c \<and> \<not> c1_control c) (stripTerminalEscapes str)"
    using stripped_chars by (auto simp: list_all_iff)
  show "list_all terminal_safe str \<longrightarrow> stripTerminalEscapes str = str"
  proof
    assume "list_all terminal_safe str"
    then have safe: "c \<noteq> ESC" "\<not> c0_control c" "\<not> c1_control c" if "c \<in> set str" for c
      using that by (auto simp: list_all_iff terminal_safe_def)
    then have "?s = str" by (simp add: replace_nothing no_escape_no_match)
    then show "stripTerminalEscapes str = str"
      using safe by (simp add: stripTerminalEscapes_def replace_one_char filter_id_conv)
  qed
qed

lemma stripped_text_witness:
  "stripTerminalEscapes (''a'' @ [ESC] @ ''[31mb'' @ [BEL]) = ''ab'' \<and> stripTerminalEscapes ''plain text'' = ''plain text''"
proof
  show "stripTerminalEscapes (''a'' @ [ESC] @ ''[31mb'' @ [BEL]) = ''ab''" by code_simp
  have "list_all terminal_safe ''plain text''" by code_simp
  then show "stripTerminalEscapes ''plain text'' = ''plain text''" using stripped_text [of "''plain text''"] by blast
qed

lemma set_join_lines: "set (join_lines s) \<subseteq> insert (CHR '' '') {c \<in> set s. \<not> line_break c}"
proof (induction s rule: join_lines.induct)
  case (2 c cs)
  then show ?case using set_dropWhileD [of _ line_break cs] by (auto split: if_splits)
qed simp

text \<open>A sanitized name is one line without control characters.\<close>

lemma metadata_one_line: "c \<in> set (sanitizeMetadata str) \<Longrightarrow> \<not> line_break c \<and> \<not> c0_control c \<and> \<not> c1_control c"
proof -
  assume "c \<in> set (sanitizeMetadata str)"
  then have "c \<in> set (join_lines (stripTerminalEscapes str))"
    by (auto simp: sanitizeMetadata_def js_trim_def dest!: set_dropWhileD)
  moreover have "\<not> c0_control (CHR '' '')" "\<not> c1_control (CHR '' '')" "\<not> line_break (CHR '' '')" by code_simp+
  ultimately show ?thesis
    using set_join_lines [of "stripTerminalEscapes str"] stripped_chars [of c str] by auto
qed

text \<open>The order of the replacements matters: a control character inside an escape sequence hides it from
  the first five, and the last one then puts the sequence together.\<close>

lemma escape_reassembled: "stripTerminalEscapes ([ESC, CHR 0x01] @ ''[31m'') = ESC # ''[31m''"
  by code_simp

end
