(* ===== verification/RetryAfter.thy ===== *)
theory RetryAfter
  imports Sanitize
begin

text \<open>
  The \<open>Retry-After\<close> header, \<open>packages/cli/src/lib/retry-after.ts\<close>: delta-seconds of any length or one of
  the three HTTP date forms, bounded by the caller. \<open>dateParse\<close> is \<open>Date.parse\<close>. The format
  \<open>legacy-number\<close> of the hosted checkout is not modelled.
\<close>

section \<open>HTTP dates\<close>

text \<open>A part of a date form takes its characters from the head of the text.\<close>

datatype date_part = Lit string | One_of "string list" | Digits nat | Day_of_month

definition is_digit :: "char \<Rightarrow> bool" where
  "is_digit c \<longleftrightarrow> code_in 48 57 c"

fun take_part :: "date_part \<Rightarrow> string \<Rightarrow> string option" where
  "take_part (Lit t) s = (if take (length t) s = t then Some (drop (length t) s) else None)"
| "take_part (One_of names) s =
     (case find (\<lambda>t. take (length t) s = t) names of None \<Rightarrow> None | Some t \<Rightarrow> Some (drop (length t) s))"
| "take_part (Digits n) s = (if length (take n s) = n \<and> list_all is_digit (take n s) then Some (drop n s) else None)"
| "take_part Day_of_month s =
     (case s of
        a # b # s' \<Rightarrow> if (is_digit a \<or> a = CHR '' '') \<and> is_digit b then Some s' else None
      | _ \<Rightarrow> None)"

fun take_parts :: "date_part list \<Rightarrow> string \<Rightarrow> string option" where
  "take_parts [] s = Some s"
| "take_parts (p # ps) s = (case take_part p s of None \<Rightarrow> None | Some s' \<Rightarrow> take_parts ps s')"

definition SHORT_DAYS :: "string list" where
  "SHORT_DAYS = [''Mon'', ''Tue'', ''Wed'', ''Thu'', ''Fri'', ''Sat'', ''Sun'']"

definition LONG_DAYS :: "string list" where
  "LONG_DAYS = [''Monday'', ''Tuesday'', ''Wednesday'', ''Thursday'', ''Friday'', ''Saturday'', ''Sunday'']"

definition MONTHS :: "string list" where
  "MONTHS = [''Jan'', ''Feb'', ''Mar'', ''Apr'', ''May'', ''Jun'', ''Jul'', ''Aug'', ''Sep'', ''Oct'', ''Nov'', ''Dec'']"

definition TIME_PARTS :: "date_part list" where
  "TIME_PARTS = [Digits 2, Lit '':'', Digits 2, Lit '':'', Digits 2]"

definition HTTP_DATE_FORMS :: "date_part list list" where
  "HTTP_DATE_FORMS =
     [[One_of SHORT_DAYS, Lit '', '', Digits 2, Lit '' '', One_of MONTHS, Lit '' '', Digits 4, Lit '' ''] @ TIME_PARTS @ [Lit '' GMT''],
      [One_of LONG_DAYS, Lit '', '', Digits 2, Lit ''-'', One_of MONTHS, Lit ''-'', Digits 2, Lit '' ''] @ TIME_PARTS @ [Lit '' GMT''],
      [One_of SHORT_DAYS, Lit '' '', One_of MONTHS, Lit '' '', Day_of_month, Lit '' ''] @ TIME_PARTS @ [Lit '' '', Digits 4]]"

definition HTTP_DATE_PATTERN :: "string \<Rightarrow> bool" where
  "HTTP_DATE_PATTERN s \<longleftrightarrow> list_ex (\<lambda>parts. take_parts parts s = Some []) HTTP_DATE_FORMS"

section \<open>The header\<close>

definition MAX_SAFE_RETRY_AFTER_MS :: int where
  "MAX_SAFE_RETRY_AFTER_MS = 9007199254740991"

text \<open>\<open>BigInt\<close> of a string of digits.\<close>

definition digits_value :: "string \<Rightarrow> int" where
  "digits_value s = foldl (\<lambda>n c. 10 * n + (of_char c - 48)) 0 s"

definition parseRetryAfter :: "(string \<Rightarrow> int option) \<Rightarrow> int \<Rightarrow> int \<Rightarrow> string option \<Rightarrow> string + int option" where
  "parseRetryAfter dateParse now maxMs header =
     (case header of
        None \<Rightarrow> Inr None
      | Some text \<Rightarrow>
          if maxMs > MAX_SAFE_RETRY_AFTER_MS \<or> maxMs < 0 then Inl ''Retry-After maxMs must be a non-negative safe integer''
          else (let raw = js_trim text
            in if raw = [] then Inr None
               else if list_all is_digit raw
               then (let delayMs = digits_value raw * 1000 in Inr (Some (if delayMs > maxMs then maxMs else delayMs)))
               else if \<not> HTTP_DATE_PATTERN raw then Inr None
               else (case dateParse raw of None \<Rightarrow> Inr None | Some timestamp \<Rightarrow> Inr (Some (min (max 0 (timestamp - now)) maxMs)))))"

section \<open>Bounds\<close>

lemma digits_value_nonneg: "list_all is_digit s \<Longrightarrow> 0 \<le> digits_value s"
proof -
  have "0 \<le> n \<Longrightarrow> list_all is_digit s \<Longrightarrow> 0 \<le> foldl (\<lambda>n c. 10 * n + (of_char c - 48 :: int)) n s" for n
  proof (induction s arbitrary: n)
    case (Cons c s)
    have "48 \<le> (of_char c :: nat)" using Cons.prems by (simp add: is_digit_def code_in_def)
    then have "48 \<le> (of_char c :: int)" by (metis of_nat_le_iff of_nat_numeral of_nat_of_char)
    then show ?case using Cons by simp
  qed simp
  then show "list_all is_digit s \<Longrightarrow> ?thesis" by (simp add: digits_value_def)
qed

lemma parseRetryAfter_bounded:
  assumes "0 \<le> maxMs" and "maxMs \<le> MAX_SAFE_RETRY_AFTER_MS"
  shows "\<exists>r. parseRetryAfter dateParse now maxMs header = Inr r \<and> (\<forall>ms. r = Some ms \<longrightarrow> 0 \<le> ms \<and> ms \<le> maxMs)"
proof (cases header)
  case (Some t)
  then show ?thesis
    using assms digits_value_nonneg [of "js_trim t"]
    by (cases "dateParse (js_trim t)") (auto simp: parseRetryAfter_def Let_def)
qed (simp add: parseRetryAfter_def)

lemma http_date_forms:
  "HTTP_DATE_PATTERN ''Sun, 06 Nov 1994 08:49:37 GMT''" "HTTP_DATE_PATTERN ''Sunday, 06-Nov-94 08:49:37 GMT''"
  "HTTP_DATE_PATTERN ''Sun Nov  6 08:49:37 1994''" "\<not> HTTP_DATE_PATTERN ''1994-11-06T08:49:37Z''"
  by code_simp+

end
