(* ===== verification/SseClient.thy ===== *)
theory SseClient
  imports SkillInventory RetryAfter
begin

text \<open>
  The event stream from the Cloud, \<open>packages/cli/src/serve/sse-client.ts\<close>: the events of one connection
  and the loop that reconnects.

  The framing parser (\<open>eventsource-parser\<close>) is a parameter: its state, and \<open>feed\<close> with the messages it
  reports. A connection is what \<open>fetch\<close> and the body reader answered; \<open>Math.random\<close> and the time since
  the first byte are given with it.
\<close>

section \<open>Events\<close>

record event_message =
  em_event :: "string option"
  em_data :: string

text \<open>\<open>content_hash\<close> is not kept: nothing in the daemon reads it.\<close>

definition parseServerEvent :: "json \<Rightarrow> server_event option" where
  "parseServerEvent v =
     (if \<not> is_record v then None
      else (let type = jprop v ''type''
        in if type = Some (JStr ''runtime_manifest_changed'') \<or> type = Some (JStr ''runtime_vaults_changed'')
           then (if nonempty_string (jprop v ''environment_id'')
                 then Some ((if type = Some (JStr ''runtime_manifest_changed'') then Runtime_manifest_changed else Runtime_vaults_changed)
                        (the (as_string (jprop v ''environment_id''))))
                 else None)
           else (let changed = type \<in> {Some (JStr ''skill_changed''), Some (JStr ''agent_skill_changed'')};
                     deleted = type \<in> {Some (JStr ''skill_deleted''), Some (JStr ''agent_skill_deleted'')}
             in if \<not> changed \<and> \<not> deleted then None
                else if \<not> nonempty_string (jprop v ''skill_key'') \<or> \<not> nonempty_string (jprop v ''project_id'') \<or>
                    as_number (jprop v ''skills_revision'') = None then None
                else Some (Skill_event (the (as_string type)) (the (as_string (jprop v ''skill_key'')))
                       (the (as_string (jprop v ''project_id''))) (the (as_number (jprop v ''skills_revision'')))))))"

definition parseEventMessage :: "(string \<Rightarrow> json option) \<Rightarrow> event_message \<Rightarrow> server_event option" where
  "parseEventMessage parse message =
     (if em_event message = None \<or> em_event message = Some [] \<or> em_data message = [] then None
      else (case parse (em_data message) of None \<Rightarrow> None | Some v \<Rightarrow> parseServerEvent v))"

section \<open>One connection\<close>

datatype sse_error =
    SseConnectionError (se_reason: string) (se_httpStatus: "int option") (se_requestId: "string option") (se_retryAfterMs: "int option")
  | NamedError (se_name: string) (se_message: string)
  | Unknown_thrown

definition MAX_SSE_RETRY_AFTER_MS :: int where "MAX_SSE_RETRY_AFTER_MS = 5 * 60 * 1000"
definition STALE_MS :: int where "STALE_MS = 60000"

record sse_response =
  sr_status :: int
  sr_requestId :: "string option"
  sr_retryAfter :: "string option"
  sr_hasBody :: bool

definition response_error :: "(string \<Rightarrow> int option) \<Rightarrow> int \<Rightarrow> sse_response \<Rightarrow> sse_error option" where
  "response_error dateParse now res =
     (if sr_status res = 401 \<or> sr_status res = 403
      then Some (SseConnectionError ''auth_failed'' (Some (sr_status res)) (sr_requestId res) None)
      else if sr_status res = 429
      then Some (case parseRetryAfter dateParse now MAX_SSE_RETRY_AFTER_MS (sr_retryAfter res) of
             Inl message \<Rightarrow> NamedError ''RangeError'' message
           | Inr retryAfterMs \<Rightarrow> SseConnectionError ''rate_limited'' (Some (sr_status res)) (sr_requestId res) retryAfterMs)
      else if sr_status res < 200 \<or> sr_status res > 299
      then Some (SseConnectionError (''http_'' @ int_decimal (sr_status res)) (Some (sr_status res)) (sr_requestId res) None)
      else if \<not> sr_hasBody res then Some (SseConnectionError ''no_body'' None (sr_requestId res) None)
      else None)"

text \<open>The body reader: a decoded chunk, the end with what the decoder still held, or an error. The end
  caused by the silence timer is marked.\<close>

datatype stream_read = Chunk string | End_of_stream string bool | Read_error sse_error

definition stale_silence :: "int \<Rightarrow> int \<Rightarrow> bool" where
  "stale_silence now lastChunkAt \<longleftrightarrow> now - lastChunkAt > STALE_MS"

record 'p sse_env =
  ss_parse :: "string \<Rightarrow> json option"
  ss_dateParse :: "string \<Rightarrow> int option"
  ss_feed :: "'p \<Rightarrow> string \<Rightarrow> 'p \<times> event_message list"
  ss_new :: 'p
  ss_onEvent :: "server_event \<Rightarrow> sse_error option"

record 'p stream =
  st_parser :: 'p
  st_pending :: "event_message list"
  st_trailingBareCr :: bool
  st_firstByte :: bool
  st_delivered :: "server_event list"

definition new_stream :: "'p sse_env \<Rightarrow> 'p stream" where
  "new_stream env = \<lparr>st_parser = ss_new env, st_pending = [], st_trailingBareCr = False, st_firstByte = False, st_delivered = []\<rparr>"

definition feed_parser :: "'p sse_env \<Rightarrow> string \<Rightarrow> 'p stream \<Rightarrow> 'p stream" where
  "feed_parser env text st =
     (let (p, messages) = ss_feed env (st_parser st) text in st\<lparr>st_parser := p, st_pending := st_pending st @ messages\<rparr>)"

definition feedDecodedChunk :: "'p sse_env \<Rightarrow> string \<Rightarrow> 'p stream \<Rightarrow> 'p stream" where
  "feedDecodedChunk env chunk st =
     (if chunk = [] then st else feed_parser env chunk (st\<lparr>st_trailingBareCr := last chunk = CHR 0x0D\<rparr>))"

text \<open>\<open>drainEvents\<close>: the pending messages one by one, until one of them is not accepted.\<close>

fun drain_messages :: "'p sse_env \<Rightarrow> event_message list \<Rightarrow> server_event list \<times> sse_error option \<times> event_message list" where
  "drain_messages env [] = ([], None, [])"
| "drain_messages env (m # ms) =
     (case parseEventMessage (ss_parse env) m of
        None \<Rightarrow> drain_messages env ms
      | Some e \<Rightarrow>
          (case ss_onEvent env e of
             Some err \<Rightarrow> ([e], Some err, ms)
           | None \<Rightarrow> (let (es, err, rest) = drain_messages env ms in (e # es, err, rest))))"

definition drainEvents :: "'p sse_env \<Rightarrow> 'p stream \<Rightarrow> sse_error option \<times> 'p stream" where
  "drainEvents env st =
     (let (es, err, rest) = drain_messages env (st_pending st)
      in (err, st\<lparr>st_pending := rest, st_delivered := st_delivered st @ es\<rparr>))"

datatype stream_end = Still_open | Closed | Broken sse_error

definition end_of :: "sse_error option \<Rightarrow> stream_end" where
  "end_of err = (case err of None \<Rightarrow> Closed | Some e \<Rightarrow> Broken e)"

text \<open>At the end of the stream a bare carriage return is resolved by a line feed; data without the empty
  line that ends an event is discarded by \<open>parser.reset()\<close>.\<close>

definition finish_stream :: "'p sse_env \<Rightarrow> string \<Rightarrow> 'p stream \<Rightarrow> stream_end \<times> 'p stream" where
  "finish_stream env text st =
     (let st1 = feedDecodedChunk env text st;
          st2 = (if st_trailingBareCr st1 then feed_parser env [newline] st1 else st1);
          (err, st3) = drainEvents env st2
      in (end_of err, st3))"

fun read_stream :: "'p sse_env \<Rightarrow> stream_read list \<Rightarrow> 'p stream \<Rightarrow> stream_end \<times> 'p stream" where
  "read_stream env [] st = (Still_open, st)"
| "read_stream env (Read_error e # rest) st = (Broken e, st)"
| "read_stream env (End_of_stream text stale # rest) st =
     (if stale then (Broken (NamedError ''Error'' ''stale''), st) else finish_stream env text st)"
| "read_stream env (Chunk chunk # rest) st =
     (let (err, st1) = drainEvents env (feedDecodedChunk env chunk (st\<lparr>st_firstByte := True\<rparr>))
      in case err of Some e \<Rightarrow> (Broken e, st1) | None \<Rightarrow> read_stream env rest st1)"

section \<open>Reconnecting\<close>

definition BASE_BACKOFF_MS :: int where "BASE_BACKOFF_MS = 1000"
definition MAX_BACKOFF_MS :: int where "MAX_BACKOFF_MS = 60000"
definition STABLE_CONNECTION_MS :: int where "STABLE_CONNECTION_MS = 60000"
definition TRANSIENT_RECONNECT_FAILURES :: nat where "TRANSIENT_RECONNECT_FAILURES = 3"

definition backoffMs :: "rat \<Rightarrow> nat \<Rightarrow> int" where
  "backoffMs random attempt =
     (let exp = min (BASE_BACKOFF_MS * 2 ^ attempt) MAX_BACKOFF_MS;
          jitter = of_int exp * (1 / 5) * (random * 2 - 1)
      in max BASE_BACKOFF_MS (js_round (of_int exp + jitter)))"

definition classifySseReconnect :: "nat \<Rightarrow> failure_classification" where
  "classifySseReconnect consecutiveFailures =
     (if consecutiveFailures \<le> TRANSIENT_RECONNECT_FAILURES then Transient else Sustained)"

record reconnect_info =
  ri_reason :: string
  ri_attempt :: nat
  ri_wait_ms :: int
  ri_consecutive_failures :: nat
  ri_classification :: failure_classification
  ri_first_byte_received :: "bool option"
  ri_http_status :: "int option"
  ri_request_id :: "string option"

definition buildReconnectInfo :: "string \<Rightarrow> nat \<Rightarrow> int \<Rightarrow> bool option \<Rightarrow> int option \<Rightarrow> string option \<Rightarrow> reconnect_info" where
  "buildReconnectInfo reason attempt wait firstByte status requestId =
     \<lparr>ri_reason = reason, ri_attempt = attempt, ri_wait_ms = wait, ri_consecutive_failures = attempt + 1,
      ri_classification = classifySseReconnect (attempt + 1), ri_first_byte_received = firstByte,
      ri_http_status = status, ri_request_id = requestId\<rparr>"

record error_info =
  ei_reason :: string
  ei_http_status :: "int option"
  ei_request_id :: "string option"
  ei_retry_after_ms :: "int option"

fun errorInfo :: "sse_error \<Rightarrow> error_info" where
  "errorInfo (SseConnectionError reason status requestId retryAfter) =
     \<lparr>ei_reason = reason, ei_http_status = status, ei_request_id = requestId, ei_retry_after_ms = retryAfter\<rparr>"
| "errorInfo (NamedError name message) =
     \<lparr>ei_reason = (if message = ''stale'' then ''stale'' else if name = ''AbortError'' then ''aborted'' else message),
      ei_http_status = None, ei_request_id = None, ei_retry_after_ms = None\<rparr>"
| "errorInfo Unknown_thrown = \<lparr>ei_reason = ''unknown'', ei_http_status = None, ei_request_id = None, ei_retry_after_ms = None\<rparr>"

text \<open>One turn of the loop: what \<open>getAccessToken\<close> and \<open>fetch\<close> answered, the reads, the time from the first
  byte to the end, the random number of the wait, and whether the signal is aborted when the connection
  ends and when the wait is over.\<close>

record dial =
  di_response :: "sse_error + sse_response"
  di_now :: int
  di_reads :: "stream_read list"
  di_lived :: int
  di_random :: rat
  di_abortedAtEnd :: bool
  di_abortedAfterWait :: bool

datatype sse_action = Connected | Delivered server_event | Disconnected reconnect_info | Auth_failed

text \<open>The end of the dial, whether a first byte came, and the callbacks made during it.\<close>

definition dialAndStream :: "'p sse_env \<Rightarrow> dial \<Rightarrow> stream_end \<times> bool \<times> sse_action list" where
  "dialAndStream env d =
     (case di_response d of
        Inl e \<Rightarrow> (Broken e, False, [])
      | Inr res \<Rightarrow>
          (case response_error (ss_dateParse env) (di_now d) res of
             Some e \<Rightarrow> (Broken e, False, [])
           | None \<Rightarrow>
               (let (ended, st) = read_stream env (di_reads d) (new_stream env)
                in (ended, st_firstByte st, Connected # map Delivered (st_delivered st)))))"

definition stable :: "dial \<Rightarrow> bool \<Rightarrow> bool" where
  "stable d firstByte \<longleftrightarrow> firstByte \<and> di_lived d \<ge> STABLE_CONNECTION_MS"

text \<open>The body of the loop: the callbacks, and the next attempt number unless the consumer returns.\<close>

definition sse_turn :: "'p sse_env \<Rightarrow> dial \<Rightarrow> nat \<Rightarrow> sse_action list \<times> nat option" where
  "sse_turn env d attempt =
     (let (ended, firstByte, actions) = dialAndStream env d
      in case ended of
           Still_open \<Rightarrow> (actions, None)
         | Closed \<Rightarrow>
             if stable d firstByte then (actions, Some 0)
             else (actions @ [Disconnected (buildReconnectInfo ''unstable_close'' attempt (backoffMs (di_random d) attempt)
                     (Some firstByte) None None)], Some (attempt + 1))
         | Broken err \<Rightarrow>
             if di_abortedAtEnd d then (actions, None)
             else (let error = errorInfo err
               in if ei_reason error = ''auth_failed'' then (actions @ [Auth_failed], None)
                  else (let attempt1 = (if stable d firstByte then 0 else attempt);
                            wait = (case ei_retry_after_ms error of Some ms \<Rightarrow> ms | None \<Rightarrow> backoffMs (di_random d) attempt1)
                    in (actions @ [Disconnected (buildReconnectInfo (ei_reason error) attempt1 wait None
                          (ei_http_status error) (ei_request_id error))], Some (attempt1 + 1)))))"

fun consume_loop :: "'p sse_env \<Rightarrow> nat \<Rightarrow> dial list \<Rightarrow> sse_action list" where
  "consume_loop env attempt [] = []"
| "consume_loop env attempt (d # ds) =
     (let (actions, attempt') = sse_turn env d attempt
      in actions @ (case attempt' of
           None \<Rightarrow> []
         | Some n \<Rightarrow> if di_abortedAtEnd d \<or> di_abortedAfterWait d then [] else consume_loop env n ds))"

definition consumeSse :: "'p sse_env \<Rightarrow> bool \<Rightarrow> dial list \<Rightarrow> sse_action list" where
  "consumeSse env aborted ds = (if aborted then [] else consume_loop env 0 ds)"

end
