(* ===== verification/SseLaws.thy ===== *)
theory SseLaws
  imports SseClient
begin

text \<open>
  The event stream delivers what was sent however it was cut into chunks, and the reconnect loop backs
  off, reports a lasting outage and stops at a revoked key.
\<close>

section \<open>Chunks\<close>

text \<open>A framing parser is incremental when the text it was given is all that matters.\<close>

definition incremental_parser :: "'p sse_env \<Rightarrow> bool" where
  "incremental_parser env \<longleftrightarrow>
     (\<forall>p. ss_feed env p [] = (p, [])) \<and>
     (\<forall>p a b. ss_feed env p (a @ b) =
        (fst (ss_feed env (fst (ss_feed env p a)) b), snd (ss_feed env p a) @ snd (ss_feed env (fst (ss_feed env p a)) b)))"

definition accepting :: "'p sse_env \<Rightarrow> bool" where
  "accepting env \<longleftrightarrow> (\<forall>e. ss_onEvent env e = None)"

definition events_of :: "'p sse_env \<Rightarrow> event_message list \<Rightarrow> server_event list" where
  "events_of env ms = List.map_filter (parseEventMessage (ss_parse env)) ms"

text \<open>The events of a whole text: a carriage return at its end ends a line.\<close>

definition ends_in_cr :: "string \<Rightarrow> bool" where
  "ends_in_cr text \<longleftrightarrow> text \<noteq> [] \<and> last text = CHR 0x0D"

definition whole_events :: "'p sse_env \<Rightarrow> string \<Rightarrow> server_event list" where
  "whole_events env text =
     events_of env (snd (ss_feed env (ss_new env) (text @ (if ends_in_cr text then [newline] else []))))"

lemma drain_accepting: "accepting env \<Longrightarrow> drain_messages env ms = (events_of env ms, None, [])"
  by (induction ms) (auto simp: accepting_def events_of_def List.map_filter_def split: option.split)

text \<open>A stream that has read a text and delivered its events.\<close>

definition has_read :: "'p sse_env \<Rightarrow> string \<Rightarrow> 'p stream \<Rightarrow> bool" where
  "has_read env text st \<longleftrightarrow> st_parser st = fst (ss_feed env (ss_new env) text) \<and> st_pending st = [] \<and>
     st_delivered st = events_of env (snd (ss_feed env (ss_new env) text)) \<and> st_trailingBareCr st = ends_in_cr text"

lemma events_of_append: "events_of env (xs @ ys) = events_of env xs @ events_of env ys"
  by (simp add: events_of_def List.map_filter_def)

lemma incremental_appendD:
  "incremental_parser env \<Longrightarrow> ss_feed env p (a @ b) =
     (fst (ss_feed env (fst (ss_feed env p a)) b), snd (ss_feed env p a) @ snd (ss_feed env (fst (ss_feed env p a)) b))"
  unfolding incremental_parser_def by blast

lemma feed_reads:
  assumes "incremental_parser env" and "accepting env" and "has_read env text st"
  obtains st' where "drainEvents env (feedDecodedChunk env chunk (st\<lparr>st_firstByte := b\<rparr>)) = (None, st')" "has_read env (text @ chunk) st'"
proof (cases "chunk = []")
  case True
  then show ?thesis
    using assms(3) that [of "st\<lparr>st_firstByte := b\<rparr>"]
    by (simp add: feedDecodedChunk_def drainEvents_def drain_accepting [OF assms(2)] has_read_def events_of_def List.map_filter_def)
next
  case False
  then show ?thesis
    using assms(3) that incremental_appendD [OF assms(1), of "ss_new env" "text" chunk]
    by (auto simp: feedDecodedChunk_def feed_parser_def drainEvents_def drain_accepting [OF assms(2)] has_read_def
        events_of_append ends_in_cr_def split: prod.split)
qed

lemma read_chunks:
  assumes "incremental_parser env" and "accepting env"
  shows "has_read env text st \<Longrightarrow>
    \<exists>st'. read_stream env (map Chunk cs @ rest) st = read_stream env rest st' \<and> has_read env (text @ concat cs) st'"
proof (induction cs arbitrary: "text" st)
  case Nil
  then show ?case by auto
next
  case (Cons c cs)
  obtain st' where st': "drainEvents env (feedDecodedChunk env c (st\<lparr>st_firstByte := True\<rparr>)) = (None, st')" "has_read env (text @ c) st'"
    using feed_reads [OF assms Cons.prems] by blast
  from Cons.IH [OF st'(2)] show ?case by (simp add: st'(1))
qed

lemma finish_reads:
  assumes "incremental_parser env" and "accepting env" and "has_read env text st"
  shows "fst (finish_stream env tail st) = Closed \<and> st_delivered (snd (finish_stream env tail st)) = whole_events env (text @ tail)"
proof -
  have read: "st_parser st = fst (ss_feed env (ss_new env) text)" "st_pending st = []"
    "st_delivered st = events_of env (snd (ss_feed env (ss_new env) text))" "st_trailingBareCr st = ends_in_cr text"
    using assms(3) by (auto simp: has_read_def)
  note steps = finish_stream_def feedDecodedChunk_def feed_parser_def drainEvents_def drain_accepting [OF assms(2)] Let_def
    whole_events_def events_of_append end_of_def read
  show ?thesis
  proof (cases "tail = []")
    case True
    then show ?thesis
      using incremental_appendD [OF assms(1), of "ss_new env" "text" "[newline]"]
      by (auto simp: steps split: prod.split) (simp add: events_of_def List.map_filter_def)
  next
    case False
    then have cr: "ends_in_cr (text @ tail) = (last tail = CHR 0x0D)" by (simp add: ends_in_cr_def)
    show ?thesis
      using False incremental_appendD [OF assms(1), of "ss_new env" "text" tail]
        incremental_appendD [OF assms(1), of "ss_new env" "text @ tail" "[newline]"]
      by (auto simp: steps cr split: prod.split)
  qed
qed

text \<open>C30. Chunks do not matter: when the stream of a connection ends, the events handed on are those of the
  text that was sent, with a carriage return at its very end counted as the end of a line, however the
  network and the decoder cut the text into chunks.\<close>

theorem sse_delivery_ignores_chunks:
  assumes "incremental_parser env" and "accepting env"
  shows "fst (read_stream env (map Chunk cs @ [End_of_stream rest False]) (new_stream env)) = Closed \<and>
    st_delivered (snd (read_stream env (map Chunk cs @ [End_of_stream rest False]) (new_stream env))) =
      whole_events env (concat cs @ rest)"
proof -
  have "has_read env [] (new_stream env)"
    using assms(1) by (simp add: has_read_def new_stream_def incremental_parser_def events_of_def List.map_filter_def ends_in_cr_def)
  from read_chunks [OF assms this, of cs "[End_of_stream rest False]"] obtain st where
    "read_stream env (map Chunk cs @ [End_of_stream rest False]) (new_stream env) = read_stream env [End_of_stream rest False] st"
    "has_read env (concat cs) st" by auto
  then show ?thesis using finish_reads [OF assms, of "concat cs" st rest] by simp
qed

section \<open>A framing parser\<close>

text \<open>The event stream format of WHATWG, one character at a time; a carriage return is held until the next
  character shows whether a line feed belongs to it.\<close>

record wire =
  wi_line :: string
  wi_heldCr :: bool
  wi_event :: string
  wi_data :: "string list"

definition wire_field :: "string \<Rightarrow> string \<Rightarrow> string option" where
  "wire_field name line =
     (if line = name then Some []
      else if take (length name + 1) line = name @ '':''
      then (let v = drop (length name + 1) line in Some (if take 1 v = '' '' then drop 1 v else v))
      else None)"

definition wire_line :: "wire \<Rightarrow> wire \<times> event_message list" where
  "wire_line w =
     (let line = wi_line w; w1 = w\<lparr>wi_line := []\<rparr>
      in if line = []
         then (w1\<lparr>wi_event := [], wi_data := []\<rparr>,
               if wi_data w = [] then [] else [\<lparr>em_event = (if wi_event w = [] then None else Some (wi_event w)), em_data = join_with [newline] (wi_data w)\<rparr>])
         else (case (wire_field ''event'' line, wire_field ''data'' line) of
             (Some v, _) \<Rightarrow> (w1\<lparr>wi_event := v\<rparr>, [])
           | (None, Some v) \<Rightarrow> (w1\<lparr>wi_data := wi_data w @ [v]\<rparr>, [])
           | (None, None) \<Rightarrow> (w1, [])))"

definition wire_char :: "char \<Rightarrow> wire \<Rightarrow> wire \<times> event_message list" where
  "wire_char c w =
     (if wi_heldCr w
      then (let (w1, ms) = wire_line (w\<lparr>wi_heldCr := False\<rparr>)
        in if c = newline then (w1, ms)
           else if c = CHR 0x0D then (w1\<lparr>wi_heldCr := True\<rparr>, ms)
           else (w1\<lparr>wi_line := wi_line w1 @ [c]\<rparr>, ms))
      else if c = CHR 0x0D then (w\<lparr>wi_heldCr := True\<rparr>, [])
      else if c = newline then wire_line w
      else (w\<lparr>wi_line := wi_line w @ [c]\<rparr>, []))"

fun wire_feed :: "wire \<Rightarrow> string \<Rightarrow> wire \<times> event_message list" where
  "wire_feed w [] = (w, [])"
| "wire_feed w (c # cs) = (let (w1, ms) = wire_char c w; (w2, ms') = wire_feed w1 cs in (w2, ms @ ms'))"

definition new_wire :: wire where
  "new_wire = \<lparr>wi_line = [], wi_heldCr = False, wi_event = [], wi_data = []\<rparr>"

lemma wire_feed_append:
  "wire_feed w (a @ b) =
     (fst (wire_feed (fst (wire_feed w a)) b), snd (wire_feed w a) @ snd (wire_feed (fst (wire_feed w a)) b))"
  by (induction a arbitrary: w) (auto split: prod.split)

definition sample_sse_env :: "wire sse_env" where
  "sample_sse_env = \<lparr>ss_parse = json_parse, ss_dateParse = (\<lambda>_. None), ss_feed = wire_feed, ss_new = new_wire, ss_onEvent = (\<lambda>_. None)\<rparr>"

lemma sample_sse_parser: "incremental_parser sample_sse_env" "accepting sample_sse_env"
  by (simp_all add: incremental_parser_def accepting_def sample_sse_env_def wire_feed_append)

definition sample_frame :: string where
  "sample_frame = ''event: runtime_vaults_changed'' @ [newline] @ ''data: '' @
     stringify (JObj [(''type'', JStr ''runtime_vaults_changed''), (''environment_id'', JStr ''e1'')]) @ [newline, CHR 0x0D]"

theorem sse_delivery_ignores_chunks_witness:
  "st_delivered (snd (read_stream sample_sse_env (map Chunk (map (\<lambda>c. [c]) sample_frame) @ [End_of_stream [] False]) (new_stream sample_sse_env)))
     = [Runtime_vaults_changed ''e1'']"
proof -
  have "concat (map (\<lambda>c. [c]) sample_frame) = sample_frame" by (simp add: concat_map_singleton)
  moreover have "whole_events sample_sse_env sample_frame = [Runtime_vaults_changed ''e1'']" by code_simp
  ultimately show ?thesis
    using sse_delivery_ignores_chunks [OF sample_sse_parser, of "map (\<lambda>c. [c]) sample_frame" "[]"] by simp
qed

section \<open>Waits\<close>

text \<open>The window of the wait after \<open>n\<close> failures in a row: 20 percent around a second doubled with each failure, at
  most a minute, and never less than a second.\<close>

definition backoff_window :: "nat \<Rightarrow> int \<Rightarrow> bool" where
  "backoff_window n wait \<longleftrightarrow>
     (let b = min (1000 * 2 ^ n) 60000 in 1000 \<le> wait \<and> 4 * b \<le> 5 * wait \<and> 5 * wait \<le> 6 * b)"

lemma jittered_backoff_bounds:
  assumes "0 \<le> random" and "random < 1" and "0 \<le> c"
  shows "4 * c \<le> js_round (of_int (5 * c) + of_int (5 * c) * (1 / 5) * (random * 2 - 1)) \<and>
    js_round (of_int (5 * c) + of_int (5 * c) * (1 / 5) * (random * 2 - 1)) \<le> 6 * c"
proof -
  let ?x = "of_int (5 * c) + of_int (5 * c) * (1 / 5) * (random * 2 - 1) :: rat"
  have c: "(0 :: rat) \<le> of_int c" using assms(3) by simp
  have x: "?x = of_int c * (4 + 2 * random)" by (simp add: field_simps)
  have "of_int c * 4 \<le> ?x" "?x \<le> of_int c * 6"
    unfolding x by (rule mult_left_mono; use assms c in simp)+
  then show ?thesis unfolding js_round_def by (simp add: le_floor_iff floor_le_iff)
qed

lemma backoff_bounds:
  assumes "0 \<le> random" and "random < 1"
  shows "backoff_window attempt (backoffMs random attempt)"
proof -
  define c :: int where "c = min (200 * 2 ^ attempt) 12000"
  have b: "min (1000 * 2 ^ attempt) 60000 = 5 * c" by (simp add: c_def min_def)
  have "200 * 1 \<le> (200 :: int) * 2 ^ attempt" by (intro mult_left_mono) simp_all
  then have "200 \<le> c" by (simp add: c_def)
  then show ?thesis
    using jittered_backoff_bounds [OF assms, of c]
    by (simp add: backoff_window_def backoffMs_def BASE_BACKOFF_MS_def MAX_BACKOFF_MS_def Let_def b max.coboundedI2 del: of_int_mult)
qed

text \<open>Errors of the network and of the callbacks are not those the client makes of a response.\<close>

fun foreign_error :: "sse_error \<Rightarrow> bool" where
  "foreign_error (SseConnectionError _ _ _ _) = False"
| "foreign_error (NamedError _ message) = (message \<noteq> ''auth_failed'')"
| "foreign_error Unknown_thrown = True"

fun foreign_read :: "stream_read \<Rightarrow> bool" where
  "foreign_read (Read_error e) = foreign_error e"
| "foreign_read _ = True"

definition fair_dial :: "dial \<Rightarrow> bool" where
  "fair_dial d \<longleftrightarrow> 0 \<le> di_random d \<and> di_random d < 1 \<and> list_all foreign_read (di_reads d) \<and>
     (case di_response d of Inl e \<Rightarrow> foreign_error e | Inr _ \<Rightarrow> True)"

definition foreign_callback :: "'p sse_env \<Rightarrow> bool" where
  "foreign_callback env \<longleftrightarrow> (\<forall>e. case ss_onEvent env e of None \<Rightarrow> True | Some err \<Rightarrow> foreign_error err)"

lemma drain_foreign:
  "foreign_callback env \<Longrightarrow> drain_messages env ms = (es, Some err, rest) \<Longrightarrow> foreign_error err"
proof (induction ms arbitrary: es rest)
  case (Cons m ms)
  show ?case
  proof (cases "parseEventMessage (ss_parse env) m")
    case None
    then show ?thesis using Cons by simp
  next
    case (Some e)
    have "case ss_onEvent env e of None \<Rightarrow> True | Some err \<Rightarrow> foreign_error err"
      using Cons.prems(1) unfolding foreign_callback_def by blast
    then show ?thesis using Cons Some by (auto split: option.splits prod.splits)
  qed
qed simp

lemma drainEvents_foreign: "foreign_callback env \<Longrightarrow> drainEvents env st = (Some err, st') \<Longrightarrow> foreign_error err"
  by (auto simp: drainEvents_def Let_def dest: drain_foreign split: prod.splits)

lemma read_stream_foreign:
  "foreign_callback env \<Longrightarrow> list_all foreign_read rest \<Longrightarrow> read_stream env rest st = (Broken err, st') \<Longrightarrow> foreign_error err"
proof (induction env rest st rule: read_stream.induct)
  case (3 env t stale rest st)
  then show ?case
    by (auto simp: finish_stream_def Let_def end_of_def dest: drainEvents_foreign split: prod.splits if_splits option.splits)
next
  case (4 env chunk rest st)
  obtain e st1 where d: "drainEvents env (feedDecodedChunk env chunk (st\<lparr>st_firstByte := True\<rparr>)) = (e, st1)" by (rule prod.exhaust)
  then show ?case using 4 drainEvents_foreign [OF 4(2)] by (cases e) auto
qed simp_all

lemma foreign_info: "foreign_error e \<Longrightarrow> ei_retry_after_ms (errorInfo e) = None \<and> ei_reason (errorInfo e) \<noteq> ''auth_failed''"
  by (cases e) auto

lemma response_retry:
  assumes "response_error dateParse now res = Some e" and "ei_retry_after_ms (errorInfo e) = Some ms"
  shows "ei_http_status (errorInfo e) = Some 429 \<and> 0 \<le> ms \<and> ms \<le> 300000"
proof -
  obtain r where r: "parseRetryAfter dateParse now 300000 (sr_retryAfter res) = Inr r" "\<forall>ms. r = Some ms \<longrightarrow> 0 \<le> ms \<and> ms \<le> 300000"
    using parseRetryAfter_bounded [of 300000 dateParse now "sr_retryAfter res"] by (auto simp: MAX_SAFE_RETRY_AFTER_MS_def)
  show ?thesis
    using assms r by (auto simp: response_error_def MAX_SSE_RETRY_AFTER_MS_def split: if_splits)
qed

text \<open>The wait of a broken connection, whatever broke it.\<close>

lemma broken_wait:
  assumes "foreign_callback env" and "fair_dial d" and "dialAndStream env d = (Broken err, firstByte, actions)"
    and "ei_retry_after_ms (errorInfo err) = Some ms"
  shows "ei_http_status (errorInfo err) = Some 429 \<and> 0 \<le> ms \<and> ms \<le> 300000"
proof (cases "di_response d")
  case (Inl e)
  then show ?thesis using assms foreign_info by (auto simp: dialAndStream_def fair_dial_def)
next
  case (Inr res)
  show ?thesis
  proof (cases "response_error (ss_dateParse env) (di_now d) res")
    case None
    then obtain st where "read_stream env (di_reads d) (new_stream env) = (Broken err, st)"
      using assms(3) Inr by (auto simp: dialAndStream_def split: prod.splits)
    then have "foreign_error err" using assms(1,2) read_stream_foreign by (auto simp: fair_dial_def)
    then show ?thesis using foreign_info assms(4) by auto
  next
    case (Some e)
    then show ?thesis using assms(3,4) Inr response_retry by (auto simp: dialAndStream_def)
  qed
qed

text \<open>The Cloud refused the key.\<close>

definition key_refused :: "dial \<Rightarrow> bool" where
  "key_refused d \<longleftrightarrow> (\<exists>res. di_response d = Inr res \<and> (sr_status res = 401 \<or> sr_status res = 403))"

lemma response_refused:
  "response_error dateParse now res = Some e \<Longrightarrow>
     ei_reason (errorInfo e) = ''auth_failed'' \<longleftrightarrow> sr_status res = 401 \<or> sr_status res = 403"
  using parseRetryAfter_bounded [of 300000 dateParse now "sr_retryAfter res"]
  by (auto simp: response_error_def MAX_SSE_RETRY_AFTER_MS_def MAX_SAFE_RETRY_AFTER_MS_def split: if_splits)

lemma broken_refused:
  assumes "foreign_callback env" and "fair_dial d" and "dialAndStream env d = (Broken err, firstByte, actions)"
  shows "ei_reason (errorInfo err) = ''auth_failed'' \<longleftrightarrow> key_refused d"
proof (cases "di_response d")
  case (Inl e)
  then show ?thesis using assms foreign_info by (auto simp: dialAndStream_def fair_dial_def key_refused_def)
next
  case (Inr res)
  show ?thesis
  proof (cases "response_error (ss_dateParse env) (di_now d) res")
    case None
    then obtain st where "read_stream env (di_reads d) (new_stream env) = (Broken err, st)"
      using assms(3) Inr by (auto simp: dialAndStream_def split: prod.splits)
    then have "foreign_error err" using assms(1,2) read_stream_foreign by (auto simp: fair_dial_def)
    moreover have "\<not> key_refused d" using None Inr by (auto simp: key_refused_def response_error_def)
    ultimately show ?thesis using foreign_info by auto
  next
    case (Some e)
    then have "err = e" using assms(3) Inr by (auto simp: dialAndStream_def)
    then show ?thesis using response_refused [OF Some] Inr by (simp add: key_refused_def)
  qed
qed

lemma refused_broken: "key_refused d \<Longrightarrow> \<exists>err. dialAndStream env d = (Broken err, False, [])"
  by (auto simp: key_refused_def dialAndStream_def response_error_def)

section \<open>The history of the connections\<close>

text \<open>The number of failures in a row after the connections \<open>ds\<close>: those since the last stable one, and that one
  too if it broke.\<close>

definition stable_dial :: "'p sse_env \<Rightarrow> dial \<Rightarrow> bool" where
  "stable_dial env d \<longleftrightarrow> (case dialAndStream env d of (_, firstByte, _) \<Rightarrow> firstByte \<and> di_lived d \<ge> 60000)"

definition failures_in_row :: "'p sse_env \<Rightarrow> dial list \<Rightarrow> nat" where
  "failures_in_row env ds =
     length (takeWhile (\<lambda>d. \<not> stable_dial env d) (rev ds)) +
     (case dropWhile (\<lambda>d. \<not> stable_dial env d) (rev ds) of
        [] \<Rightarrow> 0
      | d # _ \<Rightarrow> if fst (dialAndStream env d) = Closed then 0 else 1)"

lemma failures_in_row_snoc:
  "failures_in_row env (ds @ [d]) =
     (if stable_dial env d then (if fst (dialAndStream env d) = Closed then 0 else 1) else failures_in_row env ds + 1)"
  by (simp add: failures_in_row_def)

text \<open>What a connection lost after \<open>n\<close> failures in a row is reported as: the failure becomes the daemon's sync
  error exactly from the fourth one in a row on.\<close>

definition lost :: "nat \<Rightarrow> reconnect_info \<Rightarrow> bool" where
  "lost n i \<longleftrightarrow> ri_attempt i = n \<and> ri_consecutive_failures i = n + 1 \<and>
     (lastSyncErrorForSseReconnect (ri_reason i) (ri_classification i) \<noteq> None \<longleftrightarrow> 4 \<le> n + 1)"

text \<open>What follows the events of a connection, \<open>n\<close> being the failures in a row before it.\<close>

definition reported :: "'p sse_env \<Rightarrow> nat \<Rightarrow> dial \<Rightarrow> sse_action list \<Rightarrow> bool" where
  "reported env n d tail \<longleftrightarrow>
     (let n' = (if stable_dial env d then 0 else n)
      in case fst (dialAndStream env d) of
           Still_open \<Rightarrow> tail = []
         | Closed \<Rightarrow>
             if stable_dial env d then tail = []
             else (\<exists>i. tail = [Disconnected i] \<and> lost n i \<and> backoff_window n (ri_wait_ms i))
         | Broken err \<Rightarrow>
             if di_abortedAtEnd d then tail = []
             else if key_refused d then tail = [Auth_failed]
             else (\<exists>i. tail = [Disconnected i] \<and> lost n' i \<and>
               (backoff_window n' (ri_wait_ms i) \<or> ri_http_status i = Some 429 \<and> 0 \<le> ri_wait_ms i \<and> ri_wait_ms i \<le> 300000)))"

text \<open>Another connection is made after this one.\<close>

definition redials :: "'p sse_env \<Rightarrow> dial \<Rightarrow> bool" where
  "redials env d \<longleftrightarrow> fst (dialAndStream env d) \<noteq> Still_open \<and> \<not> key_refused d \<and> \<not> di_abortedAtEnd d \<and> \<not> di_abortedAfterWait d"

lemma lost_info: "lost n (buildReconnectInfo reason n wait firstByte status requestId)"
  by (auto simp: lost_def buildReconnectInfo_def classifySseReconnect_def TRANSIENT_RECONNECT_FAILURES_def
      lastSyncErrorForSseReconnect_def)

lemma turn_reported:
  assumes "foreign_callback env" and "fair_dial d"
  shows "\<exists>tail next_attempt. sse_turn env d n = (snd (snd (dialAndStream env d)) @ tail, next_attempt) \<and> reported env n d tail \<and>
    (redials env d \<longrightarrow> next_attempt = Some (if stable_dial env d then (if fst (dialAndStream env d) = Closed then 0 else 1) else n + 1)) \<and>
    (\<not> redials env d \<longrightarrow> next_attempt = None \<or> di_abortedAtEnd d \<or> di_abortedAfterWait d)"
proof -
  obtain ended firstByte actions where dial: "dialAndStream env d = (ended, firstByte, actions)" by (metis prod_cases3)
  have st: "stable d firstByte = stable_dial env d" by (simp add: stable_def stable_dial_def dial STABLE_CONNECTION_MS_def)
  have wait: "backoff_window m (backoffMs (di_random d) m)" for m
    using backoff_bounds assms(2) by (simp add: fair_dial_def)
  show ?thesis
  proof (cases ended)
    case Still_open
    then show ?thesis using dial by (simp add: sse_turn_def reported_def redials_def)
  next
    case Closed
    have "\<not> key_refused d" using refused_broken [of d env] dial Closed by auto
    then show ?thesis
      using dial Closed lost_info wait by (auto simp: sse_turn_def st reported_def redials_def buildReconnectInfo_def)
  next
    case (Broken err)
    note w = broken_wait [OF assms dial [unfolded Broken]] and r = broken_refused [OF assms dial [unfolded Broken]]
    let ?n = "if stable_dial env d then 0 else n"
    let ?i = "buildReconnectInfo (ei_reason (errorInfo err)) ?n
      (case ei_retry_after_ms (errorInfo err) of Some ms \<Rightarrow> ms | None \<Rightarrow> backoffMs (di_random d) ?n) None
      (ei_http_status (errorInfo err)) (ei_request_id (errorInfo err))"
    have i: "lost ?n ?i" "backoff_window ?n (ri_wait_ms ?i) \<or> ri_http_status ?i = Some 429 \<and> 0 \<le> ri_wait_ms ?i \<and> ri_wait_ms ?i \<le> 300000"
      using lost_info w wait by (auto simp: buildReconnectInfo_def split: option.split)
    consider "di_abortedAtEnd d" | "\<not> di_abortedAtEnd d" "key_refused d" | "\<not> di_abortedAtEnd d" "\<not> key_refused d" by blast
    then show ?thesis
    proof cases
      case 3
      then have "sse_turn env d n = (actions @ [Disconnected ?i], Some (?n + 1))"
        using dial Broken r by (simp add: sse_turn_def Let_def st)
      moreover have "reported env n d [Disconnected ?i]" unfolding reported_def Let_def using 3 i dial Broken by simp
      ultimately show ?thesis using 3 dial Broken by (auto simp: redials_def)
    qed (use dial Broken r in \<open>simp_all add: sse_turn_def Let_def reported_def redials_def\<close>)
  qed
qed

lemma consume_reported:
  assumes "foreign_callback env"
  shows "list_all fair_dial ds \<Longrightarrow>
    \<exists>log. consume_loop env (failures_in_row env before) ds = concat log \<and>
      length log = min (length ds) (Suc (length (takeWhile (redials env) ds))) \<and>
      (\<forall>k<length log. \<exists>tail. log ! k = snd (snd (dialAndStream env (ds ! k))) @ tail \<and>
         reported env (failures_in_row env (before @ take k ds)) (ds ! k) tail)"
proof (induction ds arbitrary: before)
  case (Cons d ds)
  let ?n = "failures_in_row env before"
  obtain tail next_attempt where turn: "sse_turn env d ?n = (snd (snd (dialAndStream env d)) @ tail, next_attempt)"
    and rep: "reported env ?n d tail"
    and go: "redials env d \<Longrightarrow> next_attempt = Some (failures_in_row env (before @ [d]))"
    and halt: "\<not> redials env d \<Longrightarrow> next_attempt = None \<or> di_abortedAtEnd d \<or> di_abortedAfterWait d"
    using turn_reported [OF assms, of d ?n] Cons.prems by (auto simp: failures_in_row_snoc)
  let ?now = "snd (snd (dialAndStream env d)) @ tail"
  show ?case
  proof (cases "redials env d")
    case True
    obtain log where log: "consume_loop env (failures_in_row env (before @ [d])) ds = concat log"
      "length log = min (length ds) (Suc (length (takeWhile (redials env) ds)))"
      "\<forall>k<length log. \<exists>tail. log ! k = snd (snd (dialAndStream env (ds ! k))) @ tail \<and>
         reported env (failures_in_row env ((before @ [d]) @ take k ds)) (ds ! k) tail"
      using Cons.IH [of "before @ [d]"] Cons.prems by auto
    have "\<exists>tail. (?now # log) ! k = snd (snd (dialAndStream env ((d # ds) ! k))) @ tail \<and>
        reported env (failures_in_row env (before @ take k (d # ds))) ((d # ds) ! k) tail" if "k < length (?now # log)" for k
      using that rep log(3) by (cases k) auto
    moreover have "consume_loop env ?n (d # ds) = concat (?now # log)"
      using turn go [OF True] True log(1) by (simp add: redials_def)
    moreover have "length (?now # log) = min (length (d # ds)) (Suc (length (takeWhile (redials env) (d # ds))))"
      using True log(2) by simp
    ultimately show ?thesis by blast
  next
    case False
    then have "consume_loop env ?n (d # ds) = concat [?now]" using turn halt by (auto split: option.split)
    then show ?thesis using False rep by (intro exI [of _ "[?now]"]) auto
  qed
qed simp


definition refused :: dial where
  "refused = \<lparr>di_response = Inr \<lparr>sr_status = 429, sr_requestId = None, sr_retryAfter = Some ''7'', sr_hasBody = True\<rparr>, di_now = 0,
     di_reads = [], di_lived = 0, di_random = 1 / 2, di_abortedAtEnd = False, di_abortedAfterWait = False\<rparr>"

definition revoked :: dial where
  "revoked = refused\<lparr>di_response := Inr \<lparr>sr_status = 401, sr_requestId = None, sr_retryAfter = None, sr_hasBody = True\<rparr>\<rparr>"

definition unreachable :: dial where
  "unreachable = refused\<lparr>di_response := Inl (NamedError ''TypeError'' ''fetch failed'')\<rparr>"


text \<open>An outage: the attempts are numbered in a row, so the waits grow up to the cap.\<close>

definition no_connection :: "dial \<Rightarrow> bool" where
  "no_connection d \<longleftrightarrow> (\<exists>e. di_response d = Inl e \<and> foreign_error e) \<and> \<not> di_abortedAtEnd d \<and> \<not> di_abortedAfterWait d"

lemma outage_attempts:
  "list_all no_connection ds \<Longrightarrow>
   map (\<lambda>a. case a of Disconnected i \<Rightarrow> ri_attempt i | _ \<Rightarrow> 0) (consume_loop env attempt ds) = [attempt..<attempt + length ds]"
proof (induction ds arbitrary: attempt)
  case (Cons d ds)
  then obtain e where e: "di_response d = Inl e" "foreign_error e" "\<not> di_abortedAtEnd d" "\<not> di_abortedAfterWait d"
    by (auto simp: no_connection_def)
  then have "ei_reason (errorInfo e) \<noteq> ''auth_failed''" "\<not> stable d False" using foreign_info by (auto simp: stable_def)
  then have "sse_turn env d attempt = ([Disconnected (buildReconnectInfo (ei_reason (errorInfo e)) attempt
      (case ei_retry_after_ms (errorInfo e) of Some ms \<Rightarrow> ms | None \<Rightarrow> backoffMs (di_random d) attempt) None
      (ei_http_status (errorInfo e)) (ei_request_id (errorInfo e)))], Some (attempt + 1))"
    using e by (simp add: sse_turn_def dialAndStream_def Let_def)
  then show ?case using Cons e by (simp add: buildReconnectInfo_def upt_conv_Cons del: upt_Suc)
qed simp

end
