(* ===== verification/DirectoryLock.thy ===== *)
theory DirectoryLock
  imports JsonCodec
begin

text \<open>
  The lock directory both ledgers are written under (\<open>packages/cli/src/lib/private-directory-lock.ts\<close>):
  \<open>withPrivateDirectoryLockSync\<close> and \<open>withPrivateDirectoryLock\<close> take the same steps.

  Contenders of any number of processes share one file system. A step of the model is one call of the
  file system; between two steps any other contender may run, time may pass and a process may die. The
  directory at \<open>lockDir\<close> is \<open>lk_canonical\<close>; one that was renamed to a contender's own \<open>.stale.\<close> name can
  be reached by that contender alone and is part of its position. \<open>rmSync\<close> of a directory is one step.
\<close>

section \<open>The directory and its owner file\<close>

record lock_owner =
  lw_pid :: int
  lw_acquiredAt :: string
  lw_token :: string

text \<open>\<open>ld_owner\<close> is the text of \<open>owner.json\<close>, \<open>ld_staged\<close> holds the temporary files of \<open>writePrivateFileAtomic\<close>
  by the token of their writer.\<close>

record lock_dir =
  ld_owner :: "string option"
  ld_staged :: "string list"
  ld_mtime :: int

text \<open>\<open>le_renameExists\<close>: a rename onto a directory that is not empty reports \<open>EEXIST\<close>; otherwise
  \<open>ENOTEMPTY\<close>. Both are allowed.\<close>

record lock_env =
  le_parse :: "string \<Rightarrow> json option"
  le_toISOString :: "int \<Rightarrow> string"
  le_dateParse :: "string \<Rightarrow> int option"
  le_timeoutMs :: int
  le_staleMs :: int
  le_renameExists :: bool

definition LOCK_OWNER_SCHEMA :: string where
  "LOCK_OWNER_SCHEMA = ''clawdi.privateDirectoryLockOwner.v1''"

definition DEFAULT_TIMEOUT_MS :: int where "DEFAULT_TIMEOUT_MS = 30000"
definition DEFAULT_STALE_MS :: int where "DEFAULT_STALE_MS = 60000"

definition empty_lock_dir :: "int \<Rightarrow> lock_dir" where
  "empty_lock_dir now = \<lparr>ld_owner = None, ld_staged = [], ld_mtime = now\<rparr>"

definition parse_owner :: "lock_env \<Rightarrow> string \<Rightarrow> lock_owner option" where
  "parse_owner env text =
     (case le_parse env text of
        None \<Rightarrow> None
      | Some value \<Rightarrow>
          if \<not> is_record value then None
          else if jprop value ''schemaVersion'' \<noteq> Some (JStr LOCK_OWNER_SCHEMA) then None
          else (case (as_number (jprop value ''pid''), as_string (jprop value ''acquiredAt''), as_string (jprop value ''token'')) of
              (Some pid, Some acquiredAt, Some token) \<Rightarrow>
                if pid \<le> 0 \<or> le_dateParse env acquiredAt = None \<or> token = [] then None
                else Some \<lparr>lw_pid = pid, lw_acquiredAt = acquiredAt, lw_token = token\<rparr>
            | _ \<Rightarrow> None))"

definition readOwner :: "lock_env \<Rightarrow> lock_dir option \<Rightarrow> lock_owner option" where
  "readOwner env dir =
     (case dir of None \<Rightarrow> None | Some d \<Rightarrow> (case ld_owner d of None \<Rightarrow> None | Some text \<Rightarrow> parse_owner env text))"

definition owner_text :: "lock_env \<Rightarrow> int \<Rightarrow> string \<Rightarrow> int \<Rightarrow> string" where
  "owner_text env pid token now =
     stringify (JObj [(''schemaVersion'', JStr LOCK_OWNER_SCHEMA), (''pid'', JNum pid),
       (''acquiredAt'', JStr (le_toISOString env now)), (''token'', JStr token)]) @ [newline]"

text \<open>\<open>readOwner(lockDir)?.token !== token\<close>, negated: what \<open>assertOwned\<close> and \<open>releaseOwnedLock\<close> look at.\<close>

definition owned_by_token :: "lock_env \<Rightarrow> string \<Rightarrow> lock_dir option \<Rightarrow> bool" where
  "owned_by_token env token dir \<longleftrightarrow> map_option lw_token (readOwner env dir) = Some token"

section \<open>Reclaiming\<close>

datatype stale_observation = Owner_seen lock_owner | Ownerless int

definition observationMatches :: "lock_env \<Rightarrow> lock_dir \<Rightarrow> stale_observation \<Rightarrow> bool" where
  "observationMatches env moved observed =
     (case observed of
        Owner_seen owner \<Rightarrow>
          (case readOwner env (Some moved) of
             None \<Rightarrow> False
           | Some now \<Rightarrow> lw_token now = lw_token owner \<and> lw_pid now = lw_pid owner \<and> lw_acquiredAt now = lw_acquiredAt owner)
      | Ownerless mtime \<Rightarrow> readOwner env (Some moved) = None \<and> ld_mtime moved = mtime)"

section \<open>The steps of a call\<close>

datatype lock_outcome = Ran | Lock_failed string

text \<open>What the contender is about to do.\<close>

datatype lock_position =
    Trying                        \<comment> \<open>\<open>mkdirSync(lockDir)\<close>\<close>
  | Created                       \<comment> \<open>\<open>writePrivateFileAtomic\<close>: \<open>mkdirSync(dir, recursive)\<close>\<close>
  | Staging string                \<comment> \<open>write of the temporary file\<close>
  | Publishing string             \<comment> \<open>rename of it to \<open>owner.json\<close>\<close>
  | Abandoning string             \<comment> \<open>\<open>rmSync(lockDir)\<close> after a failed write\<close>
  | Asserting                     \<comment> \<open>the first \<open>assertOwned\<close>\<close>
  | Inside                        \<comment> \<open>running \<open>fn\<close>\<close>
  | Leaving lock_outcome          \<comment> \<open>\<open>releaseOwnedLock\<close>: reading the owner\<close>
  | Releasing lock_outcome        \<comment> \<open>\<open>releaseOwnedLock\<close>: \<open>rmSync(lockDir)\<close>\<close>
  | Occupied                      \<comment> \<open>\<open>staleObservation\<close>: reading the owner\<close>
  | Statting                      \<comment> \<open>\<open>staleObservation\<close>: \<open>statSync(lockDir)\<close>\<close>
  | Reclaiming stale_observation  \<comment> \<open>\<open>renameSync(lockDir, staleDir)\<close>\<close>
  | Moved stale_observation lock_dir
  | Clearing lock_dir             \<comment> \<open>\<open>rmSync(staleDir)\<close>\<close>
  | Restoring lock_dir            \<comment> \<open>\<open>renameSync(staleDir, lockDir)\<close>\<close>
  | Pausing                       \<comment> \<open>the deadline, then \<open>sleep(retryMs)\<close>\<close>
  | Over lock_outcome

text \<open>\<open>staleObservation\<close>: the owner is read, then, where there is none, the modification time of the directory.\<close>

definition staleObservation :: "lock_env \<Rightarrow> int \<Rightarrow> (int \<Rightarrow> bool) \<Rightarrow> lock_position \<Rightarrow> lock_dir option \<Rightarrow> lock_position" where
  "staleObservation env now alive position dir =
     (case position of
        Occupied \<Rightarrow>
          (case readOwner env dir of
             Some owner \<Rightarrow> if alive (lw_pid owner) then Pausing else Reclaiming (Owner_seen owner)
           | None \<Rightarrow> Statting)
      | _ \<Rightarrow>
          (case dir of
             None \<Rightarrow> Reclaiming (Ownerless 0)
           | Some d \<Rightarrow> if now - ld_mtime d > le_staleMs env then Reclaiming (Ownerless (ld_mtime d)) else Pausing))"

text \<open>\<open>reclaimStaleLock\<close> after the observation: the directory is moved away, compared with what was observed,
  and deleted or put back.\<close>

definition reclaimStaleLock :: "lock_env \<Rightarrow> lock_position \<Rightarrow> lock_dir option \<Rightarrow> lock_position \<times> lock_dir option" where
  "reclaimStaleLock env position dir =
     (case position of
        Reclaiming observed \<Rightarrow> (case dir of None \<Rightarrow> (Trying, None) | Some d \<Rightarrow> (Moved observed d, None))
      | Moved observed d \<Rightarrow> (if observationMatches env d observed then Clearing d else Restoring d, dir)
      | Restoring d \<Rightarrow>
          (case dir of
             None \<Rightarrow> (Pausing, Some d)
           | Some e \<Rightarrow>
               if ld_owner e = None \<and> ld_staged e = [] then (Pausing, Some d)
               else if le_renameExists env then (Pausing, dir) else (Over (Lock_failed ''ENOTEMPTY''), dir))
      | _ \<Rightarrow> (Trying, dir))"

definition releaseOwnedLock :: "lock_env \<Rightarrow> string \<Rightarrow> lock_position \<Rightarrow> lock_dir option \<Rightarrow> lock_position \<times> lock_dir option" where
  "releaseOwnedLock env token position dir =
     (case position of
        Leaving r \<Rightarrow> (if owned_by_token env token dir then (Releasing r, dir) else (Over r, dir))
      | Releasing r \<Rightarrow> (Over r, None)
      | _ \<Rightarrow> (position, dir))"

text \<open>Creating the directory and publishing the owner file in it.\<close>

definition acquire_step :: "lock_env \<Rightarrow> int \<Rightarrow> string \<Rightarrow> int \<Rightarrow> lock_position \<Rightarrow> lock_dir option \<Rightarrow> lock_position \<times> lock_dir option" where
  "acquire_step env pid token now position dir =
     (case position of
        Trying \<Rightarrow> (case dir of None \<Rightarrow> (Created, Some (empty_lock_dir now)) | Some _ \<Rightarrow> (Occupied, dir))
      | Created \<Rightarrow> (Staging (owner_text env pid token now), Some (case dir of None \<Rightarrow> empty_lock_dir now | Some d \<Rightarrow> d))
      | Staging text \<Rightarrow>
          (case dir of
             None \<Rightarrow> (Abandoning ''ENOENT'', None)
           | Some d \<Rightarrow> (Publishing text, Some (d\<lparr>ld_staged := set_add token (ld_staged d), ld_mtime := now\<rparr>)))
      | Publishing text \<Rightarrow>
          (case dir of
             None \<Rightarrow> (Abandoning ''ENOENT'', None)
           | Some d \<Rightarrow>
               if token \<in> set (ld_staged d)
               then (Asserting, Some (d\<lparr>ld_owner := Some text, ld_staged := filter (\<lambda>x. x \<noteq> token) (ld_staged d), ld_mtime := now\<rparr>))
               else (Abandoning ''ENOENT'', dir))
      | Abandoning e \<Rightarrow> (Over (Lock_failed e), None)
      | _ \<Rightarrow> (position, dir))"

definition lock_step :: "lock_env \<Rightarrow> int \<Rightarrow> string \<Rightarrow> int \<Rightarrow> int \<Rightarrow> (int \<Rightarrow> bool) \<Rightarrow> lock_position \<Rightarrow> lock_dir option \<Rightarrow>
    lock_position \<times> lock_dir option" where
  "lock_step env pid token startedAt now alive position dir =
     (case position of
        Asserting \<Rightarrow>
          (if owned_by_token env token dir then (Inside, dir) else (Leaving (Lock_failed ''lost ownership of private lock''), dir))
      | Inside \<Rightarrow> (Leaving Ran, dir)
      | Leaving _ \<Rightarrow> releaseOwnedLock env token position dir
      | Releasing _ \<Rightarrow> releaseOwnedLock env token position dir
      | Occupied \<Rightarrow> (staleObservation env now alive position dir, dir)
      | Statting \<Rightarrow> (staleObservation env now alive position dir, dir)
      | Reclaiming _ \<Rightarrow> reclaimStaleLock env position dir
      | Moved _ _ \<Rightarrow> reclaimStaleLock env position dir
      | Clearing _ \<Rightarrow> reclaimStaleLock env position dir
      | Restoring _ \<Rightarrow> reclaimStaleLock env position dir
      | Pausing \<Rightarrow>
          (if now - startedAt \<ge> le_timeoutMs env then (Over (Lock_failed ''timed out waiting for private lock''), dir) else (Trying, dir))
      | Over r \<Rightarrow> (Over r, dir)
      | _ \<Rightarrow> acquire_step env pid token now position dir)"

lemmas lock_step_defs = lock_step_def acquire_step_def releaseOwnedLock_def reclaimStaleLock_def staleObservation_def

section \<open>Contenders on one file system\<close>

record contender =
  ct_pid :: int
  ct_startedAt :: int
  ct_at :: lock_position

record lock_system =
  lk_canonical :: "lock_dir option"
  lk_contenders :: "(string, contender) js_map"
  lk_now :: int
  lk_dead :: "int list"

text \<open>A call joins with a token of its own (\<open>randomUUID\<close>) in a process whose identifier is a positive number
  that JSON keeps; a process that died does nothing more.\<close>

datatype lock_event = Join string int | Act string | Elapse nat | Crash int

fun lock_after :: "lock_env \<Rightarrow> lock_event \<Rightarrow> lock_system \<Rightarrow> lock_system" where
  "lock_after env (Join token pid) s =
     (if token = [] \<or> pid \<le> 0 \<or> \<not> safe_integer pid \<or> map_has (lk_contenders s) token \<or> pid \<in> set (lk_dead s) then s
      else s\<lparr>lk_contenders := map_set token \<lparr>ct_pid = pid, ct_startedAt = lk_now s, ct_at = Trying\<rparr> (lk_contenders s)\<rparr>)"
| "lock_after env (Act token) s =
     (case map_get (lk_contenders s) token of
        None \<Rightarrow> s
      | Some c \<Rightarrow>
          if ct_pid c \<in> set (lk_dead s) then s
          else (let (position, dir) = lock_step env (ct_pid c) token (ct_startedAt c) (lk_now s) (\<lambda>pid. pid \<notin> set (lk_dead s))
                      (ct_at c) (lk_canonical s)
                in s\<lparr>lk_canonical := dir, lk_contenders := map_set token (c\<lparr>ct_at := position\<rparr>) (lk_contenders s)\<rparr>))"
| "lock_after env (Elapse d) s = s\<lparr>lk_now := lk_now s + int d\<rparr>"
| "lock_after env (Crash pid) s = s\<lparr>lk_dead := set_add pid (lk_dead s)\<rparr>"

definition lock_run :: "lock_env \<Rightarrow> lock_event list \<Rightarrow> lock_system \<Rightarrow> lock_system" where
  "lock_run env events s = fold (lock_after env) events s"

definition free_lock :: "int \<Rightarrow> lock_system" where
  "free_lock now = \<lparr>lk_canonical = None, lk_contenders = [], lk_now = now, lk_dead = []\<rparr>"

end
