(* ===== verification/DirectoryLockLaws.thy ===== *)
theory DirectoryLockLaws
  imports DirectoryLock
begin

text \<open>
  What the lock directory guarantees under every interleaving: a reclaimer deletes no directory of a
  living owner, and as long as nothing is reclaimed the calls exclude each other. With reclaiming they
  do not, and one run shows it without any crash: what is left is the fence, \<open>assertOwned\<close>.
\<close>

section \<open>The owner file is read back\<close>

locale json_line_codec = json_codec +
  assumes parse_line: "json_ok j \<Longrightarrow> parse (stringify j @ [newline]) = Some j"

interpretation line_parser: json_line_codec json_parse
proof unfold_locales
  fix j assume ok: "json_ok j"
  show "json_parse (stringify j @ [newline]) = Some j"
    using json_parse_render [of "\<lambda>_. []" "[]" j "[newline]"] ok
    by (simp add: stringify_render [of j 0] is_ws_def list_all_iff)
qed

definition lock_env_ok :: "lock_env \<Rightarrow> bool" where
  "lock_env_ok env \<longleftrightarrow> json_line_codec (le_parse env) \<and> (\<forall>t. le_dateParse env (le_toISOString env t) \<noteq> None)"

lemma lock_env_dates: "lock_env_ok env \<Longrightarrow> le_dateParse env (le_toISOString env t) \<noteq> None"
  unfolding lock_env_ok_def by blast

lemma parse_owner_text:
  assumes "lock_env_ok env" and "0 < pid" and "safe_integer pid" and "token \<noteq> []"
  shows "parse_owner env (owner_text env pid token now) =
    Some \<lparr>lw_pid = pid, lw_acquiredAt = le_toISOString env now, lw_token = token\<rparr>"
proof -
  let ?j = "JObj [(''schemaVersion'', JStr LOCK_OWNER_SCHEMA), (''pid'', JNum pid),
       (''acquiredAt'', JStr (le_toISOString env now)), (''token'', JStr token)]"
  have "json_ok ?j" using assms(3) by (simp add: plain_key_def)
  then have "le_parse env (owner_text env pid token now) = Some ?j"
    using assms(1) json_line_codec.parse_line [of "le_parse env" ?j] by (simp add: lock_env_ok_def owner_text_def)
  then show ?thesis
    using assms lock_env_dates [OF assms(1), of now] by (simp add: parse_owner_def)
qed

section \<open>One contender at a time\<close>

definition stale_evidence :: "lock_env \<Rightarrow> int \<Rightarrow> int list \<Rightarrow> stale_observation \<Rightarrow> bool" where
  "stale_evidence env now dead observed =
     (case observed of Owner_seen owner \<Rightarrow> lw_pid owner \<in> set dead | Ownerless m \<Rightarrow> m = 0 \<or> now - m > le_staleMs env)"

text \<open>What justifies deleting a directory: its owner is dead, or it has none and is old.\<close>

definition deserted :: "lock_env \<Rightarrow> int \<Rightarrow> int list \<Rightarrow> lock_dir \<Rightarrow> bool" where
  "deserted env now dead d =
     (case readOwner env (Some d) of
        Some owner \<Rightarrow> lw_pid owner \<in> set dead
      | None \<Rightarrow> ld_mtime d = 0 \<or> now - ld_mtime d > le_staleMs env)"

fun justified :: "lock_env \<Rightarrow> int \<Rightarrow> int list \<Rightarrow> lock_position \<Rightarrow> bool" where
  "justified env now dead (Reclaiming observed) = stale_evidence env now dead observed"
| "justified env now dead (Moved observed d) = stale_evidence env now dead observed"
| "justified env now dead (Clearing d) = deserted env now dead d"
| "justified env now dead _ = True"

lemma evidence_matches: "stale_evidence env now dead observed \<Longrightarrow> observationMatches env d observed \<Longrightarrow> deserted env now dead d"
  by (auto simp: stale_evidence_def observationMatches_def deserted_def split: stale_observation.splits option.splits)

lemma justified_step:
  "justified env now dead position \<Longrightarrow>
   justified env now dead (fst (lock_step env pid token startedAt now (\<lambda>p. p \<notin> set dead) position dir))"
  by (cases position)
    (auto simp: lock_step_defs stale_evidence_def evidence_matches split: option.splits)

lemma justified_later:
  "justified env now dead position \<Longrightarrow> now \<le> now' \<Longrightarrow> set dead \<subseteq> set dead' \<Longrightarrow> justified env now' dead' position"
  by (cases position) (auto simp: stale_evidence_def deserted_def split: stale_observation.splits option.splits)

definition all_justified :: "lock_env \<Rightarrow> lock_system \<Rightarrow> bool" where
  "all_justified env s \<longleftrightarrow> (\<forall>token c. map_get (lk_contenders s) token = Some c \<longrightarrow> justified env (lk_now s) (lk_dead s) (ct_at c))"

lemma all_justified_event: "all_justified env s \<Longrightarrow> all_justified env (lock_after env ev s)"
proof (induction env ev s rule: lock_after.induct)
  case (2 env token s)
  show ?case
  proof (cases "map_get (lk_contenders s) token")
    case None
    then show ?thesis using 2 by simp
  next
    case (Some c)
    show ?thesis
      using 2 Some justified_step [of env "lk_now s" "lk_dead s" "ct_at c" "ct_pid c" token "ct_startedAt c" "lk_canonical s"]
      by (auto simp: all_justified_def split: prod.split)
  qed
next
  case (3 env d s)
  then show ?case by (simp add: all_justified_def) (meson justified_later le_add_same_cancel1 of_nat_0_le_iff order_refl)
next
  case (4 env pid s)
  have "set (lk_dead s) \<subseteq> set (set_add pid (lk_dead s))" by auto
  from justified_later [OF _ order_refl this] 4 show ?case by (auto simp: all_justified_def simp del: set_set_add)
qed (auto simp: all_justified_def)

lemma all_justified_run: "all_justified env s \<Longrightarrow> all_justified env (lock_run env events s)"
  unfolding lock_run_def by (induction events arbitrary: s) (auto dest: all_justified_event)

text \<open>C28. Reclaiming spares the living: in whatever order the calls of any number of processes interleave,
  clocks advance and processes die, a directory that a contender is about to delete as stale names an
  owner that has died, or names none and is older than \<open>staleMs\<close> (or carries no modification time). The
  directory of a live successor that was renamed away by mistake is never deleted.\<close>

theorem reclaim_spares_the_living:
  assumes "map_get (lk_contenders (lock_run env events (free_lock t0))) token = Some c" and "ct_at c = Clearing d"
  shows "deserted env (lk_now (lock_run env events (free_lock t0))) (lk_dead (lock_run env events (free_lock t0))) d"
proof -
  have "all_justified env (free_lock t0)" by (simp add: all_justified_def free_lock_def)
  from all_justified_run [OF this, of events] show ?thesis
    using assms by (force simp: all_justified_def)
qed

section \<open>Exclusion\<close>

text \<open>The stretch of a call in which the lock is its own, from \<open>mkdirSync\<close> to \<open>rmSync\<close>.\<close>

fun has_lock :: "lock_position \<Rightarrow> bool" where
  "has_lock Created = True"
| "has_lock (Staging _) = True"
| "has_lock (Publishing _) = True"
| "has_lock Asserting = True"
| "has_lock Inside = True"
| "has_lock (Leaving _) = True"
| "has_lock (Releasing _) = True"
| "has_lock (Abandoning _) = True"
| "has_lock (Clearing _) = True"
| "has_lock (Moved _ _) = True"
| "has_lock (Restoring _) = True"
| "has_lock _ = False"

fun reclaims :: "lock_position \<Rightarrow> bool" where
  "reclaims (Reclaiming _) = True"
| "reclaims _ = False"

definition nobody_reclaims :: "lock_system \<Rightarrow> bool" where
  "nobody_reclaims s \<longleftrightarrow> list_all (\<lambda>(token, c). \<not> reclaims (ct_at c)) (lk_contenders s)"

fun undisturbed :: "lock_env \<Rightarrow> lock_event list \<Rightarrow> lock_system \<Rightarrow> bool" where
  "undisturbed env [] s = True"
| "undisturbed env (ev # events) s \<longleftrightarrow> nobody_reclaims (lock_after env ev s) \<and> undisturbed env events (lock_after env ev s)"

text \<open>What the directory holds while a contender has the lock.\<close>

fun dir_of :: "lock_env \<Rightarrow> int \<Rightarrow> string \<Rightarrow> lock_position \<Rightarrow> lock_dir \<Rightarrow> bool" where
  "dir_of env pid token Created d \<longleftrightarrow> ld_owner d = None"
| "dir_of env pid token (Staging text) d \<longleftrightarrow> ld_owner d = None \<and> (\<exists>t. text = owner_text env pid token t)"
| "dir_of env pid token (Publishing text) d \<longleftrightarrow> ld_owner d = None \<and> token \<in> set (ld_staged d) \<and> (\<exists>t. text = owner_text env pid token t)"
| "dir_of env pid token Asserting d = owned_by_token env token (Some d)"
| "dir_of env pid token Inside d = owned_by_token env token (Some d)"
| "dir_of env pid token (Leaving r) d = owned_by_token env token (Some d)"
| "dir_of env pid token (Releasing r) d = owned_by_token env token (Some d)"
| "dir_of env pid token _ d = False"

definition one_owner :: "lock_env \<Rightarrow> lock_system \<Rightarrow> bool" where
  "one_owner env s \<longleftrightarrow>
     (\<forall>token c. map_get (lk_contenders s) token = Some c \<longrightarrow> token \<noteq> [] \<and> 0 < ct_pid c \<and> safe_integer (ct_pid c) \<and> \<not> reclaims (ct_at c) \<and>
        (has_lock (ct_at c) \<longrightarrow> (\<exists>d. lk_canonical s = Some d \<and> dir_of env (ct_pid c) token (ct_at c) d))) \<and>
     (\<forall>a b ca cb. map_get (lk_contenders s) a = Some ca \<longrightarrow> map_get (lk_contenders s) b = Some cb \<longrightarrow>
        has_lock (ct_at ca) \<longrightarrow> has_lock (ct_at cb) \<longrightarrow> a = b)"


lemma owner_steps:
  assumes env: "lock_env_ok env" "0 < pid" "safe_integer pid" "token \<noteq> []"
    and d: "has_lock position" "dir_of env pid token position d"
    and step: "lock_step env pid token startedAt now alive position (Some d) = (position', dir')"
  shows "\<not> reclaims position' \<and> (has_lock position' \<longrightarrow> (\<exists>d'. dir' = Some d' \<and> dir_of env pid token position' d'))"
proof -
  have own: "ld_owner e = Some (owner_text env pid token t) \<Longrightarrow> owned_by_token env token (Some e)" for e t
    using parse_owner_text [OF env] by (simp add: owned_by_token_def readOwner_def)
  show ?thesis
    using d step own by (cases position) (auto simp: lock_step_defs split: if_splits)
qed

lemma other_steps:
  assumes "\<not> has_lock position" and "\<not> reclaims position" and "\<not> reclaims position'"
    and "lock_step env pid token startedAt now alive position dir = (position', dir')"
  shows "dir' = dir \<and> \<not> has_lock position' \<or> dir = None \<and> position' = Created \<and> dir' = Some (empty_lock_dir now)"
  using assms by (cases position) (auto simp: lock_step_defs split: option.splits if_splits)

lemma one_owner_act:
  assumes ok: "lock_env_ok env" and one: "one_owner env s" and calm: "nobody_reclaims (lock_after env (Act token) s)"
  shows "one_owner env (lock_after env (Act token) s)"
proof (cases "map_get (lk_contenders s) token")
  case None
  then show ?thesis using one by simp
next
  case (Some c)
  show ?thesis
  proof (cases "ct_pid c \<in> set (lk_dead s)")
    case True
    then show ?thesis using one Some by simp
  next
    case False
    obtain p' dir' where step: "lock_step env (ct_pid c) token (ct_startedAt c) (lk_now s) (\<lambda>pid. pid \<notin> set (lk_dead s))
        (ct_at c) (lk_canonical s) = (p', dir')" by (rule prod.exhaust)
    have post: "lock_after env (Act token) s =
        s\<lparr>lk_canonical := dir', lk_contenders := map_set token (c\<lparr>ct_at := p'\<rparr>) (lk_contenders s)\<rparr>"
      using Some False step by simp
    have c: "token \<noteq> []" "0 < ct_pid c" "safe_integer (ct_pid c)" "\<not> reclaims (ct_at c)"
      "has_lock (ct_at c) \<Longrightarrow> \<exists>d. lk_canonical s = Some d \<and> dir_of env (ct_pid c) token (ct_at c) d"
      using one Some by (auto simp: one_owner_def)
    have "(token, c\<lparr>ct_at := p'\<rparr>) \<in> set (map_set token (c\<lparr>ct_at := p'\<rparr>) (lk_contenders s))"
      by (metis map_get_set fun_upd_same map_of_SomeD)
    then have no: "\<not> reclaims p'" using calm unfolding post nobody_reclaims_def list_all_iff by fastforce
    have mine: "has_lock p' \<Longrightarrow> \<exists>d. dir' = Some d \<and> dir_of env (ct_pid c) token p' d"
    proof (cases "has_lock (ct_at c)")
      case True
      then show "has_lock p' \<Longrightarrow> ?thesis" using c owner_steps [OF ok c(2,3,1) True] step by auto
    next
      case False
      then show "has_lock p' \<Longrightarrow> ?thesis" using other_steps [OF False c(4) no step] by (auto simp: empty_lock_dir_def)
    qed
    have others: "x = token \<or> \<not> has_lock (ct_at cx) \<or> \<not> has_lock p' \<and> dir' = lk_canonical s"
      if "map_get (lk_contenders s) x = Some cx" for x cx
    proof (cases "has_lock (ct_at c)")
      case True
      then show ?thesis using one Some that unfolding one_owner_def by blast
    next
      case False
      then show ?thesis using other_steps [OF False c(4) no step] one that by (fastforce simp: one_owner_def)
    qed
    show ?thesis
      unfolding post one_owner_def
    proof (intro conjI allI impI; (elim conjE)?)
      fix x cx assume x: "map_get (lk_contenders (s\<lparr>lk_canonical := dir', lk_contenders := map_set token (c\<lparr>ct_at := p'\<rparr>) (lk_contenders s)\<rparr>)) x = Some cx"
      show "x \<noteq> []" "0 < ct_pid cx" "safe_integer (ct_pid cx)" "\<not> reclaims (ct_at cx)"
        using x one c no by (auto simp: one_owner_def split: if_splits)
      show "\<exists>d. lk_canonical (s\<lparr>lk_canonical := dir', lk_contenders := map_set token (c\<lparr>ct_at := p'\<rparr>) (lk_contenders s)\<rparr>) = Some d \<and>
          dir_of env (ct_pid cx) x (ct_at cx) d" if "has_lock (ct_at cx)"
      proof (cases "x = token")
        case True
        then have "cx = c\<lparr>ct_at := p'\<rparr>" using x by simp
        then show ?thesis using mine that True by simp
      next
        case False
        then have "dir' = lk_canonical s" using x others [of x cx] that by simp
        then show ?thesis using x False one that by (simp add: one_owner_def)
      qed
    next
      fix a b ca cb
      assume "map_get (lk_contenders (s\<lparr>lk_canonical := dir', lk_contenders := map_set token (c\<lparr>ct_at := p'\<rparr>) (lk_contenders s)\<rparr>)) a = Some ca"
        and "map_get (lk_contenders (s\<lparr>lk_canonical := dir', lk_contenders := map_set token (c\<lparr>ct_at := p'\<rparr>) (lk_contenders s)\<rparr>)) b = Some cb"
        and "has_lock (ct_at ca)" "has_lock (ct_at cb)"
      then show "a = b"
        using others [of a ca] others [of b cb] one by (auto simp: one_owner_def split: if_splits)
    qed
  qed
qed

lemma one_owner_event:
  assumes "lock_env_ok env" and "one_owner env s" and "nobody_reclaims (lock_after env ev s)"
  shows "one_owner env (lock_after env ev s)"
proof (cases ev)
  case (Join token pid)
  have "one_owner env (s\<lparr>lk_contenders := map_set token \<lparr>ct_pid = pid, ct_startedAt = lk_now s, ct_at = Trying\<rparr> (lk_contenders s)\<rparr>)"
    if "token \<noteq> []" "0 < pid" "safe_integer pid"
    using assms(2) that unfolding one_owner_def by (auto split: if_splits)
  then show ?thesis using assms(2) Join by simp
next
  case (Act token)
  then show ?thesis using one_owner_act assms by simp
qed (use assms(2) in \<open>auto simp: one_owner_def\<close>)

lemma one_owner_run: "lock_env_ok env \<Longrightarrow> one_owner env s \<Longrightarrow> undisturbed env events s \<Longrightarrow> one_owner env (lock_run env events s)"
  unfolding lock_run_def by (induction events arbitrary: s) (auto dest: one_owner_event)

text \<open>C29. The lock excludes: as long as no contender finds a directory to reclaim, of all the calls of all
  processes at most one is between its \<open>mkdirSync\<close> and its \<open>rmSync\<close> at any time, and while it runs its
  function \<open>assertOwned\<close> succeeds.\<close>

theorem undisturbed_lock_excludes:
  assumes "lock_env_ok env" and "undisturbed env events (free_lock t0)"
    and "map_get (lk_contenders (lock_run env events (free_lock t0))) a = Some ca" and "has_lock (ct_at ca)"
    and "map_get (lk_contenders (lock_run env events (free_lock t0))) b = Some cb" and "has_lock (ct_at cb)"
  shows "a = b \<and> (ct_at ca = Inside \<longrightarrow> owned_by_token env a (lk_canonical (lock_run env events (free_lock t0))))"
proof -
  have "one_owner env (free_lock t0)" by (simp add: one_owner_def free_lock_def)
  from one_owner_run [OF assms(1) this assms(2)] show ?thesis
    using assms(3-6) by (fastforce simp: one_owner_def)
qed

section \<open>Witnesses and a run with two calls inside\<close>

definition sample_lock_env :: lock_env where
  "sample_lock_env = \<lparr>le_parse = json_parse, le_toISOString = int_decimal, le_dateParse = (\<lambda>_. Some 0), le_timeoutMs = DEFAULT_TIMEOUT_MS,
     le_staleMs = DEFAULT_STALE_MS, le_renameExists = False\<rparr>"

lemma sample_lock_env_ok: "lock_env_ok sample_lock_env"
  by (simp add: lock_env_ok_def sample_lock_env_def line_parser.json_line_codec_axioms)

definition acts :: "string \<Rightarrow> nat \<Rightarrow> lock_event list" where
  "acts token n = replicate n (Act token)"

definition position_of :: "string \<Rightarrow> lock_system \<Rightarrow> lock_position option" where
  "position_of token s = map_option ct_at (map_get (lk_contenders s) token)"

definition holder_and_waiter :: "lock_event list" where
  "holder_and_waiter = Join ''a'' 1 # acts ''a'' 5 @ Join ''x'' 2 # acts ''x'' 3"

theorem undisturbed_lock_excludes_witness:
  "position_of ''a'' (lock_run sample_lock_env holder_and_waiter (free_lock 1)) = Some Inside \<and>
   position_of ''x'' (lock_run sample_lock_env holder_and_waiter (free_lock 1)) = Some Trying \<and>
   owned_by_token sample_lock_env ''a'' (lk_canonical (lock_run sample_lock_env holder_and_waiter (free_lock 1)))"
proof -
  let ?s = "lock_run sample_lock_env holder_and_waiter (free_lock 1)"
  have at: "position_of ''a'' ?s = Some Inside" "position_of ''x'' ?s = Some Trying" by code_simp+
  then obtain c where c: "map_get (lk_contenders ?s) ''a'' = Some c" "ct_at c = Inside" by (auto simp: position_of_def)
  have "undisturbed sample_lock_env holder_and_waiter (free_lock 1)" by code_simp
  from undisturbed_lock_excludes [OF sample_lock_env_ok this c(1) _ c(1)] c at show ?thesis by simp
qed

text \<open>A process dies inside; the next call sees its owner dead, moves the directory away and may delete it.\<close>

definition crash_and_reclaim :: "lock_event list" where
  "crash_and_reclaim = Join ''a'' 1 # acts ''a'' 5 @ Crash 1 # Join ''x'' 2 # acts ''x'' 4"

theorem reclaim_spares_the_living_witness:
  "\<exists>d. position_of ''x'' (lock_run sample_lock_env crash_and_reclaim (free_lock 1)) = Some (Clearing d) \<and>
     deserted sample_lock_env 1 [1] d"
proof -
  let ?s = "lock_run sample_lock_env crash_and_reclaim (free_lock 1)"
  have "(case position_of ''x'' ?s of Some (Clearing d) \<Rightarrow> True | _ \<Rightarrow> False)" by code_simp
  then obtain d where d: "position_of ''x'' ?s = Some (Clearing d)" by (auto split: option.splits lock_position.splits)
  then obtain c where "map_get (lk_contenders ?s) ''x'' = Some c" "ct_at c = Clearing d" by (auto simp: position_of_def)
  from reclaim_spares_the_living [OF this] have "deserted sample_lock_env (lk_now ?s) (lk_dead ?s) d" .
  moreover have "lk_now ?s = 1" "lk_dead ?s = [1]" by code_simp+
  ultimately show ?thesis using d by auto
qed

text \<open>Reclaiming breaks the exclusion, without a crash and without any delay: \<open>x\<close> meets the directory of \<open>a\<close>
  and looks at it after \<open>a\<close> has released it, \<open>y\<close> acquires, \<open>x\<close> renames the directory of \<open>y\<close> away, and \<open>z\<close> acquires
  as well. \<open>assertOwned\<close> then fails for \<open>y\<close>; \<open>x\<close> fails with \<open>ENOTEMPTY\<close> where that is what a rename reports.\<close>

definition contention :: "lock_event list" where
  "contention = Join ''a'' 1 # acts ''a'' 5 @ Join ''x'' 2 # acts ''x'' 1 @ acts ''a'' 3 @ acts ''x'' 2 @
     Join ''y'' 3 # acts ''y'' 5 @ acts ''x'' 1 @ Join ''z'' 4 # acts ''z'' 5"

lemma two_calls_inside:
  "position_of ''y'' (lock_run sample_lock_env contention (free_lock 1)) = Some Inside"
  "position_of ''z'' (lock_run sample_lock_env contention (free_lock 1)) = Some Inside"
  "\<not> owned_by_token sample_lock_env ''y'' (lk_canonical (lock_run sample_lock_env contention (free_lock 1)))"
  "position_of ''x'' (lock_run sample_lock_env (contention @ acts ''x'' 2) (free_lock 1)) = Some (Over (Lock_failed ''ENOTEMPTY''))"
  by code_simp+

end
