(* ===== verification/QueueDrainCalls.thy ===== *)
theory QueueDrainCalls
  imports QueueDrainLaws
begin

text \<open>
  Two guarantees of the consumer beyond the queue itself: which Cloud writes processing a Skill item
  may make, and that an outage ends with an empty queue after a bounded number of turns.
\<close>

section \<open>Cloud writes for Skills\<close>

text \<open>What is awaited makes no Cloud write of its own.\<close>

definition silent :: "('w, 'a) eng \<Rightarrow> bool" where
  "silent m \<longleftrightarrow> (\<forall>s. en_calls (snd (m s)) = en_calls s)"

definition drain_env_silent :: "'w drain_env \<Rightarrow> bool" where
  "drain_env_silent env \<longleftrightarrow>
     (\<forall>k. silent (sv_folderHash (dv_skill env) k)) \<and> (\<forall>a k p. silent (dv_deleteAgentSkill env a k p)) \<and>
     (\<forall>a p k b h. silent (dv_uploadAgentSkill env a p k b h)) \<and> (\<forall>k. silent (dv_snapshotSkillArchive env k))"

text \<open>Each call since \<open>cs\<close> satisfied \<open>P\<close>, which is also told the calls before it.\<close>

definition calls_since :: "api_call list \<Rightarrow> (api_call list \<Rightarrow> api_call \<Rightarrow> bool) \<Rightarrow> 'w engine \<Rightarrow> bool" where
  "calls_since cs P s \<longleftrightarrow>
     (\<exists>new. en_calls s = cs @ new \<and> (\<forall>i<length new. P (cs @ take i new) (new ! i)))"

lemma calls_start: "calls_since (en_calls s) P s"
  by (simp add: calls_since_def)

lemma calls_eq: "en_calls s' = en_calls s \<Longrightarrow> calls_since cs P s' = calls_since cs P s"
  by (simp add: calls_since_def)

lemma calls_same: "(\<And>s. en_calls (f s) = en_calls s) \<Longrightarrow> keeps (calls_since cs P) (emodify f)"
  by (rule keeps_modify) (simp add: calls_since_def)

lemma calls_silent: "silent m \<Longrightarrow> keeps (calls_since cs P) m"
  by (simp add: keeps_iff silent_def calls_since_def)

lemma calls_add:
  assumes "calls_since cs P s" and "P (en_calls s) c" and "en_calls s' = en_calls s @ [c]"
  shows "calls_since cs P s'"
proof -
  obtain new where new: "en_calls s = cs @ new" "\<forall>i<length new. P (cs @ take i new) (new ! i)"
    using assms(1) by (auto simp: calls_since_def)
  have "P (cs @ take i (new @ [c])) ((new @ [c]) ! i)" if "i < length (new @ [c])" for i
    using that new assms(2) by (cases "i = length new") (auto simp: nth_append)
  with new(1) assms(3) show ?thesis by (auto simp: calls_since_def)
qed

lemma calls_call: "(\<And>before. P before c) \<Longrightarrow> keeps (calls_since cs P) (en_call c)"
  unfolding en_call_def by (rule keeps_modify) (erule calls_add, simp_all)

lemma calls_bookkeeping:
  "keeps (calls_since cs P) (en_removeClaim env opts k p)" "keeps (calls_since cs P) (en_recordClaim env opts k p h)"
  "keeps (calls_since cs P) (en_forgetPushed k)" "keeps (calls_since cs P) (en_markDone item)"
  "keeps (calls_since cs P) (en_enqueue input)"
  by (auto simp: keeps_iff calls_since_def en_removeClaim_def en_recordClaim_def en_forgetPushed_def emodify_def
      en_markDone_def en_enqueue_def split: sum.split prod.split)

lemmas calls_rules = keeps_flow calls_bookkeeping

lemma calls_enqueueIfChanged:
  assumes "drain_env_silent env"
  shows "keeps (calls_since cs P) (enqueueIfChanged (dv_skill env) opts k p)"
proof -
  have input: "keeps (calls_since cs P) (en_enqueueDelete e opts k p)" "keeps (calls_since cs P) (en_enqueuePush e opts k p h)"
    for e :: "'a skill_env" and k p h
    unfolding en_enqueueDelete_def en_enqueuePush_def by (rule keeps_fun, intro calls_rules)+
  have cleanup: "keeps (calls_since cs P) (enqueueMaterializedSkillClaimCleanup (dv_skill env) opts k)"
    unfolding enqueueMaterializedSkillClaimCleanup_def
    by (rule keeps_fun) (auto simp: keeps_iff split: option.split intro: input(1) [unfolded keeps_iff, rule_format])
  show ?thesis
    unfolding enqueueIfChanged_def using assms
    by (intro calls_rules keeps_materialization cleanup input calls_silent) (simp add: drain_env_silent_def)
qed

lemma calls_retire:
  assumes "drain_env_silent env" and "\<And>before. P before (DeleteAgentSkill (op_environmentId opts) k p)"
  shows "keeps (calls_since cs P) (retire_projection env opts k p)"
  unfolding retire_projection_def using assms
  by (intro calls_rules calls_call calls_silent) (simp_all add: drain_env_silent_def)

text \<open>The hash two snapshots of the Skill, one right after the other, agreed on, once the calls \<open>before\<close> were made.\<close>

definition agreed_snapshot :: "'w drain_env \<Rightarrow> string \<Rightarrow> api_call list \<Rightarrow> string \<Rightarrow> bool" where
  "agreed_snapshot env k before h \<longleftrightarrow> (\<exists>s a1 s1 a2 s2. en_calls s = before \<and>
     dv_snapshotSkillArchive env k s = (Inr (h, a1), s1) \<and> dv_snapshotSkillArchive env k s1 = (Inr (h, a2), s2))"

lemma calls_upload:
  fixes env :: "'w drain_env"
  assumes silent: "drain_env_silent env"
    and ok: "\<And>before h. agreed_snapshot env k before h \<Longrightarrow> P before (UploadAgentSkill (op_environmentId opts) k p h)"
  shows "keeps (calls_since cs P) (uploadSkillFromQueue env opts k p)"
  unfolding keeps_iff
proof (intro allI impI)
  fix s :: "'w engine" assume start: "calls_since cs P s"
  have quiet: "en_calls (snd (dv_snapshotSkillArchive env k t)) = en_calls t" for t
    using silent by (simp add: drain_env_silent_def silent_def)
  obtain r1 s1 where r1: "dv_snapshotSkillArchive env k s = (r1, s1)" by fastforce
  obtain r2 s2 where r2: "dv_snapshotSkillArchive env k s1 = (r2, s2)" by fastforce
  have calls: "en_calls s1 = en_calls s" "en_calls s2 = en_calls s" using quiet [of s] quiet [of s1] by (simp_all add: r1 r2)
  then have since: "calls_since cs P s1" "calls_since cs P s2" using start calls_eq [of _ s cs P] by blast+
  define rest where "rest h a = ethen (dv_uploadAgentSkill env (op_environmentId opts) p k a h)
    (ethen throwIfAborted (ethen (emodify (\<lambda>s. s\<lparr>en_pushed := map_set k h (en_pushed s)\<rparr>)) (en_recordClaim env opts k p h)))" for h a
  have rest: "keeps (calls_since cs P) (rest h a)" for h a
    unfolding rest_def using silent by (intro calls_rules calls_silent calls_same) (simp_all add: drain_env_silent_def)
  show "calls_since cs P (snd (uploadSkillFromQueue env opts k p s))"
  proof (cases "\<exists>h a1 a2. r1 = Inr (h, a1) \<and> r2 = Inr (h, a2)")
    case False
    then show ?thesis using since
      by (auto simp: uploadSkillFromQueue_def ebind_def r1 r2 ethrow_def split: sum.split prod.split)
  next
    case True
    then obtain h a1 a2 where h: "r1 = Inr (h, a1)" "r2 = Inr (h, a2)" by blast
    let ?c = "UploadAgentSkill (op_environmentId opts) k p h"
    have run: "uploadSkillFromQueue env opts k p s = ethen (en_call ?c) (rest h a2) s2"
      by (simp add: uploadSkillFromQueue_def ebind_def r1 r2 h rest_def)
    have "agreed_snapshot env k (en_calls s2) h"
      using r1 r2 h calls unfolding agreed_snapshot_def by (intro exI [of _ s] exI) simp
    then have "calls_since cs P (s2\<lparr>en_calls := en_calls s2 @ [?c]\<rparr>)"
      by (intro calls_add [OF since(2) ok]) simp_all
    then have "calls_since cs P (snd (rest h a2 (s2\<lparr>en_calls := en_calls s2 @ [?c]\<rparr>)))"
      using rest [of h a2] by (simp add: keeps_iff)
    then show ?thesis by (simp add: run ethen_def ebind_def en_call_def emodify_def)
  qed
qed

text \<open>The writes an item stamped with an Agent and a Project may cause.\<close>

fun skill_op_of :: "queue_item \<Rightarrow> skill_operation option" where
  "skill_op_of (SkillPush op _) = Some op"
| "skill_op_of (SkillDelete op) = Some op"
| "skill_op_of (SessionPush _) = None"

fun skill_call_allowed ::
  "'w drain_env \<Rightarrow> engine_opts \<Rightarrow> string \<Rightarrow> queue_item \<Rightarrow> lock_file \<Rightarrow> api_call list \<Rightarrow> api_call \<Rightarrow> bool" where
  "skill_call_allowed env opts projectId item L before (DeleteAgentSkill agent k p) \<longleftrightarrow>
     agent = op_environmentId opts \<and> k = item_skill_key item \<and> isValidSkillKey k \<and>
     (\<exists>op. skill_op_of item = Some op \<and> sk_agent_id op = Some agent \<and>
        (sk_project_id op = Some p \<or> claimed (dv_skill env) opts L k p))"
| "skill_call_allowed env opts projectId item L before (UploadAgentSkill agent k p h) \<longleftrightarrow>
     agent = op_environmentId opts \<and> k = item_skill_key item \<and> isValidSkillKey k \<and> p = projectId \<and>
     \<not> materialized (dv_skill env) opts L k \<and> \<not> is_skill_delete (Some item) \<and>
     (\<exists>op. skill_op_of item = Some op \<and> sk_agent_id op = Some agent \<and> sk_project_id op = Some p) \<and>
     agreed_snapshot env k before h"
| "skill_call_allowed env opts projectId item L before _ \<longleftrightarrow> False"

lemma stale_claimed:
  "p \<in> set (staleSkillProjectionProjectIds (sv_parse env) (op_agentType opts) (op_environmentId opts) k q L) \<Longrightarrow>
     claimed env opts L k p"
  by (auto simp: staleSkillProjectionProjectIds_def claimed_def exact_claims_def)

lemma calls_own_skill:
  fixes env :: "'w drain_env"
  assumes "drain_env_silent env" and "skill_op_of item = Some op" and "isValidSkillKey (sk_skill_key op)"
    and "sk_agent_id op = Some (op_environmentId opts)" and "sk_project_id op = Some itemProject"
    and "\<not> materialized (dv_skill env) opts L (sk_skill_key op)"
  shows "keeps (calls_since cs (skill_call_allowed env opts projectId item L))
    (process_own_skill env opts item (sk_skill_key op) itemProject projectId)"
proof -
  have key: "item_skill_key item = sk_skill_key op" using assms(2) by (cases item) auto
  let ?P = "skill_call_allowed env opts projectId item L"
  have retire: "keeps (calls_since cs ?P) (retire_projection env opts (sk_skill_key op) itemProject)"
    using assms key by (intro calls_retire) auto
  have upload: "keeps (calls_since cs ?P) (uploadSkillFromQueue env opts (sk_skill_key op) projectId)"
    if "itemProject = projectId" "\<not> is_skill_delete (Some item)"
    using assms key that by (intro calls_upload) auto
  show ?thesis
    unfolding process_own_skill_def Let_def finish_item_def
    by (intro calls_rules retire upload calls_enqueueIfChanged [OF assms(1)]) auto
qed

lemma calls_skill:
  fixes env :: "'w drain_env"
  assumes "drain_env_silent env" and "skill_op_of item = Some op"
  shows "calls_since (en_calls s) (skill_call_allowed env opts projectId item (en_skillsLock s))
    (snd (process_skill env opts item op projectId s))"
proof -
  let ?L = "en_skillsLock s" and ?k = "sk_skill_key op"
  let ?P = "skill_call_allowed env opts projectId item ?L"
  have key: "item_skill_key item = ?k" using assms(2) by (cases item) auto
  have kept: "calls_since (en_calls s) ?P (snd (m s))" if "keeps (calls_since (en_calls s) ?P) m" for m :: "('w, 'b) eng"
    using that calls_start by (auto simp: keeps_iff)
  have finish: "keeps (calls_since cs ?P) (finish_item item r)" for cs r
    unfolding finish_item_def by (intro calls_rules)
  show ?thesis
  proof (cases "isValidSkillKey ?k")
    case False
    then show ?thesis using kept [OF finish] by (simp add: process_skill_def)
  next
    case valid: True
    note retire = calls_retire [OF assms(1), of ?P opts ?k]
    obtain r where mat: "en_materialization (dv_skill env) opts ?k s = (r, s)"
      and m: "\<And>m. r = Inr m \<Longrightarrow> (m \<noteq> None \<longleftrightarrow> materialized (dv_skill env) opts ?L ?k)"
      by (cases "readProjectSkillMaterialization (sv_parse (dv_skill env))
        \<lparr>mi_agentType = op_agentType opts, mi_localSkillKey = ?k\<rparr> ?L") (auto simp: en_materialization_def materialized_def)
    have bind: "ebind (en_materialization (dv_skill env) opts ?k) f s = (case r of Inl e \<Rightarrow> (Inl e, s) | Inr m \<Rightarrow> f m s)"
      for f :: "_ \<Rightarrow> ('w, outcome) eng" by (simp add: ebind_def mat)
    show ?thesis
    proof (cases r)
      case (Inl e)
      then show ?thesis using valid calls_start by (simp add: process_skill_def Let_def bind)
    next
      case r: (Inr m)
      consider "m \<noteq> None \<and> \<not> is_skill_delete (Some item)" | "sk_agent_id op = None \<or> sk_project_id op = None"
        | agent itemProject where "sk_agent_id op = Some agent" "sk_project_id op = Some itemProject"
            "m \<noteq> None \<longrightarrow> is_skill_delete (Some item)"
        by fastforce
      then show ?thesis
      proof cases
        case 1
        then show ?thesis using valid kept [OF finish] by (simp add: process_skill_def Let_def bind r)
      next
        case 2
        then show ?thesis using valid kept [OF finish] by (auto simp: process_skill_def Let_def bind r split: option.split)
      next
        case 3
        let ?claims = "filter (\<lambda>c. cl_skill_key c = ?k) (exact_claims (dv_skill env) opts ?L)"
        let ?stale = "staleSkillProjectionProjectIds (sv_parse (dv_skill env)) (op_agentType opts)
          (op_environmentId opts) ?k projectId ?L"
        have claims: "keeps (calls_since (en_calls s) ?P) (eforeach ?claims (\<lambda>claim. retire_projection env opts ?k (cl_project_id claim)))"
          and stale: "keeps (calls_since (en_calls s) ?P) (eforeach ?stale (retire_projection env opts ?k))"
          if "agent = op_environmentId opts"
          using 3 that valid assms(2) key
          by (auto intro!: keeps_foreach retire simp: claimed_def dest!: stale_claimed)
        have own: "keeps (calls_since (en_calls s) ?P) (process_own_skill env opts item ?k itemProject projectId)"
          if "agent = op_environmentId opts" "m = None"
          using 3 that m [OF r] valid by (intro calls_own_skill assms) auto
        show ?thesis
          using 3 valid
          by (auto simp: process_skill_def Let_def bind r egets_run
            intro!: kept [OF finish] kept [OF keeps_then [OF keeps_ret]] kept [OF keeps_then [OF claims]] kept [OF keeps_then [OF stale]]
              keeps_then finish own calls_bookkeeping)
      qed
    qed
  qed
qed

lemma calls_of_item:
  fixes env :: "'w drain_env"
  assumes "drain_env_silent env" and "isSkillOperation item" and "qm_skills modules = Some projectId"
  shows "calls_since (en_calls s) (skill_call_allowed env opts projectId item (en_skillsLock s))
    (snd (processQueueItem env opts modules item s))"
  using assms calls_skill [OF assms(1), of item _ s opts projectId] by (cases item) auto

text \<open>C19. Cloud writes are authorized: however the processing of a Skill item ends, every write it made
  names this Agent and the key of the item, which is valid, and the item is stamped with this Agent.
  A deletion names the Project the item is stamped with or one for which the ledger held a claim of
  this Agent when processing began; an upload happens only for a push stamped with the current
  Project, into that Project, of a key no Project has taken over, and its content hash is the one that two
  snapshots of the folder taken one after the other just before the call agreed on. So an item from
  another Agent or an older Project never moves bytes into the current one, nothing is deleted that this
  Agent did not upload or was not told to delete, and a folder that changes while it is read is not
  uploaded. What the daemon awaits meanwhile (network, snapshots) makes no such write of its own.\<close>

theorem skill_writes_authorized:
  fixes env :: "'w drain_env"
  assumes "drain_env_silent env" and "isSkillOperation item" and "qm_skills modules = Some projectId"
    and "processQueueItem env opts modules item s = (r, s')"
  shows "\<exists>new. en_calls s' = en_calls s @ new \<and>
    (\<forall>i<length new. skill_call_allowed env opts projectId item (en_skillsLock s) (en_calls s @ take i new) (new ! i))"
  using calls_of_item [OF assms(1-3), of s opts] by (simp add: assms(4) calls_since_def)

lemma sample_env_silent: "drain_env_silent sample_drain_env"
  by (simp add: drain_env_silent_def silent_def sample_drain_env_def sample_skill_env_def eret_def)

lemma sample_calls:
  "en_calls (snd (processQueueItem sample_drain_env sample_agent sample_modules (stampVersion sample_push 1) busy_engine)) =
     [UploadAgentSkill ''agent'' ''notes'' ''project'' ''h1'']"
  by code_simp

theorem skill_writes_authorized_witness:
  "en_calls (snd (processQueueItem sample_drain_env sample_agent sample_modules (stampVersion sample_push 1) busy_engine)) =
     [UploadAgentSkill ''agent'' ''notes'' ''project'' ''h1''] \<and>
   skill_call_allowed sample_drain_env sample_agent ''project'' (stampVersion sample_push 1) None []
     (UploadAgentSkill ''agent'' ''notes'' ''project'' ''h1'')"
proof -
  obtain r s' where run: "processQueueItem sample_drain_env sample_agent sample_modules (stampVersion sample_push 1) busy_engine = (r, s')"
    by fastforce
  have op: "isSkillOperation (stampVersion sample_push 1)" "qm_skills sample_modules = Some ''project''"
    by (simp_all add: sample_push_def sample_modules_def)
  have "en_calls busy_engine = []" "en_skillsLock busy_engine = None" "dv_skill sample_drain_env = sample_skill_env"
    by (simp_all add: busy_engine_def fresh_engine_def sample_drain_env_def)
  with skill_writes_authorized [OF sample_env_silent op run] sample_calls show ?thesis by (auto simp: run)
qed

section \<open>An outage\<close>

text \<open>How many turns the items are still worth.\<close>

definition retry_budget :: "queue_item list \<Rightarrow> nat" where
  "retry_budget items = sum_list (map (\<lambda>i. max 1 (nat (MAX_QUEUE_ATTEMPTS - item_attempts i))) items)"

text \<open>A session push of this engine, under its own fence.\<close>

fun own_session :: "'w drain_env \<Rightarrow> engine_opts \<Rightarrow> queue_item \<Rightarrow> bool" where
  "own_session env opts (SessionPush op) \<longleftrightarrow>
     (let expected = sessionFence (dv_apiOrigin env) (op_environmentId opts) (op_agentType opts) (session_map_key op)
            (se_profile_key op)
      in hasSessionFence op \<and> se_api_origin op = Some (fe_apiOrigin expected) \<and>
         se_environment_id op = Some (fe_environmentId expected) \<and> se_adapter op = Some (fe_adapter expected) \<and>
         se_source_session_key op = Some (fe_sourceSessionKey expected))"
| "own_session env opts _ \<longleftrightarrow> False"

lemma own_session_bumped: "own_session env opts i \<Longrightarrow> own_session env opts (with_attempts n i)"
  by (cases i) (auto simp: Let_def hasSessionFence_def)

text \<open>A failure that may pass, and a part of an outage: it fails that way or answers something of \<open>P\<close>, and the
  queue and the abort signal are afterwards what they were.\<close>

definition transient :: "sync_error \<Rightarrow> bool" where
  "transient e \<longleftrightarrow> \<not> isAuthFailure e \<and> \<not> isOversizedUploadError e \<and> \<not> isPermanentUploadError e"

definition calm :: "('w, 'a) eng \<Rightarrow> ('a \<Rightarrow> bool) \<Rightarrow> bool" where
  "calm m P \<longleftrightarrow> (\<forall>s r s'. m s = (r, s') \<longrightarrow>
     en_queue s' = en_queue s \<and> en_aborted s' = en_aborted s \<and> (case r of Inl e \<Rightarrow> transient e | Inr a \<Rightarrow> P a))"

lemma calmD:
  assumes "calm m P"
  obtains e s' where "m s = (Inl e, s')" "transient e" "en_queue s' = en_queue s" "en_aborted s' = en_aborted s"
  | a s' where "m s = (Inr a, s')" "P a" "en_queue s' = en_queue s" "en_aborted s' = en_aborted s"
proof -
  obtain r s' where run: "m s = (r, s')" by fastforce
  then have "en_queue s' = en_queue s \<and> en_aborted s' = en_aborted s \<and> (case r of Inl e \<Rightarrow> transient e | Inr a \<Rightarrow> P a)"
    using assms unfolding calm_def by blast
  then show ?thesis using that run by (cases r) auto
qed

text \<open>The Cloud answers no batch, with whatever failures that may pass; the source of a session is found and
  read, or that too fails in such a way.\<close>

definition cloud_outage :: "'w drain_env \<Rightarrow> bool" where
  "cloud_outage env \<longleftrightarrow>
     (\<forall>key. calm (dv_resolve env key) (\<lambda>r. \<exists>session. r = Some session \<and>
        (\<forall>protocol. calm (prepareSessionUpload (ue_sha (dv_upload env)) session protocol) (\<lambda>_. True)))) \<and>
     (\<forall>profile row. calm (dv_postBatch env profile row) (\<lambda>_. False))"

lemma outage_upload_fails:
  assumes out: "cloud_outage env" and op: "hasSessionFence op" "se_source_session_key op = Some key" and live: "\<not> en_aborted s"
  shows "\<exists>e s'. uploadSessionFromQueue env opts protocol op fence s = (Inl e, s') \<and> transient e \<and>
    en_queue s' = en_queue s \<and> \<not> en_aborted s'"
proof -
  have resolve: "calm (dv_resolve env key) (\<lambda>r. \<exists>session. r = Some session \<and>
      (\<forall>protocol. calm (prepareSessionUpload (ue_sha (dv_upload env)) session protocol) (\<lambda>_. True)))"
    and post: "calm (dv_postBatch env profile row) (\<lambda>_. False)" for profile row
    using out by (simp_all add: cloud_outage_def)
  show ?thesis
  proof (cases rule: calmD [OF resolve, of s, case_names failed found])
    case failed
    then show ?thesis using op live by (simp add: uploadSessionFromQueue_def ebind_def)
  next
    case (found r s1)
    then obtain session where r: "r = Some session"
      and prep: "calm (prepareSessionUpload (ue_sha (dv_upload env)) session protocol) (\<lambda>_. True)" by blast
    have live1: "\<not> en_aborted s1" using found live by simp
    show ?thesis
    proof (cases rule: calmD [OF prep, of s1, case_names failed planned])
      case (failed e s2)
      then show ?thesis
        using op live live1 found r by (simp add: uploadSessionFromQueue_def ebind_def ethen_def throwIfAborted_def)
    next
      case (planned plan s2)
      show ?thesis
        using op live live1 found r planned
        by (cases rule: calmD [OF post [of "fe_profileKey fence" "batch_row_of env opts session plan"], of s2])
          (simp_all add: uploadSessionFromQueue_def ebind_def ethen_def throwIfAborted_def Let_def)
    qed
  qed
qed

lemma outage_fails:
  assumes "own_session env opts i" and "qm_sessions modules = Some protocol" and "cloud_outage env" and "\<not> en_aborted s"
  shows "\<exists>e s'. processQueueItem env opts modules i s = (Inl e, s') \<and> transient e \<and> en_queue s' = en_queue s \<and> \<not> en_aborted s'"
proof (cases i)
  case (SessionPush op)
  then obtain key where key: "hasSessionFence op" "se_source_session_key op = Some key"
    using assms(1) by (auto simp: Let_def)
  obtain e s' where "uploadSessionFromQueue env opts protocol op (sessionFence (dv_apiOrigin env) (op_environmentId opts)
      (op_agentType opts) (session_map_key op) (se_profile_key op)) s = (Inl e, s')" "transient e" "en_queue s' = en_queue s" "\<not> en_aborted s'"
    using outage_upload_fails [OF assms(3) key assms(4)] by blast
  then show ?thesis
    using SessionPush assms(1,2) by (auto simp: process_session_def Let_def ebind_def)
qed (use assms(1) in auto)

text \<open>The queues of the outage: the invariants of reachable queues, and only own session pushes.\<close>

definition outage_queue :: "'w drain_env \<Rightarrow> engine_opts \<Rightarrow> 'w engine \<Rightarrow> bool" where
  "outage_queue env opts s \<longleftrightarrow> \<not> en_aborted s \<and> queue_inv (en_queue s) \<and> session_inv (en_queue s) \<and>
     list_all (own_session env opts) (rq_items (en_queue s))"

interpretation sound_queue: queue_stable "\<lambda>q. queue_inv q \<and> session_inv q"
  by unfold_locales (auto intro: queue_step_inv queue_step_session_inv)

lemma keeps_aborted_failure: "keeps (\<lambda>s. \<not> en_aborted s) (handle_failure item e)"
proof -
  have clear: "keeps (\<lambda>s. \<not> en_aborted s) (clear_in_flight_of item)"
    by (cases item) (simp_all add: clearInFlight_def keeps_ret keeps_modify)
  show ?thesis
    unfolding handle_failure_def Let_def dropItem_def en_queue_do_def en_health_do_def
    by (intro keeps_flow clear keeps_modify) (auto simp: keeps_iff en_markDone_def split: prod.split)
qed

lemma outage_drop_one: "max 1 (nat (MAX_QUEUE_ATTEMPTS - a)) = Suc (max 1 (nat (MAX_QUEUE_ATTEMPTS - (a + 1))))"
  if "a + 1 < MAX_QUEUE_ATTEMPTS"
  using that by simp

lemma outage_turn:
  fixes env :: "'w drain_env"
  assumes q: "outage_queue env opts s" and items: "rq_items (en_queue s) = i # rest"
    and avail: "module_available (ds_sessions slots)" and out: "cloud_outage env"
  obtains turn s' where "drain_turn env opts slots task s = (Inr turn, s')" and "turn \<noteq> Stop_auth" and "outage_queue env opts s'"
    and "retry_budget (rq_items (en_queue s')) < retry_budget (i # rest)"
    and "drop_count (rq_droppedByReason (en_queue s')) Retry_exhausted + length (rq_items (en_queue s')) =
      drop_count (rq_droppedByReason (en_queue s)) Retry_exhausted + length (i # rest)"
proof -
  have own: "own_session env opts i" and inv: "queue_inv (en_queue s)" "session_inv (en_queue s)" and live: "\<not> en_aborted s"
    using q items by (simp_all add: outage_queue_def)
  have skill: "\<not> isSkillOperation i" and fence: "fenced_item i" using own by (cases i; simp add: Let_def)+
  obtain protocol scope where "md_current (ds_sessions slots) = Some (protocol, scope)" "\<not> scope_aborted scope"
      "md_state (ds_sessions slots) = Ready"
    using avail by (auto simp: module_available_def split: option.splits)
  then have lease: "qm_sessions (modules_for slots task i) = Some protocol"
    using skill by (simp add: modules_for_def module_acquire_def)
  obtain e s1 where fails: "processQueueItem env opts (modules_for slots task i) i s = (Inl e, s1)" and e: "transient e"
    and same: "en_queue s1 = en_queue s" and live1: "\<not> en_aborted s1"
    using outage_fails [OF own lease out live] by blast
  have key: "keyed i (en_queue s)" using inv fence by (simp add: keyed_def)
  have track: "tracked i (en_queue s)" using tracked_member [OF key] items by simp
  obtain turn s' where run: "handle_failure i e s1 = (Inr turn, s')"
    and acc: "failure_accounted i e False (en_queue s) turn (en_queue s')"
    using handle_failure_accounted [of i s1 e] track same live1 by auto
  have peek: "peek (eligible slots) (en_queue s) = Some i"
    using avail skill by (simp add: peek_def items eligible_def)
  have turn_run: "drain_turn env opts slots task s = (Inr turn, s')"
    unfolding drain_turn_def egets_run peek option.case
    by (simp add: ecatch_def ebind_def fails run)
  have "\<not> sameKey x i" if "x \<in> set rest" for x
    using keyed_sameKey_unique [OF key] items that by simp
  then have others: "filter (\<lambda>x. \<not> same_attempt i x) (i # rest) = rest" "filter (same_attempt i) (i # rest) = [i]"
    by (auto simp: same_attempt_def filter_id_conv filter_empty_conv)
  have live': "\<not> en_aborted s'" using keepsD [OF keeps_aborted_failure live1 run] .
  have inv': "queue_inv (en_queue s') \<and> session_inv (en_queue s')"
    using keepsD [OF sound_queue.keep_failure _ run] inv same by simp
  have turn: "turn = Wait_retry \<or> turn = Next" using acc e by (cases turn) (auto simp: transient_def)
  show ?thesis
  proof (rule that [OF turn_run])
    show "turn \<noteq> Stop_auth" using turn by auto
    show "outage_queue env opts s'"
      using live' inv' turn acc e q own
      by (auto simp: outage_queue_def items others own_session_bumped simp del: filter.simps)
    show "retry_budget (rq_items (en_queue s')) < retry_budget (i # rest)"
      using turn acc e by (auto simp: items others retry_budget_def simp del: filter.simps)
    show "drop_count (rq_droppedByReason (en_queue s')) Retry_exhausted + length (rq_items (en_queue s')) =
      drop_count (rq_droppedByReason (en_queue s)) Retry_exhausted + length (i # rest)"
      using turn acc e by (auto simp: items others counted_once_def transient_def simp del: filter.simps)
  qed
qed

text \<open>What goes on while the loop waits: the queue may be flushed and watched, but no item comes or goes, no
  counter is drained, and the daemon is not aborted.\<close>

definition patient :: "(turn_end \<Rightarrow> ('w, unit) eng) \<Rightarrow> bool" where
  "patient wait \<longleftrightarrow> (\<forall>turn s. \<not> en_aborted s \<longrightarrow>
     (\<exists>s'. wait turn s = (Inr (), s') \<and> \<not> en_aborted s' \<and> queue_reachable (en_queue s) (en_queue s') \<and>
        rq_items (en_queue s') = rq_items (en_queue s) \<and> rq_droppedByReason (en_queue s') = rq_droppedByReason (en_queue s)))"

lemma patient_wait:
  assumes "patient wait" and "outage_queue env opts s"
  obtains s' where "wait turn s = (Inr (), s')" and "outage_queue env opts s'"
    and "rq_items (en_queue s') = rq_items (en_queue s)" and "rq_droppedByReason (en_queue s') = rq_droppedByReason (en_queue s)"
  using assms unfolding patient_def outage_queue_def by (metis reachable_inv reachable_session_inv)

lemma loop_turn:
  "drain_turn env opts (slots s) n s = (Inr turn, s1) \<Longrightarrow> turn \<noteq> Stop_auth \<Longrightarrow> wait turn s1 = (Inr (), s2) \<Longrightarrow>
     drainQueueLoop env opts (\<lambda>_. False) slots wait (Suc n) s = drainQueueLoop env opts (\<lambda>_. False) slots wait n s2"
  by (simp add: ebind_def ethen_def)

lemma idle_turn:
  "rq_items (en_queue s) = [] \<Longrightarrow> drain_turn env opts slots n s =
     (Inr Idle, s\<lparr>en_queue := waitForChange (en_aborted s) QUEUE_IDLE_WAKEUP_MS n (en_queue s)\<rparr>)"
  by (simp add: drain_turn_def peek_def ethen_def ebind_def egets_def emodify_def eret_def)


definition sample_session_push :: queue_item_input where
  "sample_session_push = SessionPushInput \<lparr>in_se_enqueued_at = ''t0'', in_se_attempts = 0, in_profile_key = None,
     in_local_session_id = ''s1'', in_content_hash = ''h1'', in_api_origin = ''https://api'',
     in_environment_id = ''agent'', in_adapter = ''codex'', in_source_session_key = ''s1''\<rparr>"

text \<open>A daemon that finds and reads its sessions but does not reach the Cloud.\<close>

definition stored_session :: "unit raw_session" where
  "stored_session = sample_session\<lparr>rs_contentProtocol := Some SNAPSHOT_V1, rs_events := None, rs_readEvents := None\<rparr>"

definition offline_env :: "unit drain_env" where
  "offline_env = sample_drain_env\<lparr>dv_resolve := (\<lambda>_. eret (Some stored_session)),
     dv_postBatch := (\<lambda>_ _. ethrow (PlainError ''offline''))\<rparr>"

lemma offline_outage: "cloud_outage offline_env"
proof -
  have e: "transient (PlainError ''offline'')" unfolding transient_def by code_simp
  have "calm (prepareSessionUpload sha stored_session protocol) (\<lambda>_. True)" for sha protocol
    by (simp add: calm_def prepareSessionUpload_def snapshotPlan_def describe_session_def readSessionMessages_def whole_def
        stored_session_def sample_session_def ebind_def eret_def Let_def)
  then show ?thesis by (simp add: cloud_outage_def offline_env_def e) (simp add: calm_def eret_def ethrow_def e)
qed

definition offline_engine :: "unit engine" where
  "offline_engine = (fresh_engine ())\<lparr>en_queue := enqueued sample_session_push (new_queue None)\<rparr>"

definition ready_slots :: drain_slots where
  "ready_slots = \<lparr>ds_sessions = \<lparr>md_state = Ready, md_current = Some (EVENTS_V1, new_scope False), md_published = [], md_failed = []\<rparr>,
     ds_skills = new_module False\<rparr>"


end
