(* ===== verification/SessionScan.thy ===== *)
theory SessionScan
  imports QueueDrainLaws
begin

text \<open>
  From the local sessions to queued work: \<open>enqueueChangedSessionsAfterStability\<close>, the loading of the
  fenced state, and the scan of \<open>prepareSessionSync\<close> with its coalesced requests
  (\<open>packages/cli/src/serve/sync-engine.ts\<close>; the request type and \<open>scanSessionModule\<close> are in
  \<open>adapters/base.ts\<close>, the keys of profile sessions in \<open>adapters/profiles.ts\<close>).

  \<open>en_pushedSessions\<close> is \<open>lastPushedSessionHash\<close> and \<open>en_inFlight\<close> is \<open>inFlightSessionHash\<close>.
\<close>

section \<open>Keys of profile sessions\<close>

definition profileSessionKey :: "string option \<Rightarrow> string \<Rightarrow> string" where
  "profileSessionKey profileKey localSessionId =
     (case profileKey of
        Some p \<Rightarrow> if p = [] then localSessionId else p @ '':'' @ localSessionId
      | None \<Rightarrow> localSessionId)"

definition parseProfileSessionKey :: "string \<Rightarrow> string \<times> string" where
  "parseProfileSessionKey key =
     (if CHR '':'' \<in> set key
      then (takeWhile (\<lambda>c. c \<noteq> CHR '':'') key, tl (dropWhile (\<lambda>c. c \<noteq> CHR '':'') key))
      else ([], key))"

lemma profile_key_roundtrip:
  "CHR '':'' \<notin> set p \<Longrightarrow> (p = [] \<longrightarrow> CHR '':'' \<notin> set i) \<Longrightarrow>
     parseProfileSessionKey (profileSessionKey (Some p) i) = (p, i)"
  by (auto simp: parseProfileSessionKey_def profileSessionKey_def takeWhile_append dropWhile_append)

section \<open>Requests and results of a scan\<close>

datatype scan_request = Complete | Paths "string list"

record scan_issue =
  is_path :: string
  is_reason :: string

record 'w scan_batch =
  sb_sessions :: "'w raw_session list"
  sb_observedLocalSessionIds :: "string list"
  sb_scanIssues :: "scan_issue list"

record user_activity =
  ua_lastUserInputAt :: "string option"
  ua_complete :: bool

text \<open>A scan: each batch is a computation, the call of \<open>next\<close> on the iterator; \<open>coverage\<close> and
  \<open>userActivity\<close> are read after the last one.\<close>

record 'w scan_result =
  sr_complete :: bool
  sr_userActivity :: "user_activity option"
  sr_batches :: "('w, 'w scan_batch) eng list"

record 'w collect_result =
  co_sessions :: "'w raw_session list"
  co_complete :: bool
  co_scanIssues :: "scan_issue list"

text \<open>The session module of an adapter: \<open>scan\<close> is optional.\<close>

record 'w session_module =
  sm_scan :: "(scan_request \<Rightarrow> (string, string) js_map \<Rightarrow> ('w, 'w scan_result) eng) option"
  sm_collect :: "scan_request \<Rightarrow> ('w, 'w collect_result) eng"

definition scanSessionModule ::
  "'w session_module \<Rightarrow> scan_request \<Rightarrow> (string, string) js_map \<Rightarrow> ('w, 'w scan_result) eng" where
  "scanSessionModule reader request knownSourceRevisions =
     ethen throwIfAborted
       (case sm_scan reader of
          Some scan \<Rightarrow> scan request knownSourceRevisions
        | None \<Rightarrow>
            ebind (sm_collect reader request) (\<lambda>result.
              ethen throwIfAborted
                (eret \<lparr>sr_complete = co_complete result, sr_userActivity = None,
                   sr_batches = [eret \<lparr>sb_sessions = co_sessions result,
                     sb_observedLocalSessionIds = map rs_localSessionId (co_sessions result),
                     sb_scanIssues = co_scanIssues result\<rparr>]\<rparr>)))"

text \<open>The outside. \<open>sn_wait\<close> is what happens while a producer waits for capacity; \<open>sn_patience\<close> bounds how
  often it is woken before the signal is aborted.\<close>

record 'w scan_env =
  sn_upload :: "'w upload_env"
  sn_module :: "'w session_module"
  sn_apiOrigin :: string
  sn_excludeProjects :: "'w engine \<Rightarrow> string list"
  sn_normalizeProject :: "string \<Rightarrow> string"
  sn_resolve :: "string \<Rightarrow> string"
  sn_basename :: "string \<Rightarrow> string"
  sn_now :: "'w engine \<Rightarrow> string"
  sn_materialize :: "'w engine \<Rightarrow> bool"
  sn_recordActivity :: "user_activity \<Rightarrow> bool \<Rightarrow> ('w, unit) eng"
  sn_markActivityUnknown :: "('w, unit) eng"
  sn_wait :: "('w, unit) eng"
  sn_patience :: nat

section \<open>The fenced state\<close>

fun truthy_json :: "json option \<Rightarrow> bool" where
  "truthy_json None = False"
| "truthy_json (Some JNull) = False"
| "truthy_json (Some (JBool b)) = b"
| "truthy_json (Some (JNum n)) = (n \<noteq> 0)"
| "truthy_json (Some (JStr t)) = (t \<noteq> [])"
| "truthy_json (Some (JArr _)) = True"
| "truthy_json (Some (JObj _)) = True"

definition currentFencedSessionEntries :: "'w scan_env \<Rightarrow> engine_opts \<Rightarrow> lock_file \<Rightarrow> json list" where
  "currentFencedSessionEntries env opts data =
     filter (\<lambda>value. jprop value ''local_hash'' \<noteq> None \<and>
         jprop value ''api_origin'' = Some (JStr (sn_apiOrigin env)) \<and>
         jprop value ''environment_id'' = Some (JStr (op_environmentId opts)) \<and>
         jprop value ''adapter'' = Some (JStr (op_agentType opts)))
       (map snd (readSessionsLock (ue_parse (sn_upload env)) data))"

definition block_current :: "'w scan_env \<Rightarrow> 'w engine \<Rightarrow> json \<Rightarrow> bool" where
  "block_current env s value \<longleftrightarrow>
     (case jprop value ''blocked'' of
        None \<Rightarrow> True
      | Some b \<Rightarrow> truthy_json (Some b) \<longrightarrow>
          isSessionBlockCurrent (ue_dateParse (sn_upload env)) (ue_cliVersion (sn_upload env)) (block_of b) (ue_nowMs (sn_upload env) s))"

text \<open>Entries are read as the code writes them: the recorded hash and revision are strings.\<close>

definition add_string :: "string \<Rightarrow> json \<Rightarrow> (string, string) js_map \<Rightarrow> (string, string) js_map" where
  "add_string field value m =
     (case (as_string (jprop value ''source_session_key''), as_string (jprop value field)) of
        (Some key, Some text) \<Rightarrow> map_set key text m
      | _ \<Rightarrow> m)"

definition loadFencedSessionHashes :: "'w scan_env \<Rightarrow> engine_opts \<Rightarrow> 'w engine \<Rightarrow> (string, string) js_map" where
  "loadFencedSessionHashes env opts s =
     fold (\<lambda>value hashes.
         if jprop value ''pending'' = None \<and> block_current env s value then add_string ''local_hash'' value hashes else hashes)
       (currentFencedSessionEntries env opts (en_sessionsLock s)) []"

definition loadFencedSessionSourceRevisions ::
  "'w scan_env \<Rightarrow> engine_opts \<Rightarrow> string \<Rightarrow> 'w engine \<Rightarrow> (string, string) js_map" where
  "loadFencedSessionSourceRevisions env opts protocol s =
     fold (\<lambda>value revisions.
         if jprop value ''protocol'' = Some (JStr protocol) \<and> jprop value ''pending'' = None \<and>
            truthy_json (jprop value ''source_revision'') \<and> block_current env s value
         then add_string ''source_revision'' value revisions else revisions)
       (currentFencedSessionEntries env opts (en_sessionsLock s)) []"

definition reload_hashes :: "'w scan_env \<Rightarrow> engine_opts \<Rightarrow> ('w, unit) eng" where
  "reload_hashes env opts = emodify (\<lambda>s. s\<lparr>en_pushedSessions := loadFencedSessionHashes env opts s\<rparr>)"

section \<open>Enqueueing what changed\<close>

record tally =
  ta_enqueued :: nat
  ta_confirmed :: "revision_update list"
  ta_issues :: "scan_issue list"

definition scan_fence :: "'w scan_env \<Rightarrow> engine_opts \<Rightarrow> 'w raw_session \<Rightarrow> session_fence" where
  "scan_fence env opts session =
     sessionFence (sn_apiOrigin env) (op_environmentId opts) (op_agentType opts)
       (profileSessionKey (rs_profileKey session) (rs_localSessionId session)) (rs_profileKey session)"

definition session_input_of :: "'w scan_env \<Rightarrow> session_fence \<Rightarrow> 'w raw_session \<Rightarrow> string \<Rightarrow> 'w engine \<Rightarrow> queue_item_input" where
  "session_input_of env fence session hash s =
     SessionPushInput \<lparr>in_se_enqueued_at = sn_now env s, in_se_attempts = 0, in_profile_key = fe_profileKey fence,
       in_local_session_id = rs_localSessionId session, in_content_hash = hash, in_api_origin = fe_apiOrigin fence,
       in_environment_id = fe_environmentId fence, in_adapter = fe_adapter fence,
       in_source_session_key = fe_sourceSessionKey fence\<rparr>"

definition may_enqueue :: "queue_item_input \<Rightarrow> retry_queue \<Rightarrow> bool" where
  "may_enqueue item q \<longleftrightarrow>
     (let candidate = stampVersion item (rq_nextVersion q)
      in list_ex (\<lambda>existing. sameKey existing candidate) (rq_items q) \<or> moduleDepth candidate q < rq_maxItems q)"

text \<open>\<open>enqueueWhenAvailable\<close>: the version, or nothing when the signal was aborted.\<close>

fun en_enqueueWhenAvailable :: "('w, unit) eng \<Rightarrow> nat \<Rightarrow> queue_item_input \<Rightarrow> ('w, int option) eng" where
  "en_enqueueWhenAvailable wait n item =
     ebind (egets en_aborted) (\<lambda>aborted.
       if aborted then eret None
       else ebind (egets (\<lambda>s. may_enqueue item (en_queue s))) (\<lambda>free.
         if free then ebind (en_enqueue item) (\<lambda>version. eret (Some version))
         else (case n of
                 0 \<Rightarrow> ethen (emodify (\<lambda>s. s\<lparr>en_aborted := True\<rparr>)) (eret None)
               | Suc m \<Rightarrow> ethen wait (en_enqueueWhenAvailable wait m item))))"

declare en_enqueueWhenAvailable.simps [simp del]

text \<open>The acknowledgement of a session's source revision, if it has one.\<close>

definition revision_of :: "session_fence \<Rightarrow> 'w raw_session \<Rightarrow> 'w upload_plan \<Rightarrow> revision_update list" where
  "revision_of fence session plan =
     (case rs_sourceRevision session of
        None \<Rightarrow> []
      | Some r \<Rightarrow>
          if r = [] then []
          else [\<lparr>up_fence = fence, up_protocol = pl_protocol plan, up_localHash = pl_localHash plan, up_sourceRevision = r\<rparr>])"

text \<open>What happens with one session once its plan is known; the flag is whether the loop goes on.\<close>

definition scan_enqueue ::
  "'w scan_env \<Rightarrow> session_fence \<Rightarrow> 'w raw_session \<Rightarrow> string \<Rightarrow> tally \<Rightarrow> ('w, bool \<times> tally) eng" where
  "scan_enqueue env fence session hash t =
     ebind (egets en_aborted) (\<lambda>aborted.
       if aborted then eret (False, t)
       else ebind (\<lambda>s. en_enqueueWhenAvailable (sn_wait env) (sn_patience env)
             (session_input_of env fence session hash s) s) (\<lambda>version.
         case version of
           None \<Rightarrow> eret (False, t)
         | Some _ \<Rightarrow>
             ethen (emodify (\<lambda>s. s\<lparr>en_inFlight := map_set (fe_sourceSessionKey fence) hash (en_inFlight s)\<rparr>))
               (eret (True, t\<lparr>ta_enqueued := ta_enqueued t + 1\<rparr>))))"

definition scan_planned ::
  "'w scan_env \<Rightarrow> engine_opts \<Rightarrow> 'w raw_session \<Rightarrow> 'w upload_plan \<Rightarrow> tally \<Rightarrow> ('w, bool \<times> tally) eng" where
  "scan_planned env opts session plan t =
     (let hash = pl_localHash plan; fence = scan_fence env opts session; key = fe_sourceSessionKey fence;
          confirmed = t\<lparr>ta_confirmed := ta_confirmed t @ revision_of fence session plan\<rparr>
      in ebind (egets (sessionPlanIsDurablyBlocked (sn_upload env) fence plan)) (\<lambda>blocked.
         if blocked \<noteq> None \<and> blocked \<noteq> Some [] then
           ethen (en_health_do (health_set Push
               (''session:'' @ profileSessionKey (rs_profileKey session) (rs_localSessionId session))
               (''permanent: '' @ the blocked) False))
             (eret (True, confirmed))
         else ebind (egets (\<lambda>s. map_get (en_pushedSessions s) key = Some hash)) (\<lambda>pushed.
           if pushed then eret (True, confirmed)
           else ebind (egets (\<lambda>s. map_get (en_inFlight s) key = Some hash)) (\<lambda>inFlight.
             if inFlight then eret (True, t) else scan_enqueue env fence session hash t))))"

definition scan_session ::
  "'w scan_env \<Rightarrow> engine_opts \<Rightarrow> string \<Rightarrow> string list \<Rightarrow> 'w raw_session \<Rightarrow> tally \<Rightarrow> ('w, bool \<times> tally) eng" where
  "scan_session env opts protocol excluded session t =
     ebind (egets en_aborted) (\<lambda>aborted.
       if aborted then eret (False, t)
       else if (case rs_projectPath session of
                  Some path \<Rightarrow> path \<noteq> [] \<and> sn_normalizeProject env path \<in> set excluded | None \<Rightarrow> False)
       then eret (True, t)
       else
         ebind (ecatch (ebind (prepareSessionUpload (ue_sha (sn_upload env)) session protocol) (\<lambda>plan. eret (Inr plan)))
             (\<lambda>e. eret (Inl e))) (\<lambda>r.
           case r of
             Inl e \<Rightarrow>
               ebind (egets en_aborted) (\<lambda>aborted.
                 if aborted then eret (False, t)
                 else eret (True, t\<lparr>ta_issues := ta_issues t @ [\<lparr>is_path = rs_rawFilePath session, is_reason = toErrorMessage e\<rparr>]\<rparr>))
           | Inr plan \<Rightarrow> scan_planned env opts session plan t))"

fun scan_sessions ::
  "'w scan_env \<Rightarrow> engine_opts \<Rightarrow> string \<Rightarrow> string list \<Rightarrow> 'w raw_session list \<Rightarrow> tally \<Rightarrow> ('w, tally) eng" where
  "scan_sessions env opts protocol excluded [] t = eret t"
| "scan_sessions env opts protocol excluded (session # sessions) t =
     ebind (scan_session env opts protocol excluded session t) (\<lambda>(go, t').
       if go then scan_sessions env opts protocol excluded sessions t' else eret t')"

definition enqueueChangedSessionsAfterStability ::
  "'w scan_env \<Rightarrow> engine_opts \<Rightarrow> string \<Rightarrow> string list \<Rightarrow> 'w raw_session list \<Rightarrow> scan_issue list \<Rightarrow> ('w, tally) eng" where
  "enqueueChangedSessionsAfterStability env opts protocol excluded sessions issues =
     (let t = \<lparr>ta_enqueued = 0, ta_confirmed = [], ta_issues = issues\<rparr>
      in ebind (egets en_aborted) (\<lambda>aborted.
           if aborted then eret t else scan_sessions env opts protocol excluded sessions t))"

section \<open>One scan\<close>

text \<open>What the batches leave: the resources seen and the tally; \<open>None\<close> when the signal was aborted.\<close>

fun scan_batches ::
  "'w scan_env \<Rightarrow> engine_opts \<Rightarrow> string \<Rightarrow> string list \<Rightarrow> ('w, 'w scan_batch) eng list \<Rightarrow> string list \<Rightarrow> tally \<Rightarrow>
     ('w, (string list \<times> tally) option) eng" where
  "scan_batches env opts protocol excluded [] observed t = eret (Some (observed, t))"
| "scan_batches env opts protocol excluded (pull # pulls) observed t =
     ebind pull (\<lambda>batch.
     ethen (reload_hashes env opts)
       (ebind (enqueueChangedSessionsAfterStability env opts protocol excluded (sb_sessions batch)
           (ta_issues t @ sb_scanIssues batch)) (\<lambda>r.
        ebind (egets en_aborted) (\<lambda>aborted.
          if aborted then eret None
          else scan_batches env opts protocol excluded pulls
                 (observed @ map (\<lambda>i. ''session:'' @ i) (sb_observedLocalSessionIds batch))
                 \<lparr>ta_enqueued = ta_enqueued t + ta_enqueued r, ta_confirmed = ta_confirmed t @ ta_confirmed r,
                  ta_issues = ta_issues r\<rparr>))))"

definition issue_under :: "(string \<Rightarrow> string) \<Rightarrow> scan_request \<Rightarrow> string \<Rightarrow> bool" where
  "issue_under resolve request issuePath \<longleftrightarrow>
     (case request of
        Complete \<Rightarrow> False
      | Paths paths \<Rightarrow>
          list_ex (\<lambda>path. let scannedPath = resolve path
             in issuePath = scannedPath \<or> take (length scannedPath + 1) issuePath = scannedPath @ ''/'') paths)"

text \<open>The open scan issues after a scan: a scan of paths replaces only what lies under them.\<close>

definition next_issues ::
  "(string \<Rightarrow> string) \<Rightarrow> scan_request \<Rightarrow> bool \<Rightarrow> scan_issue list \<Rightarrow> (string, string) js_map \<Rightarrow> (string, string) js_map" where
  "next_issues resolve request whole_scan found open_issues =
     fold (\<lambda>issue. map_set (is_path issue) (is_reason issue)) found
       (if whole_scan then [] else filter (\<lambda>(path, _). \<not> issue_under resolve request path) open_issues)"

definition issues_message :: "'w scan_env \<Rightarrow> engine_opts \<Rightarrow> (string, string) js_map \<Rightarrow> string" where
  "issues_message env opts open_issues =
     join_with ''; '' (map (\<lambda>(path, reason). op_agentType opts @ '' '' @ sn_basename env path @ '': '' @ reason) open_issues)"

definition scan_finished ::
  "'w scan_env \<Rightarrow> engine_opts \<Rightarrow> scan_request \<Rightarrow> 'w scan_result \<Rightarrow> string list \<Rightarrow> tally \<Rightarrow> (string, string) js_map \<Rightarrow>
     ('w, (string, string) js_map) eng" where
  "scan_finished env opts request scan observed t open_issues =
     (let found = next_issues (sn_resolve env) request (sr_complete scan) (ta_issues t) open_issues
      in ethen throwIfAborted
           (ethen (sn_recordActivity env (or_else (sr_userActivity scan) \<lparr>ua_lastUserInputAt = None, ua_complete = False\<rparr>)
               (sr_complete scan))
             (ethen (emodify (\<lambda>s. s\<lparr>en_sessionsLock := persistFencedSessionSourceRevisions (ue_parse (sn_upload env))
                 (sha_hex (ue_sha (sn_upload env))) (ta_confirmed t) (en_sessionsLock s)\<rparr>))
               (ethen (if sr_complete scan then en_health_do (health_clearAbsent Push ''session:'' observed) else eret ())
                 (ethen (en_health_do (if found = [] then health_clear Push ''session_scan''
                     else health_set Push ''session_scan'' (issues_message env opts found) False))
                   (eret found))))))"

definition executeScan ::
  "'w scan_env \<Rightarrow> engine_opts \<Rightarrow> string \<Rightarrow> scan_request \<Rightarrow> (string, string) js_map \<Rightarrow> ('w, (string, string) js_map) eng" where
  "executeScan env opts protocol request open_issues =
     ebind (egets en_aborted) (\<lambda>aborted.
       if aborted then eret open_issues
       else ecatch
         (ebind (egets (sn_excludeProjects env)) (\<lambda>excluded.
          ethen (reload_hashes env opts)
            (ebind (egets (\<lambda>s. if request = Complete \<and> sn_materialize env s then []
                     else loadFencedSessionSourceRevisions env opts protocol s)) (\<lambda>known.
             ebind (scanSessionModule (sn_module env) request known) (\<lambda>scan.
             ebind (scan_batches env opts protocol excluded (sr_batches scan) []
                 \<lparr>ta_enqueued = 0, ta_confirmed = [], ta_issues = []\<rparr>) (\<lambda>r.
               case r of
                 None \<Rightarrow> eret open_issues
               | Some (observed, t) \<Rightarrow> scan_finished env opts request scan observed t open_issues))))))
         (\<lambda>e. ebind (egets en_aborted) (\<lambda>aborted.
            if aborted then eret open_issues
            else ethen (sn_markActivityUnknown env)
              (ethen (en_health_do (health_set Push ''session_scan'' (''session scan: '' @ toErrorMessage e) False))
                (eret open_issues)))))"

text \<open>The start: the protocol, the pushed hashes, and the durable blocks as health failures.\<close>

definition report_block :: "'w scan_env \<Rightarrow> json \<Rightarrow> ('w, unit) eng" where
  "report_block env entry =
     ebind (egets (block_current env)) (\<lambda>fresh.
       case jprop entry ''blocked'' of
         None \<Rightarrow> eret ()
       | Some b \<Rightarrow>
           if truthy_json (Some b) \<and> fresh entry
           then en_health_do (health_set Push
                  (''session:'' @ or_else (as_string (jprop entry ''source_session_key'')) [])
                  (''permanent: '' @ bl_message (block_of b)) False)
           else eret ())"

definition prepareSessionSync :: "'w scan_env \<Rightarrow> engine_opts \<Rightarrow> ('w, string) eng \<Rightarrow> ('w, string) eng" where
  "prepareSessionSync env opts negotiate =
     ebind (negotiateSessionProtocol (sn_upload env) negotiate) (\<lambda>protocol.
     ethen (reload_hashes env opts)
       (ebind (egets (\<lambda>s. currentFencedSessionEntries env opts (en_sessionsLock s))) (\<lambda>entries.
        ethen (eforeach entries (report_block env)) (eret protocol))))"

section \<open>Requests while a scan runs\<close>

text \<open>\<open>activeScan\<close>: none, a scan that runs, or a loop that has ended whose \<open>finally\<close> has not run yet.\<close>

datatype scan_phase = No_scan | Scanning scan_request | Leaving

record scan_desk =
  dk_pending :: "scan_request option"
  dk_phase :: scan_phase

definition idle_desk :: scan_desk where
  "idle_desk = \<lparr>dk_pending = None, dk_phase = No_scan\<rparr>"

definition first_occurrences :: "'a list \<Rightarrow> 'a list" where
  "first_occurrences xs = rev (remdups (rev xs))"

fun mergeScanRequest :: "scan_request option \<Rightarrow> scan_request \<Rightarrow> scan_request" where
  "mergeScanRequest None new = new"
| "mergeScanRequest (Some Complete) new = Complete"
| "mergeScanRequest (Some (Paths ps)) Complete = Complete"
| "mergeScanRequest (Some (Paths ps)) (Paths qs) = Paths (first_occurrences (ps @ qs))"

text \<open>The head of the loop: the request it takes up, if any.\<close>

definition loop_head :: "bool \<Rightarrow> scan_desk \<Rightarrow> scan_request option \<times> scan_desk" where
  "loop_head aborted d =
     (case dk_pending d of
        Some request \<Rightarrow>
          if aborted then (None, d\<lparr>dk_phase := Leaving\<rparr>)
          else (Some request, \<lparr>dk_pending = None, dk_phase = Scanning request\<rparr>)
      | None \<Rightarrow> (None, d\<lparr>dk_phase := Leaving\<rparr>))"

definition requestScan :: "bool \<Rightarrow> scan_request \<Rightarrow> scan_desk \<Rightarrow> scan_request option \<times> scan_desk" where
  "requestScan aborted request d =
     (let d' = d\<lparr>dk_pending := Some (mergeScanRequest (dk_pending d) request)\<rparr>
      in if dk_phase d' = No_scan then loop_head aborted d' else (None, d'))"

datatype desk_event = Ask scan_request | Scanned | Settled

fun desk_step :: "bool \<Rightarrow> desk_event \<Rightarrow> scan_desk \<Rightarrow> scan_request option \<times> scan_desk" where
  "desk_step aborted (Ask request) d = requestScan aborted request d"
| "desk_step aborted Scanned d = (case dk_phase d of Scanning _ \<Rightarrow> loop_head aborted d | _ \<Rightarrow> (None, d))"
| "desk_step aborted Settled d = (None, if dk_phase d = Leaving then d\<lparr>dk_phase := No_scan\<rparr> else d)"

text \<open>The scans started by a sequence of events, and the desk after it.\<close>

fun desk_run :: "desk_event list \<Rightarrow> scan_desk \<Rightarrow> scan_request list \<times> scan_desk" where
  "desk_run [] d = ([], d)"
| "desk_run (ev # evs) d =
     (let (started, d1) = desk_step False ev d; (later, d2) = desk_run evs d1
      in (case started of None \<Rightarrow> later | Some r \<Rightarrow> r # later, d2))"

end
