(* ===== verification/SessionScanLaws.thy ===== *)
theory SessionScanLaws
  imports SessionScan
begin

text \<open>
  What a scan of the sessions guarantees: what it may acknowledge as uploaded, that no changed session is
  passed over, and that no request for a scan is forgotten.
\<close>

section \<open>Acknowledged revisions\<close>

text \<open>\<open>S key hash\<close> stands for: this version of this session was uploaded, or refused for good. The lock
  and the cache of pushed hashes speak only of such versions.\<close>

definition lock_settled :: "(string \<Rightarrow> json option) \<Rightarrow> (string \<Rightarrow> string \<Rightarrow> bool) \<Rightarrow> lock_file \<Rightarrow> bool" where
  "lock_settled parse S data \<longleftrightarrow>
     (\<forall>value\<in>snd ` set (readSessionsLock parse data). \<forall>key hash.
        jprop value ''source_session_key'' = Some (JStr key) \<and> jprop value ''local_hash'' = Some (JStr hash) \<and>
        (jprop value ''pending'' = None \<or> jprop value ''blocked'' \<noteq> None) \<longrightarrow> S key hash)"

definition known_settled :: "'w scan_env \<Rightarrow> (string \<Rightarrow> string \<Rightarrow> bool) \<Rightarrow> 'w engine \<Rightarrow> bool" where
  "known_settled env S s \<longleftrightarrow>
     lock_settled (ue_parse (sn_upload env)) S (en_sessionsLock s) \<and>
     (\<forall>key hash. map_get (en_pushedSessions s) key = Some hash \<longrightarrow> S key hash)"

lemma as_string_Some: "as_string j = Some t \<longleftrightarrow> j = Some (JStr t)"
  by (cases j rule: as_string.cases) auto

lemma blocked_settled:
  "known_settled env S s \<Longrightarrow> sessionPlanIsDurablyBlocked (sn_upload env) fence plan s = Some m \<Longrightarrow>
     S (fe_sourceSessionKey fence) (pl_localHash plan)"
  by (auto simp: known_settled_def lock_settled_def sessionPlanIsDurablyBlocked_def up_entry_def readFencedSessionEntry_def
      exact_fence_def split: option.splits if_splits dest!: map_of_SomeD)

lemma add_string_settled:
  "(\<And>k h. map_get m k = Some h \<Longrightarrow> S k h) \<Longrightarrow>
     (\<And>k h. jprop v ''source_session_key'' = Some (JStr k) \<Longrightarrow> jprop v f = Some (JStr h) \<Longrightarrow> S k h) \<Longrightarrow>
     map_get (add_string f v m) k = Some h \<Longrightarrow> S k h"
  by (auto simp: add_string_def as_string_Some split: option.splits if_splits)

lemma loaded_settled:
  assumes "lock_settled (ue_parse (sn_upload env)) S (en_sessionsLock s)"
    and "map_get (loadFencedSessionHashes env opts s) key = Some hash"
  shows "S key hash"
proof -
  let ?step = "\<lambda>value hashes. if jprop value ''pending'' = None \<and> block_current env s value
    then add_string ''local_hash'' value hashes else hashes"
  have "\<forall>v\<in>set vs. v \<in> snd ` set (readSessionsLock (ue_parse (sn_upload env)) (en_sessionsLock s)) \<Longrightarrow>
      (\<And>k h. map_get m k = Some h \<Longrightarrow> S k h) \<Longrightarrow> map_get (fold ?step vs m) k = Some h \<Longrightarrow> S k h" for vs m k h
  proof (induction vs arbitrary: m)
    case (Cons v vs)
    have "map_get (?step v m) k = Some h \<Longrightarrow> S k h" for k h
      using Cons.prems(1,2) assms(1) add_string_settled [of m S v "''local_hash''"]
      by (auto simp: lock_settled_def split: if_splits)
    then show ?case using Cons.IH [of "?step v m"] Cons.prems by simp
  qed simp
  from this [of "currentFencedSessionEntries env opts (en_sessionsLock s)" "[]"] assms(2) show ?thesis
    by (auto simp: loadFencedSessionHashes_def currentFencedSessionEntries_def)
qed

lemma keeps_reload: "keeps (known_settled env S) (reload_hashes env opts)"
  unfolding reload_hashes_def
  by (rule keeps_modify) (auto simp: known_settled_def loaded_settled)

text \<open>Acknowledged so far.\<close>

definition acks :: "(string \<Rightarrow> string \<Rightarrow> bool) \<Rightarrow> tally \<Rightarrow> bool" where
  "acks S t \<longleftrightarrow> list_all (\<lambda>u. S (fe_sourceSessionKey (up_fence u)) (up_localHash u)) (ta_confirmed t)"

lemma acks_revision:
  "acks S t \<Longrightarrow> S (fe_sourceSessionKey fence) (pl_localHash plan) \<Longrightarrow>
     acks S (t\<lparr>ta_confirmed := ta_confirmed t @ revision_of fence session plan\<rparr>)"
  by (auto simp: acks_def revision_of_def split: option.splits)

lemma acks_other [simp]: "acks S (t\<lparr>ta_enqueued := n\<rparr>) = acks S t" "acks S (t\<lparr>ta_issues := is\<rparr>) = acks S t"
  by (simp_all add: acks_def)

lemma settled_frame [simp]:
  "known_settled env S (s\<lparr>en_inFlight := m\<rparr>) = known_settled env S s"
  "known_settled env S (s\<lparr>en_queue := q\<rparr>) = known_settled env S s"
  "known_settled env S (s\<lparr>en_queue := q, en_inFlight := m\<rparr>) = known_settled env S s"
  "known_settled env S (s\<lparr>en_health := h\<rparr>) = known_settled env S s"
  "known_settled env S (s\<lparr>en_aborted := b\<rparr>) = known_settled env S s"
  by (simp_all add: known_settled_def)

lemma keeps_enqueueWhenAvailable:
  assumes "keeps I wait" and "\<And>s b. I s \<Longrightarrow> I (s\<lparr>en_aborted := b\<rparr>)"
    and "\<And>s q m. I s \<Longrightarrow> I (s\<lparr>en_queue := q, en_inFlight := m\<rparr>)"
  shows "keeps I (en_enqueueWhenAvailable wait n item)"
proof -
  have enq: "keeps I (ebind (en_enqueue item) (\<lambda>version. eret (Some version)))"
    by (intro keeps_flow) (auto simp: keeps_iff en_enqueue_def assms(3) split: prod.splits)
  have stop: "keeps I (ethen (emodify (\<lambda>s. s\<lparr>en_aborted := True\<rparr>)) (eret None))"
    by (intro keeps_flow keeps_modify assms(2))
  show ?thesis
  proof (induction n)
    case 0
    show ?case by (subst en_enqueueWhenAvailable.simps) (auto intro!: keeps_flow enq stop)
  next
    case (Suc n)
    show ?case by (subst en_enqueueWhenAvailable.simps) (auto intro!: keeps_flow enq assms(1) Suc.IH)
  qed
qed

text \<open>What is awaited keeps the knowledge true.\<close>

definition scan_env_settled :: "'w scan_env \<Rightarrow> (string \<Rightarrow> string \<Rightarrow> bool) \<Rightarrow> bool" where
  "scan_env_settled env S \<longleftrightarrow> keeps (known_settled env S) (sn_wait env)"

text \<open>One session by cases.\<close>

lemma scan_planned_run:
  "scan_planned env opts session plan t s =
     (let hash = pl_localHash plan; fence = scan_fence env opts session; key = fe_sourceSessionKey fence;
          blocked = sessionPlanIsDurablyBlocked (sn_upload env) fence plan s;
          confirmed = t\<lparr>ta_confirmed := ta_confirmed t @ revision_of fence session plan\<rparr>
      in if blocked \<noteq> None \<and> blocked \<noteq> Some [] then
           (Inr (True, confirmed), s\<lparr>en_health := health_set Push
               (''session:'' @ profileSessionKey (rs_profileKey session) (rs_localSessionId session))
               (''permanent: '' @ the blocked) False (en_health s)\<rparr>)
         else if map_get (en_pushedSessions s) key = Some hash then (Inr (True, confirmed), s)
         else if map_get (en_inFlight s) key = Some hash then (Inr (True, t), s)
         else scan_enqueue env fence session hash t s)"
  unfolding scan_planned_def Let_def egets_run en_health_do_def
  by (simp add: egets_run ethen_modify eret_run)

lemma enqueue_acks:
  assumes "scan_env_settled env S" and "acks S t"
  shows "valid (known_settled env S) (scan_enqueue env fence session hash t)
    (\<lambda>r s. known_settled env S s \<and> acks S (snd r)) (\<lambda>_. known_settled env S)"
proof -
  let ?I = "known_settled env S"
  have "keeps ?I (\<lambda>s. en_enqueueWhenAvailable (sn_wait env) (sn_patience env) (session_input_of env fence session hash s) s)"
    using keeps_enqueueWhenAvailable [of ?I "sn_wait env"] assms(1) by (simp add: scan_env_settled_def keeps_iff)
  note wait = valid_bind [OF this [unfolded keeps_def]]
  have set_hash: "valid ?I (ethen (emodify (\<lambda>s. s\<lparr>en_inFlight := f s\<rparr>)) (eret (True, t\<lparr>ta_enqueued := n\<rparr>)))
      (\<lambda>r s. ?I s \<and> acks S (snd r)) (\<lambda>_. ?I)" for f n
    using assms(2) by (simp add: valid_def ethen_def ebind_def emodify_def eret_def)
  have keep: "valid ?I (eret (False, t)) (\<lambda>r s. ?I s \<and> acks S (snd r)) (\<lambda>_. ?I)"
    using assms(2) by (simp add: valid_def eret_def)
  show ?thesis
    unfolding scan_enqueue_def
    by (rule valid_bind [OF keeps_gets [unfolded keeps_def]], rule valid_if [OF keep], rule wait)
      (auto intro: keep set_hash split: option.split)
qed

lemma planned_acks:
  assumes "scan_env_settled env S" and "acks S t"
  shows "valid (known_settled env S) (scan_planned env opts session plan t)
    (\<lambda>r s. known_settled env S s \<and> acks S (snd r)) (\<lambda>_. known_settled env S)"
  unfolding valid_def
proof (intro allI impI)
  fix s assume s: "known_settled env S s"
  let ?fence = "scan_fence env opts session"
  let ?confirmed = "t\<lparr>ta_confirmed := ta_confirmed t @ revision_of ?fence session plan\<rparr>"
  have pushed: "map_get (en_pushedSessions s) (fe_sourceSessionKey ?fence) = Some (pl_localHash plan) \<Longrightarrow> acks S ?confirmed"
    using s by (auto simp: known_settled_def intro!: acks_revision [OF assms(2)])
  have blocked: "sessionPlanIsDurablyBlocked (sn_upload env) ?fence plan s = Some m \<Longrightarrow> acks S ?confirmed" for m
    using blocked_settled [OF s] by (intro acks_revision [OF assms(2)])
  have next_step: "case scan_enqueue env ?fence session (pl_localHash plan) t s of
      (Inr r, s') \<Rightarrow> known_settled env S s' \<and> acks S (snd r) | (Inl e, s') \<Rightarrow> known_settled env S s'"
    using enqueue_acks [OF assms, of ?fence session "pl_localHash plan"] s by (simp add: valid_def)
  show "case scan_planned env opts session plan t s of
      (Inr r, s') \<Rightarrow> known_settled env S s' \<and> acks S (snd r) | (Inl e, s') \<Rightarrow> known_settled env S s'"
    unfolding scan_planned_run Let_def using next_step s pushed blocked assms(2) by auto
qed

lemma session_acks:
  assumes "scan_env_settled env S" and "acks S t" and "session_keeps (known_settled env S) session"
  shows "valid (known_settled env S) (scan_session env opts protocol excluded session t)
    (\<lambda>r s. known_settled env S s \<and> acks S (snd r)) (\<lambda>_. known_settled env S)"
proof -
  let ?I = "known_settled env S"
  let ?ok = "\<lambda>r s. ?I s \<and> acks S (snd r)"
  have keep: "valid ?I (eret (b, t')) ?ok (\<lambda>_. ?I)" if "ta_confirmed t' = ta_confirmed t" for b t'
    using assms(2) that by (simp add: valid_def eret_def acks_def)
  have plan: "keeps ?I (ecatch (ebind (prepareSessionUpload (ue_sha (sn_upload env)) session protocol) (\<lambda>plan. eret (Inr plan)))
      (\<lambda>e. eret (Inl e)))"
    using valid_post [OF prepare_plan_keeps [OF assms(3)]] by (intro keeps_flow) (auto simp: keeps_def)
  note gets = valid_bind [OF keeps_gets [unfolded keeps_def]]
  show ?thesis
    unfolding scan_session_def
    by (rule gets, intro valid_if keep refl valid_bind [OF plan [unfolded keeps_def]])
      (auto intro!: gets valid_if keep planned_acks assms split: sum.split)
qed

lemma sessions_acks:
  assumes "scan_env_settled env S" and "\<forall>x\<in>set xs. session_keeps (known_settled env S) x" and "acks S t"
  shows "valid (known_settled env S) (scan_sessions env opts protocol excluded xs t)
    (\<lambda>r s. known_settled env S s \<and> acks S r) (\<lambda>_. known_settled env S)"
  using assms(2,3)
proof (induction xs arbitrary: t)
  case Nil
  then show ?case by (simp add: valid_def eret_def)
next
  case (Cons x xs)
  have stop: "valid (\<lambda>s. known_settled env S s \<and> acks S r) (eret r) (\<lambda>r s. known_settled env S s \<and> acks S r)
      (\<lambda>_. known_settled env S)" for r
    by (simp add: valid_def eret_def)
  have go: "valid (\<lambda>s. known_settled env S s \<and> acks S r) (scan_sessions env opts protocol excluded xs r)
      (\<lambda>r s. known_settled env S s \<and> acks S r) (\<lambda>_. known_settled env S)" for r
    using Cons.IH [of r] Cons.prems(1) by (cases "acks S r") (simp_all add: valid_def)
  show ?case
    unfolding scan_sessions.simps
    by (rule valid_bind [OF session_acks [OF assms(1) Cons.prems(2)]]) (use Cons.prems go stop in auto)
qed

text \<open>C22. Only what is settled is acknowledged: let \<open>S\<close> be the versions of sessions that were uploaded, or
  refused for good, as the sessions lock and the cache of pushed hashes record them, and let whatever
  the scan awaits keep these records true. Then every source revision the scan reports as confirmed
  belongs to a version in \<open>S\<close>. A session that is only queued, in flight, unreadable or skipped is
  never acknowledged, so the source is read again.\<close>

theorem scan_confirms_only_settled:
  assumes "scan_env_settled env S" and "\<forall>x\<in>set sessions. session_keeps (known_settled env S) x"
    and "known_settled env S s"
    and "enqueueChangedSessionsAfterStability env opts protocol excluded sessions issues s = (Inr t, s')"
  shows "list_all (\<lambda>u. S (fe_sourceSessionKey (up_fence u)) (up_localHash u)) (ta_confirmed t)"
proof -
  have none: "acks S \<lparr>ta_enqueued = 0, ta_confirmed = [], ta_issues = issues\<rparr>" by (simp add: acks_def)
  have "valid (known_settled env S) (enqueueChangedSessionsAfterStability env opts protocol excluded sessions issues)
      (\<lambda>r s. known_settled env S s \<and> acks S r) (\<lambda>_. known_settled env S)"
    unfolding enqueueChangedSessionsAfterStability_def Let_def
    by (rule valid_bind [OF keeps_gets [unfolded keeps_def]], rule valid_if [OF _ sessions_acks [OF assms(1,2) none]])
      (use none in \<open>simp add: valid_def eret_def\<close>)
  from validD [OF this assms(3,4)] show ?thesis by (simp add: acks_def)
qed

definition sample_scan_env :: "unit scan_env" where
  "sample_scan_env =
     \<lparr>sn_upload = sample_upload_env,
      sn_module = \<lparr>sm_scan = None, sm_collect = (\<lambda>_. eret \<lparr>co_sessions = [sample_session], co_complete = True, co_scanIssues = []\<rparr>)\<rparr>,
      sn_apiOrigin = ''https://api'', sn_excludeProjects = (\<lambda>_. []), sn_normalizeProject = id, sn_resolve = id, sn_basename = id,
      sn_now = (\<lambda>_. ''t0''), sn_materialize = (\<lambda>_. False), sn_recordActivity = (\<lambda>_ _. eret ()), sn_markActivityUnknown = eret (),
      sn_wait = eret (), sn_patience = 1\<rparr>"

definition quiet_session :: "unit raw_session" where
  "quiet_session = sample_session\<lparr>rs_events := None, rs_readEvents := None\<rparr>"

definition sample_scan_hash :: string where
  "sample_scan_hash = sn_hash (describe_messages toy_sha False [])"

definition pushed_engine :: "unit engine" where
  "pushed_engine = (fresh_engine ())\<lparr>en_pushedSessions := [(''s1'', sample_scan_hash)]\<rparr>"

lemma quiet_plan:
  "\<exists>plan. prepareSessionUpload toy_sha quiet_session SNAPSHOT_V1 s = (Inr plan, s) \<and> pl_localHash plan = sample_scan_hash"
  by (simp add: prepareSessionUpload_def snapshotPlan_def describe_session_def readSessionMessages_def whole_def
      quiet_session_def sample_session_def eng_defs Let_def plan_of_snapshot_def sample_scan_hash_def)

lemma sample_scan_run:
  "\<exists>t. enqueueChangedSessionsAfterStability sample_scan_env sample_agent SNAPSHOT_V1 [] [quiet_session] [] pushed_engine =
     (Inr t, pushed_engine) \<and> length (ta_confirmed t) = 1"
proof -
  obtain plan where plan: "prepareSessionUpload toy_sha quiet_session SNAPSHOT_V1 pushed_engine = (Inr plan, pushed_engine)"
    and hash: "pl_localHash plan = sample_scan_hash" using quiet_plan by blast
  let ?fence = "scan_fence sample_scan_env sample_agent quiet_session"
  have key: "fe_sourceSessionKey ?fence = ''s1''" and rev: "length (revision_of ?fence quiet_session plan) = 1"
    by (simp_all add: scan_fence_def sessionFence_def profileSessionKey_def quiet_session_def sample_session_def revision_of_def)
  have unblocked: "sessionPlanIsDurablyBlocked (sn_upload sample_scan_env) ?fence plan pushed_engine = None"
    by (simp add: sessionPlanIsDurablyBlocked_def up_entry_def readSessionsLock_def readFencedSessionEntry_def
        pushed_engine_def fresh_engine_def)
  have env: "ue_sha (sn_upload sample_scan_env) = toy_sha" "rs_projectPath quiet_session = None" "\<not> en_aborted pushed_engine"
    by (simp_all add: sample_scan_env_def sample_upload_env_def quiet_session_def sample_session_def pushed_engine_def fresh_engine_def)
  have pushed: "map_get (en_pushedSessions pushed_engine) ''s1'' = Some sample_scan_hash" by (simp add: pushed_engine_def)
  let ?t = "\<lparr>ta_enqueued = 0, ta_confirmed = [], ta_issues = []\<rparr>"
  have "scan_session sample_scan_env sample_agent SNAPSHOT_V1 [] quiet_session ?t pushed_engine =
      (Inr (True, ?t\<lparr>ta_confirmed := revision_of ?fence quiet_session plan\<rparr>), pushed_engine)"
    unfolding scan_session_def egets_run env
    by (simp add: env ecatch_def ebind_def plan eret_def scan_planned_run unblocked key hash pushed)
  then show ?thesis
    unfolding enqueueChangedSessionsAfterStability_def Let_def egets_run env
    by (simp add: env ebind_def eret_def rev)
qed

theorem scan_confirms_only_settled_witness:
  "\<exists>t. enqueueChangedSessionsAfterStability sample_scan_env sample_agent SNAPSHOT_V1 [] [quiet_session] [] pushed_engine =
       (Inr t, pushed_engine) \<and> length (ta_confirmed t) = 1 \<and>
     list_all (\<lambda>u. fe_sourceSessionKey (up_fence u) = ''s1'' \<and> up_localHash u = sample_scan_hash) (ta_confirmed t)"
proof -
  let ?S = "\<lambda>k h. k = ''s1'' \<and> h = sample_scan_hash"
  obtain t where run: "enqueueChangedSessionsAfterStability sample_scan_env sample_agent SNAPSHOT_V1 [] [quiet_session] []
      pushed_engine = (Inr t, pushed_engine)" and one: "length (ta_confirmed t) = 1"
    using sample_scan_run by blast
  have "scan_env_settled sample_scan_env ?S" by (simp add: scan_env_settled_def sample_scan_env_def keeps_ret)
  moreover have "\<forall>x\<in>set [quiet_session]. session_keeps (known_settled sample_scan_env ?S) x"
    by (simp add: session_keeps_def quiet_session_def sample_session_def)
  moreover have "known_settled sample_scan_env ?S pushed_engine"
    by (simp add: known_settled_def lock_settled_def pushed_engine_def fresh_engine_def readSessionsLock_def)
  ultimately have "list_all (\<lambda>u. ?S (fe_sourceSessionKey (up_fence u)) (up_localHash u)) (ta_confirmed t)"
    using run by (rule scan_confirms_only_settled)
  with run one show ?thesis by blast
qed

section \<open>No changed session is passed over\<close>

text \<open>The sessions of the queue are within their bound.\<close>

definition session_room :: "'w engine \<Rightarrow> bool" where
  "session_room s \<longleftrightarrow> length (module_items False (en_queue s)) \<le> rq_maxItems (en_queue s)"

lemma enqueueWhenAvailable_step:
  "en_enqueueWhenAvailable wait n item s =
     (if en_aborted s then (Inr None, s)
      else if may_enqueue item (en_queue s) then ebind (en_enqueue item) (\<lambda>version. eret (Some version)) s
      else (case n of
              0 \<Rightarrow> (Inr None, s\<lparr>en_aborted := True\<rparr>)
            | Suc m \<Rightarrow> ethen wait (en_enqueueWhenAvailable wait m item) s))"
  by (subst en_enqueueWhenAvailable.simps)
    (simp add: egets_run eret_run ethen_modify split: nat.split)

lemma enqueued_last:
  assumes "may_enqueue item q" and "\<not> is_skill_input item" and "length (module_items False q) \<le> rq_maxItems q"
  shows "\<exists>older. rq_items (enqueued item q) = older @ [stampVersion item (rq_nextVersion q)]"
proof -
  have "enqueue_excess item q = 0"
    using assms by (intro no_excess_when_available) (auto simp: may_enqueue_def moduleDepth_module_items Let_def)
  from enqueue_keeps_without_excess(2) [OF this] show ?thesis by (simp add: enqueue_base_def)
qed

lemma enqueueWhenAvailable_queues:
  assumes "keeps session_room wait" and "session_room s" and "\<not> is_skill_input item"
    and "en_enqueueWhenAvailable wait n item s = (Inr (Some v), s')"
  shows "\<exists>older. rq_items (en_queue s') = older @ [stampVersion item v]"
  using assms(2,4)
proof (induction n arbitrary: s)
  case 0
  then show ?case
    using enqueued_last [of item "en_queue s"] assms(3) enqueue_closed(1) [of item "en_queue s"]
    by (auto simp: enqueueWhenAvailable_step ebind_def eret_def en_enqueue_def session_room_def split: if_splits prod.splits)
next
  case (Suc n)
  show ?case
  proof (cases "may_enqueue item (en_queue s)")
    case True
    then show ?thesis
      using Suc.prems enqueued_last [of item "en_queue s"] assms(3) enqueue_closed(1) [of item "en_queue s"]
      by (auto simp: enqueueWhenAvailable_step [of _ "Suc n"] ebind_def eret_def en_enqueue_def session_room_def
          split: if_splits prod.splits)
  next
    case False
    then obtain r s1 where w: "wait s = (r, s1)" "en_enqueueWhenAvailable wait n item s1 = (Inr (Some v), s')"
      using Suc.prems(2)
      by (auto simp: enqueueWhenAvailable_step [of _ "Suc n"] ethen_def ebind_def split: if_splits prod.splits sum.splits)
    then show ?thesis using Suc.IH keepsD [OF assms(1) Suc.prems(1) w(1)] by blast
  qed
qed

text \<open>No changed session is passed over: when the loop over a batch goes on after a session, then that
  version of the session is durably blocked and the block is shown, or it is the one already pushed, or
  it is the one in flight, or it has just been queued, as the newest entry of the queue, and is now
  marked as in flight. Queueing costs no other session its place.\<close>

lemma scan_passes_nothing_over:
  fixes env :: "'w scan_env"
  assumes "keeps session_room (sn_wait env)" and "session_room s"
    and "scan_planned env opts session plan t s = (Inr (True, t'), s')"
  shows "sessionPlanIsDurablyBlocked (sn_upload env) (scan_fence env opts session) plan s \<noteq> None \<and>
      map_has (area_errors Push (en_health s')) (''session:'' @ profileSessionKey (rs_profileKey session) (rs_localSessionId session)) \<or>
    map_get (en_pushedSessions s) (fe_sourceSessionKey (scan_fence env opts session)) = Some (pl_localHash plan) \<and> s' = s \<or>
    map_get (en_inFlight s) (fe_sourceSessionKey (scan_fence env opts session)) = Some (pl_localHash plan) \<and> s' = s \<and> t' = t \<or>
    map_get (en_inFlight s') (fe_sourceSessionKey (scan_fence env opts session)) = Some (pl_localHash plan) \<and>
      ta_enqueued t' = ta_enqueued t + 1 \<and> ta_confirmed t' = ta_confirmed t \<and>
      (\<exists>older v. rq_items (en_queue s') = older @
         [stampVersion (session_input_of env (scan_fence env opts session) session (pl_localHash plan) s) v])"
proof -
  let ?fence = "scan_fence env opts session"
  have new: "\<not> is_skill_input (session_input_of env ?fence session h s)" for h by (simp add: session_input_of_def)
  show ?thesis
    using assms(3)
    unfolding scan_planned_run Let_def scan_enqueue_def egets_run
    by (auto simp: ebind_def eret_def ethen_modify health_set_def split: if_splits prod.splits sum.splits option.splits
        dest!: enqueueWhenAvailable_queues [OF assms(1,2) new])
qed

definition sample_plan :: "unit upload_plan" where
  "sample_plan = plan_of_snapshot \<lparr>sn_hash = ''h1'', sn_size = 2, sn_bytes = None\<rparr> (ethrow snapshot_changed)"

lemma scan_passes_nothing_over_witness:
  "\<exists>t' s' older v. scan_planned sample_scan_env sample_agent quiet_session sample_plan \<lparr>ta_enqueued = 0, ta_confirmed = [], ta_issues = []\<rparr>
       (fresh_engine ()) = (Inr (True, t'), s') \<and>
     map_get (en_inFlight s') ''s1'' = Some ''h1'' \<and> ta_enqueued t' = 1 \<and>
     rq_items (en_queue s') = older @ [stampVersion (session_input_of sample_scan_env
       (scan_fence sample_scan_env sample_agent quiet_session) quiet_session ''h1'' (fresh_engine ())) v]"
proof -
  let ?fence = "scan_fence sample_scan_env sample_agent quiet_session" and ?s = "fresh_engine ()"
  let ?t = "\<lparr>ta_enqueued = 0, ta_confirmed = [], ta_issues = []\<rparr>"
  have key: "fe_sourceSessionKey ?fence = ''s1''"
    by (simp add: scan_fence_def sessionFence_def profileSessionKey_def quiet_session_def sample_session_def)
  have unblocked: "sessionPlanIsDurablyBlocked (sn_upload sample_scan_env) ?fence sample_plan ?s = None"
    by (simp add: sessionPlanIsDurablyBlocked_def up_entry_def readSessionsLock_def readFencedSessionEntry_def fresh_engine_def)
  have hash: "pl_localHash sample_plan = ''h1''" by (simp add: sample_plan_def plan_of_snapshot_def)
  have fresh: "\<not> en_aborted ?s" "en_pushedSessions ?s = []" "en_inFlight ?s = []" by (simp_all add: fresh_engine_def)
  let ?item = "session_input_of sample_scan_env ?fence quiet_session ''h1'' ?s"
  have free: "may_enqueue ?item (en_queue ?s)"
    by (simp add: may_enqueue_def fresh_engine_def new_queue_def moduleDepth_def DEFAULT_MAX_ITEMS_def)
  obtain t' s' where run: "scan_planned sample_scan_env sample_agent quiet_session sample_plan ?t ?s = (Inr (True, t'), s')"
    unfolding scan_planned_run Let_def key hash scan_enqueue_def egets_run
    by (cases "enqueue ?item (en_queue ?s)")
      (auto simp: unblocked fresh key hash ebind_def enqueueWhenAvailable_step free en_enqueue_def ethen_modify eret_def)
  have room: "keeps session_room (sn_wait sample_scan_env)" "session_room ?s"
    by (simp_all add: sample_scan_env_def keeps_ret session_room_def fresh_engine_def new_queue_def module_items_def)
  from scan_passes_nothing_over [OF room run] run show ?thesis
    by (auto simp: unblocked key hash fresh)
qed

section \<open>No request is forgotten\<close>

fun covers_request :: "scan_request \<Rightarrow> scan_request \<Rightarrow> bool" where
  "covers_request Complete r \<longleftrightarrow> True"
| "covers_request (Paths ps) Complete \<longleftrightarrow> False"
| "covers_request (Paths ps) (Paths qs) \<longleftrightarrow> set qs \<subseteq> set ps"

lemma covers_merge_new: "covers_request (mergeScanRequest pending r) r"
  by (cases "(pending, r)" rule: mergeScanRequest.cases) (auto simp: first_occurrences_def intro: covers_request.elims)

lemma covers_merge_old: "covers_request p r \<Longrightarrow> covers_request (mergeScanRequest (Some p) q) r"
  by (cases p; cases q; cases r) (auto simp: first_occurrences_def)

lemma covers_trans: "covers_request a b \<Longrightarrow> covers_request b c \<Longrightarrow> covers_request a c"
  by (cases a; cases b; cases c) auto

text \<open>A pending request is taken up by a scan or still pending, possibly merged with later ones.\<close>

definition on_desk :: "scan_request \<Rightarrow> scan_request list \<Rightarrow> scan_desk \<Rightarrow> bool" where
  "on_desk r started d \<longleftrightarrow> list_ex (\<lambda>x. covers_request x r) started \<or> (\<exists>p. dk_pending d = Some p \<and> covers_request p r)"

lemma step_on_desk:
  "on_desk r [] d \<Longrightarrow> desk_step False ev d = (started, d') \<Longrightarrow> on_desk r (case started of None \<Rightarrow> [] | Some x \<Rightarrow> [x]) d'"
  by (cases ev) (auto simp: on_desk_def requestScan_def loop_head_def Let_def covers_merge_old split: if_splits option.splits scan_phase.splits)

lemma run_on_desk: "on_desk r [] d \<Longrightarrow> desk_run evs d = (started, d') \<Longrightarrow> on_desk r started d'"
proof (induction evs arbitrary: d started)
  case (Cons ev evs)
  obtain st d1 where step: "desk_step False ev d = (st, d1)" by fastforce
  obtain later where later: "desk_run evs d1 = (later, d')" and started: "started = (case st of None \<Rightarrow> later | Some x \<Rightarrow> x # later)"
    using Cons.prems(2) step by (auto split: prod.splits)
  from step_on_desk [OF Cons.prems(1) step] show ?case
  proof (cases "on_desk r [] d1")
    case True
    from Cons.IH [OF this later] started show ?thesis by (auto simp: on_desk_def split: option.splits)
  qed (auto simp: on_desk_def started split: option.splits)
qed (simp add: on_desk_def)

lemma ask_on_desk: "desk_step False (Ask r) d = (started, d') \<Longrightarrow> on_desk r (case started of None \<Rightarrow> [] | Some x \<Rightarrow> [x]) d'"
  using covers_merge_new [of "dk_pending d" r]
  by (auto simp: on_desk_def requestScan_def loop_head_def Let_def split: if_splits option.splits)

text \<open>C23. No request for a scan is forgotten while the engine runs: whatever happened before (any
  interleaving of requests, finished scans and settled loops) and whatever happens after, a request for
  a scan is covered by a scan that started with or after it, or it is still pending. A request that arrives
  while a scan runs is never taken as served by that scan, and a request for some paths is never
  narrowed by merging it with others.\<close>

theorem scan_requests_not_lost:
  assumes "desk_run before idle_desk = (earlier, d)" and "desk_run (Ask r # after) d = (started, d')"
  shows "list_ex (\<lambda>x. covers_request x r) started \<or> (\<exists>p. dk_pending d' = Some p \<and> covers_request p r)"
proof -
  obtain st d1 later where step: "desk_step False (Ask r) d = (st, d1)" and later: "desk_run after d1 = (later, d')"
    and st: "started = (case st of None \<Rightarrow> later | Some x \<Rightarrow> x # later)"
    using assms(2) by (auto split: prod.splits)
  from ask_on_desk [OF step] have "on_desk r started d'"
  proof (cases "on_desk r [] d1")
    case True
    from run_on_desk [OF this later] st show ?thesis by (auto simp: on_desk_def split: option.splits)
  qed (auto simp: on_desk_def st split: option.splits)
  then show ?thesis by (simp add: on_desk_def)
qed

theorem scan_requests_not_lost_witness:
  "desk_run [Ask (Paths [''a''])] idle_desk = ([Paths [''a'']], \<lparr>dk_pending = None, dk_phase = Scanning (Paths [''a''])\<rparr>) \<and>
   list_ex (\<lambda>x. covers_request x (Paths [''b''])) (fst (desk_run [Ask (Paths [''b'']), Ask (Paths [''a'']), Scanned]
     \<lparr>dk_pending = None, dk_phase = Scanning (Paths [''a''])\<rparr>))"
proof -
  have one: "desk_run [Ask (Paths [''a''])] idle_desk = ([Paths [''a'']], \<lparr>dk_pending = None, dk_phase = Scanning (Paths [''a''])\<rparr>)"
    by code_simp
  moreover obtain started d' where two: "desk_run [Ask (Paths [''b'']), Ask (Paths [''a'']), Scanned]
     \<lparr>dk_pending = None, dk_phase = Scanning (Paths [''a''])\<rparr> = (started, d')" by fastforce
  moreover have "dk_pending d' = None" using two by (auto simp: requestScan_def loop_head_def)
  ultimately show ?thesis using scan_requests_not_lost [OF one two] by auto
qed

text \<open>A request that arrives between the end of the loop and its \<open>finally\<close> stays pending without a scan; the
  next request takes it up.\<close>

lemma request_in_the_gap:
  "desk_run [Ask Complete, Scanned, Ask (Paths [p]), Settled] idle_desk =
     ([Complete], \<lparr>dk_pending = Some (Paths [p]), dk_phase = No_scan\<rparr>)"
  by (simp add: idle_desk_def requestScan_def loop_head_def)

lemma pending_taken_up:
  "dk_phase d \<noteq> Leaving \<Longrightarrow> dk_pending d = Some p \<Longrightarrow> covers_request p r \<Longrightarrow>
     \<exists>x. fst (desk_step False (if dk_phase d = No_scan then Ask q else Scanned) d) = Some x \<and> covers_request x r"
  by (cases "dk_phase d") (auto simp: requestScan_def loop_head_def covers_merge_old)

end
