(* ===== verification/OperationRunner.thy ===== *)
theory OperationRunner
  imports Sanitize
begin

text \<open>
  The commands the daemon runs on request, \<open>OperationManager\<close> in
  \<open>packages/cli/src/serve/operation-runner.ts\<close>: which operation may start, how its output and its end
  are recorded, cancelling, and the shutdown.

  A child process is its events: output, an error, and the \<open>close\<close> that ends it. Identifiers are given by
  \<open>randomUUID\<close>, times by the clock. \<open>rn_termination\<close> says that \<open>terminateProcessGroup\<close> was called.
\<close>

section \<open>Records\<close>

datatype operation_status = Running | Succeeded | Failed | Cancelled

record operation_snapshot =
  rn_id :: string
  rn_name :: string
  rn_status :: operation_status
  rn_exclusive_key :: "string option"
  rn_command :: "string list"
  rn_cwd :: string
  rn_started_at :: string
  rn_finished_at :: "string option"
  rn_exit_code :: "int option"
  rn_signal :: "string option"
  rn_stdout :: "string list"
  rn_stderr :: "string list"

record operation_record = operation_snapshot +
  rn_closeObserved :: bool
  rn_termination :: bool

record operation_manager =
  om_operations :: "(string, operation_record) js_map"
  om_shuttingDown :: bool

record command_options =
  co_name :: string
  co_args :: "string list"
  co_cwd :: string
  co_redactedArgs :: "string list option"
  co_exclusiveKey :: "string option"

definition MAX_OUTPUT_LINES :: nat where "MAX_OUTPUT_LINES = 1000"
definition MAX_OPERATIONS :: nat where "MAX_OPERATIONS = 100"
definition MAX_RUNNING_OPERATIONS :: nat where "MAX_RUNNING_OPERATIONS = 4"

definition new_manager :: operation_manager where
  "new_manager = \<lparr>om_operations = [], om_shuttingDown = False\<rparr>"

section \<open>Output\<close>

text \<open>\<open>split(/\r?\n/)\<close>: the break takes a carriage return before it.\<close>

definition drop_cr :: "string \<Rightarrow> string" where
  "drop_cr line = (if line \<noteq> [] \<and> last line = CHR 0x0D then butlast line else line)"

definition split_lines :: "string \<Rightarrow> string list" where
  "split_lines text = (let parts = split_on (CHR 0x0A) text in map drop_cr (butlast parts) @ [last parts])"

definition tail :: "string list \<Rightarrow> nat \<Rightarrow> string list" where
  "tail lines limit = drop (length lines - limit) lines"

definition appendLines :: "string list \<Rightarrow> string \<Rightarrow> string list" where
  "appendLines target chunk =
     (let all = target @ filter (\<lambda>line. line \<noteq> []) (split_lines (stripTerminalEscapes chunk))
      in if length all > MAX_OUTPUT_LINES then drop (length all - MAX_OUTPUT_LINES) all else all)"

definition snapshotOperation :: "operation_record \<Rightarrow> operation_snapshot" where
  "snapshotOperation o1 =
     \<lparr>rn_id = rn_id o1, rn_name = rn_name o1, rn_status = rn_status o1, rn_exclusive_key = rn_exclusive_key o1,
      rn_command = rn_command o1, rn_cwd = rn_cwd o1, rn_started_at = rn_started_at o1, rn_finished_at = rn_finished_at o1,
      rn_exit_code = rn_exit_code o1, rn_signal = rn_signal o1, rn_stdout = tail (rn_stdout o1) 200, rn_stderr = tail (rn_stderr o1) 200\<rparr>"

section \<open>Starting\<close>

definition open_operations :: "operation_manager \<Rightarrow> operation_record list" where
  "open_operations m = filter (\<lambda>x. \<not> rn_closeObserved x) (map_values (om_operations m))"

definition assertCanStart :: "command_options \<Rightarrow> operation_manager \<Rightarrow> string + unit" where
  "assertCanStart options m =
     (if om_shuttingDown m then Inl ''The daemon is shutting down and cannot start new operations.''
      else if length (open_operations m) \<ge> MAX_RUNNING_OPERATIONS then Inl ''Too many running daemon operations (max 4).''
      else (case co_exclusiveKey options of
              None \<Rightarrow> Inr ()
            | Some key \<Rightarrow>
                if key \<noteq> [] \<and> list_ex (\<lambda>x. rn_exclusive_key x = Some key) (open_operations m)
                then Inl (''Another '' @ key @ '' operation is already running.'') else Inr ()))"

text \<open>The loop of \<open>prune\<close> over the operations, oldest first.\<close>

fun prune_loop :: "nat \<Rightarrow> (string, operation_record) js_map \<Rightarrow> (string, operation_record) js_map" where
  "prune_loop overflow [] = []"
| "prune_loop 0 ops = ops"
| "prune_loop (Suc overflow) ((k, x) # ops) =
     (if rn_closeObserved x then prune_loop overflow ops else (k, x) # prune_loop (Suc overflow) ops)"

definition prune :: "operation_manager \<Rightarrow> operation_manager" where
  "prune m = m\<lparr>om_operations := prune_loop (length (om_operations m) - MAX_OPERATIONS) (om_operations m)\<rparr>"

text \<open>\<open>invocation\<close> is what \<open>invocationResolver\<close> answers: it may throw.\<close>

definition start :: "string \<Rightarrow> string \<Rightarrow> string + (string \<times> string list) \<Rightarrow> command_options \<Rightarrow> operation_manager \<Rightarrow>
    (string + operation_snapshot) \<times> operation_manager" where
  "start uuid now invocation options m =
     (case bind_res (assertCanStart options m) (\<lambda>_. invocation) of
        Inl e \<Rightarrow> (Inl e, m)
      | Inr (command, args) \<Rightarrow>
          (let operation = \<lparr>rn_id = uuid, rn_name = co_name options, rn_status = Running, rn_exclusive_key = co_exclusiveKey options,
                 rn_command = command # or_else (co_redactedArgs options) args, rn_cwd = co_cwd options, rn_started_at = now,
                 rn_finished_at = None, rn_exit_code = None, rn_signal = None, rn_stdout = [], rn_stderr = [],
                 rn_closeObserved = False, rn_termination = False\<rparr>
           in (Inr (snapshotOperation operation), prune (m\<lparr>om_operations := map_set uuid operation (om_operations m)\<rparr>))))"

section \<open>Events of a child process\<close>

text \<open>The handlers hold the record of their operation; one that was pruned can no longer be seen.\<close>

definition on_operation :: "string \<Rightarrow> (operation_record \<Rightarrow> operation_record) \<Rightarrow> operation_manager \<Rightarrow> operation_manager" where
  "on_operation i f m =
     (case map_get (om_operations m) i of
        None \<Rightarrow> m | Some x \<Rightarrow> m\<lparr>om_operations := map_set i (f x) (om_operations m)\<rparr>)"

definition on_stdout :: "string \<Rightarrow> string \<Rightarrow> operation_manager \<Rightarrow> operation_manager" where
  "on_stdout i chunk = on_operation i (\<lambda>x. x\<lparr>rn_stdout := appendLines (rn_stdout x) chunk\<rparr>)"

text \<open>Also the \<open>error\<close> event, with its message.\<close>

definition on_stderr :: "string \<Rightarrow> string \<Rightarrow> operation_manager \<Rightarrow> operation_manager" where
  "on_stderr i chunk = on_operation i (\<lambda>x. x\<lparr>rn_stderr := appendLines (rn_stderr x) chunk\<rparr>)"

definition close_record :: "int option \<Rightarrow> string option \<Rightarrow> string \<Rightarrow> operation_record \<Rightarrow> operation_record" where
  "close_record code sig now x =
     x\<lparr>rn_closeObserved := True, rn_exit_code := code, rn_signal := sig, rn_finished_at := Some now,
       rn_status := (if rn_status x \<noteq> Cancelled then (if code = Some 0 then Succeeded else Failed) else rn_status x)\<rparr>"

definition on_close :: "string \<Rightarrow> int option \<Rightarrow> string option \<Rightarrow> string \<Rightarrow> operation_manager \<Rightarrow> operation_manager" where
  "on_close i code sig now = on_operation i (close_record code sig now)"

section \<open>Queries, cancelling, shutdown\<close>

text \<open>\<open>slice(-limit)\<close>; a limit of 0 is \<open>slice(0)\<close>.\<close>

definition list_operations :: "nat \<Rightarrow> operation_manager \<Rightarrow> operation_snapshot list" where
  "list_operations limit m =
     (let ops = map_values (om_operations m)
      in map snapshotOperation (rev (if limit = 0 then ops else drop (length ops - limit) ops)))"

definition get_operation :: "string \<Rightarrow> operation_manager \<Rightarrow> operation_snapshot option" where
  "get_operation i m = map_option snapshotOperation (map_get (om_operations m) i)"

definition operation_logs :: "string \<Rightarrow> nat \<Rightarrow> operation_manager \<Rightarrow> (string list \<times> string list) option" where
  "operation_logs i limit m =
     map_option (\<lambda>x. (tail (rn_stdout x) limit, tail (rn_stderr x) limit)) (map_get (om_operations m) i)"

definition markOperationCancelled :: "string \<Rightarrow> operation_record \<Rightarrow> operation_record" where
  "markOperationCancelled now x = x\<lparr>rn_status := Cancelled, rn_finished_at := Some now\<rparr>"

definition terminate_operation :: "operation_record \<Rightarrow> operation_record" where
  "terminate_operation x = x\<lparr>rn_termination := True\<rparr>"

definition cancel :: "string \<Rightarrow> string \<Rightarrow> operation_manager \<Rightarrow> operation_snapshot option \<times> operation_manager" where
  "cancel now i m =
     (let m' = on_operation i (\<lambda>x. if rn_status x = Running then terminate_operation (markOperationCancelled now x) else x) m
      in (get_operation i m', m'))"

definition shutdown_record :: "string \<Rightarrow> operation_record \<Rightarrow> operation_record" where
  "shutdown_record now x =
     (if rn_closeObserved x then x
      else terminate_operation (if rn_status x = Running then markOperationCancelled now x else x))"

text \<open>A second call returns the promise of the first and changes nothing.\<close>

definition shutdownAll :: "string \<Rightarrow> operation_manager \<Rightarrow> operation_manager" where
  "shutdownAll now m =
     (if om_shuttingDown m then m
      else \<lparr>om_operations = map (\<lambda>(k, x). (k, shutdown_record now x)) (om_operations m), om_shuttingDown = True\<rparr>)"

section \<open>The environment of nested commands\<close>

definition NESTED_CLI_ENV_KEYS :: "string list" where
  "NESTED_CLI_ENV_KEYS =
     [''PATH'', ''HOME'', ''USER'', ''LOGNAME'', ''SHELL'', ''LANG'', ''LC_ALL'', ''TMPDIR'', ''TEMP'', ''TMP'', ''CI'',
      ''GITHUB_ACTIONS'', ''CLAWDI_AUTH_TOKEN'', ''CLAWDI_AUTH_TOKEN_ORIGIN'', ''CLAWDI_API_URL'', ''CLAWDI_HOME'',
      ''CLAWDI_STATE_DIR'', ''CLAWDI_AGENT_TYPE'', ''CLAWDI_SERVE_MODE'', ''CLAWDI_SERVE_DEBUG'', ''CLAUDE_CONFIG_DIR'',
      ''CODEX_HOME'', ''HERMES_HOME'', ''OPENCLAW_STATE_DIR'', ''OPENCLAW_AGENT_ID'', ''HTTP_PROXY'', ''HTTPS_PROXY'',
      ''NO_PROXY'', ''http_proxy'', ''https_proxy'', ''no_proxy'', ''SSL_CERT_FILE'', ''SSL_CERT_DIR'',
      ''NODE_EXTRA_CA_CERTS'', ''BUN_INSTALL'']"

definition nestedCliEnv :: "(string, string) js_map \<Rightarrow> (string, string) js_map" where
  "nestedCliEnv process_env =
     fold (\<lambda>key env. case map_get process_env key of Some v \<Rightarrow> map_set key v env | None \<Rightarrow> env) NESTED_CLI_ENV_KEYS
       [(''CLAWDI_NO_UPDATE_CHECK'', ''1''), (''CLAWDI_NO_AUTO_UPDATE'', ''1'')]"

section \<open>A command run at once\<close>

text \<open>\<open>runCliCommandImmediate\<close>: the events of its child, of its timer and of \<open>terminateProcessGroup\<close> are the
  data of the promise; \<open>im_result\<close> is what it was first resolved with. The command of the timeout text is
  \<open>timeout_text\<close> (\<open>Command timed out after ...ms.\<close>).\<close>

record command_result =
  cr_exit_code :: "int option"
  cr_signal :: "string option"
  cr_stdout :: string
  cr_stderr :: string

record immediate =
  im_stdout :: string
  im_stderr :: string
  im_timedOut :: bool
  im_result :: "command_result option"

datatype child_event = Data_out string | Data_err string | Child_error string | Timer_fires | Termination_over
  | Child_closed "int option" "string option"

definition new_immediate :: immediate where
  "new_immediate = \<lparr>im_stdout = [], im_stderr = [], im_timedOut = False, im_result = None\<rparr>"

definition finish :: "command_result \<Rightarrow> immediate \<Rightarrow> immediate" where
  "finish result s =
     (if im_result s \<noteq> None then s
      else s\<lparr>im_result := Some (result\<lparr>cr_stdout := stripTerminalEscapes (cr_stdout result),
                                   cr_stderr := stripTerminalEscapes (cr_stderr result)\<rparr>)\<rparr>)"

definition next_line :: "string \<Rightarrow> string \<Rightarrow> string" where
  "next_line text line = text @ (if text \<noteq> [] then [CHR 0x0A] else []) @ line"

text \<open>The timer is cleared by \<open>finish\<close>, so it fires only before the promise is settled.\<close>

fun immediate_event :: "string \<Rightarrow> child_event \<Rightarrow> immediate \<Rightarrow> immediate" where
  "immediate_event timeout_text (Data_out chunk) s = s\<lparr>im_stdout := im_stdout s @ chunk\<rparr>"
| "immediate_event timeout_text (Data_err chunk) s = s\<lparr>im_stderr := im_stderr s @ chunk\<rparr>"
| "immediate_event timeout_text (Child_error message) s = s\<lparr>im_stderr := next_line (im_stderr s) message\<rparr>"
| "immediate_event timeout_text Timer_fires s = (if im_result s = None then s\<lparr>im_timedOut := True\<rparr> else s)"
| "immediate_event timeout_text Termination_over s =
     (if im_timedOut s
      then finish \<lparr>cr_exit_code = None, cr_signal = Some ''SIGTERM'', cr_stdout = im_stdout s,
                   cr_stderr = next_line (im_stderr s) timeout_text\<rparr> s
      else s)"
| "immediate_event timeout_text (Child_closed code sig) s =
     (if im_timedOut s then s
      else finish \<lparr>cr_exit_code = code, cr_signal = sig, cr_stdout = im_stdout s, cr_stderr = im_stderr s\<rparr> s)"

definition runCliCommandImmediate :: "string \<Rightarrow> child_event list \<Rightarrow> immediate" where
  "runCliCommandImmediate timeout_text events = fold (immediate_event timeout_text) events new_immediate"

section \<open>Reachable managers\<close>

text \<open>\<open>randomUUID\<close> gives no identifier twice, and a child process is closed once.\<close>

inductive manager_step :: "operation_manager \<Rightarrow> operation_manager \<Rightarrow> bool" where
  step_start: "\<not> map_has (om_operations m) uuid \<Longrightarrow> manager_step m (snd (start uuid now invocation options m))"
| step_stdout: "manager_step m (on_stdout i chunk m)"
| step_stderr: "manager_step m (on_stderr i chunk m)"
| step_close: "map_get (om_operations m) i = Some x \<Longrightarrow> \<not> rn_closeObserved x \<Longrightarrow> manager_step m (on_close i code sig now m)"
| step_cancel: "manager_step m (snd (cancel now i m))"
| step_shutdown: "manager_step m (shutdownAll now m)"

inductive manager_run :: "operation_manager \<Rightarrow> operation_manager \<Rightarrow> bool" where
  run_refl: "manager_run m m"
| run_step: "manager_run m m' \<Longrightarrow> manager_step m' m'' \<Longrightarrow> manager_run m m''"

definition record_ok :: "operation_record \<Rightarrow> bool" where
  "record_ok x \<longleftrightarrow> length (rn_stdout x) \<le> MAX_OUTPUT_LINES \<and> length (rn_stderr x) \<le> MAX_OUTPUT_LINES \<and>
     (rn_finished_at x = None \<longleftrightarrow> rn_status x = Running) \<and> (rn_closeObserved x \<longrightarrow> rn_status x \<noteq> Running) \<and>
     (\<not> rn_closeObserved x \<longrightarrow> rn_status x \<in> {Running, Cancelled}) \<and>
     (rn_status x = Cancelled \<longrightarrow> rn_termination x)"

definition manager_ok :: "operation_manager \<Rightarrow> bool" where
  "manager_ok m \<longleftrightarrow> wf_map (om_operations m) \<and> length (om_operations m) \<le> MAX_OPERATIONS \<and>
     length (open_operations m) \<le> MAX_RUNNING_OPERATIONS \<and>
     (\<forall>key. key \<noteq> [] \<longrightarrow> length (filter (\<lambda>x. rn_exclusive_key x = Some key) (open_operations m)) \<le> 1) \<and>
     list_all (\<lambda>(k, x). rn_id x = k \<and> record_ok x) (om_operations m)"

end
