(* ===== verification/OperationLaws.thy ===== *)
theory OperationLaws
  imports OperationRunner
begin

text \<open>
  What every reachable operation manager keeps: bounds, exclusiveness, statuses that agree with the
  recorded ends, and the shutdown that lets nothing start again.
\<close>

section \<open>Records\<close>

lemma length_appendLines [simp]: "length (appendLines target chunk) \<le> MAX_OUTPUT_LINES"
  by (simp add: appendLines_def Let_def del: length_append drop_append)

text \<open>A handler may touch the record of its operation, but not its identity.\<close>

definition quiet_change :: "(operation_record \<Rightarrow> operation_record) \<Rightarrow> bool" where
  "quiet_change f \<longleftrightarrow> (\<forall>x. rn_id (f x) = rn_id x \<and> rn_exclusive_key (f x) = rn_exclusive_key x \<and>
     (rn_closeObserved x \<longrightarrow> rn_closeObserved (f x)) \<and> (record_ok x \<longrightarrow> record_ok (f x)))"

lemma quiet_changes:
  "quiet_change (\<lambda>x. x\<lparr>rn_stdout := appendLines (rn_stdout x) chunk\<rparr>)"
  "quiet_change (\<lambda>x. x\<lparr>rn_stderr := appendLines (rn_stderr x) chunk\<rparr>)"
  "quiet_change (close_record code sig now)"
  "quiet_change (\<lambda>x. if rn_status x = Running then terminate_operation (markOperationCancelled now x) else x)"
  "quiet_change (shutdown_record now)"
  by (auto simp: quiet_change_def record_ok_def close_record_def terminate_operation_def markOperationCancelled_def shutdown_record_def)

text \<open>Changing records in place, for one identifier or for all.\<close>

definition change_records :: "(string \<Rightarrow> operation_record \<Rightarrow> operation_record) \<Rightarrow> operation_manager \<Rightarrow> operation_manager" where
  "change_records g m = m\<lparr>om_operations := map (\<lambda>(k, x). (k, g k x)) (om_operations m)\<rparr>"

lemma map_set_in_place:
  "wf_map ops \<Longrightarrow> map_get ops i = Some x \<Longrightarrow> map_set i (f x) ops = map (\<lambda>(k, x). (k, if k = i then f x else x)) ops"
proof (induction ops)
  case (Cons kv ops)
  obtain k v where kv: "kv = (k, v)" by (cases kv)
  show ?case
  proof (cases "i = k")
    case True
    then have "i \<notin> fst ` set ops" using Cons.prems by (simp add: kv wf_map_def)
    then have "map (\<lambda>(k, x). (k, if k = i then f x else x)) ops = ops"
      by (intro map_idI) (auto simp: image_iff)
    then show ?thesis using True Cons.prems by (simp add: kv)
  next
    case False
    then show ?thesis using Cons by (simp add: kv wf_map_def)
  qed
qed simp

lemma on_operation_changes:
  "wf_map (om_operations m) \<Longrightarrow> on_operation i f m = change_records (\<lambda>k x. if k = i then f x else x) m"
proof (cases "map_get (om_operations m) i")
  case None
  then have "map (\<lambda>(k, x). (k, if k = i then f x else x)) (om_operations m) = om_operations m"
    by (intro map_idI) (auto simp: map_of_eq_None_iff image_iff)
  then show ?thesis using None by (simp add: on_operation_def change_records_def)
qed (simp add: on_operation_def change_records_def map_set_in_place)

lemma quiet_if: "quiet_change f \<Longrightarrow> quiet_change (\<lambda>x. if b then f x else x)"
  by (simp add: quiet_change_def)

lemma open_after_change:
  assumes "\<And>k. quiet_change (g k)"
  shows "length (filter (\<lambda>x. \<not> rn_closeObserved x \<and> Q (rn_exclusive_key x)) (map_values (map (\<lambda>(k, x). (k, g k x)) ops))) \<le>
         length (filter (\<lambda>x. \<not> rn_closeObserved x \<and> Q (rn_exclusive_key x)) (map_values ops))"
  using assms by (induction ops) (auto simp: quiet_change_def le_SucI)

lemma open_count:
  "length (filter (\<lambda>x. Q (rn_exclusive_key x)) (open_operations m)) =
   length (filter (\<lambda>x. \<not> rn_closeObserved x \<and> Q (rn_exclusive_key x)) (map_values (om_operations m)))"
  by (simp add: open_operations_def)

lemma change_records_ok:
  assumes ok: "manager_ok m" and g: "\<And>k. quiet_change (g k)"
  shows "manager_ok (change_records g m)"
proof -
  have keys: "map_keys (map (\<lambda>(k, x). (k, g k x)) ops) = map_keys ops" for ops by (induction ops) auto
  have fewer: "length (filter (\<lambda>x. Q (rn_exclusive_key x)) (open_operations (change_records g m))) \<le>
      length (filter (\<lambda>x. Q (rn_exclusive_key x)) (open_operations m))" for Q
    unfolding open_count using open_after_change [OF g] by (simp add: change_records_def)
  have records: "list_all (\<lambda>(k, x). rn_id x = k \<and> record_ok x) (map (\<lambda>(k, x). (k, g k x)) ops)"
    if "list_all (\<lambda>(k, x). rn_id x = k \<and> record_ok x) ops" for ops
    using that g by (induction ops) (auto simp: quiet_change_def)
  have one: "length (filter (\<lambda>x. rn_exclusive_key x = Some key) (open_operations (change_records g m))) \<le> 1" if "key \<noteq> []" for key
    using fewer [of "\<lambda>k. k = Some key"] ok that by (fastforce simp: manager_ok_def)
  have four: "length (open_operations (change_records g m)) \<le> MAX_RUNNING_OPERATIONS"
    using fewer [of "\<lambda>_. True"] ok by (simp add: manager_ok_def)
  have rest: "wf_map (om_operations (change_records g m))" "length (om_operations (change_records g m)) \<le> MAX_OPERATIONS"
    "list_all (\<lambda>(k, x). rn_id x = k \<and> record_ok x) (om_operations (change_records g m))"
    using ok keys [of "om_operations m"] records by (simp_all add: manager_ok_def wf_map_def change_records_def del: map_map)
  show ?thesis unfolding manager_ok_def using one four rest by blast
qed

lemma on_operation_ok: "manager_ok m \<Longrightarrow> quiet_change f \<Longrightarrow> manager_ok (on_operation i f m)"
proof -
  assume ok: "manager_ok m" and f: "quiet_change f"
  then have "wf_map (om_operations m)" by (simp add: manager_ok_def)
  then show ?thesis by (simp only: on_operation_changes change_records_ok [OF ok quiet_if [OF f]])
qed

section \<open>Starting\<close>

lemma prune_loop_open:
  "filter (\<lambda>x. \<not> rn_closeObserved x) (map_values (prune_loop n ops)) = filter (\<lambda>x. \<not> rn_closeObserved x) (map_values ops)"
  by (induction n ops rule: prune_loop.induct) auto

lemma set_prune_loop: "set (prune_loop n ops) \<subseteq> set ops"
  by (induction n ops rule: prune_loop.induct) auto

lemma wf_prune_loop: "wf_map ops \<Longrightarrow> wf_map (prune_loop n ops)"
proof (induction n ops rule: prune_loop.induct)
  case (3 n k x ops)
  then have "k \<notin> fst ` set (prune_loop m ops)" for m
    using set_prune_loop [of m ops] by (auto simp: wf_map_def)
  then show ?case using 3 by (auto simp: wf_map_def)
qed (auto simp: wf_map_def)

lemma length_prune_loop:
  "length (prune_loop n ops) = length ops - min n (length (filter rn_closeObserved (map_values ops)))"
proof (induction n ops rule: prune_loop.induct)
  case (3 n k x ops)
  have "length (filter (rn_closeObserved \<circ> snd) ops) \<le> length ops" by (rule length_filter_le)
  then show ?case using 3 by (auto simp: filter_map Suc_diff_le min.coboundedI2)
qed auto

lemma closed_and_open:
  "length (filter rn_closeObserved (map_values ops)) + length (filter (\<lambda>x. \<not> rn_closeObserved x) (map_values ops)) = length ops"
  using sum_length_filter_compl [of rn_closeObserved "map_values ops"] by simp

lemma map_set_appends: "\<not> map_has ops i \<Longrightarrow> map_set i x ops = ops @ [(i, x)]"
  by (induction ops) auto

lemma prune_ok_size:
  assumes "length (filter (\<lambda>x. \<not> rn_closeObserved x) (map_values ops)) \<le> MAX_OPERATIONS"
  shows "length (prune_loop (length ops - MAX_OPERATIONS) ops) \<le> MAX_OPERATIONS"
  using assms closed_and_open [of ops] by (auto simp: length_prune_loop min_def)

lemma started_ok:
  assumes ok: "manager_ok m" and fresh: "\<not> map_has (om_operations m) (rn_id x)"
    and room: "length (open_operations m) < MAX_RUNNING_OPERATIONS"
    and alone: "\<And>key. rn_exclusive_key x = Some key \<Longrightarrow> key \<noteq> [] \<Longrightarrow>
      \<not> list_ex (\<lambda>y. rn_exclusive_key y = Some key) (open_operations m)"
    and x: "record_ok x" "\<not> rn_closeObserved x"
  shows "manager_ok (prune (m\<lparr>om_operations := map_set (rn_id x) x (om_operations m)\<rparr>))"
proof -
  let ?ops = "om_operations m @ [(rn_id x, x)]"
  let ?m = "prune (m\<lparr>om_operations := ?ops\<rparr>)"
  have opened: "open_operations ?m = open_operations m @ [x]"
    using x(2) by (simp add: open_operations_def prune_def prune_loop_open)
  have one: "length (filter (\<lambda>y. rn_exclusive_key y = Some key) (open_operations m @ [x])) \<le> 1" if key: "key \<noteq> []" for key
  proof (cases "rn_exclusive_key x = Some key")
    case True
    then have "filter (\<lambda>y. rn_exclusive_key y = Some key) (open_operations m) = []"
      using alone [OF True key] by (simp add: filter_empty_conv list_ex_iff)
    then show ?thesis by simp
  next
    case False
    then show ?thesis using ok key by (simp add: manager_ok_def)
  qed
  have keys: "wf_map ?ops"
    using ok fresh by (auto simp: manager_ok_def wf_map_def map_has_iff)
  have records: "list_all (\<lambda>(k, x). rn_id x = k \<and> record_ok x) (prune_loop n ?ops)" for n
    using ok x(1) set_prune_loop [of n ?ops] by (auto simp: manager_ok_def list_all_iff)
  have size: "length (prune_loop (length ?ops - MAX_OPERATIONS) ?ops) \<le> MAX_OPERATIONS"
    using room x(2) by (intro prune_ok_size) (simp add: open_operations_def MAX_RUNNING_OPERATIONS_def MAX_OPERATIONS_def)
  have "manager_ok ?m"
    unfolding manager_ok_def opened
  proof (intro conjI allI impI)
    show "length (open_operations m @ [x]) \<le> MAX_RUNNING_OPERATIONS" using room by simp
  qed (use one wf_prune_loop [OF keys] records size in \<open>auto simp: prune_def\<close>)
  then show ?thesis using map_set_appends [OF fresh] by simp
qed

lemma assertCanStart_Inr:
  "assertCanStart options m = Inr u \<Longrightarrow>
   \<not> om_shuttingDown m \<and> length (open_operations m) < MAX_RUNNING_OPERATIONS \<and>
   (\<forall>key. co_exclusiveKey options = Some key \<longrightarrow> key \<noteq> [] \<longrightarrow>
      \<not> list_ex (\<lambda>x. rn_exclusive_key x = Some key) (open_operations m))"
  by (auto simp: assertCanStart_def split: if_splits option.splits)

lemma start_ok:
  assumes ok: "manager_ok m" and fresh: "\<not> map_has (om_operations m) uuid"
  shows "manager_ok (snd (start uuid now invocation options m))"
proof (cases "bind_res (assertCanStart options m) (\<lambda>_. invocation)")
  case (Inl e)
  then show ?thesis using ok by (simp add: start_def)
next
  case (Inr ca)
  obtain command args where ca: "ca = (command, args)" by (cases ca)
  from Inr obtain u where can: "assertCanStart options m = Inr u" by (auto simp: bind_res_Inr_iff)
  show ?thesis
    using Inr ca fresh assertCanStart_Inr [OF can] started_ok [OF ok, of "\<lparr>rn_id = uuid, rn_name = co_name options, rn_status = Running, rn_exclusive_key = co_exclusiveKey options,
                 rn_command = command # or_else (co_redactedArgs options) args, rn_cwd = co_cwd options, rn_started_at = now,
                 rn_finished_at = None, rn_exit_code = None, rn_signal = None, rn_stdout = [], rn_stderr = [],
                 rn_closeObserved = False, rn_termination = False\<rparr>"]
    by (simp add: start_def record_ok_def Let_def)
qed

section \<open>Every reachable manager\<close>

lemma shutdown_changes:
  "\<not> om_shuttingDown m \<Longrightarrow> shutdownAll now m = (change_records (\<lambda>_. shutdown_record now) m)\<lparr>om_shuttingDown := True\<rparr>"
  by (simp add: shutdownAll_def change_records_def)

lemma manager_ok_shuttingDown [simp]: "manager_ok (m\<lparr>om_shuttingDown := b\<rparr>) = manager_ok m"
  by (simp add: manager_ok_def open_operations_def)

lemma manager_step_ok: "manager_step m m' \<Longrightarrow> manager_ok m \<Longrightarrow> manager_ok m'"
proof (induction rule: manager_step.induct)
  case (step_shutdown m now)
  then show ?case
    by (cases "om_shuttingDown m") (simp_all add: shutdown_changes change_records_ok quiet_changes, simp add: shutdownAll_def)
qed (simp_all add: start_ok on_stdout_def on_stderr_def on_close_def cancel_def Let_def on_operation_ok quiet_changes)

lemma manager_run_ok: "manager_run m m' \<Longrightarrow> manager_ok m \<Longrightarrow> manager_ok m'"
  by (induction rule: manager_run.induct) (auto dest: manager_step_ok)


lemma new_manager_ok: "manager_ok new_manager"
  by (simp add: manager_ok_def new_manager_def open_operations_def)

text \<open>C26. The daemon's commands, whatever is started, printed, closed, cancelled or shut down in whatever
  order: at most 4 child processes are open at a time and at most 100 operations remembered, no two open
  operations share a non-empty exclusive key, each keeps at most 1000 lines per stream and its own identifier,
  has an end time exactly when it is no longer running, is not running once its process has closed, is
  reported succeeded or failed only then, and is cancelled only with its process group being terminated.\<close>

theorem operations_bounded:
  assumes "manager_run new_manager m"
  shows "manager_ok m"
  using manager_run_ok [OF assms new_manager_ok] .

section \<open>After the shutdown\<close>

definition shut_down :: "operation_manager \<Rightarrow> bool" where
  "shut_down m \<longleftrightarrow> om_shuttingDown m \<and>
     list_all (\<lambda>(k, x). rn_status x \<noteq> Running \<and> (\<not> rn_closeObserved x \<longrightarrow> rn_termination x)) (om_operations m)"

lemma shut_down_start: "om_shuttingDown m \<Longrightarrow>
  start uuid now invocation options m = (Inl ''The daemon is shutting down and cannot start new operations.'', m)"
  by (simp add: start_def assertCanStart_def)

definition stopping_record :: "operation_record \<Rightarrow> bool" where
  "stopping_record x \<longleftrightarrow> rn_status x \<noteq> Running \<and> (\<not> rn_closeObserved x \<longrightarrow> rn_termination x)"

lemma shut_down_records: "shut_down m \<longleftrightarrow> om_shuttingDown m \<and> list_all (\<lambda>(k, x). stopping_record x) (om_operations m)"
  by (simp add: shut_down_def stopping_record_def)

lemma shut_down_change:
  assumes "shut_down m" and "wf_map (om_operations m)" and "\<And>x. stopping_record x \<Longrightarrow> stopping_record (f x)"
  shows "shut_down (on_operation i f m)"
proof -
  have "list_all (\<lambda>(k, x). stopping_record x) (map (\<lambda>(k, x). (k, if k = i then f x else x)) ops)"
    if "list_all (\<lambda>(k, x). stopping_record x) ops" for ops
    using that assms(3) by (induction ops) auto
  then show ?thesis
    using assms(1) unfolding on_operation_changes [OF assms(2)] shut_down_records by (simp add: change_records_def)
qed

lemma stopping_changes:
  "stopping_record x \<Longrightarrow> stopping_record (x\<lparr>rn_stdout := appendLines (rn_stdout x) chunk\<rparr>)"
  "stopping_record x \<Longrightarrow> stopping_record (x\<lparr>rn_stderr := appendLines (rn_stderr x) chunk\<rparr>)"
  "stopping_record x \<Longrightarrow> stopping_record (close_record code sig now x)"
  "stopping_record x \<Longrightarrow>
     stopping_record (if rn_status x = Running then terminate_operation (markOperationCancelled now x) else x)"
  by (auto simp: stopping_record_def close_record_def)

lemma shut_down_step: "manager_step m m' \<Longrightarrow> manager_ok m \<Longrightarrow> shut_down m \<Longrightarrow> shut_down m'"
proof (induction rule: manager_step.induct)
  case (step_start m uuid now invocation options)
  then show ?case by (simp add: shut_down_start shut_down_def)
next
  case (step_shutdown m now)
  then show ?case by (simp add: shutdownAll_def shut_down_def)
next
  case (step_stdout m i chunk)
  then show ?case unfolding on_stdout_def by (simp add: manager_ok_def shut_down_change stopping_changes)
next
  case (step_stderr m i chunk)
  then show ?case unfolding on_stderr_def by (simp add: manager_ok_def shut_down_change stopping_changes)
next
  case (step_close m i x code sig now)
  then show ?case unfolding on_close_def by (simp add: manager_ok_def shut_down_change stopping_changes)
next
  case (step_cancel m now i)
  then show ?case unfolding cancel_def Let_def snd_conv by (intro shut_down_change stopping_changes) (simp_all add: manager_ok_def)
qed

lemma shutdownAll_shut_down:
  assumes "manager_ok m" and "\<not> om_shuttingDown m"
  shows "shut_down (shutdownAll now m)"
proof -
  have one: "record_ok x \<Longrightarrow> stopping_record (shutdown_record now x)" for x
    by (auto simp: record_ok_def stopping_record_def shutdown_record_def terminate_operation_def markOperationCancelled_def)
  have "list_all (\<lambda>(k, x). stopping_record x) (map (\<lambda>(k, x). (k, shutdown_record now x)) ops)"
    if "list_all (\<lambda>(k, x). rn_id x = k \<and> record_ok x) ops" for ops
    using that one by (induction ops) auto
  then show ?thesis using assms by (simp add: shut_down_records shutdownAll_def manager_ok_def)
qed

lemma shut_down_run: "manager_run m m' \<Longrightarrow> manager_ok m \<Longrightarrow> shut_down m \<Longrightarrow> shut_down m'"
  by (induction rule: manager_run.induct) (auto dest: shut_down_step manager_run_ok)

text \<open>C27. The shutdown is final: from the first call of \<open>shutdownAll\<close> on, in every later state, starting an
  operation throws and changes nothing, no operation counts as running, and every child process that has not
  closed is having its process group terminated.\<close>

theorem shutdown_is_final:
  assumes "manager_run new_manager m" and "\<not> om_shuttingDown m" and "manager_run (shutdownAll now m) m'"
  shows "shut_down m' \<and>
         start uuid now' invocation options m' = (Inl ''The daemon is shutting down and cannot start new operations.'', m')"
proof -
  have ok: "manager_ok m" using manager_run_ok [OF assms(1) new_manager_ok] .
  then have "shut_down m'"
    using shut_down_run [OF assms(3)] shutdownAll_shut_down assms(2) manager_step_ok [OF step_shutdown] by blast
  then show ?thesis by (simp add: shut_down_start shut_down_def)
qed

section \<open>The environment of nested commands\<close>

lemma nestedCliEnv_keys:
  "k \<in> set (map_keys (nestedCliEnv process_env)) \<Longrightarrow>
   k \<in> {''CLAWDI_NO_UPDATE_CHECK'', ''CLAWDI_NO_AUTO_UPDATE''} \<or> k \<in> set NESTED_CLI_ENV_KEYS"
proof -
  have "fst ` set (fold (\<lambda>key env. case map_get process_env key of Some v \<Rightarrow> map_set key v env | None \<Rightarrow> env) keys env) \<subseteq>
      fst ` set env \<union> set keys" for keys env
  proof (induction keys arbitrary: env)
    case (Cons key keys)
    show ?case
    proof (cases "map_get process_env key")
      case None
      then show ?thesis using Cons [of env] by auto
    next
      case (Some v)
      then show ?thesis using Cons [of "map_set key v env"] by auto
    qed
  qed simp
  from this [of NESTED_CLI_ENV_KEYS] show "k \<in> set (map_keys (nestedCliEnv process_env)) \<Longrightarrow> ?thesis"
    by (fastforce simp: nestedCliEnv_def)
qed

section \<open>Witnesses\<close>

definition sample_command :: command_options where
  "sample_command = \<lparr>co_name = ''push'', co_args = [''push''], co_cwd = ''/'', co_redactedArgs = None, co_exclusiveKey = Some ''sync''\<rparr>"

definition one_running :: operation_manager where
  "one_running = snd (start ''id-1'' ''t0'' (Inr (''clawdi'', [''push''])) sample_command new_manager)"

lemma one_running_reached: "manager_run new_manager one_running"
  unfolding one_running_def by (rule run_step [OF run_refl step_start]) (simp add: new_manager_def)

theorem operations_bounded_witness:
  "manager_ok one_running \<and> length (open_operations one_running) = 1 \<and>
   fst (start ''id-2'' ''t1'' (Inr (''clawdi'', [''push''])) sample_command one_running) = Inl ''Another sync operation is already running.''"
proof (intro conjI)
  show "manager_ok one_running" using operations_bounded [OF one_running_reached] .
qed code_simp+

theorem shutdown_is_final_witness:
  "shut_down (on_close ''id-1'' (Some 0) None ''t2'' (shutdownAll ''t1'' one_running)) \<and>
   map rn_status (list_operations 0 (on_close ''id-1'' (Some 0) None ''t2'' (shutdownAll ''t1'' one_running))) = [Cancelled]"
proof
  have "\<not> om_shuttingDown one_running" by code_simp
  moreover have "map_get (om_operations (shutdownAll ''t1'' one_running)) ''id-1'' =
      Some (the (map_get (om_operations (shutdownAll ''t1'' one_running)) ''id-1''))" by code_simp
  moreover have "\<not> rn_closeObserved (the (map_get (om_operations (shutdownAll ''t1'' one_running)) ''id-1''))" by code_simp
  ultimately show "shut_down (on_close ''id-1'' (Some 0) None ''t2'' (shutdownAll ''t1'' one_running))"
    using shutdown_is_final [OF one_running_reached _ run_step [OF run_refl step_close]] by blast
  show "map rn_status (list_operations 0 (on_close ''id-1'' (Some 0) None ''t2'' (shutdownAll ''t1'' one_running))) = [Cancelled]"
    by code_simp
qed

section \<open>A command run at once\<close>

lemma settled_stays: "im_result s = Some r \<Longrightarrow> im_result (fold (immediate_event timeout_text) events s) = Some r"
proof (induction events arbitrary: s)
  case (Cons e events)
  then have "im_result (immediate_event timeout_text e s) = Some r" by (cases e) (auto simp: finish_def)
  then show ?case using Cons.IH by simp
qed simp

end
