(* ===== verification/Spec2Isabelle.thy ===== *)
theory Spec2Isabelle
  imports SkillSyncLaws SessionWatcherLaws SessionSnapshot SkillWatcherLaws VaultSyncLaws SseLaws DirectoryLockLaws QueuePersistence SkillsLockLaws SkillInventoryLaws SessionSync QueueDrainCalls Heartbeat SessionScanLaws ProjectForeign OperationLaws
begin

text \<open>
  A verification development for the connected-Agent daemon of the Clawdi CLI, \<open>packages/cli/src\<close>: the program
  that keeps the Skills, the session histories and the Vault files of a coding agent on this machine in
  step with the Cloud. Paths below are relative to that directory.

  \<^bold>\<open>The program.\<close> \<open>runSyncEngine\<close> (\<open>serve/sync-engine.ts\<close>) runs two modules under one supervisor
  (\<open>serve/sync-module.ts\<close>). The Skill module compares the local Skill folders with two ledgers: the claims say
  which Cloud projections this machine may delete, the receipts say which folders belong to a Project and are
  not the user's to upload. The session module scans the local histories. Both put work into one persistent
  queue (\<open>serve/queue.ts\<close>); one consumer, the drain loop, takes it out and calls the Cloud. Watchers
  (\<open>serve/watcher.ts\<close>, \<open>serve/sessions-watcher.ts\<close>) and the event stream (\<open>serve/sse-client.ts\<close>) only say
  where to look again. A heartbeat reports health and the counts of dropped work. Beside these, Project Skills
  are installed as transactions, Vault files are written by a consumer of its own, commands run as
  operations, and every ledger is written under a lock directory.

  \<^bold>\<open>How it is modelled.\<close> A class or interface is a record with the same fields, a union a datatype, a method one
  definition on the record, and a function that awaits and throws a computation from the state to a sum of
  error and value with the next state (\<open>Engine\<close>; \<open>VaultFiles\<close> has its own such style, where every call of the
  disk may be the last). What is not under the sources (the network, the file system, the clock, random
  numbers, the parser of the event stream, SHA-256, the adapters) is an argument of the definitions; \<open>await\<close>s of
  it may change the whole state, within what a property's hypotheses allow. JSON text is modelled, and the
  contract of \<open>JSON.parse\<close> is the locale \<open>json_codec\<close>, interpreted on a parser.

  \<^bold>\<open>Theories and sources\<close>, each with what its lemmas show:

  \<^item> \<open>Prelude\<close> (maps in insertion order, string operations), \<open>Json\<close>, \<open>JsonCodec\<close>: shared containers, JSON text and
    a parser that reads back what is written.
  \<^item> \<open>SkillKey\<close> (\<open>lib/skill-key.ts\<close>): the contract of Skill keys.
  \<^item> \<open>RetryQueue\<close>, \<open>QueueInvariants\<close>, \<open>QueueGuarantees\<close>, \<open>QueuePersistence\<close> (\<open>serve/queue.ts\<close>): every method of
    the queue; its invariant over all runs, the refinement of each module to a bounded latest-state queue, the
    version fence, bounds, the type predicate on persisted rows, and the restart after any mixture of failed
    and successful writes.
  \<^item> \<open>SkillsLock\<close>, \<open>SkillsLockLaws\<close> (\<open>lib/skills-lock.ts\<close>), \<open>SessionsLock\<close> (\<open>lib/sessions-lock.ts\<close>): the ledgers; reading
    fails closed, writing is read back, a failed activation rolls back its own receipt and no other.
  \<^item> \<open>SyncHealth\<close>, \<open>SyncModule\<close>, \<open>Failures\<close>, \<open>Engine\<close>: health report and jitter, the supervisor of a module, the
    error classes and classifiers, the engine's state with the program logic (\<open>valid\<close>, \<open>keeps\<close>).
  \<^item> \<open>SkillInventory\<close>, \<open>SkillInventoryLaws\<close>: the paged listing of the Cloud and the reconciliation that queues
    only what it has authority for.
  \<^item> \<open>SessionEvents\<close> (\<open>lib/session-events.ts\<close>), \<open>SessionUpload\<close>, \<open>SessionUploadLaws\<close>, \<open>UploadFrame\<close>, \<open>SessionSync\<close>
    (\<open>lib/session-upload.ts\<close>): canonical event text and chained heads, plans, chunks, and the upload protocol, whose
    success is durable and which shortens no remote history unconfirmed.
  \<^item> \<open>QueueDrain\<close>, \<open>QueueDrainLaws\<close>, \<open>QueueDrainCalls\<close>: the consumer; what becomes of settled and failed items, which
    Cloud writes it makes, and that an outage ends.
  \<^item> \<open>Heartbeat\<close>, \<open>SessionScan\<close>, \<open>SessionScanLaws\<close>: drop counts told to the Cloud; what a scan confirms, and that no
    request for one is forgotten.
  \<^item> \<open>ProjectReconcile\<close>, \<open>ProjectReconcileLaws\<close>, \<open>ProjectForeign\<close> (\<open>serve/project-skill-reconcile.ts\<close>): the transaction
    over folders and receipts, its rollback, and the safety of other Skills.
  \<^item> \<open>SkillSync\<close>, \<open>SkillSyncLaws\<close>: preparation, callbacks and loops of the Skill module; a revoked key stops the
    daemon, Cloud events are hints.
  \<^item> \<open>SessionWatcher\<close>, \<open>SessionWatcherLaws\<close>, \<open>SessionSnapshot\<close>, \<open>SkillWatcher\<close>, \<open>SkillWatcherLaws\<close>: events and polling;
    what changed is reported, stated on the readings alone.
  \<^item> \<open>SseClient\<close>, \<open>SseLaws\<close>, \<open>RetryAfter\<close> (\<open>serve/sse-client.ts\<close>, \<open>lib/retry-after.ts\<close>): framing, reconnecting, backoff.
  \<^item> \<open>OperationRunner\<close>, \<open>OperationLaws\<close>, \<open>Sanitize\<close> (\<open>serve/operation-runner.ts\<close>, \<open>lib/sanitize.ts\<close>): commands run by
    the daemon, their bounds and the shutdown.
  \<^item> \<open>DirectoryLock\<close>, \<open>DirectoryLockLaws\<close> (\<open>lib/private-directory-lock.ts\<close>): the lock of the ledgers as interleaved
    steps of any number of processes.
  \<^item> \<open>VaultFiles\<close>, \<open>VaultTriples\<close>, \<open>VaultLaws\<close>, \<open>VaultGuarantees\<close>, \<open>VaultOutcome\<close>, \<open>VaultProperties\<close>
    (\<open>runtime/vault-files.ts\<close>) and \<open>VaultSync\<close>, \<open>VaultSyncLaws\<close> (\<open>serve/vault-sync.ts\<close>): the generated files, whatever
    interrupts them; and when they are synchronized.

  \<^bold>\<open>Interfaces.\<close> \<open>latest_queue\<close> (one module of the queue), \<open>queue_stable\<close> (a predicate every queue operation keeps),
  \<open>claim_ledger\<close>, \<open>json_codec\<close> and its extensions, \<open>session_frame\<close> and \<open>upload_frame\<close> (what an upload leaves alone),
  \<open>quiet_collector\<close> (both modes of the session watcher). Each is interpreted on the model's own definitions.

  \<^bold>\<open>Loops and bounds.\<close> Loops with a bound in the code have it here: 50 pages of a listing, six levels of
  \<open>dirname\<close>, three attempts of an event upload, thirty of a queue item, three directories below a session path. A
  loop that ends only with the daemon runs for a number of rounds that is an argument, and its properties hold
  for every number; the event loop of a component is the list of its inputs. \<open>sn_patience\<close> bounds the waits
  for capacity: a producer that waits longer is one that has not returned. The parser of JSON has fuel for one
  level per character, which \<open>JsonCodec\<close> proves to be enough. \<open>vw_budget\<close> is not fuel but the number of
  calls of the disk or network until the process is interrupted, so a property over all budgets holds wherever a
  run stops. Where returning is the point (an outage, the drain loop, the failure of an item), it is proved.

  \<^bold>\<open>What the modelling showed.\<close> Some things a reader may expect fail, each with a lemma that runs the code into
  it: session rows without a fence defeat the version fence (\<open>unfenced_row_defeats_fence\<close>), a desired Skill may
  replace the folder a user's Skill is nested in (\<open>nested_skill_lost\<close>), two calls may hold the lock directory
  at once (\<open>two_calls_inside\<close>), a request for a scan may wait for the next one (\<open>request_in_the_gap\<close>), the periodic
  reconciliation only shows a revoked key (\<open>periodic_auth_failure_goes_on\<close>). The properties state the
  conditions under which they hold.

  \<^bold>\<open>What is not modelled.\<close> The adapters and the archives (arguments), the API client and accounts, the control
  socket and the installation as a service, the hosted runtime beside its Vault files, the commands, the
  backend and the user interfaces. Strings are lists of code units below 256; JSON numbers are integers;
  writing a file and renaming it is one step that succeeds or fails; logging is left out. Where a component
  models a part of its file only, its theory says which.
\<close>

end
